(* ===== verification/Kprelude.thy ===== *)
theory Kprelude
  imports Main "HOL-Library.Word"
begin

unbundle bit_operations_syntax

section \<open>Prelude: machine types, stopping results, loops and page arithmetic\<close>

text \<open>
  Shared by every component theory:
  \<^item> the C types of the i386 compiler as words (\<open>u8\<close>, \<open>u16\<close>, \<open>u32\<close>);
  \<^item> the result of a kernel routine that may not come back (\<open>res\<close>): the routine panics,
    kills the current process, or would sleep, and then the reason is an \<open>Inl\<close>; else it
    returns a value and the new state as an \<open>Inr\<close>;
  \<^item> sequencing (\<open>bindK\<close>) and counted loops (\<open>forK\<close>) over such routines, with the
    Hoare-style rules every component uses;
  \<^item> page frames and aligned words of physical memory;
  \<^item> generic facts on bits of words.
\<close>

type_synonym u8 = "8 word"
type_synonym u16 = "16 word"
type_synonym u32 = "32 word"

named_theorems kdefs \<open>unfolding of the small helper definitions\<close>
named_theorems kframe \<open>which parts of the state an operation leaves alone\<close>

subsection \<open>Routines that may not return\<close>

text \<open>
  \<open>Panic\<close> is \<^verbatim>\<open>panic()\<close> of \<^verbatim>\<open>kernel/panic.c\<close>, which never
  returns. \<open>Killed sig\<close> is a call of \<^verbatim>\<open>do_exit(sig)\<close> from inside another
  routine, which does not return either. \<open>Sleeps\<close> is a \<^verbatim>\<open>sleep_on\<close> that only
  another process or an interrupt can end. \<open>MathAbort\<close> is the coprocessor emulator's jump out of
  the middle of an instruction. \<open>Wild\<close> is an access through a pointer that points nowhere: the model
  does not say what the machine does then.
\<close>

datatype stop = Panic string | Killed nat | Sleeps string | MathAbort | Wild string

type_synonym ('s, 'a) res = "(stop \<times> 's) + ('a \<times> 's)"

fun bindK :: "('s, 'a) res \<Rightarrow> ('a \<Rightarrow> 's \<Rightarrow> ('s, 'b) res) \<Rightarrow> ('s, 'b) res" where
  "bindK (Inl e) f = Inl e"
| "bindK (Inr (x, s)) f = f x s"

definition retK :: "'a \<Rightarrow> 's \<Rightarrow> ('s, 'a) res" where
  "retK x s = Inr (x, s)"

definition stopK :: "stop \<Rightarrow> 's \<Rightarrow> ('s, 'a) res" where
  "stopK e s = Inl (e, s)"

text \<open>A counted loop whose body has no value: one body per list element, in order.\<close>

primrec forK :: "('i \<Rightarrow> 's \<Rightarrow> ('s, unit) res) \<Rightarrow> 'i list \<Rightarrow> 's \<Rightarrow> ('s, unit) res" where
  "forK body [] s = Inr ((), s)"
| "forK body (i # is) s = bindK (body i s) (\<lambda>_. forK body is)"

lemma bindK_cong [fundef_cong]:
  "r = r' \<Longrightarrow> (\<And>x s. r' = Inr (x, s) \<Longrightarrow> f x s = f' x s) \<Longrightarrow> bindK r f = bindK r' f'"
  by (cases r') auto

lemma bindK_Inr_iff:
  "bindK r f = Inr y \<longleftrightarrow> (\<exists>x s. r = Inr (x, s) \<and> f x s = Inr y)"
  by (cases r) auto

lemma bindK_InrE [elim!]:
  assumes "bindK r f = Inr y"
  obtains x s where "r = Inr (x, s)" and "f x s = Inr y"
  using assms by (auto simp: bindK_Inr_iff)

lemma bindK_retK [simp]: "bindK (retK x s) f = f x s"
  by (simp add: retK_def)

lemma bindK_stopK [simp]: "bindK (stopK e s) f = Inl (e, s)"
  by (simp add: stopK_def)

lemma retK_Inr [simp]: "retK x s = Inr y \<longleftrightarrow> y = (x, s)"
  by (auto simp: retK_def)

lemma stopK_not_Inr [simp]: "stopK e s \<noteq> Inr y"
  by (simp add: stopK_def)

lemma bindK_assoc: "bindK (bindK r f) g = bindK r (\<lambda>x s. bindK (f x s) g)"
  by (cases r) auto

text \<open>The loop rule: an invariant every body keeps holds after the loop.\<close>

lemma forK_invariant:
  assumes "forK body is s = Inr ((), t)" and "P s"
    and "\<And>i s t. i \<in> set is \<Longrightarrow> P s \<Longrightarrow> body i s = Inr ((), t) \<Longrightarrow> P t"
  shows "P t"
  using assms
proof (induction "is" arbitrary: s)
  case Nil
  then show ?case by simp
next
  case (Cons i "is")
  then obtain u where "body i s = Inr ((), u)" and "forK body is u = Inr ((), t)"
    by auto
  with Cons show ?case by (metis list.set_intros)
qed

lemma forK_append:
  "forK body (xs @ ys) s = bindK (forK body xs s) (\<lambda>_. forK body ys)"
proof (induction xs arbitrary: s)
  case Nil
  then show ?case by simp
next
  case (Cons a xs)
  then show ?case by (cases "body a s") (auto simp: bindK_assoc)
qed

text \<open>A loop whose bodies all return, returns.\<close>

lemma forK_total:
  assumes "P s"
    and "\<And>i s. i \<in> set is \<Longrightarrow> P s \<Longrightarrow> \<exists>t. body i s = Inr ((), t) \<and> P t"
  shows "\<exists>t. forK body is s = Inr ((), t) \<and> P t"
  using assms
proof (induction "is" arbitrary: s)
  case Nil
  then show ?case by simp
next
  case (Cons i "is")
  then obtain u where "body i s = Inr ((), u)" and "P u" by (meson list.set_intros(1))
  with Cons show ?case by (simp add: list.set_intros)
qed

subsection \<open>Bits of words\<close>

lemma bit_mask_iff_word: "bit (w AND mask n) i \<longleftrightarrow> bit (w :: 'a::len word) i \<and> i < n"
  by (auto simp: bit_simps dest: bit_imp_le_length)

lemma word_eqI_bits:
  "(\<And>n. n < LENGTH('a) \<Longrightarrow> bit x n = bit y n) \<Longrightarrow> x = (y :: 'a::len word)"
  by (rule bit_word_eqI) simp

lemma odd_word_AND_1: "(w :: 'a::len word) AND 1 \<noteq> 0 \<longleftrightarrow> odd w"
  by (simp add: and_one_eq odd_iff_mod_2_eq_one)

subsection \<open>First-fit searches\<close>

lemma find_upt_least:
  assumes "List.find P [i..<j] = Some n"
  shows "i \<le> n \<and> n < j \<and> P n \<and> (\<forall>m. i \<le> m \<longrightarrow> m < n \<longrightarrow> \<not> P m)"
  using assms
proof (induction "j - i" arbitrary: i)
  case (Suc d)
  then have eq: "[i..<j] = i # [Suc i..<j]" by (simp add: upt_conv_Cons)
  show ?case
  proof (cases "P i")
    case True
    with Suc eq show ?thesis by auto
  next
    case False
    with Suc.prems eq have f: "List.find P [Suc i..<j] = Some n" by simp
    have "d = j - Suc i" using Suc.hyps(2) by simp
    from Suc.hyps(1)[OF this f] have "Suc i \<le> n \<and> n < j \<and> P n \<and> (\<forall>m. Suc i \<le> m \<longrightarrow> m < n \<longrightarrow> \<not> P m)" .
    with False show ?thesis by (metis Suc_leD Suc_leI le_neq_implies_less)
  qed
qed simp

lemma find_None_upt: "List.find P [i..<j] = None \<longleftrightarrow> (\<forall>m. i \<le> m \<longrightarrow> m < j \<longrightarrow> \<not> P m)"
  by (auto simp: find_None_iff)

subsection \<open>Pages and longs of physical memory\<close>

text \<open>
  Physical memory is read and written in aligned longs: a map from addresses to longs, of
  which only the addresses that are multiples of four are used. \<open>page_of a\<close> is the page
  frame an address lies in.
\<close>

type_synonym memory = "u32 \<Rightarrow> u32"

definition page_of :: "u32 \<Rightarrow> u32" where
  "page_of a = a AND 0xfffff000"

definition page_off :: "u32 \<Rightarrow> u32" where
  "page_off a = a AND 0xfff"

definition fill_page :: "u32 \<Rightarrow> (u32 \<Rightarrow> u32) \<Rightarrow> memory \<Rightarrow> memory" where
  "fill_page p f m = (\<lambda>a. if page_of a = p then f (page_off a) else m a)"

lemma fill_page_in [simp]: "page_of a = p \<Longrightarrow> fill_page p f m a = f (page_off a)"
  by (simp add: fill_page_def)

lemma fill_page_out [simp]: "page_of a \<noteq> p \<Longrightarrow> fill_page p f m a = m a"
  by (simp add: fill_page_def)

lemma page_of_idem [simp]: "page_of (page_of a) = page_of a"
  by (simp add: page_of_def and.assoc)

lemma page_off_idem [simp]: "page_off (page_off a) = page_off a"
  by (simp add: page_off_def and.assoc)

lemma page_of_off [simp]: "page_of (page_off a) = 0" "page_off (page_of a) = 0"
  by (simp_all add: page_of_def page_off_def and.assoc)

lemma page_mask_bit: "bit (0xfffff000 :: u32) n \<longleftrightarrow> 12 \<le> n \<and> n < 32"
proof -
  have eq: "(0xfffff000 :: u32) = NOT (mask 12)"
    by (simp add: mask_eq_exp_minus_1 not_eq_complement)
  show ?thesis unfolding eq by (auto simp: bit_not_iff bit_mask_iff dest: bit_imp_le_length)
qed

lemma off_mask_bit: "bit (0xfff :: u32) n \<longleftrightarrow> n < 12"
proof -
  have eq: "(0xfff :: u32) = mask 12" by (simp add: mask_eq_exp_minus_1)
  show ?thesis unfolding eq by (auto simp: bit_mask_iff)
qed

lemma bit_page_of: "bit (page_of a) n \<longleftrightarrow> bit a n \<and> 12 \<le> n"
  unfolding page_of_def bit_and_iff page_mask_bit by (auto dest: bit_imp_le_length)

lemma bit_page_off: "bit (page_off a) n \<longleftrightarrow> bit a n \<and> n < 12"
  unfolding page_off_def bit_and_iff off_mask_bit by auto

lemma page_of_OR [simp]: "page_of (a OR b) = page_of a OR page_of b"
  by (simp add: page_of_def bit.conj_disj_distrib2)

lemma page_split: "page_of a OR page_off a = a"
  by (rule word_eqI_bits) (auto simp: bit_or_iff bit_page_of bit_page_off)

lemma page_of_plus_off:
  assumes "page_of p = p" and "page_off d = d"
  shows "p + d = p OR d" "page_of (p + d) = p" "page_off (p + d) = d"
proof -
  have disj: "p AND d = 0"
    by (rule word_eqI_bits) (metis assms bit_page_of bit_page_off bit_and_iff bit_0_eq bot_apply bot_bool_def linorder_not_less)
  then show eq: "p + d = p OR d"
    by (rule disjunctive_add_eq_or)
  have "page_of (p OR d) = page_of p OR page_of d" by simp
  also have "page_of d = 0" by (metis assms(2) page_of_off(1))
  finally show "page_of (p + d) = p" by (simp add: eq assms)
  have "page_off (p OR d) = page_off p OR page_off d"
    by (simp add: page_off_def bit.conj_disj_distrib2)
  also have "page_off p = 0" by (metis assms(1) page_of_off(2))
  finally show "page_off (p + d) = d" by (simp add: eq assms)
qed

lemma page_off_take_bit: "page_off a = take_bit 12 a"
  by (rule word_eqI_bits) (simp add: bit_page_off bit_take_bit_iff conj_commute)

lemma long_offset [simp]: "k < 1024 \<Longrightarrow> page_off (4 * of_nat k) = 4 * of_nat k"
proof -
  assume k: "k < 1024"
  have eq: "(4 * of_nat k :: u32) = of_nat (4 * k)" by simp
  show ?thesis
    unfolding eq page_off_take_bit word_unat_eq_iff unsigned_take_bit_eq unat_of_nat
    using k by (simp add: take_bit_eq_mod)
qed

end
