(* ===== verification/Mm.thy ===== *)
theory Mm
  imports Kprelude
begin

section \<open>Page frames, page tables and swapping\<close>

text \<open>
  \<^verbatim>\<open>mm/memory.c\<close> and \<^verbatim>\<open>mm/swap.c\<close>: the map of page frames
  (\<open>mem_map\<close>, one use count per frame from \<open>LOW_MEM\<close> up), the page directory at
  physical address 0 and the page tables it points to (all of them longs of \<open>mem\<close>), the
  bit map of the swap device (a page of \<open>mem\<close>, one bit per swap page, set when free) and
  the contents of that device. \<open>tlb_flushes\<close> counts the reloads of \<^verbatim>\<open>cr3\<close>
  (\<^verbatim>\<open>invalidate()\<close>), \<open>klog\<close> holds the kernel messages, newest first.
  A read or write of the swap device (\<^verbatim>\<open>ll_rw_page\<close>) is taken to complete.
  A pointer to a page-table entry is the address of the entry.
\<close>

record mm =
  mem :: memory
  mem_map :: "nat \<Rightarrow> u8"
  high_memory :: u32
  swap_bitmap :: u32
  swap_space :: "nat \<Rightarrow> u32 \<Rightarrow> u32"
  dir_entry :: nat
  page_entry :: int
  tlb_flushes :: nat
  klog :: "string list"

type_synonym 'a mres = "(mm, 'a) res"

subsection \<open>Constants and memory helpers\<close>

definition LOW_MEM :: u32 where "LOW_MEM = 0x100000"
definition PAGING_MEMORY :: u32 where "PAGING_MEMORY = 15 * 1024 * 1024"
definition PAGING_PAGES :: nat where "PAGING_PAGES = 3840"
definition USED :: u8 where "USED = 100"
definition TASK_SIZE :: u32 where "TASK_SIZE = 0x04000000"
definition PAGE_DIRTY :: u32 where "PAGE_DIRTY = 0x40"
definition PAGE_PRESENT :: u32 where "PAGE_PRESENT = 0x01"
definition SWAP_BITS :: nat where "SWAP_BITS = 32768"
definition FIRST_VM_PAGE :: nat where "FIRST_VM_PAGE = 16384"
definition VM_PAGES :: int where "VM_PAGES = 1024 * 1024 - 16384"
definition SIGSEGV :: nat where "SIGSEGV = 11"

lemmas mm_consts = LOW_MEM_def PAGING_MEMORY_def PAGING_PAGES_def USED_def TASK_SIZE_def
  PAGE_DIRTY_def PAGE_PRESENT_def SWAP_BITS_def FIRST_VM_PAGE_def VM_PAGES_def

definition MAP_NR :: "u32 \<Rightarrow> nat" where
  "MAP_NR addr = unat (drop_bit 12 (addr - LOW_MEM))"

definition frame_addr :: "nat \<Rightarrow> u32" where
  "frame_addr i = push_bit 12 (of_nat i) + LOW_MEM"

definition poke :: "u32 \<Rightarrow> u32 \<Rightarrow> mm \<Rightarrow> mm" where
  "poke a v s = s\<lparr>mem := (mem s)(a := v)\<rparr>"

definition printk :: "string \<Rightarrow> mm \<Rightarrow> mm" where
  "printk msg s = s\<lparr>klog := msg # klog s\<rparr>"

definition invalidate :: "mm \<Rightarrow> mm" where
  "invalidate s = s\<lparr>tlb_flushes := Suc (tlb_flushes s)\<rparr>"

definition oom :: "mm \<Rightarrow> 'a mres" where
  "oom s = stopK (Killed SIGSEGV) (printk ''out of memory'' s)"

definition copy_page :: "u32 \<Rightarrow> u32 \<Rightarrow> mm \<Rightarrow> mm" where
  "copy_page from to s = s\<lparr>mem := fill_page to (\<lambda>d. mem s (from + d)) (mem s)\<rparr>"

definition read_swap_page :: "nat \<Rightarrow> u32 \<Rightarrow> mm \<Rightarrow> mm" where
  "read_swap_page nr page s = s\<lparr>mem := fill_page page (swap_space s nr) (mem s)\<rparr>"

definition write_swap_page :: "nat \<Rightarrow> u32 \<Rightarrow> mm \<Rightarrow> mm" where
  "write_swap_page nr page s =
     s\<lparr>swap_space := (swap_space s)(nr := (\<lambda>d. mem s (page + d)))\<rparr>"

text \<open>The directory entry of a linear address, and the entry in the page table \<open>pt\<close>.\<close>

definition dir_addr :: "u32 \<Rightarrow> u32" where
  "dir_addr a = drop_bit 20 a AND 0xffc"

definition pte_addr :: "u32 \<Rightarrow> u32 \<Rightarrow> u32" where
  "pte_addr pt a = page_of pt + (drop_bit 10 a AND 0xffc)"

subsection \<open>Freeing page frames and the swap bit map\<close>

definition free_page :: "u32 \<Rightarrow> mm \<Rightarrow> unit mres" where
  "free_page addr s =
     (if addr < LOW_MEM then retK () s
      else if high_memory s \<le> addr then stopK (Panic ''trying to free nonexistent page'') s
      else let nr = MAP_NR addr in
        if mem_map s nr \<noteq> 0
        then retK () (s\<lparr>mem_map := (mem_map s)(nr := mem_map s nr - 1)\<rparr>)
        else stopK (Panic ''trying to free free page'') (s\<lparr>mem_map := (mem_map s)(nr := 0)\<rparr>))"

definition swap_word :: "nat \<Rightarrow> mm \<Rightarrow> u32" where
  "swap_word nr s = swap_bitmap s + 4 * of_nat (nr div 32)"

definition swap_bit :: "nat \<Rightarrow> mm \<Rightarrow> bool" where
  "swap_bit nr s = bit (mem s (swap_word nr s)) (nr mod 32)"

definition setbit :: "nat \<Rightarrow> mm \<Rightarrow> bool \<times> mm" where
  "setbit nr s = (swap_bit nr s,
     poke (swap_word nr s) (set_bit (nr mod 32) (mem s (swap_word nr s))) s)"

definition clrbit :: "nat \<Rightarrow> mm \<Rightarrow> bool \<times> mm" where
  "clrbit nr s = (swap_bit nr s,
     poke (swap_word nr s) (unset_bit (nr mod 32) (mem s (swap_word nr s))) s)"

primrec scan_swap :: "nat list \<Rightarrow> mm \<Rightarrow> nat \<times> mm" where
  "scan_swap [] s = (0, s)"
| "scan_swap (nr # nrs) s =
     (let (was, s') = clrbit nr s in if was then (nr, s') else scan_swap nrs s')"

definition get_swap_page :: "mm \<Rightarrow> nat \<times> mm" where
  "get_swap_page s = (if swap_bitmap s = 0 then (0, s) else scan_swap [1..<32768] s)"

definition swap_free :: "nat \<Rightarrow> mm \<Rightarrow> unit mres" where
  "swap_free swap_nr s =
     (if swap_nr = 0 then retK () s
      else if swap_bitmap s \<noteq> 0 \<and> swap_nr < SWAP_BITS
      then let (was, s') = setbit swap_nr s in
        if \<not> was then retK () s'
        else retK () (printk ''Swap-space bad (swap_free())'' s')
      else retK () (printk ''Swap-space bad (swap_free())'' s))"

subsection \<open>Swapping out and finding a free frame\<close>

definition try_to_swap_out :: "u32 \<Rightarrow> mm \<Rightarrow> bool mres" where
  "try_to_swap_out table_ptr s =
     (let page = mem s table_ptr in
      if PAGE_PRESENT AND page = 0 then retK False s
      else if PAGING_MEMORY < page - LOW_MEM then retK False s
      else if PAGE_DIRTY AND page \<noteq> 0 then
        (let page = page_of page in
         if mem_map s (MAP_NR page) \<noteq> 1 then retK False s
         else let (swap_nr, s) = get_swap_page s in
           if swap_nr = 0 then retK False s
           else bindK (free_page page (write_swap_page swap_nr page
                  (invalidate (poke table_ptr (2 * of_nat swap_nr) s))))
                (\<lambda>_. retK True))
      else bindK (free_page page (invalidate (poke table_ptr 0 s))) (\<lambda>_. retK True))"

definition next_dir :: "nat \<Rightarrow> nat" where
  "next_dir d = (if 1024 \<le> d + 1 then FIRST_VM_PAGE div 1024 else d + 1)"

definition pg_dir :: "mm \<Rightarrow> nat \<Rightarrow> u32" where
  "pg_dir s d = mem s (4 * of_nat d)"

text \<open>The first loop of \<^verbatim>\<open>swap_out\<close>: find a directory entry with a page table.\<close>

function find_dir :: "int \<Rightarrow> u32 \<Rightarrow> mm \<Rightarrow> int \<times> u32 \<times> mm" where
  "find_dir counter pg_table s =
     (if counter \<le> 0 then (counter, pg_table, s)
      else let pg_table = pg_dir s (dir_entry s) in
        if pg_table AND 1 \<noteq> 0 then (counter, pg_table, s)
        else find_dir (counter - 1024) pg_table (s\<lparr>dir_entry := next_dir (dir_entry s)\<rparr>))"
  by pat_completeness auto
termination
  by (relation "measure (\<lambda>(c, _, _). nat c)") auto

text \<open>The \<^verbatim>\<open>repeat:\<close> part: the next directory entry with a page table, if the
  counter lasts.\<close>

function repeat_dir :: "int \<Rightarrow> mm \<Rightarrow> (int \<times> u32) option \<times> mm" where
  "repeat_dir counter s =
     (let s = s\<lparr>dir_entry := next_dir (dir_entry s)\<rparr>;
          pg_table = pg_dir s (dir_entry s) in
      if pg_table AND 1 \<noteq> 0 then (Some (counter, page_of pg_table), s)
      else if 0 < counter - 1024 then repeat_dir (counter - 1024) s
      else (None, s))"
  by pat_completeness auto
termination
  by (relation "measure (\<lambda>(c, _). nat c)") auto

declare find_dir.simps [simp del] repeat_dir.simps [simp del]

lemma repeat_dir_counter: "repeat_dir c s = (Some (c', pt), s') \<Longrightarrow> c' \<le> c"
proof (induction c s arbitrary: s' rule: repeat_dir.induct)
  case (1 c s)
  then show ?case
    by (subst (asm) (2) repeat_dir.simps) (fastforce simp: Let_def split: if_splits)
qed

function swap_scan :: "int \<Rightarrow> u32 \<Rightarrow> mm \<Rightarrow> bool mres" where
  "swap_scan counter pg_table s =
     (if counter \<le> 0 then retK False s
      else let counter = counter - 1;
               s = s\<lparr>page_entry := page_entry s + 1\<rparr> in
        if 1024 \<le> page_entry s then
          (case repeat_dir counter (s\<lparr>page_entry := 0\<rparr>) of
             (None, s) \<Rightarrow> retK False s
           | (Some (counter, pg_table), s) \<Rightarrow>
               bindK (try_to_swap_out (pg_table + 4 * of_int (page_entry s)) s)
                 (\<lambda>r s. if r then retK True s else swap_scan counter pg_table s))
        else bindK (try_to_swap_out (pg_table + 4 * of_int (page_entry s)) s)
               (\<lambda>r s. if r then retK True s else swap_scan counter pg_table s))"
  by pat_completeness auto
termination
  by (relation "measure (\<lambda>(c, _, _). nat c)") (auto dest!: repeat_dir_counter[OF sym])

declare swap_scan.simps [simp del]

definition swap_out :: "mm \<Rightarrow> bool mres" where
  "swap_out s =
     (let (counter, pg_table, s) = find_dir VM_PAGES 0 s in
      bindK (swap_scan counter (page_of pg_table) s)
        (\<lambda>r s. if r then retK True s
                else retK False (printk ''Out of swap-memory'' s)))"

subsubsection \<open>What swapping out does to the longs of memory\<close>

text \<open>
  A page-table entry of a present page is odd. Clearing a bit of the swap map and replacing
  an entry by a swap number (or by 0) only ever turn odd longs into even ones, so each
  successful \<open>swap_out\<close> leaves fewer odd longs. This is what ends the \<^verbatim>\<open>goto
  repeat\<close> of \<^verbatim>\<open>get_free_page\<close>.
\<close>

definition odd_longs :: "mm \<Rightarrow> u32 set" where
  "odd_longs s = {a. odd (mem s a)}"

lemma odd_longs_simps [simp]:
  "odd_longs (s\<lparr>mem_map := m\<rparr>) = odd_longs s"
  "odd_longs (s\<lparr>dir_entry := d\<rparr>) = odd_longs s"
  "odd_longs (s\<lparr>page_entry := e\<rparr>) = odd_longs s"
  "odd_longs (invalidate s) = odd_longs s"
  "odd_longs (printk msg s) = odd_longs s"
  "odd_longs (write_swap_page nr p s) = odd_longs s"
  by (simp_all add: odd_longs_def invalidate_def printk_def write_swap_page_def)

lemma odd_longs_poke_even: "even v \<Longrightarrow> odd_longs (poke a v s) = odd_longs s - {a}"
  by (auto simp: odd_longs_def poke_def)

lemma odd_unset_bit: "odd (unset_bit n w) \<Longrightarrow> odd (w :: u32)"
  by (auto simp: even_unset_bit_iff)

lemma clrbit_odd_longs: "clrbit nr s = (b, s') \<Longrightarrow> odd_longs s' \<subseteq> odd_longs s"
  by (auto simp: clrbit_def odd_longs_def poke_def dest!: odd_unset_bit split: if_splits)

lemma scan_swap_odd_longs: "scan_swap nrs s = (n, s') \<Longrightarrow> odd_longs s' \<subseteq> odd_longs s"
proof (induction nrs arbitrary: s)
  case (Cons nr nrs)
  obtain b u where "clrbit nr s = (b, u)" by (cases "clrbit nr s")
  with Cons show ?case
    by (cases b) (fastforce dest: clrbit_odd_longs)+
qed simp

lemma get_swap_page_odd_longs: "get_swap_page s = (n, s') \<Longrightarrow> odd_longs s' \<subseteq> odd_longs s"
  by (auto simp: get_swap_page_def dest: scan_swap_odd_longs split: if_splits)

lemma free_page_mem: "free_page a s = Inr (u, s') \<Longrightarrow> mem s' = mem s"
  by (auto simp: free_page_def Let_def split: if_splits)

lemma free_page_odd_longs: "free_page a s = Inr (u, s') \<Longrightarrow> odd_longs s' = odd_longs s"
  by (simp add: odd_longs_def free_page_mem)

lemma try_to_swap_out_odd_longs:
  assumes "try_to_swap_out tp s = Inr (r, s')"
  shows "if r then odd_longs s' \<subset> odd_longs s else odd_longs s' \<subseteq> odd_longs s"
proof -
  have tp: "tp \<in> odd_longs s" if "PAGE_PRESENT AND mem s tp \<noteq> 0"
    using that odd_word_AND_1[of "mem s tp"]
    by (simp add: odd_longs_def PAGE_PRESENT_def and.commute)
  show ?thesis
    using assms unfolding try_to_swap_out_def
    by (auto simp: Let_def odd_longs_poke_even dest!: free_page_odd_longs tp
        dest: get_swap_page_odd_longs[THEN subsetD] split: if_splits prod.splits)
qed

lemma repeat_dir_odd_longs: "repeat_dir c s = (r, s') \<Longrightarrow> odd_longs s' = odd_longs s"
proof (induction c s arbitrary: r s' rule: repeat_dir.induct)
  case (1 c s)
  then show ?case
    by (subst (asm) (2) repeat_dir.simps) (fastforce simp: Let_def split: if_splits)
qed

lemma find_dir_odd_longs: "find_dir c p s = (c', p', s') \<Longrightarrow> odd_longs s' = odd_longs s"
proof (induction c p s arbitrary: c' p' s' rule: find_dir.induct)
  case (1 c p s)
  then show ?case
    by (subst (asm) (2) find_dir.simps) (fastforce simp: Let_def split: if_splits)
qed

lemma swap_scan_odd_longs:
  "swap_scan c p s = Inr (r, s') \<Longrightarrow>
     if r then odd_longs s' \<subset> odd_longs s else odd_longs s' \<subseteq> odd_longs s"
proof (induction c p s arbitrary: r s' rule: swap_scan.induct)
  case (1 c p s)
  let ?s1 = "s\<lparr>page_entry := page_entry s + 1\<rparr>"
  have step: "if r then odd_longs s' \<subset> odd_longs s else odd_longs s' \<subseteq> odd_longs s"
    if run: "bindK (try_to_swap_out a u)
        (\<lambda>r u. if r then retK True u else swap_scan c2 p2 u) = Inr (r, s')"
      and u: "odd_longs u = odd_longs s"
      and IH: "\<And>x v. try_to_swap_out a u = Inr (x, v) \<Longrightarrow> \<not> x \<Longrightarrow> swap_scan c2 p2 v = Inr (r, s') \<Longrightarrow>
        if r then odd_longs s' \<subset> odd_longs v else odd_longs s' \<subseteq> odd_longs v"
    for a u c2 p2
  proof -
    from run obtain x v where t: "try_to_swap_out a u = Inr (x, v)"
      and rest: "(if x then retK True v else swap_scan c2 p2 v) = Inr (r, s')" by auto
    show ?thesis
      using try_to_swap_out_odd_longs[OF t] rest IH[OF t] u
      by (cases x; cases r) auto
  qed
  show ?case
  proof (cases "c \<le> 0")
    case True
    with "1.prems" show ?thesis by (simp add: swap_scan.simps)
  next
    case False
    show ?thesis
    proof (cases "1024 \<le> page_entry ?s1")
      case True
      obtain o' u where rd: "repeat_dir (c - 1) (?s1\<lparr>page_entry := 0\<rparr>) = (o', u)" by fastforce
      with repeat_dir_odd_longs have u: "odd_longs u = odd_longs s" by fastforce
      show ?thesis
      proof (cases o')
        case None
        with "1.prems" False True rd u show ?thesis
          by (subst (asm) swap_scan.simps) (auto simp: Let_def)
      next
        case (Some cp)
        obtain c2 p2 where cp: "cp = (c2, p2)" by (cases cp)
        from "1.prems" False True rd Some cp
        have run: "bindK (try_to_swap_out (p2 + 4 * of_int (page_entry u)) u)
            (\<lambda>r u. if r then retK True u else swap_scan c2 p2 u) = Inr (r, s')"
          by (subst (asm) swap_scan.simps) (simp add: Let_def)
        show ?thesis
          by (rule step[OF run u])
             (rule "1.IH"(1)[OF False refl refl True rd[symmetric] Some cp[symmetric]], assumption+)
      qed
    next
      case F2: False
      from "1.prems" False F2
      have run: "bindK (try_to_swap_out (p + 4 * of_int (page_entry ?s1)) ?s1)
          (\<lambda>r u. if r then retK True u else swap_scan (c - 1) p u) = Inr (r, s')"
        by (subst (asm) swap_scan.simps) (simp add: Let_def)
      show ?thesis
        by (rule step[OF run]) (simp, rule "1.IH"(2)[OF False refl refl F2], assumption+)
    qed
  qed
qed

lemma swap_out_odd_longs:
  "swap_out s = Inr (r, s') \<Longrightarrow>
     if r then odd_longs s' \<subset> odd_longs s else odd_longs s' \<subseteq> odd_longs s"
proof -
  assume so: "swap_out s = Inr (r, s')"
  obtain c p u where fd: "find_dir VM_PAGES 0 s = (c, p, u)" by (metis prod_cases3)
  with so obtain x v where sc: "swap_scan c (page_of p) u = Inr (x, v)"
    and rest: "(if x then retK True v
      else retK False (printk ''Out of swap-memory'' v)) = Inr (r, s')"
    by (auto simp: swap_out_def)
  show ?thesis
    using swap_scan_odd_longs[OF sc] rest find_dir_odd_longs[OF fd] by (auto split: if_splits)
qed

subsubsection \<open>get_free_page\<close>

text \<open>The \<^verbatim>\<open>repne scasb\<close> from the last frame down.\<close>

primrec scan_down :: "(nat \<Rightarrow> u8) \<Rightarrow> nat \<Rightarrow> nat option" where
  "scan_down m 0 = None"
| "scan_down m (Suc i) = (if m i = 0 then Some i else scan_down m i)"

definition take_frame :: "nat \<Rightarrow> mm \<Rightarrow> mm" where
  "take_frame i s = s\<lparr>mem_map := (mem_map s)(i := 1),
     mem := fill_page (frame_addr i) (\<lambda>_. 0) (mem s)\<rparr>"

definition free_frames :: "mm \<Rightarrow> nat set" where
  "free_frames s = {i. i < PAGING_PAGES \<and> mem_map s i = 0}"

lemma scan_down_Some:
  "scan_down m n = Some i \<Longrightarrow> i < n \<and> m i = 0 \<and> (\<forall>j. i < j \<longrightarrow> j < n \<longrightarrow> m j \<noteq> 0)"
  by (induction n) (auto split: if_splits simp: less_Suc_eq)

lemma scan_down_None: "scan_down m n = None \<longleftrightarrow> (\<forall>i<n. m i \<noteq> 0)"
  by (induction n) (auto simp: less_Suc_eq)

lemma take_frame_odd_longs: "odd_longs (take_frame i s) \<subseteq> odd_longs s"
  by (auto simp: odd_longs_def take_frame_def fill_page_def)

lemma take_frame_free_frames:
  "i \<in> free_frames s \<Longrightarrow> free_frames (take_frame i s) = free_frames s - {i}"
  by (auto simp: free_frames_def take_frame_def)

function get_free_page :: "mm \<Rightarrow> u32 mres" where
  "get_free_page s =
     (case scan_down (mem_map s) PAGING_PAGES of
        Some i \<Rightarrow>
          if high_memory s \<le> frame_addr i then get_free_page (take_frame i s)
          else retK (frame_addr i) (take_frame i s)
      | None \<Rightarrow> bindK (swap_out s) (\<lambda>r s. if r then get_free_page s else retK 0 s))"
  by pat_completeness auto
termination
proof (relation "measures [\<lambda>s::mm. card (odd_longs s), \<lambda>s. card (free_frames s)]")
  fix s :: mm and i
  assume "scan_down (mem_map s) PAGING_PAGES = Some i"
  then have i: "i \<in> free_frames s"
    by (simp add: free_frames_def scan_down_Some)
  have "finite (free_frames s)" by (simp add: free_frames_def)
  with i have "card (free_frames (take_frame i s)) < card (free_frames s)"
    by (simp only: take_frame_free_frames card_Diff1_less)
  moreover have "card (odd_longs (take_frame i s)) \<le> card (odd_longs s)"
    by (rule card_mono[OF _ take_frame_odd_longs]) simp
  ultimately show "(take_frame i s, s) \<in> measures
      [\<lambda>s::mm. card (odd_longs s), \<lambda>s. card (free_frames s)]" by auto
next
  fix s s' :: mm and r
  assume "swap_out s = Inr (r, s')" and r
  then have "odd_longs s' \<subset> odd_longs s" using swap_out_odd_longs by fastforce
  then have "card (odd_longs s') < card (odd_longs s)" by (rule psubset_card_mono[rotated]) simp
  then show "(s', s) \<in> measures
      [\<lambda>s::mm. card (odd_longs s), \<lambda>s. card (free_frames s)]" by simp
qed simp

declare get_free_page.simps [simp del]

subsection \<open>Swapping in\<close>

definition swap_in :: "u32 \<Rightarrow> mm \<Rightarrow> unit mres" where
  "swap_in table_ptr s =
     (if swap_bitmap s = 0 then retK () (printk ''Trying to swap in without swap bit-map'' s)
      else if 1 AND mem s table_ptr \<noteq> 0
      then retK () (printk ''trying to swap in present page'' s)
      else let swap_nr = unat (drop_bit 1 (mem s table_ptr)) in
        if swap_nr = 0 then retK () (printk ''No swap page in swap_in'' s)
        else bindK (get_free_page s) (\<lambda>page s.
          if page = 0 then oom s
          else let (was, s) = setbit swap_nr (read_swap_page swap_nr page s);
                   s = (if was then printk ''swapping in multiply from same page'' s else s)
               in retK () (poke table_ptr (page OR (PAGE_DIRTY OR 7)) s)))"

subsection \<open>Freeing and copying page tables\<close>

definition free_pte :: "u32 \<Rightarrow> mm \<Rightarrow> unit mres" where
  "free_pte a s =
     (let e = mem s a in
      if e = 0 then retK () s
      else bindK (if 1 AND e \<noteq> 0 then free_page (page_of e) s
                  else swap_free (unat (drop_bit 1 e)) s)
             (\<lambda>_ s. retK () (poke a 0 s)))"

definition free_table :: "u32 \<Rightarrow> mm \<Rightarrow> unit mres" where
  "free_table dir s =
     (if 1 AND mem s dir = 0 then retK () s
      else let pg_table = page_of (mem s dir) in
        bindK (forK (\<lambda>nr. free_pte (pg_table + 4 * of_nat nr)) [0..<1024] s)
          (\<lambda>_ s. bindK (free_page (page_of (mem s dir)) s)
            (\<lambda>_ s. retK () (poke dir 0 s))))"

definition free_page_tables :: "u32 \<Rightarrow> u32 \<Rightarrow> mm \<Rightarrow> int mres" where
  "free_page_tables from len s =
     (if from AND 0x3fffff \<noteq> 0
      then stopK (Panic ''free_page_tables called with wrong alignment'') s
      else if from = 0 then stopK (Panic ''Trying to free up swapper memory space'') s
      else let n = unat (drop_bit 22 (len + 0x3fffff)) in
        bindK (forK (\<lambda>k. free_table (dir_addr from + 4 * of_nat k)) [0..<n] s)
          (\<lambda>_ s. retK 0 (invalidate s)))"

definition share_frame :: "u32 \<Rightarrow> mm \<Rightarrow> mm" where
  "share_frame e s = s\<lparr>mem_map := (mem_map s)(MAP_NR e := mem_map s (MAP_NR e) + 1)\<rparr>"

text \<open>The inner loop of \<^verbatim>\<open>copy_page_tables\<close>; \<open>False\<close> is its
  \<^verbatim>\<open>return -1\<close>.\<close>

fun copy_ptes :: "nat \<Rightarrow> u32 \<Rightarrow> u32 \<Rightarrow> mm \<Rightarrow> bool mres" where
  "copy_ptes 0 from_pt to_pt s = retK True s"
| "copy_ptes (Suc nr) from_pt to_pt s =
     (let this_page = mem s from_pt in
      if this_page = 0 then copy_ptes nr (from_pt + 4) (to_pt + 4) s
      else if 1 AND this_page = 0 then
        bindK (get_free_page s) (\<lambda>new_page s.
          if new_page = 0 then retK False s
          else copy_ptes nr (from_pt + 4) (to_pt + 4)
            (poke from_pt (new_page OR (PAGE_DIRTY OR 7)) (poke to_pt this_page
              (read_swap_page (unat (drop_bit 1 this_page)) new_page s))))
      else
        (let this_page = this_page AND NOT 2;
             s = poke to_pt this_page s in
         if LOW_MEM < this_page
         then copy_ptes nr (from_pt + 4) (to_pt + 4)
                (share_frame this_page (poke from_pt this_page s))
         else copy_ptes nr (from_pt + 4) (to_pt + 4) s))"

fun copy_dirs :: "nat \<Rightarrow> bool \<Rightarrow> u32 \<Rightarrow> u32 \<Rightarrow> mm \<Rightarrow> bool mres" where
  "copy_dirs 0 from_0 from_dir to_dir s = retK True s"
| "copy_dirs (Suc n) from_0 from_dir to_dir s =
     (if 1 AND mem s to_dir \<noteq> 0 then stopK (Panic ''copy_page_tables: already exist'') s
      else if 1 AND mem s from_dir = 0
      then copy_dirs n from_0 (from_dir + 4) (to_dir + 4) s
      else let from_page_table = page_of (mem s from_dir) in
        bindK (get_free_page s) (\<lambda>to_page_table s.
          if to_page_table = 0 then retK False s
          else bindK (copy_ptes (if from_0 then 0xA0 else 1024) from_page_table to_page_table
                   (poke to_dir (to_page_table OR 7) s))
            (\<lambda>ok s. if ok then copy_dirs n from_0 (from_dir + 4) (to_dir + 4) s
                     else retK False s)))"

definition copy_page_tables :: "u32 \<Rightarrow> u32 \<Rightarrow> u32 \<Rightarrow> mm \<Rightarrow> int mres" where
  "copy_page_tables from to len s =
     (if from AND 0x3fffff \<noteq> 0 \<or> to AND 0x3fffff \<noteq> 0
      then stopK (Panic ''copy_page_tables called with wrong alignment'') s
      else let n = unat (drop_bit 22 (len + 0x3fffff)) in
        bindK (copy_dirs n (from = 0) (dir_addr from) (dir_addr to) s)
          (\<lambda>ok s. if ok then retK 0 (invalidate s) else retK (-1) s))"

subsection \<open>Entering pages, and taking a page out of write protection\<close>

text \<open>The common body of \<^verbatim>\<open>put_page\<close> and \<^verbatim>\<open>put_dirty_page\<close>, which
  differ in the flags of the new entry only.\<close>

definition enter_page :: "u32 \<Rightarrow> u32 \<Rightarrow> u32 \<Rightarrow> mm \<Rightarrow> u32 mres" where
  "enter_page flags page address s =
     (let s = (if page < LOW_MEM \<or> high_memory s \<le> page
               then printk ''Trying to put page %p at %p'' s else s);
          s = (if mem_map s (MAP_NR page) \<noteq> 1
               then printk ''mem_map disagrees with %p at %p'' s else s);
          slot = drop_bit 12 address AND 0x3ff in
      if mem s (dir_addr address) AND 1 \<noteq> 0
      then let page_table = page_of (mem s (dir_addr address)) in
        retK page (poke (page_table + 4 * slot) (page OR flags) s)
      else bindK (get_free_page s) (\<lambda>tmp s.
        if tmp = 0 then retK 0 s
        else let s = poke (dir_addr address) (tmp OR 7) s in
          retK page (poke (tmp + 4 * slot) (page OR flags) s)))"

definition put_page :: "u32 \<Rightarrow> u32 \<Rightarrow> mm \<Rightarrow> u32 mres" where
  "put_page page address s = enter_page 7 page address s"

definition put_dirty_page :: "u32 \<Rightarrow> u32 \<Rightarrow> mm \<Rightarrow> u32 mres" where
  "put_dirty_page page address s = enter_page (PAGE_DIRTY OR 7) page address s"

definition un_wp_page :: "u32 \<Rightarrow> mm \<Rightarrow> unit mres" where
  "un_wp_page table_entry s =
     (let old_page = page_of (mem s table_entry) in
      if LOW_MEM \<le> old_page \<and> mem_map s (MAP_NR old_page) = 1
      then retK () (invalidate (poke table_entry (mem s table_entry OR 2) s))
      else bindK (get_free_page s) (\<lambda>new_page s.
        if new_page = 0 then oom s
        else let s = (if LOW_MEM \<le> old_page
                      then s\<lparr>mem_map := (mem_map s)
                             (MAP_NR old_page := mem_map s (MAP_NR old_page) - 1)\<rparr>
                      else s)
             in retK () (invalidate (poke table_entry (new_page OR 7)
                  (copy_page old_page new_page s)))))"

definition write_verify :: "u32 \<Rightarrow> mm \<Rightarrow> unit mres" where
  "write_verify address s =
     (let page = mem s (dir_addr address) in
      if page AND 1 = 0 then retK () s
      else let page = page_of page + (drop_bit 10 address AND 0xffc) in
        if 3 AND mem s page = 1 then un_wp_page page s else retK () s)"

definition get_empty_page :: "u32 \<Rightarrow> mm \<Rightarrow> unit mres" where
  "get_empty_page address s =
     bindK (get_free_page s) (\<lambda>tmp s.
       bindK (if tmp = 0 then retK 0 s else put_page tmp address s) (\<lambda>put s.
         if put = 0 then bindK (free_page tmp s) (\<lambda>_. oom) else retK () s))"

subsection \<open>Initialisation\<close>

definition mem_init :: "int \<Rightarrow> int \<Rightarrow> mm \<Rightarrow> mm" where
  "mem_init start_mem end_mem s =
     (let s = s\<lparr>high_memory := of_int end_mem,
                mem_map := (\<lambda>i. if i < PAGING_PAGES then USED else mem_map s i)\<rparr>;
          i = MAP_NR (of_int start_mem);
          n = nat ((end_mem - start_mem) div 4096) in
      s\<lparr>mem_map := fold (\<lambda>k m. m(k := 0)) [i..<i + n] (mem_map s)\<rparr>)"

end
