(* ===== verification/Interfaces.thy ===== *)
theory Interfaces
  imports Kprelude
begin

section \<open>Interfaces between the components\<close>

text \<open>
  The contracts that several components of the kernel share, as locales: what the provider
  promises is assumed, what a client may conclude is proved here once. Each is interpreted,
  in the theory of its providers, on the definitions that model the code.
\<close>

subsection \<open>A pool of numbered resources\<close>

text \<open>
  A bit map of free numbers: \<open>take\<close> hands out the least free number, \<open>give\<close> returns one.
  The swap pages of \<^verbatim>\<open>mm/swap.c\<close> and the zones and inodes of
  \<^verbatim>\<open>fs/bitmap.c\<close> are pools.
\<close>

locale free_pool =
  fixes take :: "'s \<Rightarrow> (nat \<times> 's) option"
    and give :: "nat \<Rightarrow> 's \<Rightarrow> 's"
    and pool :: "'s \<Rightarrow> nat set"
    and ok :: "'s \<Rightarrow> bool"
    and valid :: "nat \<Rightarrow> bool"
  assumes take_None: "ok s \<Longrightarrow> take s = None \<longleftrightarrow> pool s = {}"
    and take_least: "ok s \<Longrightarrow> take s = Some (n, s') \<Longrightarrow> n \<in> pool s \<and> (\<forall>m \<in> pool s. n \<le> m)"
    and take_pool: "ok s \<Longrightarrow> take s = Some (n, s') \<Longrightarrow> pool s' = pool s - {n}"
    and take_ok: "ok s \<Longrightarrow> take s = Some (n, s') \<Longrightarrow> ok s'"
    and give_pool: "ok s \<Longrightarrow> valid n \<Longrightarrow> pool (give n s) = insert n (pool s)"
    and give_ok: "ok s \<Longrightarrow> valid n \<Longrightarrow> ok (give n s)"
    and pool_valid: "ok s \<Longrightarrow> n \<in> pool s \<Longrightarrow> valid n"
begin

lemma take_distinct:
  "ok s \<Longrightarrow> take s = Some (n, s') \<Longrightarrow> take s' = Some (m, s'') \<Longrightarrow> n < m"
  by (metis Diff_iff singletonI take_least take_ok take_pool le_neq_implies_less)

lemma take_give:
  "ok s \<Longrightarrow> take s = Some (n, s') \<Longrightarrow> pool (give n s') = pool s"
  by (metis give_pool insert_Diff pool_valid take_least take_ok take_pool)

lemma take_give_take:
  assumes "ok s" and t: "take s = Some (n, s')"
  shows "\<exists>s''. take (give n s') = Some (n, s'')"
proof -
  have ok': "ok (give n s')"
    using assms by (meson give_ok pool_valid take_least take_ok)
  have p: "pool (give n s') = pool s" using assms by (rule take_give)
  with take_least[OF assms] have "pool (give n s') \<noteq> {}" by auto
  with take_None[OF ok'] obtain m s'' where m: "take (give n s') = Some (m, s'')" by fastforce
  with take_least[OF ok' m] take_least[OF assms] p have "m = n" by (auto intro: antisym)
  with m show ?thesis by auto
qed

end

end
