(* ===== verification/Mm_Swap.thy ===== *)
theory Mm_Swap
  imports Mm Interfaces
begin

section \<open>The swap bit map is a pool of swap pages\<close>

text \<open>
  \<^verbatim>\<open>get_swap_page\<close> and \<^verbatim>\<open>swap_free\<close> of \<^verbatim>\<open>mm/swap.c\<close>
  meet the contract \<open>free_pool\<close>; then what \<^verbatim>\<open>try_to_swap_out\<close> wrote is what
  \<^verbatim>\<open>swap_in\<close> brings back.
\<close>

lemma swap_offset_inj:
  assumes "a < 1024" and "b < 1024" and "4 * of_nat a = (4 * of_nat b :: u32)"
  shows "a = b"
proof -
  have "unat (4 * of_nat c :: u32) = 4 * c" if "c < 1024" for c
  proof -
    have "(4 * of_nat c :: u32) = of_nat (4 * c)" by simp
    with that show ?thesis by (simp only: unat_of_nat) simp
  qed
  with assms show ?thesis by (metis mult_left_cancel zero_neq_numeral)
qed

lemma swap_word_eq:
  assumes "a < SWAP_BITS" and "b < SWAP_BITS"
  shows "swap_word a s = swap_word b s \<longleftrightarrow> a div 32 = b div 32"
  using assms swap_offset_inj[of "a div 32" "b div 32"]
  by (auto simp: swap_word_def SWAP_BITS_def)

lemma nat_eq_div_mod: "a div 32 = b div 32 \<Longrightarrow> a mod 32 = b mod 32 \<Longrightarrow> a = (b :: nat)"
  by (metis div_mod_decomp)

lemma swap_bit_clrbit:
  assumes "m < SWAP_BITS" and "n < SWAP_BITS"
  shows "swap_bit m (snd (clrbit n s)) \<longleftrightarrow> swap_bit m s \<and> m \<noteq> n"
proof (cases "m div 32 = n div 32")
  case True
  with assms show ?thesis
    by (auto simp: clrbit_def swap_bit_def poke_def swap_word_def bit_unset_bit_iff
        dest: nat_eq_div_mod)
next
  case False
  with assms swap_word_eq[of m n s] show ?thesis
    by (auto simp: clrbit_def swap_bit_def poke_def swap_word_def)
qed

lemma swap_bit_setbit:
  assumes "m < SWAP_BITS" and "n < SWAP_BITS"
  shows "swap_bit m (snd (setbit n s)) \<longleftrightarrow> swap_bit m s \<or> m = n"
proof (cases "m div 32 = n div 32")
  case True
  with assms show ?thesis
    by (auto simp: setbit_def swap_bit_def poke_def swap_word_def bit_set_bit_iff
        dest: nat_eq_div_mod)
next
  case False
  with assms swap_word_eq[of m n s] show ?thesis
    by (auto simp: setbit_def swap_bit_def poke_def swap_word_def)
qed

lemma clrbit_clear: "\<not> swap_bit n s \<Longrightarrow> clrbit n s = (False, s)"
proof -
  assume "\<not> swap_bit n s"
  then have "unset_bit (n mod 32) (mem s (swap_word n s)) = mem s (swap_word n s)"
    by (simp add: swap_bit_def unset_bit_eq_idem_iff)
  then have "poke (swap_word n s) (unset_bit (n mod 32) (mem s (swap_word n s))) s = s"
    by (simp only: poke_def fun_upd_triv) simp
  with \<open>\<not> swap_bit n s\<close> show ?thesis by (simp add: clrbit_def)
qed

text \<open>The scan stops at the first set bit, which it clears, and touches nothing before it.\<close>

lemma scan_swap_first:
  assumes "\<forall>n \<in> set ns. 0 < n"
  shows "scan_swap ns s =
     (case List.find (\<lambda>n. swap_bit n s) ns of
        None \<Rightarrow> (0, s)
      | Some n \<Rightarrow> (n, snd (clrbit n s)))"
  using assms
proof (induction ns arbitrary: s)
  case (Cons n ns)
  show ?case
  proof (cases "swap_bit n s")
    case True
    then show ?thesis by (simp add: clrbit_def Let_def)
  next
    case False
    with Cons show ?thesis by (simp add: clrbit_clear)
  qed
qed simp

definition swap_pool :: "mm \<Rightarrow> nat set" where
  "swap_pool s = {n. 0 < n \<and> n < SWAP_BITS \<and> swap_bit n s}"

definition swap_take :: "mm \<Rightarrow> (nat \<times> mm) option" where
  "swap_take s = (let (n, s') = get_swap_page s in if n = 0 then None else Some (n, s'))"

lemma swap_take_cases:
  assumes "swap_bitmap s \<noteq> 0"
  shows "swap_take s =
     (case List.find (\<lambda>n. swap_bit n s) [1..<32768] of
        None \<Rightarrow> None | Some n \<Rightarrow> Some (n, snd (clrbit n s)))"
proof -
  have pos: "\<forall>n \<in> set [1..<32768::nat]. 0 < n" by (simp only: set_upt) auto
  have "n \<noteq> 0" if "List.find (\<lambda>n. swap_bit n s) [1..<32768] = Some n" for n
    using find_upt_least[OF that] by simp
  then show ?thesis
    using assms unfolding swap_take_def get_swap_page_def scan_swap_first[OF pos]
    by (auto split: option.splits)
qed

interpretation swap: free_pool swap_take "\<lambda>n s. snd (setbit n s)" swap_pool
    "\<lambda>s. swap_bitmap s \<noteq> 0" "\<lambda>n. 0 < n \<and> n < SWAP_BITS"
proof
  fix s s' :: mm and n :: nat
  assume ok: "swap_bitmap s \<noteq> 0"
  show "swap_take s = None \<longleftrightarrow> swap_pool s = {}"
    by (auto simp: swap_take_cases[OF ok] swap_pool_def find_None_upt SWAP_BITS_def
        split: option.splits dest!: find_upt_least)
  show "0 < n \<and> n < SWAP_BITS \<Longrightarrow> swap_pool (snd (setbit n s)) = insert n (swap_pool s)"
    by (auto simp: swap_pool_def swap_bit_setbit)
  show "swap_bitmap (snd (setbit n s)) \<noteq> 0"
    using ok by (simp add: setbit_def poke_def)
  show "n \<in> swap_pool s \<Longrightarrow> 0 < n \<and> n < SWAP_BITS" by (simp add: swap_pool_def)
  assume "swap_take s = Some (n, s')"
  then have f: "List.find (\<lambda>n. swap_bit n s) [1..<32768] = Some n"
    and s': "s' = snd (clrbit n s)"
    by (auto simp: swap_take_cases[OF ok] split: option.splits)
  note least = find_upt_least[OF f]
  show "n \<in> swap_pool s \<and> (\<forall>m \<in> swap_pool s. n \<le> m)"
    using least by (auto simp: swap_pool_def SWAP_BITS_def not_less[symmetric])
  show "swap_pool s' = swap_pool s - {n}"
    using least by (auto simp: s' swap_pool_def swap_bit_clrbit SWAP_BITS_def)
  show "swap_bitmap s' \<noteq> 0" using ok by (simp add: s' clrbit_def poke_def)
qed

end
