(* ===== verification/Mm_Props.thy ===== *)
theory Mm_Props
  imports Mm_Swap
begin

section \<open>Properties of the page allocator, copy-on-write and swapping\<close>

text \<open>
  Facts about \<^verbatim>\<open>get_free_page\<close> (what it hands out, and when it gives up), about
  \<^verbatim>\<open>un_wp_page\<close> (the private copy of a shared page), about the page tables
  \<^verbatim>\<open>copy_page_tables\<close> leaves for a fork, and the round trip of a page through the
  swap device.
\<close>

subsection \<open>Addresses of page frames\<close>

lemma unat_frame_addr: "i < PAGING_PAGES \<Longrightarrow> unat (frame_addr i) = 4096 * i + 0x100000"
proof -
  assume "i < PAGING_PAGES"
  moreover have "frame_addr i = (of_nat (4096 * i + 0x100000) :: u32)"
    by (simp add: frame_addr_def LOW_MEM_def push_bit_eq_mult)
  ultimately show ?thesis by (simp only: unat_of_nat) (simp add: PAGING_PAGES_def)
qed

lemma frame_addr_ge: "i < PAGING_PAGES \<Longrightarrow> LOW_MEM \<le> frame_addr i"
  by (simp add: word_le_nat_alt unat_frame_addr LOW_MEM_def)

lemma frame_addr_not_0 [simp]: "i < PAGING_PAGES \<Longrightarrow> frame_addr i \<noteq> 0"
  by (auto dest!: unat_frame_addr)

lemma MAP_NR_frame_addr [simp]: "i < PAGING_PAGES \<Longrightarrow> MAP_NR (frame_addr i) = i"
proof -
  assume i: "i < PAGING_PAGES"
  have "frame_addr i - LOW_MEM = of_nat (4096 * i)"
    by (simp add: frame_addr_def push_bit_eq_mult)
  then have "unat (frame_addr i - LOW_MEM) = 4096 * i"
    using i by (simp only: unat_of_nat) (simp add: PAGING_PAGES_def)
  then show ?thesis by (simp add: MAP_NR_def drop_bit_eq_div unat_div)
qed

lemma page_of_frame_addr [simp]: "page_of (frame_addr i) = frame_addr i"
proof -
  have low: "page_off LOW_MEM = 0" by (simp add: page_off_def LOW_MEM_def)
  have sh: "page_off (push_bit 12 w) = 0" for w :: u32
    by (rule word_eqI_bits) (auto simp: bit_page_off bit_push_bit_iff)
  have "page_off (frame_addr i) = 0"
  proof -
    have "frame_addr i = push_bit 12 (of_nat i + 0x100)"
      by (simp add: frame_addr_def push_bit_eq_mult LOW_MEM_def algebra_simps)
    then show ?thesis by (simp add: sh)
  qed
  with page_split[of "frame_addr i"] show ?thesis by simp
qed

lemma frame_addr_inj:
  "i < PAGING_PAGES \<Longrightarrow> j < PAGING_PAGES \<Longrightarrow> frame_addr i = frame_addr j \<longleftrightarrow> i = j"
  by (metis MAP_NR_frame_addr)

subsection \<open>get_free_page\<close>

lemma try_to_swap_out_False:
  "try_to_swap_out tp s = Inr (False, s') \<Longrightarrow> mem_map s' = mem_map s"
proof -
  have g: "mem_map s2 = mem_map s1" if "get_swap_page s1 = (n, s2)" for n s1 s2
  proof -
    have "mem_map (snd (scan_swap ns u)) = mem_map u" for ns u
      by (induction ns arbitrary: u) (auto simp: clrbit_def poke_def Let_def)
    with that show ?thesis by (auto simp: get_swap_page_def split: if_splits) (metis snd_conv)
  qed
  assume "try_to_swap_out tp s = Inr (False, s')"
  then show ?thesis
    by (auto simp: try_to_swap_out_def Let_def dest: g split: if_splits prod.splits)
qed

lemma repeat_dir_mem_map: "repeat_dir c s = (r, s') \<Longrightarrow> mem_map s' = mem_map s"
proof (induction c s arbitrary: r s' rule: repeat_dir.induct)
  case (1 c s)
  then show ?case
    by (subst (asm) (2) repeat_dir.simps) (fastforce simp: Let_def split: if_splits)
qed

lemma find_dir_mem_map: "find_dir c p s = (c', p', s') \<Longrightarrow> mem_map s' = mem_map s"
proof (induction c p s arbitrary: c' p' s' rule: find_dir.induct)
  case (1 c p s)
  then show ?case
    by (subst (asm) (2) find_dir.simps) (fastforce simp: Let_def split: if_splits)
qed

lemma swap_scan_False: "swap_scan c p s = Inr (False, s') \<Longrightarrow> mem_map s' = mem_map s"
proof (induction c p s arbitrary: s' rule: swap_scan.induct)
  case (1 c p s)
  let ?s1 = "s\<lparr>page_entry := page_entry s + 1\<rparr>"
  show ?case
  proof (cases "c \<le> 0")
    case True
    with "1.prems" show ?thesis by (simp add: swap_scan.simps)
  next
    case pos: False
    show ?thesis
    proof (cases "1024 \<le> page_entry ?s1")
      case True
      obtain o' u where rd: "repeat_dir (c - 1) (?s1\<lparr>page_entry := 0\<rparr>) = (o', u)" by fastforce
      then have u: "mem_map u = mem_map s" by (auto dest: repeat_dir_mem_map)
      show ?thesis
      proof (cases o')
        case None
        with "1.prems" pos True rd u show ?thesis
          by (subst (asm) swap_scan.simps) (auto simp: Let_def)
      next
        case (Some cp)
        obtain c2 p2 where cp: "cp = (c2, p2)" by (cases cp)
        from "1.prems" pos True rd Some cp
        obtain x v where t: "try_to_swap_out (p2 + 4 * of_int (page_entry u)) u = Inr (x, v)"
          and rest: "(if x then retK True v else swap_scan c2 p2 v) = Inr (False, s')"
          by (subst (asm) swap_scan.simps) (auto simp: Let_def)
        from rest have x: "\<not> x" and r: "swap_scan c2 p2 v = Inr (False, s')"
          by (auto split: if_splits)
        have "mem_map s' = mem_map v"
          by (rule "1.IH"(1)[OF pos refl refl True rd[symmetric] Some cp[symmetric] t x r])
        with t x u show ?thesis by (auto dest: try_to_swap_out_False)
      qed
    next
      case F2: False
      from "1.prems" pos F2
      obtain x v where t: "try_to_swap_out (p + 4 * of_int (page_entry ?s1)) ?s1 = Inr (x, v)"
        and rest: "(if x then retK True v else swap_scan (c - 1) p v) = Inr (False, s')"
        by (subst (asm) swap_scan.simps) (auto simp: Let_def)
      from rest have x: "\<not> x" and r: "swap_scan (c - 1) p v = Inr (False, s')"
        by (auto split: if_splits)
      have "mem_map s' = mem_map v" by (rule "1.IH"(2)[OF pos refl refl F2 t x r])
      with t x show ?thesis by (auto dest: try_to_swap_out_False)
    qed
  qed
qed

lemma swap_out_False:
  assumes "swap_out s = Inr (False, s')"
  shows "mem_map s' = mem_map s"
proof -
  obtain c p u where fd: "find_dir VM_PAGES 0 s = (c, p, u)" by (metis prod_cases3)
  with assms obtain x v where sc: "swap_scan c (page_of p) u = Inr (x, v)"
    and rest: "(if x then retK True v
      else retK False (printk ''Out of swap-memory'' v)) = Inr (False, s')"
    by (auto simp: swap_out_def)
  then have "\<not> x" and "mem_map s' = mem_map v" by (auto simp: printk_def split: if_splits)
  with swap_scan_False[of c "page_of p" u v] sc find_dir_mem_map[OF fd] show ?thesis by simp
qed

text \<open>\<^verbatim>\<open>get_free_page\<close> terminates (it is a total function), and
  when it returns, either it returns 0 and then no frame is left free, even after swapping out;
  or it returns the address of a frame of main memory below \<open>HIGH_MEMORY\<close> whose use count is
  now 1 and whose longs are all zero.\<close>

theorem get_free_page_result:
  assumes "get_free_page s = Inr (p, s')"
  shows "if p = 0 then free_frames s' = {}
    else \<exists>i < PAGING_PAGES. p = frame_addr i \<and> p < high_memory s' \<and> mem_map s' i = 1 \<and>
      (\<forall>a. page_of a = p \<longrightarrow> mem s' a = 0)"
  using assms
proof (induction s rule: get_free_page.induct)
  case (1 s)
  show ?case
  proof (cases "scan_down (mem_map s) PAGING_PAGES")
    case None
    with "1.prems" obtain r u where so: "swap_out s = Inr (r, u)"
      and rest: "(if r then get_free_page u else retK 0 u) = Inr (p, s')"
      by (subst (asm) get_free_page.simps) auto
    show ?thesis
    proof (cases r)
      case True
      then show ?thesis using "1.IH"(1)[OF None so True] rest by simp
    next
      case False
      with rest swap_out_False so None have "p = 0" "mem_map s' = mem_map s" by auto
      with None show ?thesis by (auto simp: free_frames_def scan_down_None)
    qed
  next
    case (Some i)
    note i = scan_down_Some[OF Some]
    show ?thesis
    proof (cases "high_memory s \<le> frame_addr i")
      case True
      with "1.prems" Some have "get_free_page (take_frame i s) = Inr (p, s')"
        by (subst (asm) get_free_page.simps) simp
      with "1.IH"(2)[OF Some True] show ?thesis by simp
    next
      case False
      with "1.prems" Some have "p = frame_addr i" "s' = take_frame i s"
        by (subst (asm) get_free_page.simps, simp)+
      with i False show ?thesis by (auto simp: take_frame_def)
    qed
  qed
qed

lemma get_free_page_direct:
  assumes "scan_down (mem_map s) PAGING_PAGES = Some i" and "frame_addr i < high_memory s"
  shows "get_free_page s = Inr (frame_addr i, take_frame i s)"
  using assms by (subst get_free_page.simps) (auto simp: retK_def not_le[symmetric])

subsection \<open>Copy on write\<close>

text \<open>\<open>pte_view s te d\<close> is the long at offset \<open>d\<close> of the page the entry at \<open>te\<close> maps: what
  the process that owns the entry reads there.\<close>

definition pte_view :: "mm \<Rightarrow> u32 \<Rightarrow> u32 \<Rightarrow> u32" where
  "pte_view s te d = mem s (page_of (mem s te) + d)"

lemma page_of_7 [simp]: "page_of 7 = 0" "page_of 0x47 = 0" "page_of 2 = 0"
  by (simp_all add: page_of_def)

lemma odd_OR_flags: "odd (x OR 7 :: u32)" "odd (x OR 0x47 :: u32)" "(x OR 7) AND 2 = (2 :: u32)"
proof -
  show "(x OR 7) AND 2 = (2 :: u32)"
    by (simp add: bit.conj_disj_distrib2 word_bw_assocs(1))
qed (simp_all add: even_or_iff)

lemma un_wp_page_unshared:
  assumes "LOW_MEM \<le> page_of (mem s te)" and "mem_map s (MAP_NR (page_of (mem s te))) = 1"
  shows "un_wp_page te s = Inr ((), invalidate (poke te (mem s te OR 2) s))"
  using assms by (simp add: un_wp_page_def Let_def retK_def)

lemma un_wp_page_copies:
  assumes "\<not> (LOW_MEM \<le> page_of (mem s te) \<and> mem_map s (MAP_NR (page_of (mem s te))) = 1)"
    and "get_free_page s = Inr (p, s1)" and "p \<noteq> 0"
  obtains s' where "un_wp_page te s = Inr ((), s')"
    and "mem s' = (fill_page p (\<lambda>d. mem s1 (page_of (mem s te) + d)) (mem s1))(te := p OR 7)"
    and "mem_map s' = (let m = mem_map s1; old = page_of (mem s te) in
       if LOW_MEM \<le> old then m(MAP_NR old := m (MAP_NR old) - 1) else m)"
  using assms unfolding un_wp_page_def Let_def
  by (auto simp: retK_def invalidate_def poke_def copy_page_def intro!: that)

text \<open>
  Between \<open>s\<close> and \<open>s1\<close> the entry at \<open>te\<close>, the contents of its page and the page's use count are the same.
  \<^verbatim>\<open>get_free_page\<close> takes a free frame if there is one, and that leaves the page alone (\<open>free_frame_spares\<close>);
  if there is none it swaps pages out, and these can be any.
\<close>

definition spares :: "u32 \<Rightarrow> mm \<Rightarrow> mm \<Rightarrow> bool" where
  "spares te s s1 \<longleftrightarrow>
     mem s1 te = mem s te \<and> (\<forall>d. page_off d = d \<longrightarrow> mem s1 (page_of (mem s te) + d) = mem s (page_of (mem s te) + d)) \<and>
     mem_map s1 (MAP_NR (page_of (mem s te))) = mem_map s (MAP_NR (page_of (mem s te)))"

lemma free_frame_spares:
  assumes "scan_down (mem_map s) PAGING_PAGES = Some i" "frame_addr i < high_memory s"
    and "page_of te \<noteq> frame_addr i" "LOW_MEM \<le> page_of (mem s te)" "mem_map s (MAP_NR (page_of (mem s te))) \<noteq> 0"
  shows "get_free_page s = Inr (frame_addr i, take_frame i s)" "spares te s (take_frame i s)"
proof -
  have i: "i < PAGING_PAGES" "mem_map s i = 0" using scan_down_Some[OF assms(1)] by auto
  then have n: "MAP_NR (page_of (mem s te)) \<noteq> i" using assms(5) by auto
  then have "page_of (mem s te) \<noteq> frame_addr i" using i(1) by auto
  then show "spares te s (take_frame i s)"
    using n assms(3) page_of_plus_off(2)[of "page_of (mem s te)"] by (auto simp: spares_def take_frame_def fill_page_def)
qed (rule get_free_page_direct[OF assms(1,2)])

lemma wp_copy:
  assumes odd: "odd (mem s te)" and table: "page_of te \<noteq> page_of (mem s te)"
    and sh: "\<not> (LOW_MEM \<le> page_of (mem s te) \<and> mem_map s (MAP_NR (page_of (mem s te))) = 1)"
    and g: "get_free_page s = Inr (p, s1)" and p: "p \<noteq> 0" and sp: "spares te s s1"
  shows "\<exists>s'. un_wp_page te s = Inr ((), s') \<and> page_of (mem s' te) = p \<and> p \<noteq> page_of (mem s te) \<and>
      odd (mem s' te) \<and> mem s' te AND 2 = 2 \<and> mem_map s' (MAP_NR p) = 1 \<and>
      (\<forall>d. page_off d = d \<longrightarrow> pte_view s' te d = pte_view s te d \<and> mem s' (page_of (mem s te) + d) = mem s (page_of (mem s te) + d)) \<and>
      (LOW_MEM \<le> page_of (mem s te) \<longrightarrow> mem_map s' (MAP_NR (page_of (mem s te))) = mem_map s (MAP_NR (page_of (mem s te))) - 1) \<and>
      (\<forall>a. a \<noteq> te \<longrightarrow> page_of a \<noteq> p \<longrightarrow> mem s' a = mem s1 a)"
proof -
  let ?old = "page_of (mem s te)"
  note sp = sp[unfolded spares_def]
  obtain i where i: "i < PAGING_PAGES" "p = frame_addr i" "mem_map s1 i = 1" "\<And>a. page_of a = p \<Longrightarrow> mem s1 a = 0"
    using get_free_page_result[OF g] p by auto
  have pp: "page_of p = p" "LOW_MEM \<le> p" using i(1,2) frame_addr_ge by auto
  have te: "page_of te \<noteq> p" using i(4)[of te] sp odd by auto
  have "MAP_NR p = i" using i(1,2) by simp
  with i(3) sh sp have n: "MAP_NR ?old \<noteq> i" if "LOW_MEM \<le> ?old" using that by auto
  have old: "p \<noteq> ?old" using n pp(2) \<open>MAP_NR p = i\<close> by metis
  obtain s' where s': "un_wp_page te s = Inr ((), s')"
    "mem s' = (fill_page p (\<lambda>d. mem s1 (?old + d)) (mem s1))(te := p OR 7)"
    "mem_map s' = (let m = mem_map s1 in if LOW_MEM \<le> ?old then m(MAP_NR ?old := m (MAP_NR ?old) - 1) else m)"
    using un_wp_page_copies[OF sh g p] by (metis (no_types, lifting))
  have te': "mem s' te = p OR 7" by (simp add: s'(2))
  have "pte_view s' te d = pte_view s te d \<and> mem s' (?old + d) = mem s (?old + d)" if d: "page_off d = d" for d
  proof -
    have in_new: "page_of (p + d) = p" "page_off (p + d) = d" using page_of_plus_off[of p d] d pp(1) by auto
    have in_old: "page_of (?old + d) = ?old" using page_of_plus_off(2)[of ?old d] d by simp
    have "p + d \<noteq> te" "?old + d \<noteq> te" using in_new(1) te in_old table by auto
    then show ?thesis using in_new in_old old sp d by (simp add: pte_view_def te' s'(2) i(2))
  qed
  moreover have "mem_map s' (MAP_NR p) = 1" using i(1-3) n by (auto simp: s'(3) Let_def)
  moreover have "mem_map s' (MAP_NR ?old) = mem_map s (MAP_NR ?old) - 1" if "LOW_MEM \<le> ?old" using that sp by (simp add: s'(3) Let_def)
  moreover have "mem s' a = mem s1 a" if "a \<noteq> te" "page_of a \<noteq> p" for a using that by (simp add: s'(2) fill_page_def)
  ultimately show ?thesis using s'(1) old i(1,2) te' by (intro exI[of _ s']) (simp add: odd_OR_flags)
qed

text \<open>C9. A write fault on a present page, whose entry is in a page table and so not in the page itself. A page with one user becomes writable where it is, and nothing else changes. For a
  shared one (or one of the kernel's below 1 MB) a frame is looked for: if that panics so does the fault, and if there is
  none, even after swapping out, the process is killed with SIGSEGV. If there is one, and the search has left the entry,
  the contents of the page and its number of users alone (it may swap out this very page), the entry ends present and writable, in that frame, with use count 1, and
  shows the process the same contents as before; the old page has one user less, and no other long differs from what the
  search has left, so the other processes that share the old page still read what they read before.\<close>

theorem un_wp_page_private:
  assumes "odd (mem s te)" and "page_of te \<noteq> page_of (mem s te)"
  shows "let old = page_of (mem s te) in
    if LOW_MEM \<le> old \<and> mem_map s (MAP_NR old) = 1
    then \<exists>s'. un_wp_page te s = Inr ((), s') \<and> mem s' = (mem s)(te := mem s te OR 2) \<and> mem_map s' = mem_map s \<and>
      page_of (mem s' te) = old \<and> odd (mem s' te) \<and> mem s' te AND 2 = 2
    else case get_free_page s of
      Inl e \<Rightarrow> un_wp_page te s = Inl e
    | Inr (p, s1) \<Rightarrow>
        if p = 0 then un_wp_page te s = Inl (Killed Mm.SIGSEGV, printk ''out of memory'' s1)
        else spares te s s1 \<longrightarrow>
          (\<exists>s'. un_wp_page te s = Inr ((), s') \<and> page_of (mem s' te) = p \<and> p \<noteq> old \<and>
            odd (mem s' te) \<and> mem s' te AND 2 = 2 \<and> mem_map s' (MAP_NR p) = 1 \<and>
            (\<forall>d. page_off d = d \<longrightarrow> pte_view s' te d = pte_view s te d \<and> mem s' (old + d) = mem s (old + d)) \<and>
            (LOW_MEM \<le> old \<longrightarrow> mem_map s' (MAP_NR old) = mem_map s (MAP_NR old) - 1) \<and>
            (\<forall>a. a \<noteq> te \<longrightarrow> page_of a \<noteq> p \<longrightarrow> mem s' a = mem s1 a))"
proof -
  let ?old = "page_of (mem s te)"
  let ?one = "LOW_MEM \<le> ?old \<and> mem_map s (MAP_NR ?old) = 1"
  have one: "\<exists>s'. un_wp_page te s = Inr ((), s') \<and> mem s' = (mem s)(te := mem s te OR 2) \<and> mem_map s' = mem_map s \<and>
      page_of (mem s' te) = ?old \<and> odd (mem s' te) \<and> mem s' te AND 2 = 2" if ?one
    using un_wp_page_unshared[of s te] that assms(1)
    by (simp add: invalidate_def poke_def even_or_iff bit.conj_disj_distrib2)
  have killed: "un_wp_page te s = Inl (Killed Mm.SIGSEGV, printk ''out of memory'' s1)"
    if "\<not> ?one" "get_free_page s = Inr (0, s1)" for s1
    using that by (auto simp: un_wp_page_def Let_def oom_def stopK_def)
  note copied = wp_copy[OF assms]
  show ?thesis
  proof (cases ?one)
    case True
    then show ?thesis using one by (simp add: Let_def)
  next
    case False
    show ?thesis
    proof (cases "get_free_page s")
      case (Inl e)
      then have "un_wp_page te s = Inl e" using False by (auto simp: un_wp_page_def Let_def)
      then show ?thesis unfolding Let_def using False Inl by simp
    next
      case (Inr x)
      then show ?thesis unfolding Let_def using False killed copied by (cases x) auto
    qed
  qed
qed

subsubsection \<open>What fork's page tables look like\<close>

definition cow :: "u32 \<Rightarrow> u32" where
  "cow e = e AND NOT 2"

lemma cow_0 [simp]: "cow 0 = 0"
  by (simp add: cow_def)

lemma cow_read_only [simp]: "cow e AND 2 = 0"
  by (simp add: cow_def word_bw_assocs(1))

lemma odd_AND_1: "1 AND e \<noteq> 0 \<longleftrightarrow> odd (e :: u32)"
  using odd_word_AND_1[of e] by (simp add: and.commute)

lemma card_less_Suc_shift:
  "card {k. k < Suc n \<and> P k} = (if P 0 then 1 else 0) + card {k. k < n \<and> P (Suc k)}"
proof -
  have eq: "{k. k < Suc n \<and> P k} = (if P 0 then {0} else {}) \<union> Suc ` {k. k < n \<and> P (Suc k)}"
  proof (rule set_eqI)
    fix k
    show "k \<in> {k. k < Suc n \<and> P k} \<longleftrightarrow>
        k \<in> (if P 0 then {0} else {}) \<union> Suc ` {k. k < n \<and> P (Suc k)}"
      by (cases k) auto
  qed
  show ?thesis
    unfolding eq by (subst card_Un_disjoint) (auto simp: card_image)
qed

lemma pte_step_addr: "f + 4 + 4 * of_nat k = (f + 4 * of_nat (Suc k) :: u32)"
  by (simp add: algebra_simps)

definition shares :: "(nat \<Rightarrow> u32) \<Rightarrow> nat \<Rightarrow> nat \<Rightarrow> nat set" where
  "shares e n j = {k. k < n \<and> LOW_MEM < cow (e k) \<and> MAP_NR (cow (e k)) = j}"

text \<open>One entry of the loop that is absent or present in memory (not on the swap device).\<close>

definition copy_one :: "u32 \<Rightarrow> u32 \<Rightarrow> mm \<Rightarrow> mm" where
  "copy_one f t s =
     (let e = mem s f in
      if e = 0 then s
      else if LOW_MEM < cow e then share_frame (cow e) (poke f (cow e) (poke t (cow e) s))
      else poke t (cow e) s)"

lemma copy_ptes_present:
  "mem s f = 0 \<or> odd (mem s f) \<Longrightarrow>
   copy_ptes (Suc n) f t s = copy_ptes n (f + 4) (t + 4) (copy_one f t s)"
  using odd_AND_1[of "mem s f"] by (auto simp: copy_one_def cow_def Let_def)

lemma copy_one_mem:
  assumes "f \<noteq> t"
  shows "mem (copy_one f t s) = (mem s)
    (f := if LOW_MEM < cow (mem s f) then cow (mem s f) else mem s f,
     t := if mem s f = 0 then mem s t else cow (mem s f))"
  using assms by (auto simp: copy_one_def Let_def share_frame_def poke_def fun_eq_iff)

lemma copy_one_map:
  "mem_map (copy_one f t s) j =
     mem_map s j + (if LOW_MEM < cow (mem s f) \<and> MAP_NR (cow (mem s f)) = j then 1 else 0)"
  by (auto simp: copy_one_def Let_def share_frame_def poke_def)

text \<open>C35. The loop of \<^verbatim>\<open>copy_page_tables\<close> over one page table without
  swapped-out entries returns; then parent and child map the same pages, the child's entries are
  read-only and so are the parent's for every page above \<open>LOW_MEM\<close>; the use count of each frame
  grew by exactly the number of entries that map it; nothing else changed.\<close>

theorem copy_ptes_cow:
  assumes "n \<le> 1024"
    and "\<forall>j<n. \<forall>k<n. f + 4 * of_nat j \<noteq> t + 4 * of_nat k"
    and "\<forall>k<n. e k = mem s (f + 4 * of_nat k)"
    and "\<forall>k<n. e k = 0 \<or> odd (e k)"
  shows "\<exists>s'. copy_ptes n f t s = Inr (True, s') \<and>
    (\<forall>k<n. mem s' (t + 4 * of_nat k) = (if e k = 0 then mem s (t + 4 * of_nat k) else cow (e k))) \<and>
    (\<forall>k<n. mem s' (f + 4 * of_nat k) = (if LOW_MEM < cow (e k) then cow (e k) else e k)) \<and>
    (\<forall>a. (\<forall>k<n. a \<noteq> f + 4 * of_nat k \<and> a \<noteq> t + 4 * of_nat k) \<longrightarrow> mem s' a = mem s a) \<and>
    (\<forall>j. mem_map s' j = mem_map s j + of_nat (card (shares e n j)))"
  using assms
proof (induction n arbitrary: f t s e)
  case 0
  then show ?case by (simp add: retK_def shares_def)
next
  case (Suc n)
  let ?s1 = "copy_one f t s"
  have e0: "e 0 = mem s f" and p0: "mem s f = 0 \<or> odd (mem s f)" and ft: "f \<noteq> t"
    using Suc.prems by force+
  have off: "(4 * of_nat (Suc k) :: u32) \<noteq> 0" if "k < n" for k
    using swap_offset_inj[of "Suc k" 0] that Suc.prems(1) by auto
  note m1 = copy_one_mem[OF ft, of s]
  have keep: "mem ?s1 (f + 4 * of_nat (Suc k)) = mem s (f + 4 * of_nat (Suc k))"
      "mem ?s1 (t + 4 * of_nat (Suc k)) = mem s (t + 4 * of_nat (Suc k))" if "k < n" for k
    using off[OF that] Suc.prems(2)[rule_format, of "Suc k" 0]
      Suc.prems(2)[rule_format, of 0 "Suc k"] that by (auto simp: m1)
  have "\<exists>s'. copy_ptes n (f + 4) (t + 4) ?s1 = Inr (True, s') \<and>
    (\<forall>k<n. mem s' (t + 4 + 4 * of_nat k) =
       (if e (Suc k) = 0 then mem ?s1 (t + 4 + 4 * of_nat k) else cow (e (Suc k)))) \<and>
    (\<forall>k<n. mem s' (f + 4 + 4 * of_nat k) =
       (if LOW_MEM < cow (e (Suc k)) then cow (e (Suc k)) else e (Suc k))) \<and>
    (\<forall>a. (\<forall>k<n. a \<noteq> f + 4 + 4 * of_nat k \<and> a \<noteq> t + 4 + 4 * of_nat k) \<longrightarrow>
       mem s' a = mem ?s1 a) \<and>
    (\<forall>j. mem_map s' j = mem_map ?s1 j + of_nat (card (shares (\<lambda>k. e (Suc k)) n j)))"
  proof (rule Suc.IH)
    show "n \<le> 1024" using Suc.prems(1) by simp
    show "\<forall>j<n. \<forall>k<n. f + 4 + 4 * of_nat j \<noteq> t + 4 + 4 * of_nat k"
      unfolding pte_step_addr using Suc.prems(2) by blast
    show "\<forall>k<n. e (Suc k) = mem ?s1 (f + 4 + 4 * of_nat k)"
      unfolding pte_step_addr using Suc.prems(3) keep(1) by auto
    show "\<forall>k<n. e (Suc k) = 0 \<or> odd (e (Suc k))" using Suc.prems(4) by auto
  qed
  then obtain s' where run: "copy_ptes n (f + 4) (t + 4) ?s1 = Inr (True, s')"
    and to: "\<And>k. k < n \<Longrightarrow> mem s' (t + 4 * of_nat (Suc k)) =
       (if e (Suc k) = 0 then mem ?s1 (t + 4 * of_nat (Suc k)) else cow (e (Suc k)))"
    and src: "\<And>k. k < n \<Longrightarrow> mem s' (f + 4 * of_nat (Suc k)) =
       (if LOW_MEM < cow (e (Suc k)) then cow (e (Suc k)) else e (Suc k))"
    and other: "\<And>a. (\<forall>k<n. a \<noteq> f + 4 * of_nat (Suc k) \<and> a \<noteq> t + 4 * of_nat (Suc k)) \<Longrightarrow>
       mem s' a = mem ?s1 a"
    and map: "\<And>j. mem_map s' j = mem_map ?s1 j + of_nat (card (shares (\<lambda>k. e (Suc k)) n j))"
    unfolding pte_step_addr by blast
  have cross: "f \<noteq> t + 4 * of_nat (Suc k)" "t \<noteq> f + 4 * of_nat (Suc k)" if "k < n" for k
    using Suc.prems(2)[rule_format, of 0 "Suc k"] Suc.prems(2)[rule_format, of "Suc k" 0] that
    by auto
  have "mem s' f = mem ?s1 f" "mem s' t = mem ?s1 t"
    by (rule other, use off cross in force)+
  then have f0: "mem s' f = (if LOW_MEM < cow (e 0) then cow (e 0) else e 0)"
    and t0: "mem s' t = (if e 0 = 0 then mem s t else cow (e 0))"
    using ft by (simp_all add: m1 e0)
  have "card (shares e (Suc n) j) = (if LOW_MEM < cow (e 0) \<and> MAP_NR (cow (e 0)) = j then 1 else 0)
      + card (shares (\<lambda>k. e (Suc k)) n j)" for j
    unfolding shares_def by (rule card_less_Suc_shift)
  then have mapj: "mem_map s' j = mem_map s j + of_nat (card (shares e (Suc n) j))" for j
    by (simp add: map copy_one_map e0)
  show ?case
  proof (intro exI conjI allI impI)
    show "copy_ptes (Suc n) f t s = Inr (True, s')"
      using run copy_ptes_present[OF p0] by simp
    fix k assume "k < Suc n"
    then consider "k = 0" | j where "k = Suc j" "j < n" using less_Suc_eq_0_disj by auto
    note c = this
    show "mem s' (t + 4 * of_nat k) = (if e k = 0 then mem s (t + 4 * of_nat k) else cow (e k))"
      using c t0 to keep(2) by cases auto
    show "mem s' (f + 4 * of_nat k) = (if LOW_MEM < cow (e k) then cow (e k) else e k)"
      using c f0 src by cases auto
  next
    fix a assume a: "\<forall>k<Suc n. a \<noteq> f + 4 * of_nat k \<and> a \<noteq> t + 4 * of_nat k"
    have "mem s' a = mem ?s1 a" by (rule other) (use a in auto)
    with a[rule_format, of 0] show "mem s' a = mem s a" by (auto simp: m1)
  qed (rule mapj)
qed

subsection \<open>The round trip through the swap device\<close>

lemma swap_take_facts:
  assumes "swap_bitmap s \<noteq> 0" and "swap_pool s \<noteq> {}"
  obtains n where "get_swap_page s = (n, snd (clrbit n s))" and "0 < n" and "n < SWAP_BITS"
    and "swap_bit n s"
proof -
  from assms swap.take_None obtain n s' where t: "swap_take s = Some (n, s')" by fastforce
  with swap_take_cases[OF assms(1)] have s': "s' = snd (clrbit n s)"
    by (auto split: option.splits)
  from swap.take_least[OF assms(1) t] have "n \<in> swap_pool s" by simp
  moreover from t have "get_swap_page s = (n, s')"
    by (auto simp: swap_take_def Let_def split: prod.splits if_splits)
  ultimately show thesis using that s' by (auto simp: swap_pool_def)
qed

lemma half_double: "n < SWAP_BITS \<Longrightarrow> unat (drop_bit 1 (2 * of_nat n :: u32)) = n"
proof -
  assume n: "n < SWAP_BITS"
  have "unat (2 * of_nat n :: u32) = 2 * n"
  proof -
    have "(2 * of_nat n :: u32) = of_nat (2 * n)" by simp
    with n show ?thesis by (simp only: unat_of_nat) (simp add: SWAP_BITS_def)
  qed
  then show ?thesis by (simp add: drop_bit_eq_div unat_div)
qed

lemma swap_entry: "0 < n \<Longrightarrow> n < SWAP_BITS \<Longrightarrow> (2 * of_nat n :: u32) \<noteq> 0 \<and> even (2 * of_nat n :: u32)"
  using half_double[of n] by auto

text \<open>The state after a dirty page was written to the swap page \<open>n\<close>.\<close>

definition swapped_out :: "u32 \<Rightarrow> nat \<Rightarrow> mm \<Rightarrow> mm" where
  "swapped_out te n s =
     (let page = page_of (mem s te);
          s = write_swap_page n page (invalidate (poke te (2 * of_nat n) (snd (clrbit n s)))) in
      s\<lparr>mem_map := (mem_map s)(MAP_NR page := 0)\<rparr>)"

lemma try_to_swap_out_dirty:
  assumes "odd (mem s te)" and "PAGE_DIRTY AND mem s te \<noteq> 0"
    and "mem s te - LOW_MEM \<le> PAGING_MEMORY"
    and "mem_map s (MAP_NR (page_of (mem s te))) = 1"
    and "LOW_MEM \<le> page_of (mem s te)" and "page_of (mem s te) < high_memory s"
    and "swap_bitmap s \<noteq> 0" and "swap_pool s \<noteq> {}"
  shows "\<exists>n. 0 < n \<and> n < SWAP_BITS \<and> swap_bit n s \<and>
    try_to_swap_out te s = Inr (True, swapped_out te n s)"
proof -
  from swap_take_facts[OF assms(7,8)] obtain n where
    n: "get_swap_page s = (n, snd (clrbit n s))" "0 < n" "n < SWAP_BITS" "swap_bit n s" .
  have "PAGE_PRESENT AND mem s te \<noteq> 0"
    using assms(1) odd_AND_1[of "mem s te"] by (simp add: PAGE_PRESENT_def)
  then have "try_to_swap_out te s = Inr (True, swapped_out te n s)"
    using assms n
    by (simp add: try_to_swap_out_def Let_def free_page_def swapped_out_def retK_def not_less
        not_le write_swap_page_def invalidate_def poke_def clrbit_def cong: if_cong)
  with n show ?thesis by blast
qed

lemma swap_in_direct:
  assumes "swap_bitmap s \<noteq> 0" and "mem s te = 2 * of_nat n" and "0 < n" and "n < SWAP_BITS"
    and "scan_down (mem_map s) PAGING_PAGES = Some i" and "frame_addr i < high_memory s"
    and "page_of te \<noteq> frame_addr i" and "page_of (swap_word n s) \<noteq> frame_addr i"
    and "te \<noteq> swap_word n s"
  shows "\<exists>s'. swap_in te s = Inr ((), s') \<and> mem s' te = frame_addr i OR 0x47 \<and>
    (\<forall>d. page_off d = d \<longrightarrow> pte_view s' te d = swap_space s n d) \<and> mem_map s' i = 1"
proof -
  have i: "i < PAGING_PAGES" using scan_down_Some[OF assms(5)] by simp
  have ev: "1 AND mem s te = 0" using odd_AND_1[of "mem s te"] swap_entry[OF assms(3,4)] assms(2) by auto
  define u where "u = snd (setbit n (read_swap_page n (frame_addr i) (take_frame i s)))"
  define v where "v = (if fst (setbit n (read_swap_page n (frame_addr i) (take_frame i s)))
     then printk ''swapping in multiply from same page'' u else u)"
  have half: "unat (drop_bit 1 (mem s te)) = n" using half_double[OF assms(4)] assms(2) by simp
  have run: "swap_in te s = Inr ((), poke te (frame_addr i OR 0x47) v)"
    unfolding swap_in_def Let_def half get_free_page_direct[OF assms(5,6)]
    using assms(1,3) ev i
    by (simp add: v_def u_def retK_def PAGE_DIRTY_def split: prod.split)
  have w: "swap_word n (read_swap_page n (frame_addr i) (take_frame i s)) = swap_word n s"
    by (simp add: swap_word_def read_swap_page_def take_frame_def)
  have mem_v: "mem v a = swap_space s n (page_off a)" if "page_of a = frame_addr i" for a
    using that assms(8)
    by (auto simp: v_def u_def setbit_def w poke_def printk_def)
       (auto simp: read_swap_page_def take_frame_def)
  have view: "pte_view (poke te (frame_addr i OR 0x47) v) te d = swap_space s n d"
    if d: "page_off d = d" for d
  proof -
    have in_new: "page_of (frame_addr i + d) = frame_addr i" "page_off (frame_addr i + d) = d"
      using page_of_plus_off[of "frame_addr i" d] d by auto
    then have "frame_addr i + d \<noteq> te" using assms(7) by auto
    then show ?thesis by (simp add: pte_view_def poke_def mem_v in_new)
  qed
  have "mem_map v i = 1"
    by (simp add: v_def u_def setbit_def poke_def printk_def read_swap_page_def take_frame_def)
  with run view show ?thesis by (auto simp: poke_def)
qed

lemma swap_word_invariant [simp]:
  "swap_word n (swapped_out te k s) = swap_word n s"
  "swap_bitmap (swapped_out te k s) = swap_bitmap s"
  "high_memory (swapped_out te k s) = high_memory s"
  by (simp_all add: swap_word_def swapped_out_def Let_def write_swap_page_def invalidate_def
      poke_def clrbit_def)

text \<open>
  \<open>swappable te s\<close>: the entry at \<open>te\<close> maps a dirty page of main memory that nobody shares,
  there is a free swap page, and the page, the page table with the entry and the page of the
  swap bit map are three frames in use.
\<close>

definition swappable :: "u32 \<Rightarrow> mm \<Rightarrow> bool" where
  "swappable te s =
     (let page = page_of (mem s te) in
      odd (mem s te) \<and> PAGE_DIRTY AND mem s te \<noteq> 0 \<and>
      mem s te - LOW_MEM \<le> PAGING_MEMORY \<and> LOW_MEM \<le> page \<and> page < high_memory s \<and>
      mem_map s (MAP_NR page) = 1 \<and> mem_map s (MAP_NR (page_of te)) \<noteq> 0 \<and>
      swap_bitmap s \<noteq> 0 \<and> page_of (swap_bitmap s) = swap_bitmap s \<and>
      mem_map s (MAP_NR (swap_bitmap s)) \<noteq> 0 \<and> swap_pool s \<noteq> {} \<and>
      distinct [page_of te, page, swap_bitmap s])"

lemma page_of_sub_LOW_MEM: "page_of (p - LOW_MEM) = page_of p - LOW_MEM"
proof -
  have "page_off (page_of p - LOW_MEM) = 0"
  proof -
    have "page_of p - LOW_MEM = push_bit 12 (drop_bit 12 p - 0x100)"
    proof -
      have "page_of p = push_bit 12 (drop_bit 12 p)"
        by (rule word_eqI_bits) (auto simp: bit_page_of bit_push_bit_iff bit_drop_bit_eq)
      then show ?thesis by (simp add: LOW_MEM_def push_bit_eq_mult algebra_simps)
    qed
    then show ?thesis
      by (simp only:) (rule word_eqI_bits, auto simp: bit_page_off bit_push_bit_iff)
  qed
  then have al: "page_of (page_of p - LOW_MEM) = page_of p - LOW_MEM"
    using page_split[of "page_of p - LOW_MEM"] by simp
  have eq: "p - LOW_MEM = (page_of p - LOW_MEM) + page_off p"
    using page_split[of p] page_of_plus_off(1)[of "page_of p" "page_off p"]
    by (simp add: algebra_simps)
  show ?thesis
    unfolding eq using page_of_plus_off(2)[of "page_of p - LOW_MEM" "page_off p"] al by simp
qed

lemma MAP_NR_inj:
  assumes "MAP_NR p = MAP_NR q" and "page_of p = p" and "page_of q = q"
  shows "p = q"
proof -
  have aligned: "push_bit 12 (drop_bit 12 r) = page_of r" for r :: u32
    by (rule word_eqI_bits) (auto simp: bit_page_of bit_push_bit_iff bit_drop_bit_eq)
  have "drop_bit 12 (p - LOW_MEM) = drop_bit 12 (q - LOW_MEM)"
    using assms(1) by (simp add: MAP_NR_def word_unat_eq_iff)
  then have "page_of (p - LOW_MEM) = page_of (q - LOW_MEM)" by (metis aligned)
  with assms(2,3) show ?thesis by (simp add: page_of_sub_LOW_MEM)
qed

lemma swap_word_page:
  assumes "page_of (swap_bitmap s) = swap_bitmap s" and "n < SWAP_BITS"
  shows "page_of (swap_word n s) = swap_bitmap s"
proof -
  have "n div 32 < 1024" using assms(2) by (simp add: SWAP_BITS_def)
  then show ?thesis unfolding swap_word_def using assms(1)
    page_of_plus_off(2)[of "swap_bitmap s" "4 * of_nat (n div 32)"] by simp
qed

text \<open>C29. Swapping a dirty, unshared page out frees its frame and leaves a non-present
  entry; swapping it in again, whatever frame is then found, shows the process the contents the
  page had before.\<close>

theorem swap_roundtrip:
  assumes "swappable te s"
  shows "\<exists>s1. try_to_swap_out te s = Inr (True, s1) \<and> even (mem s1 te) \<and>
    mem_map s1 (MAP_NR (page_of (mem s te))) = 0 \<and>
    (\<forall>i. scan_down (mem_map s1) PAGING_PAGES = Some i \<longrightarrow> frame_addr i < high_memory s1 \<longrightarrow>
      (\<exists>s2. swap_in te s1 = Inr ((), s2) \<and> odd (mem s2 te) \<and>
        (\<forall>d. page_off d = d \<longrightarrow> pte_view s2 te d = pte_view s te d)))"
proof -
  let ?old = "page_of (mem s te)"
  have bmp: "swap_bitmap s \<noteq> 0" "page_of (swap_bitmap s) = swap_bitmap s"
      "mem_map s (MAP_NR (swap_bitmap s)) \<noteq> 0" "mem_map s (MAP_NR (page_of te)) \<noteq> 0"
      "page_of te \<noteq> ?old" "swap_bitmap s \<noteq> ?old" "swap_bitmap s \<noteq> page_of te"
    using assms by (auto simp: swappable_def Let_def)
  have word: "page_of (swap_word n s) = swap_bitmap s" "swap_word n s \<noteq> te" if "n < SWAP_BITS" for n
    using swap_word_page[OF bmp(2) that] bmp(7) by auto
  obtain n where
    n: "0 < n" "n < SWAP_BITS" and run: "try_to_swap_out te s = Inr (True, swapped_out te n s)"
    using try_to_swap_out_dirty[of s te] assms by (auto simp: swappable_def Let_def)
  let ?s1 = "swapped_out te n s"
  have te1: "mem ?s1 te = 2 * of_nat n"
    by (simp add: swapped_out_def Let_def write_swap_page_def invalidate_def poke_def)
  have map1: "mem_map ?s1 = (mem_map s)(MAP_NR ?old := 0)"
    by (simp add: swapped_out_def Let_def write_swap_page_def invalidate_def poke_def clrbit_def)
  have space: "swap_space ?s1 n d = pte_view s te d" if d: "page_off d = d" for d
  proof -
    have pg: "page_of (?old + d) = ?old"
      using page_of_plus_off(2)[of ?old d] d by simp
    with bmp word[OF n(2)] have "?old + d \<noteq> te" "?old + d \<noteq> swap_word n s" by auto
    then show ?thesis
      by (simp add: swapped_out_def Let_def write_swap_page_def invalidate_def poke_def
          clrbit_def pte_view_def)
  qed
  have "\<exists>s2. swap_in te ?s1 = Inr ((), s2) \<and> odd (mem s2 te) \<and>
      (\<forall>d. page_off d = d \<longrightarrow> pte_view s2 te d = pte_view s te d)"
    if sc: "scan_down (mem_map ?s1) PAGING_PAGES = Some i" and hi: "frame_addr i < high_memory ?s1" for i
  proof -
    have i: "i < PAGING_PAGES" "mem_map ?s1 i = 0" using scan_down_Some[OF sc] by auto
    have "page_of te \<noteq> frame_addr i"
      using i bmp(4,5) MAP_NR_inj[of "page_of te" ?old]
      by (metis MAP_NR_frame_addr fun_upd_other map1 page_of_idem)
    moreover have "page_of (swap_word n s) \<noteq> frame_addr i"
      using i bmp(2,3,6) MAP_NR_inj[of "swap_bitmap s" ?old] word(1)[OF n(2)]
      by (metis MAP_NR_frame_addr fun_upd_other map1 page_of_idem)
    ultimately obtain s2 where "swap_in te ?s1 = Inr ((), s2)" "mem s2 te = frame_addr i OR 0x47"
      "\<forall>d. page_off d = d \<longrightarrow> pte_view s2 te d = swap_space ?s1 n d"
      using swap_in_direct[of ?s1 te n i] te1 n sc hi bmp(1) word(2)[OF n(2)] by fastforce
    with space show ?thesis using odd_OR_flags(2)[of "frame_addr i"] by auto
  qed
  with run te1 n map1 show ?thesis by (auto simp: swap_entry)
qed

subsection \<open>Initialisation\<close>

lemma fold_zero: "fold (\<lambda>k m. m(k := 0)) ks m j = (if j \<in> set ks then 0 else m j)"
  by (induction ks arbitrary: m) auto

text \<open>After \<^verbatim>\<open>mem_init(start_mem, end_mem)\<close> with page-aligned bounds,
  exactly the frames between the bounds are free and all others are marked \<open>USED\<close>.\<close>

theorem mem_init_map:
  assumes "0x100000 \<le> start_mem" and "start_mem \<le> end_mem" and "end_mem \<le> 0x1000000"
    and "4096 dvd start_mem" and "4096 dvd end_mem" and "i < PAGING_PAGES"
  shows "mem_map (mem_init start_mem end_mem s) i =
    (if start_mem \<le> 4096 * int i + 0x100000 \<and> 4096 * int i + 0x100000 < end_mem then 0 else USED)"
proof -
  obtain a b where a: "start_mem = 4096 * a" and b: "end_mem = 4096 * b"
    using assms by (auto elim!: dvdE)
  have nn: "0 \<le> start_mem - 0x100000" "start_mem - 0x100000 < 2 ^ 32" using assms by auto
  have "of_int start_mem - LOW_MEM = (of_int (start_mem - 0x100000) :: u32)"
    by (simp add: LOW_MEM_def)
  then have "unat (of_int start_mem - LOW_MEM :: u32) = nat (start_mem - 0x100000)"
    using nn by (simp only: unat_eq_nat_uint uint_word_of_int) simp
  then have nr: "MAP_NR (of_int start_mem) = nat (a - 256)"
    using nn a by (simp add: MAP_NR_def drop_bit_eq_div unat_div nat_div_distrib[symmetric])
  have n: "(end_mem - start_mem) div 4096 = b - a" by (simp add: a b)
  let ?nr = "MAP_NR (of_int start_mem)"
  have "?nr \<le> i \<and> i < ?nr + nat ((end_mem - start_mem) div 4096) \<longleftrightarrow>
      start_mem \<le> 4096 * int i + 0x100000 \<and> 4096 * int i + 0x100000 < end_mem"
    unfolding nr n using nn assms(2) a b by (auto simp: nat_le_iff)
  then show ?thesis
    using assms(6) by (simp add: mem_init_def Let_def fold_zero)
qed

subsection \<open>Witnesses\<close>

text \<open>A state with all frames free, and the facts about it that the witnesses need.\<close>

definition mm0 :: mm where
  "mm0 = \<lparr>mem = (\<lambda>_. 0), mem_map = (\<lambda>_. 0), high_memory = 0x1000000, swap_bitmap = 0,
     swap_space = (\<lambda>_ _. 0), dir_entry = 16, page_entry = -1, tlb_flushes = 0, klog = []\<rparr>"

lemma scan_down_last: "0 < n \<Longrightarrow> m (n - 1) = 0 \<Longrightarrow> scan_down m n = Some (n - 1)"
  by (cases n) auto

lemma last_frame: "frame_addr 3839 = 0xfff000"
  by (simp add: frame_addr_def LOW_MEM_def push_bit_eq_mult)

theorem get_free_page_result_witness:
  "get_free_page mm0 = Inr (0xfff000, take_frame 3839 mm0) \<and>
   (\<exists>i<PAGING_PAGES. 0xfff000 = frame_addr i \<and> mem_map (take_frame 3839 mm0) i = 1)"
proof -
  have g: "get_free_page mm0 = Inr (0xfff000, take_frame 3839 mm0)"
    using get_free_page_direct[of mm0 3839]
    by (simp add: scan_down_last PAGING_PAGES_def mm0_def last_frame)
  then show ?thesis using get_free_page_result[OF g] by auto
qed

definition mm_cow :: mm where
  "mm_cow = mm0\<lparr>mem := (\<lambda>_. 0)(0x101000 := 0x100005), mem_map := (\<lambda>_. 0)(0 := 2, 1 := 1)\<rparr>"

theorem un_wp_page_private_witness:
  "\<exists>s'. un_wp_page 0x101000 mm_cow = Inr ((), s') \<and> odd (mem s' 0x101000) \<and>
     mem s' 0x101000 AND 2 = 2 \<and> pte_view s' 0x101000 8 = pte_view mm_cow 0x101000 8"
proof -
  have e: "page_of (mem mm_cow 0x101000) = 0x100000" "page_of 0x101000 = 0x101000" "MAP_NR 0x100000 = 0"
    by (simp_all add: mm_cow_def page_of_def MAP_NR_def LOW_MEM_def)
  have 1: "scan_down (mem_map mm_cow) PAGING_PAGES = Some 3839"
    by (simp add: scan_down_last mm_cow_def PAGING_PAGES_def)
  have 2: "frame_addr 3839 < high_memory mm_cow" by (simp add: last_frame mm_cow_def mm0_def)
  have 3: "page_of 0x101000 \<noteq> frame_addr 3839" "LOW_MEM \<le> page_of (mem mm_cow 0x101000)"
    "mem_map mm_cow (MAP_NR (page_of (mem mm_cow 0x101000))) \<noteq> 0"
    unfolding e by (simp_all add: last_frame LOW_MEM_def mm_cow_def)
  note f = free_frame_spares[OF 1 2 3]
  have "mem_map mm_cow 0 = 2" "frame_addr 3839 \<noteq> 0" "odd (mem mm_cow 0x101000)" by (simp_all add: mm_cow_def last_frame)
  with un_wp_page_private[of mm_cow "0x101000"] f have "\<exists>s'. un_wp_page 0x101000 mm_cow = Inr ((), s') \<and>
      odd (mem s' 0x101000) \<and> mem s' 0x101000 AND 2 = 2 \<and>
      (\<forall>d. page_off d = d \<longrightarrow> pte_view s' 0x101000 d = pte_view mm_cow 0x101000 d)"
    unfolding e Let_def f(1) by auto
  moreover have "page_off 8 = 8" by (simp add: page_off_def)
  ultimately show ?thesis by blast
qed

definition mm_fork :: mm where
  "mm_fork = mm0\<lparr>mem := (\<lambda>_. 0)(0x1000 := 0x101007)\<rparr>"

theorem copy_ptes_cow_witness:
  "\<exists>s'. copy_ptes 2 0x1000 0x2000 mm_fork = Inr (True, s') \<and>
     mem s' 0x2000 = 0x101005 \<and> mem s' 0x1000 = 0x101005 \<and> mem_map s' 1 = 1"
proof -
  define e where "e k = mem mm_fork (0x1000 + 4 * of_nat k)" for k
  have two: "k < 2 \<longleftrightarrow> k = 0 \<or> k = 1" for k :: nat by auto
  have e: "e 0 = 0x101007" "e 1 = 0" by (simp_all add: e_def mm_fork_def mm0_def)
  have c: "cow 0x101007 = 0x101005" by (simp add: cow_def)
  have "card (shares e 2 1) = 1"
  proof -
    have "shares e 2 1 = {0}"
      using e by (auto simp: shares_def two c LOW_MEM_def MAP_NR_def)
    then show ?thesis by simp
  qed
  note cnt = this
  have "\<exists>s'. copy_ptes 2 0x1000 0x2000 mm_fork = Inr (True, s') \<and>
    (\<forall>k<2. mem s' (0x2000 + 4 * of_nat k) =
       (if e k = 0 then mem mm_fork (0x2000 + 4 * of_nat k) else cow (e k))) \<and>
    (\<forall>k<2. mem s' (0x1000 + 4 * of_nat k) = (if LOW_MEM < cow (e k) then cow (e k) else e k)) \<and>
    (\<forall>a. (\<forall>k<2. a \<noteq> 0x1000 + 4 * of_nat k \<and> a \<noteq> 0x2000 + 4 * of_nat k) \<longrightarrow>
       mem s' a = mem mm_fork a) \<and>
    (\<forall>j. mem_map s' j = mem_map mm_fork j + of_nat (card (shares e 2 j)))"
  proof (rule copy_ptes_cow)
    show "\<forall>k<2. e k = mem mm_fork (0x1000 + 4 * of_nat k)" by (simp add: e_def)
  qed (auto simp: two e e(2)[unfolded One_nat_def])
  then obtain s' where run: "copy_ptes 2 0x1000 0x2000 mm_fork = Inr (True, s')"
    and to: "\<forall>k<2. mem s' (0x2000 + 4 * of_nat k) =
       (if e k = 0 then mem mm_fork (0x2000 + 4 * of_nat k) else cow (e k))"
    and src: "\<forall>k<2. mem s' (0x1000 + 4 * of_nat k) =
       (if LOW_MEM < cow (e k) then cow (e k) else e k)"
    and map: "\<forall>j. mem_map s' j = mem_map mm_fork j + of_nat (card (shares e 2 j))"
    by blast
  have "mem s' 0x2000 = 0x101005" using to[rule_format, of 0] by (simp add: e c)
  moreover have "mem s' 0x1000 = 0x101005"
    using src[rule_format, of 0] by (simp add: e c LOW_MEM_def)
  moreover have "mem_map s' 1 = 1" using map cnt by (simp add: mm_fork_def mm0_def)
  ultimately show ?thesis using run by blast
qed

definition mm_swap :: mm where
  "mm_swap = mm0\<lparr>mem := (\<lambda>_. 0)(0x101000 := 0x102067, 0x103000 := 0xfffffffe),
     mem_map := (\<lambda>_. 0)(1 := 1, 2 := 1, 3 := 1), swap_bitmap := 0x103000\<rparr>"

theorem swap_roundtrip_witness:
  "\<exists>s1 s2. try_to_swap_out 0x101000 mm_swap = Inr (True, s1) \<and> even (mem s1 0x101000) \<and>
     swap_in 0x101000 s1 = Inr ((), s2) \<and>
     pte_view s2 0x101000 4 = pte_view mm_swap 0x101000 4"
proof -
  have nrs: "MAP_NR 0x102000 = 2" "MAP_NR 0x101000 = 1" "MAP_NR 0x103000 = 3"
    by (simp_all add: MAP_NR_def LOW_MEM_def)
  have pgs: "page_of 0x101000 = 0x101000" "page_of 0x102067 = 0x102000"
      "page_of 0x103000 = 0x103000"
    by (simp_all add: page_of_def)
  have "1 \<in> swap_pool mm_swap"
    by (simp add: swap_pool_def swap_bit_def swap_word_def SWAP_BITS_def mm_swap_def)
  then have pool: "swap_pool mm_swap \<noteq> {}" by blast
  have "swappable 0x101000 mm_swap"
    unfolding swappable_def Let_def
    using pool by (simp add: mm_swap_def mm0_def pgs nrs PAGE_DIRTY_def LOW_MEM_def PAGING_MEMORY_def)
  from swap_roundtrip[OF this] obtain s1 where
    s1: "try_to_swap_out 0x101000 mm_swap = Inr (True, s1)" "even (mem s1 0x101000)"
    and again: "\<And>i. scan_down (mem_map s1) PAGING_PAGES = Some i \<Longrightarrow> frame_addr i < high_memory s1 \<Longrightarrow>
      \<exists>s2. swap_in 0x101000 s1 = Inr ((), s2) \<and>
        (\<forall>d. page_off d = d \<longrightarrow> pte_view s2 0x101000 d = pte_view mm_swap 0x101000 d)"
    by blast
  obtain n where "try_to_swap_out 0x101000 mm_swap = Inr (True, swapped_out 0x101000 n mm_swap)"
    using try_to_swap_out_dirty[of mm_swap "0x101000"] \<open>swappable 0x101000 mm_swap\<close>
    by (auto simp: swappable_def Let_def)
  with s1 have eq: "s1 = swapped_out 0x101000 n mm_swap" by simp
  have "mem_map s1 3839 = 0" and hi: "high_memory s1 = 0x1000000"
    unfolding eq by (simp_all add: swapped_out_def Let_def write_swap_page_def invalidate_def
        poke_def clrbit_def mm_swap_def mm0_def)
  then have "scan_down (mem_map s1) PAGING_PAGES = Some 3839"
    by (simp add: scan_down_last PAGING_PAGES_def)
  moreover have "frame_addr 3839 < high_memory s1" by (simp add: last_frame hi)
  moreover have "page_off 4 = 4" by (simp add: page_off_def)
  ultimately show ?thesis using again s1 by blast
qed

theorem mem_init_map_witness:
  "mem_map (mem_init 0x400000 0x1000000 mm0) 768 = 0 \<and>
   mem_map (mem_init 0x400000 0x1000000 mm0) 767 = USED"
  using mem_init_map[of "0x400000" "0x1000000" 768 mm0]
    mem_init_map[of "0x400000" "0x1000000" 767 mm0]
  by (simp add: PAGING_PAGES_def)

end
