(* ===== verification/Proc.thy ===== *)
theory Proc
  imports Kprelude
begin

section \<open>Processes: the task table, the scheduler, sleeping and timers\<close>

text \<open>
  \<^verbatim>\<open>include/linux/sched.h\<close> and \<^verbatim>\<open>kernel/sched.c\<close>. A pointer to a
  task structure is the number of its slot in \<^verbatim>\<open>task[]\<close> (\<open>None\<close> is
  \<^verbatim>\<open>NULL\<close>); \<open>present\<close> says which slots of the table are not NULL. The kernel
  does not fault on address 0, so what the code reads and writes through a null pointer is kept
  as one more task structure, \<open>at_null\<close>. C \<^verbatim>\<open>long\<close>s that count (time slices,
  ticks, process numbers) are integers; bit maps, addresses and \<open>jiffies\<close> are 32-bit words.
  Calls into the device drivers (screen blanking, hard disk time-out, port writes, the function
  of an expired timer) are recorded in \<open>events\<close>, newest first.
\<close>

subsection \<open>Data\<close>

record sigact =
  sa_handler :: u32
  sa_mask :: u32
  sa_flags :: u32
  sa_restorer :: u32

record task_struct =
  t_state :: int
  t_counter :: int
  t_priority :: int
  t_signal :: u32
  t_sigaction :: "int \<Rightarrow> sigact"
  t_blocked :: u32
  t_exit_code :: int
  t_start_code :: u32
  t_end_code :: u32
  t_end_data :: u32
  t_brk :: u32
  t_start_stack :: u32
  t_pid :: int
  t_pgrp :: int
  t_session :: int
  t_leader :: int
  t_groups :: "nat \<Rightarrow> int"
  t_pptr :: "nat option"
  t_cptr :: "nat option"
  t_ysptr :: "nat option"
  t_osptr :: "nat option"
  t_uid :: u16
  t_euid :: u16
  t_suid :: u16
  t_gid :: u16
  t_egid :: u16
  t_sgid :: u16
  t_timeout :: u32
  t_alarm :: u32
  t_utime :: int
  t_stime :: int
  t_cutime :: int
  t_cstime :: int
  t_start_time :: u32
  t_rlim :: "int \<Rightarrow> int \<times> int"
  t_used_math :: bool
  t_i387 :: nat
  t_tty :: int
  t_umask :: u16
  t_ldt_base :: u32
  t_ldt_limit :: u32

datatype event =
    UnblankScreen | BlankScreen | HdTimesOut | SysBeepStop
  | TimerFn nat | Outb u8 u16 | Message string

record kernel =
  tasks :: "nat \<Rightarrow> task_struct"
  present :: "nat \<Rightarrow> bool"
  current :: nat
  at_null :: task_struct
  jiffies :: u32
  startup_time :: u32
  jiffies_offset :: int
  last_pid :: int
  last_task_used_math :: "nat option"
  fpu :: nat
  timer_list :: "(int \<times> nat) list"
  events :: "event list"
  blankcount :: int
  blankinterval :: int
  blanked :: bool
  hd_timeout :: int
  beepcount :: int
  current_DOR :: u8
  fd_selected :: bool
  mon_timer :: "nat \<Rightarrow> int"
  moff_timer :: "nat \<Rightarrow> int"
  wait_motor :: "nat \<Rightarrow> nat option"
  umem :: "u32 \<Rightarrow> u8"
  sys_tz :: "int \<times> int"
  firsttime :: bool
  thisname :: "nat \<Rightarrow> u8"

type_synonym 'a pres = "(kernel, 'a) res"

abbreviation (input) NR_TASKS :: nat where "NR_TASKS \<equiv> 64"
abbreviation (input) HZ :: int where "HZ \<equiv> 100"
abbreviation (input) TASK_RUNNING :: int where "TASK_RUNNING \<equiv> 0"
abbreviation (input) TASK_INTERRUPTIBLE :: int where "TASK_INTERRUPTIBLE \<equiv> 1"
abbreviation (input) TASK_UNINTERRUPTIBLE :: int where "TASK_UNINTERRUPTIBLE \<equiv> 2"
abbreviation (input) TASK_ZOMBIE :: int where "TASK_ZOMBIE \<equiv> 3"
abbreviation (input) TASK_STOPPED :: int where "TASK_STOPPED \<equiv> 4"

text \<open>The entry of \<^verbatim>\<open>task[]\<close>, reading through a pointer and writing through it.\<close>

definition slot :: "kernel \<Rightarrow> nat \<Rightarrow> nat option" where
  "slot k i = (if present k i then Some i else None)"

definition deref :: "kernel \<Rightarrow> nat option \<Rightarrow> task_struct" where
  "deref k p = (case p of Some i \<Rightarrow> tasks k i | None \<Rightarrow> at_null k)"

definition assign :: "nat option \<Rightarrow> (task_struct \<Rightarrow> task_struct) \<Rightarrow> kernel \<Rightarrow> kernel" where
  "assign p f k =
     (case p of Some i \<Rightarrow> k\<lparr>tasks := (tasks k)(i := f (tasks k i))\<rparr>
      | None \<Rightarrow> k\<lparr>at_null := f (at_null k)\<rparr>)"

definition cur :: "kernel \<Rightarrow> task_struct" where
  "cur k = tasks k (current k)"

definition upd_cur :: "(task_struct \<Rightarrow> task_struct) \<Rightarrow> kernel \<Rightarrow> kernel" where
  "upd_cur f k = assign (Some (current k)) f k"

definition emit :: "event \<Rightarrow> kernel \<Rightarrow> kernel" where
  "emit e k = k\<lparr>events := e # events k\<rparr>"

lemmas ptr_defs [kdefs] = slot_def deref_def assign_def cur_def upd_cur_def emit_def

text \<open>\<^verbatim>\<open>1<<(sig-1)\<close>; the i386 shifts by the count modulo 32.\<close>

definition sigbit :: "int \<Rightarrow> u32" where
  "sigbit sig = push_bit (nat ((sig - 1) mod 32)) 1"

abbreviation (input) SIGHUP :: int where "SIGHUP \<equiv> 1"
abbreviation (input) SIGQUIT :: int where "SIGQUIT \<equiv> 3"
abbreviation (input) SIGILL :: int where "SIGILL \<equiv> 4"
abbreviation (input) SIGTRAP :: int where "SIGTRAP \<equiv> 5"
abbreviation (input) SIGIOT :: int where "SIGIOT \<equiv> 6"
abbreviation (input) SIGFPE :: int where "SIGFPE \<equiv> 8"
abbreviation (input) SIGKILL :: int where "SIGKILL \<equiv> 9"
abbreviation (input) SIGSEGV :: int where "SIGSEGV \<equiv> 11"
abbreviation (input) SIGALRM :: int where "SIGALRM \<equiv> 14"
abbreviation (input) SIGCHLD :: int where "SIGCHLD \<equiv> 17"
abbreviation (input) SIGCONT :: int where "SIGCONT \<equiv> 18"
abbreviation (input) SIGSTOP :: int where "SIGSTOP \<equiv> 19"
abbreviation (input) SIGTSTP :: int where "SIGTSTP \<equiv> 20"
abbreviation (input) SIGTTIN :: int where "SIGTTIN \<equiv> 21"
abbreviation (input) SIGTTOU :: int where "SIGTTOU \<equiv> 22"

definition BLOCKABLE :: u32 where
  "BLOCKABLE = NOT (sigbit SIGKILL OR sigbit SIGSTOP)"

subsection \<open>schedule\<close>

definition expire_timeout :: "u32 \<Rightarrow> task_struct \<Rightarrow> task_struct" where
  "expire_timeout now t =
     (if t_timeout t \<noteq> 0 \<and> t_timeout t < now
      then t\<lparr>t_timeout := 0,
             t_state := if t_state t = TASK_INTERRUPTIBLE then TASK_RUNNING else t_state t\<rparr>
      else t)"

definition expire_alarm :: "u32 \<Rightarrow> task_struct \<Rightarrow> task_struct" where
  "expire_alarm now t =
     (if t_alarm t \<noteq> 0 \<and> t_alarm t < now
      then t\<lparr>t_signal := t_signal t OR sigbit SIGALRM, t_alarm := 0\<rparr>
      else t)"

definition wake_if_signalled :: "task_struct \<Rightarrow> task_struct" where
  "wake_if_signalled t =
     (if t_signal t AND NOT (BLOCKABLE AND t_blocked t) \<noteq> 0 \<and> t_state t = TASK_INTERRUPTIBLE
      then t\<lparr>t_state := TASK_RUNNING\<rparr> else t)"

definition check_alarm :: "u32 \<Rightarrow> task_struct \<Rightarrow> task_struct" where
  "check_alarm now t = wake_if_signalled (expire_alarm now (expire_timeout now t))"

definition wake_signalled :: "kernel \<Rightarrow> kernel" where
  "wake_signalled k = k\<lparr>tasks := (\<lambda>i. if 0 < i \<and> i < NR_TASKS \<and> present k i
     then check_alarm (jiffies k) (tasks k i) else tasks k i)\<rparr>"

definition pick_step :: "kernel \<Rightarrow> nat \<Rightarrow> int \<times> nat \<Rightarrow> int \<times> nat" where
  "pick_step k i = (\<lambda>(c, next).
     if present k i \<and> t_state (tasks k i) = TASK_RUNNING \<and> c < t_counter (tasks k i)
     then (t_counter (tasks k i), i) else (c, next))"

definition pick :: "kernel \<Rightarrow> int \<times> nat" where
  "pick k = fold (pick_step k) (rev [1..<NR_TASKS]) (-1, 0)"

definition recharge :: "kernel \<Rightarrow> kernel" where
  "recharge k = k\<lparr>tasks := (\<lambda>i. if 0 < i \<and> i < NR_TASKS \<and> present k i
     then (tasks k i)\<lparr>t_counter := t_counter (tasks k i) div 2 + t_priority (tasks k i)\<rparr>
     else tasks k i)\<rparr>"

definition switch_to :: "nat \<Rightarrow> kernel \<Rightarrow> kernel" where
  "switch_to n k = k\<lparr>current := n\<rparr>"

text \<open>The \<^verbatim>\<open>while (1)\<close> loop, which ends when the best counter is not 0.\<close>

partial_function (option) sched_loop :: "kernel \<Rightarrow> kernel option" where
  "sched_loop k =
     (let (c, next) = pick k in
      if c \<noteq> 0 then Some (switch_to next k) else sched_loop (recharge k))"

definition schedule :: "kernel \<Rightarrow> kernel option" where
  "schedule k = sched_loop (wake_signalled k)"

definition sys_pause :: "kernel \<Rightarrow> kernel option" where
  "sys_pause k = schedule (upd_cur (\<lambda>t. t\<lparr>t_state := TASK_INTERRUPTIBLE\<rparr>) k)"

subsection \<open>Sleeping\<close>

text \<open>
  \<^verbatim>\<open>__sleep_on\<close> in two halves, as the sleeping process runs them: \<open>sleep_enter\<close> up
  to the first \<^verbatim>\<open>schedule()\<close>, with the old head of the queue in the local variable
  \<^verbatim>\<open>tmp\<close>, and \<open>sleep_resume\<close> from there on, which either goes back to
  \<^verbatim>\<open>repeat:\<close> (\<open>False\<close>) or leaves (\<open>True\<close>). The variable the queue hangs on is
  passed and returned.
\<close>

definition sleep_enter :: "int \<Rightarrow> nat option \<Rightarrow> kernel \<Rightarrow> (kernel, nat option \<times> nat option) res" where
  "sleep_enter st p k =
     (if current k = 0 then stopK (Panic ''task[0] trying to sleep'') k
      else retK (p, Some (current k)) (upd_cur (\<lambda>t. t\<lparr>t_state := st\<rparr>) k))"

definition sleep_resume :: "nat option \<Rightarrow> nat option \<Rightarrow> kernel \<Rightarrow> bool \<times> nat option \<times> kernel" where
  "sleep_resume tmp p k =
     (if p \<noteq> None \<and> p \<noteq> Some (current k)
      then (False, p, upd_cur (\<lambda>t. t\<lparr>t_state := TASK_UNINTERRUPTIBLE\<rparr>)
             (assign p (\<lambda>t. t\<lparr>t_state := 0\<rparr>) k))
      else let k = (if p = None then emit (Message ''Warning: *P = NULL'') k else k) in
        (True, tmp, if tmp \<noteq> None then assign tmp (\<lambda>t. t\<lparr>t_state := 0\<rparr>) k else k))"

definition wake_up :: "nat option \<Rightarrow> kernel \<Rightarrow> kernel" where
  "wake_up p k =
     (if p = None then k
      else let k = (if t_state (deref k p) = TASK_STOPPED
                    then emit (Message ''wake_up: TASK_STOPPED'') k else k);
               k = (if t_state (deref k p) = TASK_ZOMBIE
                    then emit (Message ''wake_up: TASK_ZOMBIE'') k else k)
           in assign p (\<lambda>t. t\<lparr>t_state := 0\<rparr>) k)"

subsection \<open>Floppy motors\<close>

definition ticks_to_floppy_on :: "nat \<Rightarrow> kernel \<Rightarrow> int pres" where
  "ticks_to_floppy_on nr k =
     (if 3 < nr then stopK (Panic ''floppy_on: nr>3'') k
      else let k = k\<lparr>moff_timer := (moff_timer k)(nr := 10000)\<rparr>;
               mask = push_bit nr (0x10 :: u8) OR current_DOR k;
               mask = (if \<not> fd_selected k then (mask AND 0xFC) OR of_nat nr else mask);
               k = (if mask \<noteq> current_DOR k
                    then (let k = emit (Outb mask 0x3f2) k;
                              k = (if (mask XOR current_DOR k) AND 0xf0 \<noteq> 0
                                   then k\<lparr>mon_timer := (mon_timer k)(nr := HZ div 2)\<rparr>
                                   else if mon_timer k nr < 2
                                   then k\<lparr>mon_timer := (mon_timer k)(nr := 2)\<rparr> else k)
                          in k\<lparr>current_DOR := mask\<rparr>)
                    else k)
           in retK (mon_timer k nr) k)"

definition floppy_off :: "nat \<Rightarrow> kernel \<Rightarrow> kernel" where
  "floppy_off nr k = k\<lparr>moff_timer := (moff_timer k)(nr := 3 * HZ)\<rparr>"

definition floppy_timer_step :: "nat \<Rightarrow> kernel \<Rightarrow> kernel" where
  "floppy_timer_step i k =
     (let mask = push_bit i (0x10 :: u8) in
      if mask AND current_DOR k = 0 then k
      else if mon_timer k i \<noteq> 0 then
        (let k = k\<lparr>mon_timer := (mon_timer k)(i := mon_timer k i - 1)\<rparr> in
         if mon_timer k i = 0 then wake_up (wait_motor k i) k else k)
      else if moff_timer k i = 0 then
        (let k = k\<lparr>current_DOR := current_DOR k AND NOT mask\<rparr> in
         emit (Outb (current_DOR k) 0x3f2) k)
      else k\<lparr>moff_timer := (moff_timer k)(i := moff_timer k i - 1)\<rparr>)"

definition do_floppy_timer :: "kernel \<Rightarrow> kernel" where
  "do_floppy_timer k = fold floppy_timer_step [0..<4] k"

subsection \<open>Timers\<close>

abbreviation (input) TIME_REQUESTS :: nat where "TIME_REQUESTS \<equiv> 64"

text \<open>
  The list \<^verbatim>\<open>next_timer\<close> as pairs of ticks and function; the slots of
  \<^verbatim>\<open>timer_list[]\<close> in use are the ones on the list. A new timer is put in front and
  trades places with its successor as long as that is due earlier.
\<close>

fun sink_timer :: "int \<times> nat \<Rightarrow> (int \<times> nat) list \<Rightarrow> (int \<times> nat) list" where
  "sink_timer p [] = [p]"
| "sink_timer (j, fn) ((j1, fn1) # ts) =
     (if j1 < j then (j1, fn1) # sink_timer (j - j1, fn) ts
      else (j, fn) # (j1, fn1) # ts)"

definition add_timer :: "int \<Rightarrow> nat option \<Rightarrow> kernel \<Rightarrow> unit pres" where
  "add_timer ticks fn k =
     (case fn of None \<Rightarrow> retK () k
      | Some f \<Rightarrow>
          if ticks \<le> 0 then retK () (emit (TimerFn f) k)
          else if TIME_REQUESTS \<le> length (timer_list k)
          then stopK (Panic ''No more time requests free'') k
          else retK () (k\<lparr>timer_list := sink_timer (ticks, f) (timer_list k)\<rparr>))"

fun run_timers :: "(int \<times> nat) list \<Rightarrow> nat list \<times> (int \<times> nat) list" where
  "run_timers [] = ([], [])"
| "run_timers ((j, fn) # ts) =
     (if j \<le> 0 then (let (fns, rest) = run_timers ts in (fn # fns, rest))
      else ([], (j, fn) # ts))"

definition tick_timers :: "(int \<times> nat) list \<Rightarrow> nat list \<times> (int \<times> nat) list" where
  "tick_timers ts = (case ts of [] \<Rightarrow> ([], []) | (j, fn) # r \<Rightarrow> run_timers ((j - 1, fn) # r))"

text \<open>The parts of \<^verbatim>\<open>do_timer\<close>, in its order.\<close>

definition screen_tick :: "kernel \<Rightarrow> kernel" where
  "screen_tick k =
     (if blankcount k \<noteq> 0 \<or> blankinterval k = 0
      then (let k = (if blanked k then emit UnblankScreen k else k);
                k = (if blankcount k \<noteq> 0 then k\<lparr>blankcount := blankcount k - 1\<rparr> else k)
            in k\<lparr>blanked := False\<rparr>)
      else if \<not> blanked k then (emit BlankScreen k)\<lparr>blanked := True\<rparr>
      else k)"

definition hd_tick :: "kernel \<Rightarrow> kernel" where
  "hd_tick k =
     (if hd_timeout k \<noteq> 0
      then (let k = k\<lparr>hd_timeout := hd_timeout k - 1\<rparr>
            in if hd_timeout k = 0 then emit HdTimesOut k else k)
      else k)"

definition beep_tick :: "kernel \<Rightarrow> kernel" where
  "beep_tick k =
     (if beepcount k \<noteq> 0
      then (let k = k\<lparr>beepcount := beepcount k - 1\<rparr>
            in if beepcount k = 0 then emit SysBeepStop k else k)
      else k)"

definition time_tick :: "bool \<Rightarrow> kernel \<Rightarrow> kernel" where
  "time_tick cpl k =
     (if cpl then upd_cur (\<lambda>t. t\<lparr>t_utime := t_utime t + 1\<rparr>) k
      else upd_cur (\<lambda>t. t\<lparr>t_stime := t_stime t + 1\<rparr>) k)"

definition timers_tick :: "kernel \<Rightarrow> kernel" where
  "timers_tick k =
     (let (fns, ts) = tick_timers (timer_list k)
      in fold (\<lambda>f. emit (TimerFn f)) fns (k\<lparr>timer_list := ts\<rparr>))"

definition motors_tick :: "kernel \<Rightarrow> kernel" where
  "motors_tick k = (if current_DOR k AND 0xf0 \<noteq> 0 then do_floppy_timer k else k)"

definition do_timer :: "bool \<Rightarrow> kernel \<Rightarrow> kernel option" where
  "do_timer cpl k =
     (let k = motors_tick (timers_tick (time_tick cpl (beep_tick (hd_tick (screen_tick k)))));
          k = upd_cur (\<lambda>t. t\<lparr>t_counter := t_counter t - 1\<rparr>) k
      in if 0 < t_counter (cur k) then Some k
         else let k = upd_cur (\<lambda>t. t\<lparr>t_counter := 0\<rparr>) k in
           if \<not> cpl then Some k else schedule k)"

subsection \<open>Simple system calls\<close>

definition sys_alarm :: "int \<Rightarrow> kernel \<Rightarrow> int \<times> kernel" where
  "sys_alarm seconds k =
     (let old = t_alarm (cur k);
          old = (if old \<noteq> 0 then (old - jiffies k) div 100 else old);
          a = (if 0 < seconds then jiffies k + 100 * of_int seconds else 0)
      in (sint old, upd_cur (\<lambda>t. t\<lparr>t_alarm := a\<rparr>) k))"

definition sys_getpid :: "kernel \<Rightarrow> int" where
  "sys_getpid k = t_pid (cur k)"

definition sys_getppid :: "kernel \<Rightarrow> int" where
  "sys_getppid k = t_pid (deref k (t_pptr (cur k)))"

definition sys_getuid :: "kernel \<Rightarrow> int" where
  "sys_getuid k = uint (t_uid (cur k))"

definition sys_geteuid :: "kernel \<Rightarrow> int" where
  "sys_geteuid k = uint (t_euid (cur k))"

definition sys_getgid :: "kernel \<Rightarrow> int" where
  "sys_getgid k = uint (t_gid (cur k))"

definition sys_getegid :: "kernel \<Rightarrow> int" where
  "sys_getegid k = uint (t_egid (cur k))"

definition sys_nice :: "int \<Rightarrow> kernel \<Rightarrow> int \<times> kernel" where
  "sys_nice increment k =
     (0, if 0 < t_priority (cur k) - increment
         then upd_cur (\<lambda>t. t\<lparr>t_priority := t_priority t - increment\<rparr>) k else k)"

text \<open>
  The contents of the coprocessor and of a saved copy are opaque (0 is what
  \<^verbatim>\<open>fninit\<close> leaves).
\<close>

definition math_state_restore :: "kernel \<Rightarrow> kernel" where
  "math_state_restore k =
     (if last_task_used_math k = Some (current k) then k
      else let k = (case last_task_used_math k of
                      Some j \<Rightarrow> assign (Some j) (\<lambda>t. t\<lparr>t_i387 := fpu k\<rparr>) k
                    | None \<Rightarrow> k);
               k = k\<lparr>last_task_used_math := Some (current k)\<rparr>
           in if t_used_math (cur k) then k\<lparr>fpu := t_i387 (cur k)\<rparr>
              else upd_cur (\<lambda>t. t\<lparr>t_used_math := True\<rparr>) (k\<lparr>fpu := 0\<rparr>))"

end
