(* ===== verification/Useg.thy ===== *)
theory Useg
  imports Proc
begin

section \<open>User space, error numbers and system calls of \<^verbatim>\<open>kernel/sys.c\<close>\<close>

text \<open>
  \<^verbatim>\<open>include/asm/segment.h\<close>: reading and writing user memory through the
  \<^verbatim>\<open>fs\<close> segment, bytes at addresses that wrap at 32 bits, little-endian;
  the error numbers of \<^verbatim>\<open>include/errno.h\<close>.
\<close>

subsection \<open>Error numbers\<close>

abbreviation (input) ERROR :: int where "ERROR \<equiv> 99"
abbreviation (input) EPERM :: int where "EPERM \<equiv> 1"
abbreviation (input) ENOENT :: int where "ENOENT \<equiv> 2"
abbreviation (input) ESRCH :: int where "ESRCH \<equiv> 3"
abbreviation (input) EINTR :: int where "EINTR \<equiv> 4"
abbreviation (input) EIO :: int where "EIO \<equiv> 5"
abbreviation (input) EBADF :: int where "EBADF \<equiv> 9"
abbreviation (input) ECHILD :: int where "ECHILD \<equiv> 10"
abbreviation (input) EAGAIN :: int where "EAGAIN \<equiv> 11"
abbreviation (input) ENOMEM :: int where "ENOMEM \<equiv> 12"
abbreviation (input) EACCES :: int where "EACCES \<equiv> 13"
abbreviation (input) EINVAL :: int where "EINVAL \<equiv> 22"
abbreviation (input) ENOTTY :: int where "ENOTTY \<equiv> 25"
abbreviation (input) EPIPE :: int where "EPIPE \<equiv> 32"
abbreviation (input) ENOSYS :: int where "ENOSYS \<equiv> 38"
abbreviation (input) ERESTARTSYS :: int where "ERESTARTSYS \<equiv> 512"
abbreviation (input) ERESTARTNOINTR :: int where "ERESTARTNOINTR \<equiv> 513"

subsection \<open>The \<^verbatim>\<open>fs\<close> segment\<close>

definition get_fs_byte :: "u32 \<Rightarrow> kernel \<Rightarrow> u8" where
  "get_fs_byte a k = umem k a"

definition get_fs_word :: "u32 \<Rightarrow> kernel \<Rightarrow> u16" where
  "get_fs_word a k = ucast (umem k a) OR push_bit 8 (ucast (umem k (a + 1)))"

definition get_fs_long :: "u32 \<Rightarrow> kernel \<Rightarrow> u32" where
  "get_fs_long a k =
     ucast (umem k a) OR push_bit 8 (ucast (umem k (a + 1))) OR
     push_bit 16 (ucast (umem k (a + 2))) OR push_bit 24 (ucast (umem k (a + 3)))"

definition put_fs_byte :: "u8 \<Rightarrow> u32 \<Rightarrow> kernel \<Rightarrow> kernel" where
  "put_fs_byte v a k = k\<lparr>umem := (umem k)(a := v)\<rparr>"

definition put_fs_word :: "u16 \<Rightarrow> u32 \<Rightarrow> kernel \<Rightarrow> kernel" where
  "put_fs_word v a k = k\<lparr>umem := (umem k)(a := ucast v, a + 1 := ucast (drop_bit 8 v))\<rparr>"

definition put_fs_long :: "u32 \<Rightarrow> u32 \<Rightarrow> kernel \<Rightarrow> kernel" where
  "put_fs_long v a k = k\<lparr>umem := (umem k)(a := ucast v, a + 1 := ucast (drop_bit 8 v),
     a + 2 := ucast (drop_bit 16 v), a + 3 := ucast (drop_bit 24 v))\<rparr>"

lemma get_put_fs_word: "get_fs_word a (put_fs_word v a k) = v"
  by (rule word_eqI_bits)
     (auto simp: get_fs_word_def put_fs_word_def bit_simps)

lemma distinct_offsets:
  "a + 1 \<noteq> (a :: u32)" "a + 2 \<noteq> a" "a + 3 \<noteq> a" "a + 1 \<noteq> a + 2" "a + 1 \<noteq> a + 3" "a + 2 \<noteq> a + 3"
  by simp_all

lemma get_put_fs_long: "get_fs_long a (put_fs_long v a k) = v"
proof (rule word_eqI_bits)
  fix n assume "n < LENGTH(32)"
  then have n: "n < 8 \<or> 8 \<le> n \<and> n < 16 \<or> 16 \<le> n \<and> n < 24 \<or> 24 \<le> n \<and> n < 32" by auto
  show "bit (get_fs_long a (put_fs_long v a k)) n = bit v n"
    using n by (auto simp: get_fs_long_def put_fs_long_def bit_simps)
qed

lemma put_fs_frame [simp]:
  "tasks (put_fs_long v a k) = tasks k" "tasks (put_fs_word w a k) = tasks k"
  "tasks (put_fs_byte b a k) = tasks k"
  "current (put_fs_long v a k) = current k" "current (put_fs_word w a k) = current k"
  "current (put_fs_byte b a k) = current k"
  "present (put_fs_long v a k) = present k" "present (put_fs_word w a k) = present k"
  "present (put_fs_byte b a k) = present k"
  by (simp_all add: put_fs_long_def put_fs_word_def put_fs_byte_def)

text \<open>The byte-wise copy loops to and from user space.\<close>

primrec put_fs_bytes :: "u8 list \<Rightarrow> u32 \<Rightarrow> kernel \<Rightarrow> kernel" where
  "put_fs_bytes [] a k = k"
| "put_fs_bytes (c # cs) a k = put_fs_bytes cs (a + 1) (put_fs_byte c a k)"

definition get_fs_bytes :: "nat \<Rightarrow> u32 \<Rightarrow> kernel \<Rightarrow> u8 list" where
  "get_fs_bytes n a k = map (\<lambda>i. get_fs_byte (a + of_nat i) k) [0..<n]"

definition suser :: "kernel \<Rightarrow> bool" where
  "suser k \<longleftrightarrow> t_euid (cur k) = 0"

text \<open>\<^verbatim>\<open>CURRENT_TIME\<close>\<close>

definition CURRENT_TIME :: "kernel \<Rightarrow> u32" where
  "CURRENT_TIME k = startup_time k + (jiffies k + of_int (jiffies_offset k)) div 100"

end
