(* ===== verification/Exit.thy ===== *)
theory Exit
  imports Useg
begin

section \<open>Signals to processes, waiting and exit\<close>

text \<open>
  \<^verbatim>\<open>kernel/exit.c\<close>. The loops over \<^verbatim>\<open>task[]\<close> run from the last slot down
  to slot 1 and, as in the code, some of them look through null entries (\<open>deref\<close> of a
  \<open>None\<close> slot). \<^verbatim>\<open>schedule()\<close> inside a routine of this file ends the model of the
  routine: what follows it is a separate definition. The page of a released task structure, the
  page tables, files and inodes \<^verbatim>\<open>do_exit\<close> gives back belong to other components.
\<close>

definition send_sig :: "int \<Rightarrow> nat option \<Rightarrow> bool \<Rightarrow> kernel \<Rightarrow> int \<times> kernel" where
  "send_sig sig p priv k =
     (if p = None then (- EINVAL, k)
      else if \<not> priv \<and> t_euid (cur k) \<noteq> t_euid (deref k p) \<and> \<not> suser k then (- EPERM, k)
      else
        let k = (if sig = SIGKILL \<or> sig = SIGCONT
                 then assign p (\<lambda>t. t\<lparr>
                        t_state := if t_state t = TASK_STOPPED then TASK_RUNNING else t_state t,
                        t_exit_code := 0,
                        t_signal := t_signal t AND NOT (sigbit SIGSTOP OR sigbit SIGTSTP OR
                                      sigbit SIGTTIN OR sigbit SIGTTOU)\<rparr>) k
                 else k)
        in if sa_handler (t_sigaction (deref k p) (sig - 1)) = 1 then (0, k)
           else
             let k = (if SIGSTOP \<le> sig \<and> sig \<le> SIGTTOU
                      then assign p (\<lambda>t. t\<lparr>t_signal := t_signal t AND NOT (sigbit SIGCONT)\<rparr>) k
                      else k)
             in (0, assign p (\<lambda>t. t\<lparr>t_signal := t_signal t OR sigbit sig\<rparr>) k))"

abbreviation slots_down :: "nat list" where
  "slots_down \<equiv> rev [1..<NR_TASKS]"

definition session_of_pgrp :: "int \<Rightarrow> kernel \<Rightarrow> int" where
  "session_of_pgrp pgrp k =
     (case List.find (\<lambda>i. t_pgrp (deref k (slot k i)) = pgrp) slots_down of
        Some i \<Rightarrow> t_session (deref k (slot k i))
      | None \<Rightarrow> -1)"

text \<open>The loop of \<^verbatim>\<open>kill_pg\<close>, with \<^verbatim>\<open>retval\<close> and \<^verbatim>\<open>found\<close>.\<close>

fun kill_pg_loop :: "nat list \<Rightarrow> int \<Rightarrow> int \<Rightarrow> bool \<Rightarrow> int \<Rightarrow> nat \<Rightarrow> kernel \<Rightarrow> int \<times> nat \<times> kernel" where
  "kill_pg_loop [] pgrp sig priv retval found k = (retval, found, k)"
| "kill_pg_loop (i # is) pgrp sig priv retval found k =
     (if t_pgrp (deref k (slot k i)) = pgrp
      then let (err, k) = (if sig \<noteq> 0 then send_sig sig (slot k i) priv k else (0, k)) in
        if err \<noteq> 0 then kill_pg_loop is pgrp sig priv err found k
        else kill_pg_loop is pgrp sig priv retval (Suc found) k
      else kill_pg_loop is pgrp sig priv retval found k)"

definition kill_pg :: "int \<Rightarrow> int \<Rightarrow> bool \<Rightarrow> kernel \<Rightarrow> int \<times> kernel" where
  "kill_pg pgrp sig priv k =
     (if sig < 1 \<or> 32 < sig \<or> pgrp \<le> 0 then (- EINVAL, k)
      else let (retval, found, k) = kill_pg_loop slots_down pgrp sig priv (- ESRCH) 0 k
        in (if found \<noteq> 0 then 0 else retval, k))"

definition kill_proc :: "int \<Rightarrow> int \<Rightarrow> bool \<Rightarrow> kernel \<Rightarrow> int \<times> kernel" where
  "kill_proc pid sig priv k =
     (if sig < 1 \<or> 32 < sig then (- EINVAL, k)
      else case List.find (\<lambda>i. t_pid (deref k (slot k i)) = pid) slots_down of
             Some i \<Rightarrow> if sig \<noteq> 0 then send_sig sig (slot k i) priv k else (0, k)
           | None \<Rightarrow> (- ESRCH, k))"

fun kill_all_loop :: "nat list \<Rightarrow> int \<Rightarrow> int \<Rightarrow> kernel \<Rightarrow> int \<times> kernel" where
  "kill_all_loop [] sig retval k = (retval, k)"
| "kill_all_loop (i # is) sig retval k =
     (let (err, k) = send_sig sig (slot k i) False k
      in kill_all_loop is sig (if err \<noteq> 0 then err else retval) k)"

definition sys_kill :: "int \<Rightarrow> int \<Rightarrow> kernel \<Rightarrow> int \<times> kernel" where
  "sys_kill pid sig k =
     (if pid = 0 then kill_pg (t_pid (cur k)) sig False k
      else if pid = -1 then kill_all_loop slots_down sig 0 k
      else if pid < 0 then kill_pg (- pid) sig False k
      else kill_proc pid sig False k)"

definition is_orphaned_pgrp :: "int \<Rightarrow> kernel \<Rightarrow> bool" where
  "is_orphaned_pgrp pgrp k =
     (\<not> list_ex (\<lambda>i. let t = tasks k i; parent = deref k (t_pptr t) in
        present k i \<and> t_pgrp t = pgrp \<and> t_state t \<noteq> TASK_ZOMBIE \<and> t_pid parent \<noteq> 1 \<and>
        t_pgrp parent \<noteq> pgrp \<and> t_session parent = t_session t) slots_down)"

definition has_stopped_jobs :: "int \<Rightarrow> kernel \<Rightarrow> bool" where
  "has_stopped_jobs pgrp k =
     list_ex (\<lambda>i. let t = deref k (slot k i) in
       t_pgrp t = pgrp \<and> t_state t = TASK_STOPPED) slots_down"

subsection \<open>Leaving the process tree\<close>

definition unlink_task :: "nat \<Rightarrow> kernel \<Rightarrow> kernel" where
  "unlink_task p k =
     (let k = k\<lparr>present := (present k)(p := False)\<rparr>;
          t = tasks k p;
          k = (if t_osptr t \<noteq> None then assign (t_osptr t) (\<lambda>u. u\<lparr>t_ysptr := t_ysptr t\<rparr>) k else k)
      in if t_ysptr t \<noteq> None then assign (t_ysptr t) (\<lambda>u. u\<lparr>t_osptr := t_osptr t\<rparr>) k
         else assign (t_pptr t) (\<lambda>u. u\<lparr>t_cptr := t_osptr t\<rparr>) k)"

definition release :: "nat option \<Rightarrow> kernel \<Rightarrow> (kernel, unit) res option" where
  "release p k =
     (case p of None \<Rightarrow> Some (retK () k)
      | Some i \<Rightarrow>
          if i = current k then Some (retK () (emit (Message ''task releasing itself'') k))
          else if 0 < i \<and> i < NR_TASKS \<and> present k i
          then map_option (retK ()) (schedule (unlink_task i k))
          else Some (stopK (Panic ''trying to release non-existent task'') k))"

definition bad_task_ptr :: "nat option \<Rightarrow> kernel \<Rightarrow> bool" where
  "bad_task_ptr p k =
     (case p of None \<Rightarrow> False | Some i \<Rightarrow> \<not> (i < NR_TASKS \<and> present k i))"

text \<open>The warnings \<^verbatim>\<open>audit_ptree\<close> prints, each with the slot it is about.\<close>

definition audit_task :: "kernel \<Rightarrow> nat \<Rightarrow> (nat \<times> string) list" where
  "audit_task k i =
     (let t = tasks k i; me = Some i;
          warn = (\<lambda>c msg. if c then [(i, msg)] else []) in
      if \<not> present k i then []
      else
        warn (bad_task_ptr (t_pptr t) k) ''parent link is bad'' @
        warn (bad_task_ptr (t_cptr t) k) ''child link is bad'' @
        warn (bad_task_ptr (t_ysptr t) k) ''ys link is bad'' @
        warn (bad_task_ptr (t_osptr t) k) ''os link is bad'' @
        warn (t_pptr t = me) ''parent link points to self'' @
        warn (t_cptr t = me) ''child link points to self'' @
        warn (t_ysptr t = me) ''ys link points to self'' @
        warn (t_osptr t = me) ''os link points to self'' @
        (if t_osptr t \<noteq> None then
           warn (t_pptr t \<noteq> t_pptr (deref k (t_osptr t))) ''older sibling parent'' @
           warn (t_ysptr (deref k (t_osptr t)) \<noteq> me) ''older sibling has mismatched ys link''
         else []) @
        (if t_ysptr t \<noteq> None then
           warn (t_pptr t \<noteq> t_pptr (deref k (t_ysptr t))) ''younger sibling parent'' @
           warn (t_osptr (deref k (t_ysptr t)) \<noteq> me) ''younger sibling has mismatched os link''
         else []) @
        (if t_cptr t \<noteq> None then
           warn (t_pptr (deref k (t_cptr t)) \<noteq> me) ''youngest child has mismatched parent link'' @
           warn (t_ysptr (deref k (t_cptr t)) \<noteq> None) ''youngest child has non-NULL ys link''
         else []))"

definition audit_ptree :: "kernel \<Rightarrow> (nat \<times> string) list" where
  "audit_ptree k = concat (map (audit_task k) [1..<NR_TASKS])"

subsection \<open>The process part of \<^verbatim>\<open>do_exit\<close>\<close>

definition hup_cont :: "int \<Rightarrow> kernel \<Rightarrow> kernel" where
  "hup_cont pgrp k = snd (kill_pg pgrp SIGCONT True (snd (kill_pg pgrp SIGHUP True k)))"

definition exit_orphan_check :: "kernel \<Rightarrow> kernel" where
  "exit_orphan_check k =
     (let me = cur k; parent = deref k (t_pptr me) in
      if t_pgrp parent \<noteq> t_pgrp me \<and> t_session parent = t_session me \<and>
         is_orphaned_pgrp (t_pgrp me) k \<and> has_stopped_jobs (t_pgrp me) k
      then hup_cont (t_pgrp me) k else k)"

definition adopt_child :: "nat option \<Rightarrow> kernel \<Rightarrow> kernel" where
  "adopt_child p k =
     (let k = assign p (\<lambda>t. t\<lparr>t_pptr := slot k 1\<rparr>) k;
          k = (if t_state (deref k p) = TASK_ZOMBIE
               then assign (slot k 1) (\<lambda>t. t\<lparr>t_signal := t_signal t OR sigbit SIGCHLD\<rparr>) k else k);
          t = deref k p; me = cur k
      in if t_pgrp t \<noteq> t_pgrp me \<and> t_session t = t_session me \<and>
            is_orphaned_pgrp (t_pgrp t) k \<and> has_stopped_jobs (t_pgrp t) k
         then hup_cont (t_pgrp t) k else k)"

definition splice_children :: "nat option \<Rightarrow> kernel \<Rightarrow> kernel" where
  "splice_children p k =
     (let k = assign p (\<lambda>t. t\<lparr>t_osptr := t_cptr (deref k (slot k 1))\<rparr>) k;
          k = assign (t_cptr (deref k (slot k 1))) (\<lambda>t. t\<lparr>t_ysptr := p\<rparr>) k;
          k = assign (slot k 1) (\<lambda>t. t\<lparr>t_cptr := t_cptr (cur k)\<rparr>) k
      in upd_cur (\<lambda>t. t\<lparr>t_cptr := None\<rparr>) k)"

partial_function (option) adopt_loop :: "nat option \<Rightarrow> kernel \<Rightarrow> kernel option" where
  "adopt_loop p k =
     (let k = adopt_child p k in
      if t_osptr (deref k p) \<noteq> None then adopt_loop (t_osptr (deref k p)) k
      else Some (splice_children p k))"

definition exit_reparent :: "kernel \<Rightarrow> kernel option" where
  "exit_reparent k =
     (if t_cptr (cur k) \<noteq> None then adopt_loop (t_cptr (cur k)) k else Some k)"

text \<open>\<^verbatim>\<open>sys_exit\<close>'s exit code.\<close>

definition exit_status :: "int \<Rightarrow> int" where
  "exit_status error_code = (error_code mod 256) * 256"

subsection \<open>\<^verbatim>\<open>sys_waitpid\<close>\<close>

abbreviation (input) WNOHANG :: nat where "WNOHANG \<equiv> 0"
abbreviation (input) WUNTRACED :: nat where "WUNTRACED \<equiv> 1"

text \<open>Whether the child \<open>t\<close> is one the caller asks for.\<close>

definition wait_wants :: "int \<Rightarrow> task_struct \<Rightarrow> kernel \<Rightarrow> bool" where
  "wait_wants pid t k =
     (if 0 < pid then t_pid t = pid
      else if pid = 0 then t_pgrp t = t_pgrp (cur k)
      else if pid \<noteq> -1 then t_pgrp t = - pid
      else True)"

datatype wait_result =
    WaitReturn int "nat option" \<comment> \<open>return value, and the zombie to release first\<close>
  | WaitNone bool \<comment> \<open>end of the list, with the flag\<close>

partial_function (option) wait_scan ::
    "int \<Rightarrow> u32 \<Rightarrow> u32 \<Rightarrow> nat option \<Rightarrow> bool \<Rightarrow> kernel \<Rightarrow> (wait_result \<times> kernel) option" where
  "wait_scan pid stat_addr options p flag k =
     (case p of None \<Rightarrow> Some (WaitNone flag, k)
      | Some i \<Rightarrow>
          (let t = tasks k i in
           if \<not> wait_wants pid t k then wait_scan pid stat_addr options (t_osptr t) flag k
           else if t_state t = TASK_STOPPED then
             (if \<not> bit options WUNTRACED \<or> t_exit_code t = 0
              then wait_scan pid stat_addr options (t_osptr t) flag k
              else Some (WaitReturn (t_pid t) None,
                assign p (\<lambda>t. t\<lparr>t_exit_code := 0\<rparr>)
                  (put_fs_long (of_int (t_exit_code t * 256) OR 0x7f) stat_addr k)))
           else if t_state t = TASK_ZOMBIE then
             Some (WaitReturn (t_pid t) p,
               put_fs_long (of_int (t_exit_code t)) stat_addr
                 (upd_cur (\<lambda>c. c\<lparr>t_cutime := t_cutime c + t_utime t,
                                 t_cstime := t_cstime c + t_stime t\<rparr>) k))
           else wait_scan pid stat_addr options (t_osptr t) True k))"

text \<open>One pass of \<^verbatim>\<open>repeat:\<close>; \<open>Inr\<close> of the old signal mask when the caller goes to
  sleep.\<close>

definition waitpid_pass ::
    "int \<Rightarrow> u32 \<Rightarrow> u32 \<Rightarrow> kernel \<Rightarrow> ((int + u32) \<times> kernel) option" where
  "waitpid_pass pid stat_addr options k =
     (case wait_scan pid stat_addr options (t_cptr (cur k)) False k of
        None \<Rightarrow> None
      | Some (WaitReturn v z, k) \<Rightarrow>
          (if z = None then Some (Inl v, k)
           else case release z k of Some (Inr (_, k)) \<Rightarrow> Some (Inl v, k) | _ \<Rightarrow> None)
      | Some (WaitNone flag, k) \<Rightarrow>
          if \<not> flag then Some (Inl (- ECHILD), k)
          else if bit options WNOHANG then Some (Inl 0, k)
          else let old = t_blocked (cur k) in
            map_option (Pair (Inr old))
              (schedule (upd_cur (\<lambda>t. t\<lparr>t_state := TASK_INTERRUPTIBLE,
                 t_blocked := t_blocked t AND NOT (sigbit SIGCHLD)\<rparr>) k)))"

text \<open>After the sleep: the mask is restored; \<open>Some\<close> is the return value, \<open>None\<close> goes back to
  \<^verbatim>\<open>repeat:\<close>.\<close>

definition waitpid_resume :: "u32 \<Rightarrow> kernel \<Rightarrow> int option \<times> kernel" where
  "waitpid_resume oldblocked k =
     (let k = upd_cur (\<lambda>t. t\<lparr>t_blocked := oldblocked\<rparr>) k in
      if t_signal (cur k) AND NOT (t_blocked (cur k) OR sigbit SIGCHLD) \<noteq> 0
      then (Some (- ERESTARTSYS), k) else (None, k))"

text \<open>\<^verbatim>\<open>include/sys/wait.h\<close>: taking the status apart.\<close>

definition WIFEXITED :: "u32 \<Rightarrow> bool" where
  "WIFEXITED s \<longleftrightarrow> s AND 0xFF = 0"

definition WIFSTOPPED :: "u32 \<Rightarrow> bool" where
  "WIFSTOPPED s \<longleftrightarrow> s AND 0xFF = 0x7F"

definition WEXITSTATUS :: "u32 \<Rightarrow> u32" where
  "WEXITSTATUS s = drop_bit 8 s AND 0xFF"

definition WTERMSIG :: "u32 \<Rightarrow> u32" where
  "WTERMSIG s = s AND 0x7F"

definition WSTOPSIG :: "u32 \<Rightarrow> u32" where
  "WSTOPSIG s = drop_bit 8 s AND 0xFF"

definition WIFSIGNALED :: "u32 \<Rightarrow> bool" where
  "WIFSIGNALED s \<longleftrightarrow> (s - 1) AND 0xFFFF < 0xFF"

end
