(* ===== verification/Proc_Props.thy ===== *)
theory Proc_Props
  imports Proc
begin

section \<open>Properties of the scheduler, the sleep queues and the timers\<close>

text \<open>
  The invariant \<open>slices_ok\<close> on priorities and time slices, under which
  \<^verbatim>\<open>schedule\<close> returns and picks a runnable task with the largest slice; the order
  in which a queue of sleepers is woken; when timers fire, and what adding one does to the
  others; lazy switching of the coprocessor.
\<close>

subsection \<open>The scheduler\<close>

definition runnable :: "kernel \<Rightarrow> nat \<Rightarrow> bool" where
  "runnable k i \<longleftrightarrow> present k i \<and> t_state (tasks k i) = TASK_RUNNING"

definition slices_ok :: "kernel \<Rightarrow> bool" where
  "slices_ok k \<longleftrightarrow> (\<forall>i. 0 < t_priority (tasks k i) \<and> 0 \<le> t_counter (tasks k i))"

lemma fold_pick:
  assumes "fold (pick_step k) xs (c0, n0) = (c, n)"
  shows "c0 \<le> c \<and> (\<forall>i \<in> set xs. runnable k i \<longrightarrow> t_counter (tasks k i) \<le> c) \<and>
    (c = c0 \<and> n = n0 \<or> n \<in> set xs \<and> runnable k n \<and> t_counter (tasks k n) = c)"
  using assms
proof (induction xs arbitrary: c0 n0)
  case Nil
  then show ?case by simp
next
  case (Cons x xs)
  obtain c1 n1 where s: "pick_step k x (c0, n0) = (c1, n1)" by fastforce
  with Cons have "c1 \<le> c \<and> (\<forall>i \<in> set xs. runnable k i \<longrightarrow> t_counter (tasks k i) \<le> c) \<and>
    (c = c1 \<and> n = n1 \<or> n \<in> set xs \<and> runnable k n \<and> t_counter (tasks k n) = c)" by simp
  with s show ?case
    by (auto simp: pick_step_def runnable_def split: if_splits)
qed

lemma pick_best:
  assumes "pick k = (c, n)"
  shows "(\<forall>i. 0 < i \<longrightarrow> i < NR_TASKS \<longrightarrow> runnable k i \<longrightarrow> t_counter (tasks k i) \<le> c) \<and>
    (c = -1 \<and> n = 0 \<or> 0 < n \<and> n < NR_TASKS \<and> runnable k n \<and> t_counter (tasks k n) = c)"
  using fold_pick[of k "rev [1..<NR_TASKS]" "-1" 0 c n] assms by (auto simp: pick_def)

lemma slices_ok_recharge: "slices_ok k \<Longrightarrow> slices_ok (recharge k)"
  by (auto simp: slices_ok_def recharge_def add_nonneg_nonneg less_imp_le)

lemma runnable_recharge [simp]: "runnable (recharge k) i = runnable k i"
  by (simp add: runnable_def recharge_def)

lemma recharge_positive:
  "slices_ok k \<Longrightarrow> present k i \<Longrightarrow> 0 < i \<Longrightarrow> i < NR_TASKS \<Longrightarrow> 0 < t_counter (tasks (recharge k) i)"
  by (simp add: recharge_def slices_ok_def add_nonneg_pos)

lemma check_alarm_priority [simp]: "t_priority (check_alarm now t) = t_priority t"
  by (simp add: check_alarm_def wake_if_signalled_def expire_alarm_def expire_timeout_def)

lemma check_alarm_counter [simp]: "t_counter (check_alarm now t) = t_counter t"
  by (simp add: check_alarm_def wake_if_signalled_def expire_alarm_def expire_timeout_def)

lemma slices_ok_wake: "slices_ok k \<Longrightarrow> slices_ok (wake_signalled k)"
  by (simp add: slices_ok_def wake_signalled_def)

definition best_choice :: "kernel \<Rightarrow> bool" where
  "best_choice k \<longleftrightarrow> (let n = current k in
     if n = 0 then \<forall>i. 0 < i \<longrightarrow> i < NR_TASKS \<longrightarrow> \<not> runnable k i
     else n < NR_TASKS \<and> runnable k n \<and> 0 < t_counter (tasks k n) \<and>
       (\<forall>i. 0 < i \<longrightarrow> i < NR_TASKS \<longrightarrow> runnable k i \<longrightarrow>
          t_counter (tasks k i) \<le> t_counter (tasks k n)))"

lemma switch_to_simps [simp]:
  "tasks (switch_to n k) = tasks k" "present (switch_to n k) = present k"
  "current (switch_to n k) = n" "runnable (switch_to n k) i = runnable k i"
  "slices_ok (switch_to n k) = slices_ok k"
  by (simp_all add: switch_to_def runnable_def slices_ok_def)

lemma switch_best:
  assumes p: "pick k = (c, n)" and c: "c \<noteq> 0" and ok: "slices_ok k"
  shows "best_choice (switch_to n k)"
proof -
  from pick_best[OF p] have best: "\<And>i. 0 < i \<Longrightarrow> i < NR_TASKS \<Longrightarrow> runnable k i \<Longrightarrow> t_counter (tasks k i) \<le> c"
    and n: "c = -1 \<and> n = 0 \<or> 0 < n \<and> n < NR_TASKS \<and> runnable k n \<and> t_counter (tasks k n) = c"
    by blast+
  have nn: "0 \<le> t_counter (tasks k i)" for i using ok by (simp add: slices_ok_def)
  show ?thesis
  proof (cases "n = 0")
    case True
    with n have "c = -1" by blast
    then have "\<not> runnable k i" if "0 < i" "i < NR_TASKS" for i
      using best[OF that] nn[of i] by linarith
    with True show ?thesis by (simp add: best_choice_def)
  next
    case False
    with n have m: "n < NR_TASKS" "runnable k n" "t_counter (tasks k n) = c" by blast+
    with c nn[of n] have "0 < c" by linarith
    with m best False show ?thesis by (simp add: best_choice_def)
  qed
qed

lemma sched_loop_stop: "pick k = (c, n) \<Longrightarrow> c \<noteq> 0 \<Longrightarrow> sched_loop k = Some (switch_to n k)"
  by (simp add: sched_loop.simps)

lemma sched_loop_again: "pick k = (0, n) \<Longrightarrow> sched_loop k = sched_loop (recharge k)"
  by (simp add: sched_loop.simps[of k])

lemma sched_loop_best:
  assumes ok: "slices_ok k"
  shows "\<exists>k'. sched_loop k = Some k' \<and> best_choice k' \<and> slices_ok k'"
proof -
  obtain c n where p: "pick k = (c, n)" by fastforce
  show ?thesis
  proof (cases "c = 0")
    case False
    with sched_loop_stop[OF p] switch_best[OF p False ok] ok show ?thesis by simp
  next
    case True
    obtain c2 n2 where p2: "pick (recharge k) = (c2, n2)" by fastforce
    from pick_best[OF p] True have n: "0 < n" "n < NR_TASKS" "runnable k n" by auto
    then have "0 < t_counter (tasks (recharge k) n)"
      using recharge_positive[OF ok, of n] unfolding runnable_def by blast
    moreover have "t_counter (tasks (recharge k) n) \<le> c2"
      using pick_best[OF p2] n by simp
    ultimately have ne: "c2 \<noteq> 0" by linarith
    have "sched_loop k = Some (switch_to n2 (recharge k))"
      using sched_loop_again[of k n] p True sched_loop_stop[OF p2 ne] by simp
    with switch_best[OF p2 ne slices_ok_recharge[OF ok]] slices_ok_recharge[OF ok]
    show ?thesis by simp
  qed
qed

text \<open>C20. With positive priorities and non-negative time slices \<^verbatim>\<open>schedule\<close>
  returns, keeps them so, and switches to a runnable task whose remaining slice is positive and
  largest among the runnable tasks, or to the idle task 0 if no other task is runnable.\<close>

theorem schedule_picks_best:
  assumes "slices_ok k"
  shows "\<exists>k'. schedule k = Some k' \<and> best_choice k' \<and> slices_ok k'"
  using sched_loop_best[OF slices_ok_wake[OF assms]] by (auto simp: schedule_def)

definition task0 :: task_struct where
  "task0 = \<lparr>t_state = 0, t_counter = 15, t_priority = 15, t_signal = 0,
     t_sigaction = (\<lambda>_. \<lparr>sa_handler = 0, sa_mask = 0, sa_flags = 0, sa_restorer = 0\<rparr>),
     t_blocked = 0, t_exit_code = 0, t_start_code = 0, t_end_code = 0, t_end_data = 0,
     t_brk = 0, t_start_stack = 0, t_pid = 0, t_pgrp = 0, t_session = 0, t_leader = 0,
     t_groups = (\<lambda>i. if i = 0 then -1 else 0), t_pptr = Some 0, t_cptr = None, t_ysptr = None, t_osptr = None,
     t_uid = 0, t_euid = 0, t_suid = 0, t_gid = 0, t_egid = 0, t_sgid = 0, t_timeout = 0,
     t_alarm = 0, t_utime = 0, t_stime = 0, t_cutime = 0, t_cstime = 0, t_start_time = 0,
     t_rlim = (\<lambda>_. (0x7fffffff, 0x7fffffff)), t_used_math = False, t_i387 = 0, t_tty = -1,
     t_umask = 18, t_ldt_base = 0, t_ldt_limit = 0xa0000\<rparr>"

definition kernel0 :: kernel where
  "kernel0 = \<lparr>tasks = (\<lambda>_. task0), present = (\<lambda>i. i = 0), current = 0, at_null = task0,
     jiffies = 0, startup_time = 0, jiffies_offset = 0, last_pid = 0,
     last_task_used_math = None, fpu = 0, timer_list = [], events = [], blankcount = 0,
     blankinterval = 0, blanked = False, hd_timeout = 0, beepcount = 0, current_DOR = 0x0C,
     fd_selected = False, mon_timer = (\<lambda>_. 0), moff_timer = (\<lambda>_. 0), wait_motor = (\<lambda>_. None),
     umem = (\<lambda>_. 0), sys_tz = (0, 0), firsttime = True, thisname = (\<lambda>_. 0)\<rparr>"

theorem schedule_picks_best_witness:
  "slices_ok kernel0 \<and> (\<exists>k'. schedule kernel0 = Some k' \<and> best_choice k' \<and> slices_ok k')"
proof -
  have ok: "slices_ok kernel0" by (simp add: slices_ok_def kernel0_def task0_def)
  with schedule_picks_best[OF ok] show ?thesis by blast
qed

subsection \<open>The timer interrupt and nice keep the slices\<close>

lemma slices_ok_frame [simp]:
  "slices_ok (k\<lparr>blankcount := b\<rparr>) = slices_ok k" "slices_ok (k\<lparr>blanked := b'\<rparr>) = slices_ok k"
  "slices_ok (k\<lparr>hd_timeout := b\<rparr>) = slices_ok k" "slices_ok (k\<lparr>beepcount := b\<rparr>) = slices_ok k"
  "slices_ok (k\<lparr>timer_list := ts\<rparr>) = slices_ok k" "slices_ok (emit e k) = slices_ok k"
  "slices_ok (k\<lparr>mon_timer := m\<rparr>) = slices_ok k" "slices_ok (k\<lparr>moff_timer := m\<rparr>) = slices_ok k"
  "slices_ok (k\<lparr>current_DOR := d\<rparr>) = slices_ok k"
  by (simp_all add: slices_ok_def emit_def)

lemma slices_ok_assign:
  "slices_ok k \<Longrightarrow> (\<And>t. 0 < t_priority t \<Longrightarrow> 0 \<le> t_counter t \<Longrightarrow> 0 < t_priority (f t) \<and> 0 \<le> t_counter (f t))
    \<Longrightarrow> slices_ok (assign p f k)"
  by (auto simp: slices_ok_def assign_def split: option.split)

lemma slices_ok_wake_up: "slices_ok k \<Longrightarrow> slices_ok (wake_up p k)"
  by (auto simp: wake_up_def Let_def intro!: slices_ok_assign)

lemma slices_ok_floppy_step: "slices_ok k \<Longrightarrow> slices_ok (floppy_timer_step i k)"
  by (simp add: floppy_timer_step_def Let_def slices_ok_wake_up)

lemma fold_keeps: "P s \<Longrightarrow> (\<And>x s. P s \<Longrightarrow> P (f x s)) \<Longrightarrow> P (fold f xs s)"
  by (induction xs arbitrary: s) auto

lemma slices_ok_do_floppy_timer: "slices_ok k \<Longrightarrow> slices_ok (do_floppy_timer k)"
  unfolding do_floppy_timer_def by (rule fold_keeps) (simp_all add: slices_ok_floppy_step)

lemma slices_ok_upd_cur:
  "slices_ok k \<Longrightarrow> (\<And>t. 0 < t_priority t \<Longrightarrow> 0 \<le> t_counter t \<Longrightarrow> 0 < t_priority (f t) \<and> 0 \<le> t_counter (f t))
    \<Longrightarrow> slices_ok (upd_cur f k)"
  unfolding upd_cur_def by (rule slices_ok_assign)

lemma schedule_returns: "slices_ok k \<Longrightarrow> \<exists>k'. schedule k = Some k' \<and> slices_ok k'"
  using sched_loop_best[OF slices_ok_wake] by (auto simp: schedule_def)

text \<open>The last statements of \<^verbatim>\<open>do_timer\<close>: charge the tick, then go on or
  reschedule.\<close>

lemma charge_tick:
  assumes ok: "slices_ok k" and k1: "k1 = upd_cur (\<lambda>t. t\<lparr>t_counter := t_counter t - 1\<rparr>) k"
  shows "\<exists>k'. (if 0 < t_counter (cur k1) then Some k1
     else if \<not> cpl then Some (upd_cur (\<lambda>t. t\<lparr>t_counter := 0\<rparr>) k1)
     else schedule (upd_cur (\<lambda>t. t\<lparr>t_counter := 0\<rparr>) k1)) = Some k' \<and> slices_ok k'"
proof (cases "0 < t_counter (cur k1)")
  case True
  then have "slices_ok k1"
    using ok by (auto simp: k1 slices_ok_def upd_cur_def assign_def cur_def)
  with True show ?thesis by simp
next
  case False
  have "slices_ok (upd_cur (\<lambda>t. t\<lparr>t_counter := 0\<rparr>) k1)"
    using ok by (auto simp: k1 slices_ok_def upd_cur_def assign_def)
  with False schedule_returns[OF this] show ?thesis by (cases cpl) simp_all
qed

lemma slices_ok_emits: "slices_ok k \<Longrightarrow> slices_ok (fold (\<lambda>f. emit (TimerFn f)) fns k)"
  by (rule fold_keeps) simp_all

text \<open>C37. A timer interrupt, in kernel or user mode, always ends (its call of the
  scheduler included) and keeps priorities positive and time slices non-negative.\<close>

theorem do_timer_returns:
  assumes "slices_ok k"
  shows "\<exists>k'. do_timer cpl k = Some k' \<and> slices_ok k'"
proof -
  define k1 where "k1 = motors_tick (timers_tick (time_tick cpl (beep_tick (hd_tick (screen_tick k)))))"
  have "slices_ok (screen_tick k)" using assms by (simp add: screen_tick_def Let_def)
  then have "slices_ok (hd_tick (screen_tick k))" by (simp add: hd_tick_def Let_def)
  then have "slices_ok (beep_tick (hd_tick (screen_tick k)))" by (simp add: beep_tick_def Let_def)
  then have "slices_ok (time_tick cpl (beep_tick (hd_tick (screen_tick k))))"
    unfolding time_tick_def by (auto intro!: slices_ok_upd_cur)
  then have "slices_ok (timers_tick (time_tick cpl (beep_tick (hd_tick (screen_tick k)))))"
    unfolding timers_tick_def by (auto intro!: slices_ok_emits split: prod.split)
  then have "slices_ok k1" by (simp add: k1_def motors_tick_def slices_ok_do_floppy_timer)
  from charge_tick[OF this refl, of cpl] show ?thesis
    unfolding do_timer_def k1_def[symmetric] Let_def .
qed

theorem do_timer_returns_witness:
  "slices_ok kernel0 \<and> (\<exists>k'. do_timer True kernel0 = Some k' \<and> slices_ok k')"
proof -
  have ok: "slices_ok kernel0" by (simp add: slices_ok_def kernel0_def task0_def)
  with do_timer_returns[OF ok] show ?thesis by blast
qed

lemma sys_nice_slices: "slices_ok k \<Longrightarrow> slices_ok (snd (sys_nice n k))"
  by (auto simp: sys_nice_def cur_def slices_ok_def upd_cur_def assign_def)

subsection \<open>Timers\<close>

text \<open>
  \<open>due now ts\<close> lists when each timer of the list will fire, if the current tick is \<open>now\<close>: each
  entry holds the ticks after its predecessor. \<open>run_ticks n now ts\<close> lists the functions that
  the next \<open>n\<close> interrupts call, each with the tick it is called at.
\<close>

fun due :: "int \<Rightarrow> (int \<times> nat) list \<Rightarrow> (int \<times> nat) list" where
  "due now [] = []"
| "due now ((j, fn) # ts) = (now + j, fn) # due (now + j) ts"

primrec run_ticks :: "nat \<Rightarrow> int \<Rightarrow> (int \<times> nat) list \<Rightarrow> (int \<times> nat) list" where
  "run_ticks 0 now ts = []"
| "run_ticks (Suc n) now ts =
     (let (fns, rest) = tick_timers ts
      in map (\<lambda>f. (now + 1, f)) fns @ run_ticks n (now + 1) rest)"

definition timers_ok :: "(int \<times> nat) list \<Rightarrow> bool" where
  "timers_ok ts \<longleftrightarrow> (\<forall>(j, _) \<in> set ts. 0 \<le> j) \<and> (ts \<noteq> [] \<longrightarrow> 0 < fst (hd ts))"

lemma due_ge: "\<forall>(j, _) \<in> set ts. 0 \<le> j \<Longrightarrow> (t, f) \<in> set (due now ts) \<Longrightarrow> now \<le> t"
  by (induction ts arbitrary: now) fastforce+

lemma run_timers_split:
  assumes "\<forall>(j, _) \<in> set ts. 0 \<le> j" and "run_timers ts = (fns, rest)"
  shows "due now ts = map (\<lambda>f. (now, f)) fns @ due now rest \<and> timers_ok rest"
  using assms
proof (induction ts arbitrary: fns rest)
  case (Cons p ts)
  obtain j fn where p: "p = (j, fn)" by (cases p)
  show ?case
  proof (cases "j \<le> 0")
    case True
    with Cons.prems p have j: "j = 0" by auto
    obtain fns' rest' where r: "run_timers ts = (fns', rest')" by fastforce
    with Cons.prems True p have "fns = fn # fns'" "rest = rest'" by auto
    with Cons.IH[OF _ r] Cons.prems(1) j p show ?thesis by simp
  next
    case False
    with Cons.prems p show ?thesis by (auto simp: timers_ok_def)
  qed
qed (simp add: timers_ok_def)

lemma tick_timers_due:
  assumes "timers_ok ts" and "tick_timers ts = (fns, rest)"
  shows "due now ts = map (\<lambda>f. (now + 1, f)) fns @ due (now + 1) rest \<and> timers_ok rest"
proof (cases ts)
  case Nil
  with assms show ?thesis by (simp add: tick_timers_def timers_ok_def)
next
  case (Cons p r)
  obtain j fn where p: "p = (j, fn)" by (cases p)
  have nn: "\<forall>(j, _) \<in> set ((j - 1, fn) # r). 0 \<le> j"
    using assms(1) Cons p by (auto simp: timers_ok_def)
  have "due now ts = due (now + 1) ((j - 1, fn) # r)" by (simp add: Cons p)
  with run_timers_split[OF nn, of fns rest "now + 1"] assms(2) Cons p show ?thesis
    by (simp add: tick_timers_def)
qed

lemma takeWhile_due_later:
  assumes "timers_ok ts"
  shows "takeWhile (\<lambda>(t, _). t \<le> now) (due now ts) = []"
  using assms by (cases ts) (auto simp: timers_ok_def)

text \<open>C38. Over any number of timer interrupts the functions of the timer list are called
  in list order, each exactly at the tick it is due, and none of the later ones is called.\<close>

theorem timers_fire_on_time:
  assumes "timers_ok ts"
  shows "run_ticks n now ts = takeWhile (\<lambda>(t, _). t \<le> now + int n) (due now ts)"
  using assms
proof (induction n arbitrary: now ts)
  case 0
  then show ?case using takeWhile_due_later[OF 0] by simp
next
  case (Suc n)
  obtain fns rest where t: "tick_timers ts = (fns, rest)" by fastforce
  note d = tick_timers_due[OF Suc.prems t, of now]
  have "takeWhile (\<lambda>(t, _). t \<le> now + int (Suc n)) (map (\<lambda>f. (now + 1, f)) fns @ due (now + 1) rest)
      = map (\<lambda>f. (now + 1, f)) fns @ takeWhile (\<lambda>(t, _). t \<le> now + 1 + int n) (due (now + 1) rest)"
    by (subst takeWhile_append2) (auto simp: algebra_simps)
  with Suc.IH[of rest "now + 1"] d t show ?case by simp
qed

theorem timers_fire_on_time_witness:
  "run_ticks 5 0 [(2, 7), (0, 8), (3, 9), (1, 10)] = [(2, 7), (2, 8), (5, 9)]"
proof -
  have ok: "timers_ok [(2, 7), (0, 8), (3, 9), (1, 10)]" by (simp add: timers_ok_def)
  from timers_fire_on_time[OF ok, of 5 0] show ?thesis by simp
qed

text \<open>A timer added for \<open>j > 0\<close> ticks is due after exactly \<open>j\<close> ticks, and the timers
  before it keep their time; but every timer behind it is put off by the ticks \<open>j\<close> exceeds those
  before it, because the code does not shorten its successor.\<close>

theorem add_timer_due:
  assumes "0 < j" and "timers_ok ts"
  shows "\<exists>ts1 ts2. ts = ts1 @ ts2 \<and> timers_ok (sink_timer (j, f) ts) \<and>
    sum_list (map fst ts1) < j \<and>
    due now ts = due now ts1 @ due (now + sum_list (map fst ts1)) ts2 \<and>
    due now (sink_timer (j, f) ts) = due now ts1 @ (now + j, f) # due (now + j) ts2"
proof -
  have main: "\<exists>ts1 ts2. ts = ts1 @ ts2 \<and> (\<forall>(i, _) \<in> set (sink_timer (j, f) ts). 0 \<le> i) \<and>
    sum_list (map fst ts1) < j \<and>
    due now ts = due now ts1 @ due (now + sum_list (map fst ts1)) ts2 \<and>
    due now (sink_timer (j, f) ts) = due now ts1 @ (now + j, f) # due (now + j) ts2"
    if "0 < j" and "\<forall>(i, _) \<in> set ts. 0 \<le> i" for now j and ts :: "(int \<times> nat) list"
    using that
  proof (induction ts arbitrary: now j)
    case Nil
    then show ?case by (auto intro!: exI[of _ "[]"])
  next
    case (Cons p ts)
    obtain j1 f1 where p: "p = (j1, f1)" by (cases p)
    show ?case
    proof (cases "j1 < j")
      case True
      with Cons.IH[of "j - j1" "now + j1"] Cons.prems p obtain ts1 ts2 where
        "ts = ts1 @ ts2 \<and> (\<forall>(i, _) \<in> set (sink_timer (j - j1, f) ts). 0 \<le> i) \<and>
         sum_list (map fst ts1) < j - j1 \<and>
         due (now + j1) ts = due (now + j1) ts1 @ due (now + j1 + sum_list (map fst ts1)) ts2 \<and>
         due (now + j1) (sink_timer (j - j1, f) ts) =
           due (now + j1) ts1 @ (now + j, f) # due (now + j) ts2" by auto
      with True Cons.prems p show ?thesis
        by (intro exI[of _ "p # ts1"] exI[of _ ts2]) (auto simp: algebra_simps)
    next
      case False
      with Cons.prems p show ?thesis
        by (intro exI[of _ "[]"] exI[of _ "p # ts"]) (auto simp: algebra_simps)
    qed
  qed
  have hd: "0 < fst (hd (sink_timer (j, f) ts))"
    using assms by (cases ts) (auto simp: timers_ok_def)
  have "\<forall>(i, _) \<in> set ts. 0 \<le> i" using assms(2) by (simp add: timers_ok_def)
  from main[OF assms(1) this, of now] hd show ?thesis
    unfolding timers_ok_def by blast
qed

theorem add_timer_due_witness:
  "due 0 [(10, 1)] = [(10, 1)] \<and> due 0 (sink_timer (3, 2) [(10, 1)]) = [(3, 2), (13, 1)] \<and>
   timers_ok (sink_timer (3, 2) [(10, 1)])"
  using add_timer_due[of 3 "[(10, 1)]" 2 0] by (simp add: timers_ok_def)

subsection \<open>A queue of sleepers\<close>

text \<open>
  Processes \<open>x, y, ...\<close> sleep on one queue, \<open>x\<close> last: the queue variable points to \<open>x\<close>, and
  the local \<^verbatim>\<open>tmp\<close> of each to the one that slept before it. \<open>resume_chain\<close> lets
  them run in turn, each when the one before it has woken it.
\<close>

fun resume_chain :: "nat list \<Rightarrow> nat option \<Rightarrow> kernel \<Rightarrow> nat option \<times> kernel" where
  "resume_chain [] p k = (p, k)"
| "resume_chain (x # xs) p k =
     (let (done, p', k') = sleep_resume (case xs of [] \<Rightarrow> None | y # _ \<Rightarrow> Some y) p
            (k\<lparr>current := x\<rparr>)
      in if done then resume_chain xs p' k' else (p', k'))"

lemma resume_one:
  "sleep_resume tmp (Some x) (k\<lparr>current := x\<rparr>) =
     (True, tmp, if tmp \<noteq> None then assign tmp (\<lambda>t. t\<lparr>t_state := 0\<rparr>) (k\<lparr>current := x\<rparr>)
                 else k\<lparr>current := x\<rparr>)"
  by (simp add: sleep_resume_def)

lemma resume_chain_wakes:
  assumes "distinct (x # xs)" and "t_state (tasks k x) = TASK_RUNNING"
  shows "\<exists>k'. resume_chain (x # xs) (Some x) k = (None, k') \<and>
    (\<forall>y \<in> set (x # xs). t_state (tasks k' y) = TASK_RUNNING) \<and>
    (\<forall>y. y \<notin> set xs \<longrightarrow> tasks k' y = tasks k y)"
  using assms
proof (induction xs arbitrary: x k)
  case Nil
  then show ?case by (simp add: resume_one)
next
  case (Cons y ys)
  define k1 where "k1 = assign (Some y) (\<lambda>t. t\<lparr>t_state := 0\<rparr>) (k\<lparr>current := x\<rparr>)"
  have eq: "resume_chain (x # y # ys) (Some x) k = resume_chain (y # ys) (Some y) k1"
    by (simp add: resume_one k1_def del: resume_chain.simps(2))
       (simp add: resume_one k1_def)
  have "t_state (tasks k1 y) = TASK_RUNNING" by (simp add: k1_def assign_def)
  with Cons.IH[of y k1] Cons.prems obtain k' where
    k': "resume_chain (y # ys) (Some y) k1 = (None, k')"
      "\<forall>z \<in> set (y # ys). t_state (tasks k' z) = TASK_RUNNING"
      "\<forall>z. z \<notin> set ys \<longrightarrow> tasks k' z = tasks k1 z" by auto
  have "tasks k1 z = tasks k z" if "z \<noteq> y" for z using that by (simp add: k1_def assign_def)
  with k' Cons.prems eq show ?case by auto
qed

text \<open>After \<^verbatim>\<open>wake_up\<close> on a queue of sleeping processes, letting them run in
  turn wakes every one of them and leaves the queue empty; no other process is touched.\<close>

theorem wake_up_wakes_all:
  assumes "distinct (x # xs)"
  shows "\<exists>k'. resume_chain (x # xs) (Some x) (wake_up (Some x) k) = (None, k') \<and>
    (\<forall>y \<in> set (x # xs). t_state (tasks k' y) = TASK_RUNNING) \<and>
    (\<forall>y. y \<notin> set (x # xs) \<longrightarrow> tasks k' y = tasks k y)"
proof -
  have w: "tasks (wake_up (Some x) k) = (tasks k)(x := (tasks k x)\<lparr>t_state := 0\<rparr>)"
    by (simp add: wake_up_def Let_def assign_def emit_def)
  with resume_chain_wakes[OF assms, of "wake_up (Some x) k"] show ?thesis by auto
qed

theorem wake_up_wakes_all_witness:
  "\<exists>k'. resume_chain [3, 2] (Some 3) (wake_up (Some 3) kernel0) = (None, k') \<and>
     t_state (tasks k' 2) = TASK_RUNNING \<and> t_state (tasks k' 3) = TASK_RUNNING"
proof -
  have "distinct [3, 2 :: nat]" by simp
  from wake_up_wakes_all[OF this, of kernel0] show ?thesis by auto
qed

subsection \<open>Lazy switching of the coprocessor\<close>

definition math_context :: "kernel \<Rightarrow> nat \<Rightarrow> nat" where
  "math_context k i =
     (if last_task_used_math k = Some i then fpu k
      else if t_used_math (tasks k i) then t_i387 (tasks k i) else 0)"

lemma math_state_restore_context:
  assumes "\<And>j. last_task_used_math k = Some j \<Longrightarrow> t_used_math (tasks k j)"
  shows "math_context (math_state_restore k) i = math_context k i \<and>
    last_task_used_math (math_state_restore k) = Some (current k)"
  using assms
  by (auto simp: math_context_def math_state_restore_def Let_def assign_def upd_cur_def cur_def
      split: option.splits)

end
