(* ===== verification/Exit_Props.thy ===== *)
theory Exit_Props
  imports Exit Proc_Props
begin

section \<open>Properties of the process tree, of signals and of waiting\<close>

text \<open>
  The abstract process tree is a map from a process to the list of its children, youngest
  first; \<open>ptree\<close> says that the parent, youngest child and sibling pointers of the task
  structures represent it. Reaping a process removes it from its parent's list, exiting puts
  the list of the process in front of init's, and \<^verbatim>\<open>audit_ptree\<close> finds nothing
  to complain about. Then what \<^verbatim>\<open>kill\<close> does to a process group, and what a
  parent reads of its dead child.
\<close>

subsection \<open>Sibling lists\<close>

definition links :: "task_struct \<Rightarrow> nat option \<times> nat option \<times> nat option \<times> nat option" where
  "links t = (t_pptr t, t_cptr t, t_ysptr t, t_osptr t)"

text \<open>\<open>seg t par y p xs q\<close>: from \<open>p\<close> the older-sibling pointers run through \<open>xs\<close> to \<open>q\<close>; each
  of \<open>xs\<close> has parent \<open>par\<close> and points back to the one before, the first to \<open>y\<close>.\<close>

fun seg :: "(nat \<Rightarrow> task_struct) \<Rightarrow> nat \<Rightarrow> nat option \<Rightarrow> nat option \<Rightarrow> nat list \<Rightarrow> nat option \<Rightarrow> bool" where
  "seg t par y p [] q \<longleftrightarrow> p = q"
| "seg t par y p (i # is) q \<longleftrightarrow>
     p = Some i \<and> t_pptr (t i) = Some par \<and> t_ysptr (t i) = y \<and>
     seg t par (Some i) (t_osptr (t i)) is q"

definition end_of :: "nat option \<Rightarrow> nat list \<Rightarrow> nat option" where
  "end_of y xs = (if xs = [] then y else Some (last xs))"

lemma end_of_simps [simp]: "end_of y [] = y" "end_of y (x # xs) = end_of (Some x) xs"
  by (simp_all add: end_of_def)

definition sib_links :: "task_struct \<Rightarrow> nat option \<times> nat option \<times> nat option" where
  "sib_links t = (t_pptr t, t_ysptr t, t_osptr t)"

lemma seg_cong:
  "(\<And>i. i \<in> set xs \<Longrightarrow> sib_links (t i) = sib_links (t' i)) \<Longrightarrow>
     seg t par y p xs q = seg t' par y p xs q"
  by (induction xs arbitrary: y p) (auto simp: sib_links_def)

lemma seg_append:
  "seg t par y p (xs @ ys) q \<longleftrightarrow> (\<exists>r. seg t par y p xs r \<and> seg t par (end_of y xs) r ys q)"
  by (induction xs arbitrary: y p) auto

lemma seg_parent: "seg t par y p xs q \<Longrightarrow> i \<in> set xs \<Longrightarrow> t_pptr (t i) = Some par"
  by (induction xs arbitrary: y p) auto

lemma seg_start: "seg t par y p (x # xs) q \<Longrightarrow> p = Some x"
  by simp

text \<open>Writing the last older-sibling pointer, or the first younger-sibling pointer.\<close>

lemma seg_set_end:
  assumes "seg t par y p xs q" and "distinct xs" and "xs \<noteq> []"
  shows "seg (t(last xs := (t (last xs))\<lparr>t_osptr := q'\<rparr>)) par y p xs q'"
  using assms
proof (induction xs arbitrary: y p)
  case (Cons x xs)
  show ?case
  proof (cases "xs = []")
    case True
    with Cons show ?thesis by simp
  next
    case False
    with Cons.prems have ne: "last xs \<noteq> x" by (auto simp: last_in_set)
    define t' where "t' = t(last xs := (t (last xs))\<lparr>t_osptr := q'\<rparr>)"
    have "seg t' par (Some x) (t_osptr (t x)) xs q'"
      unfolding t'_def using Cons.IH[of "Some x" "t_osptr (t x)"] Cons.prems False
      by (simp del: fun_upd_apply)
    moreover have "t' x = t x" using ne by (simp add: t'_def)
    ultimately have "seg t' par y p (x # xs) q'" using Cons.prems by simp
    moreover have "t(last (x # xs) := (t (last (x # xs)))\<lparr>t_osptr := q'\<rparr>) = t'"
      using False by (simp add: t'_def)
    ultimately show ?thesis by (simp only:)
  qed
qed simp

lemma seg_set_start:
  assumes "seg t par y p (x # xs) q" and "x \<notin> set xs"
  shows "seg (t(x := (t x)\<lparr>t_ysptr := y'\<rparr>)) par y' p (x # xs) q"
proof -
  have "seg (t(x := (t x)\<lparr>t_ysptr := y'\<rparr>)) par (Some x) (t_osptr (t x)) xs q =
        seg t par (Some x) (t_osptr (t x)) xs q"
    by (rule seg_cong) (use assms(2) in auto)
  with assms(1) show ?thesis by simp
qed

subsection \<open>The process tree\<close>

definition ptree :: "kernel \<Rightarrow> (nat \<Rightarrow> nat list) \<Rightarrow> bool" where
  "ptree k ch \<longleftrightarrow>
     (\<forall>i. present k i \<longrightarrow> i < NR_TASKS \<and> distinct (ch i) \<and> i \<notin> set (ch i) \<and>
        seg (tasks k) i None (t_cptr (tasks k i)) (ch i) None \<and>
        (\<forall>j \<in> set (ch i). present k j \<and> 0 < j)) \<and>
     (\<forall>j. present k j \<longrightarrow> 0 < j \<longrightarrow> (\<exists>i. present k i \<and> j \<in> set (ch i)))"

lemma ptreeD:
  assumes "ptree k ch" and "present k i"
  shows "i < NR_TASKS" "distinct (ch i)" "i \<notin> set (ch i)"
    "seg (tasks k) i None (t_cptr (tasks k i)) (ch i) None"
    "\<And>j. j \<in> set (ch i) \<Longrightarrow> present k j \<and> 0 < j \<and> t_pptr (tasks k j) = Some i"
  using assms seg_parent[of "tasks k" i None "t_cptr (tasks k i)" "ch i" None]
  by (auto simp: ptree_def)

lemma ptree_parent:
  "ptree k ch \<Longrightarrow> present k j \<Longrightarrow> 0 < j \<Longrightarrow> \<exists>i. present k i \<and> j \<in> set (ch i)"
  by (auto simp: ptree_def)

lemma ptree_one_parent:
  "ptree k ch \<Longrightarrow> present k i \<Longrightarrow> present k i' \<Longrightarrow> j \<in> set (ch i) \<Longrightarrow> j \<in> set (ch i') \<Longrightarrow> i = i'"
  using ptreeD(5) by (metis option.inject)

lemma ptreeI:
  assumes "\<And>i. present k i \<Longrightarrow> i < NR_TASKS" "\<And>i. present k i \<Longrightarrow> distinct (ch i)"
    "\<And>i. present k i \<Longrightarrow> i \<notin> set (ch i)"
    "\<And>i. present k i \<Longrightarrow> seg (tasks k) i None (t_cptr (tasks k i)) (ch i) None"
    "\<And>i j. present k i \<Longrightarrow> j \<in> set (ch i) \<Longrightarrow> present k j \<and> 0 < j"
    "\<And>j. present k j \<Longrightarrow> 0 < j \<Longrightarrow> \<exists>i. present k i \<and> j \<in> set (ch i)"
  shows "ptree k ch"
  using assms by (simp add: ptree_def)

definition links_kept :: "kernel \<Rightarrow> kernel \<Rightarrow> bool" where
  "links_kept k k' \<longleftrightarrow> present k' = present k \<and> (\<forall>i. links (tasks k' i) = links (tasks k i))"

lemma links_kept_refl [simp, intro]: "links_kept k k"
  by (simp add: links_kept_def)

lemma links_kept_trans: "links_kept k k1 \<Longrightarrow> links_kept k1 k2 \<Longrightarrow> links_kept k k2"
  by (simp add: links_kept_def)

lemma links_sib: "links t = links t' \<Longrightarrow> sib_links t = sib_links t' \<and> t_cptr t = t_cptr t'"
  by (simp add: links_def sib_links_def)

lemma ptree_links:
  assumes "links_kept k k'" and "ptree k ch"
  shows "ptree k' ch"
proof -
  have p: "present k' = present k" and l: "\<And>i. links (tasks k' i) = links (tasks k i)"
    using assms(1) by (auto simp: links_kept_def)
  have s: "seg (tasks k') i y q xs r = seg (tasks k) i y q xs r" for i y q xs r
    by (rule seg_cong) (use l links_sib in blast)
  have c: "t_cptr (tasks k' i) = t_cptr (tasks k i)" for i using l links_sib by blast
  show ?thesis using assms(2) by (simp add: ptree_def p s c)
qed

subsection \<open>The audit\<close>

lemma seg_middle:
  "seg t par y p (xs @ i # ys) q \<Longrightarrow>
     t_pptr (t i) = Some par \<and> t_ysptr (t i) = end_of y xs \<and>
     seg t par y p xs (Some i) \<and> seg t par (Some i) (t_osptr (t i)) ys q"
  by (auto simp: seg_append)

lemma seg_last_os: "seg t par y p xs q \<Longrightarrow> xs \<noteq> [] \<Longrightarrow> t_osptr (t (last xs)) = q"
  by (induction xs arbitrary: y p) (auto split: if_splits)

lemma ptree_siblings:
  assumes t: "ptree k ch" and i: "present k i" "0 < i"
  obtains par xs ys where "present k par" "ch par = xs @ i # ys" "t_pptr (tasks k i) = Some par"
    "t_ysptr (tasks k i) = end_of None xs"
    "t_osptr (tasks k i) = (if ys = [] then None else Some (hd ys))"
    "seg (tasks k) par None (t_cptr (tasks k par)) xs (Some i)"
    "seg (tasks k) par (Some i) (t_osptr (tasks k i)) ys None"
    "i \<notin> set xs" "i \<notin> set ys" "distinct xs" "distinct ys" "set xs \<inter> set ys = {}"
    "par \<noteq> i" "par \<notin> set xs" "par \<notin> set ys"
proof -
  obtain par where par: "present k par" "i \<in> set (ch par)" using ptree_parent[OF t i] by blast
  then obtain xs ys where ch: "ch par = xs @ i # ys" by (meson split_list)
  have s: "seg (tasks k) par None (t_cptr (tasks k par)) (xs @ i # ys) None"
    using ptreeD(4)[OF t par(1)] by (simp add: ch)
  have d: "distinct (xs @ i # ys)" "par \<notin> set (xs @ i # ys)"
    using ptreeD(2,3)[OF t par(1)] by (simp_all add: ch)
  note m = seg_middle[OF s]
  have "t_osptr (tasks k i) = (if ys = [] then None else Some (hd ys))"
    using m by (cases ys) auto
  with m d par ch that[of par xs ys] show ?thesis by auto
qed

lemma bad_task_ptr_None [simp]: "\<not> bad_task_ptr None k"
  by (simp add: bad_task_ptr_def)

lemma bad_task_ptr_ok: "ptree k ch \<Longrightarrow> present k j \<Longrightarrow> \<not> bad_task_ptr (Some j) k"
  by (simp add: bad_task_ptr_def ptreeD(1))

lemma audit_task_clean:
  assumes t: "ptree k ch" and i: "present k i" "0 < i"
  shows "audit_task k i = []"
proof -
  from ptree_siblings[OF t i] obtain par xs ys where
    p: "present k par" "ch par = xs @ i # ys" "t_pptr (tasks k i) = Some par"
    and y: "t_ysptr (tasks k i) = end_of None xs"
    and o': "t_osptr (tasks k i) = (if ys = [] then None else Some (hd ys))"
    and sx: "seg (tasks k) par None (t_cptr (tasks k par)) xs (Some i)"
    and sy: "seg (tasks k) par (Some i) (t_osptr (tasks k i)) ys None"
    and n: "i \<notin> set xs" "i \<notin> set ys" "par \<noteq> i" .
  have sib: "present k j \<and> t_pptr (tasks k j) = Some par" if "j \<in> set xs \<union> set ys" for j
    using ptreeD(5)[OF t p(1), of j] that p(2) by auto
  have par_ok: "\<not> bad_task_ptr (t_pptr (tasks k i)) k" using p bad_task_ptr_ok[OF t p(1)] by simp
  have ys_ok: "\<not> bad_task_ptr (t_ysptr (tasks k i)) k \<and> t_ysptr (tasks k i) \<noteq> Some i \<and>
    (\<forall>j. t_ysptr (tasks k i) = Some j \<longrightarrow> t_pptr (tasks k j) = Some par \<and> t_osptr (tasks k j) = Some i)"
  proof (cases "xs = []")
    case True
    with y show ?thesis by simp
  next
    case False
    have l: "last xs \<in> set xs" using False by simp
    with sib[of "last xs"] have "\<not> bad_task_ptr (Some (last xs)) k" using bad_task_ptr_ok[OF t] by blast
    with y False seg_last_os[OF sx False] sib[of "last xs"] l n show ?thesis
      by (auto simp: end_of_def)
  qed
  have os_ok: "\<not> bad_task_ptr (t_osptr (tasks k i)) k \<and> t_osptr (tasks k i) \<noteq> Some i \<and>
    (\<forall>j. t_osptr (tasks k i) = Some j \<longrightarrow> t_pptr (tasks k j) = Some par \<and> t_ysptr (tasks k j) = Some i)"
  proof (cases ys)
    case Nil
    with o' show ?thesis by simp
  next
    case (Cons a zs)
    with sib[of a] have "\<not> bad_task_ptr (Some a) k" using bad_task_ptr_ok[OF t] by auto
    with o' Cons sy n show ?thesis by auto
  qed
  have c_ok: "\<not> bad_task_ptr (t_cptr (tasks k i)) k \<and> t_cptr (tasks k i) \<noteq> Some i \<and>
    (\<forall>j. t_cptr (tasks k i) = Some j \<longrightarrow> t_pptr (tasks k j) = Some i \<and> t_ysptr (tasks k j) = None)"
  proof (cases "ch i")
    case Nil
    with ptreeD(4)[OF t i(1)] show ?thesis by simp
  next
    case (Cons a zs)
    have "present k a" using ptreeD(5)[OF t i(1)] Cons by simp
    then have "\<not> bad_task_ptr (Some a) k" using bad_task_ptr_ok[OF t] by blast
    with ptreeD(3,4)[OF t i(1)] Cons show ?thesis by auto
  qed
  have ng: "t_pptr (tasks k i) \<noteq> Some i" using p(3) n(3) by simp
  note plain = par_ok ng conjunct1[OF ys_ok] conjunct1[OF conjunct2[OF ys_ok]]
    conjunct1[OF os_ok] conjunct1[OF conjunct2[OF os_ok]] conjunct1[OF c_ok] conjunct1[OF conjunct2[OF c_ok]]
  have os: "t_osptr (tasks k i) \<noteq> None \<Longrightarrow>
      t_pptr (deref k (t_osptr (tasks k i))) = t_pptr (tasks k i) \<and>
      t_ysptr (deref k (t_osptr (tasks k i))) = Some i"
    using os_ok p(3) by (auto simp: deref_def)
  have ys: "t_ysptr (tasks k i) \<noteq> None \<Longrightarrow>
      t_pptr (deref k (t_ysptr (tasks k i))) = t_pptr (tasks k i) \<and>
      t_osptr (deref k (t_ysptr (tasks k i))) = Some i"
    using ys_ok p(3) by (auto simp: deref_def)
  have cs: "t_cptr (tasks k i) \<noteq> None \<Longrightarrow>
      t_pptr (deref k (t_cptr (tasks k i))) = Some i \<and> t_ysptr (deref k (t_cptr (tasks k i))) = None"
    using c_ok by (auto simp: deref_def)
  show ?thesis
    unfolding audit_task_def Let_def
    by (simp only: plain os ys cs if_cancel if_False simp_thms append_Nil not_False_eq_True cong: if_cong)
qed

text \<open>When the pointers represent a process tree, \<^verbatim>\<open>audit_ptree\<close> prints no
  warning.\<close>

theorem audit_ptree_clean:
  assumes "ptree k ch"
  shows "audit_ptree k = []"
proof -
  have "audit_task k i = []" if "i \<in> set [1..<NR_TASKS]" for i
  proof (cases "present k i")
    case True
    with audit_task_clean[OF assms True] that show ?thesis by simp
  next
    case False
    then show ?thesis by (simp add: audit_task_def)
  qed
  then show ?thesis by (simp add: audit_ptree_def del: set_upt)
qed

subsection \<open>Reaping a child\<close>

text \<open>The pointer a parent keeps of its youngest child, and the effect of \<open>unlink_task\<close> on the
  links.\<close>

lemma unlink_present [simp]: "present (unlink_task i k) = (present k)(i := False)"
  by (simp add: unlink_task_def Let_def assign_def split: option.split)

definition unlink_links :: "nat \<Rightarrow> (nat \<Rightarrow> task_struct) \<Rightarrow> nat \<Rightarrow> task_struct" where
  "unlink_links i t =
     (let t' = (case t_osptr (t i) of None \<Rightarrow> t
                | Some j \<Rightarrow> t(j := (t j)\<lparr>t_ysptr := t_ysptr (t i)\<rparr>))
      in case t_ysptr (t i) of
           Some j \<Rightarrow> t'(j := (t' j)\<lparr>t_osptr := t_osptr (t i)\<rparr>)
         | None \<Rightarrow> (case t_pptr (t i) of None \<Rightarrow> t'
                   | Some j \<Rightarrow> t'(j := (t' j)\<lparr>t_cptr := t_osptr (t i)\<rparr>)))"

lemma unlink_tasks: "tasks (unlink_task i k) = unlink_links i (tasks k)"
  by (auto simp: unlink_task_def unlink_links_def Let_def assign_def fun_eq_iff split: option.split)

text \<open>A segment loses its middle.\<close>

lemma seg_cut:
  assumes sx: "seg t par None p xs (Some i)" and sy: "seg t par (Some i) (t_osptr (t i)) ys None"
    and i: "t_ysptr (t i) = end_of None xs" "t_pptr (t i) = Some par" and p: "p = t_cptr (t par)"
    and d: "distinct xs" "distinct ys" "set xs \<inter> set ys = {}" "par \<notin> set xs" "par \<notin> set ys"
    and n: "i \<notin> set xs" "i \<notin> set ys" "par \<noteq> i"
  shows "seg (unlink_links i t) par None (t_cptr (unlink_links i t par)) (xs @ ys) None"
proof -
  define t1 where "t1 = (case t_osptr (t i) of None \<Rightarrow> t
                | Some j \<Rightarrow> t(j := (t j)\<lparr>t_ysptr := t_ysptr (t i)\<rparr>))"
  define q where "q = t_osptr (t i)"
  have t1: "t1 j = t j" if "j \<notin> set ys" for j
    using that sy by (cases ys) (auto simp: t1_def)
  have y1: "seg t1 par (end_of None xs) q ys None"
  proof (cases ys)
    case Nil
    with sy show ?thesis by (simp add: q_def)
  next
    case (Cons a zs)
    with sy have os: "t_osptr (t i) = Some a" by simp
    from Cons d(2) have "a \<notin> set zs" by simp
    from seg_set_start[OF sy[unfolded Cons] this] show ?thesis
      by (simp add: t1_def os i q_def Cons del: fun_upd_apply seg.simps)
  qed
  have x1: "seg t1 par None p xs (Some i)"
  proof -
    have "seg t1 par None p xs (Some i) = seg t par None p xs (Some i)"
      by (rule seg_cong) (metis t1 d(3) disjoint_iff)
    with sx show ?thesis by simp
  qed
  show ?thesis
  proof (cases "xs = []")
    case True
    with i have u: "unlink_links i t = t1(par := (t1 par)\<lparr>t_cptr := q\<rparr>)"
      by (simp add: unlink_links_def t1_def[symmetric] q_def Let_def)
    have "seg (unlink_links i t) par None q ys None = seg t1 par None q ys None"
      by (rule seg_cong) (use d(5) in \<open>auto simp: u sib_links_def\<close>)
    with y1 True show ?thesis by (simp add: u)
  next
    case False
    then have e: "end_of None xs = Some (last xs)" by (simp add: end_of_def)
    then have u: "unlink_links i t = t1(last xs := (t1 (last xs))\<lparr>t_osptr := q\<rparr>)"
      using i by (simp add: unlink_links_def t1_def[symmetric] q_def Let_def)
    have x2: "seg (unlink_links i t) par None p xs q"
      unfolding u by (rule seg_set_end[OF x1 d(1) False])
    have lx: "last xs \<in> set xs" using False by simp
    have "seg (unlink_links i t) par (end_of None xs) q ys None = seg t1 par (end_of None xs) q ys None"
      by (rule seg_cong) (use d(3) lx in \<open>auto simp: u\<close>)
    with y1 x2 have "seg (unlink_links i t) par None p (xs @ ys) None"
      by (auto simp: seg_append)
    moreover have "t_cptr (unlink_links i t par) = p"
      using lx d(4) t1[of par] d(5) p by (auto simp: u)
    ultimately show ?thesis by simp
  qed
qed

lemma unlink_links_other:
  assumes "t_osptr (t i) = (if ys = [] then None else Some (hd ys))"
    and "t_ysptr (t i) = end_of None xs" and "t_pptr (t i) = Some par"
  shows "j \<notin> set xs \<Longrightarrow> j \<notin> set ys \<Longrightarrow> sib_links (unlink_links i t j) = sib_links (t j)"
    and "j \<noteq> par \<Longrightarrow> t_cptr (unlink_links i t j) = t_cptr (t j)"
  using assms
  by (cases ys; cases xs rule: rev_cases;
      auto simp: unlink_links_def Let_def end_of_def sib_links_def split: if_splits)+

text \<open>Taking a childless process other than the caller out of the table and out of the
  sibling list (the first half of \<^verbatim>\<open>release\<close>) leaves a process tree: the old one
  without that process.\<close>

theorem unlink_task_ptree:
  assumes t: "ptree k ch" and i: "present k i" "0 < i" and leaf: "ch i = []"
  shows "\<exists>par. present k par \<and> t_pptr (tasks k i) = Some par \<and>
    ptree (unlink_task i k) (ch(par := remove1 i (ch par)))"
proof -
  from ptree_siblings[OF t i] obtain par xs ys where
    p: "present k par" "ch par = xs @ i # ys" "t_pptr (tasks k i) = Some par"
    and y: "t_ysptr (tasks k i) = end_of None xs"
    and os: "t_osptr (tasks k i) = (if ys = [] then None else Some (hd ys))"
    and sx: "seg (tasks k) par None (t_cptr (tasks k par)) xs (Some i)"
    and sy: "seg (tasks k) par (Some i) (t_osptr (tasks k i)) ys None"
    and n: "i \<notin> set xs" "i \<notin> set ys" and d: "distinct xs" "distinct ys" "set xs \<inter> set ys = {}"
    and n': "par \<noteq> i" "par \<notin> set xs" "par \<notin> set ys" .
  have r: "remove1 i (ch par) = xs @ ys" using p(2) n by (simp add: remove1_append)
  define ch' where "ch' = ch(par := xs @ ys)"
  have sub: "set (ch' j) \<subseteq> set (ch j) - {i}" if "present k j" for j
  proof (cases "j = par")
    case True
    then show ?thesis using p(2) n by (auto simp: ch'_def)
  next
    case False
    have "i \<in> set (ch par)" using p(2) by simp
    with False ptree_one_parent[OF t p(1) that, of i] have "i \<notin> set (ch j)" by blast
    with False show ?thesis by (auto simp: ch'_def)
  qed
  note oth = unlink_links_other[of "tasks k", OF os y p(3)]
  have "ptree (unlink_task i k) ch'"
  proof (rule ptreeI, goal_cases)
    case (1 j) then show ?case using ptreeD(1)[OF t] by (simp split: if_splits)
  next
    case (2 j)
    then have "present k j" by (simp split: if_splits)
    from ptreeD(2)[OF t this] d show ?case by (simp add: ch'_def)
  next
    case (3 j)
    then have j: "present k j" by (simp split: if_splits)
    from ptreeD(3)[OF t j] sub[OF j] show ?case by blast
  next
    case (4 j)
    then have j: "present k j" "j \<noteq> i" by (auto split: if_splits)
    show ?case
    proof (cases "j = par")
      case True
      then show ?thesis
        unfolding unlink_tasks True using seg_cut[OF sx sy y p(3) refl d n'(2,3) n n'(1)]
        by (simp add: ch'_def)
    next
      case False
      have "sib_links (unlink_links i (tasks k) m) = sib_links (tasks k m)" if "m \<in> set (ch j)" for m
      proof (rule oth(1))
        have "m \<notin> set (ch par)" using ptree_one_parent[OF t p(1) j(1), of m] that False by blast
        then show "m \<notin> set xs" "m \<notin> set ys" by (simp_all add: p(2))
      qed
      with seg_cong[of "ch j" "unlink_links i (tasks k)" "tasks k"] ptreeD(4)[OF t j(1)] oth(2)[OF False]
      show ?thesis by (simp add: unlink_tasks ch'_def False)
    qed
  next
    case (5 j m)
    then have j: "present k j" by (simp split: if_splits)
    with 5 sub[of j] have "m \<in> set (ch j)" "m \<noteq> i" by blast+
    with ptreeD(5)[OF t j] show ?case by simp
  next
    case (6 j)
    then have j: "present k j" "0 < j" "j \<noteq> i" by (auto split: if_splits)
    from ptree_parent[OF t j(1,2)] obtain q where q: "present k q" "j \<in> set (ch q)" by blast
    with leaf have "q \<noteq> i" by auto
    moreover have "j \<in> set (ch' q)" using q(2) p(2) j(3) by (auto simp: ch'_def)
    ultimately show ?case using q(1) by auto
  qed
  with p r show ?thesis unfolding ch'_def by auto
qed

subsection \<open>What leaves the links alone\<close>

lemma links_kept_assign:
  "(\<And>t. links (f t) = links t) \<Longrightarrow> links_kept k (assign p f k)"
  by (auto simp: links_kept_def assign_def split: option.split)

lemma links_kept_emit [simp]: "links_kept k (emit e k)"
  by (simp add: links_kept_def emit_def)

lemma links_kept_recharge: "links_kept k (recharge k)"
  by (simp add: links_kept_def recharge_def links_def)

lemma links_kept_switch: "links_kept k (switch_to n k)"
  by (simp add: links_kept_def)

lemma links_kept_wake: "links_kept k (wake_signalled k)"
  by (simp add: links_kept_def wake_signalled_def links_def check_alarm_def wake_if_signalled_def
      expire_alarm_def expire_timeout_def)

lemma sched_loop_rel:
  assumes step: "\<And>x y. R (recharge x) y \<Longrightarrow> R x y" and stop: "\<And>n x. R x (switch_to n x)"
    and "sched_loop k = Some k'"
  shows "R k k'"
proof (rule sched_loop.raw_induct[of R, OF _ assms(3)])
  fix f :: "kernel \<Rightarrow> kernel option" and x y
  assume IH: "\<And>x y. f x = Some y \<Longrightarrow> R x y"
    and eq: "(let (c, next) = pick x in if c \<noteq> 0 then Some (switch_to next x) else f (recharge x)) = Some y"
  obtain c n where p: "pick x = (c, n)" by fastforce
  show "R x y"
  proof (cases "c = 0")
    case True
    with eq p have "f (recharge x) = Some y" by simp
    from step[OF IH[OF this]] show ?thesis .
  next
    case False
    with eq p have "y = switch_to n x" by simp
    then show ?thesis using stop by simp
  qed
qed

lemma links_kept_sched_loop: "sched_loop k = Some k' \<Longrightarrow> links_kept k k'"
  by (rule sched_loop_rel[of links_kept])
     (use links_kept_recharge links_kept_trans links_kept_switch in blast)+

lemma links_kept_schedule: "schedule k = Some k' \<Longrightarrow> links_kept k k'"
  unfolding schedule_def
  using links_kept_sched_loop links_kept_wake links_kept_trans by blast

text \<open>Signals change neither links nor who runs; they keep identities too.\<close>

definition ident :: "task_struct \<Rightarrow> int \<times> int \<times> int \<times> u16 \<times> u16" where
  "ident t = (t_pid t, t_pgrp t, t_session t, t_uid t, t_euid t)"

definition sig_only :: "kernel \<Rightarrow> kernel \<Rightarrow> bool" where
  "sig_only k k' \<longleftrightarrow> present k' = present k \<and> current k' = current k \<and>
     (\<forall>i. links (tasks k' i) = links (tasks k i) \<and> ident (tasks k' i) = ident (tasks k i) \<and>
          t_sigaction (tasks k' i) = t_sigaction (tasks k i)) \<and>
     ident (at_null k') = ident (at_null k)"

lemma sig_only_refl [simp, intro]: "sig_only k k"
  by (simp add: sig_only_def)

lemma sig_only_trans: "sig_only k k1 \<Longrightarrow> sig_only k1 k2 \<Longrightarrow> sig_only k k2"
  by (simp add: sig_only_def)

lemma sig_only_links: "sig_only k k' \<Longrightarrow> links_kept k k'"
  by (simp add: sig_only_def links_kept_def)

lemma sig_only_assign:
  "(\<And>t. links (f t) = links t \<and> ident (f t) = ident t \<and> t_sigaction (f t) = t_sigaction t)
   \<Longrightarrow> sig_only k (assign p f k)"
  by (auto simp: sig_only_def assign_def split: option.split)

lemma sig_only_assign2:
  "sig_only k k1 \<Longrightarrow>
   (\<And>t. links (f t) = links t \<and> ident (f t) = ident t \<and> t_sigaction (f t) = t_sigaction t)
   \<Longrightarrow> sig_only k (assign p f k1)"
  using sig_only_assign sig_only_trans by blast

lemma sig_only_send_sig: "sig_only k (snd (send_sig sig p priv k))"
  by (auto simp: send_sig_def Let_def links_def ident_def intro!: sig_only_assign2)

lemma sig_only_kill_pg_loop:
  "kill_pg_loop is pgrp sig priv r f k = (r', f', k') \<Longrightarrow> sig_only k k'"
proof (induction "is" arbitrary: r f k)
  case (Cons i "is")
  show ?case
  proof (cases "t_pgrp (deref k (slot k i)) = pgrp \<and> sig \<noteq> 0")
    case True
    obtain e k1 where s: "send_sig sig (slot k i) priv k = (e, k1)" by fastforce
    with sig_only_send_sig[of k sig "slot k i" priv] have "sig_only k k1" by simp
    with Cons True s show ?thesis by (auto split: if_splits intro: sig_only_trans)
  next
    case False
    with Cons show ?thesis by (auto split: if_splits)
  qed
qed simp

lemma sig_only_kill_pg: "sig_only k (snd (kill_pg pgrp sig priv k))"
  by (auto simp: kill_pg_def split: prod.split dest: sig_only_kill_pg_loop)

lemma sig_only_hup_cont: "sig_only k (hup_cont pgrp k)"
  unfolding hup_cont_def using sig_only_kill_pg sig_only_trans by blast

lemma sig_only_exit_orphan: "sig_only k (exit_orphan_check k)"
  by (simp add: exit_orphan_check_def Let_def sig_only_hup_cont)

subsection \<open>Init inherits the children\<close>

text \<open>\<open>adopt_child\<close> changes one parent pointer and, else, only signals.\<close>

definition adopted :: "nat set \<Rightarrow> kernel \<Rightarrow> kernel \<Rightarrow> bool" where
  "adopted A k k' \<longleftrightarrow> present k' = present k \<and> current k' = current k \<and>
     (\<forall>i. t_cptr (tasks k' i) = t_cptr (tasks k i) \<and> t_ysptr (tasks k' i) = t_ysptr (tasks k i) \<and>
          t_osptr (tasks k' i) = t_osptr (tasks k i) \<and>
          t_pptr (tasks k' i) = (if i \<in> A then Some 1 else t_pptr (tasks k i)))"

lemma adopted_trans: "adopted A k k1 \<Longrightarrow> adopted B k1 k2 \<Longrightarrow> adopted (A \<union> B) k k2"
  by (auto simp: adopted_def)

lemma adopted_sig: "adopted A k k1 \<Longrightarrow> sig_only k1 k2 \<Longrightarrow> adopted A k k2"
  by (simp add: adopted_def sig_only_def links_def)

lemma adopt_child_adopted:
  assumes "present k 1"
  shows "adopted {i} k (adopt_child (Some i) k)"
proof -
  define k1 where "k1 = assign (Some i) (\<lambda>t. t\<lparr>t_pptr := slot k 1\<rparr>) k"
  define k2 where "k2 = (if t_state (deref k1 (Some i)) = TASK_ZOMBIE
      then assign (slot k1 1) (\<lambda>t. t\<lparr>t_signal := t_signal t OR sigbit SIGCHLD\<rparr>) k1 else k1)"
  have 1: "adopted {i} k k1" using assms by (simp add: adopted_def k1_def assign_def slot_def)
  have "sig_only k1 k2"
    unfolding k2_def by (auto simp: links_def ident_def intro!: sig_only_assign)
  then have 2: "adopted {i} k k2" using 1 adopted_sig by blast
  have "sig_only k2 (adopt_child (Some i) k)"
    unfolding adopt_child_def k2_def k1_def Let_def using sig_only_hup_cont by simp
  with 2 show ?thesis by (rule adopted_sig)
qed

text \<open>The loop visits the sibling list and splices at its end.\<close>

lemma adopt_loop_list:
  assumes "seg (tasks k) me y (Some x) (x # xs) None" and "present k 1"
  shows "\<exists>k2. adopt_loop (Some x) k = Some (splice_children (Some (last (x # xs))) k2) \<and>
    adopted (set (x # xs)) k k2"
proof -
  define T where "T = tasks k"
  have gen: "\<exists>k2. adopt_loop (Some x) k = Some (splice_children (Some (last (x # xs))) k2) \<and>
    adopted (set (x # xs)) k k2"
    if "seg T me y (Some x) (x # xs) None" and "present k 1"
      and "\<forall>i. t_osptr (tasks k i) = t_osptr (T i)" for k y x xs
    using that
  proof (induction xs arbitrary: k y x)
    case Nil
    note a = adopt_child_adopted[OF Nil(2), of x]
    have "t_osptr (deref (adopt_child (Some x) k) (Some x)) = None"
      using a Nil by (simp add: adopted_def deref_def)
    then show ?case using a by (subst adopt_loop.simps) (auto simp: Let_def)
  next
    case (Cons b zs)
    note a = adopt_child_adopted[OF Cons(3), of x]
    have o': "t_osptr (deref (adopt_child (Some x) k) (Some x)) = Some b"
      using a Cons.prems by (simp add: adopted_def deref_def)
    have s: "seg T me (Some x) (Some b) (b # zs) None" using Cons.prems(1) by simp
    have "present (adopt_child (Some x) k) 1"
      "\<forall>i. t_osptr (tasks (adopt_child (Some x) k) i) = t_osptr (T i)"
      using a Cons.prems by (simp_all add: adopted_def)
    from Cons.IH[OF s this] obtain k2 where
      k2: "adopt_loop (Some b) (adopt_child (Some x) k) = Some (splice_children (Some (last (b # zs))) k2)"
        "adopted (set (b # zs)) (adopt_child (Some x) k) k2" by blast
    have eq: "{x} \<union> set (b # zs) = set (x # b # zs)" by auto
    have A: "adopted (set (x # b # zs)) k k2" using adopted_trans[OF a k2(2)] unfolding eq .
    have B: "adopt_loop (Some x) k = Some (splice_children (Some (last (b # zs))) k2)"
      using k2(1) o' by (subst adopt_loop.simps) (simp add: Let_def)
    have C: "last (x # b # zs) = last (b # zs)" by simp
    show ?case by (rule exI[of _ k2]) (simp only: A B C simp_thms)
  qed
  show ?thesis by (rule gen[OF _ assms(2)]) (use assms(1) in \<open>simp_all only: T_def simp_thms\<close>)
qed

text \<open>The splice: the list of the exiting process in front of init's.\<close>

lemma splice_fields:
  assumes p1: "present k 1" and l: "l \<noteq> 1" and me: "current k \<noteq> 1"
    and c: "t_cptr (tasks k 1) \<noteq> Some l" "t_cptr (tasks k 1) \<noteq> Some 1"
  shows "present (splice_children (Some l) k) = present k"
    "t_pptr (tasks (splice_children (Some l) k) i) = t_pptr (tasks k i)"
    "t_osptr (tasks (splice_children (Some l) k) i) =
       (if i = l then t_cptr (tasks k 1) else t_osptr (tasks k i))"
    "t_ysptr (tasks (splice_children (Some l) k) i) =
       (if t_cptr (tasks k 1) = Some i then Some l else t_ysptr (tasks k i))"
    "t_cptr (tasks (splice_children (Some l) k) i) =
       (if i = current k then None else if i = 1 then t_cptr (tasks k (current k)) else t_cptr (tasks k i))"
  using assms
  by (cases "t_cptr (tasks k 1)";
      simp add: splice_children_def Let_def assign_def upd_cur_def cur_def deref_def slot_def)+

lemma seg_join:
  assumes xs: "seg t par None p xs None" and ys: "seg t par None q ys None"
    and d: "distinct xs" "distinct ys" "set xs \<inter> set ys = {}" and ne: "xs \<noteq> []"
    and t': "\<And>i. t_pptr (t' i) = t_pptr (t i)"
      "\<And>i. t_osptr (t' i) = (if i = last xs then q else t_osptr (t i))"
      "\<And>i. t_ysptr (t' i) = (if q = Some i then Some (last xs) else t_ysptr (t i))"
  shows "seg t' par None p (xs @ ys) None"
proof -
  define t1 where "t1 = t(last xs := (t (last xs))\<lparr>t_osptr := q\<rparr>)"
  have x: "seg t1 par None p xs q" unfolding t1_def by (rule seg_set_end[OF xs d(1) ne])
  have lx: "last xs \<in> set xs" using ne by simp
  have qx: "q \<noteq> Some i" if "i \<in> set xs" for i
    using ys d(3) that by (cases ys) auto
  have "seg t' par None p xs q = seg t1 par None p xs q"
    by (rule seg_cong) (simp add: sib_links_def t' t1_def qx)
  with x have x': "seg t' par None p xs q" by simp
  have "seg t' par (Some (last xs)) q ys None"
  proof (cases ys)
    case Nil
    with ys show ?thesis by simp
  next
    case (Cons a zs)
    with ys have q: "q = Some a" by simp
    have "a \<notin> set zs" using Cons d(2) by simp
    from seg_set_start[OF ys[unfolded Cons] this, of "Some (last xs)"]
    have "seg (t(a := (t a)\<lparr>t_ysptr := Some (last xs)\<rparr>)) par (Some (last xs)) q ys None"
      by (simp add: Cons del: seg.simps fun_upd_apply)
    moreover have "seg t' par (Some (last xs)) q ys None =
      seg (t(a := (t a)\<lparr>t_ysptr := Some (last xs)\<rparr>)) par (Some (last xs)) q ys None"
      by (rule seg_cong) (use d(3) lx in \<open>auto simp: sib_links_def t' q\<close>)
    ultimately show ?thesis by simp
  qed
  with x' ne show ?thesis by (auto simp: seg_append end_of_def)
qed

lemma seg_repar:
  assumes "seg t par y p xs q"
    and "\<And>i. i \<in> set xs \<Longrightarrow> t_pptr (t' i) = Some par' \<and> t_ysptr (t' i) = t_ysptr (t i) \<and> t_osptr (t' i) = t_osptr (t i)"
  shows "seg t' par' y p xs q"
  using assms by (induction xs arbitrary: y p) auto

text \<open>C17. When a process other than init exits, init inherits its children: the loop of
  \<^verbatim>\<open>do_exit\<close> ends, and the tree it leaves is the old one with the children of the
  exiting process, in their order, in front of those of init.\<close>

theorem exit_reparent_ptree:
  assumes t: "ptree k ch" and me: "present k (current k)" "current k \<noteq> 1"
    and init: "present k 1" "1 \<notin> set (ch (current k))"
  shows "\<exists>k'. exit_reparent k = Some k' \<and>
    ptree k' (ch(1 := ch (current k) @ ch 1, current k := []))"
proof (cases "ch (current k)")
  case Nil
  have "t_cptr (cur k) = None" using ptreeD(4)[OF t me(1)] Nil by (simp add: cur_def)
  moreover have "ch(1 := ch (current k) @ ch 1, current k := []) = ch" using Nil by auto
  ultimately show ?thesis using t by (simp add: exit_reparent_def)
next
  case (Cons x xs)
  define m where "m = current k"
  define l where "l = last (ch m)"
  have chm: "ch m = x # xs" by (simp add: m_def Cons)
  have pm: "present k m" and m1: "m \<noteq> 1" and n1: "1 \<notin> set (ch m)" using me init(2) by (simp_all add: m_def)
  have sm: "seg (tasks k) m None (t_cptr (tasks k m)) (ch m) None" by (rule ptreeD(4)[OF t pm])
  then have cm: "t_cptr (cur k) = Some x" unfolding chm cur_def m_def[symmetric] by simp
  have "seg (tasks k) m None (Some x) (x # xs) None" using sm by (simp add: chm)
  from adopt_loop_list[OF this init(1)] obtain k2 where
    k2: "adopt_loop (Some x) k = Some (splice_children (Some l) k2)" and a: "adopted (set (ch m)) k k2"
    by (auto simp: chm l_def)
  define k3 where "k3 = splice_children (Some l) k2"
  have e: "exit_reparent k = Some k3" using cm k2 by (simp add: exit_reparent_def k3_def)
  have lm: "l \<in> set (ch m)" by (simp add: l_def chm)
  have l1: "l \<noteq> 1" using lm n1 by blast
  have a2: "present k2 = present k" "current k2 = m" "\<And>i. t_cptr (tasks k2 i) = t_cptr (tasks k i)"
    "\<And>i. t_ysptr (tasks k2 i) = t_ysptr (tasks k i)" "\<And>i. t_osptr (tasks k2 i) = t_osptr (tasks k i)"
    "\<And>i. t_pptr (tasks k2 i) = (if i \<in> set (ch m) then Some 1 else t_pptr (tasks k i))"
    using a by (auto simp: adopted_def m_def)
  have s1: "seg (tasks k) 1 None (t_cptr (tasks k 1)) (ch 1) None" by (rule ptreeD(4)[OF t init(1)])
  have disj: "set (ch m) \<inter> set (ch i) = {}" if "present k i" "i \<noteq> m" for i
    using ptree_one_parent[OF t pm that(1)] that(2) by blast
  have c1: "t_cptr (tasks k 1) = Some i \<Longrightarrow> i \<in> set (ch 1)" for i using s1 by (cases "ch 1") auto
  have lc: "t_cptr (tasks k2 1) \<noteq> Some l" "t_cptr (tasks k2 1) \<noteq> Some 1"
    using c1 disj[OF init(1) m1[symmetric]] lm ptreeD(3)[OF t init(1)] by (auto simp: a2)
  have p2: "present k2 1" "current k2 \<noteq> 1" using init(1) m1 by (simp_all add: a2)
  note f = splice_fields[OF p2(1) l1 p2(2) lc, folded k3_def, unfolded a2(1-5)]
  have big: "seg (tasks k3) 1 None (Some x) (ch m @ ch 1) None"
  proof (rule seg_join)
    show "seg (tasks k2) 1 None (Some x) (ch m) None"
      by (rule seg_repar[of "tasks k" m]) (use sm chm in \<open>auto simp: a2\<close>)
    have "seg (tasks k2) 1 None (t_cptr (tasks k 1)) (ch 1) None = seg (tasks k) 1 None (t_cptr (tasks k 1)) (ch 1) None"
      by (rule seg_cong) (use disj[OF init(1) m1[symmetric]] in \<open>auto simp: sib_links_def a2\<close>)
    with s1 show "seg (tasks k2) 1 None (t_cptr (tasks k 1)) (ch 1) None" by simp
    show "distinct (ch m)" "distinct (ch 1)" by (rule ptreeD(2)[OF t pm], rule ptreeD(2)[OF t init(1)])
    show "set (ch m) \<inter> set (ch 1) = {}" by (rule disj[OF init(1) m1[symmetric]])
    show "ch m \<noteq> []" by (simp add: chm)
  qed (simp_all add: f a2 l_def)
  have "ptree k3 (ch(1 := ch m @ ch 1, m := []))" (is "ptree k3 ?ch")
  proof (rule ptreeI, goal_cases)
    case (1 i) then show ?case using ptreeD(1)[OF t] by (simp add: f)
  next
    case (2 i)
    then show ?case using ptreeD(2)[OF t] disj[OF init(1) m1[symmetric]] pm init(1) by (simp add: f)
  next
    case (3 i)
    then show ?case using ptreeD(3)[OF t, of i] ptreeD(3)[OF t init(1)] n1 by (simp add: f del: One_nat_def)
  next
    case (4 i)
    then have pi: "present k i" by (simp add: f)
    consider "i = m" | "i = 1" "i \<noteq> m" | "i \<noteq> 1" "i \<noteq> m" by blast
    then show ?case
    proof cases
      case 1 then show ?thesis by (simp add: f m1)
    next
      case 2
      have "t_cptr (tasks k m) = Some x" using sm by (simp add: chm)
      with 2 big show ?thesis by (simp add: f)
    next
      case 3
      have "sib_links (tasks k3 j) = sib_links (tasks k j)" if j: "j \<in> set (ch i)" for j
      proof -
        have "j \<notin> set (ch m)" using disj[OF pi 3(2)] j by blast
        moreover have "j \<noteq> l" using calculation lm by blast
        moreover have "t_cptr (tasks k 1) \<noteq> Some j"
          using c1[of j] ptree_one_parent[OF t init(1) pi, of j] j 3(1) by blast
        ultimately show ?thesis by (simp add: sib_links_def f a2)
      qed
      with seg_cong[of "ch i" "tasks k3" "tasks k"] ptreeD(4)[OF t pi] 3 show ?thesis by (simp add: f)
    qed
  next
    case (5 i j)
    then show ?case
      using ptreeD(5)[OF t, of i j] ptreeD(5)[OF t pm, of j] ptreeD(5)[OF t init(1), of j]
      by (auto simp: f split: if_splits)
  next
    case (6 j)
    then have j: "present k j" "0 < j" by (simp_all add: f)
    from ptree_parent[OF t this] obtain i where i: "present k i" "j \<in> set (ch i)" by blast
    show ?case
    proof (cases "i = m \<or> i = 1")
      case True
      with i init(1) m1 show ?thesis by (intro exI[of _ 1]) (auto simp: f)
    next
      case False
      with i show ?thesis by (intro exI[of _ i]) (auto simp: f)
    qed
  qed
  with e show ?thesis by (simp add: m_def)
qed

subsection \<open>A small tree\<close>

text \<open>Task 0 is the parent of init (1) and of 2, which has the children 4 and 3 (4 is the
  younger), 3 a zombie. The current process is 2.\<close>

definition tree_kernel :: kernel where
  "tree_kernel = kernel0\<lparr>present := (\<lambda>i. i < 5), current := 2,
     tasks := (\<lambda>i. task0)(
       0 := task0\<lparr>t_pptr := Some 0, t_cptr := Some 2\<rparr>,
       1 := task0\<lparr>t_pid := 1, t_pptr := Some 0, t_ysptr := Some 2\<rparr>,
       2 := task0\<lparr>t_pid := 20, t_pgrp := 7, t_pptr := Some 0, t_osptr := Some 1, t_cptr := Some 4\<rparr>,
       3 := task0\<lparr>t_pid := 30, t_pgrp := 7, t_state := TASK_ZOMBIE, t_exit_code := 5 * 256,
                 t_pptr := Some 2, t_ysptr := Some 4\<rparr>,
       4 := task0\<lparr>t_pid := 40, t_pgrp := 7, t_pptr := Some 2, t_osptr := Some 3\<rparr>)\<rparr>"

definition tree_children :: "nat \<Rightarrow> nat list" where
  "tree_children = (\<lambda>_. [])(0 := [2, 1], 2 := [4, 3])"

lemma less5: "i < (5::nat) \<longleftrightarrow> i = 0 \<or> i = 1 \<or> i = 2 \<or> i = 3 \<or> i = 4"
  by auto

lemma tree_ptree: "ptree tree_kernel tree_children"
proof (rule ptreeI, goal_cases)
  case (6 j)
  then have "j \<in> set (tree_children 0) \<or> j \<in> set (tree_children 2)"
    by (auto simp: tree_kernel_def tree_children_def less5)
  moreover have "present tree_kernel 0" "present tree_kernel 2" by (simp_all add: tree_kernel_def)
  ultimately show ?case by blast
qed (auto simp: tree_kernel_def tree_children_def task0_def kernel0_def less5 split: if_splits)

theorem audit_ptree_clean_witness: "audit_ptree tree_kernel = []"
  by (rule audit_ptree_clean[OF tree_ptree])

theorem unlink_task_ptree_witness:
  "ptree (unlink_task 3 tree_kernel) ((\<lambda>_. [])(0 := [2, 1], 2 := [4]))"
proof -
  have "present tree_kernel 3" "tree_children 3 = []"
    by (simp_all add: tree_kernel_def tree_children_def kernel0_def)
  from unlink_task_ptree[OF tree_ptree this(1) _ this(2)] obtain par where
    p: "t_pptr (tasks tree_kernel 3) = Some par"
      "ptree (unlink_task 3 tree_kernel) (tree_children(par := remove1 3 (tree_children par)))" by auto
  from p(1) have "par = 2" by (simp add: tree_kernel_def kernel0_def task0_def)
  moreover have "tree_children(2 := remove1 3 (tree_children 2)) = (\<lambda>_. [])(0 := [2, 1], 2 := [4])"
    by (simp add: tree_children_def fun_eq_iff)
  ultimately show ?thesis using p(2) by simp
qed

theorem exit_reparent_ptree_witness:
  "\<exists>k'. exit_reparent tree_kernel = Some k' \<and> ptree k' ((\<lambda>_. [])(0 := [2, 1], 1 := [4, 3]))"
proof -
  have c: "current tree_kernel = 2" and p: "present tree_kernel 2" "present tree_kernel 1"
    by (simp_all add: tree_kernel_def)
  have e: "tree_children(1 := tree_children 2 @ tree_children 1, 2 := []) =
      (\<lambda>_. [])(0 := [2, 1], 1 := [4, 3])"
    by (simp add: tree_children_def fun_eq_iff)
  have "current tree_kernel \<noteq> 1" "1 \<notin> set (tree_children (current tree_kernel))"
    by (simp_all add: c tree_children_def)
  from exit_reparent_ptree[OF tree_ptree _ this(1) p(2) this(2)] show ?thesis
    unfolding c e using p(1) by blast
qed

subsection \<open>Signals\<close>

definition takes :: "int \<Rightarrow> task_struct \<Rightarrow> bool" where
  "takes sig t \<longleftrightarrow> sa_handler (t_sigaction t (sig - 1)) \<noteq> 1"

lemma bit_sigbit: "bit (sigbit sig) n \<longleftrightarrow> n = nat ((sig - 1) mod 32)"
  by (auto simp: sigbit_def bit_simps)

lemma sigbit_bit: "1 \<le> sig \<Longrightarrow> sig \<le> 32 \<Longrightarrow> bit (sigbit sig) n \<longleftrightarrow> int n = sig - 1"
  by (auto simp: bit_sigbit)

text \<open>What \<^verbatim>\<open>send_sig\<close> does to a task it may signal.\<close>

definition signalled :: "int \<Rightarrow> task_struct \<Rightarrow> task_struct" where
  "signalled sig t =
     (let t = (if sig = SIGKILL \<or> sig = SIGCONT
               then t\<lparr>t_state := if t_state t = TASK_STOPPED then TASK_RUNNING else t_state t,
                      t_exit_code := 0,
                      t_signal := t_signal t AND NOT (sigbit SIGSTOP OR sigbit SIGTSTP OR
                                    sigbit SIGTTIN OR sigbit SIGTTOU)\<rparr> else t)
      in if \<not> takes sig t then t
         else let t = (if SIGSTOP \<le> sig \<and> sig \<le> SIGTTOU
                       then t\<lparr>t_signal := t_signal t AND NOT (sigbit SIGCONT)\<rparr> else t)
              in t\<lparr>t_signal := t_signal t OR sigbit sig\<rparr>)"

lemma send_sig_ok:
  assumes "priv \<or> t_euid (cur k) = t_euid (tasks k i) \<or> suser k"
  shows "send_sig sig (Some i) priv k = (0, assign (Some i) (signalled sig) k)"
proof -
  have ex: "tasks k = (tasks k)(i := tasks k i)" by simp
  show ?thesis
    using assms
    by (auto simp: send_sig_def signalled_def takes_def Let_def deref_def assign_def)
qed

lemma signalled_fields [simp]:
  "t_pgrp (signalled sig t) = t_pgrp t" "t_euid (signalled sig t) = t_euid t"
  "t_pid (signalled sig t) = t_pid t" "t_sigaction (signalled sig t) = t_sigaction t"
  by (simp_all add: signalled_def Let_def)

text \<open>The group loop signals the members it has not visited yet.\<close>

definition members :: "int \<Rightarrow> nat list \<Rightarrow> kernel \<Rightarrow> nat set" where
  "members pgrp is k = {i \<in> set is. present k i \<and> t_pgrp (tasks k i) = pgrp}"

lemma kill_pg_loop_priv:
  assumes "distinct is" and "sig \<noteq> 0" and "t_pgrp (at_null k) \<noteq> pgrp"
    and "kill_pg_loop is pgrp sig True r f k = (r', f', k')"
  shows "present k' = present k \<and> f' = f + card (members pgrp is k) \<and> r' = r \<and>
    (\<forall>i. tasks k' i = (if i \<in> members pgrp is k then signalled sig (tasks k i) else tasks k i))"
  using assms
proof (induction "is" arbitrary: f k)
  case Nil
  then show ?case by (simp add: members_def)
next
  case (Cons i "is")
  show ?case
  proof (cases "present k i \<and> t_pgrp (tasks k i) = pgrp")
    case False
    then have ne: "t_pgrp (deref k (slot k i)) \<noteq> pgrp"
      using Cons.prems(3) by (simp add: deref_def slot_def)
    from False have "members pgrp (i # is) k = members pgrp is k" by (auto simp: members_def)
    with Cons.IH[of k f] Cons.prems ne show ?thesis by simp
  next
    case True
    define k1 where "k1 = assign (Some i) (signalled sig) k"
    have t1: "tasks k1 j = (if j = i then signalled sig (tasks k j) else tasks k j)"
      "present k1 = present k" "at_null k1 = at_null k" for j
      by (simp_all add: k1_def assign_def)
    have "kill_pg_loop (i # is) pgrp sig True r f k = kill_pg_loop is pgrp sig True r (Suc f) k1"
      using True Cons.prems(2) by (simp add: deref_def slot_def send_sig_ok k1_def)
    with Cons.IH[of k1 "Suc f"] Cons.prems t1 have
      IH: "present k' = present k1 \<and> f' = Suc f + card (members pgrp is k1) \<and> r' = r \<and>
        (\<forall>j. tasks k' j = (if j \<in> members pgrp is k1 then signalled sig (tasks k1 j) else tasks k1 j))"
      by simp
    have ni: "i \<notin> members pgrp is k" using Cons.prems(1) by (simp add: members_def)
    have m1: "members pgrp is k1 = members pgrp is k"
      using t1 by (auto simp: members_def)
    have m2: "members pgrp (i # is) k = insert i (members pgrp is k)"
      using True by (auto simp: members_def)
    have "finite (members pgrp is k)" by (simp add: members_def)
    then have "card (members pgrp (i # is) k) = Suc (card (members pgrp is k))" using ni by (simp add: m2)
    with IH ni t1 m1 m2 show ?thesis by auto
  qed
qed

text \<open>A privileged \<^verbatim>\<open>kill_pg\<close> with a valid signal number and group signals every
  member of the group except task 0, and no other task; it fails with \<open>ESRCH\<close> exactly when
  the group has no member (the null page must not look like a member).\<close>

theorem kill_pg_members:
  assumes "1 \<le> sig" "sig \<le> 32" "0 < pgrp" "t_pgrp (at_null k) \<noteq> pgrp"
  shows "\<exists>k'. kill_pg pgrp sig True k =
      (if \<exists>i. 0 < i \<and> i < NR_TASKS \<and> present k i \<and> t_pgrp (tasks k i) = pgrp then 0 else - ESRCH, k') \<and>
    (\<forall>i. tasks k' i = (if 0 < i \<and> i < NR_TASKS \<and> present k i \<and> t_pgrp (tasks k i) = pgrp
                       then signalled sig (tasks k i) else tasks k i))"
proof -
  obtain r f k' where l: "kill_pg_loop slots_down pgrp sig True (- ESRCH) 0 k = (r, f, k')"
    by (metis prod_cases3)
  define M where "M = members pgrp slots_down k"
  have "distinct slots_down" "sig \<noteq> 0" using assms by (simp_all del: upt_conv_Cons)
  from kill_pg_loop_priv[OF this assms(4) l]
  have f: "f = card M" and r: "r = - ESRCH"
    and t: "\<forall>i. tasks k' i = (if i \<in> M then signalled sig (tasks k i) else tasks k i)"
    by (simp_all add: M_def)
  have M: "i \<in> M \<longleftrightarrow> 0 < i \<and> i < NR_TASKS \<and> present k i \<and> t_pgrp (tasks k i) = pgrp" for i
    unfolding M_def members_def by auto
  have "finite M" by (simp add: M_def members_def)
  then have "f \<noteq> 0 \<longleftrightarrow> (\<exists>i. i \<in> M)" using f by auto
  then have e: "f \<noteq> 0 \<longleftrightarrow> (\<exists>i. 0 < i \<and> i < NR_TASKS \<and> present k i \<and> t_pgrp (tasks k i) = pgrp)"
    by (simp only: M)
  have "kill_pg pgrp sig True k = (if f \<noteq> 0 then 0 else r, k')"
    using assms l by (simp add: kill_pg_def)
  with t r show ?thesis unfolding e M by blast
qed

theorem kill_pg_members_witness:
  "\<exists>k'. kill_pg 7 SIGHUP True tree_kernel = (0, k') \<and>
     t_signal (tasks k' 2) = 1 \<and> t_signal (tasks k' 1) = 0"
proof -
  have n: "t_pgrp (at_null tree_kernel) \<noteq> 7" by (simp add: tree_kernel_def kernel0_def task0_def)
  have m: "present tree_kernel 2 \<and> t_pgrp (tasks tree_kernel 2) = 7" "t_pgrp (tasks tree_kernel 1) \<noteq> 7"
    by (simp_all add: tree_kernel_def kernel0_def task0_def)
  from kill_pg_members[of SIGHUP 7 tree_kernel, OF _ _ _ n] obtain k' where
    k': "kill_pg 7 SIGHUP True tree_kernel =
       (if \<exists>i. 0 < i \<and> i < NR_TASKS \<and> present tree_kernel i \<and> t_pgrp (tasks tree_kernel i) = 7 then 0 else - ESRCH, k')"
    and t: "\<And>i. tasks k' i = (if 0 < i \<and> i < NR_TASKS \<and> present tree_kernel i \<and> t_pgrp (tasks tree_kernel i) = 7
       then signalled SIGHUP (tasks tree_kernel i) else tasks tree_kernel i)" by auto
  have "kill_pg 7 SIGHUP True tree_kernel = (0, k')" using k' m by (auto intro: exI[of _ 2])
  moreover have "tasks k' 2 = signalled SIGHUP (tasks tree_kernel 2)" using t[of 2] m by simp
  moreover have "tasks k' 1 = tasks tree_kernel 1" using t[of 1] m by simp
  moreover have "t_signal (signalled SIGHUP (tasks tree_kernel 2)) = 1"
    by (simp add: signalled_def takes_def Let_def tree_kernel_def kernel0_def task0_def sigbit_def)
  moreover have "t_signal (tasks tree_kernel 1) = 0" by (simp add: tree_kernel_def kernel0_def task0_def)
  ultimately show ?thesis by auto
qed

text \<open>After a stop signal no \<^verbatim>\<open>SIGCONT\<close> is pending, and the other way round.\<close>

lemma signalled_stop:
  "SIGSTOP \<le> sig \<Longrightarrow> sig \<le> SIGTTOU \<Longrightarrow> takes sig t \<Longrightarrow>
   t_signal (signalled sig t) AND sigbit SIGCONT = 0"
proof -
  assume s: "SIGSTOP \<le> sig" "sig \<le> SIGTTOU" "takes sig t"
  have "sig \<noteq> SIGKILL" "sig \<noteq> SIGCONT" using s by simp_all
  then have "t_signal (signalled sig t) = t_signal t AND NOT (sigbit SIGCONT) OR sigbit sig"
    using s by (simp add: signalled_def Let_def)
  then show ?thesis
    using s by (auto intro!: word_eqI_bits simp: bit_simps bit_sigbit)
qed

subsection \<open>Waiting for a child\<close>

definition wait_skips :: "int \<Rightarrow> u32 \<Rightarrow> kernel \<Rightarrow> task_struct \<Rightarrow> bool" where
  "wait_skips pid options k t \<longleftrightarrow> \<not> wait_wants pid t k \<or>
     t_state t = TASK_STOPPED \<and> (\<not> bit options WUNTRACED \<or> t_exit_code t = 0) \<or>
     t_state t \<noteq> TASK_STOPPED \<and> t_state t \<noteq> TASK_ZOMBIE"

lemma wait_scan_step:
  "wait_skips pid options k (tasks k i) \<Longrightarrow>
   \<exists>flag'. wait_scan pid a options (Some i) flag k =
     wait_scan pid a options (t_osptr (tasks k i)) flag' k"
  by (subst wait_scan.simps) (auto simp: wait_skips_def Let_def)

lemma wait_scan_skips:
  assumes "seg (tasks k) m y p xs q" and "\<forall>i \<in> set xs. wait_skips pid options k (tasks k i)"
  shows "\<exists>flag'. wait_scan pid a options p flag k = wait_scan pid a options q flag' k"
  using assms
proof (induction xs arbitrary: y p flag)
  case (Cons i xs)
  then have p: "p = Some i" by simp
  obtain f1 where f1: "wait_scan pid a options p flag k = wait_scan pid a options (t_osptr (tasks k i)) f1 k"
    using wait_scan_step[of pid options k i a flag] Cons.prems(2) p by auto
  from Cons.IH[of "Some i" "t_osptr (tasks k i)" f1] Cons.prems show ?case unfolding f1 by auto
qed auto

lemma schedule_umem: "schedule k = Some k' \<Longrightarrow> umem k' = umem k"
proof -
  assume "schedule k = Some k'"
  then have "sched_loop (wake_signalled k) = Some k'" by (simp add: schedule_def)
  then have "umem k' = umem (wake_signalled k)"
    by (rule sched_loop_rel[of "\<lambda>x y. umem y = umem x", rotated 2])
       (simp_all add: recharge_def switch_to_def)
  then show ?thesis by (simp add: wake_signalled_def)
qed

lemma links_kept_put_fs_long [simp]: "links_kept k (put_fs_long v a k)"
  by (simp add: links_kept_def)

lemma links_kept_upd_cur: "(\<And>t. links (f t) = links t) \<Longrightarrow> links_kept k (upd_cur f k)"
  unfolding upd_cur_def by (rule links_kept_assign)

lemma unlink_umem [simp]: "umem (unlink_task i k) = umem k"
  by (simp add: unlink_task_def Let_def assign_def split: option.split)

lemma unlink_current [simp]: "current (unlink_task i k) = current k"
  by (simp add: unlink_task_def Let_def assign_def split: option.split)

lemma unlink_slices: "slices_ok k \<Longrightarrow> slices_ok (unlink_task i k)"
proof -
  assume s: "slices_ok k"
  define k0 where "k0 = k\<lparr>present := (present k)(i := False)\<rparr>"
  define t where "t = tasks k0 i"
  define k1 where "k1 = (if t_osptr t \<noteq> None then assign (t_osptr t) (\<lambda>u. u\<lparr>t_ysptr := t_ysptr t\<rparr>) k0 else k0)"
  have "slices_ok k0" using s by (simp add: slices_ok_def k0_def)
  then have k1: "slices_ok k1" by (simp add: k1_def slices_ok_assign)
  have "unlink_task i k = (if t_ysptr t \<noteq> None then assign (t_ysptr t) (\<lambda>u. u\<lparr>t_osptr := t_osptr t\<rparr>) k1
         else assign (t_pptr t) (\<lambda>u. u\<lparr>t_cptr := t_osptr t\<rparr>) k1)"
    unfolding unlink_task_def Let_def k1_def t_def k0_def ..
  with k1 show ?thesis by (simp add: slices_ok_assign)
qed

lemma release_ok:
  assumes t: "ptree k ch" and i: "present k i" "0 < i" "i \<noteq> current k" "ch i = []" and s: "slices_ok k"
  shows "\<exists>k' par. release (Some i) k = Some (retK () k') \<and> present k par \<and>
    t_pptr (tasks k i) = Some par \<and> ptree k' (ch(par := remove1 i (ch par))) \<and>
    present k' = (present k)(i := False) \<and> umem k' = umem k"
proof -
  from unlink_task_ptree[OF t i(1,2,4)] obtain par where
    p: "present k par" "t_pptr (tasks k i) = Some par"
      "ptree (unlink_task i k) (ch(par := remove1 i (ch par)))" by blast
  from schedule_returns[OF unlink_slices[OF s]] obtain k' where
    k': "schedule (unlink_task i k) = Some k'" by blast
  have lk: "links_kept (unlink_task i k) k'" by (rule links_kept_schedule[OF k'])
  have "release (Some i) k = Some (retK () k')"
    using i k' ptreeD(1)[OF t i(1)] by (simp add: release_def)
  moreover have "ptree k' (ch(par := remove1 i (ch par)))" by (rule ptree_links[OF lk p(3)])
  moreover have "present k' = (present k)(i := False)" using lk by (simp add: links_kept_def)
  moreover have "umem k' = umem k" using schedule_umem[OF k'] by simp
  ultimately show ?thesis using p by blast
qed

text \<open>C5. A pass of \<^verbatim>\<open>sys_waitpid\<close> takes the youngest child that it neither skips nor
  finds running: if that is a zombie, the call returns its number, stores its exit code for
  the caller, and takes it out of the process table and out of the tree, which stays a process
  tree.\<close>

theorem waitpid_reaps:
  assumes t: "ptree k ch" and s: "slices_ok k" and me: "present k (current k)"
    and ch: "ch (current k) = xs @ z # ys"
    and skip: "\<forall>i \<in> set xs. wait_skips pid options k (tasks k i)"
    and z: "wait_wants pid (tasks k z) k" "t_state (tasks k z) = TASK_ZOMBIE" "ch z = []"
  shows "\<exists>k'. waitpid_pass pid a options k = Some (Inl (t_pid (tasks k z)), k') \<and>
    get_fs_long a k' = of_int (t_exit_code (tasks k z)) \<and>
    ptree k' (ch(current k := xs @ ys)) \<and> \<not> present k' z"
proof -
  define m where "m = current k"
  have seg: "seg (tasks k) m None (t_cptr (tasks k m)) (xs @ z # ys) None"
    using ptreeD(4)[OF t me] ch by (simp add: m_def)
  note sm = seg_middle[OF seg]
  have zin: "z \<in> set (ch (current k))" using ch by simp
  note zp = ptreeD(5)[OF t me zin]
  have zm: "z \<noteq> current k" using ptreeD(3)[OF t me] zin by blast
  define k1 where "k1 = put_fs_long (of_int (t_exit_code (tasks k z))) a
    (upd_cur (\<lambda>c. c\<lparr>t_cutime := t_cutime c + t_utime (tasks k z),
                    t_cstime := t_cstime c + t_stime (tasks k z)\<rparr>) k)"
  obtain flag where "wait_scan pid a options (t_cptr (cur k)) False k = wait_scan pid a options (Some z) flag k"
    using wait_scan_skips[of k m None "t_cptr (tasks k m)" xs "Some z" pid options a False] sm skip
    by (auto simp: cur_def m_def)
  moreover have "wait_scan pid a options (Some z) flag k = Some (WaitReturn (t_pid (tasks k z)) (Some z), k1)"
    using z by (subst wait_scan.simps) (simp add: k1_def Let_def)
  ultimately have scan: "wait_scan pid a options (t_cptr (cur k)) False k =
      Some (WaitReturn (t_pid (tasks k z)) (Some z), k1)" by simp
  have lk: "links_kept k k1"
    unfolding k1_def
    by (rule links_kept_trans[OF links_kept_upd_cur links_kept_put_fs_long]) (simp add: links_def)
  have t1: "ptree k1 ch" by (rule ptree_links[OF lk t])
  have pr: "present k1 = present k" using lk by (simp add: links_kept_def)
  have cu: "current k1 = current k" by (simp add: k1_def upd_cur_def assign_def)
  have "slices_ok (upd_cur (\<lambda>c. c\<lparr>t_cutime := t_cutime c + t_utime (tasks k z),
                    t_cstime := t_cstime c + t_stime (tasks k z)\<rparr>) k)"
    using s by (auto intro!: slices_ok_upd_cur)
  then have s1: "slices_ok k1" by (simp add: k1_def slices_ok_def)
  have pz: "present k1 z" "0 < z" "z \<noteq> current k1" using zp pr cu zm by simp_all
  from release_ok[OF t1 pz z(3) s1] obtain k' par where
    r: "release (Some z) k1 = Some (retK () k')" "t_pptr (tasks k1 z) = Some par"
      "ptree k' (ch(par := remove1 z (ch par)))" "present k' = (present k1)(z := False)" "umem k' = umem k1"
    by blast
  have "links (tasks k1 z) = links (tasks k z)" using lk by (simp add: links_kept_def)
  then have par: "par = current k" using r(2) zp by (simp add: links_def)
  have "z \<notin> set xs" using ptreeD(2)[OF t me] ch by simp
  then have rm: "remove1 z (ch (current k)) = xs @ ys" by (simp add: ch remove1_append)
  have "get_fs_long a k' = get_fs_long a k1" using r(5) by (simp add: get_fs_long_def)
  then have "get_fs_long a k' = of_int (t_exit_code (tasks k z))" by (simp add: k1_def get_put_fs_long)
  moreover have "waitpid_pass pid a options k = Some (Inl (t_pid (tasks k z)), k')"
    using scan r(1) by (simp add: waitpid_pass_def retK_def)
  moreover have "ptree k' (ch(current k := xs @ ys))" using r(3) by (simp only: par rm)
  moreover have "\<not> present k' z" using r(4) by simp
  ultimately show ?thesis by blast
qed

theorem waitpid_reaps_witness:
  "\<exists>k'. waitpid_pass (-1) 100 0 tree_kernel = Some (Inl 30, k') \<and>
    get_fs_long 100 k' = 5 * 256 \<and> ptree k' ((\<lambda>_. [])(0 := [2, 1], 2 := [4])) \<and> \<not> present k' 3"
proof -
  have c: "current tree_kernel = 2" by (simp add: tree_kernel_def)
  have s: "slices_ok tree_kernel" by (simp add: slices_ok_def tree_kernel_def kernel0_def task0_def)
  have p: "present tree_kernel (current tree_kernel)" by (simp add: tree_kernel_def)
  have ch: "tree_children (current tree_kernel) = [4] @ 3 # []" by (simp add: c tree_children_def)
  have sk: "\<forall>i \<in> set [4]. wait_skips (-1) 0 tree_kernel (tasks tree_kernel i)"
    by (simp add: wait_skips_def tree_kernel_def kernel0_def task0_def)
  have w: "wait_wants (-1) (tasks tree_kernel 3) tree_kernel" by (simp add: wait_wants_def)
  have z: "t_state (tasks tree_kernel 3) = TASK_ZOMBIE" "tree_children 3 = []"
    "t_pid (tasks tree_kernel 3) = 30" "t_exit_code (tasks tree_kernel 3) = 5 * 256"
    by (simp_all add: tree_kernel_def kernel0_def task0_def tree_children_def)
  have e: "tree_children(current tree_kernel := [4] @ []) = (\<lambda>_. [])(0 := [2, 1], 2 := [4])"
    by (simp add: c tree_children_def fun_eq_iff)
  from waitpid_reaps[OF tree_ptree s p ch sk w z(1,2), of 100] show ?thesis
    unfolding z e by simp
qed

lemma exit_status_bits:
  "bit (exit_status c) n \<longleftrightarrow> 8 \<le> n \<and> n < 16 \<and> bit c (n - 8)"
  "bit (of_int (exit_status c) :: u32) n \<longleftrightarrow> 8 \<le> n \<and> n < 16 \<and> bit c (n - 8)"
proof -
  have "exit_status c = push_bit 8 (take_bit 8 c)"
    by (simp add: exit_status_def push_bit_eq_mult take_bit_eq_mod)
  then show "bit (exit_status c) n \<longleftrightarrow> 8 \<le> n \<and> n < 16 \<and> bit c (n - 8)"
    "bit (of_int (exit_status c) :: u32) n \<longleftrightarrow> 8 \<le> n \<and> n < 16 \<and> bit c (n - 8)"
    by (auto simp: bit_simps)
qed

lemma low_mask_bits: "bit (0xFF :: u32) n \<longleftrightarrow> n < 8" "bit (0x7F :: u32) n \<longleftrightarrow> n < 7"
proof -
  have m: "(0xFF :: u32) = mask 8" "(0x7F :: u32) = mask 7" by (simp_all add: mask_eq_exp_minus_1)
  show "bit (0xFF :: u32) n \<longleftrightarrow> n < 8" "bit (0x7F :: u32) n \<longleftrightarrow> n < 7"
    unfolding m by (auto simp only: bit_mask_iff) auto
qed

text \<open>A word whose low byte is zero does not read as a death by a signal.\<close>

lemma not_signaled:
  assumes "(s :: u32) AND 0xFF = 0"
  shows "\<not> WIFSIGNALED s"
proof -
  have m: "(0xFF :: u32) = mask 8" "(0xFFFF :: u32) = mask 16" by (simp_all add: mask_eq_exp_minus_1)
  from assms have z: "take_bit 8 s = 0" by (simp add: m take_bit_eq_mask)
  have "take_bit 8 (uint s) = uint (take_bit 8 s)" by (simp only: unsigned_take_bit_eq)
  then have "take_bit 8 (uint s) = 0" unfolding z by simp
  then have "uint s mod 256 = 0" by (simp add: take_bit_eq_mod)
  then obtain q where q: "uint s = 256 * q" by (auto simp: mod_eq_0_iff_dvd dvd_def)
  have "uint ((s - 1) AND 0xFFFF) = (uint s - 1) mod 2 ^ 32 mod 65536"
  proof -
    have "uint ((s - 1) AND 0xFFFF) = uint (take_bit 16 (s - 1))" by (simp only: m take_bit_eq_mask)
    also have "\<dots> = take_bit 16 (uint (s - 1))" by (simp only: unsigned_take_bit_eq)
    also have "uint (s - 1) = (uint s - 1) mod 2 ^ 32" by (simp add: uint_word_ariths)
    finally show ?thesis by (simp add: take_bit_eq_mod)
  qed
  also have "\<dots> = (256 * q - 1) mod 65536"
    unfolding q by (rule mod_mod_cancel) simp
  also have "\<dots> mod 256 = (256 * q - 1) mod 256" by (rule mod_mod_cancel) simp
  finally have u: "uint ((s - 1) AND 0xFFFF) mod 256 = (256 * q - 1) mod 256" by simp
  have "256 * q - 1 = 255 + 256 * (q - 1)" by simp
  then have "(256 * q - 1) mod 256 = 255" by (simp only: mod_mult_self2) simp
  with u have "uint ((s - 1) AND 0xFFFF) mod 256 = 255" by simp
  moreover have "uint ((s - 1) AND 0xFFFF) mod 256 \<le> uint ((s - 1) AND 0xFFFF)"
    by (rule zmod_le_nonneg_dividend) (rule unsigned_greater_eq)
  ultimately have "255 \<le> uint ((s - 1) AND 0xFFFF)" by (simp only:)
  then show ?thesis by (simp add: WIFSIGNALED_def word_less_def)
qed

text \<open>A parent can tell how its child ended: the status of \<^verbatim>\<open>exit(c)\<close> reads as
  an exit with status \<open>c\<close> modulo 256, that of a death by signal \<open>sig\<close> as a death by \<open>sig\<close>, that of
  a stop by \<open>sig\<close> as a stop by \<open>sig\<close>, and none reads as one of the other two.\<close>

theorem wait_status_decodes:
  fixes sig :: int
  assumes "1 \<le> sig" "sig \<le> 32"
  shows "(let s = of_int (exit_status c) in
            WIFEXITED s \<and> \<not> WIFSIGNALED s \<and> \<not> WIFSTOPPED s \<and> WEXITSTATUS s = of_int (c mod 256))
       \<and> (let s = of_int sig in
            \<not> WIFEXITED s \<and> WIFSIGNALED s \<and> \<not> WIFSTOPPED s \<and> WTERMSIG s = of_int sig)
       \<and> (let s = of_int (sig * 256) OR 0x7f in
            \<not> WIFEXITED s \<and> \<not> WIFSIGNALED s \<and> WIFSTOPPED s \<and> WSTOPSIG s = of_int sig)"
proof -
  have z: "(of_int (exit_status c) :: u32) AND 0xFF = 0"
    by (rule word_eqI_bits) (simp only: bit_and_iff exit_status_bits low_mask_bits bit_0_eq bot_apply bot_bool_def, arith)
  have c: "c mod 256 = take_bit 8 c" by (simp add: take_bit_eq_mod)
  have "WEXITSTATUS (of_int (exit_status c)) = of_int (c mod 256)"
    unfolding WEXITSTATUS_def c
    by (rule word_eqI_bits)
       (simp only: bit_and_iff bit_drop_bit_eq comp_apply exit_status_bits low_mask_bits bit_word_of_int_iff bit_take_bit_iff,
        auto)
  moreover have "WIFEXITED (of_int (exit_status c))" using z by (simp add: WIFEXITED_def)
  moreover have "\<not> WIFSTOPPED (of_int (exit_status c))" using z by (simp add: WIFSTOPPED_def)
  moreover have "sig \<in> set [1..32]" using assms by simp
  then have "sig = 1 \<or> sig = 2 \<or> sig = 3 \<or> sig = 4 \<or> sig = 5 \<or> sig = 6 \<or> sig = 7 \<or> sig = 8 \<or> sig = 9 \<or>
    sig = 10 \<or> sig = 11 \<or> sig = 12 \<or> sig = 13 \<or> sig = 14 \<or> sig = 15 \<or> sig = 16 \<or> sig = 17 \<or> sig = 18 \<or>
    sig = 19 \<or> sig = 20 \<or> sig = 21 \<or> sig = 22 \<or> sig = 23 \<or> sig = 24 \<or> sig = 25 \<or> sig = 26 \<or> sig = 27 \<or>
    sig = 28 \<or> sig = 29 \<or> sig = 30 \<or> sig = 31 \<or> sig = 32" using assms by presburger
  then have "(let s = of_int sig in
            \<not> WIFEXITED s \<and> WIFSIGNALED s \<and> \<not> WIFSTOPPED s \<and> WTERMSIG s = of_int sig)
       \<and> (let s = of_int (sig * 256) OR 0x7f in
            \<not> WIFEXITED s \<and> \<not> WIFSIGNALED s \<and> WIFSTOPPED s \<and> WSTOPSIG s = of_int sig)"
    by (elim disjE) (simp_all add: Let_def WIFEXITED_def WIFSIGNALED_def WIFSTOPPED_def WTERMSIG_def WSTOPSIG_def)
  ultimately show ?thesis using not_signaled[OF z] by (simp only: Let_def simp_thms)
qed

theorem wait_status_decodes_witness:
  "WIFEXITED (of_int (exit_status 261)) \<and> WEXITSTATUS (of_int (exit_status 261)) = 5 \<and>
   WTERMSIG (of_int SIGKILL) = 9"
  using wait_status_decodes[of 9 261] by (simp add: Let_def)

end
