(* ===== verification/Sys.thy ===== *)
theory Sys
  imports Exit
begin

section \<open>Identities, groups, time and limits\<close>

text \<open>
  \<^verbatim>\<open>kernel/sys.c\<close>. User and group numbers are 16-bit fields set from
  \<^verbatim>\<open>int\<close> arguments, so a comparison is made on integers and a store truncates.
  \<^verbatim>\<open>verify_area\<close> makes the pages of a buffer private to the process before they are
  written; it does not change what user memory contains (\<^verbatim>\<open>mm/memory.c\<close>'s
  \<open>un_wp_page\<close>) and is not repeated here. The name structure \<^verbatim>\<open>thisname\<close> is its 45
  bytes, \<^verbatim>\<open>nodename\<close> at offset 9.
\<close>

subsection \<open>User and group numbers\<close>

definition sys_setregid :: "int \<Rightarrow> int \<Rightarrow> kernel \<Rightarrow> int \<times> kernel" where
  "sys_setregid rgid egid k =
     (let set_egid = (\<lambda>k. if 0 < egid
            then if uint (t_gid (cur k)) = egid \<or> uint (t_egid (cur k)) = egid \<or> suser k
                 then (0, upd_cur (\<lambda>t. t\<lparr>t_egid := of_int egid, t_sgid := of_int egid\<rparr>) k)
                 else (- EPERM, k)
            else (0, k))
      in if 0 < rgid
         then if uint (t_gid (cur k)) = rgid \<or> suser k
              then set_egid (upd_cur (\<lambda>t. t\<lparr>t_gid := of_int rgid\<rparr>) k)
              else (- EPERM, k)
         else set_egid k)"

definition sys_setgid :: "int \<Rightarrow> kernel \<Rightarrow> int \<times> kernel" where
  "sys_setgid gid k =
     (if suser k
      then (0, upd_cur (\<lambda>t. t\<lparr>t_gid := of_int gid, t_egid := of_int gid, t_sgid := of_int gid\<rparr>) k)
      else if gid = uint (t_gid (cur k)) \<or> gid = uint (t_sgid (cur k))
      then (0, upd_cur (\<lambda>t. t\<lparr>t_egid := of_int gid\<rparr>) k)
      else (- EPERM, k))"

definition sys_setreuid :: "int \<Rightarrow> int \<Rightarrow> kernel \<Rightarrow> int \<times> kernel" where
  "sys_setreuid ruid euid k =
     (let old_ruid = t_uid (cur k);
          set_euid = (\<lambda>k. if 0 < euid
            then if uint old_ruid = euid \<or> uint (t_euid (cur k)) = euid \<or> suser k
                 then (0, upd_cur (\<lambda>t. t\<lparr>t_euid := of_int euid, t_suid := of_int euid\<rparr>) k)
                 else (- EPERM, upd_cur (\<lambda>t. t\<lparr>t_uid := old_ruid\<rparr>) k)
            else (0, k))
      in if 0 < ruid
         then if uint (t_euid (cur k)) = ruid \<or> uint old_ruid = ruid \<or> suser k
              then set_euid (upd_cur (\<lambda>t. t\<lparr>t_uid := of_int ruid\<rparr>) k)
              else (- EPERM, k)
         else set_euid k)"

definition sys_setuid :: "int \<Rightarrow> kernel \<Rightarrow> int \<times> kernel" where
  "sys_setuid uid k =
     (if suser k
      then (0, upd_cur (\<lambda>t. t\<lparr>t_uid := of_int uid, t_euid := of_int uid, t_suid := of_int uid\<rparr>) k)
      else if uid = uint (t_uid (cur k)) \<or> uid = uint (t_suid (cur k))
      then (0, upd_cur (\<lambda>t. t\<lparr>t_euid := of_int uid\<rparr>) k)
      else (- EPERM, k))"

subsection \<open>Sessions and process groups\<close>

definition sys_setpgid :: "int \<Rightarrow> int \<Rightarrow> kernel \<Rightarrow> int \<times> kernel" where
  "sys_setpgid pid pgid k =
     (let pid = (if pid = 0 then t_pid (cur k) else pid);
          pgid = (if pgid = 0 then t_pid (cur k) else pgid)
      in if pgid < 0 then (- EINVAL, k)
         else case List.find (\<lambda>i. present k i \<and> t_pid (tasks k i) = pid \<and>
                  (t_pptr (tasks k i) = Some (current k) \<or> i = current k)) [0..<NR_TASKS] of
           None \<Rightarrow> (- ESRCH, k)
         | Some i \<Rightarrow>
             if t_leader (tasks k i) \<noteq> 0 then (- EPERM, k)
             else if t_session (tasks k i) \<noteq> t_session (cur k) \<or>
                     pgid \<noteq> pid \<and> session_of_pgrp pgid k \<noteq> t_session (cur k)
             then (- EPERM, k)
             else (0, assign (Some i) (\<lambda>t. t\<lparr>t_pgrp := pgid\<rparr>) k))"

definition sys_getpgrp :: "kernel \<Rightarrow> int" where
  "sys_getpgrp k = t_pgrp (cur k)"

definition sys_setsid :: "kernel \<Rightarrow> int \<times> kernel" where
  "sys_setsid k =
     (if t_leader (cur k) \<noteq> 0 \<and> \<not> suser k then (- EPERM, k)
      else let k = upd_cur (\<lambda>t. t\<lparr>t_leader := 1, t_session := t_pid t, t_pgrp := t_pid t, t_tty := -1\<rparr>) k
           in (t_pgrp (cur k), k))"

subsection \<open>Supplementary groups\<close>

abbreviation (input) NGROUPS :: nat where "NGROUPS \<equiv> 32"
abbreviation (input) NOGROUP :: int where "NOGROUP \<equiv> -1"

fun getgroups_loop :: "nat \<Rightarrow> nat \<Rightarrow> int \<Rightarrow> u32 \<Rightarrow> kernel \<Rightarrow> int \<times> kernel" where
  "getgroups_loop 0 i gidsetsize grouplist k = (int i, k)"
| "getgroups_loop (Suc n) i gidsetsize grouplist k =
     (if t_groups (cur k) i = NOGROUP then (int i, k)
      else if gidsetsize \<noteq> 0 then
        if gidsetsize \<le> int i then (- EINVAL, k)
        else getgroups_loop n (Suc i) gidsetsize (grouplist + 2)
               (put_fs_word (of_int (t_groups (cur k) i)) grouplist k)
      else getgroups_loop n (Suc i) gidsetsize (grouplist + 2) k)"

definition sys_getgroups :: "int \<Rightarrow> u32 \<Rightarrow> kernel \<Rightarrow> int \<times> kernel" where
  "sys_getgroups gidsetsize grouplist k = getgroups_loop NGROUPS 0 gidsetsize grouplist k"

definition set_group :: "nat \<Rightarrow> int \<Rightarrow> kernel \<Rightarrow> kernel" where
  "set_group i g k = upd_cur (\<lambda>t. t\<lparr>t_groups := (t_groups t)(i := g)\<rparr>) k"

definition sys_setgroups :: "int \<Rightarrow> u32 \<Rightarrow> kernel \<Rightarrow> int \<times> kernel" where
  "sys_setgroups gidsetsize grouplist k =
     (if \<not> suser k then (- EPERM, k)
      else if int NGROUPS < gidsetsize then (- EINVAL, k)
      else
        let n = nat gidsetsize;
            k = fold (\<lambda>i k. set_group i (uint (get_fs_word (grouplist + 2 * of_nat i) k)) k) [0..<n] k
        in (0, if n < NGROUPS then set_group n NOGROUP k else k))"

fun in_groups :: "nat \<Rightarrow> nat \<Rightarrow> u16 \<Rightarrow> kernel \<Rightarrow> bool" where
  "in_groups 0 i grp k = False"
| "in_groups (Suc n) i grp k =
     (if t_groups (cur k) i = NOGROUP then False
      else if t_groups (cur k) i = uint grp then True
      else in_groups n (Suc i) grp k)"

definition in_group_p :: "u16 \<Rightarrow> kernel \<Rightarrow> bool" where
  "in_group_p grp k = (if grp = t_egid (cur k) then True else in_groups NGROUPS 0 grp k)"

subsection \<open>Time\<close>

definition sys_time :: "u32 \<Rightarrow> kernel \<Rightarrow> u32 \<times> kernel" where
  "sys_time tloc k =
     (let i = CURRENT_TIME k in (i, if tloc \<noteq> 0 then put_fs_long i tloc k else k))"

definition sys_stime :: "u32 \<Rightarrow> kernel \<Rightarrow> int \<times> kernel" where
  "sys_stime tptr k =
     (if \<not> suser k then (- EPERM, k)
      else (0, k\<lparr>startup_time := get_fs_long tptr k - jiffies k div 100, jiffies_offset := 0\<rparr>))"

definition sys_times :: "u32 \<Rightarrow> kernel \<Rightarrow> u32 \<times> kernel" where
  "sys_times tbuf k =
     (jiffies k,
      if tbuf \<noteq> 0 then
        put_fs_long (of_int (t_cstime (cur k))) (tbuf + 12)
         (put_fs_long (of_int (t_cutime (cur k))) (tbuf + 8)
           (put_fs_long (of_int (t_stime (cur k))) (tbuf + 4)
             (put_fs_long (of_int (t_utime (cur k))) tbuf k)))
      else k)"

definition CT_TO_SECS :: "u32 \<Rightarrow> u32" where
  "CT_TO_SECS x = x div 100"

definition CT_TO_USECS :: "u32 \<Rightarrow> u32" where
  "CT_TO_USECS x = (x mod 100) * 1000000 div 100"

text \<open>C's division of \<^verbatim>\<open>int\<close>s rounds towards zero.\<close>

definition cdiv :: "int \<Rightarrow> int \<Rightarrow> int" where
  "cdiv a b = sgn a * sgn b * (\<bar>a\<bar> div \<bar>b\<bar>)"

definition sys_gettimeofday :: "u32 \<Rightarrow> u32 \<Rightarrow> kernel \<Rightarrow> int \<times> kernel" where
  "sys_gettimeofday tv tz k =
     (let now = jiffies k + of_int (jiffies_offset k);
          k = (if tv \<noteq> 0 then put_fs_long (CT_TO_USECS now) (tv + 4)
                 (put_fs_long (startup_time k + CT_TO_SECS now) tv k) else k);
          k = (if tz \<noteq> 0 then put_fs_long (of_int (snd (sys_tz k))) (tz + 4)
                 (put_fs_long (of_int (fst (sys_tz k))) tz k) else k)
      in (0, k))"

definition adjust_clock :: "kernel \<Rightarrow> kernel" where
  "adjust_clock k = k\<lparr>startup_time := startup_time k + of_int (fst (sys_tz k) * 60)\<rparr>"

definition sys_settimeofday :: "u32 \<Rightarrow> u32 \<Rightarrow> kernel \<Rightarrow> int \<times> kernel" where
  "sys_settimeofday tv tz k =
     (if \<not> suser k then (- EPERM, k)
      else
        let k = (if tz \<noteq> 0 then
                  (let k = k\<lparr>sys_tz := (sint (get_fs_long tz k), sint (get_fs_long (tz + 4) k))\<rparr>
                   in if firsttime k
                      then (let k = k\<lparr>firsttime := False\<rparr> in if tv = 0 then adjust_clock k else k)
                      else k)
                 else k);
            k = (if tv \<noteq> 0 then
                  (let sec = get_fs_long tv k; usec = get_fs_long (tv + 4) k
                   in k\<lparr>startup_time := sec - jiffies k div 100,
                        jiffies_offset := sint (of_int (cdiv (sint (usec * 100)) 1000000) -
                                                jiffies k mod 100 :: u32)\<rparr>)
                 else k)
        in (0, k))"

subsection \<open>Memory break, limits, usage, names and mask\<close>

definition sys_brk :: "u32 \<Rightarrow> kernel \<Rightarrow> u32 \<times> kernel" where
  "sys_brk end_data_seg k =
     (let k = (if t_end_code (cur k) \<le> end_data_seg \<and> end_data_seg < t_start_stack (cur k) - 16384
               then upd_cur (\<lambda>t. t\<lparr>t_brk := end_data_seg\<rparr>) k else k)
      in (t_brk (cur k), k))"

abbreviation (input) RLIM_NLIMITS :: int where "RLIM_NLIMITS \<equiv> 6"

text \<open>The array \<^verbatim>\<open>rlim\<close> is a map of all integers: the code does not stop a negative
  index.\<close>

definition sys_getrlimit :: "int \<Rightarrow> u32 \<Rightarrow> kernel \<Rightarrow> int \<times> kernel" where
  "sys_getrlimit resource rlim k =
     (if RLIM_NLIMITS \<le> resource then (- EINVAL, k)
      else (0, put_fs_long (of_int (snd (t_rlim (cur k) resource))) (rlim + 4)
                (put_fs_long (of_int (fst (t_rlim (cur k) resource))) rlim k)))"

definition sys_setrlimit :: "int \<Rightarrow> u32 \<Rightarrow> kernel \<Rightarrow> int \<times> kernel" where
  "sys_setrlimit resource rlim k =
     (if RLIM_NLIMITS \<le> resource then (- EINVAL, k)
      else
        let old = t_rlim (cur k) resource;
            new = (sint (get_fs_long rlim k), sint (get_fs_long (rlim + 4) k))
        in if (snd old < fst new \<or> snd old < snd new) \<and> \<not> suser k then (- EPERM, k)
           else (0, upd_cur (\<lambda>t. t\<lparr>t_rlim := (t_rlim t)(resource := new)\<rparr>) k))"

text \<open>\<^verbatim>\<open>struct rusage\<close> as its eighteen longs, of which the code fills four.\<close>

definition rusage_longs :: "int \<Rightarrow> kernel \<Rightarrow> int list" where
  "rusage_longs who k =
     (let (u, s) = (if who = 0 then (t_utime (cur k), t_stime (cur k))
                    else (t_cutime (cur k), t_cstime (cur k)))
      in [cdiv u 100, cdiv ((u - 100 * cdiv u 100) * 1000000) 100,
          cdiv s 100, cdiv ((s - 100 * cdiv s 100) * 1000000) 100] @ replicate 14 0)"

fun put_fs_longs :: "u32 list \<Rightarrow> u32 \<Rightarrow> kernel \<Rightarrow> kernel" where
  "put_fs_longs [] a k = k"
| "put_fs_longs (v # vs) a k = put_fs_longs vs (a + 4) (put_fs_long v a k)"

definition sys_getrusage :: "int \<Rightarrow> u32 \<Rightarrow> kernel \<Rightarrow> int \<times> kernel" where
  "sys_getrusage who ru k =
     (if who \<noteq> 0 \<and> who \<noteq> -1 then (- EINVAL, k)
      else (0, put_fs_longs (map of_int (rusage_longs who k)) ru k))"

abbreviation (input) MAXHOSTNAMELEN :: int where "MAXHOSTNAMELEN \<equiv> 8"
abbreviation (input) nodename :: nat where "nodename \<equiv> 9"

definition sys_uname :: "u32 \<Rightarrow> kernel \<Rightarrow> int \<times> kernel" where
  "sys_uname name k =
     (if name = 0 then (- ERROR, k)
      else (0, fold (\<lambda>i k. put_fs_byte (thisname k i) (of_nat i + name) k) [0..<45] k))"

text \<open>The loop of \<^verbatim>\<open>sys_sethostname\<close>; it returns the index \<^verbatim>\<open>i\<close> it stops at.\<close>

fun hostname_loop :: "nat \<Rightarrow> nat \<Rightarrow> u32 \<Rightarrow> kernel \<Rightarrow> nat \<times> kernel" where
  "hostname_loop 0 i name k = (i, k)"
| "hostname_loop (Suc n) i name k =
     (let c = get_fs_byte (name + of_nat i) k;
          k = k\<lparr>thisname := (thisname k)(nodename + i := c)\<rparr>
      in if c = 0 then (i, k) else hostname_loop n (Suc i) name k)"

definition sys_sethostname :: "u32 \<Rightarrow> int \<Rightarrow> kernel \<Rightarrow> int \<times> kernel" where
  "sys_sethostname name len k =
     (if \<not> suser k then (- EPERM, k)
      else if MAXHOSTNAMELEN < len then (- EINVAL, k)
      else
        let (i, k) = hostname_loop (nat len) 0 name k
        in (0, if thisname k (nodename + i) \<noteq> 0
               then k\<lparr>thisname := (thisname k)(nodename + (if nat MAXHOSTNAMELEN < i then nat MAXHOSTNAMELEN else i) := 0)\<rparr>
               else k))"

definition sys_umask :: "int \<Rightarrow> kernel \<Rightarrow> int \<times> kernel" where
  "sys_umask msk k =
     (uint (t_umask (cur k)), upd_cur (\<lambda>t. t\<lparr>t_umask := of_int msk AND 0x1FF\<rparr>) k)"

text \<open>Calls that are not implemented (\<^verbatim>\<open>ftime\<close>, \<^verbatim>\<open>break\<close>,
  \<^verbatim>\<open>ptrace\<close>, \<^verbatim>\<open>stty\<close>, \<^verbatim>\<open>gtty\<close>,
  \<^verbatim>\<open>rename\<close>, \<^verbatim>\<open>prof\<close>, \<^verbatim>\<open>acct\<close>,
  \<^verbatim>\<open>phys\<close>, \<^verbatim>\<open>lock\<close>, \<^verbatim>\<open>mpx\<close>,
  \<^verbatim>\<open>ulimit\<close>).\<close>

definition sys_nosys :: "kernel \<Rightarrow> int \<times> kernel" where
  "sys_nosys k = (- ENOSYS, k)"

end
