(* ===== verification/Sys_Props.thy ===== *)
theory Sys_Props
  imports Sys Exit_Props
begin

section \<open>Properties of identities, groups and time\<close>

text \<open>
  A process without privileges cannot gain a user number it does not hold, whatever sequence
  of \<^verbatim>\<open>setuid\<close> and \<^verbatim>\<open>setreuid\<close> it calls; membership after
  \<^verbatim>\<open>setgroups\<close>; setting the clock and reading it back.
\<close>

subsection \<open>Reading the current process\<close>

lemma cur_upd_cur [simp]: "cur (upd_cur f k) = f (cur k)"
  by (simp add: cur_def upd_cur_def assign_def)

lemma upd_cur_simps [simp]:
  "current (upd_cur f k) = current k" "umem (upd_cur f k) = umem k" "jiffies (upd_cur f k) = jiffies k"
  "present (upd_cur f k) = present k"
  by (simp_all add: upd_cur_def assign_def)

lemma suser_upd_cur [simp]: "suser (upd_cur f k) \<longleftrightarrow> t_euid (f (cur k)) = 0"
  by (simp add: suser_def)

subsection \<open>User numbers\<close>

datatype cred_call = Setuid int | Setreuid int int

fun do_cred :: "cred_call \<Rightarrow> kernel \<Rightarrow> kernel" where
  "do_cred (Setuid u) k = snd (sys_setuid u k)"
| "do_cred (Setreuid r e) k = snd (sys_setreuid r e k)"

definition uids :: "task_struct \<Rightarrow> u16 set" where
  "uids t = {t_uid t, t_euid t, t_suid t}"

lemma of_int_eq_uint: "uint (x :: u16) = i \<Longrightarrow> of_int i = x"
  by auto

lemma setuid_uids: "t_euid (cur k) \<noteq> 0 \<Longrightarrow> uids (cur (snd (sys_setuid u k))) \<subseteq> uids (cur k)"
  by (auto simp: sys_setuid_def suser_def uids_def)

lemma setreuid_uids: "t_euid (cur k) \<noteq> 0 \<Longrightarrow> uids (cur (snd (sys_setreuid r e k))) \<subseteq> uids (cur k)"
  by (auto simp: sys_setreuid_def Let_def suser_def uids_def dest!: of_int_eq_uint split: if_splits)

lemma do_cred_uids: "t_euid (cur k) \<noteq> 0 \<Longrightarrow> uids (cur (do_cred c k)) \<subseteq> uids (cur k)"
  by (cases c) (simp_all add: setuid_uids setreuid_uids)

text \<open>C32. A process none of whose user numbers is 0 never gets a user number it did not
  hold, in particular not that of the superuser, by any sequence of \<^verbatim>\<open>setuid\<close> and
  \<^verbatim>\<open>setreuid\<close> calls.\<close>

theorem cred_calls_gain_nothing:
  assumes "0 \<notin> uids (cur k)"
  shows "uids (cur (fold do_cred cs k)) \<subseteq> uids (cur k) \<and> \<not> suser (fold do_cred cs k)"
proof -
  have "uids (cur (fold do_cred cs k)) \<subseteq> uids (cur k)" using assms
  proof (induction cs arbitrary: k)
    case (Cons c cs)
    then have "t_euid (cur k) \<noteq> 0" by (auto simp: uids_def)
    from do_cred_uids[OF this, of c] have sub: "uids (cur (do_cred c k)) \<subseteq> uids (cur k)" .
    with Cons.prems have "0 \<notin> uids (cur (do_cred c k))" by blast
    from Cons.IH[OF this] sub show ?case by auto
  qed simp
  moreover have "\<not> suser k'" if "uids (cur k') \<subseteq> uids (cur k)" for k'
    using assms that by (auto simp: suser_def uids_def)
  ultimately show ?thesis by blast
qed

definition user_kernel :: kernel where
  "user_kernel = kernel0\<lparr>current := 1, tasks := (\<lambda>_. task0\<lparr>t_uid := 5, t_euid := 7, t_suid := 7\<rparr>)\<rparr>"

theorem cred_calls_gain_nothing_witness:
  "uids (cur (fold do_cred [Setuid 5, Setuid 0, Setreuid 7 5] user_kernel)) \<subseteq> {5, 7}"
proof -
  have u: "uids (cur user_kernel) = {5, 7}" by (simp add: uids_def user_kernel_def cur_def)
  have "0 \<notin> uids (cur user_kernel)" by (simp add: u)
  from cred_calls_gain_nothing[OF this, of "[Setuid 5, Setuid 0, Setreuid 7 5]"] show ?thesis
    unfolding u by blast
qed

subsection \<open>Supplementary groups\<close>

lemma in_groups_iff:
  "in_groups m i grp k \<longleftrightarrow> (\<exists>j. i \<le> j \<and> j < i + m \<and> t_groups (cur k) j = uint grp \<and>
     (\<forall>l. i \<le> l \<longrightarrow> l < j \<longrightarrow> t_groups (cur k) l \<noteq> NOGROUP))"
proof (induction m arbitrary: i)
  case (Suc m)
  have "0 \<le> uint grp" by simp
  then have ng: "uint grp \<noteq> NOGROUP" by linarith
  show ?case
  proof (cases "t_groups (cur k) i = NOGROUP \<or> t_groups (cur k) i = uint grp")
    case True
    then show ?thesis using ng by (auto intro!: exI[of _ i]) (metis le_neq_implies_less)
  next
    case False
    then have "in_groups (Suc m) i grp k = in_groups m (Suc i) grp k" by simp
    also have "\<dots> \<longleftrightarrow> (\<exists>j. i \<le> j \<and> j < i + Suc m \<and> t_groups (cur k) j = uint grp \<and>
       (\<forall>l. i \<le> l \<longrightarrow> l < j \<longrightarrow> t_groups (cur k) l \<noteq> NOGROUP))"
      unfolding Suc.IH using False by (metis Suc_leD Suc_leI add_Suc_right add_Suc le_neq_implies_less)
    finally show ?thesis .
  qed
qed simp

lemma set_group_simps [simp]:
  "umem (set_group i g k) = umem k"
  "cur (set_group i g k) = (cur k)\<lparr>t_groups := (t_groups (cur k))(i := g)\<rparr>"
  by (simp_all add: set_group_def)

lemma set_groups_loop:
  fixes f :: "nat \<Rightarrow> u32"
  defines "F \<equiv> (\<lambda>i k. set_group i (uint (get_fs_word (f i) k)) k)"
  shows "umem (fold F [0..<n] k) = umem k \<and>
    (\<forall>i. t_groups (cur (fold F [0..<n] k)) i =
       (if i < n then uint (get_fs_word (f i) k) else t_groups (cur k) i)) \<and>
    t_egid (cur (fold F [0..<n] k)) = t_egid (cur k)"
proof (induction n)
  case (Suc n)
  have "fold F [0..<Suc n] k = F n (fold F [0..<n] k)" by simp
  with Suc show ?case by (simp add: F_def get_fs_word_def)
qed simp

text \<open>After the superuser has set its supplementary groups to a list of at most 32
  numbers in user memory, \<^verbatim>\<open>in_group_p\<close> holds for the effective group and for
  exactly the groups on the list.\<close>

theorem setgroups_members:
  assumes "suser k" and "n \<le> 32" and "sys_setgroups (int n) a k = (r, k')"
  shows "r = 0 \<and>
    (in_group_p g k' \<longleftrightarrow> g = t_egid (cur k) \<or> (\<exists>i < n. get_fs_word (a + 2 * of_nat i) k = g))"
proof -
  define k1 where "k1 = fold (\<lambda>i k. set_group i (uint (get_fs_word (a + 2 * of_nat i) k)) k) [0..<n] k"
  note l = set_groups_loop[where f = "\<lambda>i. a + 2 * of_nat i" and n = n and k = k, folded k1_def]
  have k': "r = 0" "k' = (if n < 32 then set_group n NOGROUP k1 else k1)"
    using assms by (auto simp: sys_setgroups_def k1_def Let_def)
  have g: "t_groups (cur k') i = uint (get_fs_word (a + 2 * of_nat i) k)" if "i < n" for i
    using l that by (simp add: k'(2))
  have e: "t_egid (cur k') = t_egid (cur k)" using l by (simp add: k'(2))
  have nn: "t_groups (cur k') i \<noteq> NOGROUP" if "i < n" for i
  proof -
    have "0 \<le> uint (get_fs_word (a + 2 * of_nat i) k)" by simp
    with g[OF that] show ?thesis by linarith
  qed
  have stop: "n < 32 \<Longrightarrow> t_groups (cur k') n = NOGROUP" by (simp add: k'(2))
  have "in_groups NGROUPS 0 g k' \<longleftrightarrow> (\<exists>j < n. t_groups (cur k') j = uint g)"
  proof
    assume "in_groups NGROUPS 0 g k'"
    then obtain j where j: "j < 32" "t_groups (cur k') j = uint g"
      "\<forall>l. l < j \<longrightarrow> t_groups (cur k') l \<noteq> NOGROUP" by (auto simp: in_groups_iff)
    have "0 \<le> uint g" by simp
    then have "uint g \<noteq> NOGROUP" by linarith
    with j stop have "j < n" using assms(2) by (metis linorder_neqE_nat order_less_trans)
    with j show "\<exists>j < n. t_groups (cur k') j = uint g" by blast
  next
    assume "\<exists>j < n. t_groups (cur k') j = uint g"
    then obtain j where "j < n" "t_groups (cur k') j = uint g" by blast
    with nn assms(2) show "in_groups NGROUPS 0 g k'" unfolding in_groups_iff
      by (intro exI[of _ j]) auto
  qed
  also have "\<dots> \<longleftrightarrow> (\<exists>j < n. get_fs_word (a + 2 * of_nat j) k = g)"
    using g by (metis word_uint_eq_iff)
  finally show ?thesis by (auto simp: in_group_p_def e k'(1))
qed

theorem setgroups_members_witness:
  "in_group_p 9 (snd (sys_setgroups 1 100 (put_fs_word 9 100 kernel0)))"
proof -
  define k where "k = put_fs_word 9 100 kernel0"
  have s: "suser k" by (simp add: k_def suser_def cur_def kernel0_def task0_def)
  obtain r k' where e: "sys_setgroups (int 1) 100 k = (r, k')" by fastforce
  have "get_fs_word (100 + 2 * of_nat 0) k = 9" by (simp add: k_def get_put_fs_word)
  then have "\<exists>i < 1. get_fs_word (100 + 2 * of_nat i) k = 9" by blast
  with setgroups_members[OF s _ e, of 9] have "in_group_p 9 k'" by simp
  with e show ?thesis by (simp add: k_def)
qed

subsection \<open>The clock\<close>

lemma cdiv_nonneg: "0 \<le> a \<Longrightarrow> 0 < b \<Longrightarrow> cdiv a b = a div b"
  by (auto simp: cdiv_def sgn_if)

lemma sint_of_nat_small: "n < 2 ^ 31 \<Longrightarrow> sint (of_nat n :: u32) = int n"
  by (simp add: signed_of_nat signed_take_bit_int_eq_self)

lemma word_of_unat: "of_nat (unat x) = (x :: 'a::len word)"
  by simp

text \<open>The number of ticks \<^verbatim>\<open>jiffies + jiffies_offset\<close> after the clock is set.\<close>

lemma clock_ticks:
  fixes j usec :: u32
  assumes usec: "usec < 1000000" and j: "j < 4294967200"
  defines "off \<equiv> sint (of_int (cdiv (sint (usec * 100)) 1000000) - j mod 100 :: u32)"
  shows "(j + of_int off) div 100 = j div 100"
    and "(j + of_int off) mod 100 * 1000000 div 100 = (usec div 10000) * 10000"
proof -
  define J where "J = unat j"
  define U where "U = unat usec div 10000"
  have us: "unat usec < 1000000" using usec by (simp add: word_less_nat_alt)
  have J: "J < 4294967200" using j by (simp add: word_less_nat_alt J_def)
  have U: "U < 100" using us by (simp add: U_def div_less_iff_less_mult)
  have eqj: "j = of_nat J" by (simp add: J_def)
  have "usec * 100 = of_nat (unat usec * 100)" by simp
  moreover have "unat usec * 100 < 2 ^ 31" using us by simp
  ultimately have s: "sint (usec * 100) = int (unat usec * 100)"
    using sint_of_nat_small by (simp only:)
  have "cdiv (sint (usec * 100)) 1000000 = int (unat usec * 100) div 1000000"
    unfolding s by (rule cdiv_nonneg) simp_all
  also have "\<dots> = int (unat usec * 100 div 1000000)" by (simp only: zdiv_int of_nat_numeral)
  also have "unat usec * 100 div 1000000 = U" unfolding U_def by simp
  finally have c: "cdiv (sint (usec * 100)) 1000000 = int U" .
  have m: "j mod 100 = of_nat (J mod 100)" by (simp add: word_arith_nat_mod J_def)
  have off: "of_int off = (of_nat U - of_nat (J mod 100) :: u32)"
    by (simp add: off_def c m)
  have now: "j + of_int off = of_nat (100 * (J div 100) + U)"
  proof -
    have "(of_nat J :: u32) = of_nat (100 * (J div 100) + J mod 100)" by simp
    then have "(of_nat J :: u32) = of_nat (100 * (J div 100)) + of_nat (J mod 100)"
      by (simp only: of_nat_add)
    then show ?thesis unfolding off eqj by (simp add: algebra_simps)
  qed
  have "100 * (J div 100) \<le> J" by simp
  moreover have "J div 100 < 42949672" using J by (simp add: div_less_iff_less_mult)
  ultimately have "100 * (J div 100) + U < 4294967296" using U by linarith
  then have small: "100 * (J div 100) + U < 2 ^ 32" by simp
  have un: "unat (j + of_int off) = 100 * (J div 100) + U"
    unfolding now using small by (simp only: unat_of_nat) simp
  have "unat ((j + of_int off) div 100) = unat (j div 100)"
    using un U by (simp add: unat_div J_def)
  then show "(j + of_int off) div 100 = j div 100" by (simp only: word_unat_eq_iff)
  have "(j + of_int off) mod 100 = of_nat U"
    using un U by (simp add: word_arith_nat_mod)
  moreover have "of_nat U * 1000000 div 100 = (of_nat (U * 10000) :: u32)"
  proof -
    have "of_nat U * 1000000 = (of_nat (U * 1000000) :: u32)" by simp
    moreover have "unat (of_nat (U * 1000000) :: u32) = U * 1000000"
      using U by (simp only: unat_of_nat) simp
    moreover have "unat (of_nat (U * 10000) :: u32) = U * 10000"
      using U by (simp only: unat_of_nat) simp
    ultimately show ?thesis by (simp only: word_unat_eq_iff unat_div) simp
  qed
  moreover have "of_nat (U * 10000) = (usec div 10000) * (10000 :: u32)"
    by (simp add: U_def word_arith_nat_div)
  ultimately show "(j + of_int off) mod 100 * 1000000 div 100 = (usec div 10000) * 10000" by simp
qed

text \<open>Longs four apart do not overlap.\<close>

lemma get_fs_long_put_other:
  "get_fs_long a (put_fs_long v (a + 4) k) = get_fs_long a k"
  "get_fs_long (a + 4) (put_fs_long v a k) = get_fs_long (a + 4) k"
proof -
  have ne: "a \<noteq> a + c" "a + c \<noteq> a" if "c \<noteq> 0" for a c :: u32 using that by simp_all
  show "get_fs_long a (put_fs_long v (a + 4) k) = get_fs_long a k"
    by (simp add: get_fs_long_def put_fs_long_def add.assoc)
  show "get_fs_long (a + 4) (put_fs_long v a k) = get_fs_long (a + 4) k"
    by (simp add: get_fs_long_def put_fs_long_def add.assoc)
qed

text \<open>After the superuser has set the clock to \<open>sec\<close> seconds and \<open>usec\<close> microseconds,
  reading it at the same tick gives \<open>sec\<close> and \<open>usec\<close> rounded down to hundredths of a second
  (before the tick counter is about to wrap).\<close>

theorem settimeofday_gettimeofday:
  assumes su: "suser k" and tv: "tv \<noteq> 0" "tv' \<noteq> 0"
    and usec: "get_fs_long (tv + 4) k = usec" "usec < 1000000" and j: "jiffies k < 4294967200"
  shows "let k' = snd (sys_gettimeofday tv' 0 (snd (sys_settimeofday tv 0 k))) in
    get_fs_long tv' k' = get_fs_long tv k \<and> get_fs_long (tv' + 4) k' = (usec div 10000) * 10000"
proof -
  define k1 where "k1 = snd (sys_settimeofday tv 0 k)"
  have k1: "startup_time k1 = get_fs_long tv k - jiffies k div 100" "jiffies k1 = jiffies k"
    "jiffies_offset k1 = sint (of_int (cdiv (sint (usec * 100)) 1000000) - jiffies k mod 100 :: u32)"
    using su tv usec(1) by (simp_all add: k1_def sys_settimeofday_def Let_def)
  define now where "now = jiffies k1 + of_int (jiffies_offset k1)"
  have k2: "snd (sys_gettimeofday tv' 0 k1) =
      put_fs_long (CT_TO_USECS now) (tv' + 4) (put_fs_long (startup_time k1 + CT_TO_SECS now) tv' k1)"
    using tv by (simp add: sys_gettimeofday_def Let_def now_def)
  have sec: "CT_TO_SECS now = jiffies k div 100"
    unfolding CT_TO_SECS_def now_def k1(2) k1(3) by (rule clock_ticks(1)[OF usec(2) j])
  have us: "CT_TO_USECS now = (usec div 10000) * 10000"
    unfolding CT_TO_USECS_def now_def k1(2) k1(3) by (rule clock_ticks(2)[OF usec(2) j])
  show ?thesis
    unfolding k1_def[symmetric] k2 Let_def
    by (simp add: get_put_fs_long get_fs_long_put_other sec us k1(1))
qed

theorem settimeofday_gettimeofday_witness:
  "let k = put_fs_longs [1000, 129999] 200 (kernel0\<lparr>jiffies := 777\<rparr>);
       k' = snd (sys_gettimeofday 300 0 (snd (sys_settimeofday 200 0 k))) in
    get_fs_long 300 k' = 1000 \<and> get_fs_long 304 k' = 120000"
proof -
  define k where "k = put_fs_longs [1000, 129999] 200 (kernel0\<lparr>jiffies := 777\<rparr>)"
  have "suser k" by (simp add: k_def suser_def cur_def kernel0_def task0_def)
  moreover have l: "get_fs_long (200 + 4) k = 129999" "get_fs_long 200 k = 1000"
    using get_fs_long_put_other(1)[of 200]
    by (simp_all add: k_def get_put_fs_long)
  moreover have "jiffies k < 4294967200" by (simp add: k_def put_fs_long_def)
  ultimately have "let k' = snd (sys_gettimeofday 300 0 (snd (sys_settimeofday 200 0 k))) in
    get_fs_long 300 k' = 1000 \<and> get_fs_long 304 k' = 120000"
    using settimeofday_gettimeofday[of k 200 300 129999] by simp
  then show ?thesis unfolding k_def Let_def .
qed

end
