(* ===== verification/Signals.thy ===== *)
theory Signals
  imports Sys
begin

section \<open>Signal handling\<close>

text \<open>
  \<^verbatim>\<open>kernel/signal.c\<close>: masks, installing handlers, and \<^verbatim>\<open>do_signal\<close>,
  which the return path of a system call runs for a pending signal with the registers the
  system call saved (\<open>frame\<close>). \<^verbatim>\<open>do_exit\<close> is the result \<open>Killed\<close> with the exit code
  it is called with.
\<close>

abbreviation (input) SA_NOCLDSTOP :: nat where "SA_NOCLDSTOP \<equiv> 0"
abbreviation (input) SA_INTERRUPT :: nat where "SA_INTERRUPT \<equiv> 29"
abbreviation (input) SA_NOMASK :: nat where "SA_NOMASK \<equiv> 30"
abbreviation (input) SA_ONESHOT :: nat where "SA_ONESHOT \<equiv> 31"

subsection \<open>Masks\<close>

definition sys_sgetmask :: "kernel \<Rightarrow> u32" where
  "sys_sgetmask k = t_blocked (cur k)"

definition sys_ssetmask :: "u32 \<Rightarrow> kernel \<Rightarrow> u32 \<times> kernel" where
  "sys_ssetmask newmask k =
     (t_blocked (cur k),
      upd_cur (\<lambda>t. t\<lparr>t_blocked := newmask AND NOT (sigbit SIGKILL) AND NOT (sigbit SIGSTOP)\<rparr>) k)"

definition sys_sigpending :: "u32 \<Rightarrow> kernel \<Rightarrow> int \<times> kernel" where
  "sys_sigpending buf k = (0, put_fs_long (t_blocked (cur k) AND t_signal (cur k)) buf k)"

text \<open>
  \<^verbatim>\<open>sys_sigsuspend\<close> writes its own arguments (they lie in the frame of the system call, so
  that a restarted call finds them): they are part of the result. The state after the call is
  the one in which another process has been chosen.
\<close>

definition sys_sigsuspend ::
    "bool \<Rightarrow> u32 \<Rightarrow> u32 \<Rightarrow> kernel \<Rightarrow> (int \<times> bool \<times> u32 \<times> kernel) option" where
  "sys_sigsuspend restart old_mask new k =
     (if restart then Some (- EINTR, restart, old_mask, upd_cur (\<lambda>t. t\<lparr>t_blocked := old_mask\<rparr>) k)
      else let old_mask = t_blocked (cur k);
               k = upd_cur (\<lambda>t. t\<lparr>t_blocked := new\<rparr>) k
           in map_option (\<lambda>k. (- ERESTARTNOINTR, True, old_mask, k)) (sys_pause k))"

subsection \<open>Installing a handler\<close>

text \<open>The bytes of a \<^verbatim>\<open>struct sigaction\<close>, four little-endian longs.\<close>

definition sigact_byte :: "sigact \<Rightarrow> nat \<Rightarrow> u8" where
  "sigact_byte sa i =
     (let v = (if i < 4 then sa_handler sa else if i < 8 then sa_mask sa
               else if i < 12 then sa_flags sa else sa_restorer sa)
      in ucast (drop_bit (8 * (i mod 4)) v))"

definition save_old :: "sigact \<Rightarrow> u32 \<Rightarrow> kernel \<Rightarrow> kernel" where
  "save_old sa to k = fold (\<lambda>i. put_fs_byte (sigact_byte sa i) (to + of_nat i)) [0..<16] k"

definition long_of_bytes :: "(nat \<Rightarrow> u8) \<Rightarrow> nat \<Rightarrow> u32" where
  "long_of_bytes b i =
     ucast (b i) OR push_bit 8 (ucast (b (i + 1))) OR
     push_bit 16 (ucast (b (i + 2))) OR push_bit 24 (ucast (b (i + 3)))"

definition get_new :: "u32 \<Rightarrow> kernel \<Rightarrow> sigact" where
  "get_new fr k =
     (let b = (\<lambda>i. get_fs_byte (fr + of_nat i) k)
      in \<lparr>sa_handler = long_of_bytes b 0, sa_mask = long_of_bytes b 4,
          sa_flags = long_of_bytes b 8, sa_restorer = long_of_bytes b 12\<rparr>)"

definition set_sigaction :: "int \<Rightarrow> sigact \<Rightarrow> kernel \<Rightarrow> kernel" where
  "set_sigaction signum sa k =
     upd_cur (\<lambda>t. t\<lparr>t_sigaction := (t_sigaction t)(signum - 1 := sa)\<rparr>) k"

definition sys_signal :: "int \<Rightarrow> u32 \<Rightarrow> u32 \<Rightarrow> kernel \<Rightarrow> int \<times> kernel" where
  "sys_signal signum handler restorer k =
     (if signum < 1 \<or> 32 < signum \<or> signum = SIGKILL \<or> signum = SIGSTOP then (- EINVAL, k)
      else
        let tmp = \<lparr>sa_handler = handler, sa_mask = 0,
                   sa_flags = push_bit SA_ONESHOT 1 OR push_bit SA_NOMASK 1, sa_restorer = restorer\<rparr>;
            old = sa_handler (t_sigaction (cur k) (signum - 1))
        in (sint old, set_sigaction signum tmp k))"

definition sys_sigaction :: "int \<Rightarrow> u32 \<Rightarrow> u32 \<Rightarrow> kernel \<Rightarrow> int \<times> kernel" where
  "sys_sigaction signum action oldaction k =
     (if signum < 1 \<or> 32 < signum \<or> signum = SIGKILL \<or> signum = SIGSTOP then (- EINVAL, k)
      else
        let tmp = t_sigaction (cur k) (signum - 1);
            k = set_sigaction signum (get_new action k) k;
            k = (if oldaction \<noteq> 0 then save_old tmp oldaction k else k);
            sa = t_sigaction (cur k) (signum - 1)
        in (0, if bit (sa_flags sa) SA_NOMASK
               then set_sigaction signum (sa\<lparr>sa_mask := 0\<rparr>) k
               else set_sigaction signum (sa\<lparr>sa_mask := sa_mask sa OR sigbit signum\<rparr>) k))"

subsection \<open>Delivering a signal\<close>

record frame =
  r_eax :: u32
  r_ecx :: u32
  r_edx :: u32
  r_orig_eax :: u32
  r_eip :: u32
  r_eflags :: u32
  r_esp :: u32

definition core_dump :: "int \<Rightarrow> int" where
  "core_dump signr = 0"

text \<open>The restart of an interrupted system call: the value it returns, or its number again
  with the instruction pointer back on the \<^verbatim>\<open>int 0x80\<close>.\<close>

definition restart_call :: "int \<Rightarrow> sigact \<Rightarrow> frame \<Rightarrow> frame" where
  "restart_call signr sa f =
     (if r_orig_eax f \<noteq> -1 \<and> (r_eax f = of_int (- ERESTARTSYS) \<or> r_eax f = of_int (- ERESTARTNOINTR))
      then if r_eax f = of_int (- ERESTARTSYS) \<and>
              (bit (sa_flags sa) SA_INTERRUPT \<or> signr < SIGCONT \<or> SIGTTOU < signr)
           then f\<lparr>r_eax := of_int (- EINTR)\<rparr>
           else f\<lparr>r_eax := r_orig_eax f, r_eip := r_eip f - 2\<rparr>
      else f)"

definition stop_self :: "int \<Rightarrow> kernel \<Rightarrow> kernel" where
  "stop_self signr k =
     (let k = upd_cur (\<lambda>t. t\<lparr>t_state := TASK_STOPPED, t_exit_code := signr\<rparr>) k;
          p = t_pptr (cur k)
      in if \<not> bit (sa_flags (t_sigaction (deref k p) (SIGCHLD - 1))) SA_NOCLDSTOP
         then assign p (\<lambda>t. t\<lparr>t_signal := t_signal t OR sigbit SIGCHLD\<rparr>) k else k)"

definition frame_longs :: "int \<Rightarrow> sigact \<Rightarrow> u32 \<Rightarrow> frame \<Rightarrow> u32 list" where
  "frame_longs signr sa blocked f =
     [sa_restorer sa, of_int signr] @ (if bit (sa_flags sa) SA_NOMASK then [] else [blocked]) @
     [r_eax f, r_ecx f, r_edx f, r_eflags f, r_eip f]"

definition do_signal :: "int \<Rightarrow> frame \<Rightarrow> kernel \<Rightarrow> (frame \<times> kernel, bool) res" where
  "do_signal signr f k =
     (let sa = t_sigaction (cur k) (signr - 1);
          f = restart_call signr sa f;
          old_eip = r_eip f;
          handler = sa_handler sa
      in if handler = 1 then retK True (f, k)
         else if handler = 0 then
           (if signr = SIGCONT \<or> signr = SIGCHLD then retK True (f, k)
            else if signr = SIGSTOP \<or> signr = SIGTSTP \<or> signr = SIGTTIN \<or> signr = SIGTTOU
            then retK True (f, stop_self signr k)
            else if (signr = SIGQUIT \<or> signr = SIGILL \<or> signr = SIGTRAP \<or> signr = SIGIOT \<or>
                     signr = SIGFPE \<or> signr = SIGSEGV) \<and> core_dump signr \<noteq> 0
            then stopK (Killed (nat signr OR 0x80)) (f, k)
            else stopK (Killed (nat signr)) (f, k))
         else
           let k = (if bit (sa_flags sa) SA_ONESHOT
                    then set_sigaction signr (sa\<lparr>sa_handler := 0\<rparr>) k else k);
               vs = frame_longs signr sa (t_blocked (cur k)) f;
               f = f\<lparr>r_eip := handler, r_esp := r_esp f - 4 * of_nat (length vs)\<rparr>;
               k = put_fs_longs vs (r_esp f) k
           in retK False (f, upd_cur (\<lambda>t. t\<lparr>t_blocked := t_blocked t OR sa_mask sa\<rparr>) k))"

end
