(* ===== verification/Signals_Props.thy ===== *)
theory Signals_Props
  imports Signals Sys_Props
begin

section \<open>Properties of signal handling\<close>

text \<open>
  The default actions of \<^verbatim>\<open>SIGKILL\<close> and \<^verbatim>\<open>SIGSTOP\<close> cannot be
  replaced; an installed handler is read back as it was installed; what a handler finds on the
  user stack; which mask bits the calls can set.
\<close>

subsection \<open>Longs in user memory\<close>





lemma put_fs_longs_cur [simp]: "cur (put_fs_longs vs a k) = cur k"
  by (induction vs arbitrary: a k) (auto simp: cur_def)

lemma put_fs_longs_umem_upd [simp]:
  "get_fs_long a (upd_cur f k) = get_fs_long a k"
  by (simp add: get_fs_long_def)

lemma set_sigaction_cur [simp]:
  "cur (set_sigaction s sa k) = (cur k)\<lparr>t_sigaction := (t_sigaction (cur k))(s - 1 := sa)\<rparr>"
  by (simp add: set_sigaction_def)

subsection \<open>The stack frame of a handler\<close>





subsection \<open>Installing and reading back a handler\<close>

lemma fold_put_bytes:
  "umem (fold (\<lambda>i. put_fs_byte (f i) (a + of_nat i)) [0..<n] k) b =
     (if unat (b - a) < n then f (unat (b - a)) else umem k b)" if "n \<le> 2 ^ 31"
  using that
proof (induction n)
  case (Suc n)
  have u: "unat (of_nat n :: u32) = n" using Suc.prems by (simp only: unat_of_nat) simp
  have "b = a + of_nat n \<longleftrightarrow> unat (b - a) = n"
  proof
    assume "unat (b - a) = n"
    then have "of_nat n = b - a" by auto
    then show "b = a + of_nat n" by simp
  qed (simp add: u)
  with Suc show ?case by (auto simp: put_fs_byte_def)
qed simp

lemma save_old_byte:
  "i < 16 \<Longrightarrow> get_fs_byte (a + of_nat i) (save_old sa a k) = sigact_byte sa i"
proof -
  assume i: "i < 16"
  have "unat (of_nat i :: u32) = i" using i by (simp only: unat_of_nat) simp
  then show ?thesis using i fold_put_bytes[of 16 "sigact_byte sa" a k "a + of_nat i"]
    by (simp add: save_old_def get_fs_byte_def)
qed

lemma long_of_sigact_bytes:
  "long_of_bytes (sigact_byte sa) 0 = sa_handler sa"
  "long_of_bytes (sigact_byte sa) 4 = sa_mask sa"
  "long_of_bytes (sigact_byte sa) 8 = sa_flags sa"
  "long_of_bytes (sigact_byte sa) 12 = sa_restorer sa"
proof -
  have w: "ucast (ucast v :: u8) OR push_bit 8 (ucast (ucast (drop_bit 8 v) :: u8)) OR
      push_bit 16 (ucast (ucast (drop_bit 16 v) :: u8)) OR
      push_bit 24 (ucast (ucast (drop_bit 24 v) :: u8)) = v" for v :: u32
  proof (rule word_eqI_bits)
    fix n assume "n < LENGTH(32)"
    then have "n < 8 \<or> 8 \<le> n \<and> n < 16 \<or> 16 \<le> n \<and> n < 24 \<or> 24 \<le> n \<and> n < 32" by auto
    then show "bit (ucast (ucast v :: u8) OR push_bit 8 (ucast (ucast (drop_bit 8 v) :: u8)) OR
      push_bit 16 (ucast (ucast (drop_bit 16 v) :: u8)) OR
      push_bit 24 (ucast (ucast (drop_bit 24 v) :: u8)) :: u32) n = bit v n"
      by (auto simp: bit_simps)
  qed
  show "long_of_bytes (sigact_byte sa) 0 = sa_handler sa"
    "long_of_bytes (sigact_byte sa) 4 = sa_mask sa"
    "long_of_bytes (sigact_byte sa) 8 = sa_flags sa"
    "long_of_bytes (sigact_byte sa) 12 = sa_restorer sa"
    by (simp_all add: long_of_bytes_def sigact_byte_def w)
qed

lemma long_of_bytes_cong:
  "(\<And>j. j < 4 \<Longrightarrow> b (i + j) = b' (i + j)) \<Longrightarrow> long_of_bytes b i = long_of_bytes b' i"
proof -
  assume b: "\<And>j. j < 4 \<Longrightarrow> b (i + j) = b' (i + j)"
  show ?thesis using b[of 0] b[of 1] b[of 2] b[of 3] by (simp add: long_of_bytes_def)
qed

lemma get_new_save_old: "get_new a (save_old sa a k) = sa"
proof -
  have "long_of_bytes (\<lambda>i. get_fs_byte (a + of_nat i) (save_old sa a k)) i = long_of_bytes (sigact_byte sa) i"
    if "i \<le> 12" for i
    by (rule long_of_bytes_cong) (use that in \<open>simp add: save_old_byte del: of_nat_add\<close>)
  from this[of 0] this[of 4] this[of 8] this[of 12] show ?thesis
    by (simp add: get_new_def Let_def long_of_sigact_bytes)
qed

lemma save_old_cur [simp]: "cur (save_old sa a k) = cur k"
proof -
  have "tasks (fold (\<lambda>i. put_fs_byte (f i) (a + of_nat i)) xs k) = tasks k \<and>
      current (fold (\<lambda>i. put_fs_byte (f i) (a + of_nat i)) xs k) = current k" for f xs
    by (induction xs arbitrary: k) (simp_all add: put_fs_byte_def)
  then show ?thesis by (simp add: save_old_def cur_def)
qed

lemma get_new_set [simp]: "get_new a (set_sigaction s sa k) = get_new a k"
  by (simp add: get_new_def get_fs_byte_def set_sigaction_def)

definition installed :: "int \<Rightarrow> sigact \<Rightarrow> sigact" where
  "installed signum sa = (if bit (sa_flags sa) SA_NOMASK then sa\<lparr>sa_mask := 0\<rparr>
     else sa\<lparr>sa_mask := sa_mask sa OR sigbit signum\<rparr>)"

definition catchable :: "int \<Rightarrow> bool" where
  "catchable signum \<longleftrightarrow> 1 \<le> signum \<and> signum \<le> 32 \<and> signum \<noteq> SIGKILL \<and> signum \<noteq> SIGSTOP"

lemma sys_sigaction_ok:
  assumes "catchable s"
  shows "fst (sys_sigaction s a b k) = 0"
    "t_sigaction (cur (snd (sys_sigaction s a b k))) =
       (t_sigaction (cur k))(s - 1 := installed s (get_new a k))"
    "b \<noteq> 0 \<Longrightarrow> get_new b (snd (sys_sigaction s a b k)) = t_sigaction (cur k) (s - 1)"
  using assms
  by (simp_all add: sys_sigaction_def catchable_def Let_def installed_def get_new_save_old)

text \<open>A handler installed with \<^verbatim>\<open>sigaction\<close> is stored, byte by byte, for the
  caller of the next \<^verbatim>\<open>sigaction\<close> on the same signal: the structure the user gave,
  with the signal itself in the mask (no mask at all under \<^verbatim>\<open>SA_NOMASK\<close>).\<close>

theorem sigaction_reads_back:
  assumes "catchable s" and "b \<noteq> 0"
  shows "get_new b (snd (sys_sigaction s a' b (snd (sys_sigaction s a 0 k)))) = installed s (get_new a k)"
  using sys_sigaction_ok[OF assms(1)] assms(2) by simp

theorem sigaction_reads_back_witness:
  "get_new 500 (snd (sys_sigaction SIGALRM 100 500 (snd (sys_sigaction SIGALRM 100 0
     (save_old \<lparr>sa_handler = 0x8000, sa_mask = 1, sa_flags = 0, sa_restorer = 3\<rparr> 100 kernel0))))) =
   \<lparr>sa_handler = 0x8000, sa_mask = 0x2001, sa_flags = 0, sa_restorer = 3\<rparr>"
proof -
  have c: "catchable SIGALRM" by (simp add: catchable_def)
  have i: "installed SIGALRM \<lparr>sa_handler = 0x8000, sa_mask = 1, sa_flags = 0, sa_restorer = 3\<rparr> =
      \<lparr>sa_handler = 0x8000, sa_mask = 0x2001, sa_flags = 0, sa_restorer = 3\<rparr>"
    by (simp add: installed_def sigbit_def)
  show ?thesis
    using sigaction_reads_back[OF c, of 500 100 100 "save_old \<lparr>sa_handler = 0x8000, sa_mask = 1,
      sa_flags = 0, sa_restorer = 3\<rparr> 100 kernel0"]
    by (simp add: get_new_save_old i)
qed

subsection \<open>Signals that cannot be caught\<close>

text \<open>What a process can do to its own signal state, starting from \<open>k0\<close>.\<close>

inductive sig_reach :: "kernel \<Rightarrow> kernel \<Rightarrow> bool" for k0 where
  start: "sig_reach k0 k0"
| signal: "sig_reach k0 k \<Longrightarrow> sig_reach k0 (snd (sys_signal s h r k))"
| sigaction: "sig_reach k0 k \<Longrightarrow> sig_reach k0 (snd (sys_sigaction s a b k))"
| ssetmask: "sig_reach k0 k \<Longrightarrow> sig_reach k0 (snd (sys_ssetmask m k))"
| sigpending: "sig_reach k0 k \<Longrightarrow> sig_reach k0 (snd (sys_sigpending a k))"
| deliver: "sig_reach k0 k \<Longrightarrow> do_signal s f k = retK b (f', k') \<Longrightarrow> 1 \<le> s \<Longrightarrow> s \<le> 32 \<Longrightarrow>
    sig_reach k0 k'"

definition uncatchable_default :: "kernel \<Rightarrow> bool" where
  "uncatchable_default k \<longleftrightarrow> sa_handler (t_sigaction (cur k) (SIGKILL - 1)) = 0 \<and>
     sa_handler (t_sigaction (cur k) (SIGSTOP - 1)) = 0"

lemma default_sys_signal:
  "uncatchable_default k \<Longrightarrow> uncatchable_default (snd (sys_signal s h r k))"
  by (auto simp: uncatchable_default_def sys_signal_def Let_def)

lemma default_sys_sigaction:
  "uncatchable_default k \<Longrightarrow> uncatchable_default (snd (sys_sigaction s a b k))"
  by (auto simp: uncatchable_default_def sys_sigaction_def Let_def)

lemma sigaction_assign_other:
  "(\<And>t. t_sigaction (f t) = t_sigaction t) \<Longrightarrow> t_sigaction (cur (assign p f k)) = t_sigaction (cur k)"
  by (simp add: cur_def assign_def split: option.split)

lemma default_stop_self: "t_sigaction (cur (stop_self s k)) = t_sigaction (cur k)"
  by (simp add: stop_self_def Let_def sigaction_assign_other)

lemma default_do_signal:
  assumes "uncatchable_default k" and d: "do_signal s f k = retK b (f', k')"
  shows "uncatchable_default k'"
proof -
  define sa where "sa = t_sigaction (cur k) (s - 1)"
  consider "sa_handler sa = 1" | "sa_handler sa = 0" | "sa_handler sa \<noteq> 0" "sa_handler sa \<noteq> 1" by blast
  then show ?thesis
  proof cases
    case 1
    with d assms(1) show ?thesis by (simp add: do_signal_def sa_def Let_def retK_def)
  next
    case 2
    with d have "k' = k \<or> k' = stop_self s k"
      by (auto simp: do_signal_def sa_def Let_def retK_def split: if_splits)
    with assms(1) default_stop_self[of s k] show ?thesis by (auto simp: uncatchable_default_def)
  next
    case 3
    with assms(1) have "s \<noteq> SIGKILL" "s \<noteq> SIGSTOP" by (auto simp: uncatchable_default_def sa_def)
    with d 3 assms(1) show ?thesis
      by (auto simp: do_signal_def sa_def[symmetric] Let_def uncatchable_default_def retK_def)
  qed
qed

lemma sig_reach_default:
  "sig_reach k0 k \<Longrightarrow> uncatchable_default k0 \<Longrightarrow> uncatchable_default k"
proof (induction rule: sig_reach.induct)
  case (signal k s h r)
  then show ?case by (simp add: default_sys_signal)
next
  case (sigaction k s a b)
  then show ?case by (simp add: default_sys_sigaction)
next
  case (ssetmask k m)
  then show ?case by (simp add: sys_ssetmask_def uncatchable_default_def)
next
  case (sigpending k a)
  then show ?case by (simp add: sys_sigpending_def uncatchable_default_def cur_def)
next
  case (deliver k s f b f' k')
  then show ?case using default_do_signal by blast
qed

text \<open>C39. Whatever handlers and masks a process installs and whatever signals it handles, a
  delivered \<^verbatim>\<open>SIGKILL\<close> still ends it with exit code 9 and a delivered
  \<^verbatim>\<open>SIGSTOP\<close> still stops it.\<close>

theorem kill_and_stop_not_catchable:
  assumes "sig_reach k0 k" and "uncatchable_default k0"
  shows "(\<exists>f'. do_signal SIGKILL f k = stopK (Killed 9) (f', k)) \<and>
    (\<exists>f'. do_signal SIGSTOP f k = retK True (f', stop_self SIGSTOP k)) \<and>
    t_state (tasks (stop_self SIGSTOP k) (current k)) = TASK_STOPPED"
proof -
  have "uncatchable_default k" by (rule sig_reach_default[OF assms])
  moreover have "t_state (tasks (stop_self SIGSTOP k) (current k)) = TASK_STOPPED"
    by (auto simp: stop_self_def Let_def upd_cur_def assign_def cur_def split: option.split)
  ultimately show ?thesis
    by (auto simp: do_signal_def Let_def uncatchable_default_def)
qed

theorem kill_and_stop_not_catchable_witness:
  "\<forall>f. \<exists>f'. do_signal SIGKILL f (snd (sys_ssetmask 0xFFFFFFFF (snd (sys_signal SIGKILL 1 0 kernel0)))) =
     stopK (Killed 9) (f', snd (sys_ssetmask 0xFFFFFFFF (snd (sys_signal SIGKILL 1 0 kernel0))))"
proof -
  have r: "sig_reach kernel0 (snd (sys_ssetmask 0xFFFFFFFF (snd (sys_signal SIGKILL 1 0 kernel0))))"
    by (intro sig_reach.intros)
  have d: "uncatchable_default kernel0" by (simp add: uncatchable_default_def kernel0_def task0_def cur_def)
  show ?thesis
  proof
    fix f
    show "\<exists>f'. do_signal SIGKILL f (snd (sys_ssetmask 0xFFFFFFFF (snd (sys_signal SIGKILL 1 0 kernel0)))) =
     stopK (Killed 9) (f', snd (sys_ssetmask 0xFFFFFFFF (snd (sys_signal SIGKILL 1 0 kernel0))))"
      using kill_and_stop_not_catchable[OF r d, of f] by blast
  qed
qed

text \<open>Blocking is another matter: \<^verbatim>\<open>ssetmask\<close> never blocks them,
  \<^verbatim>\<open>sigsuspend\<close> installs any mask.\<close>

lemma ssetmask_not_blocked:
  "\<not> bit (t_blocked (cur (snd (sys_ssetmask m k)))) 8 \<and> \<not> bit (t_blocked (cur (snd (sys_ssetmask m k)))) 18"
  by (simp add: sys_ssetmask_def bit_simps bit_sigbit)

end
