(* ===== verification/Math_Real.thy ===== *)
theory Math_Real
  imports Kprelude
begin

section \<open>The coprocessor emulator: arithmetic on temporary reals\<close>

text \<open>
  \<^verbatim>\<open>include/linux/math_emu.h\<close> and \<^verbatim>\<open>kernel/math/{add,compare,mul,div,convert}.c\<close>.
  A temporary real has a 64-bit mantissa in two longs (\<open>tr_a\<close> low, \<open>tr_b\<close> high) and a 16-bit
  field of sign and exponent. Assembler that works on the pair \<^verbatim>\<open>b:a\<close> as a 64-bit number
  (\<^verbatim>\<open>addl/adcl\<close>, \<^verbatim>\<open>shrdl/shrl\<close>) is an operation on \<open>mant\<close>; an array of
  four longs is a 128-bit word. A routine that may leave its result unset takes the old value of
  the result variable.
\<close>

type_synonym u64 = "64 word"
type_synonym u128 = "128 word"

record temp_real =
  tr_a :: u32
  tr_b :: u32
  tr_exp :: u16

record temp_int =
  ti_a :: u32
  ti_b :: u32
  ti_sign :: bool

definition join64 :: "u32 \<Rightarrow> u32 \<Rightarrow> u64" where
  "join64 hi lo = push_bit 32 (ucast hi) OR ucast lo"

definition mant :: "temp_real \<Rightarrow> u64" where
  "mant t = join64 (tr_b t) (tr_a t)"

definition lo32 :: "u64 \<Rightarrow> u32" where
  "lo32 m = ucast m"

definition hi32 :: "u64 \<Rightarrow> u32" where
  "hi32 m = ucast (drop_bit 32 m)"

definition with_mant :: "u64 \<Rightarrow> temp_real \<Rightarrow> temp_real" where
  "with_mant m t = t\<lparr>tr_a := lo32 m, tr_b := hi32 m\<rparr>"

text \<open>\<^verbatim>\<open>shrdl cnt,hi,lo\<close> and \<^verbatim>\<open>shrl cnt,hi\<close>: the count is taken modulo 32.\<close>

definition shrd :: "nat \<Rightarrow> u32 \<Rightarrow> u32 \<Rightarrow> u32" where
  "shrd n hi lo = drop_bit (n mod 32) lo OR push_bit (32 - n mod 32) hi"

definition shrl :: "nat \<Rightarrow> u32 \<Rightarrow> u32" where
  "shrl n hi = drop_bit (n mod 32) hi"

text \<open>The control and status words the arithmetic uses.\<close>

type_synonym swd = u32

definition set_IE :: "swd \<Rightarrow> swd" where "set_IE s = s OR 1"
definition set_DE :: "swd \<Rightarrow> swd" where "set_DE s = s OR 2"
definition set_ZE :: "swd \<Rightarrow> swd" where "set_ZE s = s OR 4"
definition set_OE :: "swd \<Rightarrow> swd" where "set_OE s = s OR 8"
definition set_UE :: "swd \<Rightarrow> swd" where "set_UE s = s OR 16"
definition set_PE :: "swd \<Rightarrow> swd" where "set_PE s = s OR 32"
definition set_C0 :: "swd \<Rightarrow> swd" where "set_C0 s = s OR 0x0100"
definition set_C3 :: "swd \<Rightarrow> swd" where "set_C3 s = s OR 0x4000"
definition clear_Cx :: "swd \<Rightarrow> swd" where "clear_Cx s = s AND NOT 0x4500"

datatype rounding = ROUND_NEAREST | ROUND_DOWN | ROUND_UP | ROUND_0

definition ROUNDING :: "u32 \<Rightarrow> rounding" where
  "ROUNDING cwd = (let r = drop_bit 10 cwd AND 3 in
     if r = 0 then ROUND_NEAREST else if r = 1 then ROUND_DOWN
     else if r = 2 then ROUND_UP else ROUND_0)"

subsection \<open>Addition\<close>

definition NEGINT :: "temp_real \<Rightarrow> temp_real" where
  "NEGINT t = with_mant (NOT (mant t) + 1) t"

definition signify :: "temp_real \<Rightarrow> temp_real" where
  "signify t =
     (let t = t\<lparr>tr_exp := tr_exp t + 2\<rparr>;
          t = t\<lparr>tr_a := shrd 2 (tr_b t) (tr_a t), tr_b := shrl 2 (tr_b t)\<rparr>;
          t = (if bit (tr_exp t) 15 then NEGINT t else t)
      in t\<lparr>tr_exp := tr_exp t AND 0x7fff\<rparr>)"

text \<open>
  \<^verbatim>\<open>while (a->b >= 0) { a->exponent--; a += a; }\<close>. It is only reached with a mantissa
  that is not 0 (the loop would not end otherwise; the recursion stops there).
\<close>

function norm_loop :: "u64 \<Rightarrow> u16 \<Rightarrow> u64 \<times> u16" where
  "norm_loop m e = (if m = 0 \<or> bit m 63 then (m, e) else norm_loop (m + m) (e - 1))"
  by auto

lemma top_bit_iff: "bit (m :: 'a::len word) (LENGTH('a) - 1) \<longleftrightarrow> 2 ^ (LENGTH('a) - 1) \<le> unat m"
proof -
  define n where "n = LENGTH('a) - 1"
  have "unat m < 2 ^ Suc n" unfolding n_def by simp
  then have lt: "unat m div 2 ^ n < 2" by (simp add: div_less_iff_less_mult mult.commute)
  have "bit m n \<longleftrightarrow> bit (unat m) n" unfolding n_def by (simp add: bit_unsigned_iff)
  also have "\<dots> \<longleftrightarrow> odd (unat m div 2 ^ n)" by (simp add: bit_iff_odd)
  also have "\<dots> \<longleftrightarrow> unat m div 2 ^ n \<noteq> 0" using lt by (auto simp: less_2_cases_iff)
  also have "\<dots> \<longleftrightarrow> 2 ^ n \<le> unat m" by (simp add: div_eq_0_iff not_less)
  finally show ?thesis by (simp add: n_def)
qed

lemma bit63_iff: "bit (m :: u64) 63 \<longleftrightarrow> 2 ^ 63 \<le> unat m"
  using top_bit_iff[of m] by simp

lemma bit127_iff: "bit (m :: u128) 127 \<longleftrightarrow> 2 ^ 127 \<le> unat m"
  using top_bit_iff[of m] by simp

lemma double_unat: "\<not> bit (m :: u64) 63 \<Longrightarrow> unat (m + m) = 2 * unat m"
  by (simp add: bit63_iff unat_word_ariths)

lemma double_unat128: "\<not> bit (m :: u128) 127 \<Longrightarrow> unat (m + m) = 2 * unat m"
  by (simp add: bit127_iff unat_word_ariths)

termination norm_loop
proof (relation "measure (\<lambda>(m, e). 2 ^ 64 - unat m)", goal_cases)
  case (2 m e)
  then have m: "m \<noteq> 0" "\<not> bit m 63" by auto
  then have "0 < unat m" by (simp add: unat_gt_0)
  moreover have "unat m < 2 ^ 64" using unsigned_less[of m] by simp
  ultimately show ?case using double_unat[OF m(2)] by simp
qed simp

declare norm_loop.simps [simp del]

definition unsignify :: "temp_real \<Rightarrow> temp_real" where
  "unsignify t =
     (if mant t = 0 then t\<lparr>tr_exp := 0\<rparr>
      else
        let t = t\<lparr>tr_exp := tr_exp t AND 0x7fff\<rparr>;
            t = (if bit (tr_b t) 31 then (NEGINT t)\<lparr>tr_exp := tr_exp t OR 0x8000\<rparr> else t);
            (m, e) = norm_loop (mant t) (tr_exp t)
        in with_mant m (t\<lparr>tr_exp := e\<rparr>))"

definition exp_of :: "temp_real \<Rightarrow> int" where
  "exp_of t = uint (tr_exp t AND 0x7fff)"

definition fadd :: "temp_real \<Rightarrow> temp_real \<Rightarrow> temp_real" where
  "fadd src1 src2 =
     (let x1 = exp_of src1; x2 = exp_of src2;
          (a, b, shift) = (if x2 < x1 then (src1, src2, x1 - x2) else (src2, src1, x2 - x1))
      in if 64 \<le> shift then a
         else
           let (b, shift) = (if 32 \<le> shift then (b\<lparr>tr_a := tr_b b, tr_b := 0\<rparr>, shift - 32) else (b, shift));
               n = nat shift;
               b = b\<lparr>tr_a := shrd n (tr_b b) (tr_a b), tr_b := shrl n (tr_b b)\<rparr>;
               a = signify a;
               b = signify b
           in unsignify (with_mant (mant a + mant b) a))"

subsection \<open>Comparison\<close>

text \<open>\<^verbatim>\<open>while (i && a->b >= 0)\<close> of \<^verbatim>\<open>normalize\<close>.\<close>

fun normalize_loop :: "nat \<Rightarrow> u64 \<Rightarrow> nat \<times> u64" where
  "normalize_loop 0 m = (0, m)"
| "normalize_loop (Suc i) m = (if bit m 63 then (Suc i, m) else normalize_loop i (m + m))"

definition normalize :: "temp_real \<Rightarrow> temp_real" where
  "normalize t =
     (let sign = tr_exp t AND 0x8000 in
      if mant t = 0 then t\<lparr>tr_exp := 0\<rparr>
      else let (i, m) = normalize_loop (nat (exp_of t)) (mant t)
           in with_mant m (t\<lparr>tr_exp := of_nat i OR sign\<rparr>))"

definition ftst :: "temp_real \<Rightarrow> swd \<Rightarrow> swd" where
  "ftst a s =
     (let s = clear_Cx s;
          b = normalize a
      in if mant b \<noteq> 0 \<or> tr_exp b \<noteq> 0
         then if bit (tr_exp b) 15 then set_C0 s else s
         else set_C3 s)"

definition fcom :: "temp_real \<Rightarrow> temp_real \<Rightarrow> swd \<Rightarrow> swd" where
  "fcom src1 src2 s = ftst (fadd (src1\<lparr>tr_exp := tr_exp src1 XOR 0x8000\<rparr>) src2) s"

definition fucom :: "temp_real \<Rightarrow> temp_real \<Rightarrow> swd \<Rightarrow> swd" where
  "fucom src1 src2 s = fcom src1 src2 s"

subsection \<open>Multiplication\<close>

definition mull :: "u32 \<Rightarrow> u32 \<Rightarrow> u128" where
  "mull x y = ucast x * ucast y"

text \<open>The four partial products; adding one at \<^verbatim>\<open>4(c)\<close> with carry into
  \<^verbatim>\<open>8(c)\<close> and \<^verbatim>\<open>12(c)\<close> adds it shifted by 32 bits.\<close>

definition mul64 :: "temp_real \<Rightarrow> temp_real \<Rightarrow> u128" where
  "mul64 x y =
     (let c = mull (tr_a x) (tr_a y);
          c = push_bit 64 (mull (tr_b x) (tr_b y)) OR c;
          c = c + push_bit 32 (mull (tr_a x) (tr_b y));
          c = c + push_bit 32 (mull (tr_b x) (tr_a y))
      in c)"

text \<open>\<^verbatim>\<open>while (i && tmp[3] >= 0) { i--; shift(tmp); }\<close>\<close>

fun shift_loop :: "nat \<Rightarrow> u128 \<Rightarrow> nat \<times> u128" where
  "shift_loop 0 c = (0, c)"
| "shift_loop (Suc i) c = (if bit c 127 then (Suc i, c) else shift_loop i (c + c))"

definition of_128 :: "u128 \<Rightarrow> u16 \<Rightarrow> temp_real" where
  "of_128 c e = \<lparr>tr_a = ucast (drop_bit 64 c), tr_b = ucast (drop_bit 96 c), tr_exp = e\<rparr>"

definition fmul :: "temp_real \<Rightarrow> temp_real \<Rightarrow> temp_real \<Rightarrow> swd \<Rightarrow> temp_real \<times> swd" where
  "fmul src1 src2 result s =
     (let sign = (tr_exp src1 XOR tr_exp src2) AND 0x8000;
          i = exp_of src1 + exp_of src2 - 16383 + 1
      in if i < 0 then (\<lparr>tr_a = 0, tr_b = 0, tr_exp = sign\<rparr>, s)
         else if 0x7fff < i then (result, set_OE s)
         else
           let tmp = mul64 src1 src2;
               (i, tmp) = (if tmp \<noteq> 0 then shift_loop (nat i) tmp else (0, tmp))
           in (of_128 tmp (of_nat i OR sign), s))"

subsection \<open>Division\<close>

text \<open>One step of \<^verbatim>\<open>div64\<close>: the dividend, the divisor and the bit of the quotient.
  \<^verbatim>\<open>try_sub\<close> says by the carry whether the subtraction was possible.\<close>

definition try_sub :: "u128 \<Rightarrow> u128 \<Rightarrow> bool \<times> u128" where
  "try_sub a b = (a \<le> b, b - a)"

fun div64_loop :: "nat \<Rightarrow> u128 \<Rightarrow> u128 \<Rightarrow> u128 \<Rightarrow> u128" where
  "div64_loop 0 a b c = c"
| "div64_loop (Suc n) a b c =
     (let (ok, tmp) = try_sub b a
      in div64_loop n (if ok then tmp else a) (drop_bit 1 b)
           (if ok then c OR push_bit (64 + n) 1 else c))"

definition div64 :: "u128 \<Rightarrow> u128 \<Rightarrow> u128 \<Rightarrow> u128" where
  "div64 a b c = div64_loop 64 a b c"

text \<open>\<^verbatim>\<open>while (b[3] >= 0) { i++; shift_left(b); }\<close>, for a divisor that is not 0.\<close>

function align_loop :: "int \<Rightarrow> u128 \<Rightarrow> int \<times> u128" where
  "align_loop i b = (if b = 0 \<or> bit b 127 then (i, b) else align_loop (i + 1) (b + b))"
  by auto

termination align_loop
proof (relation "measure (\<lambda>(i, b). 2 ^ 128 - unat b)", goal_cases)
  case (2 i b)
  then have b: "b \<noteq> 0" "\<not> bit b 127" by auto
  then have "0 < unat b" by (simp add: unat_gt_0)
  moreover have "unat b < 2 ^ 128" using unsigned_less[of b] by simp
  ultimately show ?case using double_unat128[OF b(2)] by simp
qed simp

declare align_loop.simps [simp del]

definition fdiv :: "temp_real \<Rightarrow> temp_real \<Rightarrow> temp_real \<Rightarrow> swd \<Rightarrow> temp_real \<times> swd" where
  "fdiv src1 src2 result s =
     (let sign = (tr_exp src1 XOR tr_exp src2) AND 0x8000
      in if mant src2 = 0 then (result, set_ZE s)
         else
           let i = exp_of src1 - exp_of src2 + 16383
           in if i < 0 then (\<lparr>tr_a = 0, tr_b = 0, tr_exp = sign\<rparr>, set_UE s)
              else
                let a = push_bit 64 (ucast (mant src1));
                    (i, b) = align_loop i (push_bit 64 (ucast (mant src2)));
                    tmp = div64 a b 0;
                    (i, tmp, s) = (if tmp \<noteq> 0
                      then (let (j, t) = shift_loop (nat i) tmp
                            in (int j, t, if \<not> bit t 127 then set_DE s else s))
                      else (0, tmp, s))
                in if 0x7fff < i then (result, set_OE s)
                   else (of_128 tmp (of_int i OR sign),
                         if take_bit 64 tmp \<noteq> 0 then set_PE s else s))"

subsection \<open>Conversions\<close>

definition short_to_temp :: "u32 \<Rightarrow> temp_real" where
  "short_to_temp a =
     (if a AND 0x7fffffff = 0
      then \<lparr>tr_a = 0, tr_b = 0, tr_exp = (if a \<noteq> 0 then 0x8000 else 0)\<rparr>
      else
        let e = ucast (drop_bit 23 a AND 0xff) - 127 + 16383 :: u16;
            e = (if bit a 31 then e OR 0x8000 else e)
        in \<lparr>tr_a = 0, tr_b = push_bit 8 a OR 0x80000000, tr_exp = e\<rparr>)"

definition long_to_temp :: "u32 \<times> u32 \<Rightarrow> temp_real" where
  "long_to_temp = (\<lambda>(a, b).
     (if a = 0 \<and> b AND 0x7fffffff = 0
      then \<lparr>tr_a = 0, tr_b = 0, tr_exp = (if b \<noteq> 0 then 0x8000 else 0)\<rparr>
      else
        let e = ucast (drop_bit 20 b AND 0x7ff) - 1023 + 16383 :: u16;
            e = (if bit b 31 then e OR 0x8000 else e)
        in \<lparr>tr_a = push_bit 11 a, tr_b = 0x80000000 OR push_bit 11 b OR drop_bit 21 a, tr_exp = e\<rparr>))"

definition temp_to_short :: "rounding \<Rightarrow> temp_real \<Rightarrow> u32" where
  "temp_to_short r a =
     (if tr_exp a AND 0x7fff = 0 then (if tr_exp a \<noteq> 0 then 0x80000000 else 0)
      else
        let b = push_bit 23 (scast (tr_exp a) - 16383 + 127) AND 0x7f800000;
            b = (if bit (tr_exp a) 15 then b OR 0x80000000 else b);
            b = b OR (drop_bit 8 (tr_b a) AND 0x007fffff)
        in case r of
             ROUND_NEAREST \<Rightarrow> if 0x80 < tr_b a AND 0xff then b + 1 else b
           | ROUND_DOWN \<Rightarrow> if bit (tr_exp a) 15 \<and> tr_b a AND 0xff \<noteq> 0 then b + 1 else b
           | ROUND_UP \<Rightarrow> if \<not> bit (tr_exp a) 15 \<and> tr_b a AND 0xff \<noteq> 0 then b + 1 else b
           | ROUND_0 \<Rightarrow> b)"

definition inc64 :: "u32 \<times> u32 \<Rightarrow> u32 \<times> u32" where
  "inc64 = (\<lambda>(a, b). let m = join64 b a + 1 in (lo32 m, hi32 m))"

definition temp_to_long :: "rounding \<Rightarrow> temp_real \<Rightarrow> u32 \<times> u32" where
  "temp_to_long r a =
     (if tr_exp a AND 0x7fff = 0 then (0, if tr_exp a \<noteq> 0 then 0x80000000 else 0)
      else
        let b = push_bit 20 (ucast (tr_exp a AND 0x7fff) - 16383 + 1023) AND 0x7ff00000;
            b = (if bit (tr_exp a) 15 then b OR 0x80000000 else b);
            b = b OR (drop_bit 11 (tr_b a) AND 0x000fffff);
            l = push_bit 21 (tr_b a) OR (drop_bit 11 (tr_a a) AND 0x001fffff)
        in case r of
             ROUND_NEAREST \<Rightarrow> if 0x400 < tr_a a AND 0x7ff then inc64 (l, b) else (l, b)
           | ROUND_DOWN \<Rightarrow> if bit (tr_exp a) 15 \<and> tr_b a AND 0xff \<noteq> 0 then inc64 (l, b) else (l, b)
           | ROUND_UP \<Rightarrow> if \<not> bit (tr_exp a) 15 \<and> tr_b a AND 0xff \<noteq> 0 then inc64 (l, b) else (l, b)
           | ROUND_0 \<Rightarrow> (l, b))"

definition real_to_int :: "rounding \<Rightarrow> temp_real \<Rightarrow> swd \<Rightarrow> temp_int \<times> swd" where
  "real_to_int r a s =
     (let shift = 16383 + 63 - exp_of a;
          zero = \<lparr>ti_a = 0, ti_b = 0, ti_sign = bit (tr_exp a) 15\<rparr>
      in if shift < 0 then (zero, set_OE s)
         else if 96 \<le> shift then (zero, s)
         else
           let (b, la, underflow, n) =
                 (if shift < 32 then (tr_b a, tr_a a, 0, nat shift)
                  else if shift < 64 then (0, tr_b a, tr_a a, nat (shift - 32))
                  else (0, 0, tr_b a, nat (shift - 64)));
               underflow = shrd n la underflow;
               la = shrd n b la;
               b = shrl n b;
               (la, b) = (case r of
                   ROUND_NEAREST \<Rightarrow>
                     if 2 ^ 32 \<le> unat underflow + unat (0x7fffffff + (la AND 1)) then inc64 (la, b) else (la, b)
                 | ROUND_UP \<Rightarrow> if \<not> ti_sign zero \<and> underflow \<noteq> 0 then inc64 (la, b) else (la, b)
                 | ROUND_DOWN \<Rightarrow> if ti_sign zero \<and> underflow \<noteq> 0 then inc64 (la, b) else (la, b)
                 | ROUND_0 \<Rightarrow> (la, b))
           in (zero\<lparr>ti_a := la, ti_b := b\<rparr>, s))"

definition int_to_real :: "temp_int \<Rightarrow> temp_real" where
  "int_to_real a =
     (let b = \<lparr>tr_a = ti_a a, tr_b = ti_b a, tr_exp = 0\<rparr>
      in if mant b = 0 then b
         else let (m, e) = norm_loop (mant b) (of_int (16383 + 63) + (if ti_sign a then 0x8000 else 0))
              in with_mant m (b\<lparr>tr_exp := e\<rparr>))"

end
