(* ===== verification/Math_Emu.thy ===== *)
theory Math_Emu
  imports Math_Real Signals
begin

section \<open>The coprocessor emulator: operands and instructions\<close>

text \<open>
  \<^verbatim>\<open>kernel/math/{ea,get_put,math_emulate,error}.c\<close>. The state is the kernel (for user
  memory and the signals of the current process), the saved user registers \<open>info\<close>, and the
  emulated coprocessor \<open>i387\<close>, whose register stack \<^verbatim>\<open>st_space\<close> is one word of
  640 bits: register \<open>i\<close> lies at bit \<open>80 * i\<close>. \<^verbatim>\<open>math_abort\<close> leaves the instruction
  (\<open>MathAbort\<close>). The local variable \<^verbatim>\<open>tmp\<close> of \<^verbatim>\<open>do_emu\<close> is not
  initialised: its contents are the parameter \<open>tmp\<close>.
\<close>

subsection \<open>State\<close>

record info =
  x_eax :: u32
  x_ecx :: u32
  x_edx :: u32
  x_ebx :: u32
  x_esp :: u32
  x_ebp :: u32
  x_esi :: u32
  x_edi :: u32
  x_eip :: u32
  x_orig_eip :: u32
  x_cs :: u16

record i387 =
  cwd :: u32
  swd :: u32
  twd :: u32
  fip :: u32
  fcs :: u32
  foo :: u32
  fos :: u32
  st_space :: "640 word"

record emu =
  e_kern :: kernel
  e_info :: info
  e_387 :: i387

type_synonym 'a eres = "(emu, 'a) res"

definition upd_info :: "(info \<Rightarrow> info) \<Rightarrow> emu \<Rightarrow> emu" where
  "upd_info f e = e\<lparr>e_info := f (e_info e)\<rparr>"

definition upd_387 :: "(i387 \<Rightarrow> i387) \<Rightarrow> emu \<Rightarrow> emu" where
  "upd_387 f e = e\<lparr>e_387 := f (e_387 e)\<rparr>"

definition upd_kern :: "(kernel \<Rightarrow> kernel) \<Rightarrow> emu \<Rightarrow> emu" where
  "upd_kern f e = e\<lparr>e_kern := f (e_kern e)\<rparr>"

definition upd_swd :: "(u32 \<Rightarrow> u32) \<Rightarrow> emu \<Rightarrow> emu" where
  "upd_swd f = upd_387 (\<lambda>m. m\<lparr>swd := f (swd m)\<rparr>)"

definition EIP :: "emu \<Rightarrow> u32" where
  "EIP e = x_eip (e_info e)"

definition add_EIP :: "u32 \<Rightarrow> emu \<Rightarrow> emu" where
  "add_EIP n = upd_info (\<lambda>r. r\<lparr>x_eip := x_eip r + n\<rparr>)"

definition math_abort :: "u32 \<Rightarrow> emu \<Rightarrow> 'a eres" where
  "math_abort signal e =
     stopK MathAbort (upd_kern (upd_cur (\<lambda>t. t\<lparr>t_signal := t_signal t OR signal\<rparr>))
       (upd_info (\<lambda>r. r\<lparr>x_eip := x_orig_eip r\<rparr>) e))"

subsection \<open>Effective addresses\<close>

definition REG :: "nat \<Rightarrow> info \<Rightarrow> u32" where
  "REG n r = [x_eax r, x_ecx r, x_edx r, x_ebx r, x_esp r, x_ebp r, x_esi r, x_edi r] ! n"

definition user_byte :: "u32 \<Rightarrow> emu \<Rightarrow> u8" where
  "user_byte a e = get_fs_byte a (e_kern e)"

definition user_word :: "u32 \<Rightarrow> emu \<Rightarrow> u16" where
  "user_word a e = get_fs_word a (e_kern e)"

definition user_long :: "u32 \<Rightarrow> emu \<Rightarrow> u32" where
  "user_long a e = get_fs_long a (e_kern e)"

definition note_operand :: "u32 \<Rightarrow> emu \<Rightarrow> emu" where
  "note_operand offset = upd_387 (\<lambda>m. m\<lparr>foo := offset, fos := 0x17\<rparr>)"

definition sib :: "nat \<Rightarrow> emu \<Rightarrow> emu \<times> u32" where
  "sib md e =
     (let b = unat (user_byte (EIP e) e);
          e = add_EIP 1 e;
          ss = b div 64; index = b div 8 mod 8; base = b mod 8;
          offset = push_bit ss (if index = 4 then 0 else REG index (e_info e));
          offset = (if md \<noteq> 0 \<or> base \<noteq> 5 then offset + REG base (e_info e) else offset);
          (offset, e) =
            (if md = 1 then (offset + scast (user_byte (EIP e) e), add_EIP 1 e)
             else if md = 2 \<or> base = 5 then (offset + user_long (EIP e) e, add_EIP 4 e)
             else (offset, e))
      in (note_operand offset e, offset))"

definition ea :: "u16 \<Rightarrow> emu \<Rightarrow> u32 eres" where
  "ea code e =
     (let md = unat code div 64 mod 4; rm = unat code mod 8 in
      if rm = 4 \<and> md \<noteq> 3 then (case sib md e of (e, a) \<Rightarrow> retK a e)
      else if rm = 5 \<and> md = 0 then
        let offset = user_long (EIP e) e in retK offset (note_operand offset (add_EIP 4 e))
      else if md = 3 then math_abort (sigbit SIGILL) e
      else
        let (offset, e) =
              (if md = 0 then (0, e)
               else if md = 1 then (scast (user_byte (EIP e) e), add_EIP 1 e)
               else (user_long (EIP e) e, add_EIP 4 e))
        in retK (offset + REG rm (e_info e)) (note_operand offset e))"

subsection \<open>The register stack\<close>

definition fpop :: "emu \<Rightarrow> emu" where
  "fpop = upd_swd (\<lambda>s. ((s + 0x00000800) AND 0x00003800) OR (s AND 0xffffc7ff))"

definition fpush :: "emu \<Rightarrow> emu" where
  "fpush = upd_swd (\<lambda>s. ((s + 0x00003800) AND 0x00003800) OR (s AND 0xffffc7ff))"

definition st_index :: "nat \<Rightarrow> emu \<Rightarrow> nat" where
  "st_index i e = unat ((of_nat i + drop_bit 11 (swd (e_387 e))) AND 7)"

definition real_of_80 :: "80 word \<Rightarrow> temp_real" where
  "real_of_80 w = \<lparr>tr_a = ucast w, tr_b = ucast (drop_bit 32 w), tr_exp = ucast (drop_bit 64 w)\<rparr>"

definition to_80 :: "temp_real \<Rightarrow> 80 word" where
  "to_80 t = ucast (tr_a t) OR push_bit 32 (ucast (tr_b t)) OR push_bit 64 (ucast (tr_exp t))"

definition get_reg :: "nat \<Rightarrow> 640 word \<Rightarrow> 80 word" where
  "get_reg i w = ucast (drop_bit (80 * i) w)"

definition set_reg :: "nat \<Rightarrow> 80 word \<Rightarrow> 640 word \<Rightarrow> 640 word" where
  "set_reg i v w = (w AND NOT (push_bit (80 * i) (mask 80))) OR push_bit (80 * i) (ucast v)"

definition ST :: "nat \<Rightarrow> emu \<Rightarrow> temp_real" where
  "ST i e = real_of_80 (get_reg (st_index i e) (st_space (e_387 e)))"

definition set_ST :: "nat \<Rightarrow> temp_real \<Rightarrow> emu \<Rightarrow> emu" where
  "set_ST i t e = upd_387 (\<lambda>m. m\<lparr>st_space := set_reg (st_index i e) (to_80 t) (st_space m)\<rparr>) e"

definition fxchg :: "nat \<Rightarrow> nat \<Rightarrow> emu \<Rightarrow> emu" where
  "fxchg i j e = (let c = ST i e in set_ST j c (set_ST i (ST j e) e))"

definition flip_sign :: "temp_real \<Rightarrow> temp_real" where
  "flip_sign t = t\<lparr>tr_exp := tr_exp t XOR 0x8000\<rparr>"

subsection \<open>Memory operands\<close>

definition get_short_real :: "u16 \<Rightarrow> emu \<Rightarrow> temp_real eres" where
  "get_short_real code e = bindK (ea code e) (\<lambda>a e. retK (short_to_temp (user_long a e)) e)"

definition get_long_real :: "u16 \<Rightarrow> emu \<Rightarrow> temp_real eres" where
  "get_long_real code e =
     bindK (ea code e) (\<lambda>a e. retK (long_to_temp (user_long a e, user_long (a + 4) e)) e)"

definition get_temp_real :: "u16 \<Rightarrow> emu \<Rightarrow> temp_real eres" where
  "get_temp_real code e =
     bindK (ea code e) (\<lambda>a e. retK \<lparr>tr_a = user_long a e, tr_b = user_long (a + 4) e,
                                    tr_exp = user_word (a + 8) e\<rparr> e)"

definition signed_32 :: "u32 \<Rightarrow> temp_int" where
  "signed_32 v = \<lparr>ti_a = if bit v 31 then - v else v, ti_b = 0, ti_sign = bit v 31\<rparr>"

definition get_short_int :: "u16 \<Rightarrow> emu \<Rightarrow> temp_real eres" where
  "get_short_int code e =
     bindK (ea code e) (\<lambda>a e. retK (int_to_real (signed_32 (scast (user_word a e)))) e)"

definition get_long_int :: "u16 \<Rightarrow> emu \<Rightarrow> temp_real eres" where
  "get_long_int code e = bindK (ea code e) (\<lambda>a e. retK (int_to_real (signed_32 (user_long a e))) e)"

definition signed_64 :: "u64 \<Rightarrow> temp_int" where
  "signed_64 m =
     (let v = (if bit m 63 then NOT m + 1 else m)
      in \<lparr>ti_a = lo32 v, ti_b = hi32 v, ti_sign = bit m 63\<rparr>)"

definition get_longlong_int :: "u16 \<Rightarrow> emu \<Rightarrow> temp_real eres" where
  "get_longlong_int code e =
     bindK (ea code e) (\<lambda>a e. retK (int_to_real (signed_64 (join64 (user_long (a + 4) e) (user_long a e)))) e)"

definition MUL10 :: "u64 \<Rightarrow> u64" where
  "MUL10 m = (let d = m + m; q = d + d; o' = q + q in o' + d)"

definition bcd_step :: "u8 \<Rightarrow> u64 \<Rightarrow> u64" where
  "bcd_step c m = MUL10 (MUL10 m + ucast (drop_bit 4 c)) + ucast (c AND 0xf)"

definition get_BCD :: "u16 \<Rightarrow> emu \<Rightarrow> temp_real eres" where
  "get_BCD code e =
     bindK (ea code e) (\<lambda>a e.
       let m = fold (\<lambda>k. bcd_step (user_byte (a + 8 - of_nat k) e)) [0..<9] 0
       in retK (int_to_real \<lparr>ti_a = lo32 m, ti_b = hi32 m,
                             ti_sign = user_byte (a + 9) e AND 0x80 \<noteq> 0\<rparr>) e)"

definition put_short_real :: "temp_real \<Rightarrow> u16 \<Rightarrow> emu \<Rightarrow> unit eres" where
  "put_short_real t code e =
     bindK (ea code e) (\<lambda>a e.
       retK () (upd_kern (put_fs_long (temp_to_short (ROUNDING (cwd (e_387 e))) t) a) e))"

definition put_long_real :: "temp_real \<Rightarrow> u16 \<Rightarrow> emu \<Rightarrow> unit eres" where
  "put_long_real t code e =
     bindK (ea code e) (\<lambda>a e.
       let (la, lb) = temp_to_long (ROUNDING (cwd (e_387 e))) t
       in retK () (upd_kern (put_fs_long lb (a + 4) \<circ> put_fs_long la a) e))"

definition put_temp_real :: "temp_real \<Rightarrow> u16 \<Rightarrow> emu \<Rightarrow> unit eres" where
  "put_temp_real t code e =
     bindK (ea code e) (\<lambda>a e.
       retK () (upd_kern (put_fs_word (tr_exp t) (a + 8) \<circ> put_fs_long (tr_b t) (a + 4) \<circ>
                          put_fs_long (tr_a t) a) e))"

definition emu_to_int :: "temp_real \<Rightarrow> emu \<Rightarrow> temp_int \<times> emu" where
  "emu_to_int t e =
     (let (i, s) = real_to_int (ROUNDING (cwd (e_387 e))) t (swd (e_387 e)) in (i, upd_swd (\<lambda>_. s) e))"

definition put_short_int :: "temp_real \<Rightarrow> u16 \<Rightarrow> emu \<Rightarrow> unit eres" where
  "put_short_int t code e =
     bindK (ea code e) (\<lambda>a e.
       let (i, e) = emu_to_int t e; v = (if ti_sign i then - ti_a i else ti_a i)
       in retK () (upd_kern (put_fs_word (ucast v) a) e))"

definition put_long_int :: "temp_real \<Rightarrow> u16 \<Rightarrow> emu \<Rightarrow> unit eres" where
  "put_long_int t code e =
     bindK (ea code e) (\<lambda>a e.
       let (i, e) = emu_to_int t e; v = (if ti_sign i then - ti_a i else ti_a i)
       in retK () (upd_kern (put_fs_long v a) e))"

definition put_longlong_int :: "temp_real \<Rightarrow> u16 \<Rightarrow> emu \<Rightarrow> unit eres" where
  "put_longlong_int t code e =
     bindK (ea code e) (\<lambda>a e.
       let (i, e) = emu_to_int t e; m = join64 (ti_b i) (ti_a i);
           m = (if ti_sign i then NOT m + 1 else m)
       in retK () (upd_kern (put_fs_long (hi32 m) (a + 4) \<circ> put_fs_long (lo32 m) a) e))"

definition DIV10 :: "u64 \<Rightarrow> u64 \<times> u32" where
  "DIV10 m =
     (let h = hi32 m div 10; r = hi32 m mod 10;
          t = join64 r (lo32 m)
      in (join64 h (lo32 (t div 10)), lo32 (t mod 10)))"

definition bcd_out :: "u64 \<Rightarrow> u64 \<times> u8" where
  "bcd_out m =
     (let (m, r) = DIV10 m; c = ucast r; (m, r) = DIV10 m in (m, c + push_bit 4 (ucast r)))"

fun put_bcd_bytes :: "nat \<Rightarrow> u64 \<Rightarrow> u32 \<Rightarrow> kernel \<Rightarrow> kernel" where
  "put_bcd_bytes 0 m a k = k"
| "put_bcd_bytes (Suc n) m a k =
     (let (m, c) = bcd_out m in put_bcd_bytes n m (a + 1) (put_fs_byte c a k))"

definition put_BCD :: "temp_real \<Rightarrow> u16 \<Rightarrow> emu \<Rightarrow> unit eres" where
  "put_BCD t code e =
     bindK (ea code e) (\<lambda>a e.
       let (i, e) = emu_to_int t e
       in retK () (upd_kern (put_bcd_bytes 9 (join64 (ti_b i) (ti_a i)) a \<circ>
                             put_fs_byte (if ti_sign i then 0x80 else 0) (a + 9)) e))"

subsection \<open>Instructions\<close>

definition CONSTZ :: temp_real where "CONSTZ = \<lparr>tr_a = 0, tr_b = 0, tr_exp = 0\<rparr>"
definition CONST1 :: temp_real where "CONST1 = \<lparr>tr_a = 0, tr_b = 0x80000000, tr_exp = 0x3FFF\<rparr>"
definition CONSTPI :: temp_real where "CONSTPI = \<lparr>tr_a = 0x2168C235, tr_b = 0xC90FDAA2, tr_exp = 0x4000\<rparr>"
definition CONSTLN2 :: temp_real where "CONSTLN2 = \<lparr>tr_a = 0xD1CF79AC, tr_b = 0xB17217F7, tr_exp = 0x3FFE\<rparr>"
definition CONSTLG2 :: temp_real where "CONSTLG2 = \<lparr>tr_a = 0xFBCFF799, tr_b = 0x9A209A84, tr_exp = 0x3FFD\<rparr>"
definition CONSTL2E :: temp_real where "CONSTL2E = \<lparr>tr_a = 0x5C17F0BC, tr_b = 0xB8AA3B29, tr_exp = 0x3FFF\<rparr>"
definition CONSTL2T :: temp_real where "CONSTL2T = \<lparr>tr_a = 0xCD1B8AFE, tr_b = 0xD49A784B, tr_exp = 0x4000\<rparr>"

definition push_const :: "temp_real \<Rightarrow> emu \<Rightarrow> emu" where
  "push_const t e = set_ST 0 t (fpush e)"

definition emu_fcom :: "temp_real \<Rightarrow> temp_real \<Rightarrow> emu \<Rightarrow> emu" where
  "emu_fcom x y = upd_swd (fcom x y)"

definition emu_fucom :: "temp_real \<Rightarrow> temp_real \<Rightarrow> emu \<Rightarrow> emu" where
  "emu_fucom x y = upd_swd (fucom x y)"

text \<open>An operation on two registers whose result goes to \<open>ST(dst)\<close>, by way of
  \<^verbatim>\<open>tmp\<close>.\<close>

definition to_ST :: "nat \<Rightarrow> temp_real \<times> swd \<Rightarrow> emu \<Rightarrow> emu" where
  "to_ST dst = (\<lambda>(t, s) e. set_ST dst t (upd_swd (\<lambda>_. s) e))"

definition op_add :: "temp_real \<Rightarrow> temp_real \<Rightarrow> emu \<Rightarrow> temp_real \<times> swd" where
  "op_add x y e = (fadd x y, swd (e_387 e))"

definition op_mul :: "temp_real \<Rightarrow> temp_real \<Rightarrow> temp_real \<Rightarrow> emu \<Rightarrow> temp_real \<times> swd" where
  "op_mul tmp x y e = fmul x y tmp (swd (e_387 e))"

definition op_div :: "temp_real \<Rightarrow> temp_real \<Rightarrow> temp_real \<Rightarrow> emu \<Rightarrow> temp_real \<times> swd" where
  "op_div tmp x y e = fdiv x y tmp (swd (e_387 e))"

definition ill :: "emu \<Rightarrow> unit eres" where
  "ill e = math_abort (sigbit SIGILL) e"

definition say :: "string \<Rightarrow> emu \<Rightarrow> emu" where
  "say msg = upd_kern (emit (Message msg))"

text \<open>\<^verbatim>\<open>switch (code)\<close>; \<open>None\<close> when no case applies.\<close>

definition emu_code :: "u16 \<Rightarrow> emu \<Rightarrow> unit eres option" where
  "emu_code c e =
     (if c = 0x1d0 then Some (retK () e)
      else if 0x1d1 \<le> c \<and> c \<le> 0x1d7 then Some (ill e)
      else if c = 0x1e0 then Some (retK () (set_ST 0 (flip_sign (ST 0 e)) e))
      else if c = 0x1e1 then
        Some (retK () (set_ST 0 ((ST 0 e)\<lparr>tr_exp := tr_exp (ST 0 e) AND 0x7fff\<rparr>) e))
      else if c = 0x1e2 \<or> c = 0x1e3 then Some (ill e)
      else if c = 0x1e4 then Some (retK () (upd_swd (ftst (ST 0 e)) e))
      else if c = 0x1e5 then Some (ill (say ''fxam not implemented'' e))
      else if c = 0x1e6 \<or> c = 0x1e7 then Some (ill e)
      else if c = 0x1e8 then Some (retK () (push_const CONST1 e))
      else if c = 0x1e9 then Some (retK () (push_const CONSTL2T e))
      else if c = 0x1ea then Some (retK () (push_const CONSTL2E e))
      else if c = 0x1eb then Some (retK () (push_const CONSTPI e))
      else if c = 0x1ec then Some (retK () (push_const CONSTLG2 e))
      else if c = 0x1ed then Some (retK () (push_const CONSTLN2 e))
      else if c = 0x1ee then Some (retK () (push_const CONSTZ e))
      else if c = 0x1ef then Some (ill e)
      else if 0x1f0 \<le> c \<and> c \<le> 0x1ff then Some (ill (say ''fxxx not implemented'' e))
      else if c = 0x2e9 then Some (retK () (fpop (fpop (emu_fucom (ST 1 e) (ST 0 e) e))))
      else if c = 0x3d0 \<or> c = 0x3d1 then Some (retK () e)
      else if c = 0x3e2 then Some (retK () (upd_swd (\<lambda>s. s AND 0x7f00) e))
      else if c = 0x3e3 then
        Some (retK () (upd_387 (\<lambda>m. m\<lparr>cwd := 0x037f, swd := 0, twd := 0\<rparr>) e))
      else if c = 0x3e4 then Some (retK () e)
      else if c = 0x6d9 then Some (retK () (fpop (fpop (emu_fcom (ST 1 e) (ST 0 e) e))))
      else if c = 0x7e0 then
        Some (retK () (upd_info (\<lambda>r. r\<lparr>x_eax := (x_eax r AND 0xffff0000) OR (swd (e_387 e) AND 0xffff)\<rparr>) e))
      else None)"

text \<open>\<^verbatim>\<open>switch (code >> 3)\<close>, with \<open>i\<close> the register number
  \<^verbatim>\<open>code & 7\<close>.\<close>

definition emu_reg :: "u16 \<Rightarrow> temp_real \<Rightarrow> emu \<Rightarrow> unit eres option" where
  "emu_reg c tmp e =
     (let op = unat c div 8; i = unat c mod 8;
          neg = (\<lambda>j e. set_ST j (flip_sign (ST j e)) e)
      in
      if op = 0x18 then Some (retK () (to_ST 0 (op_add (ST 0 e) (ST i e) e) e))
      else if op = 0x19 then Some (retK () (to_ST 0 (op_mul tmp (ST 0 e) (ST i e) e) e))
      else if op = 0x1a then Some (retK () (set_ST 0 tmp (emu_fcom (ST i e) tmp e)))
      else if op = 0x1b then Some (retK () (fpop (set_ST 0 tmp (emu_fcom (ST i e) tmp e))))
      else if op = 0x1c then Some (retK () (to_ST 0 (op_add (ST 0 e) (flip_sign (ST i e)) e) e))
      else if op = 0x1d then
        (let e = neg 0 e in Some (retK () (to_ST 0 (op_add (ST 0 e) (ST i e) e) e)))
      else if op = 0x1e then Some (retK () (to_ST 0 (op_div tmp (ST 0 e) (ST i e) e) e))
      else if op = 0x1f then Some (retK () (to_ST 0 (op_div tmp (ST i e) (ST 0 e) e) e))
      else if op = 0x38 then (let e = fpush e in Some (retK () (set_ST 0 (ST (i + 1) e) e)))
      else if op = 0x39 then Some (retK () (fxchg 0 i e))
      else if op = 0x3b then Some (retK () (fpop (set_ST i (ST 0 e) e)))
      else if op = 0x98 then Some (retK () (to_ST i (op_add (ST 0 e) (ST i e) e) e))
      else if op = 0x99 then Some (retK () (to_ST i (op_mul tmp (ST 0 e) (ST i e) e) e))
      else if op = 0x9a then Some (retK () (emu_fcom (ST i e) (ST 0 e) e))
      else if op = 0x9b then Some (retK () (fpop (emu_fcom (ST i e) (ST 0 e) e)))
      else if op = 0x9c then
        (let e = neg i e in Some (retK () (to_ST i (op_add (ST 0 e) (ST i e) e) e)))
      else if op = 0x9d then Some (retK () (to_ST i (op_add (ST i e) (flip_sign (ST 0 e)) e) e))
      else if op = 0x9e then Some (retK () (to_ST i (op_div tmp (ST 0 e) (ST i e) e) e))
      else if op = 0x9f then Some (retK () (to_ST i (op_div tmp (ST i e) (ST 0 e) e) e))
      else if op = 0xb8 then Some (ill (say ''ffree not implemented'' e))
      else if op = 0xb9 then Some (retK () (fxchg 0 i e))
      else if op = 0xba then Some (retK () (set_ST i (ST 0 e) e))
      else if op = 0xbb then Some (retK () (fpop (set_ST i (ST 0 e) e)))
      else if op = 0xbc then Some (retK () (emu_fucom (ST i e) (ST 0 e) e))
      else if op = 0xbd then Some (retK () (fpop (emu_fucom (ST i e) (ST 0 e) e)))
      else if op = 0xd8 then Some (retK () (fpop (to_ST i (op_add (ST i e) (ST 0 e) e) e)))
      else if op = 0xd9 then Some (retK () (fpop (to_ST i (op_mul tmp (ST i e) (ST 0 e) e) e)))
      else if op = 0xda then Some (retK () (fpop (emu_fcom (ST i e) (ST 0 e) e)))
      else if op = 0xdc then
        (let e = neg i e in Some (retK () (fpop (to_ST i (op_add (ST 0 e) (ST i e) e) e))))
      else if op = 0xdd then
        Some (retK () (fpop (to_ST i (op_add (ST i e) (flip_sign (ST 0 e)) e) e)))
      else if op = 0xde then Some (retK () (fpop (to_ST i (op_div tmp (ST 0 e) (ST i e) e) e)))
      else if op = 0xdf then Some (retK () (fpop (to_ST i (op_div tmp (ST i e) (ST 0 e) e) e)))
      else if op = 0xf8 then Some (ill (say ''ffree not implemented'' e))
      else if op = 0xf9 then Some (retK () (fxchg 0 i e))
      else if op = 0xfa \<or> op = 0xfb then Some (retK () (fpop (set_ST i (ST 0 e) e)))
      else None)"

text \<open>The coprocessor state as the longs \<^verbatim>\<open>((long *) &I387)[n]\<close>.\<close>

definition i387_long :: "i387 \<Rightarrow> nat \<Rightarrow> u32" where
  "i387_long m n =
     (if n = 0 then cwd m else if n = 1 then swd m else if n = 2 then twd m else if n = 3 then fip m
      else if n = 4 then fcs m else if n = 5 then foo m else if n = 6 then fos m
      else ucast (drop_bit (32 * (n - 7)) (st_space m)))"

definition set_i387_long :: "nat \<Rightarrow> u32 \<Rightarrow> i387 \<Rightarrow> i387" where
  "set_i387_long n v m =
     (if n = 0 then m\<lparr>cwd := v\<rparr> else if n = 1 then m\<lparr>swd := v\<rparr> else if n = 2 then m\<lparr>twd := v\<rparr>
      else if n = 3 then m\<lparr>fip := v\<rparr> else if n = 4 then m\<lparr>fcs := v\<rparr> else if n = 5 then m\<lparr>foo := v\<rparr>
      else if n = 6 then m\<lparr>fos := v\<rparr>
      else m\<lparr>st_space := (st_space m AND NOT (push_bit (32 * (n - 7)) (mask 32))) OR
                          push_bit (32 * (n - 7)) (ucast v)\<rparr>)"

definition load_env :: "nat \<Rightarrow> u32 \<Rightarrow> emu \<Rightarrow> emu" where
  "load_env n a e = fold (\<lambda>i. upd_387 (set_i387_long i (user_long (a + 4 * of_nat i) e))) [0..<n] e"

definition store_env :: "nat \<Rightarrow> u32 \<Rightarrow> emu \<Rightarrow> emu" where
  "store_env n a e = upd_kern (put_fs_longs (map (i387_long (e_387 e)) [0..<n]) a) e"

text \<open>\<^verbatim>\<open>switch ((code>>3) & 0xe7)\<close>: loads and stores.\<close>

definition pop_after :: "(emu \<Rightarrow> unit eres) \<Rightarrow> emu \<Rightarrow> unit eres" where
  "pop_after f e = bindK (f e) (\<lambda>_ e. retK () (fpop e))"

definition push_load :: "(emu \<Rightarrow> temp_real eres) \<Rightarrow> emu \<Rightarrow> unit eres" where
  "push_load f e = bindK (f (fpush e)) (\<lambda>t e. retK () (set_ST 0 t e))"

definition emu_mem :: "u16 \<Rightarrow> emu \<Rightarrow> unit eres option" where
  "emu_mem c e =
     (let op = drop_bit 3 c AND 0xe7 in
      if op = 0x22 then Some (put_short_real (ST 0 e) c e)
      else if op = 0x23 then Some (pop_after (put_short_real (ST 0 e) c) e)
      else if op = 0x24 then Some (bindK (ea c e) (\<lambda>a e. retK () (load_env 7 a e)))
      else if op = 0x25 then
        Some (bindK (ea c e) (\<lambda>a e. retK ()
          (upd_387 (\<lambda>m. m\<lparr>cwd := (cwd m AND 0xffff0000) OR ucast (user_word a e)\<rparr>) e)))
      else if op = 0x26 then Some (bindK (ea c e) (\<lambda>a e. retK () (store_env 7 a e)))
      else if op = 0x27 then
        Some (bindK (ea c e) (\<lambda>a e. retK () (upd_kern (put_fs_word (ucast (cwd (e_387 e))) a) e)))
      else if op = 0x62 then Some (put_long_int (ST 0 e) c e)
      else if op = 0x63 then Some (pop_after (put_long_int (ST 0 e) c) e)
      else if op = 0x65 then Some (push_load (get_temp_real c) e)
      else if op = 0x67 then Some (pop_after (put_temp_real (ST 0 e) c) e)
      else if op = 0xa2 then Some (put_long_real (ST 0 e) c e)
      else if op = 0xa3 then Some (pop_after (put_long_real (ST 0 e) c) e)
      else if op = 0xa4 then Some (bindK (ea c e) (\<lambda>a e. retK () (load_env 27 a e)))
      else if op = 0xa6 then
        Some (bindK (ea c e) (\<lambda>a e. retK ()
          (upd_387 (\<lambda>m. m\<lparr>cwd := 0x037f, swd := 0, twd := 0\<rparr>) (store_env 27 a e))))
      else if op = 0xa7 then
        Some (bindK (ea c e) (\<lambda>a e. retK () (upd_kern (put_fs_word (ucast (swd (e_387 e))) a) e)))
      else if op = 0xe2 then Some (put_short_int (ST 0 e) c e)
      else if op = 0xe3 then Some (pop_after (put_short_int (ST 0 e) c) e)
      else if op = 0xe4 then Some (push_load (get_BCD c) e)
      else if op = 0xe5 then Some (push_load (get_longlong_int c) e)
      else if op = 0xe6 then Some (pop_after (put_BCD (ST 0 e) c) e)
      else if op = 0xe7 then Some (pop_after (put_longlong_int (ST 0 e) c) e)
      else None)"

text \<open>\<^verbatim>\<open>switch (code >> 9)\<close>: the operand from memory; and the arithmetic with
  it.\<close>

definition emu_operand :: "u16 \<Rightarrow> temp_real \<Rightarrow> emu \<Rightarrow> temp_real eres" where
  "emu_operand c tmp e =
     (let op = unat c div 512 in
      if op = 0 then get_short_real c e else if op = 1 then get_long_int c e
      else if op = 2 then get_long_real c e else if op = 4 then get_short_int c e
      else retK tmp e)"

definition emu_arith :: "u16 \<Rightarrow> temp_real \<Rightarrow> emu \<Rightarrow> unit eres" where
  "emu_arith c tmp e =
     (let op = drop_bit 3 c AND 0x27 in
      if op = 0 then retK () (to_ST 0 (op_add tmp (ST 0 e) e) e)
      else if op = 1 then retK () (to_ST 0 (op_mul tmp tmp (ST 0 e) e) e)
      else if op = 2 then retK () (emu_fcom tmp (ST 0 e) e)
      else if op = 3 then retK () (fpop (emu_fcom tmp (ST 0 e) e))
      else if op = 4 then retK () (to_ST 0 (op_add (flip_sign tmp) (ST 0 e) e) e)
      else if op = 5 then
        (let e = set_ST 0 (flip_sign (ST 0 e)) e in retK () (to_ST 0 (op_add tmp (ST 0 e) e) e))
      else if op = 6 then retK () (to_ST 0 (op_div tmp (ST 0 e) tmp e) e)
      else if op = 7 then retK () (to_ST 0 (op_div tmp tmp (ST 0 e) e) e)
      else if c AND 0x138 = 0x100 then retK () (set_ST 0 tmp (fpush e))
      else math_abort (sigbit SIGFPE) (say ''Unknown math-insns'' e))"

text \<open>Fetching the instruction: pending exceptions, the code segment check, the two bytes
  in the order they lie in memory.\<close>

definition fetch :: "emu \<Rightarrow> u16 eres" where
  "fetch e =
     (let e = upd_swd (\<lambda>s. if cwd (e_387 e) AND s AND 0x3f \<noteq> 0 then s OR 0x8000 else s AND 0x7fff) e;
          e = upd_info (\<lambda>r. r\<lparr>x_orig_eip := x_eip r\<rparr>) e
      in if x_cs (e_info e) \<noteq> 0x000F then stopK (Panic ''Math emulation needed in kernel'') e
         else
           let w = user_word (EIP e) e;
               c = (push_bit 8 w OR drop_bit 8 w) AND 0x7ff;
               e = upd_387 (\<lambda>m. m\<lparr>fip := EIP e, fcs := push_bit 16 (ucast c) OR ucast (x_cs (e_info e))\<rparr>) e
           in retK c (add_EIP 2 e))"

definition do_emu :: "temp_real \<Rightarrow> emu \<Rightarrow> unit eres" where
  "do_emu tmp e =
     bindK (fetch e) (\<lambda>c e.
       case emu_code c e of Some r \<Rightarrow> r
       | None \<Rightarrow> (case emu_reg c tmp e of Some r \<Rightarrow> r
         | None \<Rightarrow> (case emu_mem c e of Some r \<Rightarrow> r
           | None \<Rightarrow> bindK (emu_operand c tmp e) (emu_arith c))))"

definition math_emulate :: "temp_real \<Rightarrow> emu \<Rightarrow> unit eres" where
  "math_emulate tmp e =
     do_emu tmp
       (if \<not> t_used_math (cur (e_kern e))
        then upd_387 (\<lambda>m. m\<lparr>cwd := 0x037f, swd := 0, twd := 0\<rparr>)
               (upd_kern (upd_cur (\<lambda>t. t\<lparr>t_used_math := True\<rparr>)) e)
        else e)"

definition math_error :: "kernel \<Rightarrow> kernel" where
  "math_error k =
     (if last_task_used_math k \<noteq> None
      then assign (last_task_used_math k) (\<lambda>t. t\<lparr>t_signal := t_signal t OR sigbit SIGFPE\<rparr>) k else k)"

end
