(* ===== verification/Math_Props.thy ===== *)
theory Math_Props
  imports Math_Real Complex_Main
begin

section \<open>Properties of the arithmetic on temporary reals\<close>

text \<open>
  The value of a temporary real as a real number, the error of addition and of multiplication,
  and the round trips of the conversions from and to short and long reals and integers.
\<close>

declare bit_numeral_word_iff [simp del]

subsection \<open>The parts of a temporary real\<close>

definition neg :: "temp_real \<Rightarrow> bool" where
  "neg t \<longleftrightarrow> bit (tr_exp t) 15"

lemma bit_join64: "bit (join64 hi lo) n \<longleftrightarrow> (if n < 32 then bit lo n else bit hi (n - 32))"
  by (auto simp: join64_def bit_simps dest: bit_imp_le_length)

lemma bit_lo32: "bit (lo32 m) n \<longleftrightarrow> n < 32 \<and> bit m n"
  by (simp add: lo32_def bit_simps)

lemma bit_hi32: "bit (hi32 m) n \<longleftrightarrow> bit m (n + 32)"
  by (auto simp: hi32_def bit_simps add.commute dest: bit_imp_le_length)

lemma join_split [simp]: "join64 (hi32 m) (lo32 m) = m"
  by (rule word_eqI_bits) (simp add: bit_join64 bit_lo32 bit_hi32)

lemma lo_hi_join [simp]: "lo32 (join64 hi lo) = lo" "hi32 (join64 hi lo) = hi"
  by (rule word_eqI_bits, simp add: bit_join64 bit_lo32 bit_hi32)+

lemma mant_with [simp]: "mant (with_mant m t) = m" "tr_exp (with_mant m t) = tr_exp t"
  by (simp_all add: mant_def with_mant_def)

lemma mant_exp [simp]: "mant (t\<lparr>tr_exp := e\<rparr>) = mant t"
  by (simp add: mant_def)

lemma mant_eqI: "mant s = mant t \<Longrightarrow> tr_exp s = tr_exp t \<Longrightarrow> s = t"
  by (cases s, cases t) (simp add: mant_def, metis lo_hi_join)

lemma mant_shift:
  assumes "n < 32"
  shows "join64 (shrl n hi) (shrd n hi lo) = drop_bit n (join64 hi lo)"
proof (rule word_eqI_bits)
  fix i assume "i < LENGTH(64)"
  have off: "\<not> bit lo j" if "32 \<le> j" for j using that by (auto dest: bit_imp_le_length)
  have off': "\<not> bit hi j" if "32 \<le> j" for j using that by (auto dest: bit_imp_le_length)
  have "n + i - 32 = i + n - 32" "n + (i - 32) = n + i - 32" if "32 \<le> i" using that by auto
  then show "bit (join64 (shrl n hi) (shrd n hi lo)) i = bit (drop_bit n (join64 hi lo)) i"
    using assms off off' \<open>i < LENGTH(64)\<close>
    by (auto simp: bit_join64 shrl_def shrd_def bit_simps add.commute)
qed

lemma bit_b31: "bit (tr_b t) 31 = bit (mant t) 63"
  by (simp add: mant_def bit_join64)

lemma exp_of_range: "0 \<le> exp_of t" "exp_of t < 32768"
proof -
  have m: "(0x7fff :: u16) = mask 15" by (simp add: mask_eq_exp_minus_1)
  have "tr_exp t AND 0x7fff = take_bit 15 (tr_exp t)" by (simp only: m take_bit_eq_mask)
  then have "exp_of t = take_bit 15 (uint (tr_exp t))"
    unfolding exp_of_def by (simp only: unsigned_take_bit_eq)
  then show "0 \<le> exp_of t" "exp_of t < 32768"
    using take_bit_int_less_exp[of 15 "uint (tr_exp t)"] by simp_all
qed

lemma exp_split: "uint (tr_exp t) = exp_of t + (if neg t then 32768 else 0)"
proof -
  have m: "(0x7fff :: u16) = mask 15" by (simp add: mask_eq_exp_minus_1)
  have "tr_exp t AND 0x7fff = take_bit 15 (tr_exp t)" by (simp only: m take_bit_eq_mask)
  then have e: "exp_of t = uint (tr_exp t) mod 32768"
  proof -
    have "exp_of t = take_bit 15 (uint (tr_exp t))"
      unfolding exp_of_def \<open>tr_exp t AND 0x7fff = take_bit 15 (tr_exp t)\<close> by (rule unsigned_take_bit_eq)
    then show ?thesis by (simp add: take_bit_eq_mod)
  qed
  have "neg t \<longleftrightarrow> 32768 \<le> unat (tr_exp t)"
    using top_bit_iff[of "tr_exp t"] by (simp add: neg_def)
  moreover have "uint (tr_exp t) = int (unat (tr_exp t))" by simp
  ultimately have n: "neg t \<longleftrightarrow> 32768 \<le> uint (tr_exp t)" by linarith
  have "uint (tr_exp t) < 65536" using uint_bounded[of "tr_exp t"] by simp
  moreover have "0 \<le> uint (tr_exp t)" by simp
  ultimately show ?thesis
  proof (cases "neg t")
    case True
    have "exp_of t = (uint (tr_exp t) - 32768) mod 32768" unfolding e by simp
    also have "\<dots> = uint (tr_exp t) - 32768"
      by (rule mod_pos_pos_trivial) (use True n \<open>uint (tr_exp t) < 65536\<close> in simp_all)
    finally show ?thesis using True by simp
  next
    case False
    have "exp_of t = uint (tr_exp t)" unfolding e
      by (rule mod_pos_pos_trivial) (use False n in simp_all)
    then show ?thesis using False by simp
  qed
qed

subsection \<open>Short reals\<close>

lemma bit_8000: "bit (0x8000 :: u16) n \<longleftrightarrow> n = 15"
proof -
  have "bit (push_bit 15 (1 :: u16)) n \<longleftrightarrow> n = 15"
    by (subst bit_push_bit_iff) (auto simp: bit_1_iff)
  moreover have "push_bit 15 (1 :: u16) = 0x8000" by simp
  ultimately show ?thesis by (simp only:)
qed

lemma bit_mask_8000: "bit (0x80000000 :: u32) n \<longleftrightarrow> n = 31"
proof -
  have "bit (push_bit 31 (1 :: u32)) n \<longleftrightarrow> n = 31"
    by (subst bit_push_bit_iff) (auto simp: bit_1_iff)
  moreover have "push_bit 31 (1 :: u32) = 0x80000000" by simp
  ultimately show ?thesis by (simp only:)
qed

lemma take_bit_sext:
  fixes x :: u16
  shows "take_bit 15 (scast (if s then x OR 0x8000 else x) :: u32) = take_bit 15 (ucast x)"
proof (rule word_eqI_bits)
  fix n assume "n < LENGTH(32)"
  show "bit (take_bit 15 (scast (if s then x OR 0x8000 else x) :: u32)) n = bit (take_bit 15 (ucast x :: u32)) n"
  proof (cases "n < 15")
    case True
    then have "\<not> bit (0x8000 :: u16) n" by (simp only: bit_8000)
    with True show ?thesis
      by (simp add: bit_take_bit_iff bit_signed_iff bit_unsigned_iff bit_or_iff min_def)
  qed (simp add: bit_take_bit_iff)
qed

text \<open>The exponent comes back: a small number plus the bias, whatever the sign bit.\<close>

lemma take_bit_bias:
  fixes e B :: u16
  assumes "unat e + unat B < 32768" and "n \<le> 15"
  shows "take_bit n (scast (if s then (e + B) OR 0x8000 else e + B) - ucast B :: u32) = take_bit n (ucast e)"
proof -
  let ?y = "scast (if s then (e + B) OR 0x8000 else e + B) :: u32"
  have u: "ucast (e + B) = (ucast e + ucast B :: u32)"
  proof -
    have "unat (e + B) = unat e + unat B" using assms(1) by (simp add: unat_word_ariths)
    then have "ucast (e + B) = (of_nat (unat e + unat B) :: u32)" by (metis of_nat_unat)
    also have "\<dots> = ucast e + ucast B" by simp
    finally show ?thesis .
  qed
  have lt: "take_bit 15 (ucast (e + B) :: u32) = ucast (e + B)"
  proof -
    have "unat (e + B) < 2 ^ 15" using assms(1) by (simp add: unat_word_ariths)
    then have "take_bit 15 (e + B) = e + B" by (simp add: word_unat_eq_iff unsigned_take_bit_eq take_bit_nat_eq_self)
    then show ?thesis by (metis unsigned_take_bit_eq)
  qed
  define q where "q = drop_bit 15 ?y"
  have "?y = push_bit 15 q + take_bit 15 ?y" unfolding q_def by (simp only: bits_ident)
  also have "take_bit 15 ?y = ucast e + ucast B" unfolding take_bit_sext lt by (rule u)
  finally have y: "?y - ucast B = push_bit 15 q + ucast e" by (simp add: algebra_simps)
  have eb: "\<not> bit (ucast e :: u32) i" if "15 \<le> i" for i
  proof
    assume b: "bit (ucast e :: u32) i"
    then have "i = 15" using that by (auto simp: bit_unsigned_iff dest: bit_imp_le_length)
    with b have "bit e 15" by (simp add: bit_unsigned_iff)
    with top_bit_iff[of e] assms(1) show False by simp
  qed
  have "push_bit 15 q AND ucast e = 0"
    by (rule word_eqI_bits) (use eb in \<open>auto simp: bit_and_iff bit_push_bit_iff\<close>)
  then have or: "push_bit 15 q + ucast e = push_bit 15 q OR ucast e" by (rule disjunctive_add_eq_or)
  show ?thesis
    unfolding y or by (rule word_eqI_bits)
      (use assms(2) in \<open>auto simp: bit_take_bit_iff bit_or_iff bit_push_bit_iff\<close>)
qed

lemma bit_mask_gen: "(m :: 'a::len word) = push_bit k (mask l) \<Longrightarrow> bit m n \<longleftrightarrow> k \<le> n \<and> n < k + l \<and> n < LENGTH('a)"
  by (auto simp: bit_simps)

lemma mask_bits_short:
  "bit (0x7f800000 :: u32) n \<longleftrightarrow> 23 \<le> n \<and> n < 31"
  "bit (0x007fffff :: u32) n \<longleftrightarrow> n < 23"
  "bit (0x7fffffff :: u32) n \<longleftrightarrow> n < 31"
  "bit (0xff :: u32) n \<longleftrightarrow> n < 8"
  "bit (0x7ff00000 :: u32) n \<longleftrightarrow> 20 \<le> n \<and> n < 31"
  "bit (0x000fffff :: u32) n \<longleftrightarrow> n < 20"
  "bit (0x7ff :: u32) n \<longleftrightarrow> n < 11"
  "bit (0x001fffff :: u32) n \<longleftrightarrow> n < 21"
proof -
  have m: "(0x7f800000 :: u32) = push_bit 23 (mask 8)" "(0x007fffff :: u32) = push_bit 0 (mask 23)"
    "(0x7fffffff :: u32) = push_bit 0 (mask 31)" "(0xff :: u32) = push_bit 0 (mask 8)"
    "(0x7ff00000 :: u32) = push_bit 20 (mask 11)" "(0x000fffff :: u32) = push_bit 0 (mask 20)"
    "(0x7ff :: u32) = push_bit 0 (mask 11)" "(0x001fffff :: u32) = push_bit 0 (mask 21)"
    by (simp_all add: mask_eq_exp_minus_1)
  show "bit (0x7f800000 :: u32) n \<longleftrightarrow> 23 \<le> n \<and> n < 31" "bit (0x007fffff :: u32) n \<longleftrightarrow> n < 23"
    "bit (0x7fffffff :: u32) n \<longleftrightarrow> n < 31" "bit (0xff :: u32) n \<longleftrightarrow> n < 8"
    "bit (0x7ff00000 :: u32) n \<longleftrightarrow> 20 \<le> n \<and> n < 31" "bit (0x000fffff :: u32) n \<longleftrightarrow> n < 20"
    "bit (0x7ff :: u32) n \<longleftrightarrow> n < 11" "bit (0x001fffff :: u32) n \<longleftrightarrow> n < 21"
    by (subst bit_mask_gen[OF m(1)], force, subst bit_mask_gen[OF m(2)], force,
        subst bit_mask_gen[OF m(3)], force, subst bit_mask_gen[OF m(4)], force,
        subst bit_mask_gen[OF m(5)], force, subst bit_mask_gen[OF m(6)], force,
        subst bit_mask_gen[OF m(7)], force, subst bit_mask_gen[OF m(8)], force)
qed

lemma exp_with_sign:
  assumes "unat x < 32768" and "y = (if s then x OR 0x8000 else (x :: u16))"
  shows "bit y 15 = s" "y AND 0x7fff = 0 \<longleftrightarrow> x = 0" "y AND 0x7fff = x"
proof -
  have b: "\<not> bit x n" if "15 \<le> n" for n
  proof (cases "n = 15")
    case True
    with top_bit_iff[of x] assms(1) show ?thesis by simp
  qed (use that in \<open>auto dest: bit_imp_le_length\<close>)
  then show "bit y 15 = s" by (simp add: assms(2) bit_or_iff bit_8000)
  have m: "(0x7fff :: u16) = mask 15" by (simp add: mask_eq_exp_minus_1)
  have "y AND 0x7fff = x"
  proof (rule word_eqI_bits)
    fix n assume "n < LENGTH(16)"
    then have "bit (y AND 0x7fff) n \<longleftrightarrow> bit y n \<and> n < 15" unfolding m by (simp add: bit_mask_iff bit_and_iff)
    also have "\<dots> \<longleftrightarrow> bit x n" using b[of n] by (cases "n < 15") (auto simp: assms(2) bit_or_iff bit_8000)
    finally show "bit (y AND 0x7fff) n = bit x n" .
  qed
  then show "y AND 0x7fff = 0 \<longleftrightarrow> x = 0" "y AND 0x7fff = x" by simp_all
qed

lemmas exp_field = exp_with_sign(3)

text \<open>A field of the result word that holds the low bits of a sum.\<close>

lemma field_bits:
  assumes "take_bit l X = take_bit l (Y :: u32)" and "bit m = (\<lambda>n. k \<le> n \<and> n < k + l)"
  shows "bit (push_bit k X AND (m :: u32)) n \<longleftrightarrow> k \<le> n \<and> n < k + l \<and> n < 32 \<and> bit Y (n - k)"
proof -
  have "bit X j = bit Y j" if "j < l" for j
    using that arg_cong[OF assms(1), of "\<lambda>w. bit w j"] by (simp add: bit_take_bit_iff)
  then show ?thesis by (auto simp: bit_and_iff bit_push_bit_iff assms(2))
qed

text \<open>A short real loaded into the emulator and stored back is unchanged, for every bit
  pattern and in every rounding mode.\<close>

theorem short_real_roundtrip: "temp_to_short r (short_to_temp s) = s"
proof (cases "s AND 0x7fffffff = 0")
  case True
  then have low: "\<not> bit s n" if "n < 31" for n
  proof -
    have "bit (s AND 0x7fffffff) n = bit (0 :: u32) n" by (simp only: True)
    with that show ?thesis by (simp add: bit_and_iff mask_bits_short)
  qed
  show ?thesis
  proof (cases "s = 0")
    case True
    then show ?thesis by (simp add: temp_to_short_def short_to_temp_def)
  next
    case False
    have "s = 0x80000000"
    proof (rule word_eqI_bits)
      have "bit s 31"
      proof (rule ccontr)
        assume "\<not> bit s 31"
        with low have "\<not> bit s n" if "n < LENGTH(32)" for n
          using that by (cases "n = 31") auto
        then have "s = 0" by (intro word_eqI_bits) simp
        with False show False ..
      qed
      moreover fix n assume "n < LENGTH(32)"
      ultimately show "bit s n = bit (0x80000000 :: u32) n"
        using low unfolding bit_mask_8000 by (cases "n = 31") auto
    qed
    then show ?thesis by (simp add: temp_to_short_def short_to_temp_def)
  qed
next
  case False
  define E :: u16 where "E = ucast (drop_bit 23 s AND 0xff)"
  define t where "t = short_to_temp s"
  have e: "tr_exp t = (if bit s 31 then (E + 16256) OR 0x8000 else E + 16256)"
    using False by (simp add: t_def short_to_temp_def Let_def E_def add.commute)
  have a: "tr_a t = 0" and b: "tr_b t = push_bit 8 s OR 0x80000000"
    using False by (simp_all add: t_def short_to_temp_def Let_def)
  have Elt: "unat E < 256"
  proof -
    have "drop_bit 23 s AND 0xff = take_bit 8 (drop_bit 23 s)"
    proof -
      have "(0xff :: u32) = mask 8" by (simp add: mask_eq_exp_minus_1)
      then show ?thesis by (simp only: take_bit_eq_mask)
    qed
    then have "unat (drop_bit 23 s AND 0xff) < 2 ^ 8"
      by (metis unsigned_take_bit_eq take_bit_nat_less_exp)
    moreover have "unat E \<le> unat (drop_bit 23 s AND 0xff)"
      unfolding E_def by (simp only: unsigned_ucast_eq take_bit_nat_less_eq_self)
    ultimately show ?thesis by simp
  qed
  have EB: "unat (E + 16256) = unat E + 16256" using Elt by (simp add: unat_word_ariths)
  have sg: "bit (tr_exp t) 15 = bit s 31" and nz: "tr_exp t AND 0x7fff \<noteq> 0"
    using exp_with_sign[OF _ e] EB Elt by auto
  have lowb: "tr_b t AND 0xff = 0"
    unfolding b by (rule word_eqI_bits)
      (auto simp: bit_and_iff bit_or_iff mask_bits_short bit_mask_8000 bit_push_bit_iff)
  have Ebit: "bit (ucast E :: u32) n = bit s (n + 23)" if "n < 8" for n
    using that by (simp add: E_def bit_unsigned_iff bit_and_iff bit_drop_bit_eq mask_bits_short add.commute)
  have "unat E + unat (16256 :: u16) < 32768" using Elt by simp
  from take_bit_bias[OF this, where n = 8 and s = "bit s 31"]
  have X: "take_bit 8 (scast (tr_exp t) - 16256 :: u32) = take_bit 8 (ucast E)"
    by (simp add: e)
  define w where "w = (push_bit 23 (scast (tr_exp t) - 16256 :: u32) AND 0x7f800000 OR
     (if bit s 31 then 0x80000000 else 0)) OR (drop_bit 8 (tr_b t) AND 0x007fffff)"
  have "temp_to_short r t = w"
    using nz sg lowb by (simp add: temp_to_short_def Let_def w_def split: rounding.split)
  also have "w = s"
  proof (rule word_eqI_bits)
    fix n assume n: "n < LENGTH(32)"
    have f: "bit (push_bit 23 (scast (tr_exp t) - 16256 :: u32) AND 0x7f800000) n \<longleftrightarrow>
        23 \<le> n \<and> n < 31 \<and> bit s n"
      using field_bits[where m = "0x7f800000" and k = 23 and n = n, OF X] Ebit[of "n - 23"]
      by (cases "23 \<le> n \<and> n < 31") (auto simp: mask_bits_short fun_eq_iff less_diff_conv2)
    have h: "bit (if bit s 31 then 0x80000000 else 0 :: u32) n \<longleftrightarrow> n = 31 \<and> bit s 31"
      by (simp add: bit_mask_8000)
    have g: "bit (drop_bit 8 (tr_b t) AND 0x007fffff) n \<longleftrightarrow> n < 23 \<and> bit s n"
      unfolding b bit_and_iff bit_drop_bit_eq comp_apply bit_or_iff mask_bits_short bit_mask_8000
      by (auto simp: bit_push_bit_iff)
    show "bit w n = bit s n"
      unfolding w_def bit_or_iff f g h using n by (cases "n < 23"; cases "n = 31") auto
  qed
  finally show ?thesis by (simp add: t_def)
qed

subsection \<open>Long reals\<close>

lemma low_byte_zero: "s AND 0x7fffffff = 0 \<Longrightarrow> s = 0 \<or> s = (0x80000000 :: u32)"
proof -
  assume z: "s AND 0x7fffffff = 0"
  have low: "\<not> bit s n" if "n < 31" for n
  proof -
    have "bit (s AND 0x7fffffff) n = bit (0 :: u32) n" by (simp only: z)
    with that show ?thesis by (simp add: bit_and_iff mask_bits_short)
  qed
  show ?thesis
  proof (cases "bit s 31")
    case True
    have "s = 0x80000000"
      proof (rule word_eqI_bits)
      fix n assume "n < LENGTH(32)"
      then show "bit s n = bit (0x80000000 :: u32) n"
        using low True unfolding bit_mask_8000 by (cases "n = 31") auto
    qed
    then show ?thesis ..
  next
    case False
    have "s = 0"
    proof (rule word_eqI_bits)
      fix n assume "n < LENGTH(32)"
      then show "bit s n = bit 0 n" using low False by (cases "n = 31") auto
    qed
    then show ?thesis ..
  qed
qed

text \<open>A long real loaded into the emulator and stored back is unchanged, for every bit
  pattern, when the rounding mode is to nearest or towards zero. (In the other two modes the code
  looks at the wrong bits of the mantissa to see whether it must round.)\<close>

theorem long_real_roundtrip:
  assumes "r = ROUND_NEAREST \<or> r = ROUND_0"
  shows "temp_to_long r (long_to_temp (a, b)) = (a, b)"
proof (cases "a = 0 \<and> b AND 0x7fffffff = 0")
  case True
  with low_byte_zero[of b] show ?thesis by (auto simp: temp_to_long_def long_to_temp_def)
next
  case False
  define E :: u16 where "E = ucast (drop_bit 20 b AND 0x7ff)"
  define t where "t = long_to_temp (a, b)"
  note td = t_def[unfolded long_to_temp_def prod.case if_not_P[OF False] Let_def]
  have e: "tr_exp t = (if bit b 31 then (E + 15360) OR 0x8000 else E + 15360)"
    by (simp add: td E_def add.commute)
  have ta: "tr_a t = push_bit 11 a" and tb: "tr_b t = 0x80000000 OR push_bit 11 b OR drop_bit 21 a"
    by (simp_all add: td)
  have Elt: "unat E < 2048"
  proof -
    have "(0x7ff :: u32) = mask 11" by (simp add: mask_eq_exp_minus_1)
    then have "drop_bit 20 b AND 0x7ff = take_bit 11 (drop_bit 20 b)" by (simp only: take_bit_eq_mask)
    then have "unat (drop_bit 20 b AND 0x7ff) < 2 ^ 11" by (metis unsigned_take_bit_eq take_bit_nat_less_exp)
    moreover have "unat E \<le> unat (drop_bit 20 b AND 0x7ff)"
      unfolding E_def by (simp only: unsigned_ucast_eq take_bit_nat_less_eq_self)
    ultimately show ?thesis by simp
  qed
  have EB: "unat (E + 15360) = unat E + 15360" using Elt by (simp add: unat_word_ariths)
  have sg: "bit (tr_exp t) 15 = bit b 31" and nz: "tr_exp t AND 0x7fff \<noteq> 0"
    using exp_with_sign[OF _ e] EB Elt by auto
  have expt: "tr_exp t AND 0x7fff = E + 15360" by (rule exp_field[OF _ e]) (use EB Elt in simp)
  have lowa: "tr_a t AND 0x7ff = 0"
    unfolding ta by (rule word_eqI_bits) (auto simp: bit_and_iff mask_bits_short bit_push_bit_iff)
  have Ebit: "bit (ucast E :: u32) n = bit b (n + 20)" if "n < 11" for n
    using that by (simp add: E_def bit_unsigned_iff bit_and_iff bit_drop_bit_eq mask_bits_short add.commute)
  have ue: "ucast (E + 15360) = (ucast E + 15360 :: u32)"
  proof -
    have "ucast (E + 15360) = (of_nat (unat E + 15360) :: u32)" by (metis of_nat_unat EB)
    then show ?thesis by simp
  qed
  have X: "take_bit 11 (ucast (tr_exp t AND 0x7fff) - 15360 :: u32) = take_bit 11 (ucast E)"
    unfolding expt ue by simp
  define w where "w = (push_bit 20 (ucast (tr_exp t AND 0x7fff) - 15360 :: u32) AND 0x7ff00000 OR
     (if bit b 31 then 0x80000000 else 0)) OR (drop_bit 11 (tr_b t) AND 0x000fffff)"
  define l where "l = push_bit 21 (tr_b t) OR (drop_bit 11 (tr_a t) AND 0x001fffff)"
  have "temp_to_long r t = (l, w)"
    using nz sg lowa assms by (auto simp: temp_to_long_def Let_def w_def l_def split: rounding.split)
  also have "w = b"
  proof (rule word_eqI_bits)
    fix n assume n: "n < LENGTH(32)"
    have f: "bit (push_bit 20 (ucast (tr_exp t AND 0x7fff) - 15360 :: u32) AND 0x7ff00000) n \<longleftrightarrow>
        20 \<le> n \<and> n < 31 \<and> bit b n"
      using field_bits[where m = "0x7ff00000" and k = 20 and n = n, OF X] Ebit[of "n - 20"]
      by (cases "20 \<le> n \<and> n < 31") (auto simp: mask_bits_short fun_eq_iff less_diff_conv2)
    have h: "bit (if bit b 31 then 0x80000000 else 0 :: u32) n \<longleftrightarrow> n = 31 \<and> bit b 31"
      by (simp add: bit_mask_8000)
    have na: "\<not> bit a (n + 32)" by (auto dest: bit_imp_le_length)
    have g: "bit (drop_bit 11 (tr_b t) AND 0x000fffff) n \<longleftrightarrow> n < 20 \<and> bit b n"
      unfolding tb bit_and_iff bit_drop_bit_eq comp_apply bit_or_iff mask_bits_short bit_mask_8000
      using na by (auto simp: bit_push_bit_iff add.commute)
    show "bit w n = bit b n"
      unfolding w_def bit_or_iff f g h using n by (cases "n < 20"; cases "n = 31") auto
  qed
  also have "l = a"
  proof (rule word_eqI_bits)
    fix n assume n: "n < LENGTH(32)"
    show "bit l n = bit a n"
      unfolding l_def ta tb bit_push_bit_iff bit_and_iff bit_drop_bit_eq comp_apply bit_or_iff
        mask_bits_short bit_mask_8000
      using n by (auto simp: bit_push_bit_iff)
  qed
  finally show ?thesis by (simp add: t_def)
qed

theorem long_real_roundtrip_witness:
  "temp_to_long ROUND_NEAREST (long_to_temp (0xDEADBEEF, 0xC0091EB8)) = (0xDEADBEEF, 0xC0091EB8)"
  using long_real_roundtrip[of ROUND_NEAREST] by simp

text \<open>The other two modes round up numbers that are exact.\<close>

lemma long_real_round_up_wrong:
  "temp_to_long ROUND_UP (long_to_temp (0x200000, 0x3FF00000)) = (0x200001, 0x3FF00000)"
  by (simp add: temp_to_long_def long_to_temp_def Let_def inc64_def join64_def lo32_def hi32_def
      bit_numeral_word_iff)

subsection \<open>Normalisation\<close>

lemma norm_loop_shift:
  "m \<noteq> 0 \<Longrightarrow> norm_loop m e = (m', e') \<Longrightarrow>
   \<exists>k \<le> 63. unat m' = unat m * 2 ^ k \<and> e' = e - of_nat k \<and> bit m' 63"
proof (induction m e rule: norm_loop.induct)
  case (1 m e)
  show ?case
  proof (cases "bit m 63")
    case True
    with 1 show ?thesis by (subst (asm) norm_loop.simps) auto
  next
    case False
    then have u: "unat (m + m) = 2 * unat m" by (rule double_unat)
    have "norm_loop (m + m) (e - 1) = (m', e')"
      using 1(3) False 1(2) by (subst (asm) norm_loop.simps) simp
    moreover have "m + m \<noteq> 0" using u 1(2) by (metis mult_eq_0_iff unat_0 unat_eq_zero zero_neq_numeral)
    moreover have "\<not> (m = 0 \<or> bit m 63)" using False 1(2) by simp
    ultimately obtain k where k: "unat m' = unat (m + m) * 2 ^ k" "e' = e - 1 - of_nat k" "bit m' 63"
      using 1(1) by blast
    have m': "unat m' = unat m * 2 ^ Suc k" "e' = e - of_nat (Suc k)"
      using k u by (simp_all add: algebra_simps)
    have "unat m' < 2 ^ 64" using unsigned_less[of m'] by simp
    moreover have "0 < unat m" using 1(2) by (simp add: unat_gt_0)
    ultimately have "(2 :: nat) ^ Suc k < 2 ^ 64" unfolding m'(1)
      by (metis One_nat_def Suc_leI le_less_trans mult.commute mult_le_mono2 nat_mult_1_right)
    then have "Suc k < 64" by (rule power_less_imp_less_exp[rotated]) simp
    with m' k(3) show ?thesis by (intro exI[of _ "Suc k"]) auto
  qed
qed

lemma mult_pow_word: "unat m' = unat m * 2 ^ k \<Longrightarrow> drop_bit k m' = (m :: u64)"
proof -
  assume m: "unat m' = unat m * 2 ^ k"
  have "unat (drop_bit k m') = drop_bit k (unat m')" by (rule unat_drop_bit_eq)
  also have "\<dots> = unat m" unfolding m drop_bit_eq_div by simp
  finally show ?thesis by (simp only: word_unat_eq_iff)
qed

lemma mult_pow_low: "unat (m' :: u64) = unat m * 2 ^ k \<Longrightarrow> j < k \<Longrightarrow> \<not> bit m' j"
proof -
  assume m: "unat m' = unat m * 2 ^ k" and j: "j < k"
  have "unat m' = push_bit k (unat m)" by (simp add: m push_bit_eq_mult)
  then have "bit (unat m') j = bit (push_bit k (unat m)) j" by simp
  with j show ?thesis by (simp add: bit_push_bit_iff bit_unsigned_iff)
qed

subsection \<open>Integers\<close>

definition ti_mant :: "temp_int \<Rightarrow> u64" where
  "ti_mant i = join64 (ti_b i) (ti_a i)"

lemma shrd_zero:
  assumes "\<And>j. j < n \<Longrightarrow> \<not> bit la j" and "n < 32"
  shows "shrd n la 0 = 0"
  using assms by (intro word_eqI_bits) (auto simp: shrd_def bit_or_iff bit_push_bit_iff)

lemma round_exact: "\<not> 4294967296 \<le> unat (0x7fffffff + (la AND 1) :: u32)"
proof -
  have "unat (0x7fffffff + (la AND 1) :: u32) < 2 ^ 32"
    using unsigned_less[of "0x7fffffff + (la AND 1)"] by simp
  then show ?thesis by simp
qed

text \<open>An integer of up to 64 bits with its sign, loaded and stored back, is unchanged in
  every rounding mode, and no exception is flagged (a negative zero loses its sign).\<close>

theorem int_roundtrip:
  assumes "ti_mant i \<noteq> 0 \<or> \<not> ti_sign i"
  shows "real_to_int r (int_to_real i) s = (i, s)"
proof (cases "ti_mant i = 0")
  case True
  then have ab: "ti_a i = 0" "ti_b i = 0"
    unfolding ti_mant_def using lo_hi_join[of "ti_b i" "ti_a i"] by (simp_all add: lo32_def hi32_def)
  with True assms show ?thesis
    by (cases i) (simp add: int_to_real_def real_to_int_def Let_def mant_def join64_def exp_of_def)
next
  case False
  define e0 :: u16 where "e0 = of_int (16383 + 63) + (if ti_sign i then 0x8000 else 0)"
  obtain m e where me: "norm_loop (ti_mant i) e0 = (m, e)" by fastforce
  from norm_loop_shift[OF False me] obtain k where
    k: "k \<le> 63" "unat m = unat (ti_mant i) * 2 ^ k" "e = e0 - of_nat k" by blast
  define t where "t = int_to_real i"
  have t: "mant t = m" "tr_exp t = e"
    using False me unfolding t_def int_to_real_def e0_def
    by (simp_all add: mant_def[of "\<lparr>tr_a = ti_a i, tr_b = ti_b i, tr_exp = 0\<rparr>"] ti_mant_def Let_def)
  have ue: "unat e = 16446 - k + (if ti_sign i then 32768 else 0)"
  proof -
    have "unat e0 = 16446 + (if ti_sign i then 32768 else 0)" by (simp add: e0_def)
    moreover have "unat (of_nat k :: u16) = k" using k(1) by (simp only: unat_of_nat) simp
    ultimately show ?thesis unfolding k(3) using k(1)
      by (subst unat_sub) (simp_all add: word_le_nat_alt)
  qed
  have neg: "bit (tr_exp t) 15 = ti_sign i"
    using top_bit_iff[of e] ue k(1) by (cases "ti_sign i") (auto simp: t)
  have ex: "exp_of t = 16446 - int k"
  proof -
    have "uint (tr_exp t) = int (unat e)" by (simp add: t)
    then show ?thesis using exp_split[of t] ue k(1) neg by (auto simp: neg_def split: if_splits)
  qed
  have dm: "drop_bit k m = ti_mant i" by (rule mult_pow_word[OF k(2)])
  have low: "\<not> bit m j" if "j < k" for j by (rule mult_pow_low[OF k(2) that])
  have fin: "\<lparr>ti_a = la, ti_b = b, ti_sign = ti_sign i\<rparr> = i"
    if "join64 b la = ti_mant i" for la b
  proof -
    have "lo32 (join64 b la) = lo32 (ti_mant i)" "hi32 (join64 b la) = hi32 (ti_mant i)"
      unfolding that by (rule refl)+
    then have "la = ti_a i" "b = ti_b i" by (simp_all add: ti_mant_def)
    then show ?thesis by (cases i) simp
  qed
  show ?thesis
  proof (cases "k < 32")
    case True
    have u: "shrd k (tr_a t) 0 = 0"
    proof (rule shrd_zero[OF _ True])
      fix j assume "j < k"
      with low[of j] True show "\<not> bit (tr_a t) j" unfolding t(1)[symmetric] by (simp add: mant_def bit_join64)
    qed
    have "join64 (shrl k (tr_b t)) (shrd k (tr_b t) (tr_a t)) = drop_bit k (mant t)"
      unfolding mant_def by (rule mant_shift[OF True])
    then have j: "join64 (shrl k (tr_b t)) (shrd k (tr_b t) (tr_a t)) = ti_mant i" by (simp add: t dm)
    show ?thesis
      unfolding real_to_int_def t_def[symmetric] Let_def neg ex
      using True k(1) by (cases r) (simp_all add: u round_exact fin[OF j])
  next
    case False
    define n where "n = k - 32"
    have n: "n < 32" "nat (int k - 32) = n" using k(1) False by (auto simp: n_def)
    have a0: "tr_a t = 0"
    proof (rule word_eqI_bits)
      fix j assume j: "j < LENGTH(32)"
      then have "\<not> bit m j" using low False by simp
      with j show "bit (tr_a t) j = bit 0 j" unfolding t(1)[symmetric] by (simp add: mant_def bit_join64)
    qed
    have u: "shrd n (tr_b t) (tr_a t) = 0"
    proof (unfold a0, rule shrd_zero[OF _ n(1)])
      fix j assume "j < n"
      then have "j + 32 < k" by (simp add: n_def)
      from low[OF this] show "\<not> bit (tr_b t) j" unfolding t(1)[symmetric] by (simp add: mant_def bit_join64)
    qed
    have "join64 (shrl n 0) (shrd n 0 (tr_b t)) = drop_bit n (join64 0 (tr_b t))"
      by (rule mant_shift[OF n(1)])
    also have "join64 0 (tr_b t) = drop_bit 32 (mant t)"
      by (rule word_eqI_bits) (auto simp: mant_def bit_join64 bit_drop_bit_eq dest: bit_imp_le_length)
    also have "drop_bit n (drop_bit 32 (mant t)) = ti_mant i"
      using False dm by (simp add: drop_bit_drop_bit n_def t)
    finally have j: "join64 (shrl n 0) (shrd n 0 (tr_b t)) = ti_mant i" .
    show ?thesis
      unfolding real_to_int_def t_def[symmetric] Let_def neg ex
      using False k(1) by (cases r) (simp_all add: n u[unfolded a0] a0 round_exact fin[OF j])
  qed
qed

theorem int_roundtrip_witness:
  "real_to_int ROUND_UP (int_to_real \<lparr>ti_a = 5, ti_b = 1, ti_sign = True\<rparr>) 0 =
     (\<lparr>ti_a = 5, ti_b = 1, ti_sign = True\<rparr>, 0)"
proof -
  have "lo32 (ti_mant \<lparr>ti_a = 5, ti_b = 1, ti_sign = True\<rparr>) = 5" by (simp add: ti_mant_def)
  then have "ti_mant \<lparr>ti_a = 5, ti_b = 1, ti_sign = True\<rparr> \<noteq> 0" by (auto simp: lo32_def)
  then show ?thesis by (intro int_roundtrip) simp
qed

subsection \<open>Addition\<close>

definition val :: "temp_real \<Rightarrow> real" where
  "val t = (if neg t then -1 else 1) * real (unat (mant t)) * 2 powi (exp_of t - 16446)"

definition sgn_of :: "temp_real \<Rightarrow> int" where
  "sgn_of t = (if neg t then -1 else 1)"

lemma drop2: "unat (drop_bit n (m :: u64)) = unat m div 2 ^ n"
proof -
  have "unat (drop_bit n m) = drop_bit n (unat m)" by (rule unat_drop_bit_eq)
  then show ?thesis by (simp add: drop_bit_eq_div)
qed

lemma mant_shrd:
  "n < 32 \<Longrightarrow> mant (t\<lparr>tr_a := shrd n (tr_b t) (tr_a t), tr_b := shrl n (tr_b t)\<rparr>) = drop_bit n (mant t)"
  by (simp add: mant_def mant_shift)

lemma unat_of_int_small: "0 \<le> S \<Longrightarrow> S < 2 ^ 64 \<Longrightarrow> unat (of_int S :: u64) = nat S"
  by (simp add: unsigned_of_int take_bit_eq_mod nat_mod_distrib)

text \<open>\<^verbatim>\<open>signify\<close> makes the mantissa a signed number, a quarter of the old one.\<close>

lemma signify_parts:
  assumes "exp_of t < 32766"
  shows "mant (signify t) = of_int (sgn_of t * int (unat (mant t) div 4))"
    and "uint (tr_exp (signify t)) = exp_of t + 2"
proof -
  define e where "e = tr_exp t + 2"
  have ut: "int (unat (tr_exp t)) = exp_of t + (if neg t then 32768 else 0)"
    using exp_split[of t] by simp
  have "unat e = unat (tr_exp t) + 2"
  proof -
    have "int (unat (tr_exp t)) + 2 < 65536" unfolding ut using assms by simp
    then have "unat (tr_exp t) + 2 < 65536" by linarith
    then show ?thesis by (simp add: e_def unat_word_ariths)
  qed
  then have ue: "int (unat e) = exp_of t + 2 + (if neg t then 32768 else 0)" using ut by simp
  have ne: "bit e 15 = neg t"
  proof (cases "neg t")
    case True
    then have "32768 \<le> unat e" using ue exp_of_range[of t] unfolding if_P[OF True] by linarith
    with True top_bit_iff[of e] show ?thesis by simp
  next
    case False
    then have "\<not> 32768 \<le> unat e" using ue assms unfolding if_not_P[OF False] by linarith
    with False top_bit_iff[of e] show ?thesis by simp
  qed
  define t1 where "t1 = t\<lparr>tr_exp := e\<rparr>"
  define t2 where "t2 = t1\<lparr>tr_a := shrd 2 (tr_b t1) (tr_a t1), tr_b := shrl 2 (tr_b t1)\<rparr>"
  have m2: "mant t2 = drop_bit 2 (mant t)" "tr_exp t2 = e"
    using mant_shrd[of 2 t1] by (simp_all add: t2_def t1_def)
  have s: "signify t = (if bit e 15 then NEGINT t2 else t2)\<lparr>tr_exp := tr_exp t2 AND 0x7fff\<rparr>"
    by (simp add: signify_def Let_def t2_def t1_def e_def NEGINT_def)
  have md: "drop_bit 2 (mant t) = (of_int (int (unat (mant t) div 4)) :: u64)"
  proof -
    have "unat (mant t) < 2 ^ 64" using unsigned_less[of "mant t"] by simp
    then have "unat (mant t) div 4 < 2 ^ 64" by (rule le_less_trans[OF div_le_dividend])
    then have "int (unat (mant t) div 4) < int (2 ^ 64)" by (simp only: of_nat_less_iff)
    then have "unat (of_int (int (unat (mant t) div 4)) :: u64) = unat (mant t) div 4"
      by (subst unat_of_int_small) simp_all
    then show ?thesis unfolding word_unat_eq_iff drop2 by simp
  qed
  show "mant (signify t) = of_int (sgn_of t * int (unat (mant t) div 4))"
    unfolding s mant_exp ne sgn_of_def NEGINT_def using m2 md by (simp add: not_eq_complement)
  have m: "(0x7fff :: u16) = mask 15" by (simp add: mask_eq_exp_minus_1)
  have "tr_exp (signify t) = take_bit 15 e" by (simp add: s m2 m take_bit_eq_mask)
  then have "uint (tr_exp (signify t)) = take_bit 15 (uint e)" by (simp only: unsigned_take_bit_eq)
  also have "\<dots> = exp_of t + 2"
  proof -
    have "uint e = exp_of t + 2 + (if neg t then 1 else 0) * 32768" using ue by simp
    moreover have "(exp_of t + 2) mod 32768 = exp_of t + 2"
      by (rule mod_pos_pos_trivial) (use assms exp_of_range[of t] in simp_all)
    ultimately show ?thesis by (simp add: take_bit_eq_mod)
  qed
  finally show "uint (tr_exp (signify t)) = exp_of t + 2" .
qed

lemma bit63_uint: "bit (m :: u64) 63 \<longleftrightarrow> 2 ^ 63 \<le> uint m"
proof -
  have "2 ^ 63 \<le> unat m \<longleftrightarrow> int (2 ^ 63) \<le> int (unat m)" by (simp only: of_nat_le_iff)
  then show ?thesis unfolding bit63_iff by simp
qed

lemma of_int_neg_iff: "- (2 ^ 63) \<le> S \<Longrightarrow> S < 2 ^ 63 \<Longrightarrow> bit (of_int S :: u64) 63 \<longleftrightarrow> S < 0"
proof -
  assume S: "- (2 ^ 63) \<le> S" "S < 2 ^ 63"
  have u: "uint (of_int S :: u64) = S mod 2 ^ 64"
    by (simp add: unsigned_of_int take_bit_eq_mod)
  show ?thesis
  proof (cases "S < 0")
    case True
    have "S mod 2 ^ 64 = S + 2 ^ 64"
      using mod_pos_pos_trivial[of "S + 2 ^ 64" "2 ^ 64"] True S by simp
    with u True S show ?thesis by (simp add: bit63_uint)
  next
    case False
    then have "S mod 2 ^ 64 = S" using S by (intro mod_pos_pos_trivial) auto
    with u False S show ?thesis by (simp add: bit63_uint)
  qed
qed

lemma or_8000: "unat (x :: u16) < 32768 \<Longrightarrow> uint (x OR 0x8000) = uint x + 32768"
proof -
  assume x: "unat x < 32768"
  then have "\<not> bit x 15" using top_bit_iff[of x] by simp
  then have "x AND 0x8000 = 0"
    by (intro word_eqI_bits) (auto simp: bit_and_iff bit_8000)
  then have "x + 0x8000 = x OR 0x8000" by (rule disjunctive_add_eq_or)
  moreover have "unat (x + 0x8000) = unat x + 32768" using x by (simp add: unat_word_ariths)
  ultimately have "unat (x OR 0x8000) = unat x + 32768" by simp
  then have "int (unat (x OR 0x8000)) = int (unat x) + 32768" by linarith
  then show ?thesis by simp
qed

lemma exp_unique:
  assumes "uint (tr_exp u) = x + (if s then 32768 else 0)" "0 \<le> x" "x < 32768"
  shows "exp_of u = x" "neg u = s"
  using assms exp_split[of u] exp_of_range[of u] by (auto split: if_splits)

text \<open>\<^verbatim>\<open>unsignify\<close> makes the sum a sign and a normalised mantissa again: its value is
  exact.\<close>

lemma unsignify_value:
  assumes m: "mant t = of_int S" "\<bar>S\<bar> < 2 ^ 63" and e: "uint (tr_exp t) = E" "64 \<le> E" "E < 32768"
  shows "val (unsignify t) = real_of_int S * 2 powi (E - 16446)"
proof (cases "S = 0")
  case True
  then have "mant (unsignify t) = 0" using m by (simp add: unsignify_def)
  then show ?thesis by (simp add: val_def True)
next
  case False
  have "unat (of_int \<bar>S\<bar> :: u64) = nat \<bar>S\<bar>" using m(2) by (intro unat_of_int_small) auto
  then have um: "unat (of_int \<bar>S\<bar> :: u64) = nat \<bar>S\<bar>" "(of_int \<bar>S\<bar> :: u64) \<noteq> 0"
    using False by (auto simp: unat_eq_0[symmetric])
  have nz: "mant t \<noteq> 0"
  proof
    assume "mant t = 0"
    then have "(of_int \<bar>S\<bar> :: u64) = 0" using m(1) by (cases "S < 0") auto
    with um(2) show False ..
  qed
  have b: "bit (tr_b t) 31 \<longleftrightarrow> S < 0"
    unfolding bit_b31 m(1) by (rule of_int_neg_iff) (use m(2) in auto)
  have m15: "(0x7fff :: u16) = mask 15" by (simp add: mask_eq_exp_minus_1)
  define ex where "ex = tr_exp t AND 0x7fff"
  have ue: "uint ex = E"
  proof -
    have "ex = take_bit 15 (tr_exp t)" by (simp only: ex_def m15 take_bit_eq_mask)
    then have "uint ex = take_bit 15 (uint (tr_exp t))" by (simp only: unsigned_take_bit_eq)
    then show ?thesis using e by (simp add: take_bit_eq_mod)
  qed
  define ey where "ey = (if S < 0 then ex OR 0x8000 else ex)"
  have small: "unat ex < 32768" using ue e(3) by (metis int_eq_iff of_nat_less_iff of_nat_numeral uint_nat)
  obtain m' e' where me: "norm_loop (of_int \<bar>S\<bar>) ey = (m', e')" by fastforce
  from norm_loop_shift[OF um(2) me] obtain k where
    k: "k \<le> 63" "unat m' = nat \<bar>S\<bar> * 2 ^ k" "e' = ey - of_nat k" by (auto simp: um(1))
  have r: "mant (unsignify t) = m'" "tr_exp (unsignify t) = e'"
  proof -
    have "NOT (mant t) + 1 = of_int \<bar>S\<bar>" if "S < 0" using that m(1) by (simp add: not_eq_complement)
    then have "unsignify t = with_mant m' ((if S < 0 then NEGINT (t\<lparr>tr_exp := ex\<rparr>) else t)\<lparr>tr_exp := e'\<rparr>)"
      using nz b me m(1)
      by (cases "S < 0") (simp_all add: unsignify_def Let_def ex_def[symmetric] ey_def NEGINT_def)
    then show "mant (unsignify t) = m'" "tr_exp (unsignify t) = e'" by simp_all
  qed
  have uey: "uint ey = E + (if S < 0 then 32768 else 0)"
    using or_8000[OF small] ue by (simp add: ey_def)
  have ue': "uint e' = E - int k + (if S < 0 then 32768 else 0)"
  proof -
    have uk: "uint (of_nat k :: u16) = int k"
      using k(1) by (simp add: unsigned_of_nat take_bit_eq_mod)
    have "of_nat k \<le> ey" using uey k(1) e(2) by (simp add: word_le_def uk)
    then have le: "unat (of_nat k :: u16) \<le> unat ey" "unat (ey - of_nat k) = unat ey - unat (of_nat k :: u16)"
      by (simp_all only: word_le_nat_alt unat_sub)
    then have "int (unat (ey - of_nat k)) = int (unat ey) - int (unat (of_nat k :: u16))"
      by (simp only: of_nat_diff)
    then show ?thesis by (simp add: k(3) uey uk)
  qed
  have en: "exp_of (unsignify t) = E - int k" "neg (unsignify t) = (S < 0)"
    by (rule exp_unique, unfold r, rule ue', use k(1) e in simp_all)+
  have p: "2 powi (E - int k - 16446) * 2 ^ k = (2 powi (E - 16446) :: real)"
    using power_int_add[of "2 :: real" "E - int k - 16446" "int k"] by simp
  have "val (unsignify t) = (if S < 0 then -1 else 1) * real (nat \<bar>S\<bar>) * (2 powi (E - int k - 16446) * 2 ^ k)"
    by (simp add: val_def r k(2) en)
  also have "\<dots> = real_of_int S * 2 powi (E - 16446)" unfolding p by simp
  finally show ?thesis .
qed

lemma drop_two_stage:
  assumes "0 \<le> (d :: int)" "d < 64"
  shows "let (b', s) = (if 32 \<le> d then (b\<lparr>tr_a := tr_b b, tr_b := 0\<rparr>, d - 32) else (b, d));
             c = b'\<lparr>tr_a := shrd (nat s) (tr_b b') (tr_a b'), tr_b := shrl (nat s) (tr_b b')\<rparr>
         in mant c = drop_bit (nat d) (mant b) \<and> tr_exp c = tr_exp b"
proof (cases "32 \<le> d")
  case True
  have "join64 0 (tr_b b) = drop_bit 32 (mant b)"
    by (rule word_eqI_bits) (auto simp: mant_def bit_join64 bit_drop_bit_eq dest: bit_imp_le_length)
  then have m: "mant (b\<lparr>tr_a := tr_b b, tr_b := 0\<rparr>) = drop_bit 32 (mant b)" by (simp add: mant_def)
  have n: "nat (d - 32) < 32" "nat (d - 32) + 32 = nat d" using True assms by auto
  from mant_shrd[OF n(1), of "b\<lparr>tr_a := tr_b b, tr_b := 0\<rparr>"] m n(2) True show ?thesis
    by (simp add: Let_def drop_bit_drop_bit)
next
  case False
  with mant_shrd[of "nat d" b] assms show ?thesis by (simp add: Let_def)
qed

text \<open>The value of the sum in units of the last place of the larger operand.\<close>

lemma fadd_near:
  assumes le: "exp_of b \<le> exp_of a" and d: "exp_of a - exp_of b < 64"
    and range: "62 \<le> exp_of a" "exp_of a < 32766"
    and c: "mant c = drop_bit (nat (exp_of a - exp_of b)) (mant b)" "tr_exp c = tr_exp b"
  defines "r \<equiv> unsignify (with_mant (mant (signify a) + mant (signify c)) (signify a))"
  shows "\<bar>val r - (val a + val b)\<bar> < 7 * 2 powi (exp_of a - 16446)"
proof -
  define n where "n = nat (exp_of a - exp_of b)"
  define A where "A = int (unat (mant a) div 4)"
  define B where "B = int (unat (mant b) div 2 ^ n div 4)"
  define S where "S = sgn_of a * A + sgn_of b * B"
  have ab: "0 \<le> A" "0 \<le> B" by (simp_all add: A_def B_def)
  have "unat (mant a) < 2 ^ 64" "unat (mant b) < 2 ^ 64"
    using unsigned_less[of "mant a"] unsigned_less[of "mant b"] by simp_all
  note bounds = this
  have lt: "unat (mant a) div 4 < 2 ^ 62" "unat (mant b) div 2 ^ n div 4 < 2 ^ 62"
  proof -
    note x = bounds
    have "unat (mant b) div 2 ^ n \<le> unat (mant b)" by (rule div_le_dividend)
    with x(2) have "unat (mant b) div 2 ^ n < 2 ^ 64" by (rule le_less_trans[rotated])
    with x(1) show "unat (mant a) div 4 < 2 ^ 62" "unat (mant b) div 2 ^ n div 4 < 2 ^ 62"
      by (simp_all only: div_less_iff_less_mult zero_less_numeral) simp_all
  qed
  have "A < int (2 ^ 62)" unfolding A_def using lt(1) by (simp only: of_nat_less_iff)
  moreover have "B < int (2 ^ 62)" unfolding B_def using lt(2) by (simp only: of_nat_less_iff)
  ultimately have S: "\<bar>S\<bar> < 2 ^ 63" using ab by (auto simp: S_def sgn_of_def abs_less_iff)
  have sc: "sgn_of c = sgn_of b" "exp_of c = exp_of b" using c(2) by (simp_all add: sgn_of_def neg_def exp_of_def)
  have "exp_of c < 32766" using sc le range by linarith
  note sa = signify_parts[OF range(2)] and sb = signify_parts[OF this]
  have "mant (signify a) + mant (signify c) = of_int S"
    unfolding sa sb S_def A_def B_def sc c drop2 n_def by simp
  then have "val r = real_of_int S * 2 powi (exp_of a + 2 - 16446)"
    unfolding r_def using sa(2) range S by (intro unsignify_value) simp_all
  also have "\<dots> = 4 * real_of_int S * 2 powi (exp_of a - 16446)"
    using power_int_add[of "2 :: real" "exp_of a - 16446" 2] by (simp add: algebra_simps)
  finally have r: "val r = 4 * real_of_int S * 2 powi (exp_of a - 16446)" .
  have va: "val a = sgn_of a * real (unat (mant a)) * 2 powi (exp_of a - 16446)"
    by (simp add: val_def sgn_of_def)
  have "2 powi (exp_of b - 16446) * 2 ^ n = (2 powi (exp_of a - 16446) :: real)"
  proof -
    have "exp_of b - 16446 + int n = exp_of a - 16446" using le by (simp add: n_def)
    with power_int_add[of "2 :: real" "exp_of b - 16446" "int n"] show ?thesis
      by (simp add: power_int_of_nat)
  qed
  then have pb: "2 powi (exp_of b - 16446) = (2 powi (exp_of a - 16446) / 2 ^ n :: real)"
    by (simp add: field_simps)
  have vb: "val b = sgn_of b * (real (unat (mant b)) / 2 ^ n) * 2 powi (exp_of a - 16446)"
    by (simp add: val_def sgn_of_def pb)
  have ea: "\<bar>4 * real_of_int A - real (unat (mant a))\<bar> \<le> 3"
  proof -
    have "unat (mant a) = 4 * (unat (mant a) div 4) + unat (mant a) mod 4" by simp
    moreover have "unat (mant a) mod 4 \<le> 3" by simp
    ultimately show ?thesis unfolding A_def by linarith
  qed
  have eb: "\<bar>4 * real_of_int B - real (unat (mant b)) / 2 ^ n\<bar> < 4"
  proof -
    define q where "q = unat (mant b) div 2 ^ n"
    have "q = 4 * (q div 4) + q mod 4" "q mod 4 \<le> 3" by simp_all
    then have 1: "real q - 3 \<le> 4 * real_of_int B" "4 * real_of_int B \<le> real q"
      unfolding B_def q_def[symmetric] by linarith+
    have q: "real q = of_int \<lfloor>real (unat (mant b)) / 2 ^ n\<rfloor>"
      unfolding q_def using floor_divide_of_nat_eq[of "unat (mant b)" "2 ^ n", where 'a = real] by simp
    have "real q \<le> real (unat (mant b)) / 2 ^ n" "real (unat (mant b)) / 2 ^ n < real q + 1"
      unfolding q by linarith+
    with 1 show ?thesis by linarith
  qed
  have "val r - (val a + val b) = (sgn_of a * (4 * real_of_int A - real (unat (mant a))) +
      sgn_of b * (4 * real_of_int B - real (unat (mant b)) / 2 ^ n)) * 2 powi (exp_of a - 16446)"
    unfolding r va vb S_def by (simp add: algebra_simps)
  also have "\<bar>\<dots>\<bar> = \<bar>sgn_of a * (4 * real_of_int A - real (unat (mant a))) +
      sgn_of b * (4 * real_of_int B - real (unat (mant b)) / 2 ^ n)\<bar> * 2 powi (exp_of a - 16446)"
    by (simp add: abs_mult)
  also have "\<dots> < 7 * 2 powi (exp_of a - 16446)"
    by (rule mult_strict_right_mono) (use ea eb in \<open>auto simp: sgn_of_def\<close>)
  finally show ?thesis .
qed

lemma fadd_far:
  assumes d: "64 \<le> exp_of a - exp_of b"
  shows "\<bar>val b\<bar> < 2 powi (exp_of a - 16446)"
proof -
  have "unat (mant b) < 2 ^ 64" using unsigned_less[of "mant b"] by simp
  then have "real (unat (mant b)) < real (2 ^ 64)" by (simp only: of_nat_less_iff)
  then have m: "real (unat (mant b)) < 2 ^ 64" by simp
  define R where "R = real (unat (mant b))"
  have "0 \<le> R" unfolding R_def by (rule of_nat_0_le_iff)
  then have "\<bar>val b\<bar> = R * 2 powi (exp_of b - 16446)"
    unfolding val_def R_def[symmetric] by (simp add: abs_mult)
  then have "\<bar>val b\<bar> = real (unat (mant b)) * 2 powi (exp_of b - 16446)" by (simp only: R_def)
  also have "\<dots> < 2 ^ 64 * 2 powi (exp_of b - 16446)"
    by (rule mult_strict_right_mono[OF m]) simp
  also have "\<dots> = 2 powi (exp_of b - 16446 + int 64)"
    by (subst power_int_add) (simp_all add: power_int_of_nat)
  also have "\<dots> \<le> 2 powi (exp_of a - 16446)"
    by (rule power_int_increasing) (use d in simp_all)
  finally show ?thesis .
qed

lemma fadd_ordered:
  assumes le: "exp_of b \<le> exp_of a" and range: "62 \<le> exp_of a" "exp_of a < 32766"
    and r: "r = (let shift = exp_of a - exp_of b in
         if 64 \<le> shift then a
         else
           let (b, shift) = (if 32 \<le> shift then (b\<lparr>tr_a := tr_b b, tr_b := 0\<rparr>, shift - 32) else (b, shift));
               n = nat shift;
               b = b\<lparr>tr_a := shrd n (tr_b b) (tr_a b), tr_b := shrl n (tr_b b)\<rparr>;
               a = signify a;
               b = signify b
           in unsignify (with_mant (mant a + mant b) a))"
  shows "\<bar>val r - (val a + val b)\<bar> < 7 * 2 powi (exp_of a - 16446)"
proof (cases "64 \<le> exp_of a - exp_of b")
  case True
  have p: "(0 :: real) < 2 powi (exp_of a - 16446)" by simp
  from True have "r = a" by (simp add: r)
  with fadd_far[OF True] p show ?thesis by simp
next
  case False
  define bs where "bs = (if 32 \<le> exp_of a - exp_of b then (b\<lparr>tr_a := tr_b b, tr_b := 0\<rparr>, exp_of a - exp_of b - 32)
    else (b, exp_of a - exp_of b))"
  define c where "c = (fst bs)\<lparr>tr_a := shrd (nat (snd bs)) (tr_b (fst bs)) (tr_a (fst bs)),
    tr_b := shrl (nat (snd bs)) (tr_b (fst bs))\<rparr>"
  have "0 \<le> exp_of a - exp_of b" "exp_of a - exp_of b < 64" using le False by simp_all
  from drop_two_stage[OF this, of b] have
    c: "mant c = drop_bit (nat (exp_of a - exp_of b)) (mant b)" "tr_exp c = tr_exp b"
    unfolding bs_def[symmetric] c_def by (simp_all add: Let_def split_beta)
  have "r = unsignify (with_mant (mant (signify a) + mant (signify c)) (signify a))"
    using False by (cases "32 \<le> exp_of a - exp_of b") (simp_all add: r bs_def c_def Let_def)
  with fadd_near[OF le _ range c] False show ?thesis by simp
qed

text \<open>C34. The sum of two temporary reals differs from the exact sum by less than seven units in
  the last place of the operand with the larger exponent (the routine keeps 61 bits), for
  mantissas of any form, when that exponent is neither within 62 of the smallest nor one of the two
  largest.\<close>

theorem fadd_error:
  assumes "62 \<le> max (exp_of x) (exp_of y)" and "max (exp_of x) (exp_of y) < 32766"
  shows "\<bar>val (fadd x y) - (val x + val y)\<bar> < 7 * 2 powi (max (exp_of x) (exp_of y) - 16446)"
proof (cases "exp_of y < exp_of x")
  case True
  then have m: "max (exp_of x) (exp_of y) = exp_of x" by simp
  have "\<bar>val (fadd x y) - (val x + val y)\<bar> < 7 * 2 powi (exp_of x - 16446)"
    by (rule fadd_ordered) (use True assms m in \<open>simp_all add: fadd_def Let_def\<close>)
  then show ?thesis by (simp only: m)
next
  case False
  then have m: "max (exp_of x) (exp_of y) = exp_of y" by simp
  have "\<bar>val (fadd x y) - (val y + val x)\<bar> < 7 * 2 powi (exp_of y - 16446)"
    by (rule fadd_ordered) (use False assms m in \<open>simp_all add: fadd_def Let_def\<close>)
  then show ?thesis unfolding m by (simp only: add.commute)
qed

text \<open>One (\<^verbatim>\<open>CONST1\<close>) and a half.\<close>

definition one_tr :: temp_real where
  "one_tr = \<lparr>tr_a = 0, tr_b = 0x80000000, tr_exp = 0x3FFF\<rparr>"

theorem fadd_error_witness:
  "\<bar>val (fadd one_tr (one_tr\<lparr>tr_exp := 0x3FFE\<rparr>)) - (val one_tr + val (one_tr\<lparr>tr_exp := 0x3FFE\<rparr>))\<bar>
     < 7 * 2 powi (-63)"
proof -
  have "exp_of one_tr = 16383" "exp_of (one_tr\<lparr>tr_exp := 0x3FFE\<rparr>) = 16382"
    by (simp_all add: exp_of_def one_tr_def)
  then show ?thesis using fadd_error[of one_tr "one_tr\<lparr>tr_exp := 0x3FFE\<rparr>"] by simp
qed

subsection \<open>Multiplication\<close>

lemma unat_join64: "unat (join64 hi lo) = unat hi * 2 ^ 32 + unat lo"
proof -
  have "push_bit 32 (ucast hi :: u64) AND ucast lo = 0"
    by (rule word_eqI_bits) (auto simp: bit_simps dest: bit_imp_le_length)
  then have "join64 hi lo = push_bit 32 (ucast hi) + ucast lo"
    unfolding join64_def by (rule disjunctive_add_eq_or[symmetric])
  also have "\<dots> = of_nat (unat hi * 2 ^ 32 + unat lo)"
    by (simp add: push_bit_eq_mult)
  finally have "unat (join64 hi lo) = (unat hi * 2 ^ 32 + unat lo) mod 2 ^ 64"
    by (simp only: unat_of_nat take_bit_eq_mod) simp
  moreover have "unat hi < 2 ^ 32" "unat lo < 2 ^ 32"
    using unsigned_less[of hi] unsigned_less[of lo] by simp_all
  ultimately show ?thesis by simp
qed

lemma mull_nat: "mull x y = of_nat (unat x * unat y)"
  by (simp add: mull_def)

lemma mull_small: "unat (mull x y) < 2 ^ 64"
proof -
  have u: "unat x < 2 ^ 32" "unat y < 2 ^ 32" using unsigned_less[of x] unsigned_less[of y] by simp_all
  have "unat x * unat y < 2 ^ 32 * 2 ^ 32"
    using u by (intro mult_strict_mono) simp_all
  then have lt: "unat x * unat y < 2 ^ 64" by simp
  have "unat (mull x y) = (unat x * unat y) mod 2 ^ 128"
    unfolding mull_nat by (simp only: unat_of_nat take_bit_eq_mod) simp
  also have "\<dots> \<le> unat x * unat y" by (rule mod_less_eq_dividend)
  finally show ?thesis using lt by (rule le_less_trans)
qed

text \<open>The four partial products make the 128-bit product.\<close>

lemma mul64_product: "unat (mul64 x y) = unat (mant x) * unat (mant y)"
proof -
  let ?ll = "mull (tr_a x) (tr_a y)"
  have high: "\<not> bit ?ll n" if "64 \<le> n" for n
  proof
    assume "bit ?ll n"
    then have "bit (unat ?ll) n" by (simp add: bit_unsigned_iff)
    then have "odd (unat ?ll div 2 ^ n)" unfolding bit_iff_odd .
    then have "0 < unat ?ll div 2 ^ n" by (rule odd_pos)
    then have "2 ^ n \<le> unat ?ll" by (simp only: div_greater_zero_iff)
    moreover have "(2 :: nat) ^ 64 \<le> 2 ^ n" using that by (rule power_increasing) simp
    ultimately show False using mull_small[of "tr_a x" "tr_a y"] by linarith
  qed
  have "push_bit 64 (mull (tr_b x) (tr_b y)) AND ?ll = 0"
    by (rule word_eqI_bits) (use high in \<open>auto simp: bit_and_iff bit_push_bit_iff\<close>)
  then have or: "push_bit 64 (mull (tr_b x) (tr_b y)) OR ?ll = push_bit 64 (mull (tr_b x) (tr_b y)) + ?ll"
    by (rule disjunctive_add_eq_or[symmetric])
  have "mul64 x y = of_nat (unat (tr_b x) * unat (tr_b y) * 2 ^ 64 + unat (tr_a x) * unat (tr_a y) +
      unat (tr_a x) * unat (tr_b y) * 2 ^ 32 + unat (tr_b x) * unat (tr_a y) * 2 ^ 32)"
    unfolding mul64_def Let_def or unfolding mull_nat push_bit_eq_mult by (simp add: algebra_simps)
  also have "unat (tr_b x) * unat (tr_b y) * 2 ^ 64 + unat (tr_a x) * unat (tr_a y) +
      unat (tr_a x) * unat (tr_b y) * 2 ^ 32 + unat (tr_b x) * unat (tr_a y) * 2 ^ 32 =
      unat (mant x) * unat (mant y)"
    unfolding mant_def unat_join64 by (simp add: algebra_simps)
  finally have "unat (mul64 x y) = (unat (mant x) * unat (mant y)) mod 2 ^ 128"
    by (simp only: unat_of_nat take_bit_eq_mod) simp
  moreover have "unat (mant x) * unat (mant y) < 2 ^ 64 * 2 ^ 64"
    using unsigned_less[of "mant x"] unsigned_less[of "mant y"] by (intro mult_strict_mono) simp_all
  ultimately show ?thesis by simp
qed

lemma shift_loop_shift:
  "c \<noteq> 0 \<Longrightarrow> shift_loop i c = (j, c') \<Longrightarrow>
   j \<le> i \<and> unat c' = unat c * 2 ^ (i - j) \<and> (bit c' 127 \<or> j = 0)"
proof (induction i c rule: shift_loop.induct)
  case (2 i c)
  show ?case
  proof (cases "bit c 127")
    case True
    with 2 show ?thesis by auto
  next
    case False
    then have u: "unat (c + c) = 2 * unat c" by (rule double_unat128)
    have "c + c \<noteq> 0" using u 2(2) by (metis mult_eq_0_iff unat_0 unat_eq_zero zero_neq_numeral)
    with 2 False have "j \<le> i \<and> unat c' = unat (c + c) * 2 ^ (i - j) \<and> (bit c' 127 \<or> j = 0)" by simp
    with u show ?thesis by (auto simp: Suc_diff_le)
  qed
qed auto

lemma mant_of_128: "unat (mant (of_128 c e)) = unat c div 2 ^ 64" "tr_exp (of_128 c e) = e"
proof -
  have "mant (of_128 c e) = ucast (drop_bit 64 c)"
    by (rule word_eqI_bits) (auto simp: mant_def of_128_def bit_join64 bit_simps dest: bit_imp_le_length)
  moreover have "unat (ucast (drop_bit 64 c) :: u64) = unat c div 2 ^ 64"
  proof -
    have "unat c < 2 ^ 128" using unsigned_less[of c] by simp
    then have "unat c div 2 ^ 64 < 2 ^ 64" by (simp add: div_less_iff_less_mult)
    moreover have "unat (drop_bit 64 c) = unat c div 2 ^ 64"
    proof -
      have "unat (drop_bit 64 c) = drop_bit 64 (unat c)" by (rule unat_drop_bit_eq)
      then show ?thesis by (simp add: drop_bit_eq_div)
    qed
    ultimately show ?thesis by (simp add: unsigned_ucast_eq take_bit_eq_mod)
  qed
  ultimately show "unat (mant (of_128 c e)) = unat c div 2 ^ 64" by simp
qed (simp add: of_128_def)

lemma sign_xor: "(a XOR b) AND (0x8000 :: u16) = (if bit a 15 = bit b 15 then 0 else 0x8000)"
  by (rule word_eqI_bits) (auto simp: bit_and_iff bit_xor_iff bit_8000)

text \<open>C30. The product of two temporary reals whose exponents neither underflow nor overflow is
  the exact product truncated: never larger in magnitude and off by less than one unit in the last
  place of the result, which is normalised unless its exponent is 0; no exception is flagged.\<close>

theorem fmul_truncates:
  assumes range: "16382 \<le> exp_of x + exp_of y" "exp_of x + exp_of y < 32768 + 16382"
  shows "\<exists>r. fmul x y old s = (r, s) \<and> \<bar>val r\<bar> \<le> \<bar>val x * val y\<bar> \<and>
    \<bar>val r - val x * val y\<bar> < 2 powi (exp_of r - 16446) \<and>
    (mant x \<noteq> 0 \<longrightarrow> mant y \<noteq> 0 \<longrightarrow> bit (mant r) 63 \<or> exp_of r = 0)"
proof -
  define c where "c = mul64 x y"
  define i where "i = exp_of x + exp_of y - 16382"
  define sg where "sg = (neg x \<noteq> neg y)"
  define sign :: u16 where "sign = (if sg then 0x8000 else 0)"
  have sign: "(tr_exp x XOR tr_exp y) AND 0x8000 = sign"
    by (simp add: sign_xor sign_def sg_def neg_def)
  have i: "0 \<le> i" "i < 32768" using range by (simp_all add: i_def)
  have uc: "unat c = unat (mant x) * unat (mant y)" by (simp add: c_def mul64_product)
  obtain j c' where jc: "(if c \<noteq> 0 then shift_loop (nat i) c else (0, c)) = (j, c')" by fastforce
  define r where "r = of_128 c' (of_nat j OR sign)"
  have f: "fmul x y old s = (r, s)"
    using i jc unfolding fmul_def Let_def sign c_def[symmetric]
    by (auto simp: i_def r_def split: if_splits)
  have j: "int j \<le> i" "unat c' = unat c * 2 ^ (nat i - j)"
    using jc shift_loop_shift[of c "nat i" j c'] i by (auto split: if_splits)
  have top: "c \<noteq> 0 \<Longrightarrow> bit c' 127 \<or> j = 0" using jc shift_loop_shift[of c "nat i" j c'] by auto
  have uj: "unat (of_nat j :: u16) = j" using j(1) i by (simp add: unat_of_nat)
  have "uint (of_nat j :: u16) = int (unat (of_nat j :: u16))" by simp
  then have uu: "uint (of_nat j :: u16) = int j" by (simp only: uj)
  have "uint (tr_exp r) = int j + (if sg then 32768 else 0)"
  proof (cases sg)
    case True
    have "unat (of_nat j :: u16) < 32768" using uj j(1) i(2) by simp
    from or_8000[OF this] True uu show ?thesis by (simp add: r_def mant_of_128 sign_def)
  next
    case False
    with uu show ?thesis by (simp add: r_def mant_of_128 sign_def)
  qed
  from exp_unique[OF this] j(1) i(2) have er: "exp_of r = int j" "neg r = sg" by simp_all
  define C where "C = unat (mant x) * unat (mant y) * 2 ^ (nat i - j)"
  have m: "unat (mant r) = C div 2 ^ 64" by (simp add: r_def mant_of_128 j(2) uc C_def)
  define P where "P = (2 :: real) powi (int j - 16446)"
  have P: "0 < P" by (simp add: P_def)
  have "2 powi (exp_of x - 16446) * 2 powi (exp_of y - 16446) = (2 :: real) powi (i - 16510)"
    using power_int_add[of "2 :: real" "exp_of x - 16446" "exp_of y - 16446"] by (simp add: i_def)
  also have "\<dots> = P * 2 ^ (nat i - j) / 2 ^ 64"
  proof -
    have "(2 :: real) powi (i - 16510) * 2 powi (int 64) = 2 powi (i - 16510 + int 64)"
      by (subst power_int_add) simp_all
    also have "i - 16510 + int 64 = int j - 16446 + int (nat i - j)" using j(1) i(1) by simp
    also have "(2 :: real) powi (int j - 16446 + int (nat i - j)) = P * 2 powi (int (nat i - j))"
      unfolding P_def by (subst power_int_add) simp_all
    finally show ?thesis by (simp only: power_int_of_nat) (simp add: field_simps)
  qed
  finally have "(if sg then -1 else 1) * (real C / 2 ^ 64) * P = val x * val y"
    unfolding val_def C_def sg_def by (auto simp: algebra_simps)
  then have ex: "val x * val y = (if sg then -1 else 1) * (real C / 2 ^ 64) * P" by (rule sym)
  have vr: "val r = (if sg then -1 else 1) * real (C div 2 ^ 64) * P"
    by (simp add: val_def er m P_def)
  define q where "q = C div 2 ^ 64"
  have q: "real q = of_int \<lfloor>real C / 2 ^ 64\<rfloor>"
    unfolding q_def using floor_divide_of_nat_eq[of C "2 ^ 64", where 'a = real] by simp
  have q1: "real q \<le> real C / 2 ^ 64" "real C / 2 ^ 64 < real q + 1" unfolding q by linarith+
  have q0: "0 \<le> real q" "0 \<le> real C / 2 ^ 64" by simp_all
  have "\<bar>val r\<bar> = real q * P" using P by (simp add: vr q_def abs_mult)
  also have "\<dots> \<le> real C / 2 ^ 64 * P" using q1(1) P by (intro mult_right_mono) simp_all
  also have "\<dots> = \<bar>val x * val y\<bar>" using P q0 by (simp add: ex abs_mult)
  finally have le: "\<bar>val r\<bar> \<le> \<bar>val x * val y\<bar>" .
  have "val r - val x * val y = (if sg then -1 else 1) * (real q - real C / 2 ^ 64) * P"
    unfolding ex vr q_def by (simp add: algebra_simps)
  then have "\<bar>val r - val x * val y\<bar> = \<bar>real q - real C / 2 ^ 64\<bar> * P" using P by (simp add: abs_mult)
  also have "\<dots> < 1 * P" by (rule mult_strict_right_mono) (use q1 P in linarith)+
  finally have err: "\<bar>val r - val x * val y\<bar> < 2 powi (exp_of r - 16446)" by (simp add: P_def er)
  have "bit (mant r) 63 \<or> exp_of r = 0" if "mant x \<noteq> 0" "mant y \<noteq> 0"
  proof -
    have "unat (mant x) * unat (mant y) \<noteq> 0" using that by (simp add: unat_eq_zero)
    then have "unat c \<noteq> 0" unfolding uc .
    then have "c \<noteq> 0" by (metis unat_0)
    from top[OF this] show ?thesis
    proof
      assume "bit c' 127"
      then have "2 ^ 127 \<le> unat c'" by (simp add: bit127_iff)
      then have "2 ^ 127 \<le> C" using j(2) uc by (simp add: C_def)
      then have "2 ^ 127 div 2 ^ 64 \<le> C div 2 ^ 64" by (rule div_le_mono)
      then have "2 ^ 63 \<le> unat (mant r)" by (simp add: m)
      then show ?thesis by (simp add: bit63_iff)
    qed (simp add: er)
  qed
  with f le err show ?thesis by blast
qed

theorem fmul_truncates_witness:
  "\<exists>r. fmul one_tr one_tr one_tr 0 = (r, 0) \<and> \<bar>val r\<bar> \<le> \<bar>val one_tr * val one_tr\<bar>"
proof -
  have "exp_of one_tr = 16383" by (simp add: exp_of_def one_tr_def)
  with fmul_truncates[of one_tr one_tr one_tr 0] show ?thesis by auto
qed

end
