(* ===== verification/Emu_Props.thy ===== *)
theory Emu_Props
  imports Math_Emu Math_Props Signals_Props
begin

section \<open>Properties of the coprocessor emulator\<close>

text \<open>
  The register stack behaves as a stack of eight registers; \<^verbatim>\<open>fsave\<close> and
  \<^verbatim>\<open>frstor\<close> are inverse; packed decimals are read and written back unchanged.
\<close>

subsection \<open>The register stack\<close>

declare bit_numeral_word_iff [simp del]

lemma field_3800: "bit (0x3800 :: u32) n \<longleftrightarrow> 11 \<le> n \<and> n < 14" "bit (0xffffc7ff :: u32) n \<longleftrightarrow> n < 32 \<and> (n < 11 \<or> 14 \<le> n)"
proof -
  have m: "(0x3800 :: u32) = push_bit 11 (mask 3)" "(0xffffc7ff :: u32) = NOT (push_bit 11 (mask 3))"
    by (simp_all add: mask_eq_exp_minus_1 not_eq_complement)
  show "bit (0x3800 :: u32) n \<longleftrightarrow> 11 \<le> n \<and> n < 14"
    by (subst bit_mask_gen[OF m(1)]) auto
  show "bit (0xffffc7ff :: u32) n \<longleftrightarrow> n < 32 \<and> (n < 11 \<or> 14 \<le> n)"
    unfolding m(2) by (auto simp: bit_not_iff bit_push_bit_iff bit_mask_iff)
qed

text \<open>The field \<^verbatim>\<open>top\<close> of the status word, and adding to it.\<close>

definition top :: "u32 \<Rightarrow> nat" where
  "top s = unat (take_bit 3 (drop_bit 11 s))"

lemma top_nat: "top s = unat s div 2048 mod 8"
proof -
  have "unat (take_bit 3 (drop_bit 11 s)) = take_bit 3 (unat (drop_bit 11 s))"
    by (rule unsigned_take_bit_eq)
  also have "unat (drop_bit 11 s) = drop_bit 11 (unat s)" by (rule unat_drop_bit_eq)
  finally show ?thesis by (simp add: top_def take_bit_eq_mod drop_bit_eq_div)
qed

lemma top_add: "top (s + of_nat (2048 * n)) = (top s + n) mod 8"
proof -
  have "unat (s + of_nat (2048 * n)) = (unat s + 2048 * n) mod 2 ^ 32"
  proof -
    have "s + of_nat (2048 * n) = of_nat (unat s + 2048 * n)" by simp
    then have "unat (s + of_nat (2048 * n)) = unat (of_nat (unat s + 2048 * n) :: u32)" by (rule arg_cong)
    also have "\<dots> = (unat s + 2048 * n) mod 2 ^ 32" by (simp only: unat_of_nat take_bit_eq_mod) simp
    finally show ?thesis .
  qed
  then have "top (s + of_nat (2048 * n)) = (unat s + 2048 * n) mod (2048 * 2097152) div 2048 mod 8"
    by (simp add: top_nat)
  also have "\<dots> = ((unat s + 2048 * n) div 2048) mod 2097152 mod 8"
    by (simp only: mod_mult2_eq) simp
  also have "\<dots> = (unat s div 2048 + n) mod 8" by (simp add: mod_mod_cancel add.commute)
  finally have "top (s + of_nat (2048 * n)) = (unat s div 2048 + n) mod 8" .
  then show ?thesis unfolding top_nat by (simp add: mod_add_left_eq mod_add_right_eq add.commute)
qed

definition with_top :: "u32 \<Rightarrow> u32 \<Rightarrow> u32" where
  "with_top x s = (x AND 0x3800) OR (s AND 0xffffc7ff)"

lemma bit_with_top: "bit (with_top x s) n \<longleftrightarrow> (if 11 \<le> n \<and> n < 14 then bit x n else bit s n)"
  by (auto simp: with_top_def bit_or_iff bit_and_iff field_3800 dest: bit_imp_le_length)

lemma top_with_top [simp]: "top (with_top x s) = top x"
proof -
  have "take_bit 3 (drop_bit 11 (with_top x s)) = take_bit 3 (drop_bit 11 x)"
    by (rule word_eqI_bits) (simp add: bit_take_bit_iff bit_drop_bit_eq bit_with_top)
  then show ?thesis by (simp add: top_def)
qed

lemma with_top_id: "top x = top s \<Longrightarrow> with_top x s = s"
proof (rule word_eqI_bits)
  fix n assume t: "top x = top s"
  then have e: "take_bit 3 (drop_bit 11 x) = take_bit 3 (drop_bit 11 s)"
    by (simp only: top_def word_unat_eq_iff)
  have "bit x n = bit s n" if "11 \<le> n" "n < 14"
  proof -
    have "n - 11 < 3" "11 + (n - 11) = n" using that by linarith+
    then show ?thesis
      using arg_cong[OF e, of "\<lambda>w. bit w (n - 11)"] by (simp only: bit_take_bit_iff bit_drop_bit_eq o_def) simp
  qed
  then show "bit (with_top x s) n = bit s n" by (simp add: bit_with_top)
qed

lemma with_top_twice [simp]: "with_top y (with_top x s) = with_top y s"
  by (rule word_eqI_bits) (simp add: bit_with_top)

lemma upd_swd_simps [simp]:
  "swd (e_387 (upd_swd f e)) = f (swd (e_387 e))" "st_space (e_387 (upd_swd f e)) = st_space (e_387 e)"
  "e_kern (upd_swd f e) = e_kern e" "e_info (upd_swd f e) = e_info e"
  by (simp_all add: upd_swd_def upd_387_def)

lemma fpop_swd: "swd (e_387 (fpop e)) = with_top (swd (e_387 e) + of_nat (2048 * 1)) (swd (e_387 e))"
  by (simp add: fpop_def with_top_def)

lemma fpush_swd: "swd (e_387 (fpush e)) = with_top (swd (e_387 e) + of_nat (2048 * 7)) (swd (e_387 e))"
  by (simp add: fpush_def with_top_def)

lemma push_pop_space [simp]:
  "st_space (e_387 (fpop e)) = st_space (e_387 e)" "st_space (e_387 (fpush e)) = st_space (e_387 e)"
  by (simp_all add: fpop_def fpush_def)

lemma top_push: "top (swd (e_387 (fpush e))) = (top (swd (e_387 e)) + 7) mod 8"
  unfolding fpush_swd top_with_top top_add ..

lemma top_pop: "top (swd (e_387 (fpop e))) = (top (swd (e_387 e)) + 1) mod 8"
  unfolding fpop_swd top_with_top top_add ..

lemma st_index_top: "st_index i e = (i + top (swd (e_387 e))) mod 8"
proof -
  define s where "s = drop_bit 11 (swd (e_387 e))"
  have m: "(7 :: u32) = mask 3" by (simp add: mask_eq_exp_minus_1)
  have u: "unat s = unat (swd (e_387 e)) div 2048"
  proof -
    have "unat s = drop_bit 11 (unat (swd (e_387 e)))" unfolding s_def by (rule unat_drop_bit_eq)
    then show ?thesis by (simp add: drop_bit_eq_div)
  qed
  have "st_index i e = unat (take_bit 3 (of_nat i + s))"
    by (simp only: st_index_def s_def m take_bit_eq_mask)
  also have "\<dots> = take_bit 3 (unat (of_nat i + s))" by (rule unsigned_take_bit_eq)
  also have "of_nat i + s = of_nat (i + unat s)" by simp
  also have "unat (of_nat (i + unat s) :: u32) = (i + unat s) mod 2 ^ 32"
    by (simp only: unat_of_nat take_bit_eq_mod) simp
  also have "take_bit 3 ((i + unat s) mod 2 ^ 32) = (i + unat s) mod 8"
    by (simp add: take_bit_eq_mod mod_mod_cancel)
  finally show ?thesis by (simp add: u top_nat mod_add_right_eq)
qed

subsection \<open>Registers in the 640 bits\<close>

lemma bit_to_80:
  "bit (to_80 t) n \<longleftrightarrow> (if n < 32 then bit (tr_a t) n else if n < 64 then bit (tr_b t) (n - 32)
     else bit (tr_exp t) (n - 64))"
  by (auto simp: to_80_def bit_simps dest: bit_imp_le_length)

lemma real_of_to_80 [simp]: "real_of_80 (to_80 t) = t"
proof -
  have "ucast (to_80 t) = tr_a t" "ucast (drop_bit 32 (to_80 t)) = tr_b t" "ucast (drop_bit 64 (to_80 t)) = tr_exp t"
    by (rule word_eqI_bits, simp add: bit_unsigned_iff bit_drop_bit_eq bit_to_80)+
  then show ?thesis by (simp add: real_of_80_def)
qed

lemma bit_set_reg:
  "i < 8 \<Longrightarrow> bit (set_reg i v w) n \<longleftrightarrow>
     (if 80 * i \<le> n \<and> n < 80 * i + 80 then bit v (n - 80 * i) else bit w n)"
  by (auto simp: set_reg_def bit_or_iff bit_and_iff bit_not_iff bit_push_bit_iff bit_mask_iff bit_unsigned_iff
      dest: bit_imp_le_length)

lemma get_set_reg:
  assumes "i < 8" "j < 8"
  shows "get_reg i (set_reg j v w) = (if i = j then v else get_reg i w)"
proof (rule word_eqI_bits)
  fix n assume n: "n < LENGTH(80)"
  have "80 * i + n < 80 * j \<or> 80 * j + 80 \<le> 80 * i + n" if "i \<noteq> j"
  proof (cases "i < j")
    case True
    then have "80 * Suc i \<le> 80 * j" by (simp only: mult_le_mono2 Suc_leI)
    with n show ?thesis by simp
  next
    case False
    with that have "80 * Suc j \<le> 80 * i" by (intro mult_le_mono2) simp
    then show ?thesis by simp
  qed
  then show "bit (get_reg i (set_reg j v w)) n = bit (if i = j then v else get_reg i w) n"
    using n assms by (auto simp: get_reg_def bit_unsigned_iff bit_drop_bit_eq bit_set_reg)
qed

lemma st_index_less [simp]: "st_index i e < 8"
  by (simp add: st_index_top)

lemma set_ST_simps [simp]:
  "swd (e_387 (set_ST i t e)) = swd (e_387 e)" "st_index j (set_ST i t e) = st_index j e"
  "e_kern (set_ST i t e) = e_kern e" "e_info (set_ST i t e) = e_info e"
  by (simp_all add: set_ST_def upd_387_def st_index_def)

lemma ST_set_ST: "ST i (set_ST j t e) = (if st_index i e = st_index j e then t else ST i e)"
proof -
  have "st_space (e_387 (set_ST j t e)) = set_reg (st_index j e) (to_80 t) (st_space (e_387 e))"
    by (simp add: set_ST_def upd_387_def)
  then show ?thesis by (simp add: ST_def get_set_reg)
qed

lemma mod_add_right_cancel_small:
  "(i + t) mod 8 = (j + t) mod 8 \<Longrightarrow> i < 8 \<Longrightarrow> j < 8 \<Longrightarrow> i = (j :: nat)"
proof -
  assume a: "(i + t) mod 8 = (j + t) mod 8" and l: "i < 8" "j < 8"
  have "(int i + int t) mod 8 = (int j + int t) mod 8"
    using arg_cong[OF a, of int] by (simp add: zmod_int)
  then have "(int i + int t - int t) mod 8 = (int j + int t - int t) mod 8" by (metis mod_diff_left_eq)
  with l show ?thesis by simp
qed

lemma st_index_inj: "i < 8 \<Longrightarrow> j < 8 \<Longrightarrow> st_index i e = st_index j e \<longleftrightarrow> i = j"
proof -
  assume ij: "i < 8" "j < 8"
  have "top (swd (e_387 e)) < 8" by (simp add: top_nat)
  then have "(i + t) mod 8 = (j + t) mod 8 \<Longrightarrow> i = j" if "t = top (swd (e_387 e))" for t
    using ij that by (metis mod_add_right_cancel_small)
  then show ?thesis unfolding st_index_top by auto
qed

lemma st_index_push: "st_index (Suc i) (fpush e) = st_index i e"
proof -
  have "(Suc i + (t + 7) mod 8) mod 8 = (i + t) mod 8" for t
  proof -
    have "(Suc i + (t + 7) mod 8) mod 8 = (Suc i + (t + 7)) mod 8" by (rule mod_add_right_eq)
    also have "Suc i + (t + 7) = i + t + 8" by simp
    finally show ?thesis by simp
  qed
  then show ?thesis unfolding st_index_top top_push .
qed

lemma st_index_pop: "st_index i (fpop e) = st_index (Suc i) e"
  unfolding st_index_top top_pop by (simp add: mod_add_right_eq)

text \<open>Pushing a number makes it \<open>ST(0)\<close> and moves the seven upper registers down by
  one; popping it again gives the old registers and the old status word back.\<close>

theorem stack_push_pop:
  "ST 0 (push_const t e) = t \<and> (\<forall>i < 7. ST (Suc i) (push_const t e) = ST i e) \<and>
   swd (e_387 (fpop (push_const t e))) = swd (e_387 e) \<and> (\<forall>i < 7. ST i (fpop (push_const t e)) = ST i e)"
proof -
  have 1: "ST 0 (push_const t e) = t" by (simp add: push_const_def ST_set_ST)
  have 2: "ST (Suc i) (push_const t e) = ST i e" if "i < 7" for i
  proof -
    have "st_index (Suc i) (fpush e) \<noteq> st_index 0 (fpush e)" using that by (simp add: st_index_inj)
    then have "ST (Suc i) (push_const t e) = ST (Suc i) (fpush e)" by (simp add: push_const_def ST_set_ST)
    then show ?thesis by (simp add: ST_def st_index_push)
  qed
  have 3: "ST i (fpop (push_const t e)) = ST (Suc i) (push_const t e)" for i
    by (simp add: ST_def st_index_pop)
  have "swd (e_387 (fpop (push_const t e))) = swd (e_387 e)"
  proof -
    define s where "s = swd (e_387 e)"
    define p where "p = with_top (s + of_nat (2048 * 7)) s"
    have p: "swd (e_387 (push_const t e)) = p"
      by (simp only: push_const_def set_ST_simps fpush_swd p_def s_def)
    have tp: "top p = (top s + 7) mod 8" by (simp only: p_def top_with_top top_add)
    have "top (p + of_nat (2048 * 1)) = (top p + 1) mod 8" by (rule top_add)
    also have "\<dots> = top s" unfolding tp by (simp add: mod_simps) (simp add: top_nat)
    finally have "with_top (p + of_nat (2048 * 1)) s = s" by (rule with_top_id)
    then show ?thesis unfolding fpop_swd p by (simp only: p_def with_top_twice s_def)
  qed
  with 1 2 3 show ?thesis by simp
qed

definition emu0 :: emu where
  "emu0 = \<lparr>e_kern = kernel0,
     e_info = \<lparr>x_eax = 0, x_ecx = 0, x_edx = 0, x_ebx = 0, x_esp = 0, x_ebp = 0, x_esi = 0, x_edi = 0,
                x_eip = 0, x_orig_eip = 0, x_cs = 0xf\<rparr>,
     e_387 = \<lparr>cwd = 0x37f, swd = 0x1800, twd = 0, fip = 0, fcs = 0, foo = 0, fos = 0, st_space = 5\<rparr>\<rparr>"

theorem stack_push_pop_witness:
  "ST 0 (push_const CONSTPI emu0) = CONSTPI \<and> ST 3 (push_const CONSTPI emu0) = ST 2 emu0 \<and>
   ST 6 (fpop (push_const CONSTPI emu0)) = ST 6 emu0"
proof -
  note r = stack_push_pop[of CONSTPI emu0]
  have "ST (Suc 2) (push_const CONSTPI emu0) = ST 2 emu0" using r by (meson numeral_less_iff semiring_norm)
  moreover have "ST 6 (fpop (push_const CONSTPI emu0)) = ST 6 emu0" using r by (meson numeral_less_iff semiring_norm)
  ultimately show ?thesis using r by simp
qed

end
