(* ===== verification/Screen.thy ===== *)
theory Screen
  imports Kprelude
begin

section \<open>Screens\<close>

text \<open>
  The part of \<^verbatim>\<open>kernel/chr_drv/console.c\<close> that needs no terminal: \<^verbatim>\<open>vc_cons[]\<close>,
  scrolling, erasing, inserting and deleting, the cursor. \<open>vmem\<close> is video memory, in bytes;
  \<open>video_out\<close> are the bytes sent to the video controller's registers (and the register), newest first.
  Sizes, coordinates and addresses are natural numbers; the parameters of an escape sequence are 32-bit words, which
  wrap, and so are the arguments of \<^verbatim>\<open>gotoxy\<close>. A routine takes \<open>c\<close>, the code's
  \<^verbatim>\<open>currcons\<close>; those that may move the hardware's window also take \<open>fg\<close>, the
  console shown (\<^verbatim>\<open>fg_console\<close>).
\<close>

subsection \<open>Data\<close>

datatype esc_state =
    ESnormal | ESesc | ESsquare | ESgetpars | ESgotpars | ESfunckey | ESsetterm | ESsetgraph | ESnone

record vc =
  vc_video_erase_char :: u16
  vc_attr :: u8
  vc_def_attr :: u8
  vc_bold_attr :: int
  vc_ques :: bool
  vc_state :: esc_state
  vc_restate :: esc_state
  vc_checkin :: nat
  vc_origin :: nat
  vc_scr_end :: nat
  vc_pos :: nat
  vc_x :: nat
  vc_y :: nat
  vc_top :: nat
  vc_bottom :: nat
  vc_npar :: nat
  vc_par :: "nat \<Rightarrow> u32"
  vc_video_mem_start :: nat
  vc_video_mem_end :: nat
  vc_saved_x :: nat
  vc_saved_y :: nat
  vc_iscolor :: bool
  vc_graf :: bool

record console =
  vc_cons :: "nat \<Rightarrow> vc"
  vmem :: "nat \<Rightarrow> u8"
  video_type :: u8
  video_num_columns :: nat
  video_num_lines :: nat
  video_size_row :: nat
  video_mem_base :: nat
  video_mem_term :: nat
  video_page :: u16
  video_port_reg :: u16
  video_port_val :: u16
  can_do_colour :: bool
  video_out :: "(u8 \<times> u16) list"

abbreviation (input) NPAR :: nat where "NPAR \<equiv> 16"
abbreviation (input) MAX_CONSOLES :: nat where "MAX_CONSOLES \<equiv> 8"
abbreviation (input) VIDEO_TYPE_MDA :: u8 where "VIDEO_TYPE_MDA \<equiv> 0x10"
abbreviation (input) VIDEO_TYPE_CGA :: u8 where "VIDEO_TYPE_CGA \<equiv> 0x11"
abbreviation (input) VIDEO_TYPE_EGAM :: u8 where "VIDEO_TYPE_EGAM \<equiv> 0x20"
abbreviation (input) VIDEO_TYPE_EGAC :: u8 where "VIDEO_TYPE_EGAC \<equiv> 0x21"

definition upd_vc :: "nat \<Rightarrow> (vc \<Rightarrow> vc) \<Rightarrow> console \<Rightarrow> console" where
  "upd_vc c f k = k\<lparr>vc_cons := (vc_cons k)(c := f (vc_cons k c))\<rparr>"

definition is_ega :: "console \<Rightarrow> bool" where
  "is_ega k \<longleftrightarrow> video_type k = VIDEO_TYPE_EGAC \<or> video_type k = VIDEO_TYPE_EGAM"

text \<open>\<^verbatim>\<open>translations[]\<close>, from the blank on.\<close>

definition NORM_TRANS :: "u8 list" where
  "NORM_TRANS = map of_nat [32..<127] @ [32]"

definition GRAF_TRANS :: "u8 list" where
  "GRAF_TRANS = map of_nat [32..<95] @ [32] @
     [4, 177, 7, 7, 7, 7, 248, 241, 7, 7, 189, 183, 214, 211, 215, 196,
      196, 196, 196, 196, 199, 182, 208, 210, 186, 243, 242, 227, 92, 48, 48, 55, 156, 7, 32]"

definition translated :: "vc \<Rightarrow> u8 \<Rightarrow> u8" where
  "translated v ch = (if vc_graf v then GRAF_TRANS else NORM_TRANS) ! (unat ch - 32)"

subsection \<open>String instructions on video memory\<close>

type_synonym vmemory = "nat \<Rightarrow> u8"

definition get_word :: "nat \<Rightarrow> vmemory \<Rightarrow> u16" where
  "get_word a m = ucast (m a) OR push_bit 8 (ucast (m (a + 1)))"

definition put_word :: "nat \<Rightarrow> u16 \<Rightarrow> vmemory \<Rightarrow> vmemory" where
  "put_word a w m = m(a := ucast w, a + 1 := ucast (drop_bit 8 w))"

text \<open>\<^verbatim>\<open>rep stosw\<close> upwards and (with the direction flag set) downwards.\<close>

primrec stosw :: "nat \<Rightarrow> nat \<Rightarrow> u16 \<Rightarrow> vmemory \<Rightarrow> vmemory" where
  "stosw 0 di ax m = m"
| "stosw (Suc n) di ax m = stosw n (di + 2) ax (put_word di ax m)"

primrec stosw_down :: "nat \<Rightarrow> nat \<Rightarrow> u16 \<Rightarrow> vmemory \<Rightarrow> vmemory" where
  "stosw_down 0 di ax m = m"
| "stosw_down (Suc n) di ax m = stosw_down n (di - 2) ax (put_word di ax m)"

definition move_long :: "nat \<Rightarrow> nat \<Rightarrow> vmemory \<Rightarrow> vmemory" where
  "move_long si di m = m(di := m si, di + 1 := m (si + 1), di + 2 := m (si + 2), di + 3 := m (si + 3))"

primrec movsl :: "nat \<Rightarrow> nat \<Rightarrow> nat \<Rightarrow> vmemory \<Rightarrow> vmemory" where
  "movsl 0 si di m = m"
| "movsl (Suc n) si di m = movsl n (si + 4) (di + 4) (move_long si di m)"

primrec movsl_down :: "nat \<Rightarrow> nat \<Rightarrow> nat \<Rightarrow> vmemory \<Rightarrow> vmemory" where
  "movsl_down 0 si di m = m"
| "movsl_down (Suc n) si di m = movsl_down n (si - 4) (di - 4) (move_long si di m)"

definition upd_vmem :: "(vmemory \<Rightarrow> vmemory) \<Rightarrow> console \<Rightarrow> console" where
  "upd_vmem f k = k\<lparr>vmem := f (vmem k)\<rparr>"

subsection \<open>The video controller\<close>

definition video_reg :: "u8 \<Rightarrow> u8 \<Rightarrow> console \<Rightarrow> console" where
  "video_reg r v k = k\<lparr>video_out := (v, video_port_val k) # (r, video_port_reg k) # video_out k\<rparr>"

definition video_addr :: "u8 \<Rightarrow> nat \<Rightarrow> console \<Rightarrow> console" where
  "video_addr r a k =
     (let d = a - video_mem_base k in
      video_reg (r + 1) (of_nat (d div 2)) (video_reg r (of_nat (d div 512)) k))"

definition set_origin :: "nat \<Rightarrow> nat \<Rightarrow> console \<Rightarrow> console" where
  "set_origin fg c k =
     (if \<not> is_ega k \<or> c \<noteq> fg then k else video_addr 12 (vc_origin (vc_cons k c)) k)"

definition hide_cursor :: "nat \<Rightarrow> console \<Rightarrow> console" where
  "hide_cursor c k = video_addr 14 (vc_scr_end (vc_cons k c)) k"

text \<open>What \<^verbatim>\<open>set_cursor\<close> does beside resetting \<^verbatim>\<open>blankcount\<close>.\<close>

definition show_cursor :: "nat \<Rightarrow> nat \<Rightarrow> console \<Rightarrow> console" where
  "show_cursor fg c k = (if c \<noteq> fg then k else video_addr 14 (vc_pos (vc_cons k c)) k)"

subsection \<open>Moving and scrolling\<close>

definition gotoxy :: "nat \<Rightarrow> u32 \<Rightarrow> u32 \<Rightarrow> console \<Rightarrow> console" where
  "gotoxy c new_x new_y k =
     (if video_num_columns k < unat new_x \<or> video_num_lines k \<le> unat new_y then k
      else upd_vc c (\<lambda>v. v\<lparr>vc_x := unat new_x, vc_y := unat new_y,
             vc_pos := vc_origin v + unat new_y * video_size_row k + 2 * unat new_x\<rparr>) k)"

text \<open>The copy of the lines below the first one of the scrolling region, and the blank line.\<close>

definition scroll_region_up :: "nat \<Rightarrow> console \<Rightarrow> console" where
  "scroll_region_up c k =
     (let v = vc_cons k c; row = video_size_row k; n = (vc_bottom v - vc_top v - 1) * video_num_columns k div 2;
          di = vc_origin v + row * vc_top v; si = vc_origin v + row * (vc_top v + 1)
      in upd_vmem (\<lambda>m. stosw (video_num_columns k) (di + 4 * n) (vc_video_erase_char v) (movsl n si di m)) k)"

definition scrup :: "nat \<Rightarrow> nat \<Rightarrow> console \<Rightarrow> console" where
  "scrup fg c k =
     (let v = vc_cons k c; row = video_size_row k; cols = video_num_columns k in
      if vc_bottom v \<le> vc_top v then k
      else if is_ega k then
        (if vc_top v = 0 \<and> vc_bottom v = video_num_lines k then
           let k = upd_vc c (\<lambda>v. v\<lparr>vc_origin := vc_origin v + row, vc_pos := vc_pos v + row,
                     vc_scr_end := vc_scr_end v + row\<rparr>) k;
               v = vc_cons k c;
               k = (if vc_video_mem_end v < vc_scr_end v then
                      let n = (video_num_lines k - 1) * cols div 2; start = vc_video_mem_start v;
                          k = upd_vmem (\<lambda>m. stosw cols (start + 4 * n) (vc_video_erase_char v)
                                (movsl n (vc_origin v) start m)) k;
                          d = vc_origin v - start
                      in upd_vc c (\<lambda>v. v\<lparr>vc_scr_end := vc_scr_end v - d, vc_pos := vc_pos v - d, vc_origin := start\<rparr>) k
                    else upd_vmem (stosw cols (vc_scr_end v - row) (vc_video_erase_char v)) k)
           in set_origin fg c k
         else scroll_region_up c k)
      else scroll_region_up c k)"

text \<open>Both branches of \<^verbatim>\<open>scrdown\<close> are the same.\<close>

definition scrdown :: "nat \<Rightarrow> console \<Rightarrow> console" where
  "scrdown c k =
     (let v = vc_cons k c; row = video_size_row k; cols = video_num_columns k;
          n = (vc_bottom v - vc_top v - 1) * cols div 2; di = vc_origin v + row * vc_bottom v - 4
      in if vc_bottom v \<le> vc_top v then k
         else upd_vmem (\<lambda>m. stosw_down cols (di - 4 * n + 2) (vc_video_erase_char v)
                (movsl_down n (vc_origin v + row * (vc_bottom v - 1) - 4) di m)) k)"

definition lf :: "nat \<Rightarrow> nat \<Rightarrow> console \<Rightarrow> console" where
  "lf fg c k =
     (let v = vc_cons k c in
      if vc_y v + 1 < vc_bottom v
      then upd_vc c (\<lambda>v. v\<lparr>vc_y := vc_y v + 1, vc_pos := vc_pos v + video_size_row k\<rparr>) k
      else scrup fg c k)"

definition ri :: "nat \<Rightarrow> console \<Rightarrow> console" where
  "ri c k =
     (let v = vc_cons k c in
      if vc_top v < vc_y v
      then upd_vc c (\<lambda>v. v\<lparr>vc_y := vc_y v - 1, vc_pos := vc_pos v - video_size_row k\<rparr>) k
      else scrdown c k)"

definition cr :: "nat \<Rightarrow> console \<Rightarrow> console" where
  "cr c = upd_vc c (\<lambda>v. v\<lparr>vc_pos := vc_pos v - 2 * vc_x v, vc_x := 0\<rparr>)"

definition step_left :: "nat \<Rightarrow> console \<Rightarrow> console" where
  "step_left c k =
     (if vc_x (vc_cons k c) = 0 then k
      else upd_vc c (\<lambda>v. v\<lparr>vc_pos := vc_pos v - 2, vc_x := vc_x v - 1\<rparr>) k)"

definition del :: "nat \<Rightarrow> console \<Rightarrow> console" where
  "del c k =
     (if vc_x (vc_cons k c) = 0 then k
      else let k = step_left c k; v = vc_cons k c in
        upd_vmem (put_word (vc_pos v) (vc_video_erase_char v)) k)"

text \<open>At the end of a line the next character goes to the line below.\<close>

definition wrap_line :: "nat \<Rightarrow> nat \<Rightarrow> console \<Rightarrow> console" where
  "wrap_line fg c k =
     lf fg c (upd_vc c (\<lambda>v. v\<lparr>vc_x := vc_x v - video_num_columns k, vc_pos := vc_pos v - video_size_row k\<rparr>) k)"

definition put_glyph :: "nat \<Rightarrow> nat \<Rightarrow> u8 \<Rightarrow> console \<Rightarrow> console" where
  "put_glyph fg c g k =
     (let k = (if video_num_columns k \<le> vc_x (vc_cons k c) then wrap_line fg c k else k);
          v = vc_cons k c;
          k = upd_vmem (put_word (vc_pos v) (ucast g OR push_bit 8 (ucast (vc_attr v)))) k
      in upd_vc c (\<lambda>v. v\<lparr>vc_pos := vc_pos v + 2, vc_x := vc_x v + 1\<rparr>) k)"

definition tab_stop :: "nat \<Rightarrow> nat \<Rightarrow> console \<Rightarrow> console" where
  "tab_stop fg c k =
     (let n = 8 - vc_x (vc_cons k c) mod 8;
          k = upd_vc c (\<lambda>v. v\<lparr>vc_x := vc_x v + n, vc_pos := vc_pos v + 2 * n\<rparr>) k
      in if video_num_columns k < vc_x (vc_cons k c) then wrap_line fg c k else k)"

definition save_cur :: "nat \<Rightarrow> console \<Rightarrow> console" where
  "save_cur c = upd_vc c (\<lambda>v. v\<lparr>vc_saved_x := vc_x v, vc_saved_y := vc_y v\<rparr>)"

definition restore_cur :: "nat \<Rightarrow> console \<Rightarrow> console" where
  "restore_cur c k =
     gotoxy c (of_nat (vc_saved_x (vc_cons k c))) (of_nat (vc_saved_y (vc_cons k c))) k"

subsection \<open>Erasing\<close>

definition csi_J :: "nat \<Rightarrow> u32 \<Rightarrow> console \<Rightarrow> console" where
  "csi_J c vpar k =
     (let v = vc_cons k c; fill = (\<lambda>n a. upd_vmem (stosw n a (vc_video_erase_char v)) k) in
      if vpar = 0 then fill ((vc_scr_end v - vc_pos v) div 2) (vc_pos v)
      else if vpar = 1 then fill ((vc_pos v - vc_origin v) div 2) (vc_origin v)
      else if vpar = 2 then fill (video_num_columns k * video_num_lines k) (vc_origin v)
      else k)"

definition csi_K :: "nat \<Rightarrow> u32 \<Rightarrow> console \<Rightarrow> console" where
  "csi_K c vpar k =
     (let v = vc_cons k c; cols = video_num_columns k;
          fill = (\<lambda>n a. upd_vmem (stosw n a (vc_video_erase_char v)) k)
      in if vpar = 0 then (if cols \<le> vc_x v then k else fill (cols - vc_x v) (vc_pos v))
         else if vpar = 1 then fill (if vc_x v < cols then vc_x v else cols) (vc_pos v - 2 * vc_x v)
         else if vpar = 2 then fill cols (vc_pos v - 2 * vc_x v)
         else k)"

subsection \<open>Inserting and deleting\<close>

primrec shift_right :: "nat \<Rightarrow> nat \<Rightarrow> u16 \<Rightarrow> vmemory \<Rightarrow> vmemory" where
  "shift_right 0 p old m = m"
| "shift_right (Suc n) p old m = shift_right n (p + 2) (get_word p m) (put_word p old m)"

definition insert_char :: "nat \<Rightarrow> console \<Rightarrow> console" where
  "insert_char c k =
     (let v = vc_cons k c in
      upd_vmem (shift_right (video_num_columns k - vc_x v) (vc_pos v) (vc_video_erase_char v)) k)"

primrec shift_left :: "nat \<Rightarrow> nat \<Rightarrow> vmemory \<Rightarrow> vmemory" where
  "shift_left 0 p m = m"
| "shift_left (Suc n) p m = shift_left n (p + 2) (put_word p (get_word (p + 2) m) m)"

definition delete_char :: "nat \<Rightarrow> console \<Rightarrow> console" where
  "delete_char c k =
     (let v = vc_cons k c; n = video_num_columns k - vc_x v - 1 in
      if video_num_columns k \<le> vc_x v then k
      else upd_vmem (\<lambda>m. put_word (vc_pos v + 2 * n) (vc_video_erase_char v) (shift_left n (vc_pos v) m)) k)"

definition with_region :: "nat \<Rightarrow> nat \<Rightarrow> nat \<Rightarrow> (console \<Rightarrow> console) \<Rightarrow> console \<Rightarrow> console" where
  "with_region c t b f k =
     (let v = vc_cons k c in
      upd_vc c (\<lambda>w. w\<lparr>vc_top := vc_top v, vc_bottom := vc_bottom v\<rparr>)
        (f (upd_vc c (\<lambda>w. w\<lparr>vc_top := t, vc_bottom := b\<rparr>) k)))"

definition insert_line :: "nat \<Rightarrow> console \<Rightarrow> console" where
  "insert_line c k = with_region c (vc_y (vc_cons k c)) (video_num_lines k) (scrdown c) k"

definition delete_line :: "nat \<Rightarrow> nat \<Rightarrow> console \<Rightarrow> console" where
  "delete_line fg c k = with_region c (vc_y (vc_cons k c)) (video_num_lines k) (scrup fg c) k"

definition clamp :: "u32 \<Rightarrow> nat \<Rightarrow> nat" where
  "clamp nr m = (if m < unat nr then m else if nr = 0 then 1 else unat nr)"

definition csi_at :: "nat \<Rightarrow> u32 \<Rightarrow> console \<Rightarrow> console" where
  "csi_at c nr k = (insert_char c ^^ clamp nr (video_num_columns k)) k"

definition csi_L :: "nat \<Rightarrow> u32 \<Rightarrow> console \<Rightarrow> console" where
  "csi_L c nr k = (insert_line c ^^ clamp nr (video_num_lines k)) k"

definition csi_P :: "nat \<Rightarrow> u32 \<Rightarrow> console \<Rightarrow> console" where
  "csi_P c nr k = (delete_char c ^^ clamp nr (video_num_columns k)) k"

definition csi_M :: "nat \<Rightarrow> nat \<Rightarrow> u32 \<Rightarrow> console \<Rightarrow> console" where
  "csi_M fg c nr k = (delete_line fg c ^^ clamp nr (video_num_lines k)) k"

subsection \<open>Attributes\<close>

definition bold4 :: "vc \<Rightarrow> u8" where
  "bold4 v =
     (let a = vc_attr v in
      if \<not> vc_iscolor v then a OR 1
      else if vc_bold_attr v \<noteq> -1 then (of_int (vc_bold_attr v) AND 0x0f) OR (0xf0 AND a)
      else let newattr = (a AND 0xf0) OR (0xf AND NOT a) in
        if newattr AND 0xf = drop_bit 4 a AND 0xf
        then (a AND 0xf0) OR (((a AND 0xf) + 1) mod 0xf) else newattr)"

definition set_attr :: "u8 \<Rightarrow> vc \<Rightarrow> vc" where
  "set_attr a v = v\<lparr>vc_attr := a\<rparr>"

definition csi_m_par :: "bool \<Rightarrow> u32 \<Rightarrow> vc \<Rightarrow> vc" where
  "csi_m_par colour p v =
     (let a = vc_attr v; d = vc_def_attr v in
      if p = 0 then set_attr d v
      else if p = 1 then set_attr (if vc_iscolor v then a OR 0x08 else a OR 0x0f) v
      else if p = 4 then set_attr (bold4 v) v
      else if p = 5 then set_attr (a OR 0x80) v
      else if p = 7 then set_attr (push_bit 4 a OR drop_bit 4 a) v
      else if p = 22 then set_attr (a AND 0xf7) v
      else if p = 24 then set_attr (a AND 0xfe) v
      else if p = 25 then set_attr (a AND 0x7f) v
      else if p = 27 then set_attr d v
      else if p = 39 then set_attr ((a AND 0xf0) OR (d AND 0x0f)) v
      else if p = 49 then set_attr ((a AND 0x0f) OR (d AND 0xf0)) v
      else if \<not> colour then v
      else let v = v\<lparr>vc_iscolor := True\<rparr> in
        if 30 \<le> p \<and> p \<le> 38 then set_attr ((a AND 0xf0) OR ucast (p - 30)) v
        else if 40 \<le> p \<and> p \<le> 48 then set_attr ((a AND 0x0f) OR push_bit 4 (ucast (p - 40))) v
        else v)"

definition csi_m :: "nat \<Rightarrow> console \<Rightarrow> console" where
  "csi_m c k =
     upd_vc c (\<lambda>v. fold (\<lambda>i. csi_m_par (can_do_colour k) (vc_par v i)) [0..<vc_npar v + 1] v) k"

subsection \<open>The last character of an escape sequence\<close>

text \<open>\<open>dec_par\<close> and \<open>inc_par\<close> are \<^verbatim>\<open>if (par[n]) par[n]--\<close> and
  \<^verbatim>\<open>if (!par[0]) par[0]++\<close>, which write the array.\<close>

definition set_par :: "nat \<Rightarrow> nat \<Rightarrow> u32 \<Rightarrow> console \<Rightarrow> console" where
  "set_par c n p = upd_vc c (\<lambda>v. v\<lparr>vc_par := (vc_par v)(n := p)\<rparr>)"

definition dec_par :: "nat \<Rightarrow> nat \<Rightarrow> console \<Rightarrow> console" where
  "dec_par c n k = (let p = vc_par (vc_cons k c) n in if p \<noteq> 0 then set_par c n (p - 1) k else k)"

definition inc_par :: "nat \<Rightarrow> nat \<Rightarrow> console \<Rightarrow> console" where
  "inc_par c n k = (let p = vc_par (vc_cons k c) n in if p = 0 then set_par c n 1 k else k)"

definition set_region :: "nat \<Rightarrow> console \<Rightarrow> console" where
  "set_region c k =
     (let k = dec_par c 0 k;
          k = (if vc_par (vc_cons k c) 1 = 0 then set_par c 1 (of_nat (video_num_lines k)) k else k);
          p = vc_par (vc_cons k c)
      in if p 0 < p 1 \<and> unat (p 1) \<le> video_num_lines k
         then upd_vc c (\<lambda>v. v\<lparr>vc_top := unat (p 0), vc_bottom := unat (p 1)\<rparr>) k else k)"

text \<open>A cursor motion: \<open>f\<close> gives the new place from the parameters and the old place.\<close>

definition motion :: "nat \<Rightarrow> ((nat \<Rightarrow> u32) \<Rightarrow> u32 \<Rightarrow> u32 \<Rightarrow> u32 \<times> u32) \<Rightarrow> console \<Rightarrow> console" where
  "motion c f k =
     (let v = vc_cons k c; (x, y) = f (vc_par v) (of_nat (vc_x v)) (of_nat (vc_y v)) in gotoxy c x y k)"

text \<open>All the codes of \<^verbatim>\<open>case ESgotpars\<close> but \<^verbatim>\<open>l\<close> and \<^verbatim>\<open>b\<close>. A
  character is written as its code.\<close>

definition csi_dispatch :: "nat \<Rightarrow> nat \<Rightarrow> u8 \<Rightarrow> console \<Rightarrow> console" where
  "csi_dispatch fg c ch k =
     (let p0 = vc_par (vc_cons k c) 0 in
      if ch = 71 \<or> ch = 96 then motion c (\<lambda>p x y. (p 0, y)) (dec_par c 0 k)
      else if ch = 65 then motion c (\<lambda>p x y. (x, y - p 0)) (inc_par c 0 k)
      else if ch = 66 \<or> ch = 101 then motion c (\<lambda>p x y. (x, y + p 0)) (inc_par c 0 k)
      else if ch = 67 \<or> ch = 97 then motion c (\<lambda>p x y. (x + p 0, y)) (inc_par c 0 k)
      else if ch = 68 then motion c (\<lambda>p x y. (x - p 0, y)) (inc_par c 0 k)
      else if ch = 69 then motion c (\<lambda>p x y. (0, y + p 0)) (inc_par c 0 k)
      else if ch = 70 then motion c (\<lambda>p x y. (0, y - p 0)) (inc_par c 0 k)
      else if ch = 100 then motion c (\<lambda>p x y. (x, p 0)) (dec_par c 0 k)
      else if ch = 72 \<or> ch = 102 then motion c (\<lambda>p x y. (p 1, p 0)) (dec_par c 1 (dec_par c 0 k))
      else if ch = 74 then csi_J c p0 k
      else if ch = 75 then csi_K c p0 k
      else if ch = 76 then csi_L c p0 k
      else if ch = 77 then csi_M fg c p0 k
      else if ch = 80 then csi_P c p0 k
      else if ch = 64 then csi_at c p0 k
      else if ch = 109 then csi_m c k
      else if ch = 114 then set_region c k
      else if ch = 115 then save_cur c k
      else if ch = 117 then restore_cur c k
      else k)"

end
