(* ===== verification/Tty.thy ===== *)
theory Tty
  imports Exit Screen
begin

section \<open>Terminals\<close>

text \<open>
  \<^verbatim>\<open>include/linux/tty.h\<close>, \<^verbatim>\<open>kernel/chr_drv/{tty_io,tty_ioctl,pty,serial}.c\<close> and the
  flags of \<^verbatim>\<open>include/termios.h\<close>. The state is the process table together with the terminals;
  a terminal is its number in \<^verbatim>\<open>tty_table[]\<close>, a queue its number in
  \<^verbatim>\<open>tty_queues[]\<close>. A \<^verbatim>\<open>char\<close> is signed where the code compares it (\<open>cval\<close>).

  Parameters (\<open>tenv\<close>): what other processes and interrupts do while the current one sleeps
  (\<open>t_others\<close>), the routines of \<^verbatim>\<open>console.c\<close> (\<open>con_write\<close>, \<open>update_screen\<close>,
  \<open>con_init\<close>), which \<open>Console\<close> models and puts in, what an input port reads (\<open>in_port\<close>). Terminals write to each other (a pseudo
  terminal's master and slave), so \<open>depth\<close> bounds how deep \<^verbatim>\<open>copy_to_cooked\<close> may nest and
  \<open>steps\<close> how often a loop may go round; a loop that is not done then reports \<open>Sleeps\<close>.
\<close>

subsection \<open>Data\<close>

record tty_queue =
  q_data :: u32
  q_head :: u32
  q_tail :: u32
  q_wait :: "nat option"
  q_buf :: "nat \<Rightarrow> u8"

record termios =
  c_iflag :: u32
  c_oflag :: u32
  c_cflag :: u32
  c_lflag :: u32
  c_line :: u8
  c_cc :: "nat \<Rightarrow> u8"
  c_pad :: "nat \<Rightarrow> u8"

datatype tty_writer = NoWrite | ConWrite | RsWrite | MptyWrite | SptyWrite

record tty_struct =
  termios :: termios
  tt_pgrp :: int
  tt_session :: int
  tt_stopped :: bool
  tt_write :: tty_writer
  tt_read_q :: "nat option"
  tt_write_q :: "nat option"
  tt_secondary :: "nat option"

record terminals =
  tqueues :: "nat \<Rightarrow> tty_queue"
  tty_table :: "nat \<Rightarrow> tty_struct"
  fg_console :: nat
  nr_consoles :: nat
  cr_flag :: bool
  table_list :: "nat \<Rightarrow> nat"
  screen :: console

record tsys =
  tk :: kernel
  tt :: terminals

record tenv =
  t_others :: "tsys \<Rightarrow> tsys"
  con_write :: "nat \<Rightarrow> tsys \<Rightarrow> (tsys, unit) res"
  update_screen :: "tsys \<Rightarrow> tsys"
  con_init :: "tsys \<Rightarrow> tsys"
  in_port :: "u16 \<Rightarrow> tsys \<Rightarrow> u8"
  depth :: nat
  steps :: nat

type_synonym 'a tres = "(tsys, 'a) res"

abbreviation (input) TTY_BUF_SIZE :: nat where "TTY_BUF_SIZE \<equiv> 1024"

subsection \<open>Queues\<close>

definition EMPTY :: "tty_queue \<Rightarrow> bool" where
  "EMPTY q \<longleftrightarrow> q_head q = q_tail q"

definition LEFT :: "tty_queue \<Rightarrow> nat" where
  "LEFT q = unat ((q_tail q - q_head q - 1) AND 1023)"

definition FULL :: "tty_queue \<Rightarrow> bool" where
  "FULL q \<longleftrightarrow> LEFT q = 0"

definition CHARS :: "tty_queue \<Rightarrow> nat" where
  "CHARS q = unat ((q_head q - q_tail q) AND 1023)"

definition LAST :: "tty_queue \<Rightarrow> u8" where
  "LAST q = q_buf q (unat (1023 AND (q_head q - 1)))"

definition PUTCH :: "u8 \<Rightarrow> tty_queue \<Rightarrow> tty_queue" where
  "PUTCH c q = q\<lparr>q_buf := (q_buf q)(unat (q_head q) := c), q_head := (q_head q + 1) AND 1023\<rparr>"

definition GETCH :: "tty_queue \<Rightarrow> u8 \<times> tty_queue" where
  "GETCH q = (q_buf q (unat (q_tail q)), q\<lparr>q_tail := (q_tail q + 1) AND 1023\<rparr>)"

definition DEC_head :: "tty_queue \<Rightarrow> tty_queue" where
  "DEC_head q = q\<lparr>q_head := (q_head q - 1) AND 1023\<rparr>"

subsection \<open>Access\<close>

definition upd_tk :: "(kernel \<Rightarrow> kernel) \<Rightarrow> tsys \<Rightarrow> tsys" where
  "upd_tk f s = s\<lparr>tk := f (tk s)\<rparr>"

definition upd_queue :: "nat \<Rightarrow> (tty_queue \<Rightarrow> tty_queue) \<Rightarrow> tsys \<Rightarrow> tsys" where
  "upd_queue i f s = s\<lparr>tt := (tt s)\<lparr>tqueues := (tqueues (tt s))(i := f (tqueues (tt s) i))\<rparr>\<rparr>"

definition upd_tty :: "nat \<Rightarrow> (tty_struct \<Rightarrow> tty_struct) \<Rightarrow> tsys \<Rightarrow> tsys" where
  "upd_tty i f s = s\<lparr>tt := (tt s)\<lparr>tty_table := (tty_table (tt s))(i := f (tty_table (tt s) i))\<rparr>\<rparr>"

definition tty :: "nat \<Rightarrow> tsys \<Rightarrow> tty_struct" where
  "tty i s = tty_table (tt s) i"

definition the_queue :: "nat \<Rightarrow> tsys \<Rightarrow> tty_queue" where
  "the_queue i s = tqueues (tt s) i"

definition rq :: "nat \<Rightarrow> tsys \<Rightarrow> nat" where "rq i s = the (tt_read_q (tty i s))"
definition wq :: "nat \<Rightarrow> tsys \<Rightarrow> nat" where "wq i s = the (tt_write_q (tty i s))"
definition sq :: "nat \<Rightarrow> tsys \<Rightarrow> nat" where "sq i s = the (tt_secondary (tty i s))"

definition no_queues :: "nat \<Rightarrow> tsys \<Rightarrow> bool" where
  "no_queues i s \<longleftrightarrow> tt_read_q (tty i s) = None \<and> tt_write_q (tty i s) = None \<and> tt_secondary (tty i s) = None"

definition TTY_TABLE :: "nat \<Rightarrow> tsys \<Rightarrow> nat" where
  "TTY_TABLE nr s = (if nr \<noteq> 0 then (if nr < 64 then nr - 1 else nr) else fg_console (tt s))"

definition IS_A_PTY_MASTER :: "nat \<Rightarrow> bool" where "IS_A_PTY_MASTER m \<longleftrightarrow> m div 64 mod 4 = 2"
definition IS_A_PTY_SLAVE :: "nat \<Rightarrow> bool" where "IS_A_PTY_SLAVE m \<longleftrightarrow> m div 64 mod 4 = 3"

text \<open>Flags, and the control characters; 0 disables one.\<close>

definition L_FLAG :: "u32 \<Rightarrow> nat \<Rightarrow> tsys \<Rightarrow> bool" where
  "L_FLAG f i s \<longleftrightarrow> c_lflag (termios (tty i s)) AND f \<noteq> 0"
definition I_FLAG :: "u32 \<Rightarrow> nat \<Rightarrow> tsys \<Rightarrow> bool" where
  "I_FLAG f i s \<longleftrightarrow> c_iflag (termios (tty i s)) AND f \<noteq> 0"
definition O_FLAG :: "u32 \<Rightarrow> nat \<Rightarrow> tsys \<Rightarrow> bool" where
  "O_FLAG f i s \<longleftrightarrow> c_oflag (termios (tty i s)) AND f \<noteq> 0"
definition C_HUP :: "nat \<Rightarrow> tsys \<Rightarrow> bool" where
  "C_HUP i s \<longleftrightarrow> c_cflag (termios (tty i s)) AND 15 = 0"

abbreviation (input) ISIG :: u32 where "ISIG \<equiv> 1"
abbreviation (input) ICANON :: u32 where "ICANON \<equiv> 2"
abbreviation (input) ECHO :: u32 where "ECHO \<equiv> 8"
abbreviation (input) TOSTOP :: u32 where "TOSTOP \<equiv> 0x100"
abbreviation (input) ECHOCTL :: u32 where "ECHOCTL \<equiv> 0x200"
abbreviation (input) ECHOKE :: u32 where "ECHOKE \<equiv> 0x800"
abbreviation (input) INLCR :: u32 where "INLCR \<equiv> 0x40"
abbreviation (input) IGNCR :: u32 where "IGNCR \<equiv> 0x80"
abbreviation (input) ICRNL :: u32 where "ICRNL \<equiv> 0x100"
abbreviation (input) IUCLC :: u32 where "IUCLC \<equiv> 0x200"
abbreviation (input) IXON :: u32 where "IXON \<equiv> 0x400"
abbreviation (input) OPOST :: u32 where "OPOST \<equiv> 1"
abbreviation (input) OLCUC :: u32 where "OLCUC \<equiv> 2"
abbreviation (input) ONLCR :: u32 where "ONLCR \<equiv> 4"
abbreviation (input) OCRNL :: u32 where "OCRNL \<equiv> 8"
abbreviation (input) ONLRET :: u32 where "ONLRET \<equiv> 0x20"

definition cc :: "nat \<Rightarrow> nat \<Rightarrow> tsys \<Rightarrow> u8" where
  "cc v i s = c_cc (termios (tty i s)) v"

abbreviation (input) "VINTR \<equiv> 0 :: nat"
abbreviation (input) "VQUIT \<equiv> 1 :: nat"
abbreviation (input) "VERASE \<equiv> 2 :: nat"
abbreviation (input) "VKILL \<equiv> 3 :: nat"
abbreviation (input) "VEOF \<equiv> 4 :: nat"
abbreviation (input) "VTIME \<equiv> 5 :: nat"
abbreviation (input) "VMIN \<equiv> 6 :: nat"
abbreviation (input) "VSTART \<equiv> 8 :: nat"
abbreviation (input) "VSTOP \<equiv> 9 :: nat"
abbreviation (input) "VSUSP \<equiv> 10 :: nat"

definition cval :: "u8 \<Rightarrow> int" where
  "cval c = sint c"

definition is_cc :: "nat \<Rightarrow> nat \<Rightarrow> u8 \<Rightarrow> tsys \<Rightarrow> bool" where
  "is_cc v i c s \<longleftrightarrow> cc v i s \<noteq> 0 \<and> cval c = uint (cc v i s)"

definition tolower :: "u8 \<Rightarrow> u8" where
  "tolower c = (if 65 \<le> c \<and> c \<le> 90 then c + 32 else c)"

definition toupper :: "u8 \<Rightarrow> u8" where
  "toupper c = (if 97 \<le> c \<and> c \<le> 122 then c - 32 else c)"

definition pending :: "tsys \<Rightarrow> bool" where
  "pending s \<longleftrightarrow> t_signal (cur (tk s)) AND NOT (t_blocked (cur (tk s))) \<noteq> 0"

definition t_sleep :: "tenv \<Rightarrow> tsys \<Rightarrow> unit tres" where
  "t_sleep E s =
     (if current (tk s) = 0 then stopK (Panic ''task[0] trying to sleep'') s else retK () (t_others E s))"

definition t_sleep_while :: "tenv \<Rightarrow> (tsys \<Rightarrow> bool) \<Rightarrow> tsys \<Rightarrow> unit tres" where
  "t_sleep_while E busy s =
     (if \<not> busy s then retK () s
      else bindK (t_sleep E s) (\<lambda>_ s. if busy s then stopK (Sleeps ''tty'') s else retK () s))"

definition sleep_if_empty :: "tenv \<Rightarrow> nat \<Rightarrow> tsys \<Rightarrow> unit tres" where
  "sleep_if_empty E q = t_sleep_while E (\<lambda>s. \<not> pending s \<and> EMPTY (the_queue q s))"

definition sleep_if_full :: "tenv \<Rightarrow> nat \<Rightarrow> tsys \<Rightarrow> unit tres" where
  "sleep_if_full E q s =
     (if \<not> FULL (the_queue q s) then retK () s
      else t_sleep_while E (\<lambda>s. \<not> pending s \<and> LEFT (the_queue q s) < 128) s)"

definition wait_for_keypress :: "tenv \<Rightarrow> tsys \<Rightarrow> unit tres" where
  "wait_for_keypress E s = sleep_if_empty E (sq (fg_console (tt s)) s) s"

definition change_console :: "tenv \<Rightarrow> nat \<Rightarrow> tsys \<Rightarrow> tsys" where
  "change_console E new s =
     (if new = fg_console (tt s) \<or> nr_consoles (tt s) \<le> new then s
      else update_screen E (s\<lparr>tt := (tt s)\<lparr>fg_console := new,
             table_list := (table_list (tt s))(0 := 3 * new, 1 := 1 + 3 * new)\<rparr>\<rparr>))"

subsection \<open>From the read queue to the secondary queue\<close>

text \<open>\<open>W\<close> is \<^verbatim>\<open>tty->write\<close>.\<close>

type_synonym write_fn = "nat \<Rightarrow> tsys \<Rightarrow> unit tres"

definition put_w :: "u8 \<Rightarrow> nat \<Rightarrow> tsys \<Rightarrow> tsys" where
  "put_w c i s = upd_queue (wq i s) (PUTCH c) s"

text \<open>The character \<open>c\<close> at the end of the line is rubbed out on the screen.\<close>

definition rub_out :: "write_fn \<Rightarrow> nat \<Rightarrow> u8 \<Rightarrow> tsys \<Rightarrow> unit tres" where
  "rub_out W i c s =
     bindK (if L_FLAG ECHO i s then W i (put_w 127 i (if cval c < 32 then put_w 127 i s else s)) else retK () s)
       (\<lambda>_ s. retK () (upd_queue (sq i s) DEC_head s))"

definition at_line_start :: "nat \<Rightarrow> tsys \<Rightarrow> bool" where
  "at_line_start i s \<longleftrightarrow>
     (let q = the_queue (sq i s) s in EMPTY q \<or> cval (LAST q) = 10 \<or> is_cc VEOF i (LAST q) s)"

primrec kill_line :: "nat \<Rightarrow> write_fn \<Rightarrow> nat \<Rightarrow> tsys \<Rightarrow> unit tres" where
  "kill_line 0 W i s = (if at_line_start i s then retK () s else stopK (Sleeps ''copy_to_cooked'') s)"
| "kill_line (Suc n) W i s =
     (if at_line_start i s then retK () s
      else bindK (rub_out W i (LAST (the_queue (sq i s) s)) s) (\<lambda>_. kill_line n W i))"

text \<open>Translation of an input character; \<open>None\<close> when it is dropped.\<close>

definition translate :: "nat \<Rightarrow> u8 \<Rightarrow> tsys \<Rightarrow> u8 option" where
  "translate i c s =
     (if c = 13 \<and> \<not> I_FLAG ICRNL i s \<and> I_FLAG IGNCR i s then None
      else let c = (if c = 13 \<and> I_FLAG ICRNL i s then 10 else if c = 10 \<and> I_FLAG INLCR i s then 13 else c)
           in Some (if I_FLAG IUCLC i s then tolower c else c))"

definition echo :: "write_fn \<Rightarrow> nat \<Rightarrow> u8 \<Rightarrow> tsys \<Rightarrow> unit tres" where
  "echo W i c s =
     W i (if c = 10 then put_w 13 i (put_w 10 i s)
          else if cval c < 32 then
            (if L_FLAG ECHOCTL i s then put_w (c + 64) i (put_w 94 i s) else s)
          else put_w c i s)"

definition kill_fg :: "int \<Rightarrow> nat \<Rightarrow> tsys \<Rightarrow> unit tres" where
  "kill_fg sig i s = retK () (upd_tk (\<lambda>k. snd (kill_pg (tt_pgrp (tty i s)) sig True k)) s)"

definition cook_char :: "write_fn \<Rightarrow> nat \<Rightarrow> u8 \<Rightarrow> tsys \<Rightarrow> unit tres" where
  "cook_char W i c s =
     (let canon = L_FLAG ICANON i s; ixon = I_FLAG IXON i s; isig = L_FLAG ISIG i s in
      if canon \<and> is_cc VKILL i c s then kill_line TTY_BUF_SIZE W i s
      else if canon \<and> is_cc VERASE i c s then
        (if at_line_start i s then retK () s else rub_out W i (LAST (the_queue (sq i s) s)) s)
      else if ixon \<and> is_cc VSTOP i c s then W i (upd_tty i (\<lambda>t. t\<lparr>tt_stopped := True\<rparr>) s)
      else if ixon \<and> is_cc VSTART i c s then W i (upd_tty i (\<lambda>t. t\<lparr>tt_stopped := False\<rparr>) s)
      else if isig \<and> is_cc VINTR i c s then kill_fg 2 i s
      else if isig \<and> is_cc VQUIT i c s then kill_fg 3 i s
      else if isig \<and> is_cc VSUSP i c s then
        (if is_orphaned_pgrp (tt_pgrp (tty i s)) (tk s) then retK () s else kill_fg 20 i s)
      else
        let s = (if c = 10 \<or> is_cc VEOF i c s
                 then upd_queue (sq i s) (\<lambda>q. q\<lparr>q_data := q_data q + 1\<rparr>) s else s)
        in bindK (if L_FLAG ECHO i s then echo W i c s else retK () s)
             (\<lambda>_ s. retK () (upd_queue (sq i s) (PUTCH c) s)))"

primrec cook_loop :: "nat \<Rightarrow> write_fn \<Rightarrow> nat \<Rightarrow> tsys \<Rightarrow> unit tres" where
  "cook_loop 0 W i s = stopK (Sleeps ''copy_to_cooked'') s"
| "cook_loop (Suc n) W i s =
     (if EMPTY (the_queue (rq i s) s) \<or> FULL (the_queue (sq i s) s) then retK () s
      else let (c, q) = GETCH (the_queue (rq i s) s); s = upd_queue (rq i s) (\<lambda>_. q) s in
        case translate i c s of None \<Rightarrow> cook_loop n W i s
        | Some c \<Rightarrow> bindK (cook_char W i c s) (\<lambda>_. cook_loop n W i))"

definition t_say :: "string \<Rightarrow> tsys \<Rightarrow> tsys" where
  "t_say msg = upd_tk (emit (Message msg))"

definition cooked_by :: "nat \<Rightarrow> write_fn \<Rightarrow> nat \<Rightarrow> tsys \<Rightarrow> unit tres" where
  "cooked_by n W i s =
     (if no_queues i s then retK () (t_say ''copy_to_cooked: missing queues'' s)
      else bindK (cook_loop n W i s) (\<lambda>_ s. retK () (upd_tk (wake_up (q_wait (the_queue (sq i s) s))) s)))"

subsection \<open>Output of pseudo terminals and serial lines\<close>

text \<open>\<open>C\<close> is \<^verbatim>\<open>copy_to_cooked\<close>.\<close>

primrec pty_loop :: "nat \<Rightarrow> write_fn \<Rightarrow> nat \<Rightarrow> nat \<Rightarrow> tsys \<Rightarrow> unit tres" where
  "pty_loop 0 C i j s = stopK (Sleeps ''pty_copy'') s"
| "pty_loop (Suc n) C i j s =
     (if tt_stopped (tty i s) \<or> EMPTY (the_queue (wq i s) s) then retK () s
      else if FULL (the_queue (rq j s) s) then
        (if FULL (the_queue (sq j s) s) then retK () s else bindK (C j s) (\<lambda>_. pty_loop n C i j))
      else
        let (c, q) = GETCH (the_queue (wq i s) s);
            s = upd_queue (wq i s) (\<lambda>_. q) s;
            s = upd_queue (rq j s) (PUTCH c) s
        in if pending s then retK () s else pty_loop n C i j s)"

definition pty_copy :: "nat \<Rightarrow> write_fn \<Rightarrow> nat \<Rightarrow> nat \<Rightarrow> tsys \<Rightarrow> unit tres" where
  "pty_copy n C i j s =
     bindK (pty_loop n C i j s) (\<lambda>_ s.
       bindK (C j s) (\<lambda>_ s. retK () (upd_tk (wake_up (q_wait (the_queue (wq i s) s))) s)))"

definition mpty_write :: "nat \<Rightarrow> write_fn \<Rightarrow> write_fn" where
  "mpty_write n C i s = (if i div 64 \<noteq> 2 then retK () (t_say ''bad mpty'' s) else pty_copy n C i (i + 64) s)"

definition spty_write :: "nat \<Rightarrow> write_fn \<Rightarrow> write_fn" where
  "spty_write n C i s = (if i div 64 \<noteq> 3 then retK () (t_say ''bad spty'' s) else pty_copy n C i (i - 64) s)"

definition rs_write :: "tenv \<Rightarrow> nat \<Rightarrow> tsys \<Rightarrow> tsys" where
  "rs_write E i s =
     (let q = the_queue (wq i s) s; port = ucast (q_data q) + 1 in
      if EMPTY q then s else upd_tk (emit (Outb (in_port E port s OR 2) port)) s)"

definition write_by :: "tenv \<Rightarrow> write_fn \<Rightarrow> write_fn" where
  "write_by E C i s =
     (case tt_write (tty i s) of
        NoWrite \<Rightarrow> stopK (Wild ''tty->write is null'') s
      | ConWrite \<Rightarrow> con_write E i s
      | RsWrite \<Rightarrow> retK () (rs_write E i s)
      | MptyWrite \<Rightarrow> mpty_write (steps E) C i s
      | SptyWrite \<Rightarrow> spty_write (steps E) C i s)"

primrec cooked :: "nat \<Rightarrow> tenv \<Rightarrow> nat \<Rightarrow> tsys \<Rightarrow> unit tres" where
  "cooked 0 E i s = stopK (Sleeps ''copy_to_cooked'') s"
| "cooked (Suc d) E i s = cooked_by (steps E) (write_by E (cooked d E)) i s"

definition copy_to_cooked :: "tenv \<Rightarrow> nat \<Rightarrow> tsys \<Rightarrow> unit tres" where
  "copy_to_cooked E = cooked (Suc (depth E)) E"

definition tty_do_write :: "tenv \<Rightarrow> nat \<Rightarrow> tsys \<Rightarrow> unit tres" where
  "tty_do_write E = write_by E (copy_to_cooked E)"

definition do_tty_interrupt :: "tenv \<Rightarrow> nat \<Rightarrow> tsys \<Rightarrow> unit tres" where
  "do_tty_interrupt E nr s = copy_to_cooked E (TTY_TABLE nr s) s"

subsection \<open>Reading and writing\<close>

definition tty_signal :: "int \<Rightarrow> tsys \<Rightarrow> int \<times> tsys" where
  "tty_signal sig s =
     (if is_orphaned_pgrp (t_pgrp (cur (tk s))) (tk s) then (- EIO, s)
      else
        let s = upd_tk (\<lambda>k. snd (kill_pg (t_pgrp (cur k)) sig True k)) s;
            t = cur (tk s); h = sa_handler (t_sigaction t (sig - 1))
        in if t_blocked t AND sigbit sig \<noteq> 0 \<or> h = 1 then (- EIO, s)
           else if h \<noteq> 0 then (- EINTR, s) else (- ERESTARTSYS, s))"

text \<open>The inner loop of \<^verbatim>\<open>tty_read\<close>: the count still wanted and the next address.\<close>

primrec read_chars :: "nat \<Rightarrow> nat \<Rightarrow> u32 \<Rightarrow> tsys \<Rightarrow> nat \<times> u32 \<times> tsys" where
  "read_chars 0 i b s = (0, b, s)"
| "read_chars (Suc n) i b s =
     (let q = sq i s; (c, q') = GETCH (the_queue q s);
          eof = is_cc VEOF i c s;
          s = upd_queue q (\<lambda>_. if eof \<or> c = 10 then q'\<lparr>q_data := q_data q' - 1\<rparr> else q') s
      in if eof \<and> L_FLAG ICANON i s then (Suc n, b, s)
         else let s = upd_tk (put_fs_byte c b) s in
           if n = 0 \<or> c = 10 \<and> L_FLAG ICANON i s \<or> EMPTY (the_queue q s) then (n, b + 1, s)
           else read_chars n i (b + 1) s)"

definition set_timeout :: "u32 \<Rightarrow> tsys \<Rightarrow> tsys" where
  "set_timeout v = upd_tk (upd_cur (\<lambda>t. t\<lparr>t_timeout := v\<rparr>))"

primrec read_loop :: "nat \<Rightarrow> tenv \<Rightarrow> nat \<Rightarrow> nat \<Rightarrow> u32 \<Rightarrow> nat \<Rightarrow> u32 \<Rightarrow> nat \<Rightarrow> tsys \<Rightarrow> u32 tres" where
  "read_loop 0 E ch i time minimum buf nr s = stopK (Sleeps ''tty_read'') s"
| "read_loop (Suc m) E ch i time minimum b nr s =
     (if nr = 0 then retK b s
      else bindK (if ch div 128 mod 2 = 1 then tty_do_write E (if ch div 64 mod 2 = 1 then ch - 64 else ch + 64) s
                  else retK () s) (\<lambda>_ s.
        if EMPTY (the_queue (sq i s) s) \<or>
           L_FLAG ICANON i s \<and> \<not> FULL (the_queue (rq i s) s) \<and> q_data (the_queue (sq i s) s) = 0
        then
          (if t_timeout (cur (tk s)) = 0 \<or> pending s then retK b s
           else if IS_A_PTY_SLAVE ch \<and> C_HUP (ch - 64) s then retK b s
           else bindK (t_sleep E s) (\<lambda>_. read_loop m E ch i time minimum b nr))
        else
          let (nr', b', s) = read_chars nr i b s;
              s = upd_tk (wake_up (q_wait (the_queue (rq i s) s))) s;
              s = (if time \<noteq> 0 then set_timeout (time + jiffies (tk s)) s else s);
              minimum = minimum - unat (b' - b)
          in if L_FLAG ICANON i s \<or> minimum = 0 then retK b' s
             else read_loop m E ch i time minimum b' nr' s))"

definition tty_read :: "tenv \<Rightarrow> nat \<Rightarrow> u32 \<Rightarrow> nat \<Rightarrow> tsys \<Rightarrow> int tres" where
  "tty_read E ch buf nr s =
     (if 255 < ch then retK (- EIO) s
      else let i = TTY_TABLE ch s in
        if no_queues i s then retK (- EIO) s
        else if t_tty (cur (tk s)) = int ch \<and> tt_pgrp (tty i s) \<noteq> t_pgrp (cur (tk s))
        then (case tty_signal 21 s of (r, s) \<Rightarrow> retK r s)
        else
          let time = 10 * ucast (cc VTIME i s) :: u32; minimum = unat (cc VMIN i s);
              (minimum, time, s) =
                (if L_FLAG ICANON i s then (nr, 0, set_timeout 0xffffffff s)
                 else if minimum \<noteq> 0 then (minimum, time, set_timeout 0xffffffff s)
                 else (nr, 0, if time \<noteq> 0 then set_timeout (time + jiffies (tk s)) s else s))
          in bindK (read_loop (Suc (steps E)) E ch i time (min minimum nr) buf nr s) (\<lambda>b s.
               let s = set_timeout 0 s in
               if pending s \<and> b = buf then retK (- ERESTARTSYS) s else retK (uint (b - buf)) s))"

text \<open>The inner loop of \<^verbatim>\<open>tty_write\<close>: a newline may take two rounds.\<close>

definition out_char :: "nat \<Rightarrow> u8 \<Rightarrow> tsys \<Rightarrow> u8" where
  "out_char i c s =
     (if \<not> O_FLAG OPOST i s then c
      else if c = 13 \<and> O_FLAG OCRNL i s then 10
      else if c = 10 \<and> O_FLAG ONLRET i s then 13 else c)"

primrec write_chars :: "nat \<Rightarrow> nat \<Rightarrow> u32 \<Rightarrow> nat \<Rightarrow> tsys \<Rightarrow> nat \<times> u32 \<times> tsys" where
  "write_chars 0 i b nr s = (nr, b, s)"
| "write_chars (Suc n) i b nr s =
     (if nr = 0 \<or> FULL (the_queue (wq i s) s) then (nr, b, s)
      else let c = out_char i (get_fs_byte b (tk s)) s in
        if O_FLAG OPOST i s \<and> c = 10 \<and> \<not> cr_flag (tt s) \<and> O_FLAG ONLCR i s
        then write_chars n i b nr (put_w 13 i (s\<lparr>tt := (tt s)\<lparr>cr_flag := True\<rparr>\<rparr>))
        else let c = (if O_FLAG OPOST i s \<and> O_FLAG OLCUC i s then toupper c else c) in
          write_chars n i (b + 1) (nr - 1) (put_w c i (s\<lparr>tt := (tt s)\<lparr>cr_flag := False\<rparr>\<rparr>)))"

primrec write_loop :: "nat \<Rightarrow> tenv \<Rightarrow> nat \<Rightarrow> u32 \<Rightarrow> nat \<Rightarrow> tsys \<Rightarrow> u32 tres" where
  "write_loop 0 E i b nr s = stopK (Sleeps ''tty_write'') s"
| "write_loop (Suc m) E i b nr s =
     (if nr = 0 then retK b s
      else bindK (sleep_if_full E (wq i s) s) (\<lambda>_ s.
        if pending s then retK b s
        else let (nr, b, s) = write_chars (2 * nr) i b nr s in
          bindK (tty_do_write E i s) (\<lambda>_ s.
            if 0 < nr then write_loop m E i b nr (t_others E s) else retK b s)))"

definition tty_write :: "tenv \<Rightarrow> nat \<Rightarrow> u32 \<Rightarrow> nat \<Rightarrow> tsys \<Rightarrow> int tres" where
  "tty_write E ch buf nr s =
     (if 255 < ch then retK (- EIO) s
      else let i = TTY_TABLE ch s in
        if no_queues i s then retK (- EIO) s
        else if L_FLAG TOSTOP i s \<and> t_tty (cur (tk s)) = int ch \<and> tt_pgrp (tty i s) \<noteq> t_pgrp (cur (tk s))
        then (case tty_signal 22 s of (r, s) \<Rightarrow> retK r s)
        else bindK (write_loop (Suc (steps E)) E i buf nr s) (\<lambda>b s. retK (uint (b - buf)) s))"

end
