(* ===== verification/Tty_Ioctl.thy ===== *)
theory Tty_Ioctl
  imports Tty
begin

section \<open>Terminal control and initialisation\<close>

text \<open>
  \<^verbatim>\<open>kernel/chr_drv/tty_ioctl.c\<close>, \<^verbatim>\<open>tty_init\<close> of \<^verbatim>\<open>tty_io.c\<close> and
  \<^verbatim>\<open>rs_init\<close> of \<^verbatim>\<open>serial.c\<close>. Port writes are events. The byte that pads a
  \<^verbatim>\<open>struct termio\<close> on the kernel stack is the parameter \<open>junk\<close>.
\<close>

subsection \<open>Structures as bytes\<close>

definition long_bytes :: "u32 \<Rightarrow> u8 list" where
  "long_bytes v = [ucast v, ucast (drop_bit 8 v), ucast (drop_bit 16 v), ucast (drop_bit 24 v)]"

definition short_bytes :: "u16 \<Rightarrow> u8 list" where
  "short_bytes v = [ucast v, ucast (drop_bit 8 v)]"

definition bytes_long :: "u8 list \<Rightarrow> nat \<Rightarrow> u32" where
  "bytes_long bs i = ucast (bs ! i) OR push_bit 8 (ucast (bs ! (i + 1))) OR
     push_bit 16 (ucast (bs ! (i + 2))) OR push_bit 24 (ucast (bs ! (i + 3)))"

definition bytes_short :: "u8 list \<Rightarrow> nat \<Rightarrow> u16" where
  "bytes_short bs i = ucast (bs ! i) OR push_bit 8 (ucast (bs ! (i + 1)))"

definition termios_bytes :: "termios \<Rightarrow> u8 list" where
  "termios_bytes t =
     long_bytes (c_iflag t) @ long_bytes (c_oflag t) @ long_bytes (c_cflag t) @ long_bytes (c_lflag t) @
     [c_line t] @ map (c_cc t) [0..<17] @ map (c_pad t) [0..<2]"

definition bytes_termios :: "u8 list \<Rightarrow> termios" where
  "bytes_termios bs =
     \<lparr>c_iflag = bytes_long bs 0, c_oflag = bytes_long bs 4, c_cflag = bytes_long bs 8,
      c_lflag = bytes_long bs 12, c_line = bs ! 16, c_cc = (\<lambda>i. if i < 17 then bs ! (17 + i) else 0),
      c_pad = (\<lambda>i. if i < 2 then bs ! (34 + i) else 0)\<rparr>"

definition termio_bytes :: "u8 \<Rightarrow> termios \<Rightarrow> u8 list" where
  "termio_bytes junk t =
     short_bytes (ucast (c_iflag t)) @ short_bytes (ucast (c_oflag t)) @ short_bytes (ucast (c_cflag t)) @
     short_bytes (ucast (c_lflag t)) @ [c_line t] @ map (c_cc t) [0..<8] @ [junk]"

text \<open>\<^verbatim>\<open>*(unsigned short *)&flag = v\<close>: the low half is replaced.\<close>

definition low_half :: "u32 \<Rightarrow> u16 \<Rightarrow> u32" where
  "low_half old v = (old AND 0xffff0000) OR ucast v"

definition load_termio :: "u8 list \<Rightarrow> termios \<Rightarrow> termios" where
  "load_termio bs t =
     t\<lparr>c_iflag := low_half (c_iflag t) (bytes_short bs 0), c_oflag := low_half (c_oflag t) (bytes_short bs 2),
       c_cflag := low_half (c_cflag t) (bytes_short bs 4), c_lflag := low_half (c_lflag t) (bytes_short bs 6),
       c_line := bs ! 8, c_cc := (\<lambda>i. if i < 8 then bs ! (9 + i) else c_cc t i)\<rparr>"

subsection \<open>The calls\<close>

definition quotient :: "nat list" where
  "quotient = [0, 2304, 1536, 1047, 857, 768, 576, 384, 192, 96, 64, 48, 24, 12, 6, 3]"

definition t_outb :: "u8 \<Rightarrow> u16 \<Rightarrow> tsys \<Rightarrow> tsys" where
  "t_outb v port = upd_tk (emit (Outb v port))"

definition change_speed :: "nat \<Rightarrow> tsys \<Rightarrow> tsys" where
  "change_speed i s =
     (let port = ucast (q_data (the_queue (rq i s) s)) :: u16;
          quot = of_nat (quotient ! unat (c_cflag (termios (tty i s)) AND 15)) :: u16
      in if port = 0 then s
         else t_outb 0x03 (port + 3) (t_outb (ucast (drop_bit 8 quot)) (port + 1)
                (t_outb (ucast quot) port (t_outb 0x80 (port + 3) s))))"

definition flush_q :: "nat \<Rightarrow> tsys \<Rightarrow> tsys" where
  "flush_q q = upd_queue q (\<lambda>q. q\<lparr>q_head := q_tail q\<rparr>)"

definition get_termios :: "nat \<Rightarrow> u32 \<Rightarrow> tsys \<Rightarrow> int \<times> tsys" where
  "get_termios i a s = (0, upd_tk (put_fs_bytes (termios_bytes (termios (tty i s))) a) s)"

text \<open>The check both \<^verbatim>\<open>set_\<close> routines start with: a process in the background gets
  \<^verbatim>\<open>SIGTTOU\<close>.\<close>

definition background :: "nat \<Rightarrow> int \<Rightarrow> (tsys \<Rightarrow> int \<times> tsys) \<Rightarrow> tsys \<Rightarrow> int \<times> tsys" where
  "background i channel go s =
     (if t_tty (cur (tk s)) = channel \<and> tt_pgrp (tty i s) \<noteq> t_pgrp (cur (tk s))
      then let (r, s) = tty_signal 22 s in
        if r = - ERESTARTSYS \<or> r = - EINTR then (r, s) else go s
      else go s)"

definition set_termios :: "nat \<Rightarrow> u32 \<Rightarrow> int \<Rightarrow> tsys \<Rightarrow> int \<times> tsys" where
  "set_termios i a channel =
     background i channel (\<lambda>s. (0, change_speed i
       (upd_tty i (\<lambda>t. t\<lparr>termios := bytes_termios (get_fs_bytes 36 a (tk s))\<rparr>) s)))"

definition get_termio :: "u8 \<Rightarrow> nat \<Rightarrow> u32 \<Rightarrow> tsys \<Rightarrow> int \<times> tsys" where
  "get_termio junk i a s = (0, upd_tk (put_fs_bytes (termio_bytes junk (termios (tty i s))) a) s)"

definition set_termio :: "nat \<Rightarrow> u32 \<Rightarrow> int \<Rightarrow> tsys \<Rightarrow> int \<times> tsys" where
  "set_termio i a channel =
     background i channel (\<lambda>s. (0, change_speed i
       (upd_tty i (\<lambda>t. t\<lparr>termios := load_termio (get_fs_bytes 18 a (tk s)) (termios t)\<rparr>) s)))"

definition tcxonc :: "tenv \<Rightarrow> nat \<Rightarrow> u32 \<Rightarrow> tsys \<Rightarrow> int tres" where
  "tcxonc E i arg s =
     (if arg = 0 then bindK (tty_do_write E i (upd_tty i (\<lambda>t. t\<lparr>tt_stopped := True\<rparr>) s)) (\<lambda>_ s. retK 0 s)
      else if arg = 1 then bindK (tty_do_write E i (upd_tty i (\<lambda>t. t\<lparr>tt_stopped := False\<rparr>) s)) (\<lambda>_ s. retK 0 s)
      else if arg = 2 then retK 0 (if cc VSTOP i s \<noteq> 0 then put_w (cc VSTOP i s) i s else s)
      else if arg = 3 then retK 0 (if cc VSTART i s \<noteq> 0 then put_w (cc VSTART i s) i s else s)
      else retK (- EINVAL) s)"

definition tcflsh :: "nat \<Rightarrow> u32 \<Rightarrow> tsys \<Rightarrow> int \<times> tsys" where
  "tcflsh i arg s =
     (if arg = 0 then (0, flush_q (rq i s) s)
      else if arg = 1 then (0, flush_q (wq i s) s)
      else if arg = 2 then (0, flush_q (wq i s) (flush_q (rq i s) s))
      else (- EINVAL, s))"

definition tiocspgrp :: "nat \<Rightarrow> int \<Rightarrow> u32 \<Rightarrow> tsys \<Rightarrow> int \<times> tsys" where
  "tiocspgrp i dev' arg s =
     (let t = cur (tk s) in
      if t_tty t < 0 \<or> t_tty t \<noteq> dev' \<or> tt_session (tty i s) \<noteq> t_session t then (- ENOTTY, s)
      else let pgrp = sint (get_fs_long arg (tk s)) in
        if pgrp < 0 then (- EINVAL, s)
        else if session_of_pgrp pgrp (tk s) \<noteq> t_session t then (- EPERM, s)
        else (0, upd_tty i (\<lambda>t. t\<lparr>tt_pgrp := pgrp\<rparr>) s))"

definition t_put_long :: "u32 \<Rightarrow> u32 \<Rightarrow> tsys \<Rightarrow> int \<times> tsys" where
  "t_put_long v a s = (0, upd_tk (put_fs_long v a) s)"

definition lift_t :: "(tsys \<Rightarrow> int \<times> tsys) \<Rightarrow> tsys \<Rightarrow> int tres" where
  "lift_t f s = (case f s of (r, s) \<Rightarrow> retK r s)"

definition tty_ioctl :: "u8 \<Rightarrow> tenv \<Rightarrow> u16 \<Rightarrow> u32 \<Rightarrow> u32 \<Rightarrow> tsys \<Rightarrow> int tres" where
  "tty_ioctl junk E dev' cmd arg s =
     (let d = (if drop_bit 8 dev' = 5 then t_tty (cur (tk s)) else uint (dev' AND 0xff)) in
      if d < 0 then stopK (Panic ''tty_ioctl: dev<0'') s
      else let i = TTY_TABLE (nat d) s in
        if cmd = 0x5401 then lift_t (get_termios i arg) s
        else if cmd = 0x5404 then lift_t (set_termios i arg d) (flush_q (rq i s) s)
        else if cmd = 0x5403 \<or> cmd = 0x5402 then lift_t (set_termios i arg d) s
        else if cmd = 0x5405 then lift_t (get_termio junk i arg) s
        else if cmd = 0x5408 then lift_t (set_termio i arg d) (flush_q (rq i s) s)
        else if cmd = 0x5407 \<or> cmd = 0x5406 then lift_t (set_termio i arg d) s
        else if cmd = 0x5409 then retK 0 s
        else if cmd = 0x540A then tcxonc E i arg s
        else if cmd = 0x540B then lift_t (tcflsh i arg) s
        else if cmd = 0x540F then lift_t (t_put_long (of_int (tt_pgrp (tty i s))) arg) s
        else if cmd = 0x5410 then lift_t (tiocspgrp i d arg) s
        else if cmd = 0x5411 then lift_t (t_put_long (of_nat (CHARS (the_queue (wq i s) s))) arg) s
        else if cmd = 0x541B then lift_t (t_put_long (of_nat (CHARS (the_queue (sq i s) s))) arg) s
        else retK (- EINVAL) s)"

subsection \<open>Initialisation\<close>

definition rs_init_port :: "u16 \<Rightarrow> tsys \<Rightarrow> tsys" where
  "rs_init_port port s =
     t_outb 0x0d (port + 1) (t_outb 0x0b (port + 4) (t_outb 0x03 (port + 3)
       (t_outb 0x00 (port + 1) (t_outb 0x30 port (t_outb 0x80 (port + 3) s)))))"

definition rs_init :: "tenv \<Rightarrow> tsys \<Rightarrow> tsys" where
  "rs_init E s =
     (let s = rs_init_port (ucast (q_data (the_queue (rq 64 s) s))) s;
          s = rs_init_port (ucast (q_data (the_queue (rq 65 s) s))) s
      in t_outb (in_port E 0x21 s AND 0xE7) 0x21 s)"

definition INIT_C_CC :: "u8 list" where
  "INIT_C_CC = [3, 28, 127, 21, 4, 0, 1, 0, 17, 19, 26, 0, 18, 15, 23, 22, 0]"

definition a_termios :: "u32 \<Rightarrow> u32 \<Rightarrow> u32 \<Rightarrow> u32 \<Rightarrow> termios" where
  "a_termios iflag oflag cflag lflag =
     \<lparr>c_iflag = iflag, c_oflag = oflag, c_cflag = cflag, c_lflag = lflag, c_line = 0,
      c_cc = (\<lambda>i. if i < 17 then INIT_C_CC ! i else 0), c_pad = (\<lambda>_. 0)\<rparr>"

definition a_tty :: "termios \<Rightarrow> tty_writer \<Rightarrow> nat option \<Rightarrow> tty_struct" where
  "a_tty t w q = \<lparr>termios = t, tt_pgrp = 0, tt_session = 0, tt_stopped = False, tt_write = w, tt_read_q = q,
     tt_write_q = map_option Suc q, tt_secondary = map_option (\<lambda>q. q + 2) q\<rparr>"

definition init_ttys :: "nat \<Rightarrow> nat \<Rightarrow> (nat \<Rightarrow> tty_struct) \<Rightarrow> tsys \<Rightarrow> tsys" where
  "init_ttys first n f s = fold (\<lambda>i. upd_tty (first + i) (\<lambda>_. f i)) [0..<n] s"

definition tty_init :: "tenv \<Rightarrow> tsys \<Rightarrow> tsys" where
  "tty_init E s =
     (let s = s\<lparr>tt := (tt s)\<lparr>
            tqueues := (\<lambda>i. if i < 54 then \<lparr>q_data = if i = 24 \<or> i = 25 then 0x3f8 else if i = 27 \<or> i = 28 then 0x2f8 else 0,
              q_head = 0, q_tail = 0, q_wait = None, q_buf = (\<lambda>_. 0)\<rparr> else tqueues (tt s) i),
            tty_table := (\<lambda>i. if i < 256 then a_tty (a_termios 0 0 0 0) NoWrite None else tty_table (tt s) i)\<rparr>\<rparr>;
          s = con_init E s;
          s = init_ttys 0 (nr_consoles (tt s))
                (\<lambda>i. a_tty (a_termios ICRNL (OPOST OR ONLCR) 0 (IXON OR ISIG OR ICANON OR ECHO OR ECHOCTL OR ECHOKE))
                       ConWrite (Some (3 * i))) s;
          s = init_ttys 64 2 (\<lambda>i. a_tty (a_termios 0 0 0x3b 0) RsWrite (Some (24 + 3 * i))) s;
          s = init_ttys 128 4 (\<lambda>i. a_tty (a_termios 0 0 0x3d 0) MptyWrite (Some (30 + 3 * i))) s;
          s = init_ttys 192 4 (\<lambda>i. a_tty (a_termios 0 0 0x3d (IXON OR ISIG OR ICANON)) SptyWrite (Some (42 + 3 * i))) s
      in t_say ''pty's'' (t_say ''virtual consoles'' (rs_init E s)))"

end
