(* ===== verification/Fs_Base.thy ===== *)
theory Fs_Base
  imports Mm Tty_Ioctl
begin

section \<open>The data of the file system\<close>

text \<open>
  \<^verbatim>\<open>include/linux/fs.h\<close> and \<^verbatim>\<open>kernel/blk_drv/blk.h\<close>: buffers, inodes,
  super blocks, open files and block device requests, all in one state \<open>fsys\<close> together with the
  process table (\<open>kern\<close>) and the page frames (\<open>pages\<close>). A pointer into one of the tables is
  the number of the entry, \<open>None\<close> the null pointer; the data of a block is a function from
  offsets (below 1024) to bytes. The members of the task structure that belong to the file system
  (\<^verbatim>\<open>filp\<close>, \<^verbatim>\<open>close_on_exec\<close>, \<^verbatim>\<open>pwd\<close>, \<^verbatim>\<open>root\<close>,
  \<^verbatim>\<open>executable\<close>, \<^verbatim>\<open>library\<close>) are kept by task slot.

  What a routine cannot see is a parameter \<open>env\<close> of the model: \<open>others\<close> is what the other
  processes and the interrupts do between a \<^verbatim>\<open>sleep_on\<close> of the current process and the
  moment it runs again with the thing it waits for; \<open>request_fn\<close> starts the driver of a major
  number (\<open>None\<close> where no driver is installed); \<open>floppy_changed\<close> is the change line of a
  drive; \<open>term_env\<close> has the parameters of the terminals; \<open>rounds\<close> bounds how often a routine starts over after a sleep, \<open>path_max\<close> the length of
  the path names followed. When the thing is still
  busy, or the rounds are used up, the routine is not finished (\<open>Sleeps\<close>).
\<close>

subsection \<open>Records\<close>

type_synonym dev = u16
type_synonym block_data = "nat \<Rightarrow> u8"

record buffer_head =
  b_data :: block_data
  b_blocknr :: nat
  b_dev :: dev
  b_uptodate :: bool
  b_dirt :: bool
  b_count :: u8
  b_lock :: bool
  b_wait :: "nat option"
  b_prev :: "nat option"
  b_next :: "nat option"
  b_prev_free :: "nat option"
  b_next_free :: "nat option"

record d_inode =
  i_mode :: u16
  i_uid :: u16
  i_size :: u32
  i_mtime :: u32
  i_gid :: u8
  i_nlinks :: u8
  i_zone :: "nat \<Rightarrow> u16"

record m_inode = d_inode +
  i_wait :: "nat option"
  i_wait2 :: "nat option"
  i_atime :: u32
  i_ctime :: u32
  i_dev :: dev
  i_num :: u16
  i_count :: u16
  i_lock :: bool
  i_dirt :: bool
  i_pipe :: bool
  i_mount :: bool
  i_seek :: bool
  i_update :: bool

record ofile =
  f_mode :: u16
  f_flags :: u16
  f_count :: u16
  f_inode :: "nat option"
  f_pos :: int

record d_super_block =
  s_ninodes :: u16
  s_nzones :: u16
  s_imap_blocks :: u16
  s_zmap_blocks :: u16
  s_firstdatazone :: u16
  s_log_zone_size :: u16
  s_max_size :: u32
  s_magic :: u16

record super_block = d_super_block +
  s_imap :: "nat \<Rightarrow> nat option"
  s_zmap :: "nat \<Rightarrow> nat option"
  s_dev :: dev
  s_isup :: "nat option"
  s_imount :: "nat option"
  s_time :: u32
  s_wait :: "nat option"
  s_lock :: bool
  s_rd_only :: bool
  s_dirt :: bool

text \<open>A request; \<open>r_dev = None\<close> is the code's \<^verbatim>\<open>dev = -1\<close>, a free entry. The
  data goes to or comes from the buffer \<open>r_bh\<close>, or a page at \<open>r_page\<close>.\<close>

datatype rw_cmd = READ | WRITE | READA | WRITEA

record request =
  r_dev :: "dev option"
  r_cmd :: rw_cmd
  r_errors :: nat
  r_sector :: nat
  r_nr_sectors :: nat
  r_page :: u32
  r_waiting :: "nat option"
  r_bh :: "nat option"

record fsys =
  kern :: kernel
  pages :: mm
  ttys :: terminals
  bufs :: "nat \<Rightarrow> buffer_head"
  nr_buffers :: nat
  hash_table :: "nat \<Rightarrow> nat option"
  free_list :: nat
  null_prev :: "nat option"
  inodes :: "nat \<Rightarrow> m_inode"
  last_inode :: nat
  supers :: "nat \<Rightarrow> super_block"
  files :: "nat \<Rightarrow> ofile"
  requests :: "nat \<Rightarrow> request"
  queue :: "nat \<Rightarrow> nat list"
  blk_size :: "nat \<Rightarrow> (nat \<Rightarrow> u32) option"
  wait_for_request :: "nat option"
  buffer_wait :: "nat option"
  root_dev :: dev
  rd_start :: nat
  rd_mem :: "nat \<Rightarrow> u8"
  rd_length :: nat
  disk :: "dev \<Rightarrow> nat \<Rightarrow> u8"
  p_filp :: "nat \<Rightarrow> nat \<Rightarrow> nat option"
  p_close_on_exec :: "nat \<Rightarrow> u32"
  p_pwd :: "nat \<Rightarrow> nat option"
  p_root :: "nat \<Rightarrow> nat option"
  p_executable :: "nat \<Rightarrow> nat option"
  p_library :: "nat \<Rightarrow> nat option"

record env =
  others :: "fsys \<Rightarrow> fsys"
  request_fn :: "nat \<Rightarrow> (fsys \<Rightarrow> (fsys, unit) res) option"
  floppy_changed :: "nat \<Rightarrow> fsys \<Rightarrow> bool"
  rounds :: nat
  path_max :: nat
  term_env :: tenv

type_synonym 'a fres = "(fsys, 'a) res"

subsection \<open>Constants\<close>

abbreviation (input) BLOCK_SIZE :: nat where "BLOCK_SIZE \<equiv> 1024"
abbreviation (input) NAME_LEN :: nat where "NAME_LEN \<equiv> 14"
abbreviation (input) ROOT_INO :: u16 where "ROOT_INO \<equiv> 1"
abbreviation (input) I_MAP_SLOTS :: nat where "I_MAP_SLOTS \<equiv> 8"
abbreviation (input) Z_MAP_SLOTS :: nat where "Z_MAP_SLOTS \<equiv> 8"
abbreviation (input) SUPER_MAGIC :: u16 where "SUPER_MAGIC \<equiv> 0x137F"
abbreviation (input) NR_OPEN :: nat where "NR_OPEN \<equiv> 20"
abbreviation (input) NR_INODE :: nat where "NR_INODE \<equiv> 64"
abbreviation (input) NR_FILE :: nat where "NR_FILE \<equiv> 64"
abbreviation (input) NR_SUPER :: nat where "NR_SUPER \<equiv> 8"
abbreviation (input) NR_HASH :: nat where "NR_HASH \<equiv> 307"
abbreviation (input) INODES_PER_BLOCK :: nat where "INODES_PER_BLOCK \<equiv> 32"
abbreviation (input) DIR_ENTRIES_PER_BLOCK :: nat where "DIR_ENTRIES_PER_BLOCK \<equiv> 64"
abbreviation (input) NR_REQUEST :: nat where "NR_REQUEST \<equiv> 32"
abbreviation (input) NR_BLK_DEV :: nat where "NR_BLK_DEV \<equiv> 7"

abbreviation (input) ENOTBLK :: int where "ENOTBLK \<equiv> 15"
abbreviation (input) EBUSY :: int where "EBUSY \<equiv> 16"
abbreviation (input) EEXIST :: int where "EEXIST \<equiv> 17"
abbreviation (input) EXDEV :: int where "EXDEV \<equiv> 18"
abbreviation (input) ENODEV :: int where "ENODEV \<equiv> 19"
abbreviation (input) ENOTDIR :: int where "ENOTDIR \<equiv> 20"
abbreviation (input) EISDIR :: int where "EISDIR \<equiv> 21"
abbreviation (input) EMFILE :: int where "EMFILE \<equiv> 24"
abbreviation (input) ENOSPC :: int where "ENOSPC \<equiv> 28"
abbreviation (input) ESPIPE :: int where "ESPIPE \<equiv> 29"
abbreviation (input) ENOTEMPTY :: int where "ENOTEMPTY \<equiv> 39"

definition MAJOR :: "dev \<Rightarrow> nat" where
  "MAJOR d = unat (drop_bit 8 d)"

definition MINOR :: "dev \<Rightarrow> nat" where
  "MINOR d = unat (d AND 0xff)"

text \<open>\<^verbatim>\<open>include/sys/stat.h\<close>: the type of a file.\<close>

definition S_ISREG :: "u16 \<Rightarrow> bool" where "S_ISREG m \<longleftrightarrow> m AND 0xF000 = 0x8000"
definition S_ISDIR :: "u16 \<Rightarrow> bool" where "S_ISDIR m \<longleftrightarrow> m AND 0xF000 = 0x4000"
definition S_ISCHR :: "u16 \<Rightarrow> bool" where "S_ISCHR m \<longleftrightarrow> m AND 0xF000 = 0x2000"
definition S_ISBLK :: "u16 \<Rightarrow> bool" where "S_ISBLK m \<longleftrightarrow> m AND 0xF000 = 0x6000"
definition S_ISFIFO :: "u16 \<Rightarrow> bool" where "S_ISFIFO m \<longleftrightarrow> m AND 0xF000 = 0x1000"
definition S_ISLNK :: "u16 \<Rightarrow> bool" where "S_ISLNK m \<longleftrightarrow> m AND 0xF000 = 0xA000"

subsection \<open>Access to the tables\<close>

definition upd_buf :: "nat \<Rightarrow> (buffer_head \<Rightarrow> buffer_head) \<Rightarrow> fsys \<Rightarrow> fsys" where
  "upd_buf i f s = s\<lparr>bufs := (bufs s)(i := f (bufs s i))\<rparr>"

definition upd_inode :: "nat \<Rightarrow> (m_inode \<Rightarrow> m_inode) \<Rightarrow> fsys \<Rightarrow> fsys" where
  "upd_inode i f s = s\<lparr>inodes := (inodes s)(i := f (inodes s i))\<rparr>"

definition upd_super :: "nat \<Rightarrow> (super_block \<Rightarrow> super_block) \<Rightarrow> fsys \<Rightarrow> fsys" where
  "upd_super i f s = s\<lparr>supers := (supers s)(i := f (supers s i))\<rparr>"

definition upd_file :: "nat \<Rightarrow> (ofile \<Rightarrow> ofile) \<Rightarrow> fsys \<Rightarrow> fsys" where
  "upd_file i f s = s\<lparr>files := (files s)(i := f (files s i))\<rparr>"

definition upd_request :: "nat \<Rightarrow> (request \<Rightarrow> request) \<Rightarrow> fsys \<Rightarrow> fsys" where
  "upd_request i f s = s\<lparr>requests := (requests s)(i := f (requests s i))\<rparr>"

definition upd_kernel :: "(kernel \<Rightarrow> kernel) \<Rightarrow> fsys \<Rightarrow> fsys" where
  "upd_kernel f s = s\<lparr>kern := f (kern s)\<rparr>"

definition fs_say :: "string \<Rightarrow> fsys \<Rightarrow> fsys" where
  "fs_say msg = upd_kernel (emit (Message msg))"

definition me :: "fsys \<Rightarrow> nat" where
  "me s = current (kern s)"

definition fs_time :: "fsys \<Rightarrow> u32" where
  "fs_time s = CURRENT_TIME (kern s)"

definition wake :: "nat option \<Rightarrow> fsys \<Rightarrow> fsys" where
  "wake p = upd_kernel (wake_up p)"

text \<open>An operation on the page frames.\<close>

definition on_pages :: "(mm \<Rightarrow> 'a mres) \<Rightarrow> fsys \<Rightarrow> 'a fres" where
  "on_pages f s =
     (case f (pages s) of Inl (e, p) \<Rightarrow> Inl (e, s\<lparr>pages := p\<rparr>)
      | Inr (x, p) \<Rightarrow> Inr (x, s\<lparr>pages := p\<rparr>))"

text \<open>An operation on the terminals.\<close>

definition on_tty :: "(tsys \<Rightarrow> (tsys, 'a) res) \<Rightarrow> fsys \<Rightarrow> 'a fres" where
  "on_tty f s =
     (let put = (\<lambda>t. s\<lparr>kern := tk t, ttys := tt t\<rparr>) in
      case f \<lparr>tk = kern s, tt = ttys s\<rparr> of Inl (e, t) \<Rightarrow> Inl (e, put t) | Inr (x, t) \<Rightarrow> Inr (x, put t))"

text \<open>\<^verbatim>\<open>while (busy) sleep_on(...)\<close>. Task 0 may not sleep.\<close>

definition sleep_while :: "env \<Rightarrow> string \<Rightarrow> (fsys \<Rightarrow> bool) \<Rightarrow> fsys \<Rightarrow> unit fres" where
  "sleep_while E what busy s =
     (if \<not> busy s then retK () s
      else if me s = 0 then stopK (Panic ''task[0] trying to sleep'') s
      else let s = others E s in if busy s then stopK (Sleeps what) s else retK () s)"

text \<open>A plain \<^verbatim>\<open>sleep_on\<close>, after which the routine looks again itself.\<close>

definition sleep_once :: "env \<Rightarrow> fsys \<Rightarrow> unit fres" where
  "sleep_once E s =
     (if me s = 0 then stopK (Panic ''task[0] trying to sleep'') s else retK () (others E s))"

subsection \<open>Numbers and structures in the data of a block\<close>

text \<open>Shorts and longs are little-endian; \<open>get16 d i\<close> is
  \<^verbatim>\<open>((unsigned short *) data)[i]\<close>.\<close>

definition get16_at :: "block_data \<Rightarrow> nat \<Rightarrow> u16" where
  "get16_at d o' = ucast (d o') OR push_bit 8 (ucast (d (o' + 1)))"

definition put16_at :: "nat \<Rightarrow> u16 \<Rightarrow> block_data \<Rightarrow> block_data" where
  "put16_at o' v d = d(o' := ucast v, o' + 1 := ucast (drop_bit 8 v))"

definition get32_at :: "block_data \<Rightarrow> nat \<Rightarrow> u32" where
  "get32_at d o' = ucast (get16_at d o') OR push_bit 16 (ucast (get16_at d (o' + 2)))"

definition put32_at :: "nat \<Rightarrow> u32 \<Rightarrow> block_data \<Rightarrow> block_data" where
  "put32_at o' v d = put16_at (o' + 2) (ucast (drop_bit 16 v)) (put16_at o' (ucast v) d)"

definition get16 :: "block_data \<Rightarrow> nat \<Rightarrow> u16" where
  "get16 d i = get16_at d (2 * i)"

definition put16 :: "nat \<Rightarrow> u16 \<Rightarrow> block_data \<Rightarrow> block_data" where
  "put16 i v = put16_at (2 * i) v"

lemma get_put16_at [simp]: "get16_at (put16_at o' v d) o' = v"
  by (rule word_eqI_bits) (auto simp: get16_at_def put16_at_def bit_simps)

lemma get_put16_other: "o1 + 1 < o2 \<or> o2 + 1 < o1 \<Longrightarrow> get16_at (put16_at o1 v d) o2 = get16_at d o2"
  by (auto simp: get16_at_def put16_at_def)

lemma get_put32_at [simp]: "get32_at (put32_at o' v d) o' = v"
proof -
  have "get16_at (put32_at o' v d) o' = ucast v" "get16_at (put32_at o' v d) (o' + 2) = ucast (drop_bit 16 v)"
    by (simp_all add: put32_at_def get_put16_other)
  then show ?thesis
    by (intro word_eqI_bits) (auto simp: get32_at_def bit_simps)
qed

lemma get_put16: "get16 (put16 i v d) j = (if i = j then v else get16 d j)"
  by (auto simp: get16_def put16_def intro!: get_put16_other)

lemma put32_other:
  "o1 + 3 < o2 \<or> o2 + 1 < o1 \<Longrightarrow> get16_at (put32_at o1 v d) o2 = get16_at d o2"
  by (auto simp: put32_at_def get_put16_other)

text \<open>\<^verbatim>\<open>((struct d_inode *) data)[k]\<close>: 32 bytes each.\<close>

definition get_d_inode :: "block_data \<Rightarrow> nat \<Rightarrow> d_inode" where
  "get_d_inode d k =
     (let b = 32 * k in
      \<lparr>i_mode = get16_at d b, i_uid = get16_at d (b + 2), i_size = get32_at d (b + 4),
       i_mtime = get32_at d (b + 8), i_gid = d (b + 12), i_nlinks = d (b + 13),
       i_zone = (\<lambda>j. if j < 9 then get16_at d (b + 14 + 2 * j) else 0)\<rparr>)"

definition put_zones :: "nat \<Rightarrow> (nat \<Rightarrow> u16) \<Rightarrow> block_data \<Rightarrow> block_data" where
  "put_zones b z d = fold (\<lambda>j. put16_at (b + 14 + 2 * j) (z j)) [0..<9] d"

definition put_d_inode :: "nat \<Rightarrow> 'a d_inode_scheme \<Rightarrow> block_data \<Rightarrow> block_data" where
  "put_d_inode k x d =
     (let b = 32 * k in
      put_zones b (i_zone x)
        ((put32_at (b + 8) (i_mtime x) (put32_at (b + 4) (i_size x)
          (put16_at (b + 2) (i_uid x) (put16_at b (i_mode x) d))))
         (b + 12 := i_gid x, b + 13 := i_nlinks x)))"

text \<open>\<^verbatim>\<open>*(struct d_super_block *) data\<close>\<close>

definition get_d_super :: "block_data \<Rightarrow> d_super_block" where
  "get_d_super d =
     \<lparr>s_ninodes = get16_at d 0, s_nzones = get16_at d 2, s_imap_blocks = get16_at d 4,
      s_zmap_blocks = get16_at d 6, s_firstdatazone = get16_at d 8, s_log_zone_size = get16_at d 10,
      s_max_size = get32_at d 12, s_magic = get16_at d 16\<rparr>"

end
