(* ===== verification/Blkdev.thy ===== *)
theory Blkdev
  imports Fs_Base
begin

section \<open>Block device requests and the RAM disk\<close>

text \<open>
  \<^verbatim>\<open>kernel/blk_drv/{blk.h,ll_rw_blk.c,ramdisk.c}\<close>. The requests of a major number
  form a list: \<open>queue s major\<close> is \<^verbatim>\<open>blk_dev[major].current_request\<close> followed by the
  \<^verbatim>\<open>next\<close> pointers. A driver other than the RAM disk is the parameter \<open>request_fn\<close>.
\<close>

subsection \<open>The order of requests\<close>

fun cmd_nr :: "rw_cmd \<Rightarrow> nat" where
  "cmd_nr READ = 0" | "cmd_nr WRITE = 1" | "cmd_nr READA = 2" | "cmd_nr WRITEA = 3"

definition dev_nr :: "request \<Rightarrow> int" where
  "dev_nr r = (case r_dev r of None \<Rightarrow> -1 | Some d \<Rightarrow> uint d)"

definition IN_ORDER :: "request \<Rightarrow> request \<Rightarrow> bool" where
  "IN_ORDER s1 s2 \<longleftrightarrow>
     cmd_nr (r_cmd s1) < cmd_nr (r_cmd s2) \<or>
     cmd_nr (r_cmd s1) = cmd_nr (r_cmd s2) \<and>
       (dev_nr s1 < dev_nr s2 \<or> dev_nr s1 = dev_nr s2 \<and> r_sector s1 < r_sector s2)"

text \<open>The loop of \<^verbatim>\<open>add_request\<close>: the place of the request \<open>q\<close> in a list that is not
  empty.\<close>

definition insert_here :: "(nat \<Rightarrow> request) \<Rightarrow> nat \<Rightarrow> nat \<Rightarrow> nat \<Rightarrow> bool" where
  "insert_here R q t n =
     (if r_bh (R q) = None then r_bh (R n) \<noteq> None
      else (IN_ORDER (R t) (R q) \<or> \<not> IN_ORDER (R t) (R n)) \<and> IN_ORDER (R q) (R n))"

fun enqueue :: "(nat \<Rightarrow> request) \<Rightarrow> nat \<Rightarrow> nat list \<Rightarrow> nat list" where
  "enqueue R q [] = [q]"
| "enqueue R q [t] = [t, q]"
| "enqueue R q (t # n # ts) =
     (if insert_here R q t n then t # q # n # ts else t # enqueue R q (n # ts))"

subsection \<open>Locking a buffer\<close>

definition lock_buffer :: "env \<Rightarrow> nat \<Rightarrow> fsys \<Rightarrow> unit fres" where
  "lock_buffer E b s =
     bindK (sleep_while E ''lock_buffer'' (\<lambda>s. b_lock (bufs s b)) s)
       (\<lambda>_ s. retK () (upd_buf b (\<lambda>h. h\<lparr>b_lock := True\<rparr>) s))"

definition unlock_buffer :: "nat \<Rightarrow> fsys \<Rightarrow> fsys" where
  "unlock_buffer b s =
     (let s = (if \<not> b_lock (bufs s b) then fs_say ''buffer not locked'' s else s);
          s = upd_buf b (\<lambda>h. h\<lparr>b_lock := False\<rparr>) s
      in wake (b_wait (bufs s b)) s)"

subsection \<open>Making requests\<close>

definition start_driver :: "env \<Rightarrow> nat \<Rightarrow> fsys \<Rightarrow> unit fres" where
  "start_driver E major s = (case request_fn E major of None \<Rightarrow> retK () s | Some f \<Rightarrow> f s)"

definition add_request :: "env \<Rightarrow> nat \<Rightarrow> nat \<Rightarrow> fsys \<Rightarrow> unit fres" where
  "add_request E major q s =
     (let s = (case r_bh (requests s q) of None \<Rightarrow> s
                | Some b \<Rightarrow> upd_buf b (\<lambda>h. h\<lparr>b_dirt := False\<rparr>) s)
      in if queue s major = []
         then start_driver E major (s\<lparr>queue := (queue s)(major := [q])\<rparr>)
         else retK () (s\<lparr>queue := (queue s)(major := enqueue (requests s) q (queue s major))\<rparr>))"

definition find_request :: "nat \<Rightarrow> fsys \<Rightarrow> nat option" where
  "find_request n s = List.find (\<lambda>i. r_dev (requests s i) = None) (rev [0..<n])"

definition fill_request :: "dev \<Rightarrow> rw_cmd \<Rightarrow> nat \<Rightarrow> nat \<Rightarrow> u32 \<Rightarrow> nat option \<Rightarrow> nat option \<Rightarrow> request" where
  "fill_request d rw sector nr page waiting bh =
     \<lparr>r_dev = Some d, r_cmd = rw, r_errors = 0, r_sector = sector mod 2 ^ 32, r_nr_sectors = nr,
      r_page = page, r_waiting = waiting, r_bh = bh\<rparr>"

definition submit_block :: "env \<Rightarrow> nat \<Rightarrow> rw_cmd \<Rightarrow> nat \<Rightarrow> nat \<Rightarrow> fsys \<Rightarrow> unit fres" where
  "submit_block E major rw b q s =
     (let h = bufs s b in
      add_request E major q
        (upd_request q (\<lambda>_. fill_request (b_dev h) rw (2 * b_blocknr h) 2 0 None (Some b)) s))"

definition make_request :: "env \<Rightarrow> nat \<Rightarrow> rw_cmd \<Rightarrow> nat \<Rightarrow> fsys \<Rightarrow> unit fres" where
  "make_request E major rw b s =
     (let rw_ahead = (rw = READA \<or> rw = WRITEA);
          rw' = (if rw = READA \<or> rw = READ then READ else WRITE)
      in if rw_ahead \<and> b_lock (bufs s b) then retK () s
         else bindK (lock_buffer E b s) (\<lambda>_ s.
           if rw' = WRITE \<and> \<not> b_dirt (bufs s b) \<or> rw' = READ \<and> b_uptodate (bufs s b)
           then retK () (unlock_buffer b s)
           else let n = (if rw' = READ then NR_REQUEST else NR_REQUEST * 2 div 3) in
             case find_request n s of
               Some q \<Rightarrow> submit_block E major rw' b q s
             | None \<Rightarrow>
                 if rw_ahead then retK () (unlock_buffer b s)
                 else bindK (sleep_while E ''wait_for_request'' (\<lambda>s. find_request n s = None) s)
                   (\<lambda>_ s. submit_block E major rw' b (the (find_request n s)) s)))"

definition submit_page :: "env \<Rightarrow> rw_cmd \<Rightarrow> dev \<Rightarrow> nat \<Rightarrow> u32 \<Rightarrow> nat \<Rightarrow> fsys \<Rightarrow> unit fres" where
  "submit_page E rw d page addr q s =
     bindK (add_request E (MAJOR d) q
              (upd_kernel (upd_cur (\<lambda>t. t\<lparr>t_state := TASK_UNINTERRUPTIBLE\<rparr>))
                (upd_request q (\<lambda>_. fill_request d rw (8 * page) 8 addr (Some (me s)) None) s)))
       (\<lambda>_ s. retK () (others E s))"

definition no_driver :: "env \<Rightarrow> dev \<Rightarrow> bool" where
  "no_driver E d \<longleftrightarrow> NR_BLK_DEV \<le> MAJOR d \<or> request_fn E (MAJOR d) = None"

definition ll_rw_page :: "env \<Rightarrow> rw_cmd \<Rightarrow> dev \<Rightarrow> nat \<Rightarrow> u32 \<Rightarrow> fsys \<Rightarrow> unit fres" where
  "ll_rw_page E rw d page addr s =
     (if no_driver E d then retK () (fs_say ''Trying to read nonexistent block-device'' s)
      else if rw \<noteq> READ \<and> rw \<noteq> WRITE then stopK (Panic ''Bad block dev command, must be R/W'') s
      else bindK (sleep_while E ''wait_for_request'' (\<lambda>s. find_request NR_REQUEST s = None) s)
        (\<lambda>_ s. submit_page E rw d page addr (the (find_request NR_REQUEST s)) s))"

definition ll_rw_block :: "env \<Rightarrow> rw_cmd \<Rightarrow> nat \<Rightarrow> fsys \<Rightarrow> unit fres" where
  "ll_rw_block E rw b s =
     (if no_driver E (b_dev (bufs s b))
      then retK () (fs_say ''Trying to read nonexistent block-device'' s)
      else make_request E (MAJOR (b_dev (bufs s b))) rw b s)"

definition blk_dev_init :: "fsys \<Rightarrow> fsys" where
  "blk_dev_init s = fold (\<lambda>i. upd_request i (\<lambda>r. r\<lparr>r_dev := None\<rparr>)) [0..<NR_REQUEST] s"

subsection \<open>The end of a request\<close>

definition device_off :: "nat \<Rightarrow> dev \<Rightarrow> fsys \<Rightarrow> fsys" where
  "device_off major d s =
     (if major = 2 then upd_kernel (floppy_off (unat (d AND 3))) s else s)"

definition end_request :: "nat \<Rightarrow> bool \<Rightarrow> fsys \<Rightarrow> fsys" where
  "end_request major uptodate s =
     (let q = hd (queue s major); r = requests s q;
          s = (case r_dev r of None \<Rightarrow> s | Some d \<Rightarrow> device_off major d s);
          s = (case r_bh r of None \<Rightarrow> s
                | Some b \<Rightarrow> unlock_buffer b (upd_buf b (\<lambda>h. h\<lparr>b_uptodate := uptodate\<rparr>) s));
          s = (if uptodate then s else fs_say ''I/O error'' s);
          s = wake (r_waiting r) s;
          s = wake (wait_for_request s) s;
          s = upd_request q (\<lambda>r. r\<lparr>r_dev := None\<rparr>) s
      in s\<lparr>queue := (queue s)(major := tl (queue s major))\<rparr>)"

text \<open>\<^verbatim>\<open>INIT_REQUEST\<close>: the checks on the first request of the list.\<close>

definition check_request :: "nat \<Rightarrow> nat \<Rightarrow> fsys \<Rightarrow> unit fres" where
  "check_request major q s =
     (let r = requests s q in
      if (case r_dev r of None \<Rightarrow> True | Some d \<Rightarrow> MAJOR d \<noteq> major)
      then stopK (Panic ''request list destroyed'') s
      else if (case r_bh r of None \<Rightarrow> False | Some b \<Rightarrow> \<not> b_lock (bufs s b))
      then stopK (Panic ''block not locked'') s
      else retK () s)"

subsection \<open>The RAM disk\<close>

text \<open>Bytes of a page of physical memory, and a page made of bytes.\<close>

definition page_byte :: "u32 \<Rightarrow> memory \<Rightarrow> nat \<Rightarrow> u8" where
  "page_byte p m i = ucast (drop_bit (8 * (i mod 4)) (m (p + 4 * of_nat (i div 4))))"

definition long_of :: "(nat \<Rightarrow> u8) \<Rightarrow> u32" where
  "long_of f = ucast (f 0) OR push_bit 8 (ucast (f 1)) OR push_bit 16 (ucast (f 2)) OR push_bit 24 (ucast (f 3))"

definition rd_write :: "request \<Rightarrow> nat \<Rightarrow> nat \<Rightarrow> fsys \<Rightarrow> fsys" where
  "rd_write r addr len s =
     s\<lparr>rd_mem := (\<lambda>a. if addr \<le> a \<and> a < addr + len
        then (case r_bh r of Some b \<Rightarrow> b_data (bufs s b) (a - addr)
              | None \<Rightarrow> page_byte (r_page r) (mem (pages s)) (a - addr))
        else rd_mem s a)\<rparr>"

definition rd_read :: "request \<Rightarrow> nat \<Rightarrow> nat \<Rightarrow> fsys \<Rightarrow> fsys" where
  "rd_read r addr len s =
     (case r_bh r of
        Some b \<Rightarrow> upd_buf b (\<lambda>h. h\<lparr>b_data := (\<lambda>i. if i < len then rd_mem s (addr + i) else b_data h i)\<rparr>) s
      | None \<Rightarrow> s\<lparr>pages := (pages s)\<lparr>mem := fill_page (r_page r)
          (\<lambda>d. long_of (\<lambda>j. rd_mem s (addr + unat d + j))) (mem (pages s))\<rparr>\<rparr>)"

definition rd_serve :: "nat \<Rightarrow> fsys \<Rightarrow> unit fres" where
  "rd_serve q s =
     bindK (check_request 1 q s) (\<lambda>_ s.
       let r = requests s q;
           addr = (rd_start s + r_sector r * 512) mod 2 ^ 32;
           len = r_nr_sectors r * 512
       in if MINOR (the (r_dev r)) \<noteq> 1 \<or> rd_start s + rd_length s < (addr + len) mod 2 ^ 32
          then retK () (end_request 1 False s)
          else if r_cmd r = WRITE then retK () (end_request 1 True (rd_write r addr len s))
          else if r_cmd r = READ then retK () (end_request 1 True (rd_read r addr len s))
          else stopK (Panic ''unknown ramdisk-command'') s)"

lemma end_request_queue: "queue (end_request m u s) = (queue s)(m := tl (queue s m))"
proof -
  have "queue (upd_kernel f t) = queue t" "queue (upd_buf b g t) = queue t" "queue (upd_request b h t) = queue t"
    for f g h b t
    by (simp_all add: upd_kernel_def upd_buf_def upd_request_def)
  then show ?thesis
    by (simp add: end_request_def Let_def wake_def unlock_buffer_def fs_say_def device_off_def split: option.split)
qed

lemma rd_serve_queue:
  assumes "rd_serve q s = Inr (u, s')"
  shows "queue s' = (queue s)(1 := tl (queue s 1))"
proof -
  have "queue (rd_write r a l s) = queue s" "queue (rd_read r a l s) = queue s" for r a l
    by (simp_all add: rd_write_def rd_read_def upd_buf_def split: option.split)
  then show ?thesis
    using assms by (auto simp: rd_serve_def check_request_def Let_def end_request_queue split: if_splits)
qed

function do_rd_request :: "fsys \<Rightarrow> unit fres" where
  "do_rd_request s =
     (if queue s 1 = [] then retK () s
      else bindK (rd_serve (hd (queue s 1)) s) (\<lambda>_ s. do_rd_request s))"
  by pat_completeness auto
termination do_rd_request
  by (relation "measure (\<lambda>s. length (queue s 1))") (auto simp: rd_serve_queue)

declare do_rd_request.simps [simp del]

definition rd_init :: "nat \<Rightarrow> nat \<Rightarrow> fsys \<Rightarrow> nat \<times> fsys" where
  "rd_init mem_start len s =
     (len, s\<lparr>rd_start := mem_start, rd_length := len,
             rd_mem := (\<lambda>a. if mem_start \<le> a \<and> a < mem_start + len then 0 else rd_mem s a)\<rparr>)"

end
