(* ===== verification/Buffer.thy ===== *)
theory Buffer
  imports Blkdev
begin

section \<open>The buffer cache\<close>

text \<open>
  \<^verbatim>\<open>fs/buffer.c\<close>, with the routines of \<^verbatim>\<open>fs/inode.c\<close> and
  \<^verbatim>\<open>fs/super.c\<close> it is entangled with: \<^verbatim>\<open>getblk\<close> may have to write out a device
  (\<^verbatim>\<open>sync_dev\<close>), which writes inodes, which reads blocks, which calls
  \<^verbatim>\<open>getblk\<close>. The routines on that cycle take the \<open>getblk\<close> they use as the argument \<open>gb\<close>;
  \<open>getblk_rounds\<close> ties the knot, one round for every time the code starts over or recurses, and
  reports \<open>Sleeps\<close> when its rounds are used up.
\<close>

subsection \<open>Waiting and locks\<close>

definition wait_on_buffer :: "env \<Rightarrow> nat \<Rightarrow> fsys \<Rightarrow> unit fres" where
  "wait_on_buffer E b = sleep_while E ''wait_on_buffer'' (\<lambda>s. b_lock (bufs s b))"

definition wait_on_inode :: "env \<Rightarrow> nat \<Rightarrow> fsys \<Rightarrow> unit fres" where
  "wait_on_inode E i = sleep_while E ''wait_on_inode'' (\<lambda>s. i_lock (inodes s i))"

definition lock_inode :: "env \<Rightarrow> nat \<Rightarrow> fsys \<Rightarrow> unit fres" where
  "lock_inode E i s =
     bindK (sleep_while E ''lock_inode'' (\<lambda>s. i_lock (inodes s i)) s)
       (\<lambda>_ s. retK () (upd_inode i (\<lambda>x. x\<lparr>i_lock := True\<rparr>) s))"

definition unlock_inode :: "nat \<Rightarrow> fsys \<Rightarrow> fsys" where
  "unlock_inode i s = (let s = upd_inode i (\<lambda>x. x\<lparr>i_lock := False\<rparr>) s in wake (i_wait (inodes s i)) s)"

definition wait_on_super :: "env \<Rightarrow> nat \<Rightarrow> fsys \<Rightarrow> unit fres" where
  "wait_on_super E i = sleep_while E ''wait_on_super'' (\<lambda>s. s_lock (supers s i))"

definition lock_super :: "env \<Rightarrow> nat \<Rightarrow> fsys \<Rightarrow> unit fres" where
  "lock_super E i s =
     bindK (sleep_while E ''lock_super'' (\<lambda>s. s_lock (supers s i)) s)
       (\<lambda>_ s. retK () (upd_super i (\<lambda>x. x\<lparr>s_lock := True\<rparr>) s))"

definition free_super :: "nat \<Rightarrow> fsys \<Rightarrow> fsys" where
  "free_super i s = (let s = upd_super i (\<lambda>x. x\<lparr>s_lock := False\<rparr>) s in wake (s_wait (supers s i)) s)"

definition find_super :: "dev \<Rightarrow> fsys \<Rightarrow> nat option" where
  "find_super d s = List.find (\<lambda>i. s_dev (supers s i) = d) [0..<NR_SUPER]"

primrec get_super_rounds :: "nat \<Rightarrow> env \<Rightarrow> dev \<Rightarrow> fsys \<Rightarrow> nat option fres" where
  "get_super_rounds 0 E d s = stopK (Sleeps ''get_super'') s"
| "get_super_rounds (Suc n) E d s =
     (case find_super d s of None \<Rightarrow> retK None s
      | Some i \<Rightarrow> bindK (wait_on_super E i s)
          (\<lambda>_ s. if s_dev (supers s i) = d then retK (Some i) s else get_super_rounds n E d s))"

definition get_super :: "env \<Rightarrow> dev \<Rightarrow> fsys \<Rightarrow> nat option fres" where
  "get_super E d s = (if d = 0 then retK None s else get_super_rounds (Suc (rounds E)) E d s)"

subsection \<open>The hash queues and the free list\<close>

definition hashfn :: "dev \<Rightarrow> nat \<Rightarrow> nat" where
  "hashfn d block = (unat d XOR block) mod NR_HASH"

definition hash :: "dev \<Rightarrow> nat \<Rightarrow> fsys \<Rightarrow> nat option" where
  "hash d block s = hash_table s (hashfn d block)"

text \<open>Writing through a pointer; nothing is kept at the null pointer.\<close>

definition via :: "nat option \<Rightarrow> (buffer_head \<Rightarrow> buffer_head) \<Rightarrow> fsys \<Rightarrow> fsys" where
  "via p f s = (case p of None \<Rightarrow> s | Some b \<Rightarrow> upd_buf b f s)"

definition remove_from_queues :: "nat \<Rightarrow> fsys \<Rightarrow> unit fres" where
  "remove_from_queues b s =
     (let h = bufs s b;
          s = via (b_next h) (\<lambda>x. x\<lparr>b_prev := b_prev h\<rparr>) s;
          s = via (b_prev h) (\<lambda>x. x\<lparr>b_next := b_next h\<rparr>) s;
          k = hashfn (b_dev h) (b_blocknr h);
          s = (if hash_table s k = Some b then s\<lparr>hash_table := (hash_table s)(k := b_next h)\<rparr> else s);
          h = bufs s b
      in if b_prev_free h = None \<or> b_next_free h = None then stopK (Panic ''Free block list corrupted'') s
         else
           let s = via (b_prev_free h) (\<lambda>x. x\<lparr>b_next_free := b_next_free h\<rparr>) s;
               h = bufs s b;
               s = via (b_next_free h) (\<lambda>x. x\<lparr>b_prev_free := b_prev_free h\<rparr>) s
           in retK () (if free_list s = b then s\<lparr>free_list := the (b_next_free (bufs s b))\<rparr> else s))"

definition insert_into_queues :: "nat \<Rightarrow> fsys \<Rightarrow> fsys" where
  "insert_into_queues b s =
     (let f = free_list s;
          s = upd_buf b (\<lambda>x. x\<lparr>b_next_free := Some f, b_prev_free := b_prev_free (bufs s f)\<rparr>) s;
          s = via (b_prev_free (bufs s f)) (\<lambda>x. x\<lparr>b_next_free := Some b\<rparr>) s;
          s = upd_buf f (\<lambda>x. x\<lparr>b_prev_free := Some b\<rparr>) s;
          s = upd_buf b (\<lambda>x. x\<lparr>b_prev := None, b_next := None\<rparr>) s;
          d = b_dev (bufs s b); k = hashfn d (b_blocknr (bufs s b))
      in if d = 0 then s
         else
           let old = hash_table s k;
               s = upd_buf b (\<lambda>x. x\<lparr>b_next := old\<rparr>) s;
               s = s\<lparr>hash_table := (hash_table s)(k := Some b)\<rparr>
           in case old of None \<Rightarrow> s\<lparr>null_prev := Some b\<rparr>
              | Some n \<Rightarrow> upd_buf n (\<lambda>x. x\<lparr>b_prev := Some b\<rparr>) s)"

text \<open>The search along one hash queue. A queue is never longer than the number of buffers, which
  bounds the walk.\<close>

primrec find_chain :: "nat \<Rightarrow> nat option \<Rightarrow> dev \<Rightarrow> nat \<Rightarrow> fsys \<Rightarrow> nat option" where
  "find_chain 0 p d block s = None"
| "find_chain (Suc n) p d block s =
     (case p of None \<Rightarrow> None
      | Some b \<Rightarrow> if b_dev (bufs s b) = d \<and> b_blocknr (bufs s b) = block then Some b
                 else find_chain n (b_next (bufs s b)) d block s)"

definition find_buffer :: "dev \<Rightarrow> nat \<Rightarrow> fsys \<Rightarrow> nat option" where
  "find_buffer d block s = find_chain (nr_buffers s) (hash d block s) d block s"

primrec get_hash_rounds :: "nat \<Rightarrow> env \<Rightarrow> dev \<Rightarrow> nat \<Rightarrow> fsys \<Rightarrow> nat option fres" where
  "get_hash_rounds 0 E d block s = stopK (Sleeps ''get_hash_table'') s"
| "get_hash_rounds (Suc n) E d block s =
     (case find_buffer d block s of None \<Rightarrow> retK None s
      | Some b \<Rightarrow>
          bindK (wait_on_buffer E b (upd_buf b (\<lambda>h. h\<lparr>b_count := b_count h + 1\<rparr>) s)) (\<lambda>_ s.
            if b_dev (bufs s b) = d \<and> b_blocknr (bufs s b) = block then retK (Some b) s
            else get_hash_rounds n E d block (upd_buf b (\<lambda>h. h\<lparr>b_count := b_count h - 1\<rparr>) s)))"

definition get_hash_table :: "env \<Rightarrow> dev \<Rightarrow> nat \<Rightarrow> fsys \<Rightarrow> nat option fres" where
  "get_hash_table E = get_hash_rounds (Suc (rounds E)) E"

subsection \<open>Reading blocks and writing inodes, for a given \<^verbatim>\<open>getblk\<close>\<close>

type_synonym getblk_fn = "dev \<Rightarrow> nat \<Rightarrow> fsys \<Rightarrow> nat fres"

definition brelse :: "env \<Rightarrow> nat option \<Rightarrow> fsys \<Rightarrow> unit fres" where
  "brelse E p s =
     (case p of None \<Rightarrow> retK () s
      | Some b \<Rightarrow>
          bindK (wait_on_buffer E b s) (\<lambda>_ s.
            let c = b_count (bufs s b); s = upd_buf b (\<lambda>h. h\<lparr>b_count := c - 1\<rparr>) s in
            if c = 0 then stopK (Panic ''Trying to free free buffer'') s
            else retK () (wake (buffer_wait s) s)))"

definition bread_by :: "getblk_fn \<Rightarrow> env \<Rightarrow> dev \<Rightarrow> nat \<Rightarrow> fsys \<Rightarrow> nat option fres" where
  "bread_by gb E d block s =
     bindK (gb d block s) (\<lambda>b s.
       if b_uptodate (bufs s b) then retK (Some b) s
       else bindK (ll_rw_block E READ b s) (\<lambda>_ s.
         bindK (wait_on_buffer E b s) (\<lambda>_ s.
           if b_uptodate (bufs s b) then retK (Some b) s
           else bindK (brelse E (Some b) s) (\<lambda>_ s. retK None s))))"

text \<open>The block an inode lies in, and its place there. Inode numbers start at 1.\<close>

definition inode_block :: "'a super_block_scheme \<Rightarrow> u16 \<Rightarrow> nat" where
  "inode_block sb num = 2 + unat (s_imap_blocks sb) + unat (s_zmap_blocks sb) + (unat num - 1) div INODES_PER_BLOCK"

definition inode_slot :: "u16 \<Rightarrow> nat" where
  "inode_slot num = (unat num - 1) mod INODES_PER_BLOCK"

definition write_inode_by :: "getblk_fn \<Rightarrow> env \<Rightarrow> nat \<Rightarrow> fsys \<Rightarrow> unit fres" where
  "write_inode_by gb E i s =
     bindK (lock_inode E i s) (\<lambda>_ s.
       if \<not> i_dirt (inodes s i) \<or> i_dev (inodes s i) = 0 then retK () (unlock_inode i s)
       else bindK (get_super E (i_dev (inodes s i)) s) (\<lambda>sb s.
         case sb of None \<Rightarrow> stopK (Panic ''trying to write inode without device'') s
         | Some sb \<Rightarrow>
             bindK (bread_by gb E (i_dev (inodes s i)) (inode_block (supers s sb) (i_num (inodes s i))) s)
               (\<lambda>bh s. case bh of None \<Rightarrow> stopK (Panic ''unable to read i-node block'') s
                | Some b \<Rightarrow>
                    let x = inodes s i;
                        s = upd_buf b (\<lambda>h. h\<lparr>b_data := put_d_inode (inode_slot (i_num x)) x (b_data h),
                                            b_dirt := True\<rparr>) s;
                        s = upd_inode i (\<lambda>x. x\<lparr>i_dirt := False\<rparr>) s
                    in bindK (brelse E (Some b) s) (\<lambda>_ s. retK () (unlock_inode i s)))))"

definition sync_inodes_by :: "getblk_fn \<Rightarrow> env \<Rightarrow> fsys \<Rightarrow> unit fres" where
  "sync_inodes_by gb E =
     forK (\<lambda>i s. bindK (wait_on_inode E i s) (\<lambda>_ s.
       if i_dirt (inodes s i) \<and> \<not> i_pipe (inodes s i) then write_inode_by gb E i s else retK () s))
     [0..<NR_INODE]"

definition sync_buffer :: "env \<Rightarrow> dev \<Rightarrow> nat \<Rightarrow> fsys \<Rightarrow> unit fres" where
  "sync_buffer E d b s =
     (if b_dev (bufs s b) \<noteq> d then retK () s
      else bindK (wait_on_buffer E b s) (\<lambda>_ s.
        if b_dev (bufs s b) = d \<and> b_dirt (bufs s b) then ll_rw_block E WRITE b s else retK () s))"

definition sync_dev_by :: "getblk_fn \<Rightarrow> env \<Rightarrow> dev \<Rightarrow> fsys \<Rightarrow> unit fres" where
  "sync_dev_by gb E d s =
     bindK (forK (sync_buffer E d) [0..<nr_buffers s] s) (\<lambda>_ s.
       bindK (sync_inodes_by gb E s) (\<lambda>_ s. forK (sync_buffer E d) [0..<nr_buffers s] s))"

subsection \<open>\<^verbatim>\<open>getblk\<close>\<close>

definition BADNESS :: "buffer_head \<Rightarrow> nat" where
  "BADNESS h = (if b_dirt h then 2 else 0) + (if b_lock h then 1 else 0)"

primrec scan_free :: "nat \<Rightarrow> nat \<Rightarrow> nat option \<Rightarrow> fsys \<Rightarrow> nat option" where
  "scan_free 0 tmp bh s = bh"
| "scan_free (Suc n) tmp bh s =
     (let t = bufs s tmp;
          better = (b_count t = 0 \<and>
            (case bh of None \<Rightarrow> True | Some b \<Rightarrow> BADNESS t < BADNESS (bufs s b)));
          bh = (if better then Some tmp else bh);
          next = the (b_next_free t)
      in if better \<and> BADNESS t = 0 \<or> next = free_list s then bh else scan_free n next bh s)"

text \<open>\<^verbatim>\<open>while (bh->b_dirt)\<close>: \<open>False\<close> is its \<^verbatim>\<open>goto repeat\<close>.\<close>

primrec clean_buffer :: "nat \<Rightarrow> getblk_fn \<Rightarrow> env \<Rightarrow> nat \<Rightarrow> fsys \<Rightarrow> bool fres" where
  "clean_buffer 0 gb E b s = (if b_dirt (bufs s b) then stopK (Sleeps ''getblk'') s else retK True s)"
| "clean_buffer (Suc n) gb E b s =
     (if \<not> b_dirt (bufs s b) then retK True s
      else bindK (sync_dev_by gb E (b_dev (bufs s b)) s) (\<lambda>_ s.
        bindK (wait_on_buffer E b s) (\<lambda>_ s.
          if b_count (bufs s b) \<noteq> 0 then retK False s else clean_buffer n gb E b s)))"

definition take_buffer :: "dev \<Rightarrow> nat \<Rightarrow> nat \<Rightarrow> fsys \<Rightarrow> nat fres" where
  "take_buffer d block b s =
     bindK (remove_from_queues b (upd_buf b (\<lambda>h. h\<lparr>b_count := 1, b_dirt := False, b_uptodate := False\<rparr>) s))
       (\<lambda>_ s. retK b (insert_into_queues b (upd_buf b (\<lambda>h. h\<lparr>b_dev := d, b_blocknr := block\<rparr>) s)))"

primrec getblk_rounds :: "nat \<Rightarrow> env \<Rightarrow> getblk_fn" where
  "getblk_rounds 0 E d block s = stopK (Sleeps ''getblk'') s"
| "getblk_rounds (Suc n) E d block s =
     bindK (get_hash_table E d block s) (\<lambda>p s.
       case p of Some b \<Rightarrow> retK b s
       | None \<Rightarrow>
           (case scan_free (nr_buffers s) (free_list s) None s of
              None \<Rightarrow> bindK (sleep_once E s) (\<lambda>_ s. getblk_rounds n E d block s)
            | Some b \<Rightarrow>
                bindK (wait_on_buffer E b s) (\<lambda>_ s.
                  if b_count (bufs s b) \<noteq> 0 then getblk_rounds n E d block s
                  else bindK (clean_buffer (rounds E) (getblk_rounds n E) E b s) (\<lambda>ok s.
                    if \<not> ok \<or> find_buffer d block s \<noteq> None then getblk_rounds n E d block s
                    else take_buffer d block b s))))"

definition getblk :: "env \<Rightarrow> getblk_fn" where
  "getblk E = getblk_rounds (Suc (rounds E)) E"

subsection \<open>The other routines\<close>

definition bread :: "env \<Rightarrow> dev \<Rightarrow> nat \<Rightarrow> fsys \<Rightarrow> nat option fres" where
  "bread E = bread_by (getblk E) E"

definition write_inode :: "env \<Rightarrow> nat \<Rightarrow> fsys \<Rightarrow> unit fres" where
  "write_inode E = write_inode_by (getblk E) E"

definition sync_inodes :: "env \<Rightarrow> fsys \<Rightarrow> unit fres" where
  "sync_inodes E = sync_inodes_by (getblk E) E"

definition sync_dev :: "env \<Rightarrow> dev \<Rightarrow> fsys \<Rightarrow> unit fres" where
  "sync_dev E = sync_dev_by (getblk E) E"

definition sys_sync :: "env \<Rightarrow> fsys \<Rightarrow> int fres" where
  "sys_sync E s =
     bindK (sync_inodes E s) (\<lambda>_ s.
       bindK (forK (\<lambda>b s. bindK (wait_on_buffer E b s) (\<lambda>_ s.
                if b_dirt (bufs s b) then ll_rw_block E WRITE b s else retK () s)) [0..<nr_buffers s] s)
         (\<lambda>_ s. retK 0 s))"

definition invalidate_buffers :: "env \<Rightarrow> dev \<Rightarrow> fsys \<Rightarrow> unit fres" where
  "invalidate_buffers E d s =
     forK (\<lambda>b s. if b_dev (bufs s b) \<noteq> d then retK () s
       else bindK (wait_on_buffer E b s) (\<lambda>_ s. retK ()
         (if b_dev (bufs s b) = d then upd_buf b (\<lambda>h. h\<lparr>b_uptodate := False, b_dirt := False\<rparr>) s else s)))
     [0..<nr_buffers s] s"

text \<open>\<^verbatim>\<open>bread_page\<close>: the reads are started together, then each block is waited for and
  copied.\<close>

fun start_reads :: "env \<Rightarrow> dev \<Rightarrow> nat list \<Rightarrow> fsys \<Rightarrow> nat option list fres" where
  "start_reads E d [] s = retK [] s"
| "start_reads E d (k # ks) s =
     (if k = 0 then bindK (start_reads E d ks s) (\<lambda>bs s. retK (None # bs) s)
      else bindK (getblk E d k s) (\<lambda>b s.
        bindK (if b_uptodate (bufs s b) then retK () s else ll_rw_block E READ b s) (\<lambda>_ s.
          bindK (start_reads E d ks s) (\<lambda>bs s. retK (Some b # bs) s))))"

definition copy_block :: "block_data \<Rightarrow> u32 \<Rightarrow> mm \<Rightarrow> mm" where
  "copy_block d addr m = m\<lparr>mem := (\<lambda>a. if unat (a - addr) < BLOCK_SIZE
     then long_of (\<lambda>j. d (unat (a - addr) + j)) else mem m a)\<rparr>"

fun copy_reads :: "env \<Rightarrow> nat option list \<Rightarrow> u32 \<Rightarrow> fsys \<Rightarrow> unit fres" where
  "copy_reads E [] addr s = retK () s"
| "copy_reads E (None # bs) addr s = copy_reads E bs (addr + 1024) s"
| "copy_reads E (Some b # bs) addr s =
     bindK (wait_on_buffer E b s) (\<lambda>_ s.
       let s = (if b_uptodate (bufs s b) then s\<lparr>pages := copy_block (b_data (bufs s b)) addr (pages s)\<rparr> else s)
       in bindK (brelse E (Some b) s) (\<lambda>_ s. copy_reads E bs (addr + 1024) s))"

definition bread_page :: "env \<Rightarrow> u32 \<Rightarrow> dev \<Rightarrow> nat list \<Rightarrow> fsys \<Rightarrow> unit fres" where
  "bread_page E addr d ks s = bindK (start_reads E d ks s) (\<lambda>bs s. copy_reads E bs addr s)"

text \<open>\<^verbatim>\<open>breada\<close>: the read-ahead names the first buffer again, as the code has it.\<close>

definition breada :: "env \<Rightarrow> dev \<Rightarrow> nat \<Rightarrow> nat list \<Rightarrow> fsys \<Rightarrow> nat option fres" where
  "breada E d block ahead s =
     bindK (getblk E d block s) (\<lambda>b s.
       bindK (if b_uptodate (bufs s b) then retK () s else ll_rw_block E READ b s) (\<lambda>_ s.
         bindK (forK (\<lambda>k s. bindK (getblk E d k s) (\<lambda>tmp s.
                  bindK (if b_uptodate (bufs s tmp) then retK () s else ll_rw_block E READA b s) (\<lambda>_ s.
                    retK () (upd_buf tmp (\<lambda>h. h\<lparr>b_count := b_count h - 1\<rparr>) s)))) ahead s) (\<lambda>_ s.
           bindK (wait_on_buffer E b s) (\<lambda>_ s.
             if b_uptodate (bufs s b) then retK (Some b) s
             else bindK (brelse E (Some b) s) (\<lambda>_ s. retK None s)))))"

text \<open>\<^verbatim>\<open>buffer_init\<close>: headers grow up from \<open>start\<close>, 36 bytes each, the blocks come down
  from \<open>b\<close>, leaving out the hole between 640K and 1M.\<close>

function count_buffers :: "nat \<Rightarrow> nat \<Rightarrow> nat \<Rightarrow> nat" where
  "count_buffers start b n =
     (if b < BLOCK_SIZE \<or> b - BLOCK_SIZE < start + 36 * (n + 1) then n
      else count_buffers start (if b - BLOCK_SIZE = 0x100000 then 0xA0000 else b - BLOCK_SIZE) (n + 1))"
  by pat_completeness auto
termination count_buffers
  by (relation "measure (\<lambda>(start, b, n). b)") auto

declare count_buffers.simps [simp del]

definition buffer_init :: "nat \<Rightarrow> nat \<Rightarrow> fsys \<Rightarrow> fsys" where
  "buffer_init start buffer_end s =
     (let n = count_buffers start (if buffer_end = 0x100000 then 640 * 1024 else buffer_end) 0 in
      s\<lparr>nr_buffers := n, free_list := 0, hash_table := (\<lambda>i. if i < NR_HASH then None else hash_table s i),
        bufs := (\<lambda>i. if i < n
          then (bufs s i)\<lparr>b_dev := 0, b_dirt := False, b_count := 0, b_lock := False, b_uptodate := False,
                 b_wait := None, b_next := None, b_prev := None,
                 b_prev_free := Some (if i = 0 then n - 1 else i - 1),
                 b_next_free := Some (if i = n - 1 then 0 else i + 1)\<rparr>
          else bufs s i)\<rparr>)"

end
