(* ===== verification/Bitmap.thy ===== *)
theory Bitmap
  imports Buffer Interfaces
begin

section \<open>Bit maps of zones and inodes\<close>

text \<open>
  \<^verbatim>\<open>fs/bitmap.c\<close> but for \<^verbatim>\<open>new_inode\<close>. A bit map block is the data of a buffer;
  bit \<open>n\<close> is bit \<open>n mod 8\<close> of byte \<open>n div 8\<close>, set when the zone or inode is in use.
\<close>

definition bitmap_bit :: "block_data \<Rightarrow> nat \<Rightarrow> bool" where
  "bitmap_bit d n = bit (d (n div 8)) (n mod 8)"

definition put_bit :: "nat \<Rightarrow> bool \<Rightarrow> block_data \<Rightarrow> block_data" where
  "put_bit n v d = d(n div 8 := (if v then set_bit (n mod 8) (d (n div 8)) else unset_bit (n mod 8) (d (n div 8))))"

text \<open>\<^verbatim>\<open>find_first_zero\<close>: the longs are complemented and searched for their lowest set
  bit.\<close>

definition long_at :: "block_data \<Rightarrow> nat \<Rightarrow> u32" where
  "long_at d i = long_of (\<lambda>j. d (4 * i + j))"

definition bsf :: "u32 \<Rightarrow> nat option" where
  "bsf w = List.find (bit w) [0..<32]"

primrec scan_longs :: "nat \<Rightarrow> nat \<Rightarrow> block_data \<Rightarrow> nat" where
  "scan_longs 0 i d = 32 * i"
| "scan_longs (Suc n) i d =
     (case bsf (NOT (long_at d i)) of Some k \<Rightarrow> 32 * i + k | None \<Rightarrow> scan_longs n (Suc i) d)"

definition find_first_zero :: "block_data \<Rightarrow> nat" where
  "find_first_zero d = scan_longs 256 0 d"

subsection \<open>Zones\<close>

definition free_block :: "env \<Rightarrow> dev \<Rightarrow> nat \<Rightarrow> fsys \<Rightarrow> bool fres" where
  "free_block E d block s =
     bindK (get_super E d s) (\<lambda>p s.
       case p of None \<Rightarrow> stopK (Panic ''trying to free block on nonexistent device'') s
       | Some i \<Rightarrow>
         let sb = supers s i in
         if block < unat (s_firstdatazone sb) \<or> unat (s_nzones sb) \<le> block
         then stopK (Panic ''trying to free block not in datazone'') s
         else bindK (get_hash_table E d block s) (\<lambda>bh s.
           bindK (case bh of None \<Rightarrow> retK True s
                  | Some b \<Rightarrow>
                      if 1 < b_count (bufs s b) then bindK (brelse E (Some b) s) (\<lambda>_ s. retK False s)
                      else let s = upd_buf b (\<lambda>h. h\<lparr>b_dirt := False, b_uptodate := False\<rparr>) s in
                        if b_count (bufs s b) \<noteq> 0 then bindK (brelse E (Some b) s) (\<lambda>_ s. retK True s)
                        else retK True s) (\<lambda>go s.
             if \<not> go then retK False s
             else let n = block - (unat (s_firstdatazone (supers s i)) - 1) in
               case s_zmap (supers s i) (n div 8192) of None \<Rightarrow> stopK (Wild ''free_block: no zone map'') s
               | Some z \<Rightarrow>
                   let s = (if bitmap_bit (b_data (bufs s z)) (n mod 8192) then s
                            else fs_say ''free_block: bit already cleared'' s)
                   in retK True (upd_buf z (\<lambda>h. h\<lparr>b_data := put_bit (n mod 8192) False (b_data h), b_dirt := True\<rparr>) s))))"

text \<open>The loop over the map blocks: the first one with a free bit, and that bit.\<close>

definition find_map_bit :: "(nat \<Rightarrow> nat option) \<Rightarrow> fsys \<Rightarrow> (nat \<times> nat \<times> nat) option" where
  "find_map_bit m s =
     (case List.find (\<lambda>i. case m i of None \<Rightarrow> False | Some b \<Rightarrow> find_first_zero (b_data (bufs s b)) < 8192) [0..<8] of
        None \<Rightarrow> None
      | Some i \<Rightarrow> let b = the (m i) in Some (i, b, find_first_zero (b_data (bufs s b))))"

definition mark_bit :: "nat \<Rightarrow> nat \<Rightarrow> fsys \<Rightarrow> fsys" where
  "mark_bit b j = upd_buf b (\<lambda>h. h\<lparr>b_data := put_bit j True (b_data h), b_dirt := True\<rparr>)"

definition new_block :: "env \<Rightarrow> dev \<Rightarrow> fsys \<Rightarrow> nat fres" where
  "new_block E d s =
     bindK (get_super E d s) (\<lambda>p s.
       case p of None \<Rightarrow> stopK (Panic ''trying to get new block from nonexistant device'') s
       | Some i \<Rightarrow>
         (case find_map_bit (s_zmap (supers s i)) s of
            None \<Rightarrow> retK 0 s
          | Some (k, z, j) \<Rightarrow>
              if bitmap_bit (b_data (bufs s z)) j then stopK (Panic ''new_block: bit already set'') s
              else
                let s = mark_bit z j s;
                    n = j + k * 8192 + unat (s_firstdatazone (supers s i)) - 1
                in if unat (s_nzones (supers s i)) \<le> n then retK 0 s
                   else bindK (getblk E d n s) (\<lambda>b s.
                     if b_count (bufs s b) \<noteq> 1 then stopK (Panic ''new block: count is != 1'') s
                     else bindK (brelse E (Some b) (upd_buf b (\<lambda>h. h\<lparr>
                                   b_data := (\<lambda>o'. if o' < BLOCK_SIZE then 0 else b_data h o'),
                                   b_uptodate := True, b_dirt := True\<rparr>) s))
                            (\<lambda>_ s. retK n s))))"

subsection \<open>Inodes\<close>

definition zero_inode :: m_inode where
  "zero_inode =
     \<lparr>i_mode = 0, i_uid = 0, i_size = 0, i_mtime = 0, i_gid = 0, i_nlinks = 0, i_zone = (\<lambda>_. 0),
      i_wait = None, i_wait2 = None, i_atime = 0, i_ctime = 0, i_dev = 0, i_num = 0, i_count = 0,
      i_lock = False, i_dirt = False, i_pipe = False, i_mount = False, i_seek = False, i_update = False\<rparr>"

definition free_inode :: "env \<Rightarrow> nat option \<Rightarrow> fsys \<Rightarrow> unit fres" where
  "free_inode E p s =
     (case p of None \<Rightarrow> retK () s
      | Some i \<Rightarrow>
        let x = inodes s i in
        if i_dev x = 0 then retK () (upd_inode i (\<lambda>_. zero_inode) s)
        else if 1 < i_count x then stopK (Panic ''free_inode'') s
        else if i_nlinks x \<noteq> 0 then stopK (Panic ''trying to free inode with links'') s
        else bindK (get_super E (i_dev x) s) (\<lambda>sb s.
          case sb of None \<Rightarrow> stopK (Panic ''trying to free inode on nonexistent device'') s
          | Some k \<Rightarrow>
            let n = unat (i_num (inodes s i)) in
            if n < 1 \<or> unat (s_ninodes (supers s k)) < n
            then stopK (Panic ''trying to free inode 0 or nonexistant inode'') s
            else case s_imap (supers s k) (n div 8192) of
              None \<Rightarrow> stopK (Panic ''nonexistent imap in superblock'') s
            | Some b \<Rightarrow>
                let s = (if bitmap_bit (b_data (bufs s b)) (n mod 8192) then s
                         else fs_say ''free_inode: bit already cleared.'' s);
                    s = upd_buf b (\<lambda>h. h\<lparr>b_data := put_bit (n mod 8192) False (b_data h), b_dirt := True\<rparr>) s
                in retK () (upd_inode i (\<lambda>_. zero_inode) s)))"

end
