(* ===== verification/Fs_Samples.thy ===== *)
theory Fs_Samples
  imports Fs_Base Bitmap Mm_Props Proc_Props
begin

section \<open>Concrete states of the file system\<close>

text \<open>
  States the properties of the file system are applied to: all tables empty, one task, which is
  not task 0, so that it may sleep. In \<open>env0\<close> nothing happens while it does.
\<close>

definition buf0 :: buffer_head where
  "buf0 = \<lparr>b_data = (\<lambda>_. 0), b_blocknr = 0, b_dev = 0, b_uptodate = False, b_dirt = False, b_count = 0,
     b_lock = False, b_wait = None, b_prev = None, b_next = None, b_prev_free = None, b_next_free = None\<rparr>"

definition super0 :: super_block where
  "super0 = \<lparr>s_ninodes = 0, s_nzones = 0, s_imap_blocks = 0, s_zmap_blocks = 0, s_firstdatazone = 0,
     s_log_zone_size = 0, s_max_size = 0, s_magic = 0, s_imap = (\<lambda>_. None), s_zmap = (\<lambda>_. None), s_dev = 0,
     s_isup = None, s_imount = None, s_time = 0, s_wait = None, s_lock = False, s_rd_only = False, s_dirt = False\<rparr>"

definition file0 :: ofile where
  "file0 = \<lparr>f_mode = 0, f_flags = 0, f_count = 0, f_inode = None, f_pos = 0\<rparr>"

definition request0 :: request where
  "request0 = \<lparr>r_dev = None, r_cmd = READ, r_errors = 0, r_sector = 0, r_nr_sectors = 2, r_page = 0,
     r_waiting = None, r_bh = None\<rparr>"

definition termios0 :: termios where
  "termios0 = \<lparr>c_iflag = 0x100, c_oflag = 5, c_cflag = 0, c_lflag = 0x1B, c_line = 0,
     c_cc = (\<lambda>i. [3, 28, 127, 21, 4, 0, 1, 0, 17, 19, 26, 0, 18, 15, 23, 22, 0] ! i), c_pad = (\<lambda>_. 0)\<rparr>"

definition tty_queue0 :: tty_queue where
  "tty_queue0 = \<lparr>q_data = 0, q_head = 0, q_tail = 0, q_wait = None, q_buf = (\<lambda>_. 0)\<rparr>"

definition tty0 :: tty_struct where
  "tty0 = \<lparr>termios = termios0, tt_pgrp = 0, tt_session = 0, tt_stopped = False, tt_write = ConWrite,
     tt_read_q = Some 0, tt_write_q = Some 1, tt_secondary = Some 2\<rparr>"

definition vc0 :: vc where
  "vc0 = \<lparr>vc_video_erase_char = 0x0720, vc_attr = 7, vc_def_attr = 7, vc_bold_attr = -1, vc_ques = False,
     vc_state = ESnormal, vc_restate = ESnormal, vc_checkin = 0, vc_origin = 0xb8000, vc_scr_end = 0xb8000 + 4000,
     vc_pos = 0xb8000, vc_x = 0, vc_y = 0, vc_top = 0, vc_bottom = 25, vc_npar = 0, vc_par = (\<lambda>_. 0),
     vc_video_mem_start = 0xb8000, vc_video_mem_end = 0xb8000 + 4096, vc_saved_x = 0, vc_saved_y = 0,
     vc_iscolor = False, vc_graf = False\<rparr>"

definition console0 :: console where
  "console0 = \<lparr>vc_cons = (\<lambda>_. vc0), vmem = (\<lambda>_. 0), video_type = 0x21, video_num_columns = 80,
     video_num_lines = 25, video_size_row = 160, video_mem_base = 0xb8000, video_mem_term = 0xc0000,
     video_page = 0, video_port_reg = 0x3d4, video_port_val = 0x3d5, can_do_colour = True, video_out = []\<rparr>"

definition terminals0 :: terminals where
  "terminals0 = \<lparr>tqueues = (\<lambda>_. tty_queue0), tty_table = (\<lambda>_. tty0), fg_console = 0, nr_consoles = 1,
     cr_flag = False, table_list = (\<lambda>_. 0), screen = console0\<rparr>"

definition fsys0 :: fsys where
  "fsys0 = \<lparr>kern = kernel0\<lparr>current := 1\<rparr>, pages = mm0, ttys = terminals0, bufs = (\<lambda>_. buf0), nr_buffers = 0,
     hash_table = (\<lambda>_. None), free_list = 0, null_prev = None, inodes = (\<lambda>_. zero_inode), last_inode = 0,
     supers = (\<lambda>_. super0), files = (\<lambda>_. file0), requests = (\<lambda>_. request0), queue = (\<lambda>_. []),
     blk_size = (\<lambda>_. None), wait_for_request = None, buffer_wait = None, root_dev = 0, rd_start = 0,
     rd_mem = (\<lambda>_. 0), rd_length = 0, disk = (\<lambda>_ _. 0), p_filp = (\<lambda>_ _. None), p_close_on_exec = (\<lambda>_. 0),
     p_pwd = (\<lambda>_. None), p_root = (\<lambda>_. None), p_executable = (\<lambda>_. None), p_library = (\<lambda>_. None)\<rparr>"

definition tenv0 :: tenv where
  "tenv0 = \<lparr>t_others = (\<lambda>s. s), con_write = (\<lambda>_. retK ()), update_screen = (\<lambda>s. s), con_init = (\<lambda>s. s),
     in_port = (\<lambda>_ _. 0), depth = 2, steps = 2048\<rparr>"

definition env0 :: env where
  "env0 = \<lparr>others = (\<lambda>s. s), request_fn = (\<lambda>_. None), floppy_changed = (\<lambda>_ _. False), rounds = 3,
     path_max = 256, term_env = tenv0\<rparr>"

subsection \<open>Reading back what was written into the tables\<close>

lemma upd_buf_simps [simp]:
  "bufs (upd_buf i f s) = (bufs s)(i := f (bufs s i))"
  "inodes (upd_buf i f s) = inodes s" "supers (upd_buf i f s) = supers s" "files (upd_buf i f s) = files s"
  "requests (upd_buf i f s) = requests s" "queue (upd_buf i f s) = queue s" "kern (upd_buf i f s) = kern s"
  "hash_table (upd_buf i f s) = hash_table s" "free_list (upd_buf i f s) = free_list s"
  "nr_buffers (upd_buf i f s) = nr_buffers s" "rd_mem (upd_buf i f s) = rd_mem s"
  "rd_start (upd_buf i f s) = rd_start s" "rd_length (upd_buf i f s) = rd_length s" "pages (upd_buf i f s) = pages s"
  by (simp_all add: upd_buf_def)

lemma upd_inode_simps [simp]:
  "inodes (upd_inode i f s) = (inodes s)(i := f (inodes s i))"
  "bufs (upd_inode i f s) = bufs s" "supers (upd_inode i f s) = supers s" "files (upd_inode i f s) = files s"
  "requests (upd_inode i f s) = requests s" "queue (upd_inode i f s) = queue s" "kern (upd_inode i f s) = kern s"
  "p_filp (upd_inode i f s) = p_filp s" "pages (upd_inode i f s) = pages s"
  by (simp_all add: upd_inode_def)

lemma upd_request_simps [simp]:
  "requests (upd_request i f s) = (requests s)(i := f (requests s i))"
  "bufs (upd_request i f s) = bufs s" "queue (upd_request i f s) = queue s" "kern (upd_request i f s) = kern s"
  "rd_mem (upd_request i f s) = rd_mem s" "rd_start (upd_request i f s) = rd_start s"
  "rd_length (upd_request i f s) = rd_length s" "pages (upd_request i f s) = pages s"
  by (simp_all add: upd_request_def)

lemma upd_file_simps [simp]:
  "files (upd_file i f s) = (files s)(i := f (files s i))"
  "inodes (upd_file i f s) = inodes s" "kern (upd_file i f s) = kern s" "p_filp (upd_file i f s) = p_filp s"
  "p_close_on_exec (upd_file i f s) = p_close_on_exec s" "bufs (upd_file i f s) = bufs s"
  by (simp_all add: upd_file_def)

lemma upd_kernel_simps [simp]:
  "kern (upd_kernel f s) = f (kern s)"
  "bufs (upd_kernel f s) = bufs s" "inodes (upd_kernel f s) = inodes s" "supers (upd_kernel f s) = supers s"
  "files (upd_kernel f s) = files s" "requests (upd_kernel f s) = requests s" "queue (upd_kernel f s) = queue s"
  "rd_mem (upd_kernel f s) = rd_mem s" "rd_start (upd_kernel f s) = rd_start s"
  "rd_length (upd_kernel f s) = rd_length s" "pages (upd_kernel f s) = pages s"
  "hash_table (upd_kernel f s) = hash_table s" "free_list (upd_kernel f s) = free_list s"
  "nr_buffers (upd_kernel f s) = nr_buffers s" "p_filp (upd_kernel f s) = p_filp s"
  by (simp_all add: upd_kernel_def)

end
