(* ===== verification/Blk_Props.thy ===== *)
theory Blk_Props
  imports Blkdev Fs_Samples "HOL-Library.Multiset"
begin

section \<open>The elevator and the RAM disk\<close>

text \<open>
  What \<^verbatim>\<open>add_request\<close> of \<^verbatim>\<open>kernel/blk_drv/ll_rw_blk.c\<close> keeps of the order of the
  requests, and that the RAM disk's driver serves its whole list.
\<close>

subsection \<open>The order of requests\<close>

lemma IN_ORDER_trans: "IN_ORDER a b \<Longrightarrow> IN_ORDER b c \<Longrightarrow> IN_ORDER a c"
  by (auto simp: IN_ORDER_def)

lemma IN_ORDER_irrefl [simp]: "\<not> IN_ORDER a a"
  by (simp add: IN_ORDER_def)

text \<open>How often the head has to turn back on its way through a list.\<close>

fun turns :: "(nat \<Rightarrow> request) \<Rightarrow> nat list \<Rightarrow> nat" where
  "turns R (t # n # ts) = (if IN_ORDER (R t) (R n) then 0 else 1) + turns R (n # ts)"
| "turns R _ = 0"

text \<open>All requests of the list move buffers, and none is for the block of \<open>q\<close>.\<close>

definition other_blocks :: "(nat \<Rightarrow> request) \<Rightarrow> nat \<Rightarrow> nat list \<Rightarrow> bool" where
  "other_blocks R q ts \<longleftrightarrow> r_bh (R q) \<noteq> None \<and>
     (\<forall>x \<in> set ts. r_bh (R x) \<noteq> None \<and> (IN_ORDER (R x) (R q) \<or> IN_ORDER (R q) (R x)))"

lemma enqueue_hd: "\<exists>xs. enqueue R q (t # ts) = t # xs"
  by (cases ts) auto

lemma mset_enqueue [simp]: "mset (enqueue R q ts) = add_mset q (mset ts)"
  by (induction R q ts rule: enqueue.induct) auto

lemma turns_Cons: "ts \<noteq> [] \<Longrightarrow> turns R (t # ts) = (if IN_ORDER (R t) (R (hd ts)) then 0 else 1) + turns R ts"
  by (cases ts) auto

lemma turns_enqueue_Cons:
  "turns R (t # enqueue R q (n # ts)) = (if IN_ORDER (R t) (R n) then 0 else 1) + turns R (enqueue R q (n # ts))"
  using enqueue_hd[of R q n ts] by auto

lemma enqueue_ascending:
  "other_blocks R q (n # ts) \<Longrightarrow> turns R (n # ts) = 0 \<Longrightarrow> IN_ORDER (R n) (R q) \<Longrightarrow>
   turns R (enqueue R q (n # ts)) = 0"
proof (induction ts arbitrary: n)
  case (Cons m ts)
  from Cons.prems(1) have o: "other_blocks R q (m # ts)" by (simp add: other_blocks_def)
  from Cons.prems(2) have nm: "IN_ORDER (R n) (R m)" "turns R (m # ts) = 0" by (auto split: if_splits)
  show ?case
  proof (cases "insert_here R q n m")
    case True
    with Cons.prems(1) have "IN_ORDER (R q) (R m)" by (auto simp: insert_here_def other_blocks_def)
    with True Cons.prems(3) nm show ?thesis by simp
  next
    case False
    with Cons.prems(1,3) have "\<not> IN_ORDER (R q) (R m)" by (auto simp: insert_here_def other_blocks_def)
    with o have "IN_ORDER (R m) (R q)" by (simp add: other_blocks_def)
    with Cons.IH[OF o nm(2)] False nm show ?thesis by (simp add: turns_enqueue_Cons)
  qed
qed simp

lemma turns_enqueue:
  "other_blocks R q ts \<Longrightarrow> turns R (enqueue R q ts) \<le> max 1 (turns R ts)"
proof (induction R q ts rule: enqueue.induct)
  case (3 R q t n ts)
  then have o: "other_blocks R q (n # ts)" by (simp add: other_blocks_def)
  show ?case
  proof (cases "insert_here R q t n")
    case True
    then have "enqueue R q (t # n # ts) = t # q # n # ts" by simp
    moreover have "IN_ORDER (R q) (R n)" "IN_ORDER (R t) (R q) \<or> \<not> IN_ORDER (R t) (R n)"
      using True 3(2) by (auto simp: insert_here_def other_blocks_def)
    ultimately show ?thesis by (auto simp: max_def)
  next
    case False
    then have ih: "turns R (enqueue R q (n # ts)) \<le> max 1 (turns R (n # ts))"
      and eq: "enqueue R q (t # n # ts) = t # enqueue R q (n # ts)" using 3(1) o by simp_all
    have "turns R (enqueue R q (n # ts)) = 0" if n: "\<not> IN_ORDER (R t) (R n)" and z: "turns R (n # ts) = 0"
    proof -
      have "IN_ORDER (R n) (R q)"
        using False n 3(2) by (auto simp: insert_here_def other_blocks_def)
      with z show ?thesis using enqueue_ascending[OF o] by simp
    qed
    with ih show ?thesis
      unfolding eq turns_enqueue_Cons by (cases "IN_ORDER (R t) (R n)"; cases "turns R (n # ts) = 0") simp_all
  qed
qed auto

lemma turns_tl: "turns R (tl ts) \<le> turns R ts"
  by (cases "(R, ts)" rule: turns.cases) auto

lemma turns_upd: "q \<notin> set ts \<Longrightarrow> turns (R(q := r)) ts = turns R ts"
  by (induction R ts rule: turns.induct) auto

lemma end_request_requests: "requests (end_request m u s) = (requests s)(hd (queue s m) := (requests s (hd (queue s m)))\<lparr>r_dev := None\<rparr>)"
  by (simp add: end_request_def Let_def wake_def unlock_buffer_def fs_say_def device_off_def upd_request_def
    split: option.split)

text \<open>C18. The elevator. When a request for a buffer joins the list of a busy device, in which all
  requests are for other blocks, then \<^verbatim>\<open>add_request\<close> neither starts the driver nor sleeps;
  the list holds the same requests and the new one, the request being served stays the first, and
  the list still makes the head turn back at most once: it is at most two ascending sweeps. The
  end of the first request keeps that.\<close>

theorem elevator_two_sweeps:
  assumes "queue s major \<noteq> []" and "other_blocks (requests s) q (queue s major)"
    and "turns (requests s) (queue s major) \<le> 1" and "distinct (queue s major)"
  shows "\<exists>t. add_request E major q s = Inr ((), t) \<and> requests t = requests s \<and>
    mset (queue t major) = add_mset q (mset (queue s major)) \<and> hd (queue t major) = hd (queue s major) \<and>
    turns (requests t) (queue t major) \<le> 1 \<and>
    turns (requests (end_request major u t)) (queue (end_request major u t) major) \<le> 1"
proof -
  have new: "q \<notin> set (queue s major)" using assms(2) by (auto simp: other_blocks_def)
  define ts where "ts = enqueue (requests s) q (queue s major)"
  obtain b where b: "r_bh (requests s q) = Some b" using assms(2) by (auto simp: other_blocks_def)
  define t where "t = (upd_buf b (\<lambda>h. h\<lparr>b_dirt := False\<rparr>) s)\<lparr>queue := (queue s)(major := ts)\<rparr>"
  obtain x xs ys where "queue s major = x # xs" "ts = x # ys"
    using assms(1) enqueue_hd by (metis neq_Nil_conv ts_def)
  then have hd: "hd ts = hd (queue s major)" by simp
  have ts: "turns (requests s) ts \<le> 1" "mset ts = add_mset q (mset (queue s major))"
    using assms(3) turns_enqueue[OF assms(2)] by (simp_all add: ts_def)
  have add: "add_request E major q s = Inr ((), t)"
    using assms(1) b by (simp add: add_request_def Let_def t_def ts_def retK_def)
  have "turns (requests (end_request major u t)) (queue (end_request major u t) major) \<le> 1"
  proof -
    have "distinct ts" using new assms(4) ts(2)
      by (metis count_mset_0_iff distinct.simps(2) mset.simps(2) mset_eq_imp_distinct_iff)
    then have "hd ts \<notin> set (tl ts)" by (cases ts) auto
    then show ?thesis
      using turns_tl[of "requests s" ts] ts(1)
      by (simp add: end_request_queue end_request_requests t_def turns_upd)
  qed
  with add ts hd show ?thesis by (auto simp: t_def)
qed

text \<open>A page of swap space does not always go before the blocks of files, as the comment at the
  loop promises: a request for a block may be put between the first request and a page.\<close>

lemma swap_page_not_first:
  assumes "r_bh (R 0) = Some b" "r_bh (R 1) = None" "r_bh (R 2) = Some b'"
    and "IN_ORDER (R 0) (R 2)" "IN_ORDER (R 2) (R 1)"
  shows "enqueue R 2 [0, 1] = [0, 2, 1]"
  using assms by (simp add: insert_here_def)

definition fs_queue :: fsys where
  "fs_queue = fsys0\<lparr>requests := (\<lambda>i. request0\<lparr>r_dev := Some 0x301, r_sector := [50, 80, 20, 60] ! i, r_bh := Some i\<rparr>),
     queue := (\<lambda>_. [])(3 := [0, 1, 2])\<rparr>"

theorem elevator_two_sweeps_witness:
  "\<exists>t. add_request env0 3 3 fs_queue = Inr ((), t) \<and> hd (queue t 3) = 0 \<and>
       mset (queue t 3) = {#0, 1, 2, 3#} \<and> turns (requests t) (queue t 3) \<le> 1"
proof -
  have q: "queue fs_queue 3 = [0, 1, 2]"
    and r: "requests fs_queue i = request0\<lparr>r_dev := Some 0x301, r_sector := [50, 80, 20, 60] ! i, r_bh := Some i\<rparr>" for i
    by (simp_all add: fs_queue_def)
  have o: "IN_ORDER (requests fs_queue i) (requests fs_queue j) \<longleftrightarrow> [50, 80, 20, 60] ! i < ([50, 80, 20, 60] ! j :: nat)" for i j
    by (simp add: IN_ORDER_def r request0_def dev_nr_def)
  have "other_blocks (requests fs_queue) 3 (queue fs_queue 3)"
    unfolding other_blocks_def o q by (simp add: r)
  moreover have "turns (requests fs_queue) (queue fs_queue 3) \<le> 1" by (simp add: q o)
  ultimately have "\<exists>t. add_request env0 3 3 fs_queue = Inr ((), t) \<and> requests t = requests fs_queue \<and>
    mset (queue t 3) = add_mset 3 (mset (queue fs_queue 3)) \<and> hd (queue t 3) = hd (queue fs_queue 3) \<and>
    turns (requests t) (queue t 3) \<le> 1 \<and>
    turns (requests (end_request 3 True t)) (queue (end_request 3 True t) 3) \<le> 1"
    by (intro elevator_two_sweeps) (simp_all add: q)
  then show ?thesis by (auto simp: q add_mset_commute)
qed

subsection \<open>The RAM disk serves its list\<close>

declare One_nat_def [simp del]

text \<open>What a request of the RAM disk must be for the driver not to panic, whether the driver serves it,
  and the bytes it moves.\<close>

definition rd_valid :: "nat \<Rightarrow> nat \<Rightarrow> fsys \<Rightarrow> bool" where
  "rd_valid q b s \<longleftrightarrow> (\<exists>d. r_dev (requests s q) = Some d \<and> MAJOR d = 1) \<and> r_bh (requests s q) = Some b \<and>
     b_lock (bufs s b) \<and> r_cmd (requests s q) \<in> {READ, WRITE}"

definition rd_addr :: "nat \<Rightarrow> fsys \<Rightarrow> nat" where
  "rd_addr q s = (rd_start s + r_sector (requests s q) * 512) mod 2 ^ 32"

definition rd_ok :: "nat \<Rightarrow> fsys \<Rightarrow> bool" where
  "rd_ok q s \<longleftrightarrow> MINOR (the (r_dev (requests s q))) = 1 \<and>
     (rd_addr q s + r_nr_sectors (requests s q) * 512) mod 2 ^ 32 \<le> rd_start s + rd_length s"

lemma end_request_bufs:
  assumes "queue s m = q # qs" "r_bh (requests s q) = Some b"
  shows "bufs (end_request m u s) = (bufs s)(b := (bufs s b)\<lparr>b_uptodate := u, b_lock := False\<rparr>)"
  using assms
  by (auto simp: end_request_def Let_def wake_def unlock_buffer_def fs_say_def device_off_def split: option.split)

lemma end_request_frame [simp]:
  "rd_start (end_request m u s) = rd_start s" "rd_length (end_request m u s) = rd_length s"
  "rd_mem (end_request m u s) = rd_mem s"
  by (simp_all add: end_request_def Let_def wake_def unlock_buffer_def fs_say_def device_off_def split: option.split)

lemma rd_move_frame [simp]:
  "queue (rd_write r a l s) = queue s" "requests (rd_write r a l s) = requests s" "bufs (rd_write r a l s) = bufs s"
  "rd_start (rd_write r a l s) = rd_start s" "rd_length (rd_write r a l s) = rd_length s"
  "queue (rd_read r a l s) = queue s" "requests (rd_read r a l s) = requests s"
  "rd_start (rd_read r a l s) = rd_start s" "rd_length (rd_read r a l s) = rd_length s" "rd_mem (rd_read r a l s) = rd_mem s"
  by (simp_all add: rd_write_def rd_read_def split: option.split)

lemma rd_serve_valid:
  assumes "queue s 1 = q # qs" "rd_valid q b s"
  obtains t where "rd_serve q s = Inr ((), t)" "queue t 1 = qs"
    "requests t = (requests s)(q := (requests s q)\<lparr>r_dev := None\<rparr>)"
    "\<And>c. c \<noteq> b \<Longrightarrow> bufs t c = bufs s c" "\<not> b_lock (bufs t b)" "b_uptodate (bufs t b) = rd_ok q s"
    "rd_start t = rd_start s" "rd_length t = rd_length s"
    "rd_ok q s \<Longrightarrow> r_cmd (requests s q) = READ \<Longrightarrow> rd_mem t = rd_mem s \<and>
       (\<forall>i < r_nr_sectors (requests s q) * 512. b_data (bufs t b) i = rd_mem s (rd_addr q s + i))"
    "rd_ok q s \<Longrightarrow> r_cmd (requests s q) = WRITE \<Longrightarrow>
       (\<forall>i < r_nr_sectors (requests s q) * 512. rd_mem t (rd_addr q s + i) = b_data (bufs s b) i)"
proof -
  from assms(2) obtain d where d: "r_dev (requests s q) = Some d" "MAJOR d = 1" and b: "r_bh (requests s q) = Some b"
    and l: "b_lock (bufs s b)" and c: "r_cmd (requests s q) = READ \<or> r_cmd (requests s q) = WRITE"
    by (auto simp: rd_valid_def)
  have chk: "check_request 1 q s = Inr ((), s)" by (simp add: check_request_def d b l Let_def retK_def)
  have rq: "requests (end_request 1 u t) = (requests s)(q := (requests s q)\<lparr>r_dev := None\<rparr>)"
    if "requests t = requests s" "queue t = queue s" for u t
    using that assms(1) by (simp add: end_request_requests)
  let ?n = "r_nr_sectors (requests s q) * 512"
  consider (Bad) "\<not> rd_ok q s" | (Write) "rd_ok q s" "r_cmd (requests s q) = WRITE"
    | (Read) "rd_ok q s" "r_cmd (requests s q) = READ" using c by blast
  then show thesis
  proof cases
    case Bad
    then have "rd_serve q s = Inr ((), end_request 1 False s)"
      by (simp add: rd_serve_def chk Let_def rd_ok_def rd_addr_def retK_def not_le)
    then show thesis using Bad assms(1) b
      by (intro that[of "end_request 1 False s"]) (simp_all add: end_request_queue rq end_request_bufs[of _ 1 q qs b])
  next
    case Write
    let ?t = "rd_write (requests s q) (rd_addr q s) ?n s"
    have "rd_serve q s = Inr ((), end_request 1 True ?t)"
      using Write by (simp add: rd_serve_def chk Let_def rd_ok_def rd_addr_def retK_def not_le)
    then show thesis using Write assms(1) b
      by (intro that[of "end_request 1 True ?t"]) (simp_all add: end_request_queue rq end_request_bufs[of _ 1 q qs b] rd_write_def)
  next
    case Read
    let ?t = "rd_read (requests s q) (rd_addr q s) ?n s"
    have "rd_serve q s = Inr ((), end_request 1 True ?t)"
      using Read by (simp add: rd_serve_def chk Let_def rd_ok_def rd_addr_def retK_def not_le)
    then show thesis using Read assms(1) b
      by (intro that[of "end_request 1 True ?t"]) (simp_all add: end_request_queue rq end_request_bufs[of _ 1 q qs b] rd_read_def)
  qed
qed

text \<open>C23. The RAM disk's driver is done when it returns, and it does return: given a list of distinct
  requests for distinct locked buffers, \<^verbatim>\<open>do_rd_request\<close> neither panics nor sleeps, its list
  is empty afterwards, every buffer is unlocked, and a buffer is up to date exactly when its request
  was inside the disk (minor number 1, end not beyond the end of the disk).\<close>

theorem rd_request_served:
  assumes "distinct (queue s 1)" and "inj_on buf (set (queue s 1))"
    and "\<forall>q \<in> set (queue s 1). rd_valid q (buf q) s"
  shows "\<exists>t. do_rd_request s = Inr ((), t) \<and> queue t 1 = [] \<and>
    (\<forall>q \<in> set (queue s 1). \<not> b_lock (bufs t (buf q)) \<and> b_uptodate (bufs t (buf q)) = rd_ok q s \<and>
       r_dev (requests t q) = None) \<and>
    (\<forall>c. c \<notin> buf ` set (queue s 1) \<longrightarrow> bufs t c = bufs s c) \<and>
    (\<forall>q. q \<notin> set (queue s 1) \<longrightarrow> requests t q = requests s q)"
  using assms
proof (induction "queue s 1" arbitrary: s)
  case Nil
  then have "do_rd_request s = Inr ((), s)" by (simp add: do_rd_request.simps retK_def)
  with Nil show ?case by simp
next
  case (Cons q qs)
  then have qs: "queue s 1 = q # qs" by simp
  with Cons.prems have v: "rd_valid q (buf q) s" by simp
  from rd_serve_valid[OF qs v] obtain u where u: "rd_serve q s = Inr ((), u)" "queue u 1 = qs"
    and req: "requests u = (requests s)(q := (requests s q)\<lparr>r_dev := None\<rparr>)"
    and other: "\<And>c. c \<noteq> buf q \<Longrightarrow> bufs u c = bufs s c"
    and served: "\<not> b_lock (bufs u (buf q))" "b_uptodate (bufs u (buf q)) = rd_ok q s"
    and rd: "rd_start u = rd_start s" "rd_length u = rd_length s"
    by metis
  have q: "q \<notin> set qs" and bq: "buf q \<notin> buf ` set qs" using Cons.prems(1,2) qs by auto
  have ok: "rd_ok x u = rd_ok x s" if "x \<in> set qs" for x
    using that q by (auto simp: rd_ok_def rd_addr_def req rd)
  have "rd_valid x (buf x) u" if "x \<in> set qs" for x
    using that q bq Cons.prems(3) qs by (auto simp: rd_valid_def req other image_iff)
  with Cons.hyps(1)[of u] u(2) Cons.prems(1,2) qs obtain t where t: "do_rd_request u = Inr ((), t)" "queue t 1 = []"
    and t': "\<forall>x \<in> set qs. \<not> b_lock (bufs t (buf x)) \<and> b_uptodate (bufs t (buf x)) = rd_ok x u \<and> r_dev (requests t x) = None"
    and rest: "\<forall>c. c \<notin> buf ` set qs \<longrightarrow> bufs t c = bufs u c" "\<forall>x. x \<notin> set qs \<longrightarrow> requests t x = requests u x"
    by auto
  have "do_rd_request s = Inr ((), t)" using u(1) t(1) by (subst do_rd_request.simps) (simp add: qs)
  with t(2) t' rest ok served q bq other show ?case by (auto simp: qs req)
qed

definition fs_rd :: fsys where
  "fs_rd = fsys0\<lparr>queue := (\<lambda>_. [])(1 := [0, 1]), rd_length := 4096,
     requests := (\<lambda>i. request0\<lparr>r_dev := Some 0x101, r_cmd := WRITE, r_sector := 7 * i, r_bh := Some i\<rparr>),
     bufs := (\<lambda>_. buf0\<lparr>b_lock := True\<rparr>)\<rparr>"

theorem rd_request_served_witness:
  "\<exists>t. do_rd_request fs_rd = Inr ((), t) \<and> queue t 1 = [] \<and>
       \<not> b_lock (bufs t 0) \<and> b_uptodate (bufs t 0) \<and> \<not> b_lock (bufs t 1) \<and> \<not> b_uptodate (bufs t 1)"
proof -
  have q: "queue fs_rd 1 = [0, 1]" by (simp add: fs_rd_def)
  have d: "MAJOR 0x101 = 1" "MINOR 0x101 = 1" by (simp_all add: MAJOR_def MINOR_def One_nat_def)
  have v: "rd_valid i i fs_rd" for i by (simp add: rd_valid_def fs_rd_def d)
  have ok: "rd_ok 0 fs_rd" "\<not> rd_ok 1 fs_rd"
    by (simp_all add: rd_ok_def rd_addr_def fs_rd_def fsys0_def request0_def d)
  have "\<exists>t. do_rd_request fs_rd = Inr ((), t) \<and> queue t 1 = [] \<and>
    (\<forall>q \<in> set (queue fs_rd 1). \<not> b_lock (bufs t (id q)) \<and> b_uptodate (bufs t (id q)) = rd_ok q fs_rd \<and>
       r_dev (requests t q) = None) \<and>
    (\<forall>c. c \<notin> id ` set (queue fs_rd 1) \<longrightarrow> bufs t c = bufs fs_rd c) \<and>
    (\<forall>q. q \<notin> set (queue fs_rd 1) \<longrightarrow> requests t q = requests fs_rd q)"
    by (rule rd_request_served) (simp_all add: q v)
  with ok show ?thesis by (auto simp: q)
qed

declare One_nat_def [simp]

end
