(* ===== verification/Buffer_Props.thy ===== *)
theory Buffer_Props
  imports Buffer Fs_Samples
begin

section \<open>The buffer cache keeps its queues linked\<close>

text \<open>
  \<^verbatim>\<open>fs/buffer.c\<close> keeps every buffer in a doubly linked ring, the free list, and every
  buffer of a device in the doubly linked hash queue of its device and block. Both are instances
  of \<open>linked\<close>: a list of pointers in which every entry points to its neighbours. The invariant
  \<open>cache\<close> says which buffers the queues hold; with it the walk along a hash queue finds a buffer
  exactly when there is one, and taking a buffer over for another block keeps the invariant.
\<close>

subsection \<open>Lists linked in both directions\<close>

type_synonym links = "nat \<Rightarrow> nat option"

fun linked :: "links \<Rightarrow> links \<Rightarrow> nat option list \<Rightarrow> bool" where
  "linked nx pv (u # v # us) \<longleftrightarrow>
     (\<forall>a. u = Some a \<longrightarrow> nx a = v) \<and> (\<forall>b. v = Some b \<longrightarrow> pv b = u) \<and> linked nx pv (v # us)"
| "linked nx pv _ \<longleftrightarrow> True"

lemma linked_append: "linked nx pv (us @ v # ws) \<longleftrightarrow> linked nx pv (us @ [v]) \<and> linked nx pv (v # ws)"
proof (induction us)
  case (Cons u us)
  then show ?case by (cases us) auto
qed simp

lemma linked_cong:
  "(\<And>a. Some a \<in> set (butlast us) \<Longrightarrow> nx a = nx' a) \<Longrightarrow> (\<And>b. Some b \<in> set (tl us) \<Longrightarrow> pv b = pv' b) \<Longrightarrow>
   linked nx pv us = linked nx' pv' us"
proof (induction nx pv us rule: linked.induct)
  case (1 nx pv u v us)
  have "linked nx pv (v # us) = linked nx' pv' (v # us)"
  proof (rule "1.IH")
    show "nx a = nx' a" if "Some a \<in> set (butlast (v # us))" for a using that "1.prems"(1) by simp
    show "pv b = pv' b" if "Some b \<in> set (tl (v # us))" for b using that "1.prems"(2) by simp
  qed
  moreover have "nx a = nx' a" if "u = Some a" for a using that "1.prems"(1) by simp
  moreover have "pv b = pv' b" if "v = Some b" for b using that "1.prems"(2) by simp
  ultimately show ?case by auto
qed auto

text \<open>Taking an entry out: its neighbours \<open>u\<close> and \<open>w\<close> point to each other.\<close>

definition skip_next :: "nat option \<Rightarrow> nat option \<Rightarrow> links \<Rightarrow> links" where
  "skip_next u w nx = (\<lambda>i. if u = Some i then w else nx i)"

lemma linked_remove:
  assumes "linked nx pv (us @ u # Some b # w # ws)"
    and "u \<noteq> None \<Longrightarrow> u \<notin> set us \<union> set (butlast (w # ws))"
    and "w \<noteq> None \<Longrightarrow> w \<notin> set ws \<union> set (tl (us @ [u]))"
  shows "linked (skip_next u w nx) (skip_next w u pv) (us @ u # w # ws)"
proof -
  from assms(1) have l: "linked nx pv (us @ [u])" "linked nx pv (w # ws)"
    using linked_append[of nx pv us u "Some b # w # ws"] by simp_all
  have "linked (skip_next u w nx) (skip_next w u pv) (us @ [u]) = linked nx pv (us @ [u])"
    using assms(2,3) by (intro linked_cong) (auto simp: skip_next_def)
  moreover have "linked (skip_next u w nx) (skip_next w u pv) (w # ws) = linked nx pv (w # ws)"
    using assms(2,3) by (intro linked_cong) (auto simp: skip_next_def)
  ultimately show ?thesis
    using l linked_append[of "skip_next u w nx" "skip_next w u pv" us u "w # ws"] by (auto simp: skip_next_def)
qed

text \<open>A ring: the last entry points to the first.\<close>

definition ring :: "links \<Rightarrow> links \<Rightarrow> nat list \<Rightarrow> bool" where
  "ring nx pv F \<longleftrightarrow> linked nx pv (map Some (F @ [hd F]))"

lemma ring_rotate: "xs \<noteq> [] \<Longrightarrow> ys \<noteq> [] \<Longrightarrow> ring nx pv (xs @ ys) = ring nx pv (ys @ xs)"
proof -
  have half: "ring nx pv (xs @ ys) \<longleftrightarrow>
      linked nx pv (map Some (xs @ [hd ys])) \<and> linked nx pv (map Some (ys @ [hd xs]))"
    if "xs \<noteq> []" "ys \<noteq> []" for xs ys
    using that linked_append[of nx pv "map Some xs" "Some (hd ys)" "map Some (tl ys @ [hd xs])"]
    by (cases ys) (auto simp: ring_def)
  assume "xs \<noteq> []" "ys \<noteq> []"
  then show ?thesis using half[of xs ys] half[of ys xs] by auto
qed

lemma ring_ends:
  assumes "ring nx pv (F @ [b])" "F \<noteq> []"
  shows "nx b = Some (hd F)" "pv b = Some (last F)"
proof -
  obtain G g where F: "F = G @ [g]" using assms(2) by (metis rev_exhaust)
  have "hd (F @ [b]) = hd F" using assms(2) by simp
  with assms(1) have "linked nx pv (map Some G @ Some g # [Some b, Some (hd F)])"
    unfolding ring_def by (simp add: F)
  then have "linked nx pv [Some g, Some b, Some (hd F)]" using linked_append by blast
  then show "nx b = Some (hd F)" "pv b = Some (last F)" by (simp_all add: F)
qed

lemma ring_remove_last:
  assumes "ring nx pv (F @ [b])" "F \<noteq> []" "distinct (F @ [b])"
  shows "ring (skip_next (pv b) (nx b) nx) (skip_next (nx b) (pv b) pv) F"
proof -
  obtain G g where F: "F = G @ [g]" using assms(2) by (metis rev_exhaust)
  have hd: "hd (F @ [b]) = hd F" using assms(2) by simp
  have "linked (skip_next (Some g) (Some (hd F)) nx) (skip_next (Some (hd F)) (Some g) pv)
      (map Some G @ Some g # Some (hd F) # [])"
  proof (rule linked_remove)
    show "linked nx pv (map Some G @ Some g # Some b # Some (hd F) # [])"
      using assms(1) unfolding ring_def hd by (simp add: F)
    show "Some g \<notin> set (map Some G) \<union> set (butlast [Some (hd F)])" using assms(3) by (auto simp: F)
    show "Some (hd F) \<notin> set [] \<union> set (tl (map Some G @ [Some g]))"
      using assms(3) by (cases G) (auto simp: F)
  qed
  then show ?thesis using ring_ends[OF assms(1,2)] by (simp add: ring_def F)
qed

lemma ring_remove:
  assumes "ring nx pv (xs @ b # ys)" "xs @ ys \<noteq> []" "distinct (xs @ b # ys)"
  shows "ring (skip_next (pv b) (nx b) nx) (skip_next (nx b) (pv b) pv) (xs @ ys)"
    "nx b = Some (hd (ys @ xs))" "pv b = Some (last (ys @ xs))"
proof -
  have r: "ring nx pv ((ys @ xs) @ [b])"
  proof (cases "ys = []")
    case False
    then show ?thesis using ring_rotate[of "xs @ [b]" ys] assms(1) by simp
  qed (use assms(1) in simp)
  have "ring (skip_next (pv b) (nx b) nx) (skip_next (nx b) (pv b) pv) (ys @ xs)"
    using r assms(2,3) by (intro ring_remove_last) auto
  then show "ring (skip_next (pv b) (nx b) nx) (skip_next (nx b) (pv b) pv) (xs @ ys)"
    by (cases "xs = [] \<or> ys = []") (auto simp: ring_rotate[of xs ys])
  show "nx b = Some (hd (ys @ xs))" "pv b = Some (last (ys @ xs))"
    using ring_ends[OF r] assms(2) by auto
qed

lemma ring_insert:
  assumes "ring nx pv F" "F \<noteq> []" "distinct (F @ [b])"
  shows "ring ((nx(b := Some (hd F)))(last F := Some b)) ((pv(b := Some (last F)))(hd F := Some b)) (F @ [b])"
    "pv (hd F) = Some (last F)"
proof -
  let ?nx = "(nx(b := Some (hd F)))(last F := Some b)" and ?pv = "(pv(b := Some (last F)))(hd F := Some b)"
  obtain G g where F: "F = G @ [g]" using assms(2) by (metis rev_exhaust)
  have r: "linked nx pv (map Some G @ Some g # [Some (hd F)])"
    using assms(1) by (simp add: ring_def F)
  then have l: "linked nx pv (map Some G @ [Some g])" and e: "linked nx pv [Some g, Some (hd F)]"
    using linked_append by blast+
  from e show "pv (hd F) = Some (last F)" by (simp add: F)
  have bf: "b \<noteq> hd F" "b \<noteq> g" using assms(2,3) hd_in_set[of F] by (auto simp: F)
  have "linked ?nx ?pv (map Some G @ [Some g]) = linked nx pv (map Some G @ [Some g])"
    using assms(3) by (intro linked_cong; cases G) (auto simp: F)
  then have "linked ?nx ?pv (map Some G @ Some g # [Some b, Some (hd F)])"
    using l bf assms(3) linked_append[of ?nx ?pv "map Some G" "Some g" "[Some b, Some (hd F)]"]
    by (auto simp: F)
  moreover have "hd (F @ [b]) = hd F" using assms(2) by simp
  ultimately show "ring ?nx ?pv (F @ [b])" unfolding ring_def by (simp add: F)
qed

text \<open>A queue: it starts and ends with a null pointer.\<close>

definition first :: "nat list \<Rightarrow> nat option" where
  "first bs = (if bs = [] then None else Some (hd bs))"

lemma first_simps [simp]: "first [] = None" "first (b # bs) = Some b"
  by (simp_all add: first_def)

definition chain :: "links \<Rightarrow> links \<Rightarrow> nat list \<Rightarrow> bool" where
  "chain nx pv bs \<longleftrightarrow> linked nx pv (None # map Some bs @ [None])"

lemma chain_cong:
  "(\<And>a. a \<in> set bs \<Longrightarrow> nx a = nx' a) \<Longrightarrow> (\<And>b. b \<in> set bs \<Longrightarrow> pv b = pv' b) \<Longrightarrow> chain nx pv bs = chain nx' pv' bs"
  unfolding chain_def by (intro linked_cong) (auto simp: butlast_append split: if_splits)

lemma chain_parts:
  assumes "chain nx pv (xs @ b # ys)"
  shows "nx b = first ys" "pv b = first (rev xs)"
proof -
  from assms have l: "linked nx pv ((None # map Some xs) @ Some b # (map Some ys @ [None]))"
    by (simp add: chain_def)
  then have "linked nx pv (Some b # map Some ys @ [None])" using linked_append by blast
  then show "nx b = first ys" by (cases ys) auto
  from l have l: "linked nx pv ((None # map Some xs) @ [Some b])" using linked_append by blast
  show "pv b = first (rev xs)"
  proof (cases xs rule: rev_cases)
    case (snoc zs z)
    with l linked_append[of nx pv "None # map Some zs" "Some z" "[Some b]"] show ?thesis by simp
  qed (use l in simp)
qed

lemma chain_remove:
  assumes "chain nx pv (xs @ b # ys)" "distinct (xs @ b # ys)"
  shows "chain (skip_next (pv b) (nx b) nx) (skip_next (nx b) (pv b) pv) (xs @ ys)"
proof -
  define us u w ws where "us = butlast (None # map Some xs)" and "u = first (rev xs)"
    and "w = first ys" and "ws = tl (map Some ys @ [None])"
  have us: "None # map Some xs = us @ [u]"
    by (cases xs rule: rev_cases) (simp_all add: us_def u_def butlast_append)
  have ws: "map Some ys @ [None] = w # ws" by (cases ys) (simp_all add: w_def ws_def)
  have "linked (skip_next u w nx) (skip_next w u pv) (us @ u # w # ws)"
  proof (rule linked_remove)
    have "linked nx pv ((None # map Some xs) @ Some b # (map Some ys @ [None]))"
      using assms(1) by (simp add: chain_def)
    then show "linked nx pv (us @ u # Some b # w # ws)" unfolding us ws by simp
    show "u \<noteq> None \<Longrightarrow> u \<notin> set us \<union> set (butlast (w # ws))"
      using assms(2) unfolding ws[symmetric] us_def u_def
      by (cases xs rule: rev_cases) (auto simp: butlast_append split: if_splits)
    show "w \<noteq> None \<Longrightarrow> w \<notin> set ws \<union> set (tl (us @ [u]))"
      using assms(2) unfolding us[symmetric] w_def ws_def by (cases ys) auto
  qed
  moreover have "us @ u # w # ws = None # map Some (xs @ ys) @ [None]"
    using us ws by (simp flip: append_assoc) (metis append.assoc append_Cons append_Nil)
  ultimately show ?thesis
    using chain_parts[OF assms(1)] by (simp add: chain_def u_def w_def)
qed

lemma chain_insert:
  assumes "chain nx pv bs" "distinct (b # bs)"
  shows "chain (nx(b := first bs)) (\<lambda>i. if first bs = Some i then Some b else if i = b then None else pv i) (b # bs)"
proof (cases bs)
  case (Cons c cs)
  let ?pv = "\<lambda>i. if first bs = Some i then Some b else if i = b then None else pv i"
  from assms(1) have "linked nx pv (Some c # map Some cs @ [None])" by (simp add: chain_def Cons)
  moreover have "linked (nx(b := first bs)) ?pv (Some c # map Some cs @ [None]) = linked nx pv (Some c # map Some cs @ [None])"
    using assms(2) Cons by (intro linked_cong) (auto simp: butlast_append split: if_splits)
  ultimately show ?thesis using assms(2) Cons by (simp add: chain_def)
qed (simp add: chain_def)

subsection \<open>The invariant\<close>

abbreviation next_of :: "fsys \<Rightarrow> links" where "next_of s \<equiv> \<lambda>i. b_next (bufs s i)"
abbreviation prev_of :: "fsys \<Rightarrow> links" where "prev_of s \<equiv> \<lambda>i. b_prev (bufs s i)"
abbreviation next_free_of :: "fsys \<Rightarrow> links" where "next_free_of s \<equiv> \<lambda>i. b_next_free (bufs s i)"
abbreviation prev_free_of :: "fsys \<Rightarrow> links" where "prev_free_of s \<equiv> \<lambda>i. b_prev_free (bufs s i)"

definition key :: "fsys \<Rightarrow> nat \<Rightarrow> dev \<times> nat" where
  "key s b = (b_dev (bufs s b), b_blocknr (bufs s b))"

definition hashed :: "nat \<Rightarrow> (nat \<Rightarrow> dev \<times> nat) \<Rightarrow> nat \<Rightarrow> nat set" where
  "hashed n K k = {b. b < n \<and> fst (K b) \<noteq> 0 \<and> hashfn (fst (K b)) (snd (K b)) = k}"

definition hash_queue :: "fsys \<Rightarrow> nat \<Rightarrow> nat list \<Rightarrow> bool" where
  "hash_queue s k bs \<longleftrightarrow> chain (next_of s) (prev_of s) bs \<and> hash_table s k = first bs \<and> distinct bs \<and>
     set bs = hashed (nr_buffers s) (key s) k"

definition free_ring :: "fsys \<Rightarrow> nat list \<Rightarrow> bool" where
  "free_ring s F \<longleftrightarrow> ring (next_free_of s) (prev_free_of s) F \<and> distinct F \<and> set F = {..<nr_buffers s} \<and>
     2 \<le> nr_buffers s \<and> free_list s = hd F"

text \<open>The blocks of buffers are different, and buffers of no device are in no hash queue.\<close>

definition keys_ok :: "fsys \<Rightarrow> bool" where
  "keys_ok s \<longleftrightarrow>
     (\<forall>b c. b < nr_buffers s \<longrightarrow> c < nr_buffers s \<longrightarrow> fst (key s b) \<noteq> 0 \<longrightarrow> key s b = key s c \<longrightarrow> b = c) \<and>
     (\<forall>b < nr_buffers s. fst (key s b) = 0 \<longrightarrow> next_of s b = None \<and> prev_of s b = None)"

definition cache :: "fsys \<Rightarrow> nat list \<Rightarrow> bool" where
  "cache s F \<longleftrightarrow> free_ring s F \<and> (\<forall>k < NR_HASH. \<exists>bs. hash_queue s k bs) \<and> keys_ok s"

lemma cacheD:
  assumes "cache s F"
  shows "free_ring s F" "k < NR_HASH \<Longrightarrow> \<exists>bs. hash_queue s k bs" "keys_ok s"
  using assms by (simp_all add: cache_def)

lemma hashfn_less [simp]: "hashfn d k < NR_HASH"
  by (simp add: hashfn_def)

subsection \<open>Finding a buffer\<close>

lemma find_chain_find:
  "linked nx (prev_of s) (u # map Some bs @ [None]) \<Longrightarrow> nx = next_of s \<Longrightarrow> length bs \<le> n \<Longrightarrow>
   find_chain n (first bs) d block s = List.find (\<lambda>b. key s b = (d, block)) bs"
proof (induction bs arbitrary: n u)
  case Nil
  then show ?case by (cases n) auto
next
  case (Cons b bs)
  then obtain m where n: "n = Suc m" "length bs \<le> m" by (cases n) auto
  from Cons.prems(1,2) have "next_of s b = first bs" by (cases bs) auto
  moreover from Cons.prems(1) have "linked nx (prev_of s) (Some b # map Some bs @ [None])" by simp
  note Cons.IH[OF this Cons.prems(2) n(2)]
  ultimately show ?case by (simp add: n key_def)
qed

text \<open>The reference: the buffer of a block.\<close>

lemma find_buffer_iff:
  assumes c: "cache s F" and d: "d \<noteq> 0"
  shows "find_buffer d block s = Some b \<longleftrightarrow> b < nr_buffers s \<and> key s b = (d, block)"
proof -
  obtain bs where bs: "hash_queue s (hashfn d block) bs" using cacheD(2)[OF c] hashfn_less by blast
  then have set: "set bs = hashed (nr_buffers s) (key s) (hashfn d block)" and "distinct bs" by (simp_all add: hash_queue_def)
  have "card (set bs) \<le> card {..<nr_buffers s}" unfolding set by (rule card_mono) (auto simp: hashed_def)
  with \<open>distinct bs\<close> have "length bs \<le> nr_buffers s" by (simp add: distinct_card)
  with bs have eq: "find_buffer d block s = List.find (\<lambda>b. key s b = (d, block)) bs"
    by (auto simp: find_buffer_def hash_def hash_queue_def chain_def intro: find_chain_find)
  have mem: "c \<in> set bs \<longleftrightarrow> c < nr_buffers s" if "key s c = (d, block)" for c
    using that d by (auto simp: set hashed_def)
  have same: "c = b" if "b < nr_buffers s" "c < nr_buffers s" "key s b = (d, block)" "key s c = (d, block)" for c
    using that d cacheD(3)[OF c] unfolding keys_ok_def by (metis fst_conv)
  show ?thesis
  proof
    assume "find_buffer d block s = Some b"
    then have "b \<in> set bs" "key s b = (d, block)" unfolding eq find_Some_iff by auto
    with mem show "b < nr_buffers s \<and> key s b = (d, block)" by blast
  next
    assume b: "b < nr_buffers s \<and> key s b = (d, block)"
    show "find_buffer d block s = Some b"
    proof (cases "find_buffer d block s")
      case None
      with b mem show ?thesis unfolding eq find_None_iff by blast
    next
      case (Some c)
      then have "c \<in> set bs" "key s c = (d, block)" unfolding eq find_Some_iff by auto
      with b mem same Some show ?thesis by blast
    qed
  qed
qed

subsection \<open>What the two queue operations do to the pointers\<close>

lemma via_simps [simp]:
  "bufs (via p f s) i = (if p = Some i then f (bufs s i) else bufs s i)"
  "hash_table (via p f s) = hash_table s" "free_list (via p f s) = free_list s"
  "nr_buffers (via p f s) = nr_buffers s"
  by (auto simp: via_def split: option.split)

lemma remove_from_queues_links:
  assumes pn: "b_prev_free (bufs s b) = Some p" "b_next_free (bufs s b) = Some n"
    and ne: "p \<noteq> b" "n \<noteq> b" "b_next (bufs s b) \<noteq> Some b" "b_prev (bufs s b) \<noteq> Some b"
  obtains t where "remove_from_queues b s = Inr ((), t)"
    "next_of t = skip_next (prev_of s b) (next_of s b) (next_of s)"
    "prev_of t = skip_next (next_of s b) (prev_of s b) (prev_of s)"
    "next_free_of t = skip_next (prev_free_of s b) (next_free_of s b) (next_free_of s)"
    "prev_free_of t = skip_next (next_free_of s b) (prev_free_of s b) (prev_free_of s)"
    "hash_table t = (let k = hashfn (b_dev (bufs s b)) (b_blocknr (bufs s b)) in
       if hash_table s k = Some b then (hash_table s)(k := next_of s b) else hash_table s)"
    "free_list t = (if free_list s = b then n else free_list s)" "nr_buffers t = nr_buffers s" "key t = key s"
proof -
  define k where "k = hashfn (b_dev (bufs s b)) (b_blocknr (bufs s b))"
  define s2 where "s2 = via (prev_of s b) (\<lambda>x. x\<lparr>b_next := next_of s b\<rparr>)
    (via (next_of s b) (\<lambda>x. x\<lparr>b_prev := prev_of s b\<rparr>) s)"
  define s3 where "s3 = (if hash_table s2 k = Some b then s2\<lparr>hash_table := (hash_table s2)(k := next_of s b)\<rparr> else s2)"
  define s4 where "s4 = via (Some p) (\<lambda>x. x\<lparr>b_next_free := Some n\<rparr>) s3"
  define s5 where "s5 = via (Some n) (\<lambda>x. x\<lparr>b_prev_free := Some p\<rparr>) s4"
  define t where "t = (if free_list s5 = b then s5\<lparr>free_list := n\<rparr> else s5)"
  have B2: "bufs s2 i = (bufs s i)\<lparr>b_next := skip_next (prev_of s b) (next_of s b) (next_of s) i,
     b_prev := skip_next (next_of s b) (prev_of s b) (prev_of s) i\<rparr>" for i
    by (auto simp: s2_def skip_next_def)
  have "bufs s3 = bufs s2" by (simp add: s3_def)
  then have B5: "bufs s5 i = (bufs s2 i)\<lparr>b_next_free := skip_next (Some p) (Some n) (next_free_of s) i,
     b_prev_free := skip_next (Some n) (Some p) (prev_free_of s) i\<rparr>" for i
    by (auto simp: s5_def s4_def skip_next_def B2)
  have free: "b_prev_free (bufs s3 b) = Some p" "b_next_free (bufs s3 b) = Some n" "b_next_free (bufs s4 b) = Some n"
      "b_prev_free (bufs s4 b) = Some p" "b_next_free (bufs s5 b) = Some n"
    using pn ne \<open>bufs s3 = bufs s2\<close> by (auto simp: B2 s4_def s5_def)
  have hb: "b_prev (bufs (via (next_of s b) (\<lambda>x. x\<lparr>b_prev := prev_of s b\<rparr>) s) b) = prev_of s b" using ne by simp
  have "remove_from_queues b s = Inr ((), t)"
    unfolding remove_from_queues_def Let_def k_def[symmetric] s2_def[symmetric] s3_def[symmetric]
    by (simp add: free s4_def[symmetric] s5_def[symmetric] t_def retK_def)
  moreover have "bufs t = bufs s5" by (simp add: t_def)
  moreover have "hash_table s5 = (if hash_table s k = Some b then (hash_table s)(k := next_of s b) else hash_table s)"
    "free_list s5 = free_list s" "nr_buffers s5 = nr_buffers s"
    by (simp_all add: s5_def s4_def s3_def s2_def)
  ultimately show thesis
    using pn by (intro that[of t]) (auto simp: t_def B5 B2 key_def fun_eq_iff k_def[symmetric] Let_def)
qed

lemma insert_into_queues_links:
  assumes "free_list s = f" "b_prev_free (bufs s f) = Some l" "f \<noteq> b" "l \<noteq> b" "b_dev (bufs s b) \<noteq> 0"
    and old: "old = hash_table s (hashfn (b_dev (bufs s b)) (b_blocknr (bufs s b)))" "old \<noteq> Some b"
  defines "t \<equiv> insert_into_queues b s"
  shows "next_of t = (next_of s)(b := old)"
    "prev_of t = (\<lambda>i. if old = Some i then Some b else if i = b then None else prev_of s i)"
    "next_free_of t = ((next_free_of s)(b := Some f))(l := Some b)"
    "prev_free_of t = ((prev_free_of s)(b := Some l))(f := Some b)"
    "hash_table t = (hash_table s)(hashfn (b_dev (bufs s b)) (b_blocknr (bufs s b)) := Some b)"
    "free_list t = free_list s" "nr_buffers t = nr_buffers s" "key t = key s"
  using assms
  by (auto simp: t_def insert_into_queues_def Let_def key_def fun_eq_iff split: option.splits)

subsection \<open>Taking a buffer over\<close>

lemma keys_of_cache:
  assumes "cache s F" "b < nr_buffers s" "fst (key s b) \<noteq> 0" "k = hashfn (fst (key s b)) (snd (key s b))"
  obtains xs ys where "hash_queue s k (xs @ b # ys)"
proof -
  obtain bs where bs: "hash_queue s k bs" using cacheD(2)[OF assms(1)] assms(4) hashfn_less by blast
  with assms have "b \<in> set bs" by (simp add: hash_queue_def hashed_def)
  then show thesis using bs that by (metis split_list)
qed

text \<open>The hash queues after a buffer left them, and got another key.\<close>

definition queues_without :: "nat \<Rightarrow> fsys \<Rightarrow> bool" where
  "queues_without b s \<longleftrightarrow> (\<forall>k < NR_HASH. \<exists>bs. chain (next_of s) (prev_of s) bs \<and> hash_table s k = first bs \<and>
     distinct bs \<and> set bs = hashed (nr_buffers s) (key s) k - {b})"

lemma queues_after_remove:
  assumes c: "cache s F" and b: "b < nr_buffers s"
    and t: "next_of t = skip_next (prev_of s b) (next_of s b) (next_of s)"
      "prev_of t = skip_next (next_of s b) (prev_of s b) (prev_of s)"
      "hash_table t = (let k = hashfn (b_dev (bufs s b)) (b_blocknr (bufs s b)) in
         if hash_table s k = Some b then (hash_table s)(k := next_of s b) else hash_table s)"
      "nr_buffers t = nr_buffers s" "key t = key s"
  shows "queues_without b t"
  unfolding queues_without_def
proof (intro allI impI)
  fix k assume k: "k < NR_HASH"
  then obtain bs where bs: "hash_queue s k bs" using cacheD(2)[OF c] by blast
  let ?kb = "hashfn (b_dev (bufs s b)) (b_blocknr (bufs s b))"
  let ?new = "\<lambda>bs. chain (next_of t) (prev_of t) bs \<and> hash_table t k = first bs \<and>
     distinct bs \<and> set bs = hashed (nr_buffers t) (key t) k - {b}"
  show "\<exists>bs. ?new bs"
  proof (cases "b_dev (bufs s b) = 0")
    case True
    then have "next_of s b = None" "prev_of s b = None"
      using cacheD(3)[OF c] b by (auto simp: keys_ok_def key_def)
    then have "next_of t = next_of s" "prev_of t = prev_of s" by (simp_all add: t skip_next_def)
    moreover have nb: "b \<notin> hashed (nr_buffers s) (key s) j" for j using True by (simp add: hashed_def key_def)
    moreover have "hash_table t k = hash_table s k"
    proof -
      obtain bs' where "hash_queue s ?kb bs'" using cacheD(2)[OF c] hashfn_less by blast
      then have "hash_table s ?kb \<noteq> Some b"
        using nb hd_in_set by (auto simp: hash_queue_def first_def split: if_splits)
      then show ?thesis by (simp add: t Let_def)
    qed
    ultimately have "?new bs" using bs by (simp add: hash_queue_def t)
    then show ?thesis ..
  next
    case False
    then obtain xs ys where q: "hash_queue s ?kb (xs @ b # ys)"
      using keys_of_cache[OF c b, of ?kb] by (auto simp: key_def)
    then have ch: "chain (next_of s) (prev_of s) (xs @ b # ys)" and di: "distinct (xs @ b # ys)"
      by (simp_all add: hash_queue_def)
    note parts = chain_parts[OF ch]
    show ?thesis
    proof (cases "k = ?kb")
      case True
      have "chain (next_of t) (prev_of t) (xs @ ys)" using chain_remove[OF ch di] by (simp add: t)
      moreover have "hash_table t k = first (xs @ ys)"
        using q di parts True by (cases xs) (auto simp: t Let_def hash_queue_def)
      moreover have "set (xs @ ys) = hashed (nr_buffers t) (key t) k - {b}"
        using q di True by (auto simp: hash_queue_def t)
      ultimately have "?new (xs @ ys)" using di by simp
      then show ?thesis ..
    next
      case False
      have disj: "set bs \<inter> set (xs @ b # ys) = {}"
        using bs q False by (auto simp: hash_queue_def hashed_def)
      have ends: "prev_of s b \<noteq> Some a" "next_of s b \<noteq> Some a" if "a \<in> set bs" for a
      proof -
        have "first (rev xs) = Some a \<Longrightarrow> a \<in> set xs" "first ys = Some a \<Longrightarrow> a \<in> set ys"
          by (auto simp: first_def hd_rev split: if_splits)
        with that disj parts show "prev_of s b \<noteq> Some a" "next_of s b \<noteq> Some a" by auto
      qed
      have "chain (next_of t) (prev_of t) bs = chain (next_of s) (prev_of s) bs"
        using ends by (intro chain_cong) (simp_all add: fun_cong[OF t(1)] fun_cong[OF t(2)] skip_next_def)
      moreover have "b \<notin> set bs" using disj by auto
      ultimately have "?new bs" using bs False by (auto simp: hash_queue_def t Let_def)
      then show ?thesis ..
    qed
  qed
qed

lemma neighbours:
  assumes c: "cache s F" and b: "b < nr_buffers s" and a: "prev_of s b = Some a \<or> next_of s b = Some a"
  shows "a \<noteq> b \<and> fst (key s a) \<noteq> 0"
proof -
  have "fst (key s b) \<noteq> 0" using a b cacheD(3)[OF c] by (auto simp: keys_ok_def)
  then obtain xs ys where q: "hash_queue s (hashfn (fst (key s b)) (snd (key s b))) (xs @ b # ys)"
    using keys_of_cache[OF c b _ refl] by blast
  then have ch: "chain (next_of s) (prev_of s) (xs @ b # ys)" by (simp add: hash_queue_def)
  have "a \<in> set xs \<union> set ys"
    using a chain_parts[OF ch] by (auto simp: first_def hd_rev split: if_splits)
  with q show ?thesis by (auto simp: hash_queue_def hashed_def)
qed

lemma queues_after_insert:
  assumes q: "queues_without b s" and d: "d \<noteq> 0" and k': "k' = hashfn d block"
    and old: "old = hash_table s k'"
    and t: "next_of t = (next_of s)(b := old)"
      "prev_of t = (\<lambda>i. if old = Some i then Some b else if i = b then None else prev_of s i)"
      "hash_table t = (hash_table s)(k' := Some b)" "nr_buffers t = nr_buffers s" "b < nr_buffers s"
      "key t = (key s)(b := (d, block))"
  shows "\<forall>k < NR_HASH. \<exists>bs. hash_queue t k bs"
proof (intro allI impI)
  fix k assume "k < NR_HASH"
  then obtain bs where bs: "chain (next_of s) (prev_of s) bs" "hash_table s k = first bs" "distinct bs"
      "set bs = hashed (nr_buffers s) (key s) k - {b}"
    using q unfolding queues_without_def by blast
  have kb: "key t b = (d, block)" "\<And>c. c \<noteq> b \<Longrightarrow> key t c = key s c" by (simp_all add: t(6))
  have mem: "c \<in> hashed (nr_buffers t) (key t) k \<longleftrightarrow> (if c = b then k = k' else c \<in> set bs)" for c
    using d t(5) by (cases "c = b") (auto simp: bs(4) hashed_def kb k' t(4))
  have h: "hashed (nr_buffers t) (key t) k = (if k = k' then insert b (set bs) else set bs)"
    unfolding set_eq_iff mem using bs(4) by auto
  have nb: "b \<notin> set bs" using bs(4) by simp
  show "\<exists>bs. hash_queue t k bs"
  proof (cases "k = k'")
    case True
    with old bs(2) have "chain (next_of t) (prev_of t) (b # bs)"
      using chain_insert[OF bs(1), of b] bs(3) nb unfolding t(1,2) by simp
    moreover have "hash_table t k = first (b # bs)" using True by (simp add: t(3))
    moreover have "distinct (b # bs)" "set (b # bs) = hashed (nr_buffers t) (key t) k"
      using bs(3) nb True h by simp_all
    ultimately have "hash_queue t k (b # bs)" unfolding hash_queue_def by blast
    then show ?thesis ..
  next
    case False
    have "old \<noteq> Some a" if "a \<in> set bs" for a
    proof
      assume "old = Some a"
      have "k' < NR_HASH" unfolding k' by (rule hashfn_less)
      from q[unfolded queues_without_def, rule_format, OF this]
      obtain cs where cs: "hash_table s k' = first cs" "set cs = hashed (nr_buffers s) (key s) k' - {b}"
        by (elim exE conjE)
      with \<open>old = Some a\<close> have "first cs = Some a" using old by simp
      then have "a \<in> set cs" by (auto simp: first_def split: if_splits)
      then have "hashfn (fst (key s a)) (snd (key s a)) = k'" unfolding cs(2) hashed_def by simp
      moreover have "hashfn (fst (key s a)) (snd (key s a)) = k" using that unfolding bs(4) hashed_def by simp
      ultimately show False using False by simp
    qed
    then have "chain (next_of t) (prev_of t) bs = chain (next_of s) (prev_of s) bs"
      using nb by (intro chain_cong) (auto simp: fun_cong[OF t(1)] fun_cong[OF t(2)])
    then have "chain (next_of t) (prev_of t) bs" using bs(1) by blast
    moreover have "hash_table t k = first bs" using False bs(2) by (simp add: t(3))
    moreover have "set bs = hashed (nr_buffers t) (key t) k" using False h by simp
    ultimately have "hash_queue t k bs" using bs(3) unfolding hash_queue_def by blast
    then show ?thesis ..
  qed
qed

lemma cache_cong:
  assumes "next_of t = next_of s" "prev_of t = prev_of s" "next_free_of t = next_free_of s"
    "prev_free_of t = prev_free_of s" "key t = key s" "hash_table t = hash_table s"
    "free_list t = free_list s" "nr_buffers t = nr_buffers s"
  shows "cache t F = cache s F"
  by (simp add: cache_def free_ring_def hash_queue_def keys_ok_def assms fun_cong[OF assms(1)] fun_cong[OF assms(2)])

lemma option_eqI: "(\<And>a. x = Some a \<longleftrightarrow> y = Some a) \<Longrightarrow> x = y"
  by (cases x; cases y) auto

lemma first_not_in: "first cs = Some b \<Longrightarrow> b \<in> set cs"
  by (auto simp: first_def split: if_splits)

lemma keys_after_take:
  assumes c: "cache s F" and b: "b < nr_buffers s" and d: "d \<noteq> 0" and new: "find_buffer d block s = None"
    and old: "\<And>a. old = Some a \<Longrightarrow> fst (key s a) \<noteq> 0"
    and t: "next_of t = (skip_next (prev_of s b) (next_of s b) (next_of s))(b := old)"
      "prev_of t = (\<lambda>i. if old = Some i then Some b else if i = b then None
         else skip_next (next_of s b) (prev_of s b) (prev_of s) i)"
      "key t = (key s)(b := (d, block))" "nr_buffers t = nr_buffers s"
  shows "keys_ok t"
proof -
  have fresh: "key s x \<noteq> (d, block)" if "x < nr_buffers s" for x
    using find_buffer_iff[OF c d, of block x] new that by simp
  have "x = y" if "x < nr_buffers s" "y < nr_buffers s" "fst (key t x) \<noteq> 0" "key t x = key t y" for x y
    using that fresh[of x] fresh[of y] cacheD(3)[OF c] unfolding keys_ok_def t(3)
    by (metis fun_upd_apply)
  moreover have "next_of t x = None \<and> prev_of t x = None" if "x < nr_buffers s" "fst (key t x) = 0" for x
  proof -
    have x: "x \<noteq> b" "fst (key s x) = 0" using that d by (auto simp: t(3) split: if_splits)
    with cacheD(3)[OF c] that(1) have "next_of s x = None" "prev_of s x = None" by (auto simp: keys_ok_def)
    with x neighbours[OF c b, of x] old[of x] show ?thesis
      unfolding fun_cong[OF t(1)] fun_cong[OF t(2)] by (auto simp: skip_next_def)
  qed
  ultimately show ?thesis unfolding keys_ok_def t(4) by blast
qed

lemma find_after_take:
  assumes c: "cache s F" and ct: "cache t G" and b: "b < nr_buffers s" and d: "d' \<noteq> 0"
    and t: "key t = (key s)(b := (d, block))" "nr_buffers t = nr_buffers s" and new: "(d', k) \<noteq> (d, block)"
  shows "find_buffer d' k t = (if (d', k) = key s b then None else find_buffer d' k s)"
proof -
  have "find_buffer d' k t = Some a \<longleftrightarrow> (if (d', k) = key s b then None else find_buffer d' k s) = Some a" for a
  proof (cases "a = b")
    case True
    have "find_buffer d' k t \<noteq> Some b" using new unfolding find_buffer_iff[OF ct d] t by auto
    moreover have "find_buffer d' k s = Some b \<longleftrightarrow> (d', k) = key s b"
      unfolding find_buffer_iff[OF c d] using b by auto
    ultimately show ?thesis using True by auto
  next
    case False
    have "find_buffer d' k t = Some a \<longleftrightarrow> find_buffer d' k s = Some a"
      unfolding find_buffer_iff[OF c d] find_buffer_iff[OF ct d] using False by (simp add: t)
    moreover have "find_buffer d' k s \<noteq> Some a" if "(d', k) = key s b"
    proof -
      from that b have "find_buffer d' k s = Some b" unfolding find_buffer_iff[OF c d] by simp
      with False show ?thesis by simp
    qed
    ultimately show ?thesis by auto
  qed
  then show ?thesis by (rule option_eqI)
qed

text \<open>C1. Taking a buffer over. In a consistent cache, with the buffers of the free list in the order
  \<open>F\<close>, no buffer for block \<open>block\<close> of device \<open>d\<close>, and any buffer \<open>b\<close>: the end of
  \<^verbatim>\<open>getblk\<close> does not panic, the cache is consistent again, \<open>b\<close> is the last of the free list
  and the others are in the same order, and a search finds \<open>b\<close> for the new block, nothing for the
  block \<open>b\<close> held, and what it found before for all others.\<close>

theorem take_buffer_keeps_cache:
  assumes c: "cache s F" and b: "b < nr_buffers s" and d: "d \<noteq> 0" and new: "find_buffer d block s = None"
  shows "\<exists>t. take_buffer d block b s = Inr (b, t) \<and> cache t (remove1 b F @ [b]) \<and>
    find_buffer d block t = Some b \<and>
    (\<forall>d' k. d' \<noteq> 0 \<longrightarrow> (d', k) \<noteq> (d, block) \<longrightarrow>
       find_buffer d' k t = (if (d', k) = key s b then None else find_buffer d' k s))"
proof -
  define s0 where "s0 = upd_buf b (\<lambda>h. h\<lparr>b_count := 1, b_dirt := False, b_uptodate := False\<rparr>) s"
  have same: "next_of s0 = next_of s" "prev_of s0 = prev_of s" "next_free_of s0 = next_free_of s"
      "prev_free_of s0 = prev_free_of s" "key s0 = key s" "hash_table s0 = hash_table s"
      "free_list s0 = free_list s" "nr_buffers s0 = nr_buffers s"
    by (auto simp: s0_def key_def fun_eq_iff)
  have c0: "cache s0 F" using cache_cong[OF same] c by simp
  have b0: "b < nr_buffers s0" using b same by simp
  have "find_buffer d block s0 = find_buffer d block s"
    by (rule option_eqI) (simp add: find_buffer_iff[OF c d] find_buffer_iff[OF c0 d] same)
  with new have new0: "find_buffer d block s0 = None" by simp
  from cacheD(1)[OF c0] have F: "ring (next_free_of s0) (prev_free_of s0) F" "distinct F"
      "set F = {..<nr_buffers s0}" "2 \<le> nr_buffers s0" "free_list s0 = hd F"
    by (simp_all add: free_ring_def)
  with b0 obtain xs ys where xs: "F = xs @ b # ys" by (metis lessThan_iff split_list)
  have "card (set F) = nr_buffers s0" using F(3) by simp
  then have ne: "xs @ ys \<noteq> []" using F(4) xs by auto
  then have ne': "ys @ xs \<noteq> []" by auto
  have di: "distinct (xs @ b # ys)" using F(2) xs by simp
  note rr = ring_remove[OF F(1)[unfolded xs] ne di]
  have pn: "b_prev_free (bufs s0 b) = Some (last (ys @ xs))" "b_next_free (bufs s0 b) = Some (hd (ys @ xs))"
    using rr by simp_all
  have nb: "last (ys @ xs) \<noteq> b" "hd (ys @ xs) \<noteq> b"
    using di last_in_set[OF ne'] hd_in_set[OF ne'] by auto
  obtain u where u: "remove_from_queues b s0 = Inr ((), u)"
      "next_of u = skip_next (prev_of s0 b) (next_of s0 b) (next_of s0)"
      "prev_of u = skip_next (next_of s0 b) (prev_of s0 b) (prev_of s0)"
      "next_free_of u = skip_next (prev_free_of s0 b) (next_free_of s0 b) (next_free_of s0)"
      "prev_free_of u = skip_next (next_free_of s0 b) (prev_free_of s0 b) (prev_free_of s0)"
      "hash_table u = (let k = hashfn (b_dev (bufs s0 b)) (b_blocknr (bufs s0 b)) in
         if hash_table s0 k = Some b then (hash_table s0)(k := next_of s0 b) else hash_table s0)"
      "free_list u = (if free_list s0 = b then hd (ys @ xs) else free_list s0)"
      "nr_buffers u = nr_buffers s0" "key u = key s0"
    using neighbours[OF c0 b0] by (elim remove_from_queues_links[OF pn nb, rotated 2]) blast+
  let ?F = "xs @ ys" and ?k = "hashfn d block"
  define v where "v = upd_buf b (\<lambda>h. h\<lparr>b_dev := d, b_blocknr := block\<rparr>) u"
  have v: "next_of v = next_of u" "prev_of v = prev_of u" "next_free_of v = next_free_of u"
      "prev_free_of v = prev_free_of u" "hash_table v = hash_table u" "free_list v = free_list u"
      "nr_buffers v = nr_buffers u" "key v = (key u)(b := (d, block))"
      "b_dev (bufs v b) = d" "b_blocknr (bufs v b) = block"
    by (auto simp: v_def key_def fun_eq_iff)
  have ru: "ring (next_free_of u) (prev_free_of u) ?F" using rr(1) unfolding u(4,5) .
  have fl: "free_list v = hd ?F"
    using F(5) di xs unfolding v(6) u(7) by (cases xs) auto
  have nF: "b \<notin> set ?F" "distinct (?F @ [b])" using di by auto
  have qu: "queues_without b u" by (rule queues_after_remove[OF c0 b0 u(2,3,6,8,9)])
  from qu[unfolded queues_without_def, rule_format, OF hashfn_less[of d block]]
  obtain cs where cs: "hash_table u ?k = first cs" "set cs = hashed (nr_buffers u) (key u) ?k - {b}"
    by (elim exE conjE)
  have old: "hash_table u ?k \<noteq> Some b" using first_not_in[of cs b] cs by auto
  have old': "fst (key s0 a) \<noteq> 0" if "hash_table u ?k = Some a" for a
    using first_not_in[of cs a] that cs by (auto simp: hashed_def u(9))
  define t where "t = insert_into_queues b v"
  have prevf: "b_prev_free (bufs v (hd ?F)) = Some (last ?F)"
    using ring_insert(2)[OF ru ne nF(2)] fun_cong[OF v(4)] by simp
  have ends: "hd ?F \<noteq> b" "last ?F \<noteq> b" using nF(1) ne hd_in_set last_in_set by metis+
  have bd: "b_dev (bufs v b) \<noteq> 0" using v(9) d by simp
  have hk: "hash_table u ?k = hash_table v (hashfn (b_dev (bufs v b)) (b_blocknr (bufs v b)))"
    by (simp add: v)
  note t = insert_into_queues_links[OF fl prevf ends bd hk old, folded t_def, unfolded v fun_cong[OF v(2)]]
  have take: "take_buffer d block b s = Inr (b, t)"
    by (simp add: take_buffer_def s0_def[symmetric] u(1) v_def[symmetric] t_def retK_def)
  have "free_ring t (?F @ [b])"
    using ring_insert(1)[OF ru ne nF(2)] nF(2) F(3,4) xs ne
      hd_append2[OF ne, of "[b]"]
    by (auto simp: free_ring_def t fl[unfolded v] u(8))
  moreover have "\<forall>k < NR_HASH. \<exists>bs. hash_queue t k bs"
    using b0 by (intro queues_after_insert[OF qu d refl refl]) (simp_all add: t u(8) fun_cong[OF v(2)])
  moreover have "keys_ok t"
  proof (rule keys_after_take[OF c0 b0 d new0 old'])
    show "next_of t = (skip_next (prev_of s0 b) (next_of s0 b) (next_of s0))(b := hash_table u ?k)"
      unfolding t(1) u(2) ..
    show "prev_of t = (\<lambda>i. if hash_table u ?k = Some i then Some b else if i = b then None
        else skip_next (next_of s0 b) (prev_of s0 b) (prev_of s0) i)"
      unfolding t(2) fun_cong[OF u(3)] ..
  qed (simp_all add: t u)
  moreover have "remove1 b F = ?F" using di by (simp add: xs remove1_append)
  ultimately have ct: "cache t (remove1 b F @ [b])" by (simp add: cache_def)
  have kt: "key t = (key s)(b := (d, block))" "nr_buffers t = nr_buffers s" by (simp_all add: t u same)
  have "find_buffer d block t = Some b" using find_buffer_iff[OF ct d] b by (simp add: kt)
  with take ct find_after_take[OF c ct b _ kt] show ?thesis by blast
qed

subsection \<open>The cache as it is set up\<close>

lemma linked_upt:
  "(\<And>j. i \<le> j \<Longrightarrow> Suc j < n \<Longrightarrow> nx j = Some (Suc j) \<and> pv (Suc j) = Some j) \<Longrightarrow> linked nx pv (map Some [i..<n])"
proof (induction "n - i" arbitrary: i)
  case (Suc m)
  then have i: "[i..<n] = i # [Suc i..<n]" by (simp add: upt_conv_Cons)
  have ih: "linked nx pv (map Some [Suc i..<n])" using Suc by simp
  show ?case
  proof (cases "Suc i < n")
    case True
    then have "[Suc i..<n] = Suc i # [Suc (Suc i)..<n]" by (simp add: upt_conv_Cons)
    with ih Suc.prems[of i] True show ?thesis by (simp add: i)
  next
    case False
    then show ?thesis by (simp add: i)
  qed
qed simp

lemma buffer_init_cache:
  assumes n: "n = nr_buffers (buffer_init start buffer_end s)" "2 \<le> n"
  shows "cache (buffer_init start buffer_end s) [0..<n]"
proof -
  let ?t = "buffer_init start buffer_end s"
  have b: "nr_buffers ?t = n" "free_list ?t = 0" "\<And>k. k < NR_HASH \<Longrightarrow> hash_table ?t k = None"
      "\<And>i. i < n \<Longrightarrow> b_dev (bufs ?t i) = 0 \<and> b_next (bufs ?t i) = None \<and> b_prev (bufs ?t i) = None \<and>
        b_prev_free (bufs ?t i) = Some (if i = 0 then n - 1 else i - 1) \<and>
        b_next_free (bufs ?t i) = Some (if i = n - 1 then 0 else i + 1)"
    using n(1) by (simp_all add: buffer_init_def Let_def)
  have "linked (next_free_of ?t) (prev_free_of ?t) (map Some [0..<n])"
    using b(4) by (intro linked_upt) auto
  moreover have upt: "[0..<n] = [0..<n - 1] @ [n - 1]" using n(2) upt_Suc_append[of 0 "n - 1"] by simp
  ultimately have "ring (next_free_of ?t) (prev_free_of ?t) [0..<n]"
    using n(2) b(4)[of 0] b(4)[of "n - 1"]
      linked_append[of "next_free_of ?t" "prev_free_of ?t" "map Some [0..<n - 1]" "Some (n - 1)" "[Some 0]"]
    by (simp add: ring_def hd_upt)
  then have "free_ring ?t [0..<n]" using n(2) b by (auto simp: free_ring_def)
  moreover have "hash_queue ?t k []" if "k < NR_HASH" for k
    using that b by (auto simp: hash_queue_def chain_def hashed_def key_def)
  moreover have "keys_ok ?t" using b by (auto simp: keys_ok_def key_def)
  ultimately show ?thesis by (auto simp: cache_def)
qed

theorem take_buffer_keeps_cache_witness:
  "\<exists>t. take_buffer 0x301 7 0 (buffer_init 0 3000 fsys0) = Inr (0, t) \<and> cache t [1, 0] \<and>
     find_buffer 0x301 7 t = Some 0"
proof -
  let ?s = "buffer_init 0 3000 fsys0"
  have "count_buffers 0 3000 0 = 2" by (simp add: count_buffers.simps)
  then have n: "nr_buffers ?s = 2" by (simp add: buffer_init_def)
  have c: "cache ?s [0, 1]" using buffer_init_cache[of 2 0 3000 fsys0] n by (simp add: upt_rec)
  have d: "(0x301 :: dev) \<noteq> 0" by simp
  have "key ?s b \<noteq> (0x301, 7)" if "b < 2" for b
    using that n by (simp add: key_def buffer_init_def Let_def)
  then have "find_buffer 0x301 7 ?s = None"
    using find_buffer_iff[OF c d, of 7] n by (metis option.exhaust)
  from take_buffer_keeps_cache[OF c _ d this, of 0] n
  show ?thesis by auto
qed

end
