(* ===== verification/Bitmap_Props.thy ===== *)
theory Bitmap_Props
  imports Bitmap Fs_Samples
begin

section \<open>The search for a free bit, and the map as a pool of numbers\<close>

text \<open>
  \<^verbatim>\<open>find_first_zero\<close> of \<^verbatim>\<open>fs/bitmap.c\<close> searches a map block long by long with
  \<^verbatim>\<open>bsfl\<close>; here it is shown to be the least clear bit. With it a map block is a
  \<open>free_pool\<close>: what the locale proves of pools holds of the zones and inodes.
\<close>

lemma bit_long_of:
  assumes "k < 32"
  shows "bit (long_of f) k = bit (f (k div 8)) (k mod 8)"
proof -
  consider "k < 8" | "8 \<le> k" "k < 16" | "16 \<le> k" "k < 24" | "24 \<le> k" "k < 32"
    using assms by linarith
  then show ?thesis
  proof cases
    case 1
    then show ?thesis by (simp add: long_of_def bit_simps)
  next
    case 2
    then have "k div 8 = 1" by (intro div_nat_eqI) simp_all
    moreover from this have "k mod 8 = k - 8" using minus_div_mult_eq_mod[of k 8] by simp
    ultimately show ?thesis using 2 by (auto simp: long_of_def bit_simps dest: bit_imp_le_length)
  next
    case 3
    then have "k div 8 = 2" by (intro div_nat_eqI) simp_all
    moreover from this have "k mod 8 = k - 16" using minus_div_mult_eq_mod[of k 8] by simp
    ultimately show ?thesis using 3 by (auto simp: long_of_def bit_simps dest: bit_imp_le_length)
  next
    case 4
    then have "k div 8 = 3" by (intro div_nat_eqI) simp_all
    moreover from this have "k mod 8 = k - 24" using minus_div_mult_eq_mod[of k 8] by simp
    ultimately show ?thesis using 4 by (auto simp: long_of_def bit_simps dest: bit_imp_le_length)
  qed
qed

lemma bit_long_at: "k < 32 \<Longrightarrow> bit (long_at d i) k = bitmap_bit d (32 * i + k)"
proof -
  assume k: "k < 32"
  have "32 * i + k = k + 4 * i * 8" by simp
  then have "(32 * i + k) div 8 = 4 * i + k div 8" "(32 * i + k) mod 8 = k mod 8"
    by (simp_all only: div_mult_self1 mod_mult_self1)
  with k show ?thesis by (simp add: long_at_def bit_long_of bitmap_bit_def)
qed

lemma bsf_long_Some:
  assumes "bsf (NOT (long_at d i)) = Some k"
  shows "k < 32 \<and> \<not> bitmap_bit d (32 * i + k) \<and> (\<forall>m. 32 * i \<le> m \<longrightarrow> m < 32 * i + k \<longrightarrow> bitmap_bit d m)"
proof -
  from assms[unfolded bsf_def, THEN find_upt_least]
  have k: "k < 32" "\<not> bit (long_at d i) k" and l: "\<And>m. m < k \<Longrightarrow> bit (long_at d i) m"
    by (auto simp: bit_not_iff dest: bit_imp_le_length)
  have "bitmap_bit d m" if "32 * i \<le> m" "m < 32 * i + k" for m
    using l[of "m - 32 * i"] that k bit_long_at[of "m - 32 * i" d i] by simp
  with k show ?thesis by (simp add: bit_long_at)
qed

lemma bsf_long_None:
  assumes "bsf (NOT (long_at d i)) = None" "32 * i \<le> m" "m < 32 * i + 32"
  shows "bitmap_bit d m"
proof -
  have "\<not> bit (NOT (long_at d i)) (m - 32 * i)"
    using assms(1)[unfolded bsf_def find_None_upt] assms(2,3) by simp
  with assms(2,3) show ?thesis using bit_long_at[of "m - 32 * i" d i] by (simp add: bit_not_iff)
qed

lemma scan_longs_least:
  "32 * i \<le> scan_longs n i d \<and> scan_longs n i d \<le> 32 * (i + n)
   \<and> (scan_longs n i d < 32 * (i + n) \<longrightarrow> \<not> bitmap_bit d (scan_longs n i d))
   \<and> (\<forall>m. 32 * i \<le> m \<longrightarrow> m < scan_longs n i d \<longrightarrow> bitmap_bit d m)"
proof (induction n arbitrary: i)
  case (Suc n)
  show ?case
  proof (cases "bsf (NOT (long_at d i))")
    case None
    then have "bitmap_bit d m" if "32 * i \<le> m" "m < 32 * i + 32" for m
      using that by (rule bsf_long_None)
    moreover have eq: "scan_longs (Suc n) i d = scan_longs n (Suc i) d" using None by simp
    moreover have "32 * Suc i + 32 * n = 32 * (i + Suc n)" "32 * Suc i = 32 * i + 32" by simp_all
    ultimately show ?thesis using Suc.IH[of "Suc i"]
      by (metis add_leD1 add_Suc_shift leI)
  next
    case (Some k)
    with bsf_long_Some[OF this] show ?thesis by auto
  qed
qed simp

text \<open>The reference: the numbers below 8192 whose bit is clear.\<close>

definition free_bits :: "block_data \<Rightarrow> nat set" where
  "free_bits d = {n. n < 8192 \<and> \<not> bitmap_bit d n}"

lemma find_first_zero_le [simp]: "find_first_zero d \<le> 8192"
  using scan_longs_least[of 0 256 d] by (simp add: find_first_zero_def)

lemma find_first_zero_bits:
  "find_first_zero d < 8192 \<Longrightarrow> \<not> bitmap_bit d (find_first_zero d)"
  "m < find_first_zero d \<Longrightarrow> bitmap_bit d m"
  using scan_longs_least[of 0 256 d] by (simp_all add: find_first_zero_def)

lemma free_bits_first:
  "find_first_zero d < 8192 \<longleftrightarrow> free_bits d \<noteq> {}"
  "free_bits d = {} \<Longrightarrow> find_first_zero d = 8192"
  "n \<in> free_bits d \<Longrightarrow> find_first_zero d \<in> free_bits d \<and> find_first_zero d \<le> n"
proof -
  show in_bits: "find_first_zero d \<in> free_bits d \<and> find_first_zero d \<le> n" if "n \<in> free_bits d" for n
  proof -
    from that have "n < 8192" "\<not> bitmap_bit d n" by (simp_all add: free_bits_def)
    moreover from this have "find_first_zero d \<le> n" using find_first_zero_bits(2) not_less by blast
    ultimately have "find_first_zero d < 8192" by simp
    with find_first_zero_bits(1) \<open>find_first_zero d \<le> n\<close> show ?thesis by (simp add: free_bits_def)
  qed
  show iff: "find_first_zero d < 8192 \<longleftrightarrow> free_bits d \<noteq> {}"
    using in_bits find_first_zero_bits(1)[of d] by (auto simp: free_bits_def)
  show "free_bits d = {} \<Longrightarrow> find_first_zero d = 8192"
    using iff find_first_zero_le[of d] by linarith
qed

text \<open>C36. \<^verbatim>\<open>find_first_zero\<close>, which complements longs and scans them with
  \<^verbatim>\<open>bsfl\<close>, computes the least number whose bit is clear in the block, and 8192
  when all 8192 bits are set.\<close>

theorem find_first_zero_least:
  "find_first_zero d = (if free_bits d = {} then 8192 else Min (free_bits d))"
proof (cases "free_bits d = {}")
  case False
  then have "Min (free_bits d) = find_first_zero d"
    using free_bits_first(3)[of _ d] by (intro Min_eqI) (auto simp: free_bits_def)
  with False show ?thesis by simp
qed (simp add: free_bits_first(2))

subsection \<open>The blocks of a map as one pool\<close>

text \<open>
  The map blocks of a super block (\<^verbatim>\<open>s_imap\<close>, \<^verbatim>\<open>s_zmap\<close>): number \<open>n\<close> is bit
  \<open>n mod 8192\<close> of block \<open>n div 8192\<close>. \<open>map_take\<close> is the search and the \<^verbatim>\<open>set_bit\<close> of
  \<^verbatim>\<open>new_block\<close> and \<^verbatim>\<open>new_inode\<close>, \<open>map_give\<close> the \<^verbatim>\<open>clear_bit\<close> of
  \<^verbatim>\<open>free_block\<close> and \<^verbatim>\<open>free_inode\<close>.
\<close>

definition map_blocks :: "(nat \<Rightarrow> nat option) \<Rightarrow> bool" where
  "map_blocks m \<longleftrightarrow> (\<forall>k k' b. m k = Some b \<longrightarrow> m k' = Some b \<longrightarrow> k = k')"

definition map_valid :: "(nat \<Rightarrow> nat option) \<Rightarrow> nat \<Rightarrow> bool" where
  "map_valid m n \<longleftrightarrow> n < 65536 \<and> m (n div 8192) \<noteq> None"

definition free_numbers :: "(nat \<Rightarrow> nat option) \<Rightarrow> fsys \<Rightarrow> nat set" where
  "free_numbers m s =
     {n. map_valid m n \<and> \<not> bitmap_bit (b_data (bufs s (the (m (n div 8192))))) (n mod 8192)}"

definition map_take :: "(nat \<Rightarrow> nat option) \<Rightarrow> fsys \<Rightarrow> (nat \<times> fsys) option" where
  "map_take m s = map_option (\<lambda>(k, b, j). (k * 8192 + j, mark_bit b j s)) (find_map_bit m s)"

definition map_give :: "(nat \<Rightarrow> nat option) \<Rightarrow> nat \<Rightarrow> fsys \<Rightarrow> fsys" where
  "map_give m n s = upd_buf (the (m (n div 8192)))
     (\<lambda>h. h\<lparr>b_data := put_bit (n mod 8192) False (b_data h), b_dirt := True\<rparr>) s"

lemma bit_put_bit: "bitmap_bit (put_bit n v d) m = (if m = n then v else bitmap_bit d m)"
proof (cases "m div 8 = n div 8 \<and> m mod 8 = n mod 8")
  case True
  then have "m = n" by (metis div_mult_mod_eq)
  then show ?thesis by (simp add: bitmap_bit_def put_bit_def bit_simps)
next
  case False
  then show ?thesis
    by (auto simp: bitmap_bit_def put_bit_def bit_simps)
qed

lemma free_numbers_iff:
  "n \<in> free_numbers m s \<longleftrightarrow>
     n div 8192 < 8 \<and> (\<exists>b. m (n div 8192) = Some b \<and> n mod 8192 \<in> free_bits (b_data (bufs s b)))"
  by (auto simp: free_numbers_def map_valid_def free_bits_def div_less_iff_less_mult)

lemma two_digits_le:
  assumes "k \<le> n div 8192" "k = n div 8192 \<Longrightarrow> j \<le> n mod 8192" "j < 8192"
  shows "k * 8192 + j \<le> (n :: nat)"
proof (cases "k = n div 8192")
  case True
  with assms(2) div_mult_mod_eq[of n 8192] show ?thesis by linarith
next
  case False
  with assms(1) have "(k + 1) * 8192 \<le> n div 8192 * 8192" by (intro mult_le_mono1) simp
  also have "\<dots> \<le> n" by simp
  finally show ?thesis using assms(3) by simp
qed

abbreviation (input) has_free :: "(nat \<Rightarrow> nat option) \<Rightarrow> fsys \<Rightarrow> nat \<Rightarrow> bool" where
  "has_free m s i \<equiv> (case m i of None \<Rightarrow> False | Some b \<Rightarrow> find_first_zero (b_data (bufs s b)) < 8192)"

lemma find_map_bit_Some:
  assumes "find_map_bit m s = Some (k, b, j)"
  shows "k < 8 \<and> m k = Some b \<and> j = find_first_zero (b_data (bufs s b)) \<and> j < 8192 \<and> (\<forall>i<k. \<not> has_free m s i)"
proof -
  have f: "List.find (has_free m s) [0..<8] = Some k" and "b = the (m k) \<and> j = find_first_zero (b_data (bufs s (the (m k))))"
    using assms unfolding find_map_bit_def Let_def
    by (cases "List.find (has_free m s) [0..<8]"; simp del: upt_rec_numeral)+
  then have b: "b = the (m k)" and j: "j = find_first_zero (b_data (bufs s b))" by simp_all
  from find_upt_least[OF f] have "k < 8" "has_free m s k" "\<forall>i<k. \<not> has_free m s i" by blast+
  with b j show ?thesis by (cases "m k") auto
qed

lemma find_map_bit_least:
  assumes "find_map_bit m s = Some (k, b, j)"
  shows "m k = Some b \<and> k < 8 \<and> j < 8192 \<and> k * 8192 + j \<in> free_numbers m s
    \<and> (\<forall>n \<in> free_numbers m s. k * 8192 + j \<le> n)"
proof -
  note f = find_map_bit_Some[OF assms]
  have "k * 8192 + j \<le> n" if n: "n \<in> free_numbers m s" for n
  proof (rule two_digits_le)
    from n obtain b' where n': "m (n div 8192) = Some b'" "n mod 8192 \<in> free_bits (b_data (bufs s b'))"
      unfolding free_numbers_iff by blast
    then have "has_free m s (n div 8192)" using free_bits_first(1) by auto
    with f show "k \<le> n div 8192" using not_less by blast
    show "j \<le> n mod 8192" if "k = n div 8192"
      using that n' f free_bits_first(3) by auto
  qed (use f in simp)
  moreover have "j \<in> free_bits (b_data (bufs s b))"
    using f free_bits_first(1,3) by blast
  ultimately show ?thesis using f by (simp add: free_numbers_iff)
qed

lemma find_map_bit_eq_None: "find_map_bit m s = None \<longleftrightarrow> (\<forall>i<8. \<not> has_free m s i)"
proof -
  have "find_map_bit m s = None \<longleftrightarrow> List.find (has_free m s) [0..<8] = None"
    unfolding find_map_bit_def Let_def by (cases "List.find (has_free m s) [0..<8]") (simp_all del: upt_rec_numeral)
  then show ?thesis unfolding find_None_upt by simp
qed

lemma find_map_bit_None: "find_map_bit m s = None \<longleftrightarrow> free_numbers m s = {}"
proof
  assume none: "find_map_bit m s = None"
  show "free_numbers m s = {}"
  proof (rule equals0I)
    fix n assume "n \<in> free_numbers m s"
    then obtain b where "n div 8192 < 8" "m (n div 8192) = Some b" "free_bits (b_data (bufs s b)) \<noteq> {}"
      unfolding free_numbers_iff by blast
    then have "has_free m s (n div 8192)" using free_bits_first(1) by simp
    with none \<open>n div 8192 < 8\<close> show False unfolding find_map_bit_eq_None by blast
  qed
next
  assume "free_numbers m s = {}"
  then show "find_map_bit m s = None"
    using find_map_bit_least[of m s] by (cases "find_map_bit m s") auto
qed

lemma free_numbers_set:
  assumes "map_blocks m" "map_valid m n"
  shows "free_numbers m (upd_buf (the (m (n div 8192))) (\<lambda>h. h\<lparr>b_data := put_bit (n mod 8192) v (b_data h), b_dirt := True\<rparr>) s)
    = (if v then free_numbers m s - {n} else insert n (free_numbers m s))"
proof -
  have "the (m (n' div 8192)) = the (m (n div 8192)) \<longleftrightarrow> n' div 8192 = n div 8192" if "map_valid m n'" for n'
    using assms that by (auto simp: map_blocks_def map_valid_def)
  moreover have "n' = n \<longleftrightarrow> n' div 8192 = n div 8192 \<and> n' mod 8192 = n mod 8192" for n'
    by (metis div_mult_mod_eq)
  ultimately show ?thesis
    using assms(2) by (auto simp: free_numbers_def upd_buf_def bit_put_bit)
qed

interpretation bit_map: free_pool "map_take m" "map_give m" "free_numbers m" "\<lambda>_. map_blocks m" "map_valid m" for m
proof unfold_locales
  fix s n s'
  show "map_take m s = None \<longleftrightarrow> free_numbers m s = {}"
    using find_map_bit_None by (simp add: map_take_def)
  show "n \<in> free_numbers m s \<Longrightarrow> map_valid m n" by (simp add: free_numbers_def)
  assume ok: "map_blocks m"
  then show "map_blocks m" .
  show "map_valid m n \<Longrightarrow> free_numbers m (map_give m n s) = insert n (free_numbers m s)"
    using free_numbers_set[OF ok, of n False] by (simp add: map_give_def)
  assume "map_take m s = Some (n, s')"
  then obtain k b j where f: "find_map_bit m s = Some (k, b, j)" "n = k * 8192 + j" "s' = mark_bit b j s"
    by (auto simp: map_take_def)
  from find_map_bit_least[OF f(1)] f(2)
  show "n \<in> free_numbers m s \<and> (\<forall>m' \<in> free_numbers m s. n \<le> m')" by simp
  from find_map_bit_least[OF f(1)] f(2) have "map_valid m n" "b = the (m (n div 8192))" "j = n mod 8192"
    by (auto simp: free_numbers_def)
  with free_numbers_set[OF ok, of n True] f(3)
  show "free_numbers m s' = free_numbers m s - {n}" by (simp add: mark_bit_def)
qed

subsection \<open>Inode numbers\<close>

lemma get_super_found:
  assumes "d \<noteq> 0" "find_super d s = Some k" "\<not> s_lock (supers s k)"
  shows "get_super E d s = Inr (Some k, s)"
proof -
  have "s_dev (supers s k) = d" using assms(2) by (auto simp: find_super_def find_Some_iff)
  with assms show ?thesis by (simp add: get_super_def wait_on_super_def sleep_while_def retK_def)
qed

lemma find_super_frame [simp]:
  "find_super d (upd_buf b f s) = find_super d s" "find_super d (upd_inode i g s) = find_super d s"
  by (simp_all add: find_super_def)

lemma free_inode_used:
  assumes "i_dev (inodes s i) \<noteq> 0" "i_count (inodes s i) \<le> 1" "i_nlinks (inodes s i) = 0"
    and sb: "find_super (i_dev (inodes s i)) s = Some k" "\<not> s_lock (supers s k)"
    and n: "unat (i_num (inodes s i)) = n" "1 \<le> n" "n \<le> unat (s_ninodes (supers s k))"
    and used: "map_valid (s_imap (supers s k)) n" "n \<notin> free_numbers (s_imap (supers s k)) s"
  shows "free_inode E (Some i) s = Inr ((), upd_inode i (\<lambda>_. zero_inode) (map_give (s_imap (supers s k)) n s))"
proof -
  from used obtain b where b: "s_imap (supers s k) (n div 8192) = Some b"
    and "bitmap_bit (b_data (bufs s b)) (n mod 8192)"
    by (auto simp: free_numbers_def map_valid_def)
  with assms show ?thesis
    by (simp add: free_inode_def get_super_found Let_def map_give_def retK_def not_less[symmetric])
qed

text \<open>C21. Taking and freeing an inode number. The search of \<^verbatim>\<open>new_inode\<close> finds the least
  number that is free in all eight map blocks, and its \<^verbatim>\<open>set_bit\<close> takes exactly that
  one from the free numbers; \<^verbatim>\<open>free_inode\<close> of the inode with this number, which has no
  links left, does not panic, makes the free numbers what they were before and clears the entry
  of the inode table.\<close>

theorem inode_number_roundtrip:
  assumes "find_map_bit m s = Some (q, b, j)" and "n = q * 8192 + j" and "s' = mark_bit b j s"
    and "k < NR_SUPER" and "m = s_imap (supers s k)" and "map_blocks m"
    and "i_dev (inodes s i) \<noteq> 0" and "i_count (inodes s i) \<le> 1" and "i_nlinks (inodes s i) = 0"
    and "find_super (i_dev (inodes s i)) s = Some k" and "\<not> s_lock (supers s k)"
    and "unat (i_num (inodes s i)) = n" and "1 \<le> n" and "n \<le> unat (s_ninodes (supers s k))"
  shows "n = Min (free_numbers m s) \<and> free_numbers m s' = free_numbers m s - {n} \<and>
    (\<exists>t. free_inode E (Some i) s' = Inr ((), t) \<and> free_numbers m t = free_numbers m s \<and>
         inodes t = (inodes s)(i := zero_inode))"
proof -
  have take: "map_take m s = Some (n, s')" using assms(1-3) by (simp add: map_take_def)
  note pool = bit_map.take_pool[OF assms(6) take] and least = bit_map.take_least[OF assms(6) take]
  have "finite (free_numbers m s)"
    by (rule finite_subset[of _ "{..<65536}"]) (auto simp: free_numbers_def map_valid_def)
  with least have min: "n = Min (free_numbers m s)" by (intro Min_eqI[symmetric]) auto
  from least have valid: "map_valid m n" by (simp add: free_numbers_def)
  have "free_inode E (Some i) s' = Inr ((), upd_inode i (\<lambda>_. zero_inode) (map_give m n s'))"
    using free_inode_used[of s' i k n E] assms pool valid by (simp add: mark_bit_def)
  moreover have "free_numbers m (upd_inode i (\<lambda>_. zero_inode) t) = free_numbers m t" for t
    by (simp add: free_numbers_def)
  moreover have "inodes (map_give m n s') = inodes s" by (simp add: map_give_def assms(3) mark_bit_def)
  ultimately show ?thesis using min pool bit_map.take_give[OF assms(6) take] by simp
qed

definition fs_ino :: fsys where
  "fs_ino = fsys0\<lparr>supers := (\<lambda>_. super0)(0 := super0\<lparr>s_dev := 0x301, s_ninodes := 100, s_imap := [0 \<mapsto> 7]\<rparr>),
     bufs := (\<lambda>_. buf0)(7 := buf0\<lparr>b_data := (\<lambda>_. 0)(0 := 31)\<rparr>),
     inodes := (\<lambda>_. zero_inode)(3 := zero_inode\<lparr>i_dev := 0x301, i_num := 5, i_count := 1\<rparr>)\<rparr>"

theorem inode_number_roundtrip_witness:
  "5 = Min (free_numbers [0 \<mapsto> 7] fs_ino) \<and>
   (\<exists>t. free_inode env0 (Some 3) (mark_bit 7 5 fs_ino) = Inr ((), t) \<and>
        free_numbers [0 \<mapsto> 7] t = free_numbers [0 \<mapsto> 7] fs_ino)"
proof -
  have bits: "bitmap_bit ((\<lambda>_. 0)(0 := 31)) n \<longleftrightarrow> n < 5" for n
  proof -
    have eq: "(31 :: u8) = mask 5" by (simp add: mask_eq_exp_minus_1)
    have "bit (31 :: u8) k \<longleftrightarrow> k < 5" for k unfolding eq bit_mask_iff by auto
    then show ?thesis
      by (cases "n div 8 = 0") (auto simp: bitmap_bit_def div_eq_0_iff)
  qed
  have "free_bits ((\<lambda>_. 0)(0 := 31)) = {5..<8192}" by (auto simp: free_bits_def bits)
  moreover have "Min {5..<8192 :: nat} = 5" by (intro Min_eqI) auto
  ultimately have "find_first_zero ((\<lambda>_. 0)(0 := 31)) = 5"
    using find_first_zero_least[of "(\<lambda>_. 0)(0 := 31)"] by simp
  then have f: "find_map_bit [0 \<mapsto> 7] fs_ino = Some (0, 7, 5)"
    by (simp add: find_map_bit_def fs_ino_def upt_rec Let_def)
  have g: "find_super 0x301 fs_ino = Some 0" by (simp add: find_super_def fs_ino_def upt_rec)
  have h: "inodes fs_ino 3 = zero_inode\<lparr>i_dev := 0x301, i_num := 5, i_count := 1\<rparr>"
    and k: "supers fs_ino 0 = super0\<lparr>s_dev := 0x301, s_ninodes := 100, s_imap := [0 \<mapsto> 7]\<rparr>"
    by (simp_all add: fs_ino_def)
  note simps = k h super0_def zero_inode_def map_blocks_def
  have "5 = Min (free_numbers [0 \<mapsto> 7] fs_ino) \<and> free_numbers [0 \<mapsto> 7] (mark_bit 7 5 fs_ino)
      = free_numbers [0 \<mapsto> 7] fs_ino - {5} \<and>
    (\<exists>t. free_inode env0 (Some 3) (mark_bit 7 5 fs_ino) = Inr ((), t) \<and>
      free_numbers [0 \<mapsto> 7] t = free_numbers [0 \<mapsto> 7] fs_ino \<and> inodes t = (inodes fs_ino)(3 := zero_inode))"
  proof (rule inode_number_roundtrip[OF f _ refl, where k = 0])
    show "find_super (i_dev (inodes fs_ino 3)) fs_ino = Some 0" using g by (simp add: simps)
  qed (simp_all add: simps)
  then show ?thesis by blast
qed

end
