(* ===== verification/Inode.thy ===== *)
theory Inode
  imports Bitmap
begin

section \<open>Inodes: zones, reference counts and the inode table\<close>

text \<open>
  \<^verbatim>\<open>fs/truncate.c\<close>, \<^verbatim>\<open>fs/inode.c\<close> (what \<open>Buffer\<close> does not have of it) and
  \<^verbatim>\<open>new_inode\<close> of \<^verbatim>\<open>fs/bitmap.c\<close>.
\<close>

subsection \<open>truncate\<close>

text \<open>The loop over the 512 entries of an indirect block; the value says whether an entry is
  busy.\<close>

primrec free_entries :: "(nat \<Rightarrow> fsys \<Rightarrow> bool fres) \<Rightarrow> nat \<Rightarrow> nat list \<Rightarrow> bool \<Rightarrow> fsys \<Rightarrow> bool fres" where
  "free_entries f b [] busy s = retK busy s"
| "free_entries f b (k # ks) busy s =
     (let v = get16 (b_data (bufs s b)) k in
      if v = 0 then free_entries f b ks busy s
      else bindK (f (unat v) s) (\<lambda>ok s.
        if ok then free_entries f b ks busy
                     (upd_buf b (\<lambda>h. h\<lparr>b_data := put16 k 0 (b_data h), b_dirt := True\<rparr>) s)
        else free_entries f b ks True s))"

definition free_level :: "(nat \<Rightarrow> fsys \<Rightarrow> bool fres) \<Rightarrow> env \<Rightarrow> dev \<Rightarrow> nat \<Rightarrow> fsys \<Rightarrow> bool fres" where
  "free_level f E d block s =
     (if block = 0 then retK True s
      else bindK (bread E d block s) (\<lambda>bh s.
        bindK (case bh of None \<Rightarrow> retK False s
               | Some b \<Rightarrow> bindK (free_entries f b [0..<512] False s) (\<lambda>busy s.
                   bindK (brelse E (Some b) s) (\<lambda>_ s. retK busy s))) (\<lambda>busy s.
          if busy then retK False s else free_block E d block s)))"

definition free_ind :: "env \<Rightarrow> dev \<Rightarrow> nat \<Rightarrow> fsys \<Rightarrow> bool fres" where
  "free_ind E d = free_level (free_block E d) E d"

definition free_dind :: "env \<Rightarrow> dev \<Rightarrow> nat \<Rightarrow> fsys \<Rightarrow> bool fres" where
  "free_dind E d = free_level (free_ind E d) E d"

definition set_zone :: "nat \<Rightarrow> nat \<Rightarrow> nat \<Rightarrow> fsys \<Rightarrow> fsys" where
  "set_zone i k v = upd_inode i (\<lambda>x. x\<lparr>i_zone := (i_zone x)(k := of_nat v)\<rparr>)"

definition free_zone :: "(dev \<Rightarrow> nat \<Rightarrow> fsys \<Rightarrow> bool fres) \<Rightarrow> nat \<Rightarrow> nat \<Rightarrow> bool \<Rightarrow> fsys \<Rightarrow> bool fres" where
  "free_zone f i k busy s =
     bindK (f (i_dev (inodes s i)) (unat (i_zone (inodes s i) k)) s) (\<lambda>ok s.
       if ok then retK busy (set_zone i k 0 s) else retK True s)"

primrec free_direct :: "env \<Rightarrow> nat \<Rightarrow> nat list \<Rightarrow> bool \<Rightarrow> fsys \<Rightarrow> bool fres" where
  "free_direct E i [] busy s = retK busy s"
| "free_direct E i (k # ks) busy s =
     (if i_zone (inodes s i) k = 0 then free_direct E i ks busy s
      else bindK (free_zone (free_block E) i k busy s) (\<lambda>busy. free_direct E i ks busy))"

primrec truncate_rounds :: "nat \<Rightarrow> env \<Rightarrow> nat \<Rightarrow> fsys \<Rightarrow> unit fres" where
  "truncate_rounds 0 E i s = stopK (Sleeps ''truncate'') s"
| "truncate_rounds (Suc n) E i s =
     bindK (free_direct E i [0..<7] False s) (\<lambda>busy s.
       bindK (free_zone (free_ind E) i 7 busy s) (\<lambda>busy s.
         bindK (free_zone (free_dind E) i 8 busy s) (\<lambda>busy s.
           let s = upd_inode i (\<lambda>x. x\<lparr>i_dirt := True\<rparr>) s in
           if busy then truncate_rounds n E i (others E (upd_kernel (upd_cur (\<lambda>t. t\<lparr>t_counter := 0\<rparr>)) s))
           else retK () (upd_inode i (\<lambda>x. x\<lparr>i_size := 0, i_mtime := fs_time s, i_ctime := fs_time s\<rparr>) s))))"

definition truncate :: "env \<Rightarrow> nat \<Rightarrow> fsys \<Rightarrow> unit fres" where
  "truncate E i s =
     (let m = i_mode (inodes s i) in
      if \<not> (S_ISREG m \<or> S_ISDIR m \<or> S_ISLNK m) then retK () s
      else truncate_rounds (Suc (rounds E)) E i s)"

subsection \<open>From blocks of a file to blocks of the device\<close>

definition new_zone :: "env \<Rightarrow> nat \<Rightarrow> nat \<Rightarrow> fsys \<Rightarrow> unit fres" where
  "new_zone E i k s =
     bindK (new_block E (i_dev (inodes s i)) s) (\<lambda>z s.
       let s = set_zone i k z s in
       retK () (if z \<noteq> 0 then upd_inode i (\<lambda>x. x\<lparr>i_ctime := fs_time s, i_dirt := True\<rparr>) s else s))"

definition zone_or_new :: "env \<Rightarrow> bool \<Rightarrow> nat \<Rightarrow> nat \<Rightarrow> fsys \<Rightarrow> nat fres" where
  "zone_or_new E create i k s =
     bindK (if create \<and> i_zone (inodes s i) k = 0 then new_zone E i k s else retK () s)
       (\<lambda>_ s. retK (unat (i_zone (inodes s i) k)) s)"

text \<open>Entry \<open>k\<close> of the indirect block \<open>block\<close>, a new one when there is none and \<open>create\<close>.\<close>

definition entry_or_new :: "env \<Rightarrow> bool \<Rightarrow> nat \<Rightarrow> nat \<Rightarrow> nat \<Rightarrow> fsys \<Rightarrow> nat fres" where
  "entry_or_new E create i block k s =
     (if block = 0 then retK 0 s
      else bindK (bread E (i_dev (inodes s i)) block s) (\<lambda>bh s.
        case bh of None \<Rightarrow> retK 0 s
        | Some b \<Rightarrow>
            let v = unat (get16 (b_data (bufs s b)) k) in
            bindK (if create \<and> v = 0
                   then bindK (new_block E (i_dev (inodes s i)) s) (\<lambda>z s.
                     retK z (if z \<noteq> 0
                       then upd_buf b (\<lambda>h. h\<lparr>b_data := put16 k (of_nat z) (b_data h), b_dirt := True\<rparr>) s else s))
                   else retK v s) (\<lambda>v s. bindK (brelse E (Some b) s) (\<lambda>_ s. retK v s))))"

definition bmap' :: "env \<Rightarrow> bool \<Rightarrow> nat \<Rightarrow> int \<Rightarrow> fsys \<Rightarrow> nat fres" where
  "bmap' E create i block s =
     (if block < 0 then stopK (Panic ''_bmap: block<0'') s
      else if 7 + 512 + 512 * 512 \<le> block then stopK (Panic ''_bmap: block>big'') s
      else let k = nat block in
        if k < 7 then zone_or_new E create i k s
        else if k - 7 < 512
        then bindK (zone_or_new E create i 7 s) (\<lambda>z. entry_or_new E create i z (k - 7))
        else let k = k - 7 - 512 in
          bindK (zone_or_new E create i 8 s) (\<lambda>z s.
            bindK (entry_or_new E create i z (k div 512) s) (\<lambda>z. entry_or_new E create i z (k mod 512))))"

definition bmap :: "env \<Rightarrow> nat \<Rightarrow> int \<Rightarrow> fsys \<Rightarrow> nat fres" where
  "bmap E = bmap' E False"

definition create_block :: "env \<Rightarrow> nat \<Rightarrow> int \<Rightarrow> fsys \<Rightarrow> nat fres" where
  "create_block E = bmap' E True"

subsection \<open>Reference counts\<close>

definition drop_count :: "nat \<Rightarrow> fsys \<Rightarrow> fsys" where
  "drop_count i = upd_inode i (\<lambda>x. x\<lparr>i_count := i_count x - 1\<rparr>)"

primrec iput_rounds :: "nat \<Rightarrow> env \<Rightarrow> nat \<Rightarrow> fsys \<Rightarrow> unit fres" where
  "iput_rounds 0 E i s = stopK (Sleeps ''iput'') s"
| "iput_rounds (Suc n) E i s =
     (let x = inodes s i in
      if 1 < i_count x then retK () (drop_count i s)
      else if i_nlinks x = 0 then bindK (truncate E i s) (\<lambda>_. free_inode E (Some i))
      else if i_dirt x then
        bindK (write_inode E i s) (\<lambda>_ s. bindK (wait_on_inode E i s) (\<lambda>_. iput_rounds n E i))
      else retK () (drop_count i s))"

definition iput_pipe :: "nat \<Rightarrow> fsys \<Rightarrow> unit fres" where
  "iput_pipe i s =
     (let s = wake (i_wait (inodes s i)) s;
          s = wake (i_wait2 (inodes s i)) s;
          s = drop_count i s
      in if i_count (inodes s i) \<noteq> 0 then retK () s
         else bindK (on_pages (free_page (i_size (inodes s i))) s)
           (\<lambda>_ s. retK () (upd_inode i (\<lambda>x. x\<lparr>i_count := 0, i_dirt := False, i_pipe := False\<rparr>) s)))"

definition iput :: "env \<Rightarrow> nat option \<Rightarrow> fsys \<Rightarrow> unit fres" where
  "iput E p s =
     (case p of None \<Rightarrow> retK () s
      | Some i \<Rightarrow>
        bindK (wait_on_inode E i s) (\<lambda>_ s.
          let x = inodes s i in
          if i_count x = 0 then stopK (Panic ''iput: trying to free free inode'') s
          else if i_pipe x then iput_pipe i s
          else if i_dev x = 0 then retK () (drop_count i s)
          else bindK (if S_ISBLK (i_mode x)
                      then bindK (sync_dev E (i_zone x 0) s) (\<lambda>_. wait_on_inode E i) else retK () s)
            (\<lambda>_. iput_rounds (Suc (rounds E)) E i)))"

subsection \<open>The inode table\<close>

definition invalidate_inodes :: "env \<Rightarrow> dev \<Rightarrow> fsys \<Rightarrow> unit fres" where
  "invalidate_inodes E d =
     forK (\<lambda>i s. bindK (wait_on_inode E i s) (\<lambda>_ s. retK ()
       (if i_dev (inodes s i) = d
        then let s = (if i_count (inodes s i) \<noteq> 0 then fs_say ''inode in use on removed disk'' s else s)
             in upd_inode i (\<lambda>x. x\<lparr>i_dev := 0, i_dirt := False\<rparr>) s
        else s))) [0..<NR_INODE]"

primrec scan_inodes :: "nat \<Rightarrow> nat option \<Rightarrow> fsys \<Rightarrow> nat option \<times> fsys" where
  "scan_inodes 0 r s = (r, s)"
| "scan_inodes (Suc n) r s =
     (let l = (if NR_INODE \<le> last_inode s + 1 then 0 else last_inode s + 1);
          s = s\<lparr>last_inode := l\<rparr>; x = inodes s l
      in if i_count x \<noteq> 0 then scan_inodes n r s
         else if \<not> i_dirt x \<and> \<not> i_lock x then (Some l, s)
         else scan_inodes n (Some l) s)"

primrec clean_inode :: "nat \<Rightarrow> env \<Rightarrow> nat \<Rightarrow> fsys \<Rightarrow> unit fres" where
  "clean_inode 0 E i s = (if i_dirt (inodes s i) then stopK (Sleeps ''get_empty_inode'') s else retK () s)"
| "clean_inode (Suc n) E i s =
     (if \<not> i_dirt (inodes s i) then retK () s
      else bindK (write_inode E i s) (\<lambda>_ s. bindK (wait_on_inode E i s) (\<lambda>_. clean_inode n E i)))"

primrec get_empty_rounds :: "nat \<Rightarrow> env \<Rightarrow> fsys \<Rightarrow> nat fres" where
  "get_empty_rounds 0 E s = stopK (Sleeps ''get_empty_inode'') s"
| "get_empty_rounds (Suc n) E s =
     (case scan_inodes NR_INODE None s of
        (None, s) \<Rightarrow> stopK (Panic ''No free inodes in mem'') s
      | (Some i, s) \<Rightarrow>
          bindK (wait_on_inode E i s) (\<lambda>_ s.
            bindK (clean_inode (Suc (rounds E)) E i s) (\<lambda>_ s.
              if i_count (inodes s i) \<noteq> 0 then get_empty_rounds n E s
              else retK i (upd_inode i (\<lambda>_. zero_inode\<lparr>i_count := 1\<rparr>) s))))"

definition get_empty_inode :: "env \<Rightarrow> fsys \<Rightarrow> nat fres" where
  "get_empty_inode E = get_empty_rounds (Suc (rounds E)) E"

definition get_pipe_inode :: "env \<Rightarrow> fsys \<Rightarrow> nat option fres" where
  "get_pipe_inode E s =
     bindK (get_empty_inode E s) (\<lambda>i s.
       bindK (on_pages get_free_page s) (\<lambda>page s.
         let s = upd_inode i (\<lambda>x. x\<lparr>i_size := page\<rparr>) s in
         if page = 0 then retK None (upd_inode i (\<lambda>x. x\<lparr>i_count := 0\<rparr>) s)
         else retK (Some i) (upd_inode i (\<lambda>x. x\<lparr>i_count := 2, i_zone := (i_zone x)(0 := 0, 1 := 0), i_pipe := True\<rparr>) s)))"

definition load_d_inode :: "d_inode \<Rightarrow> m_inode \<Rightarrow> m_inode" where
  "load_d_inode d x = x\<lparr>i_mode := i_mode d, i_uid := i_uid d, i_size := i_size d, i_mtime := i_mtime d,
     i_gid := i_gid d, i_nlinks := i_nlinks d, i_zone := i_zone d\<rparr>"

definition device_size :: "dev \<Rightarrow> fsys \<Rightarrow> u32" where
  "device_size d s = (case blk_size s (MAJOR d) of Some f \<Rightarrow> 1024 * f (MINOR d) | None \<Rightarrow> 0x7fffffff)"

definition read_inode :: "env \<Rightarrow> nat \<Rightarrow> fsys \<Rightarrow> unit fres" where
  "read_inode E i s =
     bindK (lock_inode E i s) (\<lambda>_ s.
       bindK (get_super E (i_dev (inodes s i)) s) (\<lambda>sb s.
         case sb of None \<Rightarrow> stopK (Panic ''trying to read inode without dev'') s
         | Some sb \<Rightarrow>
             bindK (bread E (i_dev (inodes s i)) (inode_block (supers s sb) (i_num (inodes s i))) s)
               (\<lambda>bh s. case bh of None \<Rightarrow> stopK (Panic ''unable to read i-node block'') s
                | Some b \<Rightarrow>
                    let s = upd_inode i (\<lambda>x. load_d_inode (get_d_inode (b_data (bufs s b)) (inode_slot (i_num x))) x) s
                    in bindK (brelse E (Some b) s) (\<lambda>_ s.
                      let x = inodes s i;
                          s = (if S_ISBLK (i_mode x)
                               then upd_inode i (\<lambda>x. x\<lparr>i_size := device_size (i_zone x 0) s\<rparr>) s else s)
                      in retK () (unlock_inode i s)))))"

text \<open>\<^verbatim>\<open>iget\<close>: one round for every time the search starts again from the top of the
  table, after a wait or when a mount point is crossed.\<close>

definition find_inode :: "dev \<Rightarrow> u16 \<Rightarrow> fsys \<Rightarrow> nat option" where
  "find_inode d num s = List.find (\<lambda>i. i_dev (inodes s i) = d \<and> i_num (inodes s i) = num) [0..<NR_INODE]"

definition find_mount :: "nat \<Rightarrow> fsys \<Rightarrow> nat option" where
  "find_mount i s = List.find (\<lambda>k. s_imount (supers s k) = Some i) [0..<NR_SUPER]"

primrec iget_rounds :: "nat \<Rightarrow> env \<Rightarrow> nat \<Rightarrow> dev \<Rightarrow> u16 \<Rightarrow> fsys \<Rightarrow> nat fres" where
  "iget_rounds 0 E fresh d num s = stopK (Sleeps ''iget'') s"
| "iget_rounds (Suc n) E fresh d num s =
     (case find_inode d num s of
        None \<Rightarrow>
          bindK (read_inode E fresh (upd_inode fresh (\<lambda>x. x\<lparr>i_dev := d, i_num := num\<rparr>) s)) (\<lambda>_ s. retK fresh s)
      | Some i \<Rightarrow>
          bindK (wait_on_inode E i s) (\<lambda>_ s.
            if i_dev (inodes s i) \<noteq> d \<or> i_num (inodes s i) \<noteq> num then iget_rounds n E fresh d num s
            else
              let s = upd_inode i (\<lambda>x. x\<lparr>i_count := i_count x + 1\<rparr>) s in
              if i_mount (inodes s i) then
                (case find_mount i s of
                   None \<Rightarrow> bindK (iput E (Some fresh) (fs_say ''Mounted inode hasn't got sb'' s)) (\<lambda>_ s. retK i s)
                 | Some k \<Rightarrow> bindK (iput E (Some i) s) (\<lambda>_ s. iget_rounds n E fresh (s_dev (supers s k)) ROOT_INO s))
              else bindK (iput E (Some fresh) s) (\<lambda>_ s. retK i s)))"

definition iget :: "env \<Rightarrow> dev \<Rightarrow> u16 \<Rightarrow> fsys \<Rightarrow> nat fres" where
  "iget E d num s =
     (if d = 0 then stopK (Panic ''iget with dev==0'') s
      else bindK (get_empty_inode E s) (\<lambda>fresh. iget_rounds (2 + rounds E) E fresh d num))"

definition new_inode :: "env \<Rightarrow> dev \<Rightarrow> fsys \<Rightarrow> nat option fres" where
  "new_inode E d s =
     bindK (get_empty_inode E s) (\<lambda>i s.
       bindK (get_super E d s) (\<lambda>sb s.
         case sb of None \<Rightarrow> stopK (Panic ''new_inode with unknown device'') s
         | Some k \<Rightarrow>
           let none = bindK (iput E (Some i) s) (\<lambda>_ s. retK None s) in
           (case find_map_bit (s_imap (supers s k)) s of
              None \<Rightarrow> none
            | Some (m, b, j) \<Rightarrow>
                if unat (s_ninodes (supers s k)) < j + m * 8192 then none
                else if bitmap_bit (b_data (bufs s b)) j then stopK (Panic ''new_inode: bit already set'') s
                else let s = mark_bit b j s; now = fs_time s; t = cur (kern s) in
                  retK (Some i) (upd_inode i (\<lambda>x. x\<lparr>i_count := 1, i_nlinks := 1, i_dev := d, i_uid := t_euid t,
                    i_gid := ucast (t_egid t), i_dirt := True, i_num := of_nat (j + m * 8192),
                    i_mtime := now, i_atime := now, i_ctime := now\<rparr>) s))))"

end
