(* ===== verification/Inode_Props.thy ===== *)
theory Inode_Props
  imports Inode Fs_Samples
begin

section \<open>Inodes on the disk\<close>

text \<open>
  What \<^verbatim>\<open>write_inode\<close> stores in a block, \<^verbatim>\<open>read_inode\<close> (\<^verbatim>\<open>fs/inode.c\<close>)
  gets back; inodes of different numbers do not touch each other.
\<close>

lemma bit_get16_at: "n < 16 \<Longrightarrow> bit (get16_at d a) n = (if n < 8 then bit (d a) n else bit (d (a + 1)) (n - 8))"
  by (auto simp: get16_at_def bit_simps dest: bit_imp_le_length)

lemma bytes_of_get16:
  "(ucast (get16_at d a) :: u8) = d a" "(ucast (drop_bit 8 (get16_at d a)) :: u8) = d (a + 1)"
  by (rule word_eqI_bits, simp add: bit_simps bit_get16_at)+

lemma put_get16_at [simp]: "put16_at a (get16_at d a) d = d"
  by (simp add: put16_at_def bytes_of_get16 fun_upd_idem)

lemma halves_of_get32:
  "(ucast (get32_at d a) :: u16) = get16_at d a" "(ucast (drop_bit 16 (get32_at d a)) :: u16) = get16_at d (a + 2)"
  by (rule word_eqI_bits, auto simp: get32_at_def bit_simps dest: bit_imp_le_length)+

lemma put_get32_at [simp]: "put32_at a (get32_at d a) d = d"
  by (simp add: put32_at_def halves_of_get32)

lemma put_zones_at:
  "b + 31 < a \<or> a < b + 14 \<Longrightarrow> put_zones b z d a = d a"
proof -
  assume a: "b + 31 < a \<or> a < b + 14"
  have "fold (\<lambda>j. put16_at (b + 14 + 2 * j) (z j)) [0..<n] d a = d a" if "n \<le> 9" for n
    using that a by (induction n) (auto simp: put16_at_def)
  then show ?thesis by (simp add: put_zones_def)
qed

lemma get16_at_cong: "d a = d' a \<Longrightarrow> d (a + 1) = d' (a + 1) \<Longrightarrow> get16_at d a = get16_at d' a"
  by (simp add: get16_at_def)

lemma get_put_zones: "j < 9 \<Longrightarrow> get16_at (put_zones b z d) (b + 14 + 2 * j) = z j"
proof -
  have "get16_at (fold (\<lambda>j. put16_at (b + 14 + 2 * j) (z j)) [0..<n] d) (b + 14 + 2 * j) = z j" if "j < n" for n j
    using that
  proof (induction n)
    case (Suc n)
    show ?case
    proof (cases "j = n")
      case False
      with Suc show ?thesis by (simp add: get_put16_other)
    qed simp
  qed simp
  then show "j < 9 \<Longrightarrow> get16_at (put_zones b z d) (b + 14 + 2 * j) = z j" by (simp only: put_zones_def)
qed

lemma put_zones_same: "put_zones b (\<lambda>j. if j < 9 then get16_at d (b + 14 + 2 * j) else 0) d = d"
proof -
  have "fold (\<lambda>j. put16_at (b + 14 + 2 * j) (if j < 9 then get16_at d (b + 14 + 2 * j) else 0)) [0..<n] d = d"
    if "n \<le> 9" for n
    using that by (induction n) auto
  then show ?thesis by (simp only: put_zones_def)
qed

lemma put_d_inode_elsewhere:
  "a < 32 * k \<or> 32 * k + 31 < a \<Longrightarrow> put_d_inode k x d a = d a"
  by (auto simp: put_d_inode_def Let_def put_zones_at put32_at_def put16_at_def)

lemma get_d_inode_cong:
  assumes "\<And>a. 32 * k \<le> a \<Longrightarrow> a \<le> 32 * k + 31 \<Longrightarrow> d a = d' a"
  shows "get_d_inode d k = get_d_inode d' k"
proof -
  have 16: "get16_at d a = get16_at d' a" if "32 * k \<le> a" "a < 32 * k + 31" for a
    using that by (intro get16_at_cong assms) auto
  then have 32: "get32_at d a = get32_at d' a" if "32 * k \<le> a" "a < 32 * k + 29" for a
    using that by (simp add: get32_at_def)
  show ?thesis by (simp add: get_d_inode_def Let_def 16 32 assms fun_eq_iff)
qed

lemma get_put_d_inode:
  "get_d_inode (put_d_inode k x d) k =
     \<lparr>i_mode = i_mode x, i_uid = i_uid x, i_size = i_size x, i_mtime = i_mtime x, i_gid = i_gid x,
      i_nlinks = i_nlinks x, i_zone = (\<lambda>j. if j < 9 then i_zone x j else 0)\<rparr>"
proof -
  define b where "b = 32 * k"
  define e where "e = (put32_at (b + 8) (i_mtime x) (put32_at (b + 4) (i_size x)
          (put16_at (b + 2) (i_uid x) (put16_at b (i_mode x) d)))) (b + 12 := i_gid x, b + 13 := i_nlinks x)"
  have z: "put_d_inode k x d = put_zones b (i_zone x) e" by (simp add: put_d_inode_def Let_def b_def e_def)
  have at: "put_zones b (i_zone x) e a = e a" if "a < b + 14" for a using that by (intro put_zones_at) simp
  have 16: "get16_at (put_zones b (i_zone x) e) a = get16_at e a" if "a < b + 13" for a
    using that by (intro get16_at_cong at) simp_all
  have 32: "get32_at (put_zones b (i_zone x) e) a = get32_at e a" if "a < b + 11" for a
    using that by (simp add: get32_at_def 16)
  have "get16_at e b = i_mode x" "get16_at e (b + 2) = i_uid x" "get32_at e (b + 4) = i_size x" "get32_at e (b + 8) = i_mtime x"
    by (rule word_eqI_bits; simp add: e_def get32_at_def get16_at_def put32_at_def put16_at_def bit_simps; auto dest: bit_imp_le_length)+
  moreover have "e (b + 12) = i_gid x" "e (b + 13) = i_nlinks x" by (simp_all add: e_def)
  ultimately show ?thesis
    unfolding get_d_inode_def Let_def z b_def[symmetric] using get_put_zones[of _ b "i_zone x" e]
    by (simp add: at 16 32 fun_eq_iff)
qed

lemma put_get_d_inode: "put_d_inode k (get_d_inode d k) d = d"
  using put_zones_same[of "32 * k" d]
  by (simp add: put_d_inode_def get_d_inode_def Let_def fun_upd_idem)

text \<open>C40. Inodes on the disk. Reading slot \<open>k\<close> of a block after an inode was written there gives the
  fields that are kept on the disk, with its nine zones; writing back what was read changes nothing;
  other slots of the block are not touched, and two inode numbers have the same block and slot only if
  they are the same.\<close>

theorem inode_block_roundtrip:
  "get_d_inode (put_d_inode k x d) k =
     \<lparr>i_mode = i_mode x, i_uid = i_uid x, i_size = i_size x, i_mtime = i_mtime x, i_gid = i_gid x,
      i_nlinks = i_nlinks x, i_zone = (\<lambda>j. if j < 9 then i_zone x j else 0)\<rparr> \<and>
   put_d_inode k (get_d_inode d k) d = d \<and>
   (k' \<noteq> k \<longrightarrow> get_d_inode (put_d_inode k x d) k' = get_d_inode d k') \<and>
   (n \<noteq> 0 \<and> n' \<noteq> 0 \<and> inode_block sb n = inode_block sb n' \<and> inode_slot n = inode_slot n' \<longrightarrow> n = n')"
proof (intro conjI impI)
  assume "k' \<noteq> k"
  then show "get_d_inode (put_d_inode k x d) k' = get_d_inode d k'"
    by (intro get_d_inode_cong put_d_inode_elsewhere) auto
next
  assume n: "n \<noteq> 0 \<and> n' \<noteq> 0 \<and> inode_block sb n = inode_block sb n' \<and> inode_slot n = inode_slot n'"
  then have "(unat n - 1) div 32 = (unat n' - 1) div 32" "(unat n - 1) mod 32 = (unat n' - 1) mod 32"
    by (simp_all add: inode_block_def inode_slot_def)
  then have "unat n - 1 = unat n' - 1" by (metis div_mult_mod_eq)
  moreover have "0 < unat n" "0 < unat n'" using n by (simp_all add: unat_gt_0)
  ultimately have "unat n = unat n'" by linarith
  then show "n = n'" by (simp add: word_unat_eq_iff)
qed (simp_all add: get_put_d_inode put_get_d_inode)

theorem inode_block_roundtrip_witness:
  "i_size (get_d_inode (put_d_inode 3 (zero_inode\<lparr>i_size := 70000\<rparr>) (\<lambda>_. 7)) 3) = 70000 \<and>
   get_d_inode (put_d_inode 3 (zero_inode\<lparr>i_size := 70000\<rparr>) (\<lambda>_. 7)) 4 = get_d_inode (\<lambda>_. 7) 4"
  using inode_block_roundtrip[of 3 "zero_inode\<lparr>i_size := 70000\<rparr>" "\<lambda>_. 7" 4 1 1 super0] by simp

end
