(* ===== verification/File_Io.thy ===== *)
theory File_Io
  imports Inode Tty_Ioctl
begin

section \<open>Pipes, files, devices, read and write\<close>

text \<open>
  \<^verbatim>\<open>fs/{pipe,file_dev,block_dev,char_dev,read_write}.c\<close>. The ring of a pipe is the page at
  \<^verbatim>\<open>i_size\<close> of its inode, with head and tail in the first two zones. A file position is a
  signed \<^verbatim>\<open>long\<close> (\<open>wrap\<close>); the routines that divide it are reached with positions that
  are not negative, which \<^verbatim>\<open>lseek\<close> sees to. \<open>verify_area\<close> is part of the memory model.
\<close>

definition wrap :: "int \<Rightarrow> int" where
  "wrap x = sint (of_int x :: u32)"

definition user_put :: "u8 list \<Rightarrow> u32 \<Rightarrow> fsys \<Rightarrow> fsys" where
  "user_put cs a = upd_kernel (put_fs_bytes cs a)"

definition user_get :: "nat \<Rightarrow> u32 \<Rightarrow> fsys \<Rightarrow> u8 list" where
  "user_get n a s = get_fs_bytes n a (kern s)"

text \<open>Bytes written into the data of a block.\<close>

definition blit :: "nat \<Rightarrow> u8 list \<Rightarrow> block_data \<Rightarrow> block_data" where
  "blit p cs d = (\<lambda>i. if p \<le> i \<and> i < p + length cs then cs ! (i - p) else d i)"

subsection \<open>Pipes\<close>

abbreviation (input) PAGE_SIZE :: nat where "PAGE_SIZE \<equiv> 4096"

definition PIPE_HEAD :: "nat \<Rightarrow> fsys \<Rightarrow> u16" where "PIPE_HEAD i s = i_zone (inodes s i) 0"
definition PIPE_TAIL :: "nat \<Rightarrow> fsys \<Rightarrow> u16" where "PIPE_TAIL i s = i_zone (inodes s i) 1"

definition PIPE_SIZE :: "nat \<Rightarrow> fsys \<Rightarrow> nat" where
  "PIPE_SIZE i s = unat ((PIPE_HEAD i s - PIPE_TAIL i s) AND 4095)"

definition PIPE_EMPTY :: "nat \<Rightarrow> fsys \<Rightarrow> bool" where
  "PIPE_EMPTY i s \<longleftrightarrow> PIPE_HEAD i s = PIPE_TAIL i s"

definition PIPE_FULL :: "nat \<Rightarrow> fsys \<Rightarrow> bool" where
  "PIPE_FULL i s \<longleftrightarrow> PIPE_SIZE i s = PAGE_SIZE - 1"

definition fs_pending :: "fsys \<Rightarrow> bool" where
  "fs_pending s \<longleftrightarrow> t_signal (cur (kern s)) AND NOT (t_blocked (cur (kern s))) \<noteq> 0"

definition ring_byte :: "nat \<Rightarrow> fsys \<Rightarrow> nat \<Rightarrow> u8" where
  "ring_byte i s k = page_byte (i_size (inodes s i)) (mem (pages s)) k"

definition put_page_byte :: "u32 \<Rightarrow> nat \<Rightarrow> u8 \<Rightarrow> memory \<Rightarrow> memory" where
  "put_page_byte p k v m =
     (let a = p + 4 * of_nat (k div 4); sh = 8 * (k mod 4) in
      m(a := (m a AND NOT (push_bit sh 0xff)) OR push_bit sh (ucast v)))"

definition put_ring :: "nat \<Rightarrow> nat \<Rightarrow> u8 list \<Rightarrow> fsys \<Rightarrow> fsys" where
  "put_ring i k cs s =
     s\<lparr>pages := (pages s)\<lparr>mem :=
        fold (\<lambda>j. put_page_byte (i_size (inodes s i)) (k + j) (cs ! j)) [0..<length cs] (mem (pages s))\<rparr>\<rparr>"

definition move_zone :: "nat \<Rightarrow> nat \<Rightarrow> nat \<Rightarrow> fsys \<Rightarrow> fsys" where
  "move_zone i z n =
     upd_inode i (\<lambda>x. x\<lparr>i_zone := (i_zone x)(z := (i_zone x z + of_nat n) AND 4095)\<rparr>)"

text \<open>One transfer: what the middle of the loops does once the pipe is not empty, or not full.\<close>

definition pipe_take :: "nat \<Rightarrow> u32 \<Rightarrow> nat \<Rightarrow> fsys \<Rightarrow> nat \<times> fsys" where
  "pipe_take i buf count s =
     (let t = unat (PIPE_TAIL i s); n = min (min (PAGE_SIZE - t) count) (PIPE_SIZE i s);
          s = move_zone i 1 n s
      in (n, user_put (map (\<lambda>j. ring_byte i s (t + j)) [0..<n]) buf s))"

definition pipe_give :: "nat \<Rightarrow> u32 \<Rightarrow> nat \<Rightarrow> fsys \<Rightarrow> nat \<times> fsys" where
  "pipe_give i buf count s =
     (let h = unat (PIPE_HEAD i s); n = min (min (PAGE_SIZE - h) count) (PAGE_SIZE - 1 - PIPE_SIZE i s);
          s = move_zone i 0 n s
      in (n, put_ring i h (user_get n buf s) s))"

primrec read_pipe_loop :: "nat \<Rightarrow> env \<Rightarrow> nat \<Rightarrow> u32 \<Rightarrow> nat \<Rightarrow> nat \<Rightarrow> fsys \<Rightarrow> int fres" where
  "read_pipe_loop 0 E i buf count done' s = stopK (Sleeps ''read_pipe'') s"
| "read_pipe_loop (Suc m) E i buf count done' s =
     (if count = 0 then retK (int done') (wake (i_wait2 (inodes s i)) s)
      else if PIPE_SIZE i s = 0 then
        let s = wake (i_wait2 (inodes s i)) s in
        if i_count (inodes s i) \<noteq> 2 then retK (int done') s
        else if fs_pending s then retK (if done' \<noteq> 0 then int done' else - ERESTARTSYS) s
        else bindK (sleep_once E s) (\<lambda>_. read_pipe_loop m E i buf count done')
      else let (n, s) = pipe_take i buf count s in
        read_pipe_loop m E i (buf + of_nat n) (count - n) (done' + n) s)"

definition read_pipe :: "env \<Rightarrow> nat \<Rightarrow> u32 \<Rightarrow> nat \<Rightarrow> fsys \<Rightarrow> int fres" where
  "read_pipe E i buf count = read_pipe_loop (Suc count + rounds E) E i buf count 0"

primrec write_pipe_loop :: "nat \<Rightarrow> env \<Rightarrow> nat \<Rightarrow> u32 \<Rightarrow> nat \<Rightarrow> nat \<Rightarrow> fsys \<Rightarrow> int fres" where
  "write_pipe_loop 0 E i buf count done' s = stopK (Sleeps ''write_pipe'') s"
| "write_pipe_loop (Suc m) E i buf count done' s =
     (if count = 0 then retK (int done') (wake (i_wait (inodes s i)) s)
      else if PIPE_SIZE i s = PAGE_SIZE - 1 then
        let s = wake (i_wait (inodes s i)) s in
        if i_count (inodes s i) \<noteq> 2
        then retK (if done' \<noteq> 0 then int done' else -1)
               (upd_kernel (upd_cur (\<lambda>t. t\<lparr>t_signal := t_signal t OR sigbit 13\<rparr>)) s)
        else bindK (sleep_once E s) (\<lambda>_. write_pipe_loop m E i buf count done')
      else let (n, s) = pipe_give i buf count s in
        write_pipe_loop m E i (buf + of_nat n) (count - n) (done' + n) s)"

definition write_pipe :: "env \<Rightarrow> nat \<Rightarrow> u32 \<Rightarrow> nat \<Rightarrow> fsys \<Rightarrow> int fres" where
  "write_pipe E i buf count = write_pipe_loop (Suc count + rounds E) E i buf count 0"

definition set_filp :: "nat \<Rightarrow> nat option \<Rightarrow> fsys \<Rightarrow> fsys" where
  "set_filp fd v s = s\<lparr>p_filp := (p_filp s)(me s := (p_filp s (me s))(fd := v))\<rparr>"

definition set_f_count :: "nat \<Rightarrow> u16 \<Rightarrow> fsys \<Rightarrow> fsys" where
  "set_f_count f v = upd_file f (\<lambda>x. x\<lparr>f_count := v\<rparr>)"

definition sys_pipe :: "env \<Rightarrow> u32 \<Rightarrow> fsys \<Rightarrow> int fres" where
  "sys_pipe E fildes s =
     (case filter (\<lambda>f. f_count (files s f) = 0) [0..<NR_FILE] of
        f0 # f1 # _ \<Rightarrow>
          let s = set_f_count f1 1 (set_f_count f0 1 s) in
          (case filter (\<lambda>d. p_filp s (me s) d = None) [0..<NR_OPEN] of
             d0 # d1 # _ \<Rightarrow>
               let s = set_filp d1 (Some f1) (set_filp d0 (Some f0) s) in
               bindK (get_pipe_inode E s) (\<lambda>r s.
                 case r of
                   None \<Rightarrow> retK (-1) (set_f_count f1 0 (set_f_count f0 0 (set_filp d1 None (set_filp d0 None s))))
                 | Some i \<Rightarrow>
                     let s = upd_file f0 (\<lambda>x. x\<lparr>f_inode := Some i, f_pos := 0, f_mode := 1\<rparr>) s;
                         s = upd_file f1 (\<lambda>x. x\<lparr>f_inode := Some i, f_pos := 0, f_mode := 2\<rparr>) s
                     in retK 0 (upd_kernel (put_fs_long (of_nat d1) (fildes + 4) \<circ> put_fs_long (of_nat d0) fildes) s))
           | _ \<Rightarrow> retK (-1) (set_f_count f1 0 (set_f_count f0 0 s)))
      | _ \<Rightarrow> retK (-1) s)"

definition pipe_ioctl :: "nat \<Rightarrow> u32 \<Rightarrow> u32 \<Rightarrow> fsys \<Rightarrow> int \<times> fsys" where
  "pipe_ioctl i cmd arg s =
     (if cmd = 0x541B then (0, upd_kernel (put_fs_long (of_nat (PIPE_SIZE i s)) arg) s) else (- EINVAL, s))"

subsection \<open>Regular files\<close>

definition set_pos :: "nat \<Rightarrow> int \<Rightarrow> fsys \<Rightarrow> fsys" where
  "set_pos f v = upd_file f (\<lambda>x. x\<lparr>f_pos := v\<rparr>)"

primrec file_read_loop :: "nat \<Rightarrow> env \<Rightarrow> nat \<Rightarrow> nat \<Rightarrow> u32 \<Rightarrow> nat \<Rightarrow> fsys \<Rightarrow> nat fres" where
  "file_read_loop 0 E i f buf left s = retK left s"
| "file_read_loop (Suc m) E i f buf left s =
     (if left = 0 then retK 0 s
      else bindK (bmap E i (f_pos (files s f) div 1024) s) (\<lambda>nr s.
        bindK (if nr = 0 then retK (True, None) s
               else bindK (bread E (i_dev (inodes s i)) nr s) (\<lambda>bh s. retK (bh \<noteq> None, bh) s)) (\<lambda>(go, bh) s.
          if \<not> go then retK left s
          else
            let pos = f_pos (files s f); o' = nat (pos mod 1024); n = min (BLOCK_SIZE - o') left;
                s = set_pos f (pos + int n) s
            in bindK (case bh of None \<Rightarrow> retK () (user_put (replicate n 0) buf s)
                      | Some b \<Rightarrow> brelse E (Some b)
                          (user_put (map (\<lambda>j. b_data (bufs s b) (o' + j)) [0..<n]) buf s))
                 (\<lambda>_. file_read_loop m E i f (buf + of_nat n) (left - n)))))"

definition file_read :: "env \<Rightarrow> nat \<Rightarrow> nat \<Rightarrow> u32 \<Rightarrow> int \<Rightarrow> fsys \<Rightarrow> int fres" where
  "file_read E i f buf count s =
     (if count \<le> 0 then retK 0 s
      else bindK (file_read_loop (Suc (nat count)) E i f buf (nat count) s) (\<lambda>left s.
        retK (if nat count \<noteq> left then count - int left else - ERROR)
          (upd_inode i (\<lambda>x. x\<lparr>i_atime := fs_time s\<rparr>) s)))"

text \<open>The loop of \<^verbatim>\<open>file_write\<close>: the position and the number of bytes written.\<close>

primrec file_write_loop :: "nat \<Rightarrow> env \<Rightarrow> nat \<Rightarrow> int \<Rightarrow> u32 \<Rightarrow> nat \<Rightarrow> nat \<Rightarrow> fsys \<Rightarrow> (int \<times> nat) fres" where
  "file_write_loop 0 E i pos buf left done' s = retK (pos, done') s"
| "file_write_loop (Suc m) E i pos buf left done' s =
     (if left = 0 then retK (pos, done') s
      else bindK (create_block E i (pos div 1024) s) (\<lambda>block s.
        if block = 0 then retK (pos, done') s
        else bindK (bread E (i_dev (inodes s i)) block s) (\<lambda>bh s.
          case bh of None \<Rightarrow> retK (pos, done') s
          | Some b \<Rightarrow>
              let o' = nat (pos mod 1024); n = min (BLOCK_SIZE - o') left; pos = pos + int n;
                  s = upd_buf b (\<lambda>h. h\<lparr>b_dirt := True\<rparr>) s;
                  s = (if uint (i_size (inodes s i)) < pos
                       then upd_inode i (\<lambda>x. x\<lparr>i_size := of_int pos, i_dirt := True\<rparr>) s else s);
                  s = upd_buf b (\<lambda>h. h\<lparr>b_data := blit o' (user_get n buf s) (b_data h)\<rparr>) s
              in bindK (brelse E (Some b) s)
                   (\<lambda>_. file_write_loop m E i pos (buf + of_nat n) (left - n) (done' + n)))))"

definition file_write :: "env \<Rightarrow> nat \<Rightarrow> nat \<Rightarrow> u32 \<Rightarrow> nat \<Rightarrow> fsys \<Rightarrow> int fres" where
  "file_write E i f buf count s =
     (let append = f_flags (files s f) AND 0x400 \<noteq> 0;
          pos = (if append then uint (i_size (inodes s i)) else f_pos (files s f))
      in bindK (file_write_loop (Suc count) E i pos buf count 0 s) (\<lambda>(pos, n) s.
           let s = upd_inode i (\<lambda>x. x\<lparr>i_mtime := fs_time s\<rparr>) s;
               s = (if f_flags (files s f) AND 0x400 = 0
                    then upd_inode i (\<lambda>x. x\<lparr>i_ctime := fs_time s\<rparr>) (set_pos f pos s) else s)
           in retK (if n \<noteq> 0 then int n else -1) s))"

subsection \<open>Block devices\<close>

definition dev_blocks :: "dev \<Rightarrow> fsys \<Rightarrow> int" where
  "dev_blocks d s = (case blk_size s (MAJOR d) of Some f \<Rightarrow> sint (f (MINOR d)) | None \<Rightarrow> 0x7fffffff)"

primrec block_write_loop :: "nat \<Rightarrow> env \<Rightarrow> dev \<Rightarrow> nat \<Rightarrow> int \<Rightarrow> nat \<Rightarrow> nat \<Rightarrow> u32 \<Rightarrow> nat \<Rightarrow> nat \<Rightarrow> fsys \<Rightarrow> int fres" where
  "block_write_loop 0 E d f limit block o' buf left done' s = retK (int done') s"
| "block_write_loop (Suc m) E d f limit block o' buf left done' s =
     (if left = 0 then retK (int done') s
      else if limit \<le> int block then retK (if done' \<noteq> 0 then int done' else - EIO) s
      else let n = min (BLOCK_SIZE - o') left in
        bindK (if n = BLOCK_SIZE then bindK (getblk E d block s) (\<lambda>b s. retK (Some b) s)
               else breada E d block [block + 1, block + 2] s) (\<lambda>bh s.
          case bh of None \<Rightarrow> retK (if done' \<noteq> 0 then int done' else - EIO) s
          | Some b \<Rightarrow>
              let s = set_pos f (f_pos (files s f) + int n) s;
                  s = upd_buf b (\<lambda>h. h\<lparr>b_data := blit o' (user_get n buf s) (b_data h), b_dirt := True\<rparr>) s
              in bindK (brelse E (Some b) s)
                   (\<lambda>_. block_write_loop m E d f limit (block + 1) 0 (buf + of_nat n) (left - n) (done' + n))))"

definition block_write :: "env \<Rightarrow> dev \<Rightarrow> nat \<Rightarrow> u32 \<Rightarrow> nat \<Rightarrow> fsys \<Rightarrow> int fres" where
  "block_write E d f buf count s =
     (let pos = nat (f_pos (files s f)) in
      block_write_loop (Suc count) E d f (dev_blocks d s) (pos div 1024) (pos mod 1024) buf count 0 s)"

primrec block_read_loop :: "nat \<Rightarrow> env \<Rightarrow> dev \<Rightarrow> nat \<Rightarrow> int \<Rightarrow> nat \<Rightarrow> nat \<Rightarrow> u32 \<Rightarrow> nat \<Rightarrow> nat \<Rightarrow> fsys \<Rightarrow> int fres" where
  "block_read_loop 0 E d f limit block o' buf left done' s = retK (int done') s"
| "block_read_loop (Suc m) E d f limit block o' buf left done' s =
     (if left = 0 then retK (int done') s
      else if limit \<le> int block then retK (if done' \<noteq> 0 then int done' else - EIO) s
      else let n = min (BLOCK_SIZE - o') left in
        bindK (breada E d block [block + 1, block + 2] s) (\<lambda>bh s.
          case bh of None \<Rightarrow> retK (if done' \<noteq> 0 then int done' else - EIO) s
          | Some b \<Rightarrow>
              let s = set_pos f (f_pos (files s f) + int n) s;
                  s = user_put (map (\<lambda>j. b_data (bufs s b) (o' + j)) [0..<n]) buf s
              in bindK (brelse E (Some b) s)
                   (\<lambda>_. block_read_loop m E d f limit (block + 1) 0 (buf + of_nat n) (left - n) (done' + n))))"

definition block_read :: "env \<Rightarrow> dev \<Rightarrow> nat \<Rightarrow> u32 \<Rightarrow> nat \<Rightarrow> fsys \<Rightarrow> int fres" where
  "block_read E d f buf count s =
     (let pos = nat (f_pos (files s f)) in
      block_read_loop (Suc count) E d f (dev_blocks d s) (pos div 1024) (pos mod 1024) buf count 0 s)"

subsection \<open>Character devices\<close>

definition rw_ttyx :: "env \<Rightarrow> rw_cmd \<Rightarrow> nat \<Rightarrow> u32 \<Rightarrow> nat \<Rightarrow> fsys \<Rightarrow> int fres" where
  "rw_ttyx E rw minor buf count =
     on_tty (if rw = READ then tty_read (term_env E) minor buf count else tty_write (term_env E) minor buf count)"

definition rw_tty :: "env \<Rightarrow> rw_cmd \<Rightarrow> u32 \<Rightarrow> nat \<Rightarrow> fsys \<Rightarrow> int fres" where
  "rw_tty E rw buf count s =
     (let t = t_tty (cur (kern s)) in
      if t < 0 then retK (- EPERM) s else rw_ttyx E rw (nat t) buf count s)"

primrec port_loop :: "nat \<Rightarrow> env \<Rightarrow> rw_cmd \<Rightarrow> u32 \<Rightarrow> int \<Rightarrow> fsys \<Rightarrow> int \<times> fsys" where
  "port_loop 0 E rw buf i s = (i, s)"
| "port_loop (Suc n) E rw buf i s =
     (if 65536 \<le> i then (i, s)
      else port_loop n E rw (buf + 1) (i + 1)
        (if rw = READ then user_put [in_port (term_env E) (of_int i) \<lparr>tk = kern s, tt = ttys s\<rparr>] buf s
         else upd_kernel (emit (Outb (get_fs_byte buf (kern s)) (of_int i))) s))"

definition rw_port :: "env \<Rightarrow> rw_cmd \<Rightarrow> u32 \<Rightarrow> nat \<Rightarrow> nat \<Rightarrow> fsys \<Rightarrow> int \<times> fsys" where
  "rw_port E rw buf count f s =
     (let pos = f_pos (files s f); (i, s) = port_loop count E rw buf pos s; n = i - pos
      in (n, set_pos f (f_pos (files s f) + n) s))"

definition rw_memory :: "env \<Rightarrow> rw_cmd \<Rightarrow> nat \<Rightarrow> u32 \<Rightarrow> nat \<Rightarrow> nat \<Rightarrow> fsys \<Rightarrow> int fres" where
  "rw_memory E rw minor buf count f s =
     (if minor = 3 then retK (if rw = READ then 0 else int count) s
      else if minor = 4 then (case rw_port E rw buf count f s of (r, s) \<Rightarrow> retK r s)
      else retK (- EIO) s)"

definition rw_char :: "env \<Rightarrow> rw_cmd \<Rightarrow> dev \<Rightarrow> u32 \<Rightarrow> nat \<Rightarrow> nat \<Rightarrow> fsys \<Rightarrow> int fres" where
  "rw_char E rw d buf count f s =
     (if MAJOR d = 1 then rw_memory E rw (MINOR d) buf count f s
      else if MAJOR d = 4 then rw_ttyx E rw (MINOR d) buf count s
      else if MAJOR d = 5 then rw_tty E rw buf count s
      else retK (- ENODEV) s)"

subsection \<open>System calls\<close>

definition fd_file :: "nat \<Rightarrow> fsys \<Rightarrow> nat option" where
  "fd_file fd s = (if NR_OPEN \<le> fd then None else p_filp s (me s) fd)"

definition sys_lseek :: "nat \<Rightarrow> int \<Rightarrow> int \<Rightarrow> fsys \<Rightarrow> int \<times> fsys" where
  "sys_lseek fd offset origin s =
     (case fd_file fd s of None \<Rightarrow> (- EBADF, s)
      | Some f \<Rightarrow>
        (case f_inode (files s f) of None \<Rightarrow> (- EBADF, s)
         | Some i \<Rightarrow>
           let x = inodes s i; m = MAJOR (i_dev x); pos = f_pos (files s f) in
           if m < 1 \<or> 3 < m then (- EBADF, s)
           else if i_pipe x then (- ESPIPE, s)
           else
             let go = (\<lambda>v. if v < 0 then (- EINVAL, s) else (v, set_pos f v s)) in
             if origin = 0 then go offset
             else if origin = 1 then go (wrap (pos + offset))
             else if origin = 2 then go (wrap (uint (i_size x) + offset))
             else (- EINVAL, s)))"

definition sys_read :: "env \<Rightarrow> nat \<Rightarrow> u32 \<Rightarrow> int \<Rightarrow> fsys \<Rightarrow> int fres" where
  "sys_read E fd buf count s =
     (if count < 0 then retK (- EINVAL) s
      else case fd_file fd s of None \<Rightarrow> retK (- EINVAL) s
      | Some f \<Rightarrow>
        if count = 0 then retK 0 s
        else (case f_inode (files s f) of None \<Rightarrow> stopK (Wild ''sys_read: no inode'') s
          | Some i \<Rightarrow>
            let x = inodes s i; m = i_mode x; n = nat count in
            if i_pipe x then (if f_mode (files s f) AND 1 \<noteq> 0 then read_pipe E i buf n s else retK (- EIO) s)
            else if S_ISCHR m then rw_char E READ (i_zone x 0) buf n f s
            else if S_ISBLK m then block_read E (i_zone x 0) f buf n s
            else if S_ISDIR m \<or> S_ISREG m then
              let pos = f_pos (files s f);
                  count = (if uint (i_size x) < count + pos then wrap (uint (i_size x) - pos) else count)
              in if count \<le> 0 then retK 0 s else file_read E i f buf count s
            else retK (- EINVAL) (fs_say ''(Read)inode->i_mode'' s)))"

definition sys_write :: "env \<Rightarrow> nat \<Rightarrow> u32 \<Rightarrow> int \<Rightarrow> fsys \<Rightarrow> int fres" where
  "sys_write E fd buf count s =
     (if count < 0 then retK (- EINVAL) s
      else case fd_file fd s of None \<Rightarrow> retK (- EINVAL) s
      | Some f \<Rightarrow>
        if count = 0 then retK 0 s
        else (case f_inode (files s f) of None \<Rightarrow> stopK (Wild ''sys_write: no inode'') s
          | Some i \<Rightarrow>
            let x = inodes s i; m = i_mode x; n = nat count in
            if i_pipe x then (if f_mode (files s f) AND 2 \<noteq> 0 then write_pipe E i buf n s else retK (- EIO) s)
            else if S_ISCHR m then rw_char E WRITE (i_zone x 0) buf n f s
            else if S_ISBLK m then block_write E (i_zone x 0) f buf n s
            else if S_ISREG m then file_write E i f buf n s
            else retK (- EINVAL) (fs_say ''(Write)inode->i_mode'' s)))"

end
