(* ===== verification/Ring_Buffer.thy ===== *)
theory Ring_Buffer
  imports Interfaces
begin

section \<open>Ring buffers and streams\<close>

text \<open>
  The queues of a terminal and the page of a pipe are rings: an array of \<open>2 ^ k\<close> bytes with a
  head and a tail that wrap by masking. \<open>ring_items\<close> is the list such a ring holds. What goes in
  comes out, in order: this is the contract \<open>stream\<close> of a component that bytes are put into and
  taken from, piece by piece, which both rings fulfil.
\<close>

subsection \<open>The list in a ring\<close>

definition ring_items :: "nat \<Rightarrow> (nat \<Rightarrow> 'a) \<Rightarrow> nat \<Rightarrow> nat \<Rightarrow> 'a list" where
  "ring_items N f t n = map (\<lambda>j. f ((t + j) mod N)) [0..<n]"

lemma ring_items_0 [simp]: "ring_items N f t 0 = []"
  by (simp add: ring_items_def)

lemma length_ring_items [simp]: "length (ring_items N f t n) = n"
  by (simp add: ring_items_def)

lemma ring_items_add: "ring_items N f t (m + n) = ring_items N f t m @ ring_items N f ((t + m) mod N) n"
  by (rule nth_equalityI) (auto simp: ring_items_def nth_append mod_add_left_eq)

lemma ring_items_Suc: "ring_items N f t (Suc n) = ring_items N f t n @ [f ((t + n) mod N)]"
  by (simp add: ring_items_def)

lemma ring_items_1: "ring_items N f t (Suc 0) = [f (t mod N)]"
  by (simp add: ring_items_def)

lemma ring_items_cong:
  "(\<And>j. j < n \<Longrightarrow> f ((t + j) mod N) = g ((t + j) mod N)) \<Longrightarrow> ring_items N f t n = ring_items N g t n"
  by (simp add: ring_items_def)

lemma ring_items_straight: "t + n \<le> N \<Longrightarrow> ring_items N f t n = map (\<lambda>j. f (t + j)) [0..<n]"
  by (simp add: ring_items_def)

lemma mod_inj_le:
  assumes "i \<le> j" "j < N" "(t + i) mod N = (t + j) mod (N :: nat)"
  shows "i = j"
proof -
  have "N dvd (t + j) - (t + i)"
    using assms(1,3) mod_eq_dvd_iff_nat[of "t + i" "t + j" N] by simp
  then have "N dvd j - i" by simp
  then have "j - i = 0" using assms(2) nat_dvd_not_less[of "j - i" N] by (cases "j - i = 0") auto
  with assms(1) show ?thesis by simp
qed

lemma mod_inj_small: "i < N \<Longrightarrow> j < N \<Longrightarrow> (t + i) mod N = (t + j) mod (N :: nat) \<Longrightarrow> i = j"
  using mod_inj_le[of i j N t] mod_inj_le[of j i N t] by (cases "i \<le> j") auto

text \<open>Sizes, heads and tails: masking a word is arithmetic modulo the size of the ring.\<close>

lemma unat_and_mask: "unat ((w :: 'a::len word) AND mask k) = unat w mod 2 ^ k"
  by (simp only: take_bit_eq_mask[symmetric] unsigned_take_bit_eq) (rule take_bit_eq_mod)

lemma ring_size:
  fixes h t :: "'a::len word"
  assumes "k \<le> LENGTH('a)" "unat h < 2 ^ k" "unat t < 2 ^ k"
  shows "unat ((h - t) AND mask k) = (unat h + 2 ^ k - unat t) mod 2 ^ k"
proof -
  let ?L = "LENGTH('a)" and ?n = "unat h + 2 ^ LENGTH('a) - unat t"
  have le: "(2 :: nat) ^ k \<le> 2 ^ ?L" using assms(1) by simp
  have t: "unat t \<le> unat h + 2 ^ ?L" using assms(3) le by linarith
  have "h - t = of_nat ?n" using t by (simp add: of_nat_diff)
  then have "unat ((h - t) AND mask k) = ?n mod 2 ^ ?L mod 2 ^ k"
    unfolding unat_and_mask by (simp add: unat_of_nat)
  also have "\<dots> = ?n mod 2 ^ k" using assms(1) by (intro mod_mod_cancel le_imp_power_dvd)
  also have "?n = (unat h + 2 ^ k - unat t) + (2 ^ ?L - 2 ^ k)" using assms(3) le by linarith
  also have "\<dots> mod 2 ^ k = (unat h + 2 ^ k - unat t) mod 2 ^ k"
  proof -
    have "(2 :: nat) ^ k dvd 2 ^ ?L - 2 ^ k" using assms(1) by (simp add: le_imp_power_dvd dvd_diff_nat)
    then obtain q where "(2 :: nat) ^ ?L - 2 ^ k = 2 ^ k * q" by blast
    then show ?thesis by simp
  qed
  finally show ?thesis .
qed

lemma ring_advance:
  fixes h :: "'a::len word"
  assumes "k < LENGTH('a)" "unat h < 2 ^ k" "n \<le> 2 ^ k"
  shows "unat ((h + of_nat n) AND mask k) = (unat h + n) mod 2 ^ k"
proof -
  have "2 ^ k * 2 \<le> (2 :: nat) ^ LENGTH('a)"
    using assms(1) power_increasing[of "Suc k" "LENGTH('a)" "2 :: nat"] by simp
  then have "unat h + n < 2 ^ LENGTH('a)" "n < 2 ^ LENGTH('a)" using assms(2,3) by linarith+
  then have "unat (h + of_nat n) = unat h + n"
    by (simp add: unat_word_ariths unat_of_nat)
  then show ?thesis by (simp add: unat_and_mask)
qed

lemma unat_and_mask_less: "unat ((w :: 'a::len word) AND mask k) < 2 ^ k"
  by (simp add: unat_and_mask)

subsection \<open>Streams\<close>

text \<open>
  \<open>gives q xs q'\<close>: the pieces \<open>xs\<close> are put in, and \<open>q\<close> becomes \<open>q'\<close>; \<open>takes q xs q'\<close>: the
  pieces \<open>xs\<close> are taken out. A history is any interleaving of the two.
\<close>

inductive history :: "('q \<Rightarrow> 'a list \<Rightarrow> 'q \<Rightarrow> bool) \<Rightarrow> ('q \<Rightarrow> 'a list \<Rightarrow> 'q \<Rightarrow> bool) \<Rightarrow>
    'q \<Rightarrow> 'a list \<Rightarrow> 'a list \<Rightarrow> 'q \<Rightarrow> bool" for gives takes where
  start: "history gives takes q [] [] q"
| give: "history gives takes q xs ys r \<Longrightarrow> gives r zs s \<Longrightarrow> history gives takes q (xs @ zs) ys s"
| take: "history gives takes q xs ys r \<Longrightarrow> takes r zs s \<Longrightarrow> history gives takes q xs (ys @ zs) s"

locale stream =
  fixes gives takes :: "'q \<Rightarrow> 'a list \<Rightarrow> 'q \<Rightarrow> bool" and items :: "'q \<Rightarrow> 'a list" and ok :: "'q \<Rightarrow> bool"
  assumes gives_items: "ok q \<Longrightarrow> gives q xs q' \<Longrightarrow> items q' = items q @ xs"
    and gives_ok: "ok q \<Longrightarrow> gives q xs q' \<Longrightarrow> ok q'"
    and takes_items: "ok q \<Longrightarrow> takes q xs q' \<Longrightarrow> items q = xs @ items q'"
    and takes_ok: "ok q \<Longrightarrow> takes q xs q' \<Longrightarrow> ok q'"
begin

lemma fifo:
  assumes "history gives takes q xs ys q'" "ok q"
  shows "ok q' \<and> items q @ xs = ys @ items q'"
  using assms
proof induction
  case (give q xs ys r zs s)
  then show ?case using gives_items gives_ok by (metis append.assoc)
next
  case (take q xs ys r zs s)
  then show ?case using takes_items takes_ok by (metis append.assoc)
qed simp

text \<open>What is taken from an empty stream is a prefix of what was put in.\<close>

lemma fifo_prefix: "history gives takes q xs ys q' \<Longrightarrow> ok q \<Longrightarrow> items q = [] \<Longrightarrow> ys = take (length ys) xs"
  by (metis append_Nil append_eq_conv_conj fifo)

end

end
