(* ===== verification/Pipe_Props.thy ===== *)
theory Pipe_Props
  imports File_Io Ring_Buffer Fs_Samples
begin

section \<open>A pipe is a stream\<close>

text \<open>
  The transfers of \<^verbatim>\<open>read_pipe\<close> and \<^verbatim>\<open>write_pipe\<close> (\<^verbatim>\<open>fs/pipe.c\<close>) on
  the ring in a pipe's page, and the copying to and from user space they end in.
\<close>

declare bit_numeral_word_iff [simp del]

subsection \<open>Bytes of a page\<close>

lemma of_nat_page_inj: "i < 1024 \<Longrightarrow> j < 1024 \<Longrightarrow> (of_nat i :: u32) * 4 = of_nat j * 4 \<longleftrightarrow> i = j"
proof -
  assume ij: "i < 1024" "j < 1024"
  have u: "unat (of_nat n * 4 :: u32) = n * 4" if "n < 1024" for n
    using that by (simp add: unat_word_ariths unat_of_nat)
  show ?thesis
  proof
    assume "(of_nat i :: u32) * 4 = of_nat j * 4"
    then have "i * 4 = j * 4" using u[OF ij(1)] u[OF ij(2)] by metis
    then show "i = j" by simp
  qed simp
qed

lemma byte_of_long:
  fixes w :: u32 and v :: u8
  assumes "a < 4" "b < 4"
  shows "ucast (drop_bit (8 * a) ((w AND NOT (push_bit (8 * b) 0xff)) OR push_bit (8 * b) (ucast v))) =
    (if a = b then v else (ucast (drop_bit (8 * a) w) :: u8))"
proof (rule word_eqI_bits)
  fix n assume "n < LENGTH(8)"
  then have n: "n < 8" by simp
  have ff: "bit (0xff :: u32) m \<longleftrightarrow> m < 8" for m
  proof -
    have eq: "(0xff :: u32) = mask 8" by (simp add: mask_eq_exp_minus_1)
    show ?thesis unfolding eq bit_mask_iff by auto
  qed
  have "8 * a + n < 32" using assms(1) n by simp
  moreover have "8 * b \<le> 8 * a + n \<and> 8 * a + n - 8 * b < 8 \<longleftrightarrow> a = b" using n by auto
  moreover have "\<not> bit v (8 * a + n - 8 * b)" if "8 * b \<le> 8 * a + n" "a \<noteq> b"
    using that n by (intro impossible_bit) simp
  ultimately show "bit (ucast (drop_bit (8 * a) ((w AND NOT (push_bit (8 * b) 0xff)) OR push_bit (8 * b) (ucast v))) :: u8) n =
    bit (if a = b then v else (ucast (drop_bit (8 * a) w) :: u8)) n"
    using n by (auto simp: bit_simps ff)
qed

lemma page_byte_put:
  assumes "k < 4096" "j < 4096"
  shows "page_byte p (put_page_byte p k v m) j = (if j = k then v else page_byte p m j)"
proof -
  have d: "k div 4 < 1024" "j div 4 < 1024" "k mod 4 < 4" "j mod 4 < 4" using assms by (simp_all add: less_mult_imp_div_less)
  have eq: "j = k \<longleftrightarrow> j div 4 = k div 4 \<and> j mod 4 = k mod 4" by (metis div_mult_mod_eq)
  have "p + 4 * of_nat (j div 4) = p + 4 * of_nat (k div 4) \<longleftrightarrow> j div 4 = k div 4"
    using of_nat_page_inj[OF d(2,1)] by (simp add: mult.commute)
  then show ?thesis
    unfolding page_byte_def put_page_byte_def Let_def fun_upd_apply
    using byte_of_long[OF d(4,3), of "m (p + 4 * of_nat (k div 4))" v] eq
    by (cases "j div 4 = k div 4") (simp_all only: if_True if_False refl simp_thms)
qed

lemma put_ring_frame [simp]:
  "inodes (put_ring i k cs s) = inodes s" "kern (put_ring i k cs s) = kern s"
  by (simp_all add: put_ring_def)

lemma ring_byte_put_ring:
  assumes "k + length cs \<le> 4096" "j < 4096"
  shows "ring_byte i (put_ring i k cs s) j = (if k \<le> j \<and> j < k + length cs then cs ! (j - k) else ring_byte i s j)"
proof -
  let ?p = "i_size (inodes s i)"
  have "page_byte ?p (fold (\<lambda>j. put_page_byte ?p (k + j) (cs ! j)) [0..<n] m) j =
      (if k \<le> j \<and> j < k + n then cs ! (j - k) else page_byte ?p m j)" if "n \<le> length cs" for n m
    using that
  proof (induction n)
    case (Suc n)
    then show ?case using assms by (auto simp: page_byte_put)
  qed auto
  then show ?thesis by (simp add: ring_byte_def put_ring_def)
qed

subsection \<open>Bytes of user space\<close>

lemma umem_put_fs_bytes:
  "length cs \<le> 2 ^ 32 \<Longrightarrow>
   umem (put_fs_bytes cs a k) x = (if unat (x - a) < length cs then cs ! unat (x - a) else umem k x)"
proof (induction cs arbitrary: a k)
  case (Cons c cs)
  then have ih: "umem (put_fs_bytes (c # cs) a k) x =
      (if unat (x - (a + 1)) < length cs then cs ! unat (x - (a + 1)) else ((umem k)(a := c)) x)"
    by (simp add: put_fs_byte_def)
  show ?case
  proof (cases "x = a")
    case True
    have "unat (-1 :: u32) = 2 ^ 32 - 1" by (simp only: unsigned_minus_1_eq_mask mask_eq_exp_minus_1) simp
    then have "\<not> unat (x - (a + 1)) < length cs" using True Cons.prems by simp
    then show ?thesis using ih True by simp
  next
    case False
    then have "x - a \<noteq> 0" by simp
    then have "unat (x - a) = Suc (unat (x - a - 1))" using unat_minus_one[of "x - a"]
      by (simp add: unat_gt_0)
    then have "unat (x - a) = Suc (unat (x - (a + 1)))" by (simp add: diff_diff_eq)
    then show ?thesis unfolding ih using False by simp
  qed
qed simp

lemma get_put_fs_bytes:
  assumes "length cs \<le> 2 ^ 32"
  shows "get_fs_bytes (length cs) a (put_fs_bytes cs a k) = cs"
proof (rule nth_equalityI)
  fix i assume i: "i < length (get_fs_bytes (length cs) a (put_fs_bytes cs a k))"
  then have "unat (of_nat i :: u32) = i" using assms by (simp add: get_fs_bytes_def unat_of_nat)
  with i show "get_fs_bytes (length cs) a (put_fs_bytes cs a k) ! i = cs ! i"
    by (simp add: get_fs_bytes_def get_fs_byte_def umem_put_fs_bytes[OF assms])
qed (simp add: get_fs_bytes_def)

subsection \<open>The transfers\<close>

definition pipe_ok :: "nat \<Rightarrow> fsys \<Rightarrow> bool" where
  "pipe_ok i s \<longleftrightarrow> unat (PIPE_HEAD i s) < 4096 \<and> unat (PIPE_TAIL i s) < 4096"

text \<open>The bytes in the pipe.\<close>

definition pipe_items :: "nat \<Rightarrow> fsys \<Rightarrow> u8 list" where
  "pipe_items i s = ring_items 4096 (ring_byte i s) (unat (PIPE_TAIL i s)) (PIPE_SIZE i s)"

lemma mask_12: "(4095 :: 'a::len word) = mask 12"
  by (simp add: mask_eq_exp_minus_1)

lemma PIPE_SIZE_eq:
  "pipe_ok i s \<Longrightarrow> PIPE_SIZE i s = (unat (PIPE_HEAD i s) + 4096 - unat (PIPE_TAIL i s)) mod 4096"
  using ring_size[of 12 "PIPE_HEAD i s" "PIPE_TAIL i s"] by (simp add: PIPE_SIZE_def pipe_ok_def mask_12)

lemma advance_12: "unat (h :: u16) < 4096 \<Longrightarrow> n \<le> 4096 \<Longrightarrow> unat ((h + of_nat n) AND 4095) = (unat h + n) mod 4096"
  using ring_advance[of 12 h n] by (simp add: mask_12)

lemma ring_dist: "t < 4096 \<Longrightarrow> h < 4096 \<Longrightarrow> (h + 4096 - t) mod 4096 = (if t \<le> h then h - t else h + 4096 - (t :: nat))"
proof (cases "t \<le> h")
  case True
  assume h: "h < 4096"
  have "h + 4096 - t = (h - t) + 4096" using True by simp
  then have "(h + 4096 - t) mod 4096 = (h - t) mod 4096" by (simp only: mod_add_self2)
  with True h show ?thesis by simp
qed simp

lemma PIPE_SIZE_less: "PIPE_SIZE i s \<le> 4095"
  using unat_and_mask_less[of "PIPE_HEAD i s - PIPE_TAIL i s" 12] by (simp add: PIPE_SIZE_def mask_12)

lemma move_zone_simps [simp]:
  "i_size (inodes (move_zone i z n s) i) = i_size (inodes s i)"
  "pages (move_zone i z n s) = pages s" "kern (move_zone i z n s) = kern s"
  "i_zone (inodes (move_zone i z n s) i) = (i_zone (inodes s i))(z := (i_zone (inodes s i) z + of_nat n) AND 4095)"
  by (simp_all add: move_zone_def)

lemma ring_byte_move [simp]: "ring_byte i (move_zone i z n s) = ring_byte i s"
  by (simp add: ring_byte_def fun_eq_iff)

lemma user_simps [simp]:
  "inodes (user_put cs a s) = inodes s" "pages (user_put cs a s) = pages s" "ring_byte i (user_put cs a s) = ring_byte i s"
  by (simp_all add: user_put_def ring_byte_def fun_eq_iff)

text \<open>Putting in: the free part of the ring behind the head is filled.\<close>

lemma pipe_give_items:
  assumes ok: "pipe_ok i s" and g: "pipe_give i buf count s = (n, t)"
  shows "pipe_ok i t" "pipe_items i t = pipe_items i s @ user_get n buf s" "PIPE_SIZE i t = PIPE_SIZE i s + n"
    "n \<le> count" "0 < count \<Longrightarrow> PIPE_SIZE i s < 4095 \<Longrightarrow> 0 < n"
proof -
  define h T z where "h = unat (PIPE_HEAD i s)" and "T = unat (PIPE_TAIL i s)" and "z = PIPE_SIZE i s"
  have n: "n = min (min (4096 - h) count) (4095 - z)"
    and t: "t = put_ring i h (user_get n buf s) (move_zone i 0 n s)"
    using g by (auto simp: pipe_give_def Let_def h_def z_def user_get_def)
  have hT: "h < 4096" "T < 4096" using ok by (simp_all add: pipe_ok_def h_def T_def)
  have z: "z = (h + 4096 - T) mod 4096" using PIPE_SIZE_eq[OF ok] by (simp add: z_def h_def T_def)
  have zh: "(T + z) mod 4096 = h" unfolding z using hT by (simp add: mod_add_right_eq)
  show nc: "n \<le> count" "0 < count \<Longrightarrow> PIPE_SIZE i s < 4095 \<Longrightarrow> 0 < n" using n hT by (simp_all add: z_def)
  have len: "length (user_get n buf s) = n" by (simp add: user_get_def get_fs_bytes_def)
  have head: "unat (PIPE_HEAD i t) = (h + n) mod 4096" and tail: "PIPE_TAIL i t = PIPE_TAIL i s"
    using advance_12[of "PIPE_HEAD i s" n] hT n by (simp_all add: PIPE_HEAD_def PIPE_TAIL_def t h_def)
  then show ok': "pipe_ok i t" using hT by (simp add: pipe_ok_def T_def)
  have "PIPE_SIZE i t = ((h + n) mod 4096 + 4096 - T) mod 4096"
    using PIPE_SIZE_eq[OF ok'] head tail by (simp add: T_def)
  also have "(h + n) mod 4096 + 4096 - T = (h + n) mod 4096 + (4096 - T)" using hT by simp
  also have "\<dots> mod 4096 = (h + n + (4096 - T)) mod 4096" by (rule mod_add_left_eq)
  also have "h + n + (4096 - T) = (h + 4096 - T) + n" using hT by simp
  also have "\<dots> mod 4096 = (z + n) mod 4096" unfolding z by (rule mod_add_left_eq[symmetric])
  also have "\<dots> = z + n" using n PIPE_SIZE_less[of i s] by (simp add: z_def)
  finally show size: "PIPE_SIZE i t = PIPE_SIZE i s + n" by (simp add: z_def)
  have le: "h + n \<le> 4096" using n hT by simp
  have byte: "ring_byte i t j = (if h \<le> j \<and> j < h + n then user_get n buf s ! (j - h) else ring_byte i s j)"
    if "j < 4096" for j
    using ring_byte_put_ring[of h "user_get n buf s" j i "move_zone i 0 n s"] that le by (simp add: t len)
  have "ring_items 4096 (ring_byte i t) T z = ring_items 4096 (ring_byte i s) T z"
  proof (rule ring_items_cong)
    fix j assume j: "j < z"
    have "\<not> (h \<le> (T + j) mod 4096 \<and> (T + j) mod 4096 < h + n)"
    proof
      assume a: "h \<le> (T + j) mod 4096 \<and> (T + j) mod 4096 < h + n"
      define m where "m = (T + j) mod 4096 - h"
      have m: "m < n" "(T + j) mod 4096 = h + m" using a by (auto simp: m_def)
      have "(T + (z + m)) mod 4096 = ((T + z) mod 4096 + m) mod 4096" by (simp add: mod_simps add.assoc)
      also have "\<dots> = (h + m) mod 4096" using zh by simp
      also have "\<dots> = (T + j) mod 4096" using m n hT by simp
      finally have eq: "(T + (z + m)) mod 4096 = (T + j) mod 4096" .
      have "z + m < 4096" "j < 4096" using m n j PIPE_SIZE_less[of i s] unfolding z_def by linarith+
      then have "z + m = j" using eq by (rule mod_inj_small)
      with j show False by simp
    qed
    then show "ring_byte i t ((T + j) mod 4096) = ring_byte i s ((T + j) mod 4096)"
      using byte[of "(T + j) mod 4096"] by auto
  qed
  moreover have "ring_items 4096 (ring_byte i t) h n = user_get n buf s"
    unfolding ring_items_straight[OF le]
  proof (rule nth_equalityI)
    fix j assume "j < length (map (\<lambda>j. ring_byte i t (h + j)) [0..<n])"
    then show "map (\<lambda>j. ring_byte i t (h + j)) [0..<n] ! j = user_get n buf s ! j"
      using byte[of "h + j"] le by simp
  qed (simp add: len)
  ultimately show "pipe_items i t = pipe_items i s @ user_get n buf s"
    unfolding pipe_items_def size tail by (simp add: ring_items_add zh flip: T_def z_def)
qed

text \<open>Taking out.\<close>

lemma pipe_take_items:
  assumes ok: "pipe_ok i s" and g: "pipe_take i buf count s = (n, t)"
  shows "pipe_ok i t" "pipe_items i s = user_get n buf t @ pipe_items i t" "PIPE_SIZE i s = n + PIPE_SIZE i t"
    "n \<le> count" "0 < count \<Longrightarrow> 0 < PIPE_SIZE i s \<Longrightarrow> 0 < n"
proof -
  define h T z where "h = unat (PIPE_HEAD i s)" and "T = unat (PIPE_TAIL i s)" and "z = PIPE_SIZE i s"
  define cs where "cs = map (\<lambda>j. ring_byte i s (T + j)) [0..<n]"
  have n: "n = min (min (4096 - T) count) z" and t: "t = user_put cs buf (move_zone i 1 n s)"
    using g by (auto simp: pipe_take_def Let_def T_def z_def cs_def)
  have hT: "h < 4096" "T < 4096" using ok by (simp_all add: pipe_ok_def h_def T_def)
  have z: "z = (h + 4096 - T) mod 4096" using PIPE_SIZE_eq[OF ok] by (simp add: z_def h_def T_def)
  show "n \<le> count" "0 < count \<Longrightarrow> 0 < PIPE_SIZE i s \<Longrightarrow> 0 < n" using n hT by (simp_all add: z_def)
  have tail: "unat (PIPE_TAIL i t) = (T + n) mod 4096" and head: "PIPE_HEAD i t = PIPE_HEAD i s"
    using advance_12[of "PIPE_TAIL i s" n] hT n by (simp_all add: PIPE_HEAD_def PIPE_TAIL_def t T_def)
  then show ok': "pipe_ok i t" using hT by (simp add: pipe_ok_def h_def)
  have "n \<le> z" using n by simp
  have "PIPE_SIZE i t = (h + 4096 - (T + n) mod 4096) mod 4096"
    using PIPE_SIZE_eq[OF ok'] head tail by (simp add: h_def)
  also have "\<dots> = z - n"
  proof (cases "T + n = 4096")
    case True
    with n z hT \<open>n \<le> z\<close> have "z = h + 4096 - T" by (auto simp: ring_dist split: if_splits)
    with True hT show ?thesis by simp
  next
    case False
    with n hT have "T + n < 4096" by auto
    with hT z \<open>n \<le> z\<close> show ?thesis by (auto simp: ring_dist split: if_splits)
  qed
  finally show size: "PIPE_SIZE i s = n + PIPE_SIZE i t" using \<open>n \<le> z\<close> by (simp add: z_def)
  have "length cs \<le> 2 ^ 32" using n by (simp add: cs_def)
  then have "user_get n buf t = cs"
    using get_put_fs_bytes[of cs buf "kern s"] by (simp add: user_get_def t user_put_def cs_def)
  moreover have "ring_items 4096 (ring_byte i s) T n = cs"
    using n hT by (simp add: ring_items_straight cs_def)
  moreover have "ring_byte i t = ring_byte i s" by (simp add: t)
  ultimately show "pipe_items i s = user_get n buf t @ pipe_items i t"
    unfolding pipe_items_def size tail by (simp add: ring_items_add flip: T_def)
qed

subsection \<open>Pipes as streams\<close>

text \<open>
  A step of the system as a pipe sees it: a writer's or a reader's transfer, or anything that leaves
  the pipe's inode and page alone. The bytes of a reader are those it finds in its buffer.
\<close>

definition pipe_alone :: "nat \<Rightarrow> fsys \<Rightarrow> fsys \<Rightarrow> bool" where
  "pipe_alone i s t \<longleftrightarrow> PIPE_HEAD i t = PIPE_HEAD i s \<and> PIPE_TAIL i t = PIPE_TAIL i s \<and> ring_byte i t = ring_byte i s"

definition pipe_gives :: "nat \<Rightarrow> fsys \<Rightarrow> u8 list \<Rightarrow> fsys \<Rightarrow> bool" where
  "pipe_gives i s xs t \<longleftrightarrow> xs = [] \<and> pipe_alone i s t \<or>
     (\<exists>buf count n. pipe_give i buf count s = (n, t) \<and> xs = user_get n buf s)"

definition pipe_takes :: "nat \<Rightarrow> fsys \<Rightarrow> u8 list \<Rightarrow> fsys \<Rightarrow> bool" where
  "pipe_takes i s xs t \<longleftrightarrow> (\<exists>buf count n. pipe_take i buf count s = (n, t) \<and> xs = user_get n buf t)"

interpretation pipe: stream "pipe_gives i" "pipe_takes i" "pipe_items i" "pipe_ok i" for i
proof unfold_locales
  fix s t and xs :: "u8 list" assume ok: "pipe_ok i s"
  have alone: "pipe_items i t = pipe_items i s \<and> pipe_ok i t" if "pipe_alone i s t"
    using that ok by (simp add: pipe_alone_def pipe_items_def pipe_ok_def PIPE_SIZE_def)
  show "pipe_items i t = pipe_items i s @ xs" if "pipe_gives i s xs t"
    using that alone pipe_give_items[OF ok] unfolding pipe_gives_def by fastforce
  show "pipe_ok i t" if "pipe_gives i s xs t"
    using that alone pipe_give_items[OF ok] unfolding pipe_gives_def by blast
  show "pipe_items i s = xs @ pipe_items i t" if "pipe_takes i s xs t"
    using that pipe_take_items[OF ok] unfolding pipe_takes_def by blast
  show "pipe_ok i t" if "pipe_takes i s xs t"
    using that pipe_take_items[OF ok] unfolding pipe_takes_def by blast
qed

text \<open>C7. A pipe is a first-in first-out queue of bytes. Whatever writers and readers do to it, in any
  order and in transfers of any size, with anything in between that leaves the pipe alone: what was
  in the pipe followed by the bytes written is what the readers found in their buffers followed by
  what is in the pipe; the pipe never holds more than 4095 bytes, and a transfer of at least one
  byte moves one whenever the pipe is not full, or not empty.\<close>

theorem pipe_is_fifo:
  assumes "history (pipe_gives i) (pipe_takes i) s written found t" and "pipe_ok i s" and "0 < count"
  shows "pipe_items i s @ written = found @ pipe_items i t \<and> length (pipe_items i t) \<le> 4095 \<and>
    (length (pipe_items i t) < 4095 \<longrightarrow> 0 < fst (pipe_give i buf count t)) \<and>
    (pipe_items i t \<noteq> [] \<longrightarrow> 0 < fst (pipe_take i buf count t))"
proof -
  from pipe.fifo[OF assms(1,2)] have ok: "pipe_ok i t" and f: "pipe_items i s @ written = found @ pipe_items i t"
    by simp_all
  have len: "length (pipe_items i t) = PIPE_SIZE i t" by (simp add: pipe_items_def)
  then have "0 < PIPE_SIZE i t" if "pipe_items i t \<noteq> []" using that by (metis length_greater_0_conv)
  then show ?thesis
    using f len PIPE_SIZE_less[of i t] assms(3)
      pipe_give_items(5)[OF ok, of buf count] pipe_take_items(5)[OF ok, of buf count]
    by (metis prod.collapse)
qed

text \<open>Three bytes are written over the end of the ring and two are read.\<close>

definition fs_pipe :: fsys where
  "fs_pipe = fsys0\<lparr>inodes := (\<lambda>_. zero_inode\<lparr>i_pipe := True, i_size := 0x200000, i_zone := (\<lambda>_. 4094)\<rparr>)\<rparr>"

theorem pipe_is_fifo_witness:
  "\<exists>t1 t2 t3. pipe_give 5 100 3 fs_pipe = (2, t1) \<and> pipe_give 5 102 1 t1 = (1, t2) \<and> pipe_take 5 200 2 t2 = (2, t3) \<and>
     user_get 2 100 fs_pipe @ user_get 1 102 t1 = user_get 2 200 t3 @ pipe_items 5 t3"
proof -
  define t1 where "t1 = snd (pipe_give 5 100 3 fs_pipe)"
  define t2 where "t2 = snd (pipe_give 5 102 1 t1)"
  define t3 where "t3 = snd (pipe_take 5 200 2 t2)"
  have z: "PIPE_HEAD 5 fs_pipe = 4094" "PIPE_TAIL 5 fs_pipe = 4094"
    by (simp_all add: fs_pipe_def PIPE_HEAD_def PIPE_TAIL_def)
  have ok: "pipe_ok 5 fs_pipe" and s0: "PIPE_SIZE 5 fs_pipe = 0" by (simp_all add: pipe_ok_def PIPE_SIZE_def z)
  then have i0: "pipe_items 5 fs_pipe = []" by (simp add: pipe_items_def)
  have g1: "pipe_give 5 100 3 fs_pipe = (2, t1)" by (simp add: t1_def pipe_give_def Let_def z s0)
  note r1 = pipe_give_items[OF ok g1]
  have h1: "PIPE_HEAD 5 t1 = 0" "PIPE_TAIL 5 t1 = 4094"
    using z s0 by (simp_all add: t1_def pipe_give_def Let_def PIPE_HEAD_def PIPE_TAIL_def)
  have g2: "pipe_give 5 102 1 t1 = (1, t2)" using r1(3) s0 by (simp add: t2_def pipe_give_def Let_def h1)
  note r2 = pipe_give_items[OF r1(1) g2]
  have h2: "PIPE_TAIL 5 t2 = 4094" using h1 by (simp add: t2_def pipe_give_def Let_def PIPE_TAIL_def)
  have g3: "pipe_take 5 200 2 t2 = (2, t3)" using r1(3) r2(3) s0 by (simp add: t3_def pipe_take_def Let_def h2)
  have "history (pipe_gives 5) (pipe_takes 5) fs_pipe ([] @ user_get 2 100 fs_pipe) [] t1"
    by (rule history.give[OF history.start]) (use g1 in \<open>auto simp: pipe_gives_def\<close>)
  then have "history (pipe_gives 5) (pipe_takes 5) fs_pipe (([] @ user_get 2 100 fs_pipe) @ user_get 1 102 t1) [] t2"
    by (rule history.give) (use g2 in \<open>auto simp: pipe_gives_def\<close>)
  then have "history (pipe_gives 5) (pipe_takes 5) fs_pipe (([] @ user_get 2 100 fs_pipe) @ user_get 1 102 t1)
      ([] @ user_get 2 200 t3) t3"
    by (rule history.take) (use g3 in \<open>auto simp: pipe_takes_def\<close>)
  from pipe_is_fifo[OF this ok, of 1] i0
  have "user_get 2 100 fs_pipe @ user_get 1 102 t1 = user_get 2 200 t3 @ pipe_items 5 t3" by simp
  with g1 g2 g3 show ?thesis by blast
qed

end
