(* ===== verification/Namei.thy ===== *)
theory Namei
  imports Inode Sys
begin

section \<open>Path names and directories\<close>

text \<open>
  \<^verbatim>\<open>fs/namei.c\<close>. A path name lies in user space, or, when a symbolic link is followed,
  in the data of a buffer, or in an array of the kernel (the interpreter of a script), read through the
  \<^verbatim>\<open>fs\<close> segment set to the kernel's (\<open>text_ptr\<close>). A directory entry is a place \<open>(b, k)\<close>: entry \<open>k\<close>, of 16 bytes, in the data of buffer
  \<open>b\<close>. Links are followed only with the user's \<^verbatim>\<open>fs\<close>, so a lookup nests at most once:
  the routines take the \<open>follow_link\<close> they use as an argument, and are tied together at the end.
\<close>

subsection \<open>Reading path names\<close>

datatype text_ptr = User u32 | InBuf nat nat | InKernel "u8 list" nat

fun get_ch :: "text_ptr \<Rightarrow> fsys \<Rightarrow> u8" where
  "get_ch (User a) s = get_fs_byte a (kern s)"
| "get_ch (InBuf b i) s = b_data (bufs s b) i"
| "get_ch (InKernel cs i) s = (if i < length cs then cs ! i else 0)"

fun adv :: "nat \<Rightarrow> text_ptr \<Rightarrow> text_ptr" where
  "adv n (User a) = User (a + of_nat n)"
| "adv n (InBuf b i) = InBuf b (i + n)"
| "adv n (InKernel cs i) = InKernel cs (i + n)"

abbreviation (input) SLASH :: u8 where "SLASH \<equiv> 0x2f"
abbreviation (input) DOT :: u8 where "DOT \<equiv> 0x2e"

text \<open>The length of the name at \<open>p\<close>, up to a slash or the end of the path.\<close>

primrec name_len :: "nat \<Rightarrow> text_ptr \<Rightarrow> fsys \<Rightarrow> nat option" where
  "name_len 0 p s = None"
| "name_len (Suc n) p s =
     (if get_ch p s = 0 \<or> get_ch p s = SLASH then Some 0 else map_option Suc (name_len n (adv 1 p) s))"

text \<open>The last component: how far in it starts, and the length of the whole path.\<close>

primrec last_name :: "nat \<Rightarrow> nat \<Rightarrow> nat \<Rightarrow> text_ptr \<Rightarrow> fsys \<Rightarrow> (nat \<times> nat) option" where
  "last_name 0 base i p s = None"
| "last_name (Suc n) base i p s =
     (let c = get_ch p s in
      if c = 0 then Some (base, i)
      else last_name n (if c = SLASH then i + 1 else base) (i + 1) (adv 1 p) s)"

subsection \<open>Permissions\<close>

abbreviation (input) MAY_EXEC :: u32 where "MAY_EXEC \<equiv> 1"
abbreviation (input) MAY_WRITE :: u32 where "MAY_WRITE \<equiv> 2"
abbreviation (input) MAY_READ :: u32 where "MAY_READ \<equiv> 4"

definition permission :: "nat \<Rightarrow> u32 \<Rightarrow> fsys \<Rightarrow> bool" where
  "permission i want s =
     (let x = inodes s i; t = cur (kern s); mode = ucast (i_mode x) :: u32 in
      if i_dev x \<noteq> 0 \<and> i_nlinks x = 0 then False
      else let mode = (if t_euid t = i_uid x then drop_bit 6 mode
                       else if in_group_p (ucast (i_gid x)) (kern s) then drop_bit 3 mode else mode)
           in mode AND want AND 7 = want \<or> suser (kern s))"

subsection \<open>Directory entries\<close>

abbreviation de_inode :: "block_data \<Rightarrow> nat \<Rightarrow> u16" where
  "de_inode d k \<equiv> get16_at d (16 * k)"

abbreviation de_name :: "block_data \<Rightarrow> nat \<Rightarrow> nat \<Rightarrow> u8" where
  "de_name d k i \<equiv> d (16 * k + 2 + i)"

definition set_de_inode :: "nat \<Rightarrow> nat \<Rightarrow> u16 \<Rightarrow> fsys \<Rightarrow> fsys" where
  "set_de_inode b k v = upd_buf b (\<lambda>h. h\<lparr>b_data := put16_at (16 * k) v (b_data h)\<rparr>)"

definition dirty :: "nat \<Rightarrow> fsys \<Rightarrow> fsys" where
  "dirty b = upd_buf b (\<lambda>h. h\<lparr>b_dirt := True\<rparr>)"

definition match :: "nat \<Rightarrow> text_ptr \<Rightarrow> nat \<Rightarrow> nat \<Rightarrow> fsys \<Rightarrow> bool" where
  "match len name b k s =
     (let d = b_data (bufs s b) in
      if de_inode d k = 0 \<or> NAME_LEN < len then False
      else if len = 0 \<and> de_name d k 0 = DOT \<and> de_name d k 1 = 0 then True
      else if len < NAME_LEN \<and> de_name d k len \<noteq> 0 then False
      else list_all (\<lambda>i. get_ch (adv i name) s = de_name d k i) [0..<len])"

definition grab :: "nat \<Rightarrow> fsys \<Rightarrow> fsys" where
  "grab i = upd_inode i (\<lambda>x. x\<lparr>i_count := i_count x + 1\<rparr>)"

text \<open>The special cases of \<^verbatim>\<open>..\<close>: the directory to search, and the length of the name.\<close>

definition dot_dot :: "env \<Rightarrow> nat \<Rightarrow> text_ptr \<Rightarrow> nat \<Rightarrow> fsys \<Rightarrow> (nat \<times> nat) fres" where
  "dot_dot E dir name len s =
     (if len = 2 \<and> get_ch name s = DOT \<and> get_ch (adv 1 name) s = DOT then
        if Some dir = p_root s (me s) then retK (dir, 1) s
        else if i_num (inodes s dir) = ROOT_INO then
          bindK (get_super E (i_dev (inodes s dir)) s) (\<lambda>sb s.
            case sb of None \<Rightarrow> stopK (Wild ''find_entry: no super block'') s
            | Some k \<Rightarrow>
                (case s_imount (supers s k) of None \<Rightarrow> retK (dir, len) s
                 | Some _ \<Rightarrow> bindK (iput E (Some dir) s) (\<lambda>_ s.
                     case s_imount (supers s k) of None \<Rightarrow> stopK (Wild ''find_entry: s_imount'') s
                     | Some m \<Rightarrow> retK (m, len) (grab m s))))
        else retK (dir, len) s
      else retK (dir, len) s)"

text \<open>The loop of \<^verbatim>\<open>find_entry\<close>: at entry \<open>i\<close>, which is \<open>k\<close> of buffer \<open>b\<close>; no
  buffer after a block that could not be read.\<close>

primrec find_loop :: "nat \<Rightarrow> env \<Rightarrow> nat \<Rightarrow> text_ptr \<Rightarrow> nat \<Rightarrow> nat \<Rightarrow> nat \<Rightarrow> nat option \<Rightarrow> nat \<Rightarrow> fsys
    \<Rightarrow> (nat \<times> nat) option fres" where
  "find_loop 0 E dir name len entries i bh k s = stopK (Sleeps ''find_entry'') s"
| "find_loop (Suc n) E dir name len entries i bh k s =
     (if entries \<le> i then bindK (brelse E bh s) (\<lambda>_ s. retK None s)
      else
        bindK (if bh \<noteq> None \<and> k < DIR_ENTRIES_PER_BLOCK then retK (bh, k) s
               else bindK (brelse E bh s) (\<lambda>_ s.
                 bindK (bmap E dir (int (i div DIR_ENTRIES_PER_BLOCK)) s) (\<lambda>block s.
                   if block = 0 then retK (None, 0) s
                   else bindK (bread E (i_dev (inodes s dir)) block s) (\<lambda>bh s. retK (bh, 0) s))))
          (\<lambda>(bh, k) s.
            case bh of None \<Rightarrow> find_loop n E dir name len entries (i + DIR_ENTRIES_PER_BLOCK) None 0 s
            | Some b \<Rightarrow>
                if match len name b k s then retK (Some (b, k)) s
                else find_loop n E dir name len entries (i + 1) (Some b) (k + 1) s))"

definition find_entry :: "env \<Rightarrow> nat \<Rightarrow> text_ptr \<Rightarrow> nat \<Rightarrow> fsys \<Rightarrow> (nat \<times> (nat \<times> nat) option) fres" where
  "find_entry E dir name len s =
     (let len = min len NAME_LEN; entries = unat (i_size (inodes s dir)) div 16 in
      bindK (dot_dot E dir name len s) (\<lambda>(dir, len) s.
        let block = unat (i_zone (inodes s dir) 0) in
        if block = 0 then retK (dir, None) s
        else bindK (bread E (i_dev (inodes s dir)) block s) (\<lambda>bh s.
          case bh of None \<Rightarrow> retK (dir, None) s
          | Some b \<Rightarrow> bindK (find_loop (Suc entries) E dir name len entries 0 (Some b) 0 s)
              (\<lambda>r s. retK (dir, r) s))))"

text \<open>\<^verbatim>\<open>add_entry\<close>\<close>

definition write_name :: "nat \<Rightarrow> nat \<Rightarrow> text_ptr \<Rightarrow> nat \<Rightarrow> fsys \<Rightarrow> fsys" where
  "write_name b k name len s =
     fold (\<lambda>i s. upd_buf b (\<lambda>h. h\<lparr>b_data := (b_data h)(16 * k + 2 + i :=
       if i < len then get_ch (adv i name) s else 0)\<rparr>) s) [0..<NAME_LEN] s"

definition use_entry :: "nat \<Rightarrow> text_ptr \<Rightarrow> nat \<Rightarrow> nat \<Rightarrow> nat \<Rightarrow> fsys \<Rightarrow> fsys" where
  "use_entry dir name len b k s =
     dirty b (write_name b k name len (upd_inode dir (\<lambda>x. x\<lparr>i_mtime := fs_time s\<rparr>) s))"

definition extend_dir :: "nat \<Rightarrow> nat \<Rightarrow> nat \<Rightarrow> nat \<Rightarrow> fsys \<Rightarrow> fsys" where
  "extend_dir dir i b k s =
     (if unat (i_size (inodes s dir)) \<le> 16 * i
      then upd_inode dir (\<lambda>x. x\<lparr>i_size := of_nat (16 * (i + 1)), i_dirt := True, i_ctime := fs_time s\<rparr>)
             (set_de_inode b k 0 s)
      else s)"

primrec add_loop :: "nat \<Rightarrow> env \<Rightarrow> nat \<Rightarrow> text_ptr \<Rightarrow> nat \<Rightarrow> nat \<Rightarrow> nat option \<Rightarrow> nat \<Rightarrow> fsys
    \<Rightarrow> (nat \<times> nat) option fres" where
  "add_loop 0 E dir name len i bh k s = stopK (Sleeps ''add_entry'') s"
| "add_loop (Suc n) E dir name len i bh k s =
     bindK (if bh \<noteq> None \<and> k < DIR_ENTRIES_PER_BLOCK then retK (True, bh, k) s
            else bindK (brelse E bh s) (\<lambda>_ s.
              bindK (create_block E dir (int (i div DIR_ENTRIES_PER_BLOCK)) s) (\<lambda>block s.
                if block = 0 then retK (False, None, 0) s
                else bindK (bread E (i_dev (inodes s dir)) block s) (\<lambda>bh s. retK (True, bh, 0) s))))
       (\<lambda>(go, bh, k) s.
         if \<not> go then retK None s
         else case bh of None \<Rightarrow> add_loop n E dir name len (i + DIR_ENTRIES_PER_BLOCK) None 0 s
         | Some b \<Rightarrow>
             let s = extend_dir dir i b k s in
             if de_inode (b_data (bufs s b)) k = 0 then retK (Some (b, k)) (use_entry dir name len b k s)
             else add_loop n E dir name len (i + 1) (Some b) (k + 1) s)"

definition add_entry :: "env \<Rightarrow> nat \<Rightarrow> text_ptr \<Rightarrow> nat \<Rightarrow> fsys \<Rightarrow> (nat \<times> nat) option fres" where
  "add_entry E dir name len s =
     (let len = min len NAME_LEN; block = unat (i_zone (inodes s dir) 0) in
      if len = 0 \<or> block = 0 then retK None s
      else bindK (bread E (i_dev (inodes s dir)) block s) (\<lambda>bh s.
        case bh of None \<Rightarrow> retK None s
        | Some b \<Rightarrow> add_loop (2 + unat (i_size (inodes s dir)) div 16 + rounds E) E dir name len 0 (Some b) 0 s))"

subsection \<open>Lookup\<close>

type_synonym follow_fn = "nat option \<Rightarrow> nat option \<Rightarrow> fsys \<Rightarrow> nat option fres"

text \<open>Giving up: the inodes held are put back, in order.\<close>

fun iputs :: "env \<Rightarrow> nat list \<Rightarrow> fsys \<Rightarrow> unit fres" where
  "iputs E [] s = retK () s"
| "iputs E (i # is) s = bindK (iput E (Some i) s) (\<lambda>_. iputs E is)"

definition give_up :: "env \<Rightarrow> nat list \<Rightarrow> 'a \<Rightarrow> fsys \<Rightarrow> 'a fres" where
  "give_up E is v s = bindK (iputs E is s) (\<lambda>_ s. retK v s)"

text \<open>\<^verbatim>\<open>follow_link\<close>; \<open>user\<close> says that \<^verbatim>\<open>fs\<close> is the user's segment, \<open>nm\<close> is
  the \<^verbatim>\<open>_namei\<close> of the nested lookup.\<close>

definition follow_link_by ::
    "(text_ptr \<Rightarrow> nat option \<Rightarrow> fsys \<Rightarrow> nat option fres) \<Rightarrow> bool \<Rightarrow> env \<Rightarrow> follow_fn" where
  "follow_link_by nm user E dir inode s =
     bindK (case dir of Some d \<Rightarrow> retK d s
            | None \<Rightarrow> (case p_root s (me s) of None \<Rightarrow> stopK (Wild ''follow_link: no root'') s
                       | Some r \<Rightarrow> retK r (grab r s))) (\<lambda>dir s.
       case inode of None \<Rightarrow> give_up E [dir] None s
       | Some i \<Rightarrow>
           if \<not> S_ISLNK (i_mode (inodes s i)) then give_up E [dir] (Some i) s
           else let z = unat (i_zone (inodes s i) 0) in
             bindK (if \<not> user \<or> z = 0 then retK None s else bread E (i_dev (inodes s i)) z s) (\<lambda>bh s.
               case bh of None \<Rightarrow> give_up E [dir, i] None s
               | Some b \<Rightarrow>
                   bindK (iput E (Some i) s) (\<lambda>_ s.
                     bindK (nm (InBuf b 0) (Some dir) s) (\<lambda>r s.
                       bindK (brelse E (Some b) s) (\<lambda>_ s. retK r s)))))"

primrec dir_loop :: "nat \<Rightarrow> follow_fn \<Rightarrow> env \<Rightarrow> text_ptr \<Rightarrow> nat \<Rightarrow> fsys \<Rightarrow> nat option fres" where
  "dir_loop 0 fl E p inode s = stopK (Wild ''path name too long'') s"
| "dir_loop (Suc n) fl E p inode s =
     (if \<not> S_ISDIR (i_mode (inodes s inode)) \<or> \<not> permission inode MAY_EXEC s
      then give_up E [inode] None s
      else case name_len (path_max E) p s of None \<Rightarrow> stopK (Wild ''path name too long'') s
      | Some len \<Rightarrow>
          if get_ch (adv len p) s = 0 then retK (Some inode) s
          else bindK (find_entry E inode p len s) (\<lambda>(dir, r) s.
            case r of None \<Rightarrow> give_up E [dir] None s
            | Some (b, k) \<Rightarrow>
                let inr = de_inode (b_data (bufs s b)) k in
                bindK (brelse E (Some b) s) (\<lambda>_ s.
                  bindK (iget E (i_dev (inodes s dir)) inr s) (\<lambda>i s.
                    bindK (fl (Some dir) (Some i) s) (\<lambda>r s.
                      case r of None \<Rightarrow> retK None s
                      | Some inode \<Rightarrow> dir_loop n fl E (adv (len + 1) p) inode s)))))"

definition get_dir_by :: "follow_fn \<Rightarrow> env \<Rightarrow> text_ptr \<Rightarrow> nat option \<Rightarrow> fsys \<Rightarrow> nat option fres" where
  "get_dir_by fl E path inode s =
     bindK (case inode of Some i \<Rightarrow> retK i s
            | None \<Rightarrow> (case p_pwd s (me s) of None \<Rightarrow> stopK (Wild ''get_dir: no pwd'') s
                       | Some i \<Rightarrow> retK i (grab i s))) (\<lambda>i s.
       if get_ch path s = SLASH
       then bindK (iput E (Some i) s) (\<lambda>_ s.
         case p_root s (me s) of None \<Rightarrow> stopK (Wild ''get_dir: no root'') s
         | Some r \<Rightarrow> dir_loop (path_max E) fl E (adv 1 path) r (grab r s))
       else dir_loop (path_max E) fl E path i s)"

text \<open>The directory, the length of the last name and the name.\<close>

definition dir_namei_by :: "follow_fn \<Rightarrow> env \<Rightarrow> text_ptr \<Rightarrow> nat option \<Rightarrow> fsys
    \<Rightarrow> (nat \<times> nat \<times> text_ptr) option fres" where
  "dir_namei_by fl E path base s =
     bindK (get_dir_by fl E path base s) (\<lambda>r s.
       case r of None \<Rightarrow> retK None s
       | Some dir \<Rightarrow>
           (case last_name (path_max E) 0 0 path s of None \<Rightarrow> stopK (Wild ''path name too long'') s
            | Some (b, n) \<Rightarrow> retK (Some (dir, n - b, adv b path)) s))"

definition namei_by :: "follow_fn \<Rightarrow> env \<Rightarrow> bool \<Rightarrow> text_ptr \<Rightarrow> nat option \<Rightarrow> fsys \<Rightarrow> nat option fres" where
  "namei_by fl E follow path base s =
     bindK (dir_namei_by fl E path base s) (\<lambda>r s.
       case r of None \<Rightarrow> retK None s
       | Some (base, len, name) \<Rightarrow>
           if len = 0 then retK (Some base) s
           else bindK (find_entry E base name len s) (\<lambda>(base, r) s.
             case r of None \<Rightarrow> give_up E [base] None s
             | Some (b, k) \<Rightarrow>
                 let inr = de_inode (b_data (bufs s b)) k in
                 bindK (brelse E (Some b) s) (\<lambda>_ s.
                   bindK (iget E (i_dev (inodes s base)) inr s) (\<lambda>i s.
                     bindK (if follow then fl (Some base) (Some i) s else give_up E [base] (Some i) s) (\<lambda>r s.
                       case r of None \<Rightarrow> stopK (Wild ''_namei: inode is null'') s
                       | Some i \<Rightarrow> retK (Some i) (upd_inode i (\<lambda>x. x\<lparr>i_atime := fs_time s, i_dirt := True\<rparr>) s))))))"

definition follow_kernel :: "env \<Rightarrow> follow_fn" where
  "follow_kernel E = follow_link_by (\<lambda>_ _ s. retK None s) False E"

definition follow_link :: "env \<Rightarrow> follow_fn" where
  "follow_link E = follow_link_by (namei_by (follow_kernel E) E False) True E"

definition dir_namei :: "env \<Rightarrow> text_ptr \<Rightarrow> nat option \<Rightarrow> fsys \<Rightarrow> (nat \<times> nat \<times> text_ptr) option fres" where
  "dir_namei E = dir_namei_by (follow_link E) E"

definition lnamei :: "env \<Rightarrow> text_ptr \<Rightarrow> fsys \<Rightarrow> nat option fres" where
  "lnamei E path = namei_by (follow_link E) E False path None"

definition namei :: "env \<Rightarrow> text_ptr \<Rightarrow> fsys \<Rightarrow> nat option fres" where
  "namei E path = namei_by (follow_link E) E True path None"

end
