(* ===== verification/Namei_Sys.thy ===== *)
theory Namei_Sys
  imports Namei
begin

section \<open>System calls on names\<close>

text \<open>
  The rest of \<^verbatim>\<open>fs/namei.c\<close>: opening by name, and making and removing names.
\<close>

definition ACC_MODE :: "u32 \<Rightarrow> u32" where
  "ACC_MODE flag = [4, 2, 6, 0xFFFFFFFF] ! unat (flag AND 3)"

abbreviation (input) O_ACCMODE :: u32 where "O_ACCMODE \<equiv> 3"
abbreviation (input) O_WRONLY :: u32 where "O_WRONLY \<equiv> 1"
abbreviation (input) O_CREAT :: u32 where "O_CREAT \<equiv> 0x40"
abbreviation (input) O_EXCL :: u32 where "O_EXCL \<equiv> 0x80"
abbreviation (input) O_TRUNC :: u32 where "O_TRUNC \<equiv> 0x200"
abbreviation (input) I_REGULAR :: u16 where "I_REGULAR \<equiv> 0x8000"
abbreviation (input) I_DIRECTORY :: u16 where "I_DIRECTORY \<equiv> 0x4000"
abbreviation (input) S_IFLNK :: u16 where "S_IFLNK \<equiv> 0xA000"

definition S_ISVTX :: "u16 \<Rightarrow> bool" where
  "S_ISVTX m \<longleftrightarrow> m AND 0x200 \<noteq> 0"

definition new_mode :: "u16 \<Rightarrow> fsys \<Rightarrow> u16" where
  "new_mode mode s = mode AND 0x1ff AND NOT (t_umask (cur (kern s)))"

definition change_links :: "u8 \<Rightarrow> nat \<Rightarrow> fsys \<Rightarrow> fsys" where
  "change_links d i = upd_inode i (\<lambda>x. x\<lparr>i_nlinks := i_nlinks x + d\<rparr>)"

definition touch :: "nat \<Rightarrow> fsys \<Rightarrow> fsys" where
  "touch i s = upd_inode i (\<lambda>x. x\<lparr>i_mtime := fs_time s, i_atime := fs_time s\<rparr>) s"

definition mark_inode :: "nat \<Rightarrow> fsys \<Rightarrow> fsys" where
  "mark_inode i = upd_inode i (\<lambda>x. x\<lparr>i_dirt := True\<rparr>)"

text \<open>Entry \<open>(b, k)\<close> gets the number of inode \<open>i\<close>.\<close>

definition link_entry :: "nat \<Rightarrow> nat \<Rightarrow> nat \<Rightarrow> fsys \<Rightarrow> fsys" where
  "link_entry b k i s = dirty b (set_de_inode b k (i_num (inodes s i)) s)"

subsection \<open>\<^verbatim>\<open>open_namei\<close>\<close>

definition open_create :: "env \<Rightarrow> nat \<Rightarrow> text_ptr \<Rightarrow> nat \<Rightarrow> u16 \<Rightarrow> fsys \<Rightarrow> (int \<times> nat option) fres" where
  "open_create E dir name len mode s =
     (if \<not> permission dir MAY_WRITE s then give_up E [dir] (- EACCES, None) s
      else bindK (new_inode E (i_dev (inodes s dir)) s) (\<lambda>r s.
        case r of None \<Rightarrow> give_up E [dir] (- ENOSPC, None) s
        | Some i \<Rightarrow>
            let s = upd_inode i (\<lambda>x. x\<lparr>i_uid := t_euid (cur (kern s)), i_mode := mode, i_dirt := True\<rparr>) s in
            bindK (add_entry E dir name len s) (\<lambda>e s.
              case e of None \<Rightarrow> give_up E [i, dir] (- ENOSPC, None) (change_links (-1) i s)
              | Some (b, k) \<Rightarrow>
                  bindK (brelse E (Some b) (link_entry b k i s)) (\<lambda>_ s. give_up E [dir] (0, Some i) s))))"

definition open_existing :: "env \<Rightarrow> nat \<Rightarrow> nat \<Rightarrow> nat \<Rightarrow> u32 \<Rightarrow> fsys \<Rightarrow> (int \<times> nat option) fres" where
  "open_existing E dir b k flag s =
     (let inr = de_inode (b_data (bufs s b)) k; d = i_dev (inodes s dir) in
      bindK (brelse E (Some b) s) (\<lambda>_ s.
        if flag AND O_EXCL \<noteq> 0 then give_up E [dir] (- EEXIST, None) s
        else bindK (iget E d inr s) (\<lambda>i s.
          bindK (follow_link E (Some dir) (Some i) s) (\<lambda>r s.
            case r of None \<Rightarrow> retK (- EACCES, None) s
            | Some i \<Rightarrow>
                if S_ISDIR (i_mode (inodes s i)) \<and> flag AND O_ACCMODE \<noteq> 0 \<or> \<not> permission i (ACC_MODE flag) s
                then give_up E [i] (- EPERM, None) s
                else
                  let s = upd_inode i (\<lambda>x. x\<lparr>i_atime := fs_time s\<rparr>) s in
                  bindK (if flag AND O_TRUNC \<noteq> 0 then truncate E i s else retK () s)
                    (\<lambda>_ s. retK (0, Some i) s)))))"

definition open_namei :: "env \<Rightarrow> text_ptr \<Rightarrow> u32 \<Rightarrow> u16 \<Rightarrow> fsys \<Rightarrow> (int \<times> nat option) fres" where
  "open_namei E path flag mode s =
     (let flag = (if flag AND O_TRUNC \<noteq> 0 \<and> flag AND O_ACCMODE = 0 then flag OR O_WRONLY else flag);
          mode = new_mode mode s OR I_REGULAR
      in bindK (dir_namei E path None s) (\<lambda>r s.
        case r of None \<Rightarrow> retK (- ENOENT, None) s
        | Some (dir, len, name) \<Rightarrow>
            if len = 0 then
              if flag AND (O_ACCMODE OR O_CREAT OR O_TRUNC) = 0 then retK (0, Some dir) s
              else give_up E [dir] (- EISDIR, None) s
            else bindK (find_entry E dir name len s) (\<lambda>(dir, r) s.
              case r of
                None \<Rightarrow> if flag AND O_CREAT = 0 then give_up E [dir] (- ENOENT, None) s
                        else open_create E dir name len mode s
              | Some (b, k) \<Rightarrow> open_existing E dir b k flag s)))"

subsection \<open>Making and removing names\<close>

text \<open>The opening most of the calls share: the directory, which must be writable, and a name that is
  not empty; \<open>e1\<close>, \<open>e2\<close>, \<open>e3\<close> are the errors.\<close>

definition with_dir :: "env \<Rightarrow> int \<Rightarrow> int \<Rightarrow> int \<Rightarrow> text_ptr \<Rightarrow>
    (nat \<Rightarrow> nat \<Rightarrow> text_ptr \<Rightarrow> fsys \<Rightarrow> int fres) \<Rightarrow> fsys \<Rightarrow> int fres" where
  "with_dir E e1 e2 e3 path body s =
     bindK (dir_namei E path None s) (\<lambda>r s.
       case r of None \<Rightarrow> retK (- e1) s
       | Some (dir, len, name) \<Rightarrow>
           if len = 0 then give_up E [dir] (- e2) s
           else if \<not> permission dir MAY_WRITE s then give_up E [dir] (- e3) s
           else body dir len name s)"

text \<open>The entry must not exist yet, and there is a new inode for it.\<close>

definition with_new :: "env \<Rightarrow> nat \<Rightarrow> text_ptr \<Rightarrow> nat \<Rightarrow> (nat \<Rightarrow> nat \<Rightarrow> fsys \<Rightarrow> int fres) \<Rightarrow> fsys \<Rightarrow> int fres" where
  "with_new E dir name len body s =
     bindK (find_entry E dir name len s) (\<lambda>(dir, r) s.
       case r of
         Some (b, k) \<Rightarrow> bindK (brelse E (Some b) s) (\<lambda>_. give_up E [dir] (- EEXIST))
       | None \<Rightarrow> bindK (new_inode E (i_dev (inodes s dir)) s) (\<lambda>r s.
           case r of None \<Rightarrow> give_up E [dir] (- ENOSPC) s | Some i \<Rightarrow> body dir i s))"

text \<open>The end of \<^verbatim>\<open>mknod\<close> and \<^verbatim>\<open>mkdir\<close>: the new entry, and \<open>extra\<close> to do when
  there is room for it.\<close>

definition enter_new :: "env \<Rightarrow> nat \<Rightarrow> text_ptr \<Rightarrow> nat \<Rightarrow> nat \<Rightarrow> (fsys \<Rightarrow> fsys) \<Rightarrow> fsys \<Rightarrow> int fres" where
  "enter_new E dir name len i extra s =
     bindK (add_entry E dir name len s) (\<lambda>e s.
       case e of
         None \<Rightarrow> bindK (iput E (Some dir) s) (\<lambda>_ s.
                   give_up E [i] (- ENOSPC) (upd_inode i (\<lambda>x. x\<lparr>i_nlinks := 0\<rparr>) s))
       | Some (b, k) \<Rightarrow>
           bindK (iputs E [dir, i] (extra (link_entry b k i s))) (\<lambda>_ s.
             bindK (brelse E (Some b) s) (\<lambda>_ s. retK 0 s)))"

definition sys_mknod :: "env \<Rightarrow> text_ptr \<Rightarrow> u16 \<Rightarrow> u16 \<Rightarrow> fsys \<Rightarrow> int fres" where
  "sys_mknod E path mode d s =
     (if \<not> suser (kern s) then retK (- EPERM) s
      else with_dir E ENOENT ENOENT EPERM path (\<lambda>dir len name.
        with_new E dir name len (\<lambda>dir i s.
          let s = upd_inode i (\<lambda>x. x\<lparr>i_mode := mode\<rparr>) s;
              s = (if S_ISBLK mode \<or> S_ISCHR mode then set_zone i 0 (unat d) s else s)
          in enter_new E dir name len i id (mark_inode i (touch i s)))) s)"

definition dir_contents :: "u16 \<Rightarrow> u16 \<Rightarrow> block_data \<Rightarrow> block_data" where
  "dir_contents self parent d =
     (let d = (put16_at 0 self d)(2 := DOT, 3 := 0) in
      (put16_at 16 parent d)(18 := DOT, 19 := DOT, 20 := 0))"

text \<open>A first block for the new inode \<open>i\<close>, read into the cache; \<open>e\<close> undoes the call.\<close>

definition with_block :: "env \<Rightarrow> nat \<Rightarrow> nat \<Rightarrow> (nat \<Rightarrow> fsys \<Rightarrow> int fres) \<Rightarrow> fsys \<Rightarrow> int fres" where
  "with_block E dir i body s =
     bindK (new_block E (i_dev (inodes s i)) s) (\<lambda>z s.
       let s = set_zone i 0 z s;
           undo = (\<lambda>e s. bindK (iput E (Some dir) s) (\<lambda>_ s. give_up E [i] (- e) (change_links (-1) i s)))
       in if z = 0 then undo ENOSPC s
          else let s = mark_inode i s in
            bindK (bread E (i_dev (inodes s i)) (unat (i_zone (inodes s i) 0)) s) (\<lambda>bh s.
              case bh of None \<Rightarrow> undo ERROR s | Some b \<Rightarrow> body b s))"

definition sys_mkdir :: "env \<Rightarrow> text_ptr \<Rightarrow> u16 \<Rightarrow> fsys \<Rightarrow> int fres" where
  "sys_mkdir E path mode s =
     with_dir E ENOENT ENOENT EPERM path (\<lambda>dir len name.
       with_new E dir name len (\<lambda>dir i s.
         with_block E dir i (\<lambda>b s.
           let s = upd_buf b (\<lambda>h. h\<lparr>b_data := dir_contents (i_num (inodes s i)) (i_num (inodes s dir)) (b_data h)\<rparr>) s;
               s = upd_inode i (\<lambda>x. x\<lparr>i_nlinks := 2\<rparr>) s
           in bindK (brelse E (Some b) (dirty b s)) (\<lambda>_ s.
             enter_new E dir name len i (\<lambda>s. mark_inode dir (change_links 1 dir s))
               (mark_inode i (upd_inode i (\<lambda>x. x\<lparr>i_mode := I_DIRECTORY OR new_mode mode s\<rparr>) s))))
           (touch i (mark_inode i (upd_inode i (\<lambda>x. x\<lparr>i_size := 32\<rparr>) s))))) s"

text \<open>\<^verbatim>\<open>empty_dir\<close>. After a hole the old buffer, already released, is kept, and released
  again at the next entry.\<close>

definition name_is :: "block_data \<Rightarrow> nat \<Rightarrow> u8 list \<Rightarrow> bool" where
  "name_is d k cs \<longleftrightarrow> list_all (\<lambda>i. de_name d k i = cs ! i) [0..<length cs] \<and> de_name d k (length cs) = 0"

primrec empty_loop :: "nat \<Rightarrow> env \<Rightarrow> nat \<Rightarrow> nat \<Rightarrow> nat \<Rightarrow> nat \<Rightarrow> nat \<Rightarrow> fsys \<Rightarrow> bool fres" where
  "empty_loop 0 E i len nr b k s = stopK (Sleeps ''empty_dir'') s"
| "empty_loop (Suc n) E i len nr b k s =
     (if len \<le> nr then bindK (brelse E (Some b) s) (\<lambda>_ s. retK True s)
      else
        let test = (\<lambda>b k s. if de_inode (b_data (bufs s b)) k \<noteq> 0
                            then bindK (brelse E (Some b) s) (\<lambda>_ s. retK False s)
                            else empty_loop n E i len (nr + 1) b (k + 1) s)
        in if k < DIR_ENTRIES_PER_BLOCK then test b k s
           else bindK (brelse E (Some b) s) (\<lambda>_ s.
             bindK (bmap E i (int (nr div DIR_ENTRIES_PER_BLOCK)) s) (\<lambda>block s.
               if block = 0 then empty_loop n E i len (nr + DIR_ENTRIES_PER_BLOCK) b k s
               else bindK (bread E (i_dev (inodes s i)) block s) (\<lambda>bh s.
                 case bh of None \<Rightarrow> retK False s | Some b \<Rightarrow> test b 0 s))))"

definition empty_dir :: "env \<Rightarrow> nat \<Rightarrow> fsys \<Rightarrow> bool fres" where
  "empty_dir E i s =
     (let x = inodes s i; len = unat (i_size x) div 16;
          bad = (\<lambda>s. retK False (fs_say ''warning - bad directory'' s))
      in if len < 2 \<or> i_zone x 0 = 0 then bad s
         else bindK (bread E (i_dev x) (unat (i_zone x 0)) s) (\<lambda>bh s.
           case bh of None \<Rightarrow> bad s
           | Some b \<Rightarrow>
               let d = b_data (bufs s b) in
               if de_inode d 0 \<noteq> i_num (inodes s i) \<or> de_inode d 1 = 0 \<or> \<not> name_is d 0 [DOT] \<or> \<not> name_is d 1 [DOT, DOT]
               then bad s
               else empty_loop (Suc len) E i len 2 b 2 s))"

definition drop_entry :: "env \<Rightarrow> nat list \<Rightarrow> nat \<Rightarrow> int \<Rightarrow> fsys \<Rightarrow> int fres" where
  "drop_entry E is b e s = bindK (iputs E is s) (\<lambda>_ s. bindK (brelse E (Some b) s) (\<lambda>_ s. retK (- e) s))"

text \<open>An entry that exists, and its inode.\<close>

definition with_entry :: "env \<Rightarrow> nat \<Rightarrow> text_ptr \<Rightarrow> nat \<Rightarrow>
    (nat \<Rightarrow> nat \<Rightarrow> nat \<Rightarrow> nat \<Rightarrow> fsys \<Rightarrow> int fres) \<Rightarrow> fsys \<Rightarrow> int fres" where
  "with_entry E dir name len body s =
     bindK (find_entry E dir name len s) (\<lambda>(dir, r) s.
       case r of None \<Rightarrow> give_up E [dir] (- ENOENT) s
       | Some (b, k) \<Rightarrow> bindK (iget E (i_dev (inodes s dir)) (de_inode (b_data (bufs s b)) k) s)
           (\<lambda>i s. body dir b k i s))"

definition sys_rmdir :: "env \<Rightarrow> text_ptr \<Rightarrow> fsys \<Rightarrow> int fres" where
  "sys_rmdir E path s =
     with_dir E ENOENT ENOENT EPERM path (\<lambda>dir len name.
       with_entry E dir name len (\<lambda>dir b k i s.
         let x = inodes s i; t = cur (kern s) in
         if S_ISVTX (i_mode (inodes s dir)) \<and> t_euid t \<noteq> 0 \<and> i_uid x \<noteq> t_euid t
         then drop_entry E [dir, i] b EPERM s
         else if i_dev x \<noteq> i_dev (inodes s dir) \<or> 1 < i_count x then drop_entry E [dir, i] b EPERM s
         else if i = dir then drop_entry E [i, dir] b EPERM s
         else if \<not> S_ISDIR (i_mode x) then drop_entry E [i, dir] b ENOTDIR s
         else bindK (empty_dir E i s) (\<lambda>is_empty s.
           if \<not> is_empty then drop_entry E [i, dir] b ENOTEMPTY s
           else
             let s = (if i_nlinks (inodes s i) \<noteq> 2 then fs_say ''empty directory has nlink!=2'' s else s) in
             bindK (brelse E (Some b) (dirty b (set_de_inode b k 0 s))) (\<lambda>_ s.
               let s = mark_inode i (upd_inode i (\<lambda>x. x\<lparr>i_nlinks := 0\<rparr>) s);
                   s = change_links (-1) dir s;
                   s = mark_inode dir (upd_inode dir (\<lambda>x. x\<lparr>i_ctime := fs_time s, i_mtime := fs_time s\<rparr>) s)
               in give_up E [dir, i] 0 s)))) s"

definition sys_unlink :: "env \<Rightarrow> text_ptr \<Rightarrow> fsys \<Rightarrow> int fres" where
  "sys_unlink E path s =
     with_dir E ENOENT ENOENT EPERM path (\<lambda>dir len name.
       with_entry E dir name len (\<lambda>dir b k i s.
         let x = inodes s i; t = cur (kern s) in
         if S_ISVTX (i_mode (inodes s dir)) \<and> \<not> suser (kern s) \<and> t_euid t \<noteq> i_uid x \<and>
            t_euid t \<noteq> i_uid (inodes s dir)
         then drop_entry E [dir, i] b EPERM s
         else if S_ISDIR (i_mode x) then drop_entry E [i, dir] b EPERM s
         else
           let s = (if i_nlinks x = 0
                    then upd_inode i (\<lambda>x. x\<lparr>i_nlinks := 1\<rparr>) (fs_say ''Deleting nonexistent file'' s) else s)
           in bindK (brelse E (Some b) (dirty b (set_de_inode b k 0 s))) (\<lambda>_ s.
             let s = mark_inode i (change_links (-1) i s);
                 s = upd_inode i (\<lambda>x. x\<lparr>i_ctime := fs_time s\<rparr>) s
             in give_up E [i, dir] 0 s))) s"

text \<open>Copying the target of a symbolic link: at most 1023 bytes.\<close>

primrec copy_target :: "nat \<Rightarrow> nat \<Rightarrow> text_ptr \<Rightarrow> nat \<Rightarrow> fsys \<Rightarrow> nat \<times> fsys" where
  "copy_target 0 b p i s = (i, s)"
| "copy_target (Suc n) b p i s =
     (let c = get_ch p s in
      if c = 0 then (i, s)
      else copy_target n b (adv 1 p) (i + 1) (upd_buf b (\<lambda>h. h\<lparr>b_data := (b_data h)(i := c)\<rparr>) s))"

definition sys_symlink :: "env \<Rightarrow> text_ptr \<Rightarrow> text_ptr \<Rightarrow> fsys \<Rightarrow> int fres" where
  "sys_symlink E old path s =
     with_dir E EACCES EPERM EACCES path (\<lambda>dir len name s.
       bindK (new_inode E (i_dev (inodes s dir)) s) (\<lambda>r s.
         case r of None \<Rightarrow> give_up E [dir] (- ENOSPC) s
         | Some i \<Rightarrow>
           with_block E dir i (\<lambda>b s.
             let (n, s) = copy_target 1023 b old 0 s;
                 s = upd_buf b (\<lambda>h. h\<lparr>b_data := (b_data h)(n := 0), b_dirt := True\<rparr>) s
             in bindK (brelse E (Some b) s) (\<lambda>_ s.
               let s = mark_inode i (upd_inode i (\<lambda>x. x\<lparr>i_size := of_nat n\<rparr>) s) in
               bindK (find_entry E dir name len s) (\<lambda>(dir, r) s.
                 case r of
                   Some (b, k) \<Rightarrow> bindK (iput E (Some i) (change_links (-1) i s)) (\<lambda>_ s.
                     bindK (brelse E (Some b) s) (\<lambda>_ s. give_up E [dir] (- EEXIST) s))
                 | None \<Rightarrow> bindK (add_entry E dir name len s) (\<lambda>e s.
                     case e of None \<Rightarrow> give_up E [i, dir] (- ENOSPC) (change_links (-1) i s)
                     | Some (b, k) \<Rightarrow> bindK (brelse E (Some b) (link_entry b k i s))
                         (\<lambda>_ s. give_up E [dir, i] 0 s)))))
             (mark_inode i (upd_inode i (\<lambda>x. x\<lparr>i_mode := S_IFLNK OR (0x1ff AND NOT (t_umask (cur (kern s))))\<rparr>) s)))) s"

definition sys_link :: "env \<Rightarrow> text_ptr \<Rightarrow> text_ptr \<Rightarrow> fsys \<Rightarrow> int fres" where
  "sys_link E old path s =
     bindK (namei E old s) (\<lambda>r s.
       case r of None \<Rightarrow> retK (- ENOENT) s
       | Some i \<Rightarrow>
         if S_ISDIR (i_mode (inodes s i)) then give_up E [i] (- EPERM) s
         else bindK (dir_namei E path None s) (\<lambda>r s.
           case r of None \<Rightarrow> give_up E [i] (- EACCES) s
           | Some (dir, len, name) \<Rightarrow>
             if len = 0 then give_up E [i, dir] (- EPERM) s
             else if i_dev (inodes s dir) \<noteq> i_dev (inodes s i) then give_up E [dir, i] (- EXDEV) s
             else if \<not> permission dir MAY_WRITE s then give_up E [dir, i] (- EACCES) s
             else bindK (find_entry E dir name len s) (\<lambda>(dir, r) s.
               case r of
                 Some (b, k) \<Rightarrow> bindK (brelse E (Some b) s) (\<lambda>_. give_up E [dir, i] (- EEXIST))
               | None \<Rightarrow> bindK (add_entry E dir name len s) (\<lambda>e s.
                   case e of None \<Rightarrow> give_up E [dir, i] (- ENOSPC) s
                   | Some (b, k) \<Rightarrow>
                       bindK (brelse E (Some b) (link_entry b k i s)) (\<lambda>_ s.
                         bindK (iput E (Some dir) s) (\<lambda>_ s.
                           let s = change_links 1 i s;
                               s = mark_inode i (upd_inode i (\<lambda>x. x\<lparr>i_ctime := fs_time s\<rparr>) s)
                           in give_up E [i] 0 s))))))"

end
