(* ===== verification/Super.thy ===== *)
theory Super
  imports Namei
begin

section \<open>Super blocks, mounting and disk changes\<close>

text \<open>
  \<^verbatim>\<open>fs/super.c\<close> (locks and \<^verbatim>\<open>get_super\<close> are in \<open>Buffer\<close>) and
  \<^verbatim>\<open>check_disk_change\<close> of \<^verbatim>\<open>fs/buffer.c\<close>. The maps have room for eight blocks: a
  super block on disk that names more makes the code write past them (\<open>Wild\<close>).
\<close>

definition brelse_all :: "env \<Rightarrow> (nat \<Rightarrow> nat option) \<Rightarrow> fsys \<Rightarrow> unit fres" where
  "brelse_all E m = forK (\<lambda>i. brelse E (m i)) [0..<8]"

definition release_maps :: "env \<Rightarrow> nat \<Rightarrow> fsys \<Rightarrow> unit fres" where
  "release_maps E k s =
     bindK (brelse_all E (s_imap (supers s k)) s) (\<lambda>_ s. brelse_all E (s_zmap (supers s k)) s)"

definition put_super :: "env \<Rightarrow> dev \<Rightarrow> fsys \<Rightarrow> unit fres" where
  "put_super E d s =
     (if d = root_dev s then retK () (fs_say ''root diskette changed: prepare for armageddon'' s)
      else bindK (get_super E d s) (\<lambda>p s.
        case p of None \<Rightarrow> retK () s
        | Some k \<Rightarrow>
            if s_imount (supers s k) \<noteq> None then retK () (fs_say ''Mounted disk changed - tssk, tssk'' s)
            else bindK (lock_super E k s) (\<lambda>_ s.
              bindK (release_maps E k (upd_super k (\<lambda>x. x\<lparr>s_dev := 0\<rparr>) s)) (\<lambda>_ s. retK () (free_super k s)))))"

definition check_disk_change :: "env \<Rightarrow> dev \<Rightarrow> fsys \<Rightarrow> unit fres" where
  "check_disk_change E d s =
     (if MAJOR d \<noteq> 2 \<or> \<not> floppy_changed E (unat (d AND 3)) s then retK () s
      else bindK (forK (\<lambda>k s. if s_dev (supers s k) = d then put_super E (s_dev (supers s k)) s else retK () s)
                    [0..<NR_SUPER] s) (\<lambda>_ s.
        bindK (invalidate_inodes E d s) (\<lambda>_. invalidate_buffers E d)))"

text \<open>Reading map blocks until one cannot be read: the next block number.\<close>

primrec read_maps :: "nat \<Rightarrow> env \<Rightarrow> ((nat \<Rightarrow> nat option) \<Rightarrow> fsys \<Rightarrow> fsys) \<Rightarrow> (nat \<Rightarrow> nat option) \<Rightarrow> nat \<Rightarrow> dev \<Rightarrow> nat
    \<Rightarrow> fsys \<Rightarrow> nat fres" where
  "read_maps 0 E put m i d block s = retK block s"
| "read_maps (Suc n) E put m i d block s =
     (if 8 \<le> i then stopK (Wild ''read_super: too many map blocks'') s
      else bindK (bread E d block s) (\<lambda>bh s.
        let m = m(i := bh); s = put m s in
        case bh of None \<Rightarrow> retK block s | Some _ \<Rightarrow> read_maps n E put m (i + 1) d (block + 1) s))"

definition load_d_super :: "d_super_block \<Rightarrow> super_block \<Rightarrow> super_block" where
  "load_d_super d x = x\<lparr>s_ninodes := s_ninodes d, s_nzones := s_nzones d, s_imap_blocks := s_imap_blocks d,
     s_zmap_blocks := s_zmap_blocks d, s_firstdatazone := s_firstdatazone d, s_log_zone_size := s_log_zone_size d,
     s_max_size := s_max_size d, s_magic := s_magic d\<rparr>"

definition clear_map :: "(nat \<Rightarrow> nat option) \<Rightarrow> nat \<Rightarrow> nat option" where
  "clear_map m = (\<lambda>i. if i < 8 then None else m i)"

definition give_up_super :: "nat \<Rightarrow> fsys \<Rightarrow> nat option fres" where
  "give_up_super k s = retK None (free_super k (upd_super k (\<lambda>x. x\<lparr>s_dev := 0\<rparr>) s))"

definition set_first_bit :: "nat option \<Rightarrow> fsys \<Rightarrow> unit fres" where
  "set_first_bit p s =
     (case p of None \<Rightarrow> stopK (Wild ''read_super: no map block'') s
      | Some b \<Rightarrow> retK () (upd_buf b (\<lambda>h. h\<lparr>b_data := (b_data h)(0 := b_data h 0 OR 1)\<rparr>) s))"

definition load_super :: "env \<Rightarrow> nat \<Rightarrow> dev \<Rightarrow> fsys \<Rightarrow> nat option fres" where
  "load_super E k d s =
     bindK (bread E d 1 s) (\<lambda>bh s.
       case bh of None \<Rightarrow> give_up_super k s
       | Some b \<Rightarrow>
         bindK (brelse E (Some b) (upd_super k (load_d_super (get_d_super (b_data (bufs s b)))) s)) (\<lambda>_ s.
           if s_magic (supers s k) \<noteq> SUPER_MAGIC then give_up_super k s
           else
             let s = upd_super k (\<lambda>x. x\<lparr>s_imap := clear_map (s_imap x), s_zmap := clear_map (s_zmap x)\<rparr>) s;
                 x = supers s k; ni = unat (s_imap_blocks x); nz = unat (s_zmap_blocks x)
             in bindK (read_maps ni E (\<lambda>m. upd_super k (\<lambda>x. x\<lparr>s_imap := m\<rparr>)) (s_imap x) 0 d 2 s) (\<lambda>block s.
                  bindK (read_maps nz E (\<lambda>m. upd_super k (\<lambda>x. x\<lparr>s_zmap := m\<rparr>)) (s_zmap x) 0 d block s) (\<lambda>block s.
                    if block \<noteq> 2 + ni + nz then bindK (release_maps E k s) (\<lambda>_. give_up_super k)
                    else bindK (set_first_bit (s_imap (supers s k) 0) s) (\<lambda>_ s.
                      bindK (set_first_bit (s_zmap (supers s k) 0) s) (\<lambda>_ s.
                        retK (Some k) (free_super k s)))))))"

definition read_super :: "env \<Rightarrow> dev \<Rightarrow> fsys \<Rightarrow> nat option fres" where
  "read_super E d s =
     (if d = 0 then retK None s
      else bindK (check_disk_change E d s) (\<lambda>_ s.
        bindK (get_super E d s) (\<lambda>p s.
          case p of Some k \<Rightarrow> retK (Some k) s
          | None \<Rightarrow>
            (case find_super 0 s of None \<Rightarrow> retK None s
             | Some k \<Rightarrow>
                 let s = upd_super k (\<lambda>x. x\<lparr>s_dev := d, s_isup := None, s_imount := None, s_time := 0,
                                          s_rd_only := False, s_dirt := False\<rparr>) s
                 in bindK (lock_super E k s) (\<lambda>_. load_super E k d)))))"

definition sys_umount :: "env \<Rightarrow> text_ptr \<Rightarrow> fsys \<Rightarrow> int fres" where
  "sys_umount E dev_name s =
     bindK (namei E dev_name s) (\<lambda>r s.
       case r of None \<Rightarrow> retK (- ENOENT) s
       | Some i \<Rightarrow>
         let d = i_zone (inodes s i) 0 in
         if \<not> S_ISBLK (i_mode (inodes s i)) then give_up E [i] (- ENOTBLK) s
         else bindK (iput E (Some i) s) (\<lambda>_ s.
           if d = root_dev s then retK (- EBUSY) s
           else bindK (get_super E d s) (\<lambda>p s.
             case p of None \<Rightarrow> retK (- ENOENT) s
             | Some k \<Rightarrow>
               (case s_imount (supers s k) of None \<Rightarrow> retK (- ENOENT) s
                | Some m \<Rightarrow>
                  let s = (if \<not> i_mount (inodes s m) then fs_say ''Mounted inode has i_mount=0'' s else s) in
                  if list_ex (\<lambda>j. i_dev (inodes s j) = d \<and> i_count (inodes s j) \<noteq> 0) [0..<NR_INODE]
                  then retK (- EBUSY) s
                  else bindK (iput E (Some m) (upd_inode m (\<lambda>x. x\<lparr>i_mount := False\<rparr>) s)) (\<lambda>_ s.
                    let s = upd_super k (\<lambda>x. x\<lparr>s_imount := None\<rparr>) s in
                    bindK (iput E (s_isup (supers s k)) s) (\<lambda>_ s.
                      bindK (put_super E d (upd_super k (\<lambda>x. x\<lparr>s_isup := None\<rparr>) s)) (\<lambda>_ s.
                        bindK (sync_dev E d s) (\<lambda>_ s. retK 0 s))))))))"

definition sys_mount :: "env \<Rightarrow> text_ptr \<Rightarrow> text_ptr \<Rightarrow> fsys \<Rightarrow> int fres" where
  "sys_mount E dev_name dir_name s =
     bindK (namei E dev_name s) (\<lambda>r s.
       case r of None \<Rightarrow> retK (- ENOENT) s
       | Some i \<Rightarrow>
         let d = i_zone (inodes s i) 0 in
         if \<not> S_ISBLK (i_mode (inodes s i)) then give_up E [i] (- EPERM) s
         else bindK (iput E (Some i) s) (\<lambda>_ s.
           bindK (namei E dir_name s) (\<lambda>r s.
             case r of None \<Rightarrow> retK (- ENOENT) s
             | Some m \<Rightarrow>
               let x = inodes s m in
               if i_count x \<noteq> 1 \<or> i_num x = ROOT_INO then give_up E [m] (- EBUSY) s
               else if \<not> S_ISDIR (i_mode x) then give_up E [m] (- EPERM) s
               else bindK (read_super E d s) (\<lambda>p s.
                 case p of None \<Rightarrow> give_up E [m] (- EBUSY) s
                 | Some k \<Rightarrow>
                     if s_imount (supers s k) \<noteq> None then give_up E [m] (- EBUSY) s
                     else if i_mount (inodes s m) then give_up E [m] (- EPERM) s
                     else retK 0 (upd_inode m (\<lambda>x. x\<lparr>i_mount := True, i_dirt := True\<rparr>)
                                    (upd_super k (\<lambda>x. x\<lparr>s_imount := Some m\<rparr>) s))))))"

text \<open>The numbers of free zones and inodes \<^verbatim>\<open>mount_root\<close> prints. Its
  \<^verbatim>\<open>set_bit\<close>, unlike that of \<^verbatim>\<open>bitmap.c\<close>, only tests.\<close>

definition count_free :: "(nat \<Rightarrow> nat option) \<Rightarrow> nat \<Rightarrow> fsys \<Rightarrow> nat" where
  "count_free m n s =
     length (filter (\<lambda>i. \<not> bitmap_bit (b_data (bufs s (the (m (i div 8192))))) (i mod 8192)) [0..<n])"

definition mount_root :: "env \<Rightarrow> fsys \<Rightarrow> (nat \<times> nat) fres" where
  "mount_root E s =
     (let s = fold (\<lambda>f. upd_file f (\<lambda>x. x\<lparr>f_count := 0\<rparr>)) [0..<NR_FILE] s in
      bindK (if MAJOR (root_dev s) = 2
             then on_tty (wait_for_keypress (term_env E)) (fs_say ''Insert root floppy and press ENTER'' s)
             else retK () s) (\<lambda>_ s.
        let s = fold (\<lambda>k. upd_super k (\<lambda>x. x\<lparr>s_dev := 0, s_lock := False, s_wait := None\<rparr>)) [0..<NR_SUPER] s in
        bindK (read_super E (root_dev s) s) (\<lambda>p s.
          case p of None \<Rightarrow> stopK (Panic ''Unable to mount root'') s
          | Some k \<Rightarrow>
            bindK (iget E (root_dev s) ROOT_INO s) (\<lambda>i s.
              let s = upd_inode i (\<lambda>x. x\<lparr>i_count := i_count x + 3\<rparr>) s;
                  s = upd_super k (\<lambda>x. x\<lparr>s_isup := Some i, s_imount := Some i\<rparr>) s;
                  s = s\<lparr>p_pwd := (p_pwd s)(me s := Some i), p_root := (p_root s)(me s := Some i)\<rparr>;
                  x = supers s k
              in retK (count_free (s_zmap x) (unat (s_nzones x)) s, count_free (s_imap x) (unat (s_ninodes x) + 1) s)
                   (fs_say ''free inodes'' (fs_say ''free blocks'' s))))))"

subsection \<open>Loading the RAM disk\<close>

text \<open>\<^verbatim>\<open>rd_load\<close> of \<^verbatim>\<open>ramdisk.c\<close>: the loop over the blocks; \<open>False\<close> after an
  error.\<close>

primrec rd_copy :: "nat \<Rightarrow> env \<Rightarrow> nat \<Rightarrow> nat \<Rightarrow> fsys \<Rightarrow> bool fres" where
  "rd_copy 0 E block cp s = retK True s"
| "rd_copy (Suc n) E block cp s =
     bindK (if 2 < Suc n then breada E (root_dev s) block [block + 1, block + 2] s else bread E (root_dev s) block s)
       (\<lambda>bh s.
         case bh of None \<Rightarrow> retK False (fs_say ''I/O error, aborting load'' s)
         | Some b \<Rightarrow>
             let d = b_data (bufs s b);
                 s = s\<lparr>rd_mem := (\<lambda>a. if cp \<le> a \<and> a < cp + BLOCK_SIZE then d (a - cp) else rd_mem s a)\<rparr>
             in bindK (brelse E (Some b) s) (\<lambda>_. rd_copy n E (block + 1) (cp + BLOCK_SIZE)))"

definition rd_load :: "env \<Rightarrow> fsys \<Rightarrow> unit fres" where
  "rd_load E s =
     (if rd_length s = 0 then retK () s
      else let s = fs_say ''Ram disk'' s in
        if MAJOR (root_dev s) \<noteq> 2 then retK () s
        else bindK (breada E (root_dev s) 257 [256, 258] s) (\<lambda>bh s.
          case bh of None \<Rightarrow> retK () (fs_say ''Disk error while looking for ramdisk!'' s)
          | Some b \<Rightarrow>
            let x = get_d_super (b_data (bufs s b)) in
            bindK (brelse E (Some b) s) (\<lambda>_ s.
              if s_magic x \<noteq> SUPER_MAGIC then retK () s
              else let n = unat (s_nzones x) * 2 ^ unat (s_log_zone_size x) in
                if rd_length s div 1024 < n then retK () (fs_say ''Ram disk image too big!'' s)
                else bindK (rd_copy n E 256 (rd_start s) (fs_say ''Loading into ram disk'' s)) (\<lambda>ok s.
                  retK () (if ok then (fs_say ''done'' s)\<lparr>root_dev := 0x0101\<rparr> else s)))))"

end
