(* ===== verification/Open.thy ===== *)
theory Open
  imports Namei_Sys Super File_Io
begin

section \<open>Opening, closing and describing files\<close>

text \<open>
  \<^verbatim>\<open>fs/{open,fcntl,stat,ioctl}.c\<close>. The bytes that pad a \<^verbatim>\<open>struct stat\<close> on the kernel
  stack are the parameter \<open>junk\<close>.
\<close>

subsection \<open>\<^verbatim>\<open>open.c\<close>\<close>

definition with_inode :: "env \<Rightarrow> int \<Rightarrow> text_ptr \<Rightarrow> (nat \<Rightarrow> fsys \<Rightarrow> int fres) \<Rightarrow> fsys \<Rightarrow> int fres" where
  "with_inode E e path body s =
     bindK (namei E path s) (\<lambda>r s. case r of None \<Rightarrow> retK (- e) s | Some i \<Rightarrow> body i s)"

definition sys_ustat :: "fsys \<Rightarrow> int fres" where
  "sys_ustat s = retK (- ENOSYS) s"

definition sys_utime :: "env \<Rightarrow> text_ptr \<Rightarrow> u32 \<Rightarrow> fsys \<Rightarrow> int fres" where
  "sys_utime E path tp =
     with_inode E ENOENT path (\<lambda>i s.
       let (a, m) = (if tp \<noteq> 0 then (get_fs_long tp (kern s), get_fs_long (tp + 4) (kern s))
                     else (fs_time s, fs_time s))
       in give_up E [i] 0 (upd_inode i (\<lambda>x. x\<lparr>i_atime := a, i_mtime := m, i_dirt := True\<rparr>) s))"

definition access_ok :: "u16 \<Rightarrow> nat \<Rightarrow> u16 \<Rightarrow> fsys \<Rightarrow> bool" where
  "access_ok im i mode s =
     (let x = inodes s i; t = cur (kern s);
          res = (if t_uid t = i_uid x then drop_bit 6 im
                 else if t_gid t = ucast (i_gid x) then drop_bit 6 im else im)
      in res AND 7 AND mode = mode \<or> t_uid t = 0 \<and> (mode AND 1 = 0 \<or> im AND 0x49 \<noteq> 0))"

definition sys_access :: "env \<Rightarrow> text_ptr \<Rightarrow> u16 \<Rightarrow> fsys \<Rightarrow> int fres" where
  "sys_access E path mode =
     with_inode E EACCES path (\<lambda>i s.
       let im = i_mode (inodes s i) AND 0x1ff in
       bindK (iput E (Some i) s) (\<lambda>_ s. retK (if access_ok im i (mode AND 7) s then 0 else - EACCES) s))"

definition sys_chdir :: "env \<Rightarrow> text_ptr \<Rightarrow> fsys \<Rightarrow> int fres" where
  "sys_chdir E path =
     with_inode E ENOENT path (\<lambda>i s.
       if \<not> S_ISDIR (i_mode (inodes s i)) then give_up E [i] (- ENOTDIR) s
       else bindK (iput E (p_pwd s (me s)) s) (\<lambda>_ s. retK 0 (s\<lparr>p_pwd := (p_pwd s)(me s := Some i)\<rparr>)))"

definition sys_chroot :: "env \<Rightarrow> text_ptr \<Rightarrow> fsys \<Rightarrow> int fres" where
  "sys_chroot E path =
     with_inode E ENOENT path (\<lambda>i s.
       if \<not> S_ISDIR (i_mode (inodes s i)) then give_up E [i] (- ENOTDIR) s
       else bindK (iput E (p_root s (me s)) s) (\<lambda>_ s. retK 0 (s\<lparr>p_root := (p_root s)(me s := Some i)\<rparr>)))"

definition sys_chmod :: "env \<Rightarrow> text_ptr \<Rightarrow> u16 \<Rightarrow> fsys \<Rightarrow> int fres" where
  "sys_chmod E path mode =
     with_inode E ENOENT path (\<lambda>i s.
       if t_euid (cur (kern s)) \<noteq> i_uid (inodes s i) \<and> \<not> suser (kern s) then give_up E [i] (- EACCES) s
       else give_up E [i] 0 (upd_inode i (\<lambda>x. x\<lparr>
              i_mode := (mode AND 0xfff) OR (i_mode x AND NOT 0xfff), i_dirt := True\<rparr>) s))"

definition sys_chown :: "env \<Rightarrow> text_ptr \<Rightarrow> u16 \<Rightarrow> u8 \<Rightarrow> fsys \<Rightarrow> int fres" where
  "sys_chown E path uid gid =
     with_inode E ENOENT path (\<lambda>i s.
       if \<not> suser (kern s) then give_up E [i] (- EACCES) s
       else give_up E [i] 0 (upd_inode i (\<lambda>x. x\<lparr>i_uid := uid, i_gid := gid, i_dirt := True\<rparr>) s))"

abbreviation (input) O_NOCTTY :: u32 where "O_NOCTTY \<equiv> 0x100"
abbreviation (input) O_NONBLOCK :: u32 where "O_NONBLOCK \<equiv> 0x800"
abbreviation (input) O_APPEND :: u32 where "O_APPEND \<equiv> 0x400"

definition fs_upd_tty :: "nat \<Rightarrow> (tty_struct \<Rightarrow> tty_struct) \<Rightarrow> fsys \<Rightarrow> fsys" where
  "fs_upd_tty i f s = s\<lparr>ttys := (ttys s)\<lparr>tty_table := (tty_table (ttys s))(i := f (tty_table (ttys s) i))\<rparr>\<rparr>"

definition raw_mode :: "termios \<Rightarrow> termios" where
  "raw_mode t = t\<lparr>c_cc := (c_cc t)(VMIN := 0, VTIME := 0), c_lflag := c_lflag t AND NOT ICANON\<rparr>"

text \<open>\<^verbatim>\<open>check_char_dev\<close>; \<open>False\<close> is its \<^verbatim>\<open>-1\<close>.\<close>

definition check_char_dev :: "nat \<Rightarrow> dev \<Rightarrow> u32 \<Rightarrow> fsys \<Rightarrow> bool \<times> fsys" where
  "check_char_dev i d flag s =
     (if MAJOR d \<noteq> 4 \<and> MAJOR d \<noteq> 5 then (True, s)
      else
        let t = cur (kern s); m = (if MAJOR d = 5 then t_tty t else int (MINOR d)) in
        if m < 0 \<or> IS_A_PTY_MASTER (nat m) \<and> 1 < i_count (inodes s i) then (False, s)
        else
          let n = TTY_TABLE (nat m) \<lparr>tk = kern s, tt = ttys s\<rparr>;
              s = (if flag AND O_NOCTTY = 0 \<and> t_leader t \<noteq> 0 \<and> t_tty t < 0 \<and> tt_session (tty_table (ttys s) n) = 0
                   then fs_upd_tty n (\<lambda>y. y\<lparr>tt_session := t_session t, tt_pgrp := t_pgrp t\<rparr>)
                          (upd_kernel (upd_cur (\<lambda>t. t\<lparr>t_tty := m\<rparr>)) s)
                   else s);
              s = (if flag AND O_NONBLOCK \<noteq> 0 then fs_upd_tty n (\<lambda>y. y\<lparr>termios := raw_mode (termios y)\<rparr>) s else s)
          in (True, s))"

definition set_cloexec :: "nat \<Rightarrow> bool \<Rightarrow> fsys \<Rightarrow> fsys" where
  "set_cloexec fd v s = s\<lparr>p_close_on_exec := (p_close_on_exec s)(me s :=
     (if v then set_bit fd (p_close_on_exec s (me s)) else unset_bit fd (p_close_on_exec s (me s))))\<rparr>"

definition finish_open :: "env \<Rightarrow> nat \<Rightarrow> nat \<Rightarrow> nat \<Rightarrow> u32 \<Rightarrow> fsys \<Rightarrow> int fres" where
  "finish_open E fd f i flag s =
     (let m = i_mode (inodes s i);
          (ok, s) = (if S_ISCHR m then check_char_dev i (i_zone (inodes s i) 0) flag s else (True, s))
      in if \<not> ok then bindK (iput E (Some i) s) (\<lambda>_ s. retK (- EAGAIN) (set_f_count f 0 (set_filp fd None s)))
         else bindK (if S_ISBLK m then check_disk_change E (i_zone (inodes s i) 0) s else retK () s) (\<lambda>_ s.
           retK (int fd) (upd_file f (\<lambda>x. x\<lparr>f_mode := i_mode (inodes s i), f_flags := ucast flag, f_count := 1,
                                           f_inode := Some i, f_pos := 0\<rparr>) s)))"

definition sys_open :: "env \<Rightarrow> text_ptr \<Rightarrow> u32 \<Rightarrow> u16 \<Rightarrow> fsys \<Rightarrow> int fres" where
  "sys_open E path flag mode s =
     (case List.find (\<lambda>fd. p_filp s (me s) fd = None) [0..<NR_OPEN] of None \<Rightarrow> retK (- EINVAL) s
      | Some fd \<Rightarrow>
        let s = set_cloexec fd False s in
        (case List.find (\<lambda>f. f_count (files s f) = 0) [0..<NR_FILE] of None \<Rightarrow> retK (- EINVAL) s
         | Some f \<Rightarrow>
           bindK (open_namei E path flag (new_mode mode s) (set_f_count f 1 (set_filp fd (Some f) s))) (\<lambda>(e, r) s.
             if e < 0 then retK e (set_f_count f 0 (set_filp fd None s))
             else finish_open E fd f (the r) flag s)))"

definition sys_creat :: "env \<Rightarrow> text_ptr \<Rightarrow> u16 \<Rightarrow> fsys \<Rightarrow> int fres" where
  "sys_creat E path mode = sys_open E path (O_CREAT OR O_TRUNC) mode"

definition sys_close :: "env \<Rightarrow> nat \<Rightarrow> fsys \<Rightarrow> int fres" where
  "sys_close E fd s =
     (if NR_OPEN \<le> fd then retK (- EINVAL) s
      else
        let s = set_cloexec fd False s in
        (case p_filp s (me s) fd of None \<Rightarrow> retK (- EINVAL) s
         | Some f \<Rightarrow>
             let s = set_filp fd None s; c = f_count (files s f) in
             if c = 0 then stopK (Panic ''Close: file count is 0'') s
             else let s = set_f_count f (c - 1) s in
               if c - 1 \<noteq> 0 then retK 0 s
               else bindK (iput E (f_inode (files s f)) s) (\<lambda>_ s. retK 0 s)))"

subsection \<open>\<^verbatim>\<open>fcntl.c\<close>\<close>

definition dupfd :: "nat \<Rightarrow> nat \<Rightarrow> fsys \<Rightarrow> int \<times> fsys" where
  "dupfd fd arg s =
     (case fd_file fd s of None \<Rightarrow> (- EBADF, s)
      | Some f \<Rightarrow>
        if NR_OPEN \<le> arg then (- EINVAL, s)
        else (case List.find (\<lambda>d. p_filp s (me s) d = None) [arg..<NR_OPEN] of None \<Rightarrow> (- EMFILE, s)
          | Some d \<Rightarrow>
              (int d, set_f_count f (f_count (files s f) + 1) (set_filp d (Some f) (set_cloexec d False s)))))"

definition sys_dup2 :: "env \<Rightarrow> nat \<Rightarrow> nat \<Rightarrow> fsys \<Rightarrow> int fres" where
  "sys_dup2 E oldfd newfd s =
     bindK (sys_close E newfd s) (\<lambda>_ s. case dupfd oldfd newfd s of (r, s) \<Rightarrow> retK r s)"

definition sys_dup :: "nat \<Rightarrow> fsys \<Rightarrow> int \<times> fsys" where
  "sys_dup fd s = dupfd fd 0 s"

definition sys_fcntl :: "nat \<Rightarrow> nat \<Rightarrow> u32 \<Rightarrow> fsys \<Rightarrow> int \<times> fsys" where
  "sys_fcntl fd cmd arg s =
     (case fd_file fd s of None \<Rightarrow> (- EBADF, s)
      | Some f \<Rightarrow>
        if cmd = 0 then dupfd fd (unat arg) s
        else if cmd = 1 then (if bit (p_close_on_exec s (me s)) fd then 1 else 0, s)
        else if cmd = 2 then (0, set_cloexec fd (odd arg) s)
        else if cmd = 3 then (uint (f_flags (files s f)), s)
        else if cmd = 4 then
          (0, upd_file f (\<lambda>x. x\<lparr>f_flags := (f_flags x AND NOT 0xc00) OR (ucast arg AND 0xc00)\<rparr>) s)
        else (-1, s))"

subsection \<open>\<^verbatim>\<open>stat.c\<close>\<close>

definition stat_bytes :: "(nat \<Rightarrow> u8) \<Rightarrow> m_inode \<Rightarrow> u8 list" where
  "stat_bytes junk x =
     short_bytes (i_dev x) @ short_bytes (i_num x) @ short_bytes (i_mode x) @ [i_nlinks x, junk 0] @
     short_bytes (i_uid x) @ short_bytes (ucast (i_gid x)) @ short_bytes (i_zone x 0) @ [junk 1, junk 2] @
     long_bytes (i_size x) @ long_bytes (i_atime x) @ long_bytes (i_mtime x) @ long_bytes (i_ctime x)"

definition cp_stat :: "(nat \<Rightarrow> u8) \<Rightarrow> nat \<Rightarrow> u32 \<Rightarrow> fsys \<Rightarrow> fsys" where
  "cp_stat junk i statbuf s = user_put (stat_bytes junk (inodes s i)) statbuf s"

definition sys_stat :: "(nat \<Rightarrow> u8) \<Rightarrow> env \<Rightarrow> text_ptr \<Rightarrow> u32 \<Rightarrow> fsys \<Rightarrow> int fres" where
  "sys_stat junk E path statbuf = with_inode E ENOENT path (\<lambda>i s. give_up E [i] 0 (cp_stat junk i statbuf s))"

definition sys_lstat :: "(nat \<Rightarrow> u8) \<Rightarrow> env \<Rightarrow> text_ptr \<Rightarrow> u32 \<Rightarrow> fsys \<Rightarrow> int fres" where
  "sys_lstat junk E path statbuf s =
     bindK (lnamei E path s) (\<lambda>r s.
       case r of None \<Rightarrow> retK (- ENOENT) s | Some i \<Rightarrow> give_up E [i] 0 (cp_stat junk i statbuf s))"

definition sys_fstat :: "(nat \<Rightarrow> u8) \<Rightarrow> nat \<Rightarrow> u32 \<Rightarrow> fsys \<Rightarrow> int \<times> fsys" where
  "sys_fstat junk fd statbuf s =
     (case fd_file fd s of None \<Rightarrow> (- EBADF, s)
      | Some f \<Rightarrow> (case f_inode (files s f) of None \<Rightarrow> (- EBADF, s)
                  | Some i \<Rightarrow> (0, cp_stat junk i statbuf s)))"

definition sys_readlink :: "env \<Rightarrow> text_ptr \<Rightarrow> u32 \<Rightarrow> int \<Rightarrow> fsys \<Rightarrow> int fres" where
  "sys_readlink E path buf bufsiz s =
     (if bufsiz \<le> 0 then retK (- EBADF) s
      else let n = min (nat bufsiz) 1023 in
        bindK (lnamei E path s) (\<lambda>r s.
          case r of None \<Rightarrow> retK (- ENOENT) s
          | Some i \<Rightarrow>
            let z = unat (i_zone (inodes s i) 0) in
            bindK (if z \<noteq> 0 then bread E (i_dev (inodes s i)) z s else retK None s) (\<lambda>bh s.
              bindK (iput E (Some i) s) (\<lambda>_ s.
                case bh of None \<Rightarrow> retK 0 s
                | Some b \<Rightarrow>
                    let cs = takeWhile (\<lambda>c. c \<noteq> 0) (map (b_data (bufs s b)) [0..<n]) in
                    bindK (brelse E (Some b) (user_put cs buf s)) (\<lambda>_ s. retK (int (length cs)) s)))))"

subsection \<open>\<^verbatim>\<open>ioctl.c\<close>\<close>

definition sys_ioctl :: "u8 \<Rightarrow> env \<Rightarrow> nat \<Rightarrow> u32 \<Rightarrow> u32 \<Rightarrow> fsys \<Rightarrow> int fres" where
  "sys_ioctl junk E fd cmd arg s =
     (case fd_file fd s of None \<Rightarrow> retK (- EBADF) s
      | Some f \<Rightarrow>
        (case f_inode (files s f) of None \<Rightarrow> stopK (Wild ''sys_ioctl: no inode'') s
         | Some i \<Rightarrow>
           let x = inodes s i; d = i_zone x 0 in
           if i_pipe x then
             (if f_mode (files s f) AND 1 \<noteq> 0 then (case pipe_ioctl i cmd arg s of (r, s) \<Rightarrow> retK r s)
              else retK (- EBADF) s)
           else if \<not> S_ISCHR (i_mode x) \<and> \<not> S_ISBLK (i_mode x) then retK (- EINVAL) s
           else if 8 \<le> MAJOR d then retK (- ENODEV) s
           else if MAJOR d = 4 \<or> MAJOR d = 5 then on_tty (tty_ioctl junk (term_env E) d cmd arg) s
           else retK (- ENOTTY) s))"

end
