(* ===== verification/File_Props.thy ===== *)
theory File_Props
  imports Open Fs_Samples
begin

section \<open>Descriptors and positions\<close>

text \<open>
  The descriptor tables of the processes and the file table (\<^verbatim>\<open>fs/{fcntl,open,read_write}.c\<close>):
  \<^verbatim>\<open>f_count\<close> counts descriptors, and file positions are never negative.
\<close>

subsection \<open>Reference counts of files\<close>

definition holders :: "nat \<Rightarrow> fsys \<Rightarrow> (nat \<times> nat) set" where
  "holders f s = {(p, fd). p < 64 \<and> fd < NR_OPEN \<and> p_filp s p fd = Some f}"

text \<open>The count of an entry of the file table is the number of descriptors of all processes that refer
  to it.\<close>

definition counts_ok :: "fsys \<Rightarrow> bool" where
  "counts_ok s \<longleftrightarrow> (\<forall>f. unat (f_count (files s f)) = card (holders f s))"

lemma finite_holders [simp]: "finite (holders f s)"
  by (rule finite_subset[of _ "{..<64} \<times> {..<NR_OPEN}"]) (auto simp: holders_def)

lemma card_holders: "card (holders f s) \<le> 1280"
proof -
  have "card (holders f s) \<le> card ({..<64 :: nat} \<times> {..<20 :: nat})"
    by (rule card_mono) (auto simp: holders_def)
  then show ?thesis by simp
qed

lemma file_access_simps [simp]:
  "p_filp (set_cloexec fd w s) = p_filp s" "files (set_cloexec fd w s) = files s" "me (set_cloexec fd w s) = me s"
  "files (set_filp fd v s) = files s" "me (set_filp fd v s) = me s"
  "p_filp (set_filp fd v s) p = (if p = me s then (p_filp s p)(fd := v) else p_filp s p)"
  "p_filp (set_f_count f c s) = p_filp s" "me (set_f_count f c s) = me s"
  "files (set_f_count f c s) = (files s)(f := (files s f)\<lparr>f_count := c\<rparr>)"
  by (simp_all add: set_cloexec_def set_filp_def set_f_count_def me_def upd_file_def)

lemma holders_cong: "p_filp t = p_filp s \<Longrightarrow> holders f t = holders f s"
  by (simp add: holders_def)

lemma holders_set_filp:
  "me s < 64 \<Longrightarrow> fd < NR_OPEN \<Longrightarrow> p_filp s (me s) fd = None \<Longrightarrow>
   holders g (set_filp fd (Some f) s) = (if g = f then insert (me s, fd) (holders g s) else holders g s)"
  by (auto simp: holders_def split: if_splits)

lemma counts_ok_set:
  assumes "counts_ok s" "me s < 64" "fd < NR_OPEN" "p_filp s (me s) fd = None"
  shows "counts_ok (set_f_count f (f_count (files s f) + 1) (set_filp fd (Some f) s))"
    "unat (f_count (files s f) + 1) = unat (f_count (files s f)) + 1"
proof -
  have c: "unat (f_count (files s g)) = card (holders g s)" for g using assms(1) by (simp add: counts_ok_def)
  have "card (holders f s) + 1 < 2 ^ 16" using card_holders[of f s] by simp
  then show inc: "unat (f_count (files s f) + 1) = unat (f_count (files s f)) + 1"
    using c[of f] unat_word_ariths(1)[of "f_count (files s f)" 1] by simp
  have "(me s, fd) \<notin> holders f s" using assms(4) by (simp add: holders_def)
  then have "card (holders g (set_filp fd (Some f) s)) = (if g = f then Suc (card (holders g s)) else card (holders g s))" for g
    by (simp add: holders_set_filp[OF assms(2-4)])
  then show "counts_ok (set_f_count f (f_count (files s f) + 1) (set_filp fd (Some f) s))"
    unfolding counts_ok_def holders_cong[OF file_access_simps(7)]
    using c inc by auto
qed

text \<open>C33. Duplicating a descriptor. With correct counts, \<^verbatim>\<open>dupfd\<close> of an open descriptor
  returns the lowest free descriptor from \<open>arg\<close> on, which refers to the same file, and the counts are
  correct again; nothing but the new descriptor, its bit in \<^verbatim>\<open>close_on_exec\<close> and the count has changed. Closing it
  returns 0 without sleeping or touching an inode: but for that bit, which is clear, the whole state is as it was before.\<close>

theorem dup_close:
  assumes "counts_ok s" and "me s < 64" and "fd_file fd s = Some f"
    and "arg \<le> d" and "d < NR_OPEN" and "p_filp s (me s) d = None"
    and "\<forall>j. arg \<le> j \<longrightarrow> j < d \<longrightarrow> p_filp s (me s) j \<noteq> None"
  shows "\<exists>t u. dupfd fd arg s = (int d, t) \<and> fd_file d t = Some f \<and> counts_ok t \<and>
    t = s\<lparr>p_filp := (p_filp s)(me s := (p_filp s (me s))(d := Some f)),
      p_close_on_exec := (p_close_on_exec s)(me s := unset_bit d (p_close_on_exec s (me s))),
      files := (files s)(f := (files s f)\<lparr>f_count := f_count (files s f) + 1\<rparr>)\<rparr> \<and>
    sys_close E d t = Inr (0, u) \<and> counts_ok u \<and>
    u = s\<lparr>p_close_on_exec := (p_close_on_exec s)(me s := unset_bit d (p_close_on_exec s (me s)))\<rparr>"
proof -
  define s' where "s' = set_cloexec d False s"
  define t where "t = set_f_count f (f_count (files s f) + 1) (set_filp d (Some f) s')"
  have s': "p_filp s' = p_filp s" "files s' = files s" "me s' = me s" by (simp_all add: s'_def)
  have c': "counts_ok s'" using assms(1) by (simp add: counts_ok_def s' holders_cong[OF s'(1)])
  have "List.find (\<lambda>d. p_filp s (me s) d = None) [arg..<NR_OPEN] = Some d"
  proof (cases "List.find (\<lambda>d. p_filp s (me s) d = None) [arg..<NR_OPEN]")
    case None
    then show ?thesis using assms(4-6) unfolding find_None_upt by blast
  next
    case (Some k)
    from find_upt_least[OF this] have k: "arg \<le> k" "p_filp s (me s) k = None"
      "\<And>m. arg \<le> m \<Longrightarrow> m < k \<Longrightarrow> p_filp s (me s) m \<noteq> None" by auto
    have "k = d" using k assms(4,6,7) by (metis linorder_neqE_nat)
    then show ?thesis using Some by simp
  qed
  then have dup: "dupfd fd arg s = (int d, t)"
    using assms(3-5) by (simp add: dupfd_def t_def s'_def)
  have t: "p_filp t (me s) d = Some f" "me t = me s" by (simp_all add: t_def s')
  have ct: "counts_ok t" and inc: "unat (f_count (files s f) + 1) = unat (f_count (files s f)) + 1"
    using counts_ok_set[OF c', of d f] assms(2,5,6) by (simp_all add: t_def s')
  have "(me s, fd) \<in> holders f s"
    using assms(2,3) by (auto simp: holders_def fd_file_def split: if_splits)
  then have "0 < card (holders f s)" using card_gt_0_iff finite_holders by blast
  then have pos: "f_count (files s f) \<noteq> 0" using assms(1) by (metis counts_ok_def less_irrefl unat_0)
  define u where "u = set_f_count f (f_count (files s f)) (set_filp d None (set_cloexec d False t))"
  have "f_count (files s f) + 1 \<noteq> 0" using inc by (metis Suc_eq_plus1 nat.distinct(1) unat_0)
  then have cl: "sys_close E d t = Inr (0, u)"
    using assms(5) pos t by (simp add: sys_close_def Let_def u_def retK_def) (simp add: t_def s')
  have fu: "files u = files s" by (simp add: u_def t_def s')
  have pu: "p_filp u = p_filp s" using assms(6) by (auto simp: u_def t_def s' fun_eq_iff)
  have "counts_ok u" using assms(1) by (simp add: counts_ok_def fu holders_cong[OF pu])
  moreover have off: "set_cloexec d False s = s\<lparr>p_close_on_exec := (p_close_on_exec s)(me s := unset_bit d (p_close_on_exec s (me s)))\<rparr>"
    by (simp add: set_cloexec_def)
  moreover have "t = s\<lparr>p_filp := (p_filp s)(me s := (p_filp s (me s))(d := Some f)),
      p_close_on_exec := (p_close_on_exec s)(me s := unset_bit d (p_close_on_exec s (me s))),
      files := (files s)(f := (files s f)\<lparr>f_count := f_count (files s f) + 1\<rparr>)\<rparr>"
    by (simp add: t_def s'_def off set_f_count_def set_filp_def upd_file_def me_def)
  moreover have "u = s\<lparr>p_close_on_exec := (p_close_on_exec s)(me s := unset_bit d (p_close_on_exec s (me s)))\<rparr>"
  proof -
    have twice: "unset_bit d (unset_bit d w) = unset_bit d w" for w :: u32
      by (rule bit_eqI) (auto simp: bit_simps)
    have "u = (set_cloexec d False s)\<lparr>p_filp := p_filp u, files := files u\<rparr>"
      by (simp add: u_def t_def s'_def set_f_count_def set_filp_def upd_file_def set_cloexec_def me_def twice)
    then show ?thesis by (simp add: fu pu off)
  qed
  ultimately show ?thesis using dup ct cl t assms(5) by (simp add: fd_file_def)
qed

definition fs_files :: fsys where
  "fs_files = fsys0\<lparr>p_filp := (\<lambda>p fd. if p = 1 \<and> fd < 2 then Some fd else None),
     files := (\<lambda>f. if f < 2 then file0\<lparr>f_count := 1, f_inode := Some 7\<rparr> else file0)\<rparr>"

theorem dup_close_witness:
  "\<exists>t u. dupfd 1 0 fs_files = (2, t) \<and> fd_file 2 t = Some 1 \<and> sys_close env0 2 t = Inr (0, u) \<and>
     p_filp u = p_filp fs_files \<and> files u = files fs_files"
proof -
  have me: "me fs_files = 1" by (simp add: me_def fs_files_def fsys0_def)
  have p: "p_filp fs_files q fd = (if q = 1 \<and> fd < 2 then Some fd else None)" for q fd by (simp add: fs_files_def)
  have "holders f fs_files = (if f < 2 then {(1, f)} else {})" for f
    by (auto simp: holders_def p split: if_splits)
  then have c: "counts_ok fs_files" by (simp add: counts_ok_def) (simp add: fs_files_def file0_def)
  have "\<forall>j. 0 \<le> j \<longrightarrow> j < 2 \<longrightarrow> p_filp fs_files (me fs_files) j \<noteq> None" by (simp add: p me)
  from dup_close[OF c _ _ _ _ _ this, of 1 1 env0] show ?thesis
    by (auto simp: me p fd_file_def)
qed

subsection \<open>Positions\<close>

text \<open>The file and inode a call of \<^verbatim>\<open>lseek\<close> is about, if there is one.\<close>

definition seek_target :: "nat \<Rightarrow> fsys \<Rightarrow> (nat \<times> nat) option" where
  "seek_target fd s =
     (case fd_file fd s of None \<Rightarrow> None
      | Some f \<Rightarrow>
        (case f_inode (files s f) of None \<Rightarrow> None
         | Some i \<Rightarrow> if MAJOR (i_dev (inodes s i)) \<in> {1, 2, 3} then Some (f, i) else None))"

text \<open>The position it asks for.\<close>

definition seek_pos :: "int \<Rightarrow> int \<Rightarrow> nat \<Rightarrow> nat \<Rightarrow> fsys \<Rightarrow> int" where
  "seek_pos offset origin f i s =
     wrap ((if origin = 0 then 0 else if origin = 1 then f_pos (files s f) else uint (i_size (inodes s i))) + offset)"

lemma wrap_small: "- (2 ^ 31) \<le> x \<Longrightarrow> x < 2 ^ 31 \<Longrightarrow> wrap x = x"
  using signed_take_bit_int_eq_self[of 31 x] by (simp add: wrap_def signed_of_int)

lemma wrap_less: "wrap x < 2 ^ 31"
  using sint_lt[of "of_int x :: u32"] by (simp add: wrap_def)

text \<open>Errors of \<^verbatim>\<open>lseek\<close>. For an offset that is a 32-bit \<^verbatim>\<open>long\<close>: the call
  fails with \<^verbatim>\<open>EBADF\<close> exactly when the descriptor is not open or has no inode on a device with
  major number 1 to 3, else with \<^verbatim>\<open>ESPIPE\<close> exactly for a pipe, else with
  \<^verbatim>\<open>EINVAL\<close> exactly when the origin is unknown or the position asked for is negative as a
  \<^verbatim>\<open>long\<close>; a call that fails changes nothing. Any other call returns the position asked for,
  which is from 0 to the largest \<^verbatim>\<open>long\<close>, and changes the position of that file only.\<close>

theorem lseek_errors:
  assumes "- (2 ^ 31) \<le> offset" and "offset < 2 ^ 31" and "sys_lseek fd offset origin s = (r, t)"
  shows "case seek_target fd s of
      None \<Rightarrow> r = - EBADF \<and> t = s
    | Some (f, i) \<Rightarrow>
        if i_pipe (inodes s i) then r = - ESPIPE \<and> t = s
        else if origin \<notin> {0, 1, 2} \<or> seek_pos offset origin f i s < 0 then r = - EINVAL \<and> t = s
        else r = seek_pos offset origin f i s \<and> 0 \<le> r \<and> r < 2 ^ 31 \<and> t = set_pos f r s"
proof (cases "fd_file fd s")
  case None
  with assms(3) show ?thesis by (simp add: sys_lseek_def seek_target_def)
next
  case (Some f)
  show ?thesis
  proof (cases "f_inode (files s f)")
    case None
    with Some assms(3) show ?thesis by (simp add: sys_lseek_def seek_target_def)
  next
    case i: (Some i)
    have m: "(x < 1 \<or> 3 < x) = (x \<notin> {1, 2, 3})" for x :: nat by auto
    show ?thesis
      using assms(2,3) wrap_small[OF assms(1,2)] wrap_less
      unfolding sys_lseek_def Let_def m
      by (auto simp: Some i seek_target_def seek_pos_def not_less split: if_splits)
  qed
qed

theorem lseek_errors_witness:
  "sys_lseek 1 500 0 fs_files = (- EBADF, fs_files) \<and> - EBADF < 0 \<and>
   (let s = fs_files\<lparr>inodes := (\<lambda>_. zero_inode\<lparr>i_dev := 0x301, i_size := 100\<rparr>)\<rparr>
    in sys_lseek 1 (-40) 2 s = (60, set_pos 1 60 s))"
proof -
  define s where "s = fs_files\<lparr>inodes := (\<lambda>_. zero_inode\<lparr>i_dev := 0x301, i_size := 100\<rparr>)\<rparr>"
  have f: "fd_file 1 fs_files = Some 1" "fd_file 1 s = Some 1"
    by (simp_all add: fd_file_def me_def s_def fs_files_def fsys0_def)
  have i: "f_inode (files fs_files 1) = Some 7" "f_inode (files s 1) = Some 7" by (simp_all add: s_def fs_files_def)
  have "MAJOR (i_dev (inodes fs_files 7)) = 0" "MAJOR (i_dev (inodes s 7)) = 3"
    by (simp_all add: MAJOR_def s_def fs_files_def fsys0_def zero_inode_def)
  with f i have tg: "seek_target 1 fs_files = None" "seek_target 1 s = Some (1, 7)"
    by (simp_all add: seek_target_def)
  have pos: "seek_pos (-40) 2 1 7 s = 60" by (simp add: seek_pos_def wrap_def s_def zero_inode_def)
  have np: "\<not> i_pipe (inodes s 7)" by (simp add: s_def zero_inode_def)
  obtain r t where 1: "sys_lseek 1 500 0 fs_files = (r, t)" by fastforce
  obtain r' t' where 2: "sys_lseek 1 (-40) 2 s = (r', t')" by fastforce
  from lseek_errors[OF _ _ 1] lseek_errors[OF _ _ 2] 1 2 tg pos np
  have "sys_lseek 1 500 0 fs_files = (- EBADF, fs_files)" "sys_lseek 1 (-40) 2 s = (60, set_pos 1 60 s)"
    by simp_all
  then show ?thesis by (simp add: s_def[symmetric] Let_def)
qed

text \<open>\<^verbatim>\<open>access\<close> of a process in the file's group, but not its owner: it is given what the bits
  of the owner grant, because the mode is shifted by six.\<close>

lemma access_group_gets_owner_bits:
  assumes "t_uid (cur (kern s)) \<noteq> i_uid (inodes s i)" and "t_gid (cur (kern s)) = ucast (i_gid (inodes s i))"
    and "t_uid (cur (kern s)) \<noteq> 0"
  shows "access_ok im i mode s \<longleftrightarrow> drop_bit 6 im AND 7 AND mode = mode"
  using assms by (simp add: access_ok_def Let_def)

end
