(* ===== verification/Vsprintf.thy ===== *)
theory Vsprintf
  imports Kprelude
begin

section \<open>Formatted printing\<close>

text \<open>
  \<^verbatim>\<open>kernel/vsprintf.c\<close>. Formats and results are lists of characters, without the final
  \<^verbatim>\<open>'\0'\<close>. An argument is a 32-bit value or a string (a \<^verbatim>\<open>char *\<close>, as the string
  it points to). What \<^verbatim>\<open>%n\<close> stores is returned beside the text, as pairs of the pointer and the
  number. The result is \<open>None\<close> where \<^verbatim>\<open>va_arg\<close> would read an argument that is not there, or
  one of the other kind.
\<close>

datatype arg = Num u32 | Str string

subsection \<open>Numbers\<close>

definition is_digit :: "char \<Rightarrow> bool" where
  "is_digit c \<longleftrightarrow> (of_char c :: nat) \<in> {48..57}"

definition digit_value :: "char \<Rightarrow> nat" where
  "digit_value c = of_char c - 48"

text \<open>The accumulator is a 32-bit \<^verbatim>\<open>int\<close> and wraps.\<close>

primrec atoi_loop :: "u32 \<Rightarrow> string \<Rightarrow> u32 \<times> string" where
  "atoi_loop i [] = (i, [])"
| "atoi_loop i (c # cs) =
     (if is_digit c then atoi_loop (i * 10 + of_nat (digit_value c)) cs else (i, c # cs))"

definition skip_atoi :: "string \<Rightarrow> int \<times> string" where
  "skip_atoi s = (let (i, rest) = atoi_loop 0 s in (sint i, rest))"

definition ZEROPAD :: u32 where "ZEROPAD = 1"
definition SIGN :: u32 where "SIGN = 2"
definition PLUS :: u32 where "PLUS = 4"
definition SPACE :: u32 where "SPACE = 8"
definition LEFT_flag :: u32 where "LEFT_flag = 16"
definition SPECIAL :: u32 where "SPECIAL = 32"
definition SMALL :: u32 where "SMALL = 64"

lemmas flag_consts = ZEROPAD_def SIGN_def PLUS_def SPACE_def LEFT_flag_def SPECIAL_def SMALL_def

definition big_digits :: string where "big_digits = ''0123456789ABCDEFGHIJKLMNOPQRSTUVWXYZ''"
definition small_digits :: string where "small_digits = ''0123456789abcdefghijklmnopqrstuvwxyz''"

text \<open>The array \<^verbatim>\<open>tmp\<close>: the digits of the number, the last one first.\<close>

fun put_digits :: "string \<Rightarrow> nat \<Rightarrow> nat \<Rightarrow> string" where
  "put_digits digits base num =
     (if num = 0 \<or> base < 2 then [] else (digits ! (num mod base)) # put_digits digits base (num div base))"

declare put_digits.simps [simp del]

definition num_digits :: "string \<Rightarrow> nat \<Rightarrow> nat \<Rightarrow> string" where
  "num_digits digits base num = (if num = 0 then ''0'' else put_digits digits base num)"

text \<open>\<^verbatim>\<open>while (size-- > 0) *str++ = c\<close>: what is written, and \<^verbatim>\<open>size\<close> afterwards.\<close>

definition pad :: "char \<Rightarrow> int \<Rightarrow> string" where
  "pad c n = replicate (nat n) c"

definition padded :: "int \<Rightarrow> int" where
  "padded n = (if 0 < n then -1 else n - 1)"

definition sign_of :: "u32 \<Rightarrow> u32 \<Rightarrow> string" where
  "sign_of num type =
     (if type AND SIGN \<noteq> 0 \<and> num <s 0 then ''-''
      else if type AND PLUS \<noteq> 0 then ''+'' else if type AND SPACE \<noteq> 0 then '' '' else [])"

definition special_of :: "string \<Rightarrow> nat \<Rightarrow> u32 \<Rightarrow> string" where
  "special_of digits base type =
     (if type AND SPECIAL = 0 then []
      else if base = 8 then ''0'' else if base = 16 then [CHR ''0'', digits ! 33] else [])"

definition number :: "u32 \<Rightarrow> nat \<Rightarrow> int \<Rightarrow> int \<Rightarrow> u32 \<Rightarrow> string option" where
  "number num base room precision type =
     (let digits = (if type AND SMALL \<noteq> 0 then small_digits else big_digits);
          type = (if type AND LEFT_flag \<noteq> 0 then type AND NOT ZEROPAD else type)
      in if base < 2 \<or> 36 < base then None
         else
           let c = (if type AND ZEROPAD \<noteq> 0 then CHR ''0'' else CHR '' '');
               sign = sign_of num type;
               num = (if type AND SIGN \<noteq> 0 \<and> num <s 0 then - num else num);
               special = special_of digits base type;
               room = room - int (length sign) - int (length special);
               tmp = num_digits digits base (unat num);
               i = int (length tmp);
               precision = (if precision < i then i else precision);
               room = room - precision;
               (before, room) = (if type AND (ZEROPAD + LEFT_flag) = 0 then (pad CHR '' '' room, padded room) else ([], room));
               (middle, room) = (if type AND LEFT_flag = 0 then (pad c room, padded room) else ([], room))
           in Some (before @ sign @ special @ middle @ pad CHR ''0'' (precision - i) @ rev tmp @ pad CHR '' '' room))"

subsection \<open>Formats\<close>

text \<open>The parts of a conversion, each with the rest of the format.\<close>

fun parse_flags :: "u32 \<Rightarrow> string \<Rightarrow> u32 \<times> string" where
  "parse_flags flags (c # cs) =
     (if c = CHR ''-'' then parse_flags (flags OR LEFT_flag) cs
      else if c = CHR ''+'' then parse_flags (flags OR PLUS) cs
      else if c = CHR '' '' then parse_flags (flags OR SPACE) cs
      else if c = CHR ''#'' then parse_flags (flags OR SPECIAL) cs
      else if c = CHR ''0'' then parse_flags (flags OR ZEROPAD) cs
      else (flags, c # cs))"
| "parse_flags flags [] = (flags, [])"

text \<open>The star takes an argument but is not skipped, as the code has it.\<close>

fun parse_width :: "u32 \<Rightarrow> string \<Rightarrow> arg list \<Rightarrow> (int \<times> u32 \<times> string \<times> arg list) option" where
  "parse_width flags [] args = Some (-1, flags, [], args)"
| "parse_width flags (c # cs) args =
     (if is_digit c then (let (w, rest) = skip_atoi (c # cs) in Some (w, flags, rest, args))
      else if c = CHR ''*'' then
        (case args of
           Num v # args \<Rightarrow>
             if v <s 0 then Some (sint (- v), flags OR LEFT_flag, c # cs, args)
             else Some (sint v, flags, c # cs, args)
         | _ \<Rightarrow> None)
      else Some (-1, flags, c # cs, args))"

fun parse_precision :: "string \<Rightarrow> arg list \<Rightarrow> (int \<times> string \<times> arg list) option" where
  "parse_precision (CHR ''.'' # cs) args =
     (case cs of
        [] \<Rightarrow> Some (0, [], args)
      | c # _ \<Rightarrow>
          if is_digit c then (let (p, rest) = skip_atoi cs in Some (max 0 p, rest, args))
          else if c = CHR ''*'' then
            (case args of Num v # args \<Rightarrow> Some (max 0 (sint v), cs, args) | _ \<Rightarrow> None)
          else Some (0, cs, args))"
| "parse_precision cs args = Some (-1, cs, args)"

definition skip_qualifier :: "string \<Rightarrow> string" where
  "skip_qualifier s =
     (case s of [] \<Rightarrow> [] | c # cs \<Rightarrow> if c = CHR ''h'' \<or> c = CHR ''l'' \<or> c = CHR ''L'' then cs else s)"

definition put_char :: "u32 \<Rightarrow> u32 \<Rightarrow> int \<Rightarrow> string" where
  "put_char v flags field_width =
     (let c = char_of (unat (v AND 0xff)); n = field_width - 1 in
      if flags AND LEFT_flag = 0 then pad CHR '' '' n @ [c] else [c] @ pad CHR '' '' n)"

definition put_string :: "string \<Rightarrow> u32 \<Rightarrow> int \<Rightarrow> int \<Rightarrow> string" where
  "put_string s flags field_width precision =
     (let len = int (length s);
          len = (if precision < 0 then len else if precision < len then precision else len);
          fill = pad CHR '' '' (field_width - len);
          txt = take (nat len) s
      in if flags AND LEFT_flag = 0 then fill @ txt else txt @ fill)"

text \<open>One conversion: the text, what is stored, the rest of the format and of the arguments.
  \<open>n\<close> is the length of the text so far.\<close>

type_synonym piece = "string \<times> (u32 \<times> int) list \<times> string \<times> arg list"

definition put_number ::
    "nat \<Rightarrow> int \<Rightarrow> int \<Rightarrow> u32 \<Rightarrow> string \<Rightarrow> arg list \<Rightarrow> piece option" where
  "put_number base field_width precision flags rest args =
     (case args of
        Num v # args \<Rightarrow> map_option (\<lambda>t. (t, [], rest, args)) (number v base field_width precision flags)
      | _ \<Rightarrow> None)"

definition convert :: "nat \<Rightarrow> int \<Rightarrow> int \<Rightarrow> u32 \<Rightarrow> string \<Rightarrow> arg list \<Rightarrow> piece option" where
  "convert n w p flags fmt args =
     (case fmt of
        [] \<Rightarrow> Some (''%'', [], [], args)
      | c # rest \<Rightarrow>
          if c = CHR ''c'' then
            (case args of Num v # args \<Rightarrow> Some (put_char v flags w, [], rest, args) | _ \<Rightarrow> None)
          else if c = CHR ''s'' then
            (case args of Str s # args \<Rightarrow> Some (put_string s flags w p, [], rest, args) | _ \<Rightarrow> None)
          else if c = CHR ''o'' then put_number 8 w p flags rest args
          else if c = CHR ''p'' then
            (if w = -1 then put_number 16 8 p (flags OR ZEROPAD) rest args
             else put_number 16 w p flags rest args)
          else if c = CHR ''x'' then put_number 16 w p (flags OR SMALL) rest args
          else if c = CHR ''X'' then put_number 16 w p flags rest args
          else if c = CHR ''d'' \<or> c = CHR ''i'' then put_number 10 w p (flags OR SIGN) rest args
          else if c = CHR ''u'' then put_number 10 w p flags rest args
          else if c = CHR ''n'' then
            (case args of Num ip # args \<Rightarrow> Some ([], [(ip, int n)], rest, args) | _ \<Rightarrow> None)
          else Some ((if c \<noteq> CHR ''%'' then [CHR ''%'', c] else [c]), [], rest, args))"

definition conversion :: "nat \<Rightarrow> string \<Rightarrow> arg list \<Rightarrow> piece option" where
  "conversion n fmt args =
     (let (flags, fmt) = parse_flags 0 fmt in
      case parse_width flags fmt args of None \<Rightarrow> None
      | Some (w, flags, fmt, args) \<Rightarrow>
          (case parse_precision fmt args of None \<Rightarrow> None
           | Some (p, fmt, args) \<Rightarrow> convert n w p flags (skip_qualifier fmt) args))"

subsection \<open>The loop over the format\<close>

lemma length_atoi_loop: "length (snd (atoi_loop i s)) \<le> length s"
  by (induction s arbitrary: i) (auto intro: le_SucI)

lemma length_parse_flags: "parse_flags f s = (f', s') \<Longrightarrow> length s' \<le> length s"
  by (induction f s rule: parse_flags.induct) (auto split: if_splits)

lemma length_parse_width: "parse_width f s a = Some (w, f', s', a') \<Longrightarrow> length s' \<le> length s"
  using length_atoi_loop[of 0 s]
  by (cases s) (auto simp: skip_atoi_def simp del: atoi_loop.simps split: if_splits prod.splits list.splits arg.splits)

lemma length_parse_precision: "parse_precision s a = Some (p, s', a') \<Longrightarrow> length s' \<le> length s"
  using length_atoi_loop[of 0 "tl s"]
  by (induction s a rule: parse_precision.induct)
     (auto simp: skip_atoi_def simp del: atoi_loop.simps split: if_splits prod.splits list.splits arg.splits)

lemma length_skip_qualifier: "length (skip_qualifier s) \<le> length s"
  by (auto simp: skip_qualifier_def split: list.splits)

lemma length_convert: "convert n w p f s a = Some (t, st, s', a') \<Longrightarrow> length s' \<le> length s"
  by (auto simp: convert_def put_number_def split: list.splits if_splits arg.splits)

lemma length_conversion: "conversion n s a = Some (t, st, s', a') \<Longrightarrow> length s' \<le> length s"
  unfolding conversion_def
  by (auto simp: Let_def split: prod.splits option.splits dest!: length_parse_flags length_parse_width
      length_parse_precision length_convert intro: order_trans length_skip_qualifier)
     (meson length_skip_qualifier order_trans)

function format_loop :: "string \<Rightarrow> (u32 \<times> int) list \<Rightarrow> string \<Rightarrow> arg list \<Rightarrow> (string \<times> (u32 \<times> int) list) option" where
  "format_loop out st [] args = Some (out, st)"
| "format_loop out st (c # cs) args =
     (if c \<noteq> CHR ''%'' then format_loop (out @ [c]) st cs args
      else case conversion (length out) cs args of None \<Rightarrow> None
        | Some (t, st', cs', args') \<Rightarrow> format_loop (out @ t) (st @ st') cs' args')"
  by pat_completeness auto
termination
  by (relation "measure (\<lambda>(_, _, cs, _). length cs)") (auto dest!: length_conversion)

definition vsprintf :: "string \<Rightarrow> arg list \<Rightarrow> (string \<times> (u32 \<times> int) list) option" where
  "vsprintf fmt args = format_loop [] [] fmt args"

end
