(* ===== verification/Console.thy ===== *)
theory Console
  imports Tty_Ioctl Vsprintf
begin

section \<open>The console driver\<close>

text \<open>
  \<^verbatim>\<open>kernel/chr_drv/console.c\<close> from \<^verbatim>\<open>respond\<close> on, and
  \<^verbatim>\<open>kernel/printk.c\<close>: the state machine of \<^verbatim>\<open>con_write\<close>, which takes characters from the write
  queue of a terminal and draws on its screen, and the set-up of the screens. The set-up reads what
  \<^verbatim>\<open>boot/setup.S\<close> left at \<open>0x90000\<close>; these values are the parameter \<open>B\<close>.

  \<^verbatim>\<open>con_write\<close> answers an enquiry by putting characters into the terminal's read queue and calling
  \<^verbatim>\<open>copy_to_cooked\<close>, which may call \<^verbatim>\<open>con_write\<close> again to echo them. \<open>with_console n\<close> puts
  the routines of this theory into the parameters of the terminals, \<open>n\<close> levels deep.
\<close>

record boot_video =
  ORIG_X :: u8
  ORIG_Y :: u8
  ORIG_VIDEO_PAGE :: u16
  ORIG_VIDEO_MODE :: u8
  ORIG_VIDEO_COLS :: nat
  ORIG_VIDEO_LINES :: nat
  ORIG_VIDEO_EGA_BX :: u16

definition on_screen :: "(console \<Rightarrow> console) \<Rightarrow> tsys \<Rightarrow> tsys" where
  "on_screen f s = s\<lparr>tt := (tt s)\<lparr>screen := f (screen (tt s))\<rparr>\<rparr>"

definition the_vc :: "nat \<Rightarrow> tsys \<Rightarrow> vc" where
  "the_vc c s = vc_cons (screen (tt s)) c"

definition on_vc :: "nat \<Rightarrow> (vc \<Rightarrow> vc) \<Rightarrow> tsys \<Rightarrow> tsys" where
  "on_vc c f = on_screen (upd_vc c f)"

definition go :: "nat \<Rightarrow> esc_state \<Rightarrow> tsys \<Rightarrow> tsys" where
  "go c st = on_vc c (\<lambda>v. v\<lparr>vc_state := st\<rparr>)"

definition set_cursor :: "nat \<Rightarrow> tsys \<Rightarrow> tsys" where
  "set_cursor c s =
     on_screen (show_cursor (fg_console (tt s)) c) (upd_tk (\<lambda>k. k\<lparr>blankcount := blankinterval k\<rparr>) s)"

definition sysbeep :: "tenv \<Rightarrow> tsys \<Rightarrow> tsys" where
  "sysbeep E s =
     upd_tk (\<lambda>k. k\<lparr>beepcount := HZ div 8\<rparr>)
       (t_outb 0x06 0x42 (t_outb 0x37 0x42 (t_outb 0xB6 0x43 (t_outb (in_port E 0x61 s OR 3) 0x61 s))))"

definition sysbeepstop :: "tenv \<Rightarrow> tsys \<Rightarrow> tsys" where
  "sysbeepstop E s = t_outb (in_port E 0x61 s AND 0xFC) 0x61 s"

definition RESPONSE :: "u8 list" where
  "RESPONSE = [27, 91, 63, 49, 59, 50, 99]"

definition respond :: "tenv \<Rightarrow> nat \<Rightarrow> tsys \<Rightarrow> unit tres" where
  "respond E i s = copy_to_cooked E i (fold (\<lambda>ch s. upd_queue (rq i s) (PUTCH ch) s) RESPONSE s)"

definition DEF_TERMIOS :: termios where
  "DEF_TERMIOS = a_termios ICRNL (OPOST OR ONLCR) 0 (IXON OR ISIG OR ICANON OR ECHO OR ECHOCTL OR ECHOKE)"

subsection \<open>The states of \<^verbatim>\<open>con_write\<close>\<close>

definition normal_char :: "tenv \<Rightarrow> nat \<Rightarrow> u8 \<Rightarrow> tsys \<Rightarrow> tsys" where
  "normal_char E c ch s =
     (let fg = fg_console (tt s) in
      if 31 < ch \<and> ch < 127 then on_screen (\<lambda>k. put_glyph fg c (translated (vc_cons k c) ch) k) s
      else if ch = 27 then go c ESesc s
      else if ch = 10 \<or> ch = 11 \<or> ch = 12 then on_screen (lf fg c) s
      else if ch = 13 then on_screen (cr c) s
      else if cval ch = uint (cc VERASE c s) then on_screen (del c) s
      else if ch = 8 then on_screen (step_left c) s
      else if ch = 9 then on_screen (tab_stop fg c) s
      else if ch = 7 then sysbeep E s
      else if ch = 14 then on_vc c (\<lambda>v. v\<lparr>vc_graf := True\<rparr>) s
      else if ch = 15 then on_vc c (\<lambda>v. v\<lparr>vc_graf := False\<rparr>) s
      else s)"

definition next_line :: "nat \<Rightarrow> console \<Rightarrow> console" where
  "next_line c k = gotoxy c 0 (of_nat (vc_y (vc_cons k c)) + 1) k"

definition reset_terminal :: "nat \<Rightarrow> tsys \<Rightarrow> tsys" where
  "reset_terminal c s =
     on_screen (\<lambda>k. upd_vc c (\<lambda>v. v\<lparr>vc_state := ESnormal, vc_restate := ESnormal, vc_checkin := 0, vc_top := 0,
       vc_bottom := video_num_lines k\<rparr>) k) (upd_tty c (\<lambda>t. t\<lparr>termios := DEF_TERMIOS\<rparr>) s)"

definition esc_char :: "tenv \<Rightarrow> nat \<Rightarrow> u8 \<Rightarrow> tsys \<Rightarrow> unit tres" where
  "esc_char E c ch s =
     (let s = go c ESnormal s; fg = fg_console (tt s) in
      if ch = 91 then retK () (go c ESsquare s)
      else if ch = 69 then retK () (on_screen (next_line c) s)
      else if ch = 77 then retK () (on_screen (ri c) s)
      else if ch = 68 then retK () (on_screen (lf fg c) s)
      else if ch = 90 then respond E c s
      else if ch = 55 then retK () (on_screen (save_cur c) s)
      else if ch = 56 then retK () (on_screen (restore_cur c) s)
      else if ch = 40 \<or> ch = 41 then retK () (go c ESsetgraph s)
      else if ch = 80 then retK () (go c ESsetterm s)
      else if ch = 35 then retK () (go c ESnone s)
      else if ch = 99 then retK () (reset_terminal c s)
      else retK () s)"

text \<open>The codes \<^verbatim>\<open>l\<close> (blank interval) and \<^verbatim>\<open>b\<close> (bold attribute), guarded by two check
  parameters.\<close>

definition guarded_code :: "nat \<Rightarrow> u8 \<Rightarrow> tsys \<Rightarrow> tsys" where
  "guarded_code c ch s =
     (let v = the_vc c s; p = vc_par v in
      if \<not> (2 \<le> vc_npar v \<and> p 1 - 13 = p 0 \<and> p 2 - 17 = p 0) then s
      else
        let s = (if ch = 108 \<and> p 0 \<le> 60
                 then upd_tk (\<lambda>k. k\<lparr>blankinterval := HZ * 60 * uint (p 0), blankcount := HZ * 60 * uint (p 0)\<rparr>) s
                 else s)
        in if ch = 98 then on_vc c (\<lambda>v. v\<lparr>vc_bold_attr := sint (p 0)\<rparr>) s else s)"

definition gotpars_char :: "nat \<Rightarrow> u8 \<Rightarrow> tsys \<Rightarrow> tsys" where
  "gotpars_char c ch s =
     (let s = go c ESnormal s in
      if vc_ques (the_vc c s) then on_vc c (\<lambda>v. v\<lparr>vc_ques := False\<rparr>) s
      else if ch = 108 \<or> ch = 98 then guarded_code c ch s
      else on_screen (csi_dispatch (fg_console (tt s)) c ch) s)"

definition getpars_char :: "nat \<Rightarrow> u8 \<Rightarrow> tsys \<Rightarrow> tsys" where
  "getpars_char c ch s =
     (let v = the_vc c s in
      if ch = 59 \<and> vc_npar v < NPAR - 1 then on_vc c (\<lambda>v. v\<lparr>vc_npar := vc_npar v + 1\<rparr>) s
      else if 48 \<le> ch \<and> ch \<le> 57 then
        on_vc c (\<lambda>v. v\<lparr>vc_par := (vc_par v)(vc_npar v := 10 * vc_par v (vc_npar v) + ucast ch - 48)\<rparr>) s
      else gotpars_char c ch (go c ESgotpars s))"

definition square_char :: "nat \<Rightarrow> u8 \<Rightarrow> tsys \<Rightarrow> tsys" where
  "square_char c ch s =
     (let s = on_vc c (\<lambda>v. v\<lparr>vc_par := (\<lambda>n. if n < NPAR then 0 else vc_par v n), vc_npar := 0,
                vc_state := ESgetpars\<rparr>) s
      in if ch = 91 then go c ESfunckey s
         else let s = on_vc c (\<lambda>v. v\<lparr>vc_ques := (ch = 63)\<rparr>) s in
           if ch = 63 then s else getpars_char c ch s)"

definition setterm_char :: "nat \<Rightarrow> u8 \<Rightarrow> tsys \<Rightarrow> tsys" where
  "setterm_char c ch s =
     (let s = go c ESnormal s in
      if ch = 83 then on_vc c (\<lambda>v. v\<lparr>vc_def_attr := vc_attr v,
          vc_video_erase_char := (vc_video_erase_char v AND 0x0ff) OR push_bit 8 (ucast (vc_attr v))\<rparr>) s
      else s)"

definition setgraph_char :: "nat \<Rightarrow> u8 \<Rightarrow> tsys \<Rightarrow> tsys" where
  "setgraph_char c ch s =
     (let s = go c ESnormal s in
      if ch = 48 then on_vc c (\<lambda>v. v\<lparr>vc_graf := True\<rparr>) s
      else if ch = 66 then on_vc c (\<lambda>v. v\<lparr>vc_graf := False\<rparr>) s else s)"

definition con_char :: "tenv \<Rightarrow> nat \<Rightarrow> u8 \<Rightarrow> tsys \<Rightarrow> unit tres" where
  "con_char E c ch s =
     (let s = (if ch = 24 \<or> ch = 26 then go c ESnormal s else s) in
      case vc_state (the_vc c s) of
        ESnormal \<Rightarrow> retK () (normal_char E c ch s)
      | ESesc \<Rightarrow> esc_char E c ch s
      | ESsquare \<Rightarrow> retK () (square_char c ch s)
      | ESgetpars \<Rightarrow> retK () (getpars_char c ch s)
      | ESgotpars \<Rightarrow> retK () (gotpars_char c ch s)
      | ESfunckey \<Rightarrow> retK () (go c ESnormal s)
      | ESsetterm \<Rightarrow> retK () (setterm_char c ch s)
      | ESsetgraph \<Rightarrow> retK () (setgraph_char c ch s)
      | ESnone \<Rightarrow> retK () (go c ESnormal s))"

primrec con_loop :: "nat \<Rightarrow> tenv \<Rightarrow> nat \<Rightarrow> tsys \<Rightarrow> unit tres" where
  "con_loop 0 E c s = retK () s"
| "con_loop (Suc nr) E c s =
     (if tt_stopped (tty c s) then retK () s
      else let (ch, q) = GETCH (the_queue (wq c s) s) in
        bindK (con_char E c ch (upd_queue (wq c s) (\<lambda>_. q) s)) (\<lambda>_. con_loop nr E c))"

definition console_write :: "tenv \<Rightarrow> nat \<Rightarrow> tsys \<Rightarrow> unit tres" where
  "console_write E c s =
     (if MAX_CONSOLES \<le> c then stopK (Panic ''con_write: illegal tty'') s
      else bindK (con_loop (CHARS (the_queue (wq c s) s)) E c s) (\<lambda>_ s. retK () (set_cursor c s)))"

subsection \<open>Set-up\<close>

definition redraw :: "tsys \<Rightarrow> tsys" where
  "redraw s = set_cursor (fg_console (tt s)) (on_screen (set_origin (fg_console (tt s)) (fg_console (tt s))) s)"

text \<open>The kind of display: type, base and end of its memory, its ports, and what is shown of it.\<close>

definition display_kind :: "boot_video \<Rightarrow> console \<Rightarrow> console \<times> u8 list" where
  "display_kind B k =
     (let ega = (ORIG_VIDEO_EGA_BX B AND 0xff \<noteq> 0x10) in
      if ORIG_VIDEO_MODE B = 7 then
        (let k = k\<lparr>video_mem_base := 0xb0000, video_port_reg := 0x3b4, video_port_val := 0x3b5\<rparr> in
         if ega then (k\<lparr>video_type := VIDEO_TYPE_EGAM, video_mem_term := 0xb8000\<rparr>, [69, 71, 65, 109])
         else (k\<lparr>video_type := VIDEO_TYPE_MDA, video_mem_term := 0xb2000\<rparr>, [42, 77, 68, 65]))
      else
        (let k = k\<lparr>can_do_colour := True, video_mem_base := 0xb8000, video_port_reg := 0x3d4,
               video_port_val := 0x3d5\<rparr> in
         if ega then (k\<lparr>video_type := VIDEO_TYPE_EGAC, video_mem_term := 0xc0000\<rparr>, [69, 71, 65, 99])
         else (k\<lparr>video_type := VIDEO_TYPE_CGA, video_mem_term := 0xba000\<rparr>, [42, 67, 71, 65])))"

text \<open>\<^verbatim>\<open>NR_CONSOLES\<close>, and the video memory each gets.\<close>

definition count_consoles :: "console \<Rightarrow> nat \<times> nat" where
  "count_consoles k =
     (let video_memory = video_mem_term k - video_mem_base k;
          n = video_memory div (video_num_lines k * video_size_row k);
          n = (if MAX_CONSOLES < n then MAX_CONSOLES else n);
          n = (if n = 0 then 1 else n)
      in (n, video_memory div n))"

definition put_desc :: "u8 list \<Rightarrow> nat \<Rightarrow> vmemory \<Rightarrow> vmemory" where
  "put_desc desc p m = fold (\<lambda>i m. m(p + 2 * i := desc ! i)) [0..<length desc] m"

definition first_vc :: "nat \<Rightarrow> console \<Rightarrow> vc \<Rightarrow> vc" where
  "first_vc size1 k v = v\<lparr>vc_video_erase_char := 0x0720, vc_origin := video_mem_base k,
     vc_video_mem_start := video_mem_base k, vc_video_mem_end := video_mem_base k + size1,
     vc_scr_end := video_mem_base k + video_num_lines k * video_size_row k, vc_top := 0,
     vc_bottom := video_num_lines k, vc_attr := 7, vc_def_attr := 7, vc_state := ESnormal, vc_restate := ESnormal,
     vc_checkin := 0, vc_ques := False, vc_iscolor := False, vc_graf := False, vc_bold_attr := -1\<rparr>"

definition next_vc :: "nat \<Rightarrow> nat \<Rightarrow> console \<Rightarrow> console" where
  "next_vc size1 c k =
     (let base = video_mem_base k + c * size1;
          k = upd_vc c (\<lambda>_. (vc_cons k 0)\<lparr>vc_origin := base, vc_video_mem_start := base,
                vc_scr_end := base + video_num_lines k * video_size_row k,
                vc_video_mem_end := base + size1\<rparr>) k
      in gotoxy c 0 0 k)"

definition init_screens :: "boot_video \<Rightarrow> console \<Rightarrow> console \<times> nat" where
  "init_screens B k =
     (let k = k\<lparr>video_num_columns := ORIG_VIDEO_COLS B, video_size_row := ORIG_VIDEO_COLS B * 2,
                video_num_lines := ORIG_VIDEO_LINES B, video_page := ORIG_VIDEO_PAGE B\<rparr>;
          (k, desc) = display_kind B k;
          (n, size1) = count_consoles k;
          k = upd_vmem (put_desc desc (video_mem_base k + video_size_row k - 8)) k;
          k = upd_vc 0 (first_vc size1 k) k;
          k = gotoxy 0 (ucast (ORIG_X B)) (ucast (ORIG_Y B)) k
      in (fold (next_vc size1) [1..<n] k, n))"

definition console_init :: "boot_video \<Rightarrow> tenv \<Rightarrow> tsys \<Rightarrow> tsys" where
  "console_init B E s =
     (let s = upd_tk (\<lambda>k. k\<lparr>blankcount := blankinterval k\<rparr>) s;
          (k, n) = init_screens B (screen (tt s));
          s = redraw (s\<lparr>tt := (tt s)\<lparr>screen := k, nr_consoles := n\<rparr>\<rparr>);
          s = t_outb (in_port E 0x21 s AND 0xfd) 0x21 s;
          a = in_port E 0x61 s
      in t_outb a 0x61 (t_outb (a OR 0x80) 0x61 s))"

primrec with_console :: "nat \<Rightarrow> boot_video \<Rightarrow> tenv \<Rightarrow> tenv" where
  "with_console 0 B E = E\<lparr>update_screen := redraw, con_init := console_init B E\<rparr>"
| "with_console (Suc n) B E = (with_console n B E)\<lparr>con_write := console_write (with_console n B E)\<rparr>"

subsection \<open>Screen dumps and messages\<close>

text \<open>\<^verbatim>\<open>do_screendump\<close>, without the check of the area's pages.\<close>

definition do_screendump :: "u32 \<Rightarrow> tsys \<Rightarrow> int \<times> tsys" where
  "do_screendump buf s =
     (let k = screen (tt s); n = video_num_lines k * video_num_columns k;
          c = cval (get_fs_byte buf (tk s))
      in if c < 1 \<or> int (nr_consoles (tt s)) < c then (- EIO, s)
         else let sptr = vc_origin (vc_cons k (nat c - 1)) in
           (0, upd_tk (put_fs_bytes (map (\<lambda>i. vmem k (sptr + i)) [0..<n]) buf) s))"

definition print_char :: "nat \<Rightarrow> u8 \<Rightarrow> console \<Rightarrow> console" where
  "print_char c ch k =
     (if ch = 10 then lf c c (cr c k)
      else if ch = 13 then cr c k
      else put_glyph c c ch k)"

definition console_print :: "u8 list \<Rightarrow> tsys \<Rightarrow> tsys" where
  "console_print b s =
     (let c = fg_console (tt s) in set_cursor c (on_screen (fold (print_char c) b) s))"

text \<open>\<^verbatim>\<open>printk\<close> of a format and its arguments; the value is the number of characters.\<close>

definition printk_console :: "string \<Rightarrow> arg list \<Rightarrow> tsys \<Rightarrow> (int \<times> tsys) option" where
  "printk_console fmt args s =
     map_option (\<lambda>(t, _). (int (length t), console_print (map of_char t) s)) (vsprintf fmt args)"

end
