(* ===== verification/Tty_Props.thy ===== *)
theory Tty_Props
  imports Tty Ring_Buffer Fs_Samples
begin

section \<open>The queues and the line discipline of a terminal\<close>

text \<open>
  The queues of \<^verbatim>\<open>include/linux/tty.h\<close> are streams, from whose end a character can also
  be taken back; \<^verbatim>\<open>copy_to_cooked\<close> (\<^verbatim>\<open>kernel/chr_drv/tty_io.c\<close>) computes on
  the secondary queue what a line editor on lists computes.
\<close>

subsection \<open>The queues\<close>

definition q_ok :: "tty_queue \<Rightarrow> bool" where
  "q_ok q \<longleftrightarrow> unat (q_head q) < 1024 \<and> unat (q_tail q) < 1024"

definition q_items :: "tty_queue \<Rightarrow> u8 list" where
  "q_items q = ring_items 1024 (q_buf q) (unat (q_tail q)) (CHARS q)"

lemma mask_10: "(1023 :: 'a::len word) = mask 10"
  by (simp add: mask_eq_exp_minus_1)

lemma q_arith:
  "unat h < 1024 \<Longrightarrow> unat t < 1024 \<Longrightarrow> unat (((h :: u32) - t) AND 1023) = (unat h + 1024 - unat t) mod 1024"
  "unat h < 1024 \<Longrightarrow> unat ((h + 1) AND 1023) = (unat h + 1) mod 1024"
  "unat h < 1024 \<Longrightarrow> unat ((h - 1) AND 1023) = (unat h + 1023) mod 1024"
  using ring_size[of 10 h t] ring_advance[of 10 h 1] ring_size[of 10 h 1] by (simp_all add: mask_10 add.commute)

lemma ring_dist_1024:
  "t < 1024 \<Longrightarrow> h < 1024 \<Longrightarrow> (h + 1024 - t) mod 1024 = (if t \<le> h then h - t else h + 1024 - (t :: nat))"
proof (cases "t \<le> h")
  case True
  assume h: "h < 1024"
  have "h + 1024 - t = (h - t) + 1024" using True by simp
  then have "(h + 1024 - t) mod 1024 = (h - t) mod 1024" by (simp only: mod_add_self2)
  with True h show ?thesis by simp
qed simp

lemma CHARS_eq:
  "q_ok q \<Longrightarrow> CHARS q = (if unat (q_tail q) \<le> unat (q_head q) then unat (q_head q) - unat (q_tail q)
     else unat (q_head q) + 1024 - unat (q_tail q))"
  using ring_dist_1024[of "unat (q_tail q)" "unat (q_head q)"] by (simp add: CHARS_def q_ok_def q_arith)

lemma length_q_items [simp]: "length (q_items q) = CHARS q"
  by (simp add: q_items_def)

lemma q_head_items: "q_ok q \<Longrightarrow> (unat (q_tail q) + CHARS q) mod 1024 = unat (q_head q)"
  by (auto simp: CHARS_eq q_ok_def)

lemma EMPTY_iff: "q_ok q \<Longrightarrow> EMPTY q \<longleftrightarrow> q_items q = []"
proof -
  assume ok: "q_ok q"
  have "q_items q = [] \<longleftrightarrow> CHARS q = 0" by (metis length_0_conv length_q_items)
  also have "\<dots> \<longleftrightarrow> unat (q_head q) = unat (q_tail q)" using ok by (auto simp: CHARS_eq q_ok_def)
  finally show ?thesis unfolding EMPTY_def word_unat_eq_iff by blast
qed

lemma CHARS_less: "q_ok q \<Longrightarrow> CHARS q \<le> 1023"
  by (auto simp: CHARS_eq q_ok_def)

lemma LEFT_CHARS:
  assumes ok: "q_ok q"
  shows "LEFT q = 1023 - CHARS q"
proof -
  let ?h = "unat (q_head q)" and ?t = "unat (q_tail q)"
  have u: "unat (q_head q + 1) = ?h + 1"
    using ok unat_word_ariths(1)[of "q_head q" 1] by (simp add: q_ok_def)
  have "LEFT q = unat (q_tail q - (q_head q + 1)) mod 1024"
    by (simp add: LEFT_def diff_diff_eq mask_10 unat_and_mask)
  also have "\<dots> = (if ?h + 1 \<le> ?t then ?t - (?h + 1) else ?t + 2 ^ 32 - (?h + 1)) mod 1024"
    unfolding unat_sub_if_size u by (simp add: word_size)
  also have "\<dots> = 1023 - CHARS q"
  proof (cases "?h + 1 \<le> ?t")
    case True
    have "?t - (?h + 1) < 1024" using ok unfolding q_ok_def by linarith
    then show ?thesis using ok True by (simp add: CHARS_eq q_ok_def)
  next
    case False
    then have "?t + 2 ^ 32 - (?h + 1) = (1023 - (?h - ?t)) + 4194303 * 1024"
      using ok by (simp add: q_ok_def)
    then have "(?t + 2 ^ 32 - (?h + 1)) mod 1024 = 1023 - (?h - ?t)"
      by (simp only: mod_mult_self1) simp
    then show ?thesis using ok False by (simp add: CHARS_eq)
  qed
  finally show ?thesis .
qed

lemma FULL_iff: "q_ok q \<Longrightarrow> FULL q \<longleftrightarrow> length (q_items q) = 1023"
  using CHARS_less[of q] by (auto simp: FULL_def LEFT_CHARS)

lemma PUTCH_items:
  assumes "q_ok q" "\<not> FULL q"
  shows "q_ok (PUTCH c q)" "q_items (PUTCH c q) = q_items q @ [c]"
proof -
  have less: "CHARS q < 1023" using assms CHARS_less[OF assms(1)] by (auto simp: FULL_iff)
  show ok: "q_ok (PUTCH c q)" using assms(1) by (simp add: q_ok_def PUTCH_def q_arith)
  have size: "CHARS (PUTCH c q) = Suc (CHARS q)"
    using less assms(1) ok unfolding CHARS_eq[OF assms(1)] CHARS_eq[OF ok]
    by (auto simp: PUTCH_def q_ok_def q_arith mod_Suc split: if_splits)
  have "ring_items 1024 (q_buf (PUTCH c q)) (unat (q_tail q)) (CHARS q) = q_items q"
    unfolding q_items_def
  proof (rule ring_items_cong)
    fix j assume "j < CHARS q"
    then have "(unat (q_tail q) + j) mod 1024 \<noteq> (unat (q_tail q) + CHARS q) mod 1024"
      using mod_inj_small[of j 1024 "CHARS q" "unat (q_tail q)"] less by auto
    then show "q_buf (PUTCH c q) ((unat (q_tail q) + j) mod 1024) = q_buf q ((unat (q_tail q) + j) mod 1024)"
      by (simp add: PUTCH_def q_head_items[OF assms(1)])
  qed
  then show "q_items (PUTCH c q) = q_items q @ [c]"
    using q_head_items[OF assms(1)]
    by (simp add: q_items_def[of "PUTCH c q"] size ring_items_Suc) (simp add: PUTCH_def)
qed

lemma GETCH_items:
  assumes "q_ok q" "\<not> EMPTY q" "GETCH q = (c, q')"
  shows "q_ok q'" "q_items q = c # q_items q'"
proof -
  have q': "q' = q\<lparr>q_tail := (q_tail q + 1) AND 1023\<rparr>" and c: "c = q_buf q (unat (q_tail q))"
    using assms(3) by (auto simp: GETCH_def)
  show ok: "q_ok q'" using assms(1) by (simp add: q_ok_def q' q_arith)
  have "0 < CHARS q" using assms(1,2) EMPTY_iff length_q_items by (metis length_greater_0_conv)
  then have size: "CHARS q = 1 + CHARS q'"
    using assms(1) ok unfolding CHARS_eq[OF assms(1)] CHARS_eq[OF ok]
    by (auto simp: q' q_ok_def q_arith mod_Suc split: if_splits)
  show "q_items q = c # q_items q'"
    using assms(1) unfolding q_items_def size ring_items_add
    by (simp add: q' q_arith q_ok_def c ring_items_1)
qed

lemma DEC_head_items:
  assumes "q_ok q" "\<not> EMPTY q"
  shows "q_ok (DEC_head q)" "q_items (DEC_head q) = butlast (q_items q)" "LAST q = last (q_items q)"
proof -
  show ok: "q_ok (DEC_head q)" using assms(1) by (simp add: q_ok_def DEC_head_def q_arith)
  have "0 < CHARS q" using assms EMPTY_iff length_q_items by (metis length_greater_0_conv)
  then have size: "CHARS q = Suc (CHARS (DEC_head q))"
    using assms(1) ok unfolding CHARS_eq[OF assms(1)] CHARS_eq[OF ok]
    by (auto simp: DEC_head_def q_ok_def q_arith mod_if split: if_splits)
  have eq: "q_items q = q_items (DEC_head q) @ [q_buf q ((unat (q_tail q) + CHARS (DEC_head q)) mod 1024)]"
    unfolding q_items_def size ring_items_Suc by (simp add: DEC_head_def)
  then show "q_items (DEC_head q) = butlast (q_items q)" by simp
  have "(unat (q_tail q) + CHARS (DEC_head q)) mod 1024 = unat (q_head (DEC_head q))"
    using q_head_items[OF ok] by (simp add: DEC_head_def)
  with eq show "LAST q = last (q_items q)" by (simp add: LAST_def DEC_head_def and.commute)
qed

subsection \<open>The queues as streams\<close>

definition q_gives :: "tty_queue \<Rightarrow> u8 list \<Rightarrow> tty_queue \<Rightarrow> bool" where
  "q_gives q xs q' \<longleftrightarrow> (\<exists>c. \<not> FULL q \<and> xs = [c] \<and> q' = PUTCH c q)"

definition q_takes :: "tty_queue \<Rightarrow> u8 list \<Rightarrow> tty_queue \<Rightarrow> bool" where
  "q_takes q xs q' \<longleftrightarrow> (\<exists>c. \<not> EMPTY q \<and> xs = [c] \<and> GETCH q = (c, q'))"

interpretation tty_queue: stream q_gives q_takes q_items q_ok
  by unfold_locales (auto simp: q_gives_def q_takes_def PUTCH_items GETCH_items)

subsection \<open>Terminals that keep their settings\<close>

text \<open>All flags and control characters are read in the table of terminals.\<close>

abbreviation same_ttys :: "tsys \<Rightarrow> tsys \<Rightarrow> bool" where
  "same_ttys s t \<equiv> tty_table (tt t) = tty_table (tt s)"

lemma settings_cong:
  assumes "same_ttys s t"
  shows "L_FLAG f i t = L_FLAG f i s" "I_FLAG f i t = I_FLAG f i s" "is_cc v i c t = is_cc v i c s"
    "wq i t = wq i s" "rq i t = rq i s" "sq i t = sq i s" "translate i c t = translate i c s"
  using assms
  by (simp_all add: L_FLAG_def I_FLAG_def is_cc_def cc_def tty_def wq_def rq_def sq_def translate_def)

lemma the_queue_upd [simp]:
  "the_queue j (upd_queue k f s) = (if j = k then f (the_queue j s) else the_queue j s)"
  "same_ttys s (upd_queue k f s)"
  by (auto simp: the_queue_def upd_queue_def)

lemma put_w_simps [simp]:
  "j \<noteq> wq i s \<Longrightarrow> the_queue j (put_w c i s) = the_queue j s" "tty_table (tt (put_w c i s)) = tty_table (tt s)"
  by (auto simp: put_w_def upd_queue_def the_queue_def)

lemma wq_put_w [simp]: "wq i (put_w c i s) = wq i s"
  by (rule settings_cong) simp

text \<open>The characters an echoed character puts into the write queue.\<close>

definition puts :: "u8 list \<Rightarrow> nat \<Rightarrow> tsys \<Rightarrow> tsys" where
  "puts xs i = fold (\<lambda>c. put_w c i) xs"

definition echo_bytes :: "nat \<Rightarrow> u8 \<Rightarrow> tsys \<Rightarrow> u8 list" where
  "echo_bytes i c s = (if c = 10 then [10, 13] else if cval c < 32 then (if L_FLAG ECHOCTL i s then [94, c + 64] else []) else [c])"

lemma puts_simps [simp]:
  "j \<noteq> wq i s \<Longrightarrow> the_queue j (puts xs i s) = the_queue j s" "tty_table (tt (puts xs i s)) = tty_table (tt s)"
  by (induction xs arbitrary: s) (simp_all add: puts_def)

lemma echo_puts: "echo W i c s = W i (puts (echo_bytes i c s) i s)"
  by (simp add: echo_def puts_def echo_bytes_def)

lemma rub_out_puts:
  "rub_out W i c s = bindK (if L_FLAG ECHO i s then W i (puts (if cval c < 32 then [127, 127] else [127]) i s) else retK () s)
     (\<lambda>_ s. retK () (upd_queue (sq i s) DEC_head s))"
  by (simp add: rub_out_def puts_def)

lemma echo_bytes_cong: "same_ttys s t \<Longrightarrow> echo_bytes i c t = echo_bytes i c s"
  using settings_cong(1)[of s t] by (simp add: echo_bytes_def)

text \<open>A terminal whose three queues are different.\<close>

definition three_queues :: "nat \<Rightarrow> tsys \<Rightarrow> bool" where
  "three_queues i s \<longleftrightarrow> rq i s \<noteq> wq i s \<and> sq i s \<noteq> wq i s \<and> rq i s \<noteq> sq i s"

text \<open>\<open>moved i s t q\<close>: \<open>t\<close> is \<open>s\<close> but for the write queue of terminal \<open>i\<close> and its secondary queue,
  which is \<open>q\<close>.\<close>

definition moved :: "nat \<Rightarrow> tsys \<Rightarrow> tty_queue \<Rightarrow> tsys \<Rightarrow> bool" where
  "moved i s q t \<longleftrightarrow> same_ttys s t \<and> the_queue (sq i s) t = q \<and> the_queue (rq i s) t = the_queue (rq i s) s"

text \<open>
  The contract of an output routine \<open>W\<close> of terminal \<open>i\<close> for echoing: from a state that is \<open>ready\<close>, with characters that are
  \<open>good\<close> put into the write queue, it returns, it leaves the table of terminals and all other queues alone, and the
  state is ready again. It need not be met by a terminal that does not echo.
\<close>

locale line_output =
  fixes W :: write_fn and i :: nat and ready :: "tsys \<Rightarrow> bool" and good :: "u8 \<Rightarrow> bool"
  assumes writes: "ready s \<Longrightarrow> L_FLAG ECHO i s \<Longrightarrow> list_all good xs \<Longrightarrow> length xs \<le> 2 \<Longrightarrow>
      \<exists>t. W i (puts xs i s) = Inr ((), t) \<and> ready t \<and> same_ttys s t \<and> (\<forall>j. j \<noteq> wq i s \<longrightarrow> the_queue j t = the_queue j s)"
    and apart: "ready s \<Longrightarrow> j \<noteq> wq i s \<Longrightarrow> ready (upd_queue j f s)"
    and rubout: "good 127"
begin

lemma writesE:
  assumes "ready s" "L_FLAG ECHO i s" "list_all good xs" "length xs \<le> 2"
  obtains t where "W i (puts xs i s) = Inr ((), t)" "ready t" "same_ttys s t" "\<And>j. j \<noteq> wq i s \<Longrightarrow> the_queue j t = the_queue j s"
  using writes[OF assms] by blast

lemma rub_out_moved:
  assumes "ready s" "three_queues i s"
  obtains t where "rub_out W i c s = Inr ((), t)" "moved i s (DEC_head (the_queue (sq i s) s)) t" "ready t"
proof (cases "L_FLAG ECHO i s")
  case True
  have "list_all good (if cval c < 32 then [127, 127] else [127])" "length (if cval c < 32 then [127, 127] else [127 :: u8]) \<le> 2"
    using rubout by simp_all
  then obtain v where v: "W i (puts (if cval c < 32 then [127, 127] else [127]) i s) = Inr ((), v)" "ready v" "same_ttys s v"
      "\<And>j. j \<noteq> wq i s \<Longrightarrow> the_queue j v = the_queue j s"
    using writesE[OF assms(1) True] by blast
  have "rub_out W i c s = Inr ((), upd_queue (sq i v) DEC_head v)"
    unfolding rub_out_puts using True v(1) by (simp add: retK_def)
  moreover have "moved i s (DEC_head (the_queue (sq i s) s)) (upd_queue (sq i v) DEC_head v)"
    using assms(2) v by (simp add: moved_def three_queues_def settings_cong[of s v])
  moreover have "ready (upd_queue (sq i v) DEC_head v)"
    using assms(2) v(3) by (intro apart[OF v(2)]) (simp add: three_queues_def settings_cong[of s v])
  ultimately show thesis by (rule that)
next
  case False
  then show thesis
    using assms(2) by (intro that[of "upd_queue (sq i s) DEC_head s"] apart[OF assms(1)])
      (simp_all add: rub_out_def retK_def moved_def three_queues_def)
qed

lemma echo_moved:
  assumes "ready s" "three_queues i s" "L_FLAG ECHO i s" "list_all good (echo_bytes i c s)"
  obtains t where "echo W i c s = Inr ((), t)" "moved i s (the_queue (sq i s) s) t" "ready t"
proof -
  have "length (echo_bytes i c s) \<le> 2" by (simp add: echo_bytes_def)
  then obtain v where v: "W i (puts (echo_bytes i c s) i s) = Inr ((), v)" "ready v" "same_ttys s v"
      "\<And>j. j \<noteq> wq i s \<Longrightarrow> the_queue j v = the_queue j s"
    using writesE[OF assms(1,3,4)] by blast
  have "moved i s (the_queue (sq i s) s) v" using assms(2) v by (simp add: moved_def three_queues_def)
  with v(1,2) show thesis by (intro that) (simp_all add: echo_puts)
qed

end

subsection \<open>The line editor\<close>

text \<open>
  The reference: one character \<open>c\<close> typed at a line \<open>xs\<close>. \<open>E\<close> are the characters that end a line,
  \<open>K\<close> kills the line back to the last of those, \<open>X\<close> takes back one character of it.
\<close>

definition edit :: "(u8 \<Rightarrow> bool) \<Rightarrow> (u8 \<Rightarrow> bool) \<Rightarrow> (u8 \<Rightarrow> bool) \<Rightarrow> u8 \<Rightarrow> u8 list \<Rightarrow> u8 list" where
  "edit E K X c xs =
     (if K c then rev (dropWhile (\<lambda>x. \<not> E x) (rev xs))
      else if X c then (if xs = [] \<or> E (last xs) then xs else butlast xs)
      else xs @ [c])"

definition ends_line :: "nat \<Rightarrow> tsys \<Rightarrow> u8 \<Rightarrow> bool" where
  "ends_line i s c \<longleftrightarrow> c = 10 \<or> is_cc VEOF i c s"

definition kills :: "nat \<Rightarrow> tsys \<Rightarrow> u8 \<Rightarrow> bool" where
  "kills i s c \<longleftrightarrow> L_FLAG ICANON i s \<and> is_cc VKILL i c s"

definition rubs_out :: "nat \<Rightarrow> tsys \<Rightarrow> u8 \<Rightarrow> bool" where
  "rubs_out i s c \<longleftrightarrow> L_FLAG ICANON i s \<and> is_cc VERASE i c s"

text \<open>The editor with the settings of terminal \<open>i\<close>, for a character as it comes from the read queue.\<close>

definition typed :: "nat \<Rightarrow> tsys \<Rightarrow> u8 \<Rightarrow> u8 list \<Rightarrow> u8 list" where
  "typed i s c xs = (case translate i c s of None \<Rightarrow> xs
     | Some c \<Rightarrow> edit (ends_line i s) (kills i s) (rubs_out i s) c xs)"

text \<open>Characters that neither stop or start output nor raise a signal.\<close>

definition plain :: "nat \<Rightarrow> tsys \<Rightarrow> u8 \<Rightarrow> bool" where
  "plain i s c \<longleftrightarrow>
     (I_FLAG IXON i s \<longrightarrow> \<not> is_cc VSTOP i c s \<and> \<not> is_cc VSTART i c s) \<and>
     (L_FLAG ISIG i s \<longrightarrow> \<not> is_cc VINTR i c s \<and> \<not> is_cc VQUIT i c s \<and> \<not> is_cc VSUSP i c s)"

definition lines :: "nat \<Rightarrow> tsys \<Rightarrow> u8 list \<Rightarrow> nat" where
  "lines i s xs = length (filter (ends_line i s) xs)"

lemma cval_10: "cval c = 10 \<longleftrightarrow> c = 10"
proof
  assume "cval c = 10"
  then have "sint c = sint (10 :: u8)" by (simp add: cval_def)
  then show "c = 10" by (rule signed_word_eqI)
qed (simp add: cval_def)

lemma at_line_start_items:
  assumes "q_ok (the_queue (sq i s) s)"
  shows "at_line_start i s \<longleftrightarrow> (let xs = q_items (the_queue (sq i s) s) in xs = [] \<or> ends_line i s (last xs))"
  using DEC_head_items(3)[OF assms] EMPTY_iff[OF assms]
  by (auto simp: at_line_start_def Let_def ends_line_def cval_10)

lemma movedD:
  assumes "moved i s q t"
  shows "same_ttys s t" "the_queue (sq i t) t = q" "the_queue (rq i t) t = the_queue (rq i s) s"
    "three_queues i t = three_queues i s" "ends_line i t = ends_line i s" "kills i t = kills i s"
    "rubs_out i t = rubs_out i s" "typed i t = typed i s" "plain i t = plain i s"
proof -
  from assms show t: "same_ttys s t" by (simp add: moved_def)
  note c = settings_cong[OF t]
  from assms show "the_queue (sq i t) t = q" "the_queue (rq i t) t = the_queue (rq i s) s" by (simp_all add: moved_def c)
  show "three_queues i t = three_queues i s" by (simp add: three_queues_def c)
  show e: "ends_line i t = ends_line i s" "kills i t = kills i s" "rubs_out i t = rubs_out i s" "plain i t = plain i s"
    by (simp_all add: fun_eq_iff ends_line_def kills_def rubs_out_def plain_def c)
  show "typed i t = typed i s"
    by (intro ext) (unfold typed_def c e, rule refl)
qed

lemma moved_trans: "moved i s q t \<Longrightarrow> moved i t q' u \<Longrightarrow> moved i s q' u"
  using settings_cong[of s t] by (auto simp: moved_def)

lemma lines_edit:
  "lines i s (edit (ends_line i s) K X c xs) =
    lines i s xs + (if \<not> K c \<and> \<not> X c \<and> ends_line i s c then 1 else 0)"
proof -
  have "filter E (rev (dropWhile (\<lambda>x. \<not> E x) (rev ys))) = filter E ys" for E :: "u8 \<Rightarrow> bool" and ys
    by (induction ys rule: rev_induct) auto
  moreover have "filter E (butlast ys) = filter E ys" if "\<not> E (last ys)" for E :: "u8 \<Rightarrow> bool" and ys
    using that by (cases ys rule: rev_cases) auto
  ultimately show ?thesis by (auto simp: lines_def edit_def)
qed

lemma length_typed: "length (typed i s c xs) \<le> Suc (length xs)"
  using length_dropWhile_le[of "\<lambda>x. \<not> ends_line i s x" "rev xs"]
  by (auto simp: typed_def edit_def split: option.split)

context line_output begin

lemma kill_line_edit:
  assumes "ready s" "three_queues i s" "q_ok (the_queue (sq i s) s)" "CHARS (the_queue (sq i s) s) \<le> n"
  shows "\<exists>t q. kill_line n W i s = Inr ((), t) \<and> moved i s q t \<and> ready t \<and> q_ok q \<and> q_data q = q_data (the_queue (sq i s) s) \<and>
    q_items q = rev (dropWhile (\<lambda>x. \<not> ends_line i s x) (rev (q_items (the_queue (sq i s) s))))"
  using assms
proof (induction n arbitrary: s)
  case 0
  let ?q = "the_queue (sq i s) s"
  have nil: "q_items ?q = []" using 0(4) by (metis le_zero_eq length_0_conv length_q_items)
  then have "kill_line 0 W i s = Inr ((), s)" using at_line_start_items[OF 0(3)] by (simp add: retK_def)
  moreover have "moved i s ?q s" by (simp add: moved_def)
  ultimately show ?case using nil 0(1,3) by auto
next
  case (Suc n)
  let ?q = "the_queue (sq i s) s"
  show ?case
  proof (cases "at_line_start i s")
    case True
    then have "q_items ?q = [] \<or> ends_line i s (last (q_items ?q))"
      using at_line_start_items[OF Suc.prems(3)] by (simp add: Let_def)
    then have "rev (dropWhile (\<lambda>x. \<not> ends_line i s x) (rev (q_items ?q))) = q_items ?q"
      by (cases "q_items ?q" rule: rev_cases) auto
    moreover have "kill_line (Suc n) W i s = Inr ((), s)" using True by (simp add: retK_def)
    moreover have "moved i s ?q s" by (simp add: moved_def)
    ultimately show ?thesis using Suc.prems(1,3) by auto
  next
    case False
    then have e: "\<not> EMPTY ?q" "q_items ?q \<noteq> []" "\<not> ends_line i s (last (q_items ?q))"
      using at_line_start_items[OF Suc.prems(3)] EMPTY_iff[OF Suc.prems(3)] by (auto simp: Let_def)
    obtain t where t: "rub_out W i (LAST ?q) s = Inr ((), t)" "moved i s (DEC_head ?q) t" "ready t"
      by (rule rub_out_moved[OF Suc.prems(1,2)])
    note m = movedD[OF t(2)] and d = DEC_head_items[OF Suc.prems(3) e(1)]
    have "CHARS (DEC_head ?q) = length (butlast (q_items ?q))" using d(2) length_q_items by metis
    then have "CHARS (DEC_head ?q) \<le> n" using Suc.prems(4) by simp
    then obtain u q where u: "kill_line n W i t = Inr ((), u)" "moved i t q u" "ready u" "q_ok q" "q_data q = q_data (DEC_head ?q)"
        "q_items q = rev (dropWhile (\<lambda>x. \<not> ends_line i s x) (rev (butlast (q_items ?q))))"
      using Suc.IH[of t] t(3) Suc.prems(2) d by (auto simp: m)
    have "kill_line (Suc n) W i s = Inr ((), u)" using False t(1) u(1) by simp
    moreover have "rev (dropWhile (\<lambda>x. \<not> ends_line i s x) (rev (q_items ?q))) = q_items q"
      using e(2,3) unfolding u(6) by (cases "q_items ?q" rule: rev_cases) auto
    ultimately show ?thesis using moved_trans[OF t(2) u(2)] u(3-5) by (auto simp: DEC_head_def)
  qed
qed

lemma cook_char_edit:
  assumes W: "ready s" and three: "three_queues i s" and ok: "q_ok (the_queue (sq i s) s)"
    and room: "\<not> FULL (the_queue (sq i s) s)" and plain: "plain i s c"
    and bytes: "L_FLAG ECHO i s \<longrightarrow> list_all good (echo_bytes i c s)"
  shows "\<exists>t q. cook_char W i c s = Inr ((), t) \<and> moved i s q t \<and> ready t \<and> q_ok q \<and>
    q_items q = edit (ends_line i s) (kills i s) (rubs_out i s) c (q_items (the_queue (sq i s) s)) \<and>
    q_data q = q_data (the_queue (sq i s) s) + (if \<not> kills i s c \<and> \<not> rubs_out i s c \<and> ends_line i s c then 1 else 0)"
proof -
  let ?q = "the_queue (sq i s) s"
  have self: "moved i s ?q s" by (simp add: moved_def)
  consider (Kill) "kills i s c" | (Rub) "\<not> kills i s c" "rubs_out i s c" | (Put) "\<not> kills i s c" "\<not> rubs_out i s c"
    by blast
  then show ?thesis
  proof cases
    case Kill
    then have "cook_char W i c s = kill_line TTY_BUF_SIZE W i s" by (simp add: cook_char_def kills_def)
    with kill_line_edit[OF W three ok, of TTY_BUF_SIZE] CHARS_less[OF ok] Kill show ?thesis by (auto simp: edit_def)
  next
    case Rub
    then have c: "cook_char W i c s = (if at_line_start i s then retK () s else rub_out W i (LAST ?q) s)"
      by (auto simp: cook_char_def kills_def rubs_out_def)
    show ?thesis
    proof (cases "at_line_start i s")
      case True
      with c Rub self W ok at_line_start_items[OF ok] show ?thesis by (auto simp: edit_def Let_def retK_def)
    next
      case False
      then have "\<not> EMPTY ?q" "\<not> (q_items ?q = [] \<or> ends_line i s (last (q_items ?q)))"
        using at_line_start_items[OF ok] EMPTY_iff[OF ok] by (auto simp: Let_def)
      moreover obtain t where "rub_out W i (LAST ?q) s = Inr ((), t)" "moved i s (DEC_head ?q) t" "ready t"
        by (rule rub_out_moved[OF W three])
      ultimately show ?thesis
        using c Rub False DEC_head_items[OF ok] by (auto simp: edit_def DEC_head_def)
    qed
  next
    case Put
    define s1 where "s1 = (if ends_line i s c then upd_queue (sq i s) (\<lambda>q. q\<lparr>q_data := q_data q + 1\<rparr>) s else s)"
    define q1 where "q1 = (if ends_line i s c then ?q\<lparr>q_data := q_data ?q + 1\<rparr> else ?q)"
    have s1: "moved i s q1 s1"
      using three by (auto simp: moved_def s1_def q1_def three_queues_def)
    have r1: "ready s1" using three W by (auto simp: s1_def three_queues_def intro: apart)
    note m1 = movedD[OF s1]
    have c: "cook_char W i c s = bindK (if L_FLAG ECHO i s1 then echo W i c s1 else retK () s1)
             (\<lambda>_ s. retK () (upd_queue (sq i s) (PUTCH c) s))"
      using Put plain by (auto simp: cook_char_def kills_def rubs_out_def plain_def Let_def s1_def ends_line_def)
    obtain t where t: "(if L_FLAG ECHO i s1 then echo W i c s1 else retK () s1) = Inr ((), t)" "moved i s1 q1 t" "ready t"
    proof (cases "L_FLAG ECHO i s1")
      case True
      have "list_all good (echo_bytes i c s1)"
        using True bytes by (simp add: echo_bytes_cong[OF m1(1)] settings_cong[OF m1(1)])
      moreover have "three_queues i s1" using three by (simp add: m1)
      ultimately obtain t where "echo W i c s1 = Inr ((), t)" "moved i s1 (the_queue (sq i s1) s1) t" "ready t"
        using echo_moved[OF r1 _ True] by blast
      with True that show thesis by (simp add: m1)
    next
      case False
      then show thesis using that[of s1] m1(2) r1 by (simp add: retK_def moved_def)
    qed
    note m = movedD[OF moved_trans[OF s1 t(2)]]
    have ok1: "q_ok q1" "\<not> FULL q1" "q_items q1 = q_items ?q"
      using ok room by (auto simp: q1_def q_ok_def FULL_def LEFT_def q_items_def CHARS_def)
    have "cook_char W i c s = Inr ((), upd_queue (sq i t) (PUTCH c) t)" using c t(1) by (simp add: retK_def)
    moreover have "moved i s (PUTCH c q1) (upd_queue (sq i t) (PUTCH c) t)"
      using m three settings_cong[of s t] by (simp add: moved_def three_queues_def)
    moreover have "ready (upd_queue (sq i t) (PUTCH c) t)"
      using three by (intro apart[OF t(3)]) (simp add: three_queues_def settings_cong[OF m(1)])
    moreover have "q_data (PUTCH c q1) = q_data q1" by (simp add: PUTCH_def)
    ultimately show ?thesis using PUTCH_items[OF ok1(1,2), of c] ok1(3) Put by (auto simp: edit_def q1_def)
  qed
qed

text \<open>The loop of \<^verbatim>\<open>copy_to_cooked\<close> edits the line.\<close>

lemma cook_loop_edits:
  assumes "ready s" and "three_queues i s"
    and "q_ok (the_queue (rq i s) s)" and "q_ok (the_queue (sq i s) s)"
    and "\<forall>c \<in> set (q_items (the_queue (rq i s) s)). \<forall>c'. translate i c s = Some c' \<longrightarrow>
      plain i s c' \<and> (L_FLAG ECHO i s \<longrightarrow> list_all good (echo_bytes i c' s))"
    and "CHARS (the_queue (rq i s) s) + CHARS (the_queue (sq i s) s) \<le> 1023"
    and "CHARS (the_queue (rq i s) s) < n"
    and "q_data (the_queue (sq i s) s) = of_nat (lines i s (q_items (the_queue (sq i s) s)))"
  shows "\<exists>t. cook_loop n W i s = Inr ((), t) \<and> same_ttys s t \<and> EMPTY (the_queue (rq i t) t) \<and>
    q_items (the_queue (sq i t) t) = fold (typed i s) (q_items (the_queue (rq i s) s)) (q_items (the_queue (sq i s) s)) \<and>
    q_data (the_queue (sq i t) t) = of_nat (lines i t (q_items (the_queue (sq i t) t)))"
  using assms
proof (induction n arbitrary: s)
  case (Suc n)
  let ?r = "the_queue (rq i s) s" and ?q = "the_queue (sq i s) s"
  show ?case
  proof (cases "EMPTY ?r")
    case True
    then have "cook_loop (Suc n) W i s = Inr ((), s)" "q_items ?r = []"
      using EMPTY_iff[OF Suc.prems(3)] by (simp_all add: retK_def)
    with True Suc.prems(8) show ?thesis by simp
  next
    case False
    obtain c r where g: "GETCH ?r = (c, r)" by fastforce
    note gi = GETCH_items[OF Suc.prems(3) False g]
    define s1 where "s1 = upd_queue (rq i s) (\<lambda>_. r) s"
    have same: "same_ttys s s1" by (simp add: s1_def)
    note c1 = settings_cong[OF same]
    have q1: "the_queue (rq i s1) s1 = r" "the_queue (sq i s1) s1 = ?q" "three_queues i s1"
      using Suc.prems(2) by (auto simp: c1 three_queues_def) (auto simp: s1_def)
    have r1: "ready s1" using Suc.prems(1,2) by (auto simp: s1_def three_queues_def intro: apart)
    have e1: "ends_line i s1 = ends_line i s" "kills i s1 = kills i s" "rubs_out i s1 = rubs_out i s" "plain i s1 = plain i s"
      by (simp_all add: fun_eq_iff ends_line_def kills_def rubs_out_def plain_def c1)
    have ty: "typed i s1 = typed i s" by (intro ext) (unfold typed_def c1 e1, rule refl)
    have len: "CHARS ?r = Suc (CHARS r)" using gi(2) length_q_items by (metis length_Cons)
    have "CHARS ?q < 1023" using Suc.prems(6) len by simp
    then have room: "\<not> FULL ?q" using FULL_iff[OF Suc.prems(4)] by simp
    have step: "cook_loop (Suc n) W i s =
        (case translate i c s1 of None \<Rightarrow> cook_loop n W i s1
         | Some c \<Rightarrow> bindK (cook_char W i c s1) (\<lambda>_. cook_loop n W i))"
      using False room g unfolding s1_def by (simp add: Let_def)
    obtain t q where t: "cook_loop (Suc n) W i s = cook_loop n W i t" "moved i s1 q t" "ready t" "q_ok q"
        "q_items q = typed i s c (q_items ?q)" "q_data q = of_nat (lines i s (q_items q))"
    proof (cases "translate i c s1")
      case None
      moreover have "moved i s1 ?q s1" using q1(2) by (simp add: moved_def)
      ultimately show thesis
        using step r1 Suc.prems(4,8) by (intro that[of s1 ?q]) (simp_all add: typed_def c1)
    next
      case (Some c')
      then have "plain i s1 c'" "L_FLAG ECHO i s1 \<longrightarrow> list_all good (echo_bytes i c' s1)"
        using Suc.prems(5) gi(2) by (simp_all add: c1 e1 echo_bytes_cong[OF same])
      moreover note cook_char_edit[OF r1, of c'] Suc.prems(4) q1(3) room
      ultimately
      obtain t q where t: "cook_char W i c' s1 = Inr ((), t)" "moved i s1 q t" "ready t" "q_ok q"
          "q_items q = edit (ends_line i s) (kills i s) (rubs_out i s) c' (q_items ?q)"
          "q_data q = q_data ?q + (if \<not> kills i s c' \<and> \<not> rubs_out i s c' \<and> ends_line i s c' then 1 else 0)"
        unfolding q1 e1 by blast
      have "q_data q = of_nat (lines i s (q_items q))"
        unfolding t(6,5) lines_edit using Suc.prems(8) by simp
      with t Some step show thesis by (intro that[of t q]) (simp_all add: typed_def c1)
    qed
    note m = movedD[OF t(2)]
    have st: "same_ttys s t" using m(1) same by simp
    have lt: "lines i t = lines i s" by (simp add: fun_eq_iff lines_def m e1)
    have ctr: "translate i c t = translate i c s" for c using settings_cong(7)[OF st] .
    have "CHARS q \<le> Suc (CHARS ?q)"
    proof -
      have "length (typed i s c (q_items ?q)) \<le> Suc (length (q_items ?q))" by (rule length_typed)
      then show ?thesis using t(5) length_q_items by metis
    qed
    then have "\<exists>u. cook_loop n W i t = Inr ((), u) \<and> same_ttys t u \<and> EMPTY (the_queue (rq i u) u) \<and>
      q_items (the_queue (sq i u) u) = fold (typed i t) (q_items r) (q_items q) \<and>
      q_data (the_queue (sq i u) u) = of_nat (lines i u (q_items (the_queue (sq i u) u)))"
      using Suc.IH[of t] Suc.prems(5-7) st gi t(3,4,6) len q1 by (simp add: m lt ctr e1 echo_bytes_cong[OF st] settings_cong(1)[OF st])
    then show ?thesis using t(1,5) st gi(2) by (simp add: m ty)
  qed
qed simp

end

text \<open>An \<^verbatim>\<open>a\<close>, rubbed out, then a \<^verbatim>\<open>b\<close> and a newline.\<close>

definition tsys0 :: tsys where
  "tsys0 = \<lparr>tk = kernel0, tt = terminals0\<lparr>tqueues := (\<lambda>_. tty_queue0)(0 :=
     tty_queue0\<lparr>q_head := 4, q_buf := (\<lambda>i. if i = 0 then 97 else if i = 1 then 127 else if i = 2 then 98 else 10)\<rparr>)\<rparr>\<rparr>"

end
