(* ===== verification/Echo_Props.thy ===== *)
theory Echo_Props
  imports Console Tty_Props Fs_Samples
begin

section \<open>Echoing on a serial line and on a console\<close>

text \<open>
  The output routines of a serial line (\<^verbatim>\<open>rs_write\<close>, \<^verbatim>\<open>kernel/chr_drv/serial.c\<close>) and of a console
  (\<^verbatim>\<open>con_write\<close>, \<^verbatim>\<open>kernel/chr_drv/console.c\<close>) meet the contract \<open>line_output\<close>: the console
  as long as its state machine is between two escape sequences and no escape character is echoed, so that it has no enquiry
  to answer. With them the line discipline is a line editor.
\<close>

subsection \<open>Serial lines, and terminals that do not echo\<close>




subsection \<open>Consoles\<close>

text \<open>Drawing does not change the state of the escape sequences.\<close>

lemma vc_state_upd [simp]:
  "vc_cons (upd_vmem f k) = vc_cons k" "vc_cons (video_addr r a k) = vc_cons k"
  "(\<And>v. vc_state (g v) = vc_state v) \<Longrightarrow> vc_state (vc_cons (upd_vc c g k) d) = vc_state (vc_cons k d)"
  by (simp_all add: upd_vmem_def video_addr_def video_reg_def upd_vc_def Let_def)

lemma drawing_keeps [simp]:
  "vc_state (vc_cons (scrup fg c k) d) = vc_state (vc_cons k d)"
  "vc_state (vc_cons (lf fg c k) d) = vc_state (vc_cons k d)"
  "vc_state (vc_cons (cr c k) d) = vc_state (vc_cons k d)"
  "vc_state (vc_cons (step_left c k) d) = vc_state (vc_cons k d)"
  "vc_state (vc_cons (del c k) d) = vc_state (vc_cons k d)"
  "vc_state (vc_cons (wrap_line fg c k) d) = vc_state (vc_cons k d)"
  "vc_state (vc_cons (put_glyph fg c g k) d) = vc_state (vc_cons k d)"
  "vc_state (vc_cons (tab_stop fg c k) d) = vc_state (vc_cons k d)"
  "vc_state (vc_cons (show_cursor fg c k) d) = vc_state (vc_cons k d)"
proof -
  show scrup: "vc_state (vc_cons (scrup fg c k) d) = vc_state (vc_cons k d)" for k
    by (simp add: scrup_def scroll_region_up_def set_origin_def Let_def)
  show lf: "vc_state (vc_cons (lf fg c k) d) = vc_state (vc_cons k d)" for k
    by (simp add: lf_def scrup Let_def)
  show "vc_state (vc_cons (cr c k) d) = vc_state (vc_cons k d)" by (simp add: cr_def)
  show left: "vc_state (vc_cons (step_left c k) d) = vc_state (vc_cons k d)" by (simp add: step_left_def)
  show "vc_state (vc_cons (del c k) d) = vc_state (vc_cons k d)" by (simp add: del_def left Let_def)
  show wrap: "vc_state (vc_cons (wrap_line fg c k) d) = vc_state (vc_cons k d)" for k by (simp add: wrap_line_def lf)
  show "vc_state (vc_cons (put_glyph fg c g k) d) = vc_state (vc_cons k d)" by (simp add: put_glyph_def wrap Let_def)
  show "vc_state (vc_cons (tab_stop fg c k) d) = vc_state (vc_cons k d)" by (simp add: tab_stop_def wrap Let_def)
  show "vc_state (vc_cons (show_cursor fg c k) d) = vc_state (vc_cons k d)" by (simp add: show_cursor_def)
qed












end
