(* ===== verification/Vsprintf_Props.thy ===== *)
theory Vsprintf_Props
  imports Vsprintf
begin

section \<open>What is printed, and reading it back\<close>

text \<open>
  The digits \<^verbatim>\<open>number()\<close> writes denote the number in its base, the field has the width
  asked for, and \<^verbatim>\<open>skip_atoi\<close> reads a decimal back.
\<close>

subsection \<open>The value of a list of digits\<close>

definition val_of_digit :: "char \<Rightarrow> nat" where
  "val_of_digit c =
     (let n = of_char c :: nat in if n < 58 then n - 48 else if n < 91 then n - 55 else n - 87)"

definition value_of :: "nat \<Rightarrow> string \<Rightarrow> nat" where
  "value_of base ds = foldl (\<lambda>n c. n * base + val_of_digit c) 0 ds"

definition digit_list :: "string \<Rightarrow> bool" where
  "digit_list ds \<longleftrightarrow> map val_of_digit ds = [0..<36]"

lemma digit_codes:
  "map (of_char :: char \<Rightarrow> nat) big_digits = [48..<58] @ [65..<91]"
  "map (of_char :: char \<Rightarrow> nat) small_digits = [48..<58] @ [97..<123]"
  by (simp_all add: big_digits_def small_digits_def)

lemma both_digit_lists: "digit_list big_digits" "digit_list small_digits"
proof -
  have m: "map val_of_digit ds =
      map (\<lambda>n. if n < 58 then n - 48 else if n < 91 then n - 55 else n - 87) (map of_char ds)" for ds
    by (simp add: val_of_digit_def Let_def)
  show "digit_list big_digits" "digit_list small_digits"
    unfolding digit_list_def m digit_codes by (simp_all add: upt_rec)
qed

lemma val_digit: "digit_list ds \<Longrightarrow> d < 36 \<Longrightarrow> val_of_digit (ds ! d) = d"
proof -
  assume m: "digit_list ds" and d: "d < 36"
  then have "length ds = 36" unfolding digit_list_def by (drule_tac arg_cong[of _ _ length]) (simp only: length_map length_upt)
  with d have "val_of_digit (ds ! d) = map val_of_digit ds ! d" by (simp only: nth_map)
  with m d show ?thesis unfolding digit_list_def by (simp only: nth_upt)
qed

lemma value_of_snoc [simp]: "value_of base (ds @ [c]) = value_of base ds * base + val_of_digit c"
  by (simp add: value_of_def)

lemma value_put_digits:
  assumes "digit_list ds" "2 \<le> base" "base \<le> 36"
  shows "value_of base (rev (put_digits ds base num)) = num"
proof (induction num rule: less_induct)
  case (less num)
  show ?case
  proof (cases "num = 0")
    case True
    then show ?thesis by (simp add: put_digits.simps value_of_def)
  next
    case False
    then have "num div base < num" using assms(2) by simp
    from less[OF this] have IH: "value_of base (rev (put_digits ds base (num div base))) = num div base" .
    have "num mod base < 36" using assms mod_less_divisor[of base num] by linarith
    then have d: "val_of_digit (ds ! (num mod base)) = num mod base" by (rule val_digit[OF assms(1)])
    have p: "put_digits ds base num = ds ! (num mod base) # put_digits ds base (num div base)"
      using False assms(2) by (subst put_digits.simps) simp
    show ?thesis unfolding p using IH d by simp
  qed
qed

lemma value_num_digits:
  assumes "digit_list ds" "2 \<le> base" "base \<le> 36"
  shows "value_of base (rev (num_digits ds base num)) = num"
  using value_put_digits[OF assms] by (simp add: num_digits_def value_of_def val_of_digit_def)

lemma put_digits_nonzero:
  assumes "digit_list ds" "2 \<le> base" "base \<le> 36" "num \<noteq> 0"
  shows "put_digits ds base num \<noteq> [] \<and> val_of_digit (last (put_digits ds base num)) \<noteq> 0"
  using assms(4)
proof (induction num rule: less_induct)
  case (less num)
  have p: "put_digits ds base num = ds ! (num mod base) # put_digits ds base (num div base)"
    using less.prems assms(2) by (subst put_digits.simps) simp
  show ?case
  proof (cases "num div base = 0")
    case True
    then have "num < base" using assms(2) by (simp add: div_eq_0_iff)
    then have "val_of_digit (ds ! (num mod base)) = num" using val_digit[OF assms(1), of num] assms(3) by simp
    then show ?thesis using p True less.prems by (simp add: put_digits.simps)
  next
    case False
    with less.IH[of "num div base"] less.prems assms(2) show ?thesis by (simp add: p)
  qed
qed

lemma num_digits_set:
  assumes "digit_list ds" "2 \<le> base" "base \<le> 36" "CHR ''0'' \<in> set ds"
  shows "set (num_digits ds base num) \<subseteq> set ds"
proof -
  have len: "length ds = 36" using assms(1) unfolding digit_list_def by (drule_tac arg_cong[of _ _ length]) (simp only: length_map length_upt)
  have "set (put_digits ds base n) \<subseteq> set ds" for n
  proof (induction n rule: less_induct)
    case (less n)
    show ?case
    proof (cases "n = 0")
      case False
      then have "n mod base < 36" "n div base < n" using assms(2,3) mod_less_divisor[of base n] by (linarith, simp)
      then have "ds ! (n mod base) \<in> set ds" "set (put_digits ds base (n div base)) \<subseteq> set ds"
        using less.IH len by simp_all
      then show ?thesis using False assms(2) by (subst put_digits.simps) simp
    qed (simp add: put_digits.simps)
  qed
  then show ?thesis using assms(4) by (simp add: num_digits_def)
qed

subsection \<open>The layout of a number\<close>

text \<open>
  The reference, with the bits of \<^verbatim>\<open>type\<close> as numbers: 1 pads with zeros, 2 is for a signed number, 4 shows a plus,
  8 a blank instead, 16 is for the left of the field, 32 shows the base, 64 is for small letters.
\<close>

definition magnitude :: "u32 \<Rightarrow> u32 \<Rightarrow> nat" where
  "magnitude num type = nat (if type AND 2 \<noteq> 0 then \<bar>sint num\<bar> else uint num)"

definition shown_sign :: "u32 \<Rightarrow> u32 \<Rightarrow> string" where
  "shown_sign num type =
     (if type AND 2 \<noteq> 0 \<and> sint num < 0 then ''-''
      else if type AND 4 \<noteq> 0 then ''+'' else if type AND 8 \<noteq> 0 then '' '' else [])"

definition shown_base :: "nat \<Rightarrow> u32 \<Rightarrow> string" where
  "shown_base base type =
     (if type AND 32 = 0 then [] else if base = 8 then ''0''
      else if base = 16 then (if type AND 64 \<noteq> 0 then ''0x'' else ''0X'') else [])"

text \<open>The digits \<open>ds\<close> in their field: \<open>zeros\<close> up to the precision, and what fills the field up to the width.\<close>

definition laid_out :: "string \<Rightarrow> string \<Rightarrow> int \<Rightarrow> int \<Rightarrow> u32 \<Rightarrow> string" where
  "laid_out prefix ds width precision type =
     (let zeros = replicate (nat precision - length ds) CHR ''0'';
          fill = nat (width - int (length prefix + max (nat precision) (length ds)))
      in if type AND 16 \<noteq> 0 then prefix @ zeros @ ds @ replicate fill CHR '' ''
         else if type AND 1 \<noteq> 0 then prefix @ replicate fill CHR ''0'' @ zeros @ ds
         else replicate fill CHR '' '' @ prefix @ zeros @ ds)"

lemma magnitude_eq: "magnitude num type = unat (if type AND SIGN \<noteq> 0 \<and> num <s 0 then - num else num)"
proof -
  have uint_sint_nonneg: "0 \<le> sint w \<Longrightarrow> sint w = uint w" for w :: u32
    unfolding uint_sint using sint_less[of w] by (intro take_bit_int_eq_self[symmetric]) simp_all
  have pos: "sint num = uint num" if "\<not> num <s 0"
    by (rule uint_sint_nonneg) (use that in \<open>simp add: word_sless_alt not_less\<close>)
  have neg: "uint (- num) = - sint num" if "num <s 0"
  proof -
    have "- num = word_of_int (- sint num)" by simp
    then have "uint (- num) = (- sint num) mod 2 ^ 32" by (simp only: uint_word_of_int) simp
    moreover have "- sint num \<le> 2 ^ 31" "0 < - sint num"
      using sint_greater_eq[of num] that by (simp_all add: word_sless_alt)
    ultimately show ?thesis by simp
  qed
  show ?thesis
  proof (cases "num <s 0")
    case True
    then have "sint num < 0" by (simp add: word_sless_alt)
    then show ?thesis using neg[OF True] True unfolding magnitude_def unat_eq_nat_uint SIGN_def by (simp del: nat_uint_eq)
  next
    case False
    then have "\<bar>sint num\<bar> = uint num" using pos[OF False] by simp
    then show ?thesis using False unfolding magnitude_def unat_eq_nat_uint by (simp del: nat_uint_eq)
  qed
qed

lemma shown_sign_eq: "shown_sign num type = sign_of num type"
  by (simp add: shown_sign_def sign_of_def flag_consts word_sless_alt)

lemma shown_base_eq: "shown_base base type = special_of (if type AND SMALL \<noteq> 0 then small_digits else big_digits) base type"
  by (simp add: shown_base_def special_of_def flag_consts small_digits_def big_digits_def)

lemma length_pad [simp]: "length (pad c n) = nat n"
  by (simp add: pad_def)

lemma flag_off: "type AND LEFT_flag \<noteq> 0 \<Longrightarrow> (type AND NOT ZEROPAD) AND LEFT_flag \<noteq> 0"
  "(type AND NOT ZEROPAD) AND ZEROPAD = 0"
  "(type AND NOT ZEROPAD) AND SIGN = type AND SIGN" "(type AND NOT ZEROPAD) AND SPECIAL = type AND SPECIAL"
  "(type AND NOT ZEROPAD) AND PLUS = type AND PLUS" "(type AND NOT ZEROPAD) AND SPACE = type AND SPACE"
  by (simp_all add: flag_consts and.assoc)

lemma flags_split: "type AND (ZEROPAD + LEFT_flag) = 0 \<longleftrightarrow> type AND ZEROPAD = 0 \<and> type AND LEFT_flag = (0 :: u32)"
proof -
  have e: "ZEROPAD + LEFT_flag = ZEROPAD OR LEFT_flag" by (simp add: flag_consts)
  show ?thesis unfolding e bit.conj_disj_distrib by (metis or.right_neutral or_eq_0_iff)
qed

lemma flags_split': "type AND (LEFT_flag + ZEROPAD) = 0 \<longleftrightarrow> type AND ZEROPAD = 0 \<and> type AND LEFT_flag = (0 :: u32)"
  using flags_split by (simp add: add.commute)

lemma if_max: "(if p < (i :: int) then i else p) = max p i"
  by simp

text \<open>C28. A number is printed in its field: its sign (a minus for a negative signed number, else a plus or a blank when
  asked for), the prefix of its base when asked for, zeros up to the precision, and its digits, of the case asked for and
  without leading zeros, which denote the number. What is left of the width is filled with blanks behind the
  digits if the number is to be on the left, else with zeros behind the prefix if asked for, else with blanks in front.\<close>

theorem number_layout:
  assumes "2 \<le> base" "base \<le> 36"
  shows "\<exists>ds. number num base width precision type =
      Some (laid_out (shown_sign num type @ shown_base base type) ds width precision type) \<and>
    value_of base ds = magnitude num type \<and> ds \<noteq> [] \<and> (val_of_digit (hd ds) = 0 \<longrightarrow> ds = ''0'') \<and>
    set ds \<subseteq> set (if type AND 64 \<noteq> 0 then ''0123456789abcdefghijklmnopqrstuvwxyz'' else ''0123456789ABCDEFGHIJKLMNOPQRSTUVWXYZ'')"
proof -
  define D where "D = (if type AND SMALL \<noteq> 0 then small_digits else big_digits)"
  have D: "digit_list D" using both_digit_lists by (simp add: D_def)
  define tmp where "tmp = num_digits D base (magnitude num type)"
  have val: "value_of base (rev tmp) = magnitude num type"
    unfolding tmp_def by (rule value_num_digits[OF D assms(1,2)])
  have nz: "val_of_digit (hd (rev tmp)) = 0 \<longrightarrow> rev tmp = ''0''" and ne: "rev tmp \<noteq> []"
    using put_digits_nonzero[OF D assms(1,2), of "magnitude num type"]
    by (auto simp: tmp_def num_digits_def hd_rev)
  have inD: "set (rev tmp) \<subseteq> set D"
    unfolding tmp_def set_rev by (rule num_digits_set[OF D assms(1,2)]) (simp add: D_def big_digits_def small_digits_def)
  have D': "D = (if type AND 64 \<noteq> 0 then ''0123456789abcdefghijklmnopqrstuvwxyz'' else ''0123456789ABCDEFGHIJKLMNOPQRSTUVWXYZ'')"
    unfolding D_def flag_consts small_digits_def big_digits_def ..
  have sgn: "sign_of num (type AND NOT ZEROPAD) = sign_of num type" by (simp add: sign_of_def flag_off)
  have spc: "special_of D base (type AND NOT ZEROPAD) = special_of D base type" by (simp add: special_of_def flag_off)
  define pre where "pre = sign_of num type @ special_of D base type"
  have pre': "shown_sign num type @ shown_base base type = pre" by (simp add: pre_def shown_sign_eq shown_base_eq D_def)
  define p where "p = max precision (int (length tmp))"
  define w where "w = width - int (length pre) - p"
  have p: "max (nat precision) (length tmp) = nat p" "nat precision - length tmp = nat (p - int (length tmp))" "0 \<le> p"
    by (auto simp: p_def max_def nat_diff_distrib')
  have len: "length pre = length (sign_of num type) + length (special_of D base type)" by (simp add: pre_def)
  have flags: "(type AND 16 \<noteq> 0) = (type AND LEFT_flag \<noteq> 0)" "(type AND 1 \<noteq> 0) = (type AND ZEROPAD \<noteq> 0)"
    by (simp_all add: flag_consts)
  have fill: "nat (width - int (length pre + nat p)) = nat w" using p(3) by (simp add: w_def diff_diff_eq)
  have "number num base width precision type = Some (laid_out pre (rev tmp) width precision type)"
  proof -
    consider (left) "type AND LEFT_flag \<noteq> 0" | (zero) "type AND LEFT_flag = 0" "type AND ZEROPAD \<noteq> 0"
      | (blank) "type AND LEFT_flag = 0" "type AND ZEROPAD = 0" by blast
    then show ?thesis
    proof cases
      case left
      have "number num base width precision type =
          Some (pre @ replicate (nat (p - int (length tmp))) CHR ''0'' @ rev tmp @ replicate (nat w) CHR '' '')"
        using assms(1,2) left unfolding number_def Let_def
        by (simp add: flag_off sgn D_def[symmetric] spc magnitude_eq[symmetric] tmp_def[symmetric] flags_split flags_split'
          pad_def if_max diff_diff_eq w_def p_def len) (simp add: pre_def)
      then show ?thesis using left unfolding laid_out_def Let_def length_rev p(1,2) flags fill by simp
    next
      case zero
      have "number num base width precision type =
          Some (pre @ replicate (nat w) CHR ''0'' @ replicate (nat (p - int (length tmp))) CHR ''0'' @ rev tmp)"
        using assms(1,2) zero unfolding number_def Let_def
        by (simp add: sgn D_def[symmetric] magnitude_eq[symmetric] tmp_def[symmetric] flags_split flags_split'
          pad_def padded_def if_max diff_diff_eq w_def p_def len) (simp add: pre_def)
      then show ?thesis using zero unfolding laid_out_def Let_def length_rev p(1,2) flags fill by simp
    next
      case blank
      have "number num base width precision type =
          Some (replicate (nat w) CHR '' '' @ pre @ replicate (nat (p - int (length tmp))) CHR ''0'' @ rev tmp)"
        using assms(1,2) blank unfolding number_def Let_def
        by (simp add: sgn D_def[symmetric] magnitude_eq[symmetric] tmp_def[symmetric] flags_split flags_split'
          pad_def padded_def if_max diff_diff_eq w_def p_def len) (simp add: pre_def)
      then show ?thesis using blank unfolding laid_out_def Let_def length_rev p(1,2) flags fill by simp
    qed
  qed
  then show ?thesis using val ne nz inD unfolding pre' D' by (intro exI[of _ "rev tmp"] conjI)
qed

subsection \<open>Reading a number back\<close>

lemma atoi_loop_digits:
  "list_all is_digit ds \<Longrightarrow> atoi_loop i (ds @ rest) =
     atoi_loop (foldl (\<lambda>n c. n * 10 + of_nat (digit_value c)) i ds) rest"
  by (induction ds arbitrary: i) auto

lemma foldl_of_nat:
  "list_all is_digit ds \<Longrightarrow> foldl (\<lambda>n c. n * 10 + of_nat (digit_value c)) (of_nat n :: u32) ds =
     of_nat (foldl (\<lambda>n c. n * 10 + val_of_digit c) n ds)"
proof (induction ds arbitrary: n)
  case (Cons c ds)
  have "val_of_digit c = digit_value c" using Cons.prems by (simp add: is_digit_def val_of_digit_def digit_value_def Let_def)
  then show ?case using Cons.IH[of "n * 10 + digit_value c"] Cons.prems by simp
qed simp

lemma skip_atoi_digits:
  assumes "list_all is_digit ds" "rest = [] \<or> \<not> is_digit (hd rest)" "value_of 10 ds < 2 ^ 31"
  shows "skip_atoi (ds @ rest) = (int (value_of 10 ds), rest)"
proof -
  have stop: "atoi_loop i rest = (i, rest)" for i using assms(2) by (cases rest) auto
  have "atoi_loop 0 (ds @ rest) = (of_nat (value_of 10 ds), rest)"
    using foldl_of_nat[OF assms(1), of 0] by (simp add: atoi_loop_digits[OF assms(1)] stop value_of_def)
  moreover have "sint (of_nat (value_of 10 ds) :: u32) = int (value_of 10 ds)"
    using assms(3) by (simp add: signed_of_nat signed_take_bit_int_eq_self)
  ultimately show ?thesis by (simp add: skip_atoi_def)
qed

lemma decimal_digits: "d < 10 \<Longrightarrow> is_digit (big_digits ! d)"
proof -
  assume d: "d < 10"
  have "map (of_char :: char \<Rightarrow> nat) big_digits ! d = 48 + d" unfolding digit_codes using d
    by (simp only: nth_append length_upt nth_upt) (simp add: nth_upt[of 48 d 58, simplified])
  moreover have "length big_digits = 36" by (simp add: big_digits_def)
  ultimately show ?thesis using d by (simp add: is_digit_def)
qed

lemma put_digits_decimal: "list_all is_digit (put_digits big_digits 10 num)"
proof (induction num rule: less_induct)
  case (less num)
  then show ?case
    by (subst put_digits.simps) (simp add: decimal_digits)
qed

lemma num_digits_decimal: "list_all is_digit (rev (num_digits big_digits 10 num))"
  using put_digits_decimal by (simp add: num_digits_def is_digit_def)

lemma plain_text: "CHR ''%'' \<notin> set tail_text \<Longrightarrow> format_loop out st tail_text args = Some (out @ tail_text, st)"
  by (induction tail_text arbitrary: out) auto

lemma number_plain: "number v 10 (-1) (-1) 0 = Some (rev (num_digits big_digits 10 (unat v)))"
  by (simp add: number_def sign_of_def special_of_def pad_def padded_def)

lemma convert_u: "conversion n (CHR ''u'' # tail_text) (Num v # args) =
    Some (rev (num_digits big_digits 10 (unat v)), [], tail_text, args)"
  by (simp add: conversion_def is_digit_def skip_qualifier_def convert_def put_number_def number_plain)

text \<open>C25. \<^verbatim>\<open>skip_atoi\<close> reads back what \<^verbatim>\<open>%u\<close> printed, and stops at the text behind
  it, for every number that an \<^verbatim>\<open>int\<close> holds.\<close>

theorem printed_number_reads_back:
  assumes "unat v < 2 ^ 31" and "CHR ''%'' \<notin> set tail_text" and "tail_text = [] \<or> \<not> is_digit (hd tail_text)"
  shows "\<exists>t. vsprintf (''%u'' @ tail_text) [Num v] = Some (t @ tail_text, []) \<and> skip_atoi (t @ tail_text) = (int (unat v), tail_text)"
proof (intro exI conjI)
  let ?t = "rev (num_digits big_digits 10 (unat v))"
  show "vsprintf (''%u'' @ tail_text) [Num v] = Some (?t @ tail_text, [])"
    by (simp add: vsprintf_def convert_u plain_text[OF assms(2)])
  have val: "value_of 10 ?t = unat v" by (rule value_num_digits[OF both_digit_lists(1)]) simp_all
  show "skip_atoi (?t @ tail_text) = (int (unat v), tail_text)"
    using skip_atoi_digits[OF num_digits_decimal[of "unat v"] assms(3)] assms(1) unfolding val by simp
qed

theorem printed_number_reads_back_witness:
  "\<exists>t. vsprintf ''%u KB'' [Num 640] = Some (t @ '' KB'', []) \<and> skip_atoi (t @ '' KB'') = (640, '' KB'')"
  using printed_number_reads_back[of 640 "'' KB''"] by (simp add: is_digit_def)

theorem number_layout_witness:
  "(\<exists>ds. number (- 5) 10 4 0 3 = Some (''-'' @ replicate (3 - length ds) CHR ''0'' @ ds) \<and> value_of 10 ds = 5) \<and>
   (\<exists>ds. number (- 5) 10 4 0 2 = Some (replicate (3 - length ds) CHR '' '' @ ''-'' @ ds) \<and> value_of 10 ds = 5)"
proof -
  have p: "shown_sign (- 5) 3 @ shown_base 10 3 = ''-''" "shown_sign (- 5) 2 @ shown_base 10 2 = ''-''"
    "magnitude (- 5) 3 = 5" "magnitude (- 5) 2 = 5"
    by (simp_all add: shown_sign_def shown_base_def magnitude_def)
  have l: "laid_out ''-'' ds 4 0 3 = ''-'' @ replicate (3 - length ds) CHR ''0'' @ ds"
    "laid_out ''-'' ds 4 0 2 = replicate (3 - length ds) CHR '' '' @ ''-'' @ ds" for ds
    by (simp_all add: laid_out_def nat_diff_distrib')
  show ?thesis
    using number_layout[of 10 "- 5" 4 0 3] number_layout[of 10 "- 5" 4 0 2] unfolding p l by auto
qed

text \<open>A width given as a star takes its argument, but the star stays in the format and is printed.\<close>

lemma star_width_is_printed: "vsprintf ''%*d'' [Num 3, Num 9] = Some (''%*d'', [])"
  by (simp add: vsprintf_def conversion_def is_digit_def convert_def skip_qualifier_def word_sless_alt)

end
