(* ===== verification/Clock.thy ===== *)
theory Clock
  imports Kprelude "HOL-Library.Signed_Division"
begin

section \<open>The time at boot\<close>

text \<open>
  \<^verbatim>\<open>kernel/mktime.c\<close> and \<^verbatim>\<open>time_init\<close> of \<^verbatim>\<open>init/main.c\<close>. The members of
  \<^verbatim>\<open>struct tm\<close> are integers. The registers of the real-time clock are a parameter: \<open>cmos n a\<close> is what
  the \<open>n\<close>-th read of the clock gives for the register \<open>a\<close>, so that the clock may tick between two
  reads.
\<close>

record tm =
  tm_sec :: int
  tm_min :: int
  tm_hour :: int
  tm_mday :: int
  tm_mon :: int
  tm_year :: int

abbreviation (input) MINUTE :: int where "MINUTE \<equiv> 60"
abbreviation (input) HOUR :: int where "HOUR \<equiv> 60 * 60"
abbreviation (input) DAY :: int where "DAY \<equiv> 24 * 60 * 60"
abbreviation (input) YEAR :: int where "YEAR \<equiv> 365 * DAY"

definition month :: "int list" where
  "month = map (\<lambda>d. DAY * d)
     [0, 31, 31+29, 31+29+31, 31+29+31+30, 31+29+31+30+31, 31+29+31+30+31+30, 31+29+31+30+31+30+31,
      31+29+31+30+31+30+31+31, 31+29+31+30+31+30+31+31+30, 31+29+31+30+31+30+31+31+30+31,
      31+29+31+30+31+30+31+31+30+31+30]"

text \<open>\<^verbatim>\<open>int\<close> and \<^verbatim>\<open>long\<close> are signed 32-bit integers: what is computed in them wraps. The code's
  division rounds towards zero.\<close>

definition s32 :: "int \<Rightarrow> int" where
  "s32 x = sint (of_int x :: 32 word)"

definition kernel_mktime :: "tm \<Rightarrow> int" where
  "kernel_mktime t =
     (let year = s32 (tm_year t - 70);
          res = s32 (YEAR * year + DAY * (s32 (year + 1) sdiv 4));
          res = s32 (res + month ! nat (tm_mon t));
          res = (if 1 < tm_mon t \<and> s32 (year + 2) smod 4 \<noteq> 0 then s32 (res - DAY) else res);
          res = s32 (res + DAY * (tm_mday t - 1));
          res = s32 (res + HOUR * tm_hour t);
          res = s32 (res + MINUTE * tm_min t)
      in s32 (res + tm_sec t))"

subsection \<open>Reading the clock\<close>

definition BCD_TO_BIN :: "u8 \<Rightarrow> int" where
  "BCD_TO_BIN v = uint (v AND 15) + uint (drop_bit 4 v) * 10"

text \<open>One round of the loop makes six reads, and a seventh of the seconds to see whether they are still the
  same.\<close>

definition read_clock :: "(nat \<Rightarrow> u8 \<Rightarrow> u8) \<Rightarrow> nat \<Rightarrow> u8 list \<times> bool" where
  "read_clock cmos n =
     (let sec = cmos n 0 in
      ([sec, cmos (n + 1) 2, cmos (n + 2) 4, cmos (n + 3) 7, cmos (n + 4) 8, cmos (n + 5) 9], sec \<noteq> cmos (n + 6) 0))"

definition tm_of_clock :: "u8 list \<Rightarrow> tm" where
  "tm_of_clock r =
     \<lparr>tm_sec = BCD_TO_BIN (r ! 0), tm_min = BCD_TO_BIN (r ! 1), tm_hour = BCD_TO_BIN (r ! 2),
      tm_mday = BCD_TO_BIN (r ! 3), tm_mon = BCD_TO_BIN (r ! 4) - 1, tm_year = BCD_TO_BIN (r ! 5)\<rparr>"

text \<open>\<^verbatim>\<open>time_init\<close>: the startup time. The loop goes round until a round sees no tick.\<close>

partial_function (option) clock_loop :: "(nat \<Rightarrow> u8 \<Rightarrow> u8) \<Rightarrow> nat \<Rightarrow> u8 list option" where
  "clock_loop cmos n =
     (let (r, ticked) = read_clock cmos n in if ticked then clock_loop cmos (n + 7) else Some r)"

definition time_init :: "(nat \<Rightarrow> u8 \<Rightarrow> u8) \<Rightarrow> int option" where
  "time_init cmos = map_option (\<lambda>r. kernel_mktime (tm_of_clock r)) (clock_loop cmos 0)"

end
