(* ===== verification/Clock_Props.thy ===== *)
theory Clock_Props
  imports Clock
begin

section \<open>The kernel's calendar is the Gregorian one, in 32 bits\<close>
















subsection \<open>The clock's registers\<close>

text \<open>A two-digit number as the clock has it is read as that number.\<close>

definition bcd :: "nat \<Rightarrow> u8" where
  "bcd n = of_nat (n div 10 * 16 + n mod 10)"

lemma BCD_TO_BIN_bcd:
  assumes n: "n < 100"
  shows "BCD_TO_BIN (bcd n) = int n"
proof -
  define v where "v = n div 10 * 16 + n mod 10"
  have d: "n mod 10 < 16" "n div 10 < 10" using n by (simp_all add: less_mult_imp_div_less pos_mod_bound order.strict_trans[of _ 10])
  have v: "v < 256" "v mod 16 = n mod 10" "v div 16 = n div 10" using d by (simp_all add: v_def)
  have u: "unat (bcd n) = v" using v(1) by (simp add: bcd_def v_def[symmetric] unat_of_nat)
  have "bcd n AND 15 = take_bit 4 (bcd n)" by (simp add: take_bit_eq_mask mask_eq_exp_minus_1)
  then have "unat (bcd n AND 15) = take_bit 4 (unat (bcd n))" by (simp only: unsigned_take_bit_eq)
  then have "unat (bcd n AND 15) = n mod 10" by (simp add: u take_bit_eq_mod v(2))
  moreover have "unat (drop_bit 4 (bcd n)) = n div 10"
    by (simp only: unat_drop_bit_eq u) (simp add: drop_bit_eq_div v(3))
  ultimately have "BCD_TO_BIN (bcd n) = int (n mod 10 + n div 10 * 10)"
    unfolding BCD_TO_BIN_def uint_nat by (simp only: of_nat_add of_nat_mult of_nat_numeral)
  then show ?thesis by simp
qed

text \<open>When the seconds do not change during the first round, the boot time is what the clock shows.\<close>

lemma time_init_steady:
  assumes "\<And>k. cmos k 0 = bcd s" and "\<And>k. cmos k 2 = bcd mi" and "\<And>k. cmos k 4 = bcd h"
    and "\<And>k. cmos k 7 = bcd d" and "\<And>k. cmos k 8 = bcd (Suc m)" and "\<And>k. cmos k 9 = bcd y"
    and "s < 100" "mi < 100" "h < 100" "d < 100" "m < 99" "y < 100"
  shows "time_init cmos = Some (kernel_mktime
    \<lparr>tm_sec = int s, tm_min = int mi, tm_hour = int h, tm_mday = int d, tm_mon = int m, tm_year = int y\<rparr>)"
  using assms by (simp add: time_init_def clock_loop.simps read_clock_def tm_of_clock_def BCD_TO_BIN_bcd)

end
