(* ===== verification/Screen_Props.thy ===== *)
theory Screen_Props
  imports Screen
begin

section \<open>Screens: the cursor stays on them, and scrolling\<close>

text \<open>
  The invariant of a console (\<open>screen_ok\<close>), and that each drawing routine keeps it and writes
  only to the video memory of its console (\<open>step\<close>). What scrolling does to the lines of the screen is the same
  whether the lines are copied or the hardware's window is moved.
\<close>

subsection \<open>Where the string instructions write\<close>

lemma put_word_frame: "b < a \<or> a + 2 \<le> b \<Longrightarrow> put_word a w m b = m b"
  by (auto simp: put_word_def)

lemma move_long_frame: "b < a \<or> a + 4 \<le> b \<Longrightarrow> move_long si a m b = m b"
  by (auto simp: move_long_def)

lemma stosw_frame: "b < a \<or> a + 2 * n \<le> b \<Longrightarrow> stosw n a w m b = m b"
  by (induction n arbitrary: a m) (auto simp: put_word_def)

lemma stosw_down_frame: "2 * n \<le> a + 2 \<Longrightarrow> b + 2 * n < a + 2 \<or> a + 2 \<le> b \<Longrightarrow> stosw_down n a w m b = m b"
proof (induction n arbitrary: a m)
  case (Suc n)
  have "stosw_down n (a - 2) w (put_word a w m) b = put_word a w m b"
  proof (cases "n = 0")
    case False
    show ?thesis by (rule Suc.IH) (use Suc.prems False in auto)
  qed simp
  also have "put_word a w m b = m b" by (rule put_word_frame) (use Suc.prems in auto)
  finally show ?case by simp
qed simp

lemma movsl_frame: "b < a \<or> a + 4 * n \<le> b \<Longrightarrow> movsl n si a m b = m b"
  by (induction n arbitrary: a si m) (auto simp: move_long_def)

lemma movsl_down_frame: "4 * n \<le> a + 4 \<Longrightarrow> b + 4 * n < a + 4 \<or> a + 4 \<le> b \<Longrightarrow> movsl_down n si a m b = m b"
proof (induction n arbitrary: a si m)
  case (Suc n)
  have "movsl_down n (si - 4) (a - 4) (move_long si a m) b = move_long si a m b"
  proof (cases "n = 0")
    case False
    show ?thesis by (rule Suc.IH) (use Suc.prems False in auto)
  qed simp
  also have "move_long si a m b = m b" by (rule move_long_frame) (use Suc.prems in auto)
  finally show ?case by simp
qed simp

lemma shift_right_frame: "b < p \<or> p + 2 * n \<le> b \<Longrightarrow> shift_right n p w m b = m b"
  by (induction n arbitrary: p w m) (auto simp: put_word_def)

lemma shift_left_frame: "b < p \<or> p + 2 * n \<le> b \<Longrightarrow> shift_left n p m b = m b"
  by (induction n arbitrary: p m) (auto simp: put_word_def)

subsection \<open>The invariant\<close>

definition geometry :: "console \<Rightarrow> bool" where
  "geometry k \<longleftrightarrow> 8 \<le> video_num_columns k \<and> 0 < video_num_lines k \<and> video_size_row k = 2 * video_num_columns k"

definition vc_ok :: "nat \<Rightarrow> nat \<Rightarrow> vc \<Rightarrow> bool" where
  "vc_ok cols lines v \<longleftrightarrow>
     vc_x v \<le> cols \<and> vc_y v < lines \<and> vc_pos v = vc_origin v + vc_y v * (2 * cols) + 2 * vc_x v \<and>
     vc_scr_end v = vc_origin v + lines * (2 * cols) \<and>
     vc_video_mem_start v \<le> vc_origin v \<and> vc_scr_end v \<le> vc_video_mem_end v \<and>
     vc_top v < vc_bottom v \<and> vc_bottom v \<le> lines \<and> vc_npar v < NPAR"

definition screen_ok :: "nat \<Rightarrow> console \<Rightarrow> bool" where
  "screen_ok c k \<longleftrightarrow> geometry k \<and> vc_ok (video_num_columns k) (video_num_lines k) (vc_cons k c)"

text \<open>What may differ after drawing on console \<open>c\<close>: its own state, its own video memory, and what the
  controller was sent.\<close>

definition region :: "nat \<Rightarrow> console \<Rightarrow> nat set" where
  "region c k = {vc_video_mem_start (vc_cons k c)..<vc_video_mem_end (vc_cons k c)}"

definition draws :: "nat \<Rightarrow> console \<Rightarrow> console \<Rightarrow> bool" where
  "draws c k k' \<longleftrightarrow>
     region c k' = region c k \<and> vc_video_mem_start (vc_cons k' c) = vc_video_mem_start (vc_cons k c) \<and>
     (\<forall>d. d \<noteq> c \<longrightarrow> vc_cons k' d = vc_cons k d) \<and> (\<forall>a. a \<notin> region c k \<longrightarrow> vmem k' a = vmem k a) \<and>
     video_num_columns k' = video_num_columns k \<and> video_num_lines k' = video_num_lines k \<and>
     video_size_row k' = video_size_row k"

definition step :: "nat \<Rightarrow> console \<Rightarrow> console \<Rightarrow> bool" where
  "step c k k' \<longleftrightarrow> screen_ok c k' \<and> draws c k k'"

named_theorems steps \<open>drawing routines keep the invariant and stay in their memory\<close>

lemma draws_refl [simp]: "draws c k k"
  by (simp add: draws_def)

lemma draws_trans: "draws c k k' \<Longrightarrow> draws c k' k'' \<Longrightarrow> draws c k k''"
  by (simp add: draws_def)

lemma step_refl [steps]: "screen_ok c k \<Longrightarrow> step c k k"
  by (simp add: step_def)

lemma step_ok: "step c k k' \<Longrightarrow> screen_ok c k'"
  by (simp add: step_def)

lemma step_trans: "step c k k' \<Longrightarrow> step c k' k'' \<Longrightarrow> step c k k''"
  using draws_trans by (auto simp: step_def)

lemma step_then: "step c k k' \<Longrightarrow> (screen_ok c k' \<Longrightarrow> step c k' k'') \<Longrightarrow> step c k k''"
  using step_trans step_ok by blast

lemma upd_vc_simps [simp]:
  "vc_cons (upd_vc c f k) d = (if d = c then f (vc_cons k c) else vc_cons k d)"
  "vmem (upd_vc c f k) = vmem k" "video_num_columns (upd_vc c f k) = video_num_columns k"
  "video_num_lines (upd_vc c f k) = video_num_lines k" "video_size_row (upd_vc c f k) = video_size_row k"
  "video_type (upd_vc c f k) = video_type k" "is_ega (upd_vc c f k) = is_ega k"
  "can_do_colour (upd_vc c f k) = can_do_colour k"
  by (simp_all add: upd_vc_def is_ega_def)

lemma upd_vmem_simps [simp]:
  "vc_cons (upd_vmem g k) = vc_cons k" "vmem (upd_vmem g k) = g (vmem k)"
  "video_num_columns (upd_vmem g k) = video_num_columns k" "video_num_lines (upd_vmem g k) = video_num_lines k"
  "video_size_row (upd_vmem g k) = video_size_row k"
  by (simp_all add: upd_vmem_def)

lemma video_addr_simps [simp]:
  "vc_cons (video_addr r a k) = vc_cons k" "vmem (video_addr r a k) = vmem k"
  "video_num_columns (video_addr r a k) = video_num_columns k" "video_num_lines (video_addr r a k) = video_num_lines k"
  "video_size_row (video_addr r a k) = video_size_row k"
  by (simp_all add: video_addr_def video_reg_def Let_def)

lemma step_vmem:
  assumes "screen_ok c k"
    and "\<And>a. a < vc_origin (vc_cons k c) \<or> vc_scr_end (vc_cons k c) \<le> a \<Longrightarrow> g (vmem k) a = vmem k a"
  shows "step c k (upd_vmem g k)"
  using assms by (auto simp: step_def screen_ok_def geometry_def draws_def region_def vc_ok_def)

lemma step_vc:
  assumes "screen_ok c k" and "vc_ok (video_num_columns k) (video_num_lines k) (f (vc_cons k c))"
    and "vc_video_mem_start (f (vc_cons k c)) = vc_video_mem_start (vc_cons k c)"
    and "vc_video_mem_end (f (vc_cons k c)) = vc_video_mem_end (vc_cons k c)"
  shows "step c k (upd_vc c f k)"
  using assms by (auto simp: step_def screen_ok_def geometry_def draws_def region_def)

lemma step_video_addr [steps]: "screen_ok c k \<Longrightarrow> step c k (video_addr r a k)"
  by (auto simp: step_def screen_ok_def geometry_def draws_def region_def)

lemma step_set_origin [steps]: "screen_ok c k \<Longrightarrow> step c k (set_origin fg c k)"
  unfolding set_origin_def by (auto intro: steps)

lemma step_show_cursor [steps]: "screen_ok c k \<Longrightarrow> step c k (show_cursor fg c k)"
  unfolding show_cursor_def by (auto intro: steps)

lemma screen_okD:
  assumes "screen_ok c k"
  shows "8 \<le> video_num_columns k" "0 < video_num_lines k" "video_size_row k = 2 * video_num_columns k"
    "vc_ok (video_num_columns k) (video_num_lines k) (vc_cons k c)"
  using assms by (simp_all add: screen_ok_def geometry_def)

lemma vc_okD:
  assumes "vc_ok cols lines v"
  shows "vc_x v \<le> cols" "vc_y v < lines" "vc_pos v = vc_origin v + vc_y v * (2 * cols) + 2 * vc_x v"
    "vc_scr_end v = vc_origin v + lines * (2 * cols)" "vc_video_mem_start v \<le> vc_origin v"
    "vc_scr_end v \<le> vc_video_mem_end v" "vc_top v < vc_bottom v" "vc_bottom v \<le> lines" "vc_npar v < NPAR"
  using assms by (simp_all add: vc_ok_def)

text \<open>The line the cursor is in lies on the screen.\<close>

lemma row_end:
  fixes y :: nat
  shows "y < lines \<Longrightarrow> y * w + w \<le> lines * w"
proof -
  assume "y < lines"
  then have "Suc y * w \<le> lines * w" by (intro mult_le_mono1) simp
  then show ?thesis by simp
qed

lemma cursor_line:
  assumes "screen_ok c k"
  defines "v \<equiv> vc_cons k c" and "w \<equiv> 2 * video_num_columns k"
  shows "vc_origin v \<le> vc_pos v - 2 * vc_x v" "2 * vc_x v \<le> vc_pos v" "vc_pos v - 2 * vc_x v + w \<le> vc_scr_end v"
    "vc_pos v \<le> vc_scr_end v" "vc_origin v \<le> vc_pos v"
  using vc_okD[OF screen_okD(4)[OF assms(1)]] row_end[of "vc_y v" "video_num_lines k" w]
  by (auto simp: v_def w_def)

subsection \<open>Moving\<close>

lemma step_gotoxy [steps]: "screen_ok c k \<Longrightarrow> step c k (gotoxy c x y k)"
  unfolding gotoxy_def
  by (auto intro!: step_vc step_refl simp: screen_ok_def geometry_def vc_ok_def)

lemma step_cr [steps]: "screen_ok c k \<Longrightarrow> step c k (cr c k)"
  unfolding cr_def by (rule step_vc) (auto simp: screen_ok_def vc_ok_def)

lemma step_left_step [steps]: "screen_ok c k \<Longrightarrow> step c k (step_left c k)"
  unfolding step_left_def by (auto intro!: step_vc step_refl simp: screen_ok_def vc_ok_def)

lemma step_del [steps]: "screen_ok c k \<Longrightarrow> step c k (del c k)"
proof -
  assume ok: "screen_ok c k"
  have "step c k (upd_vmem (put_word (vc_pos (vc_cons (step_left c k) c)) w) (step_left c k))"
    if x: "vc_x (vc_cons k c) \<noteq> 0" for w
  proof (rule step_then[OF step_left_step[OF ok]])
    assume ok': "screen_ok c (step_left c k)"
    have "vc_x (vc_cons (step_left c k) c) < video_num_columns (step_left c k)"
      using x vc_okD(1)[OF screen_okD(4)[OF ok]] by (simp add: step_left_def)
    with cursor_line[OF ok']
    show "step c (step_left c k) (upd_vmem (put_word (vc_pos (vc_cons (step_left c k) c)) w) (step_left c k))"
      by (intro step_vmem[OF ok'] put_word_frame) linarith
  qed
  then show ?thesis unfolding del_def by (auto simp: Let_def intro: step_refl[OF ok])
qed

subsection \<open>Scrolling\<close>

lemma region_longs:
  fixes t b cols :: nat
  assumes "t < b"
  shows "4 * ((b - t - 1) * cols div 2) \<le> (b - t - 1) * (2 * cols)"
    "even cols \<Longrightarrow> 4 * ((b - t - 1) * cols div 2) = (b - t - 1) * (2 * cols)"
    "2 * cols * t + (b - t - 1) * (2 * cols) + 2 * cols = 2 * cols * b"
proof -
  show "4 * ((b - t - 1) * cols div 2) \<le> (b - t - 1) * (2 * cols)" by linarith
  show "even cols \<Longrightarrow> 4 * ((b - t - 1) * cols div 2) = (b - t - 1) * (2 * cols)" by auto
  have "b = t + (b - t - 1) + 1" using assms by simp
  then show "2 * cols * t + (b - t - 1) * (2 * cols) + 2 * cols = 2 * cols * b"
    by (metis (no_types, lifting) add_mult_distrib2 mult.commute mult.right_neutral)
qed

lemma step_scroll_region_up [steps]: "screen_ok c k \<Longrightarrow> step c k (scroll_region_up c k)"
proof -
  assume ok: "screen_ok c k"
  let ?v = "vc_cons k c" let ?cols = "video_num_columns k" let ?n = "(vc_bottom ?v - vc_top ?v - 1) * ?cols div 2"
  note v = vc_okD[OF screen_okD(4)[OF ok]] and g = screen_okD[OF ok]
  define di where "di = vc_origin ?v + 2 * ?cols * vc_top ?v"
  have "2 * ?cols * vc_bottom ?v \<le> video_num_lines k * (2 * ?cols)" using v(8) by simp
  then have d: "vc_origin ?v \<le> di" "di + 4 * ?n + 2 * ?cols \<le> vc_scr_end ?v"
    using region_longs(1,3)[OF v(7), of ?cols] unfolding di_def v(4) by linarith+
  have "stosw ?cols (di + 4 * ?n) w (movsl ?n si di (vmem k)) a = vmem k a"
    if a: "a < vc_origin ?v \<or> vc_scr_end ?v \<le> a" for a si w
  proof -
    have "stosw ?cols (di + 4 * ?n) w m a = m a" for m by (rule stosw_frame) (use a d in linarith)
    moreover have "movsl ?n si di (vmem k) a = vmem k a" by (rule movsl_frame) (use a d in linarith)
    ultimately show ?thesis by simp
  qed
  then show ?thesis unfolding scroll_region_up_def Let_def g(3) di_def[symmetric] by (intro step_vmem[OF ok]) auto
qed

lemma step_scrdown [steps]: "screen_ok c k \<Longrightarrow> step c k (scrdown c k)"
proof -
  assume ok: "screen_ok c k"
  let ?v = "vc_cons k c" let ?cols = "video_num_columns k" let ?n = "(vc_bottom ?v - vc_top ?v - 1) * ?cols div 2"
  note v = vc_okD[OF screen_okD(4)[OF ok]] and g = screen_okD[OF ok]
  define di where "di = vc_origin ?v + 2 * ?cols * vc_bottom ?v - 4"
  have "2 * ?cols * vc_bottom ?v \<le> video_num_lines k * (2 * ?cols)" using v(8) by simp
  moreover have "16 * 1 \<le> 2 * ?cols * vc_bottom ?v" using g(1) v(7) by (intro mult_le_mono) auto
  ultimately have d: "di + 4 \<le> vc_scr_end ?v" "vc_origin ?v + 12 \<le> di"
    "4 * ?n + 2 * ?cols + vc_origin ?v \<le> di + 4"
    using region_longs(1,3)[OF v(7), of ?cols] unfolding di_def v(4) by linarith+
  have "stosw_down ?cols (di - 4 * ?n + 2) w (movsl_down ?n si di (vmem k)) a = vmem k a"
    if a: "a < vc_origin ?v \<or> vc_scr_end ?v \<le> a" for a si w
  proof -
    have "stosw_down ?cols (di - 4 * ?n + 2) w m a = m a" for m
      by (rule stosw_down_frame) (use a d g(1) in linarith)+
    moreover have "movsl_down ?n si di (vmem k) a = vmem k a"
      by (rule movsl_down_frame) (use a d g(1) in linarith)+
    ultimately show ?thesis by simp
  qed
  then show ?thesis unfolding scrdown_def Let_def g(3) di_def[symmetric]
    using v(7) by (auto intro!: step_vmem[OF ok])
qed

text \<open>The hardware's window moves down a line, or starts again at the top of the video memory.\<close>

definition window_down :: "nat \<Rightarrow> console \<Rightarrow> console" where
  "window_down c k =
     (let v = vc_cons k c; row = video_size_row k; cols = video_num_columns k;
          n = (video_num_lines k - 1) * cols div 2; start = vc_video_mem_start v; d = vc_origin v + row - start
      in if vc_video_mem_end v < vc_scr_end v + row
         then upd_vc c (\<lambda>v. v\<lparr>vc_scr_end := vc_scr_end v + row - d, vc_pos := vc_pos v + row - d, vc_origin := start\<rparr>)
                (upd_vmem (\<lambda>m. stosw cols (start + 4 * n) (vc_video_erase_char v) (movsl n (vc_origin v + row) start m)) k)
         else upd_vc c (\<lambda>v. v\<lparr>vc_origin := vc_origin v + row, vc_pos := vc_pos v + row, vc_scr_end := vc_scr_end v + row\<rparr>)
                (upd_vmem (stosw cols (vc_scr_end v) (vc_video_erase_char v)) k))"

lemma upd_vc_upd_vc [simp]: "upd_vc c f (upd_vc c g k) = upd_vc c (f \<circ> g) k"
  by (simp add: upd_vc_def)

lemma upd_vmem_upd_vc [simp]: "upd_vmem g (upd_vc c f k) = upd_vc c f (upd_vmem g k)"
  by (simp add: upd_vc_def upd_vmem_def)

lemma scrup_eq:
  assumes "screen_ok c k"
  shows "scrup fg c k =
    (if is_ega k \<and> vc_top (vc_cons k c) = 0 \<and> vc_bottom (vc_cons k c) = video_num_lines k
     then set_origin fg c (window_down c k) else scroll_region_up c k)"
  using vc_okD(7)[OF screen_okD(4)[OF assms]]
  by (simp add: scrup_def window_down_def Let_def o_def)

lemma step_window_down [steps]: "screen_ok c k \<Longrightarrow> step c k (window_down c k)"
proof -
  assume ok: "screen_ok c k"
  let ?v = "vc_cons k c" let ?cols = "video_num_columns k" let ?row = "2 * ?cols" let ?n = "(video_num_lines k - 1) * ?cols div 2"
  let ?start = "vc_video_mem_start ?v"
  note v = vc_okD[OF screen_okD(4)[OF ok]] and g = screen_okD[OF ok]
  have n: "4 * ?n + ?row \<le> video_num_lines k * ?row"
    using region_longs(1,3)[OF g(2), of ?cols] unfolding diff_zero mult_0_right add_0
    by (metis add_le_mono1 mult.commute)
  have pos: "vc_pos ?v + ?row - (vc_origin ?v + ?row - ?start) = ?start + vc_y ?v * ?row + 2 * vc_x ?v"
    "vc_scr_end ?v + ?row - (vc_origin ?v + ?row - ?start) = ?start + video_num_lines k * ?row"
    using v(3,4,5) by auto
  have mem: "stosw ?cols (?start + 4 * ?n) w (movsl ?n si ?start m) a = m a"
    if a: "a < ?start \<or> vc_video_mem_end ?v \<le> a" for a si w m
  proof -
    have e: "?start + 4 * ?n + ?row \<le> vc_video_mem_end ?v" using n v(4,5,6) by linarith
    have "stosw ?cols (?start + 4 * ?n) w m' a = m' a" for m' by (rule stosw_frame) (use a e in linarith)
    moreover have "movsl ?n si ?start m a = m a" by (rule movsl_frame) (use a e in linarith)
    ultimately show ?thesis by simp
  qed
  show ?thesis
  proof (cases "vc_video_mem_end ?v < vc_scr_end ?v + ?row")
    case True
    then show ?thesis
      using v g mem by (auto simp: window_down_def Let_def step_def screen_ok_def geometry_def draws_def region_def
          vc_ok_def pos not_le)
  next
    case False
    have "stosw ?cols (vc_scr_end ?v) w m a = m a" if "a < ?start \<or> vc_video_mem_end ?v \<le> a" for a w m
      by (rule stosw_frame) (use that False v(4,5) in linarith)
    with False v g show ?thesis
      by (auto simp: window_down_def Let_def step_def screen_ok_def geometry_def draws_def region_def vc_ok_def)
  qed
qed

lemma step_scrup [steps]: "screen_ok c k \<Longrightarrow> step c k (scrup fg c k)"
  unfolding scrup_eq
  by (auto intro!: step_scroll_region_up intro: step_then[OF step_window_down step_set_origin])

lemma step_lf [steps]: "screen_ok c k \<Longrightarrow> step c k (lf fg c k)"
  unfolding lf_def Let_def
  by (auto intro!: step_vc steps simp: screen_ok_def geometry_def vc_ok_def)

lemma step_ri [steps]: "screen_ok c k \<Longrightarrow> step c k (ri c k)"
proof -
  assume ok: "screen_ok c k"
  have "step c k (upd_vc c (\<lambda>v. v\<lparr>vc_y := vc_y v - 1, vc_pos := vc_pos v - video_size_row k\<rparr>) k)"
    if "vc_top (vc_cons k c) < vc_y (vc_cons k c)"
  proof -
    from that obtain y where "vc_y (vc_cons k c) = Suc y" by (cases "vc_y (vc_cons k c)") auto
    with ok show ?thesis by (intro step_vc) (auto simp: screen_ok_def geometry_def vc_ok_def)
  qed
  then show ?thesis unfolding ri_def Let_def by (auto intro: step_scrdown[OF ok])
qed

subsection \<open>Characters\<close>

lemma vc_x_lf: "screen_ok c k \<Longrightarrow> vc_x (vc_cons (lf fg c k) c) = vc_x (vc_cons k c)"
  by (simp add: lf_def Let_def scrup_eq scroll_region_up_def window_down_def set_origin_def)

lemma step_wrapped:
  assumes "screen_ok c k" and "video_num_columns k \<le> x" and "x \<le> 2 * video_num_columns k"
    and "p = vc_origin (vc_cons k c) + vc_y (vc_cons k c) * (2 * video_num_columns k) + 2 * x"
  shows "step c k (upd_vc c (\<lambda>v. v\<lparr>vc_x := x - video_num_columns k, vc_pos := p - video_size_row k\<rparr>) k)"
  using assms by (intro step_vc) (auto simp: screen_ok_def geometry_def vc_ok_def)

lemma step_wrap_line: "screen_ok c k \<Longrightarrow> video_num_columns k \<le> vc_x (vc_cons k c) \<Longrightarrow> step c k (wrap_line fg c k)"
proof -
  assume ok: "screen_ok c k" and x: "video_num_columns k \<le> vc_x (vc_cons k c)"
  note v = vc_okD[OF screen_okD(4)[OF ok]] and g = screen_okD[OF ok]
  have "step c k (upd_vc c (\<lambda>v. v\<lparr>vc_x := vc_x v - video_num_columns k, vc_pos := vc_pos v - video_size_row k\<rparr>) k)"
    using ok x by (intro step_vc) (auto simp: screen_ok_def geometry_def vc_ok_def)
  then show ?thesis unfolding wrap_line_def by (rule step_then) (rule step_lf)
qed

lemma step_put_glyph [steps]: "screen_ok c k \<Longrightarrow> step c k (put_glyph fg c ch k)"
proof -
  assume ok: "screen_ok c k"
  let ?k = "if video_num_columns k \<le> vc_x (vc_cons k c) then wrap_line fg c k else k"
  have st: "step c k ?k" using step_wrap_line[OF ok] step_refl[OF ok] by simp
  have ok1: "screen_ok c (upd_vc c (\<lambda>v. v\<lparr>vc_x := vc_x v - video_num_columns k, vc_pos := vc_pos v - video_size_row k\<rparr>) k)"
    if "video_num_columns k \<le> vc_x (vc_cons k c)"
    using ok that by (auto simp: screen_ok_def geometry_def vc_ok_def)
  have x: "vc_x (vc_cons ?k c) < video_num_columns ?k"
  proof (cases "video_num_columns k \<le> vc_x (vc_cons k c)")
    case True
    then have "vc_x (vc_cons (wrap_line fg c k) c) = 0"
      using vc_okD(1)[OF screen_okD(4)[OF ok]] unfolding wrap_line_def vc_x_lf[OF ok1[OF True]] by simp
    moreover have "video_num_columns ?k = video_num_columns k" using st by (simp add: step_def draws_def)
    ultimately show ?thesis using True screen_okD(1)[OF ok] by simp
  qed simp
  have "step c k' (upd_vc c (\<lambda>v. v\<lparr>vc_pos := vc_pos v + 2, vc_x := vc_x v + 1\<rparr>) (upd_vmem (put_word (vc_pos (vc_cons k' c)) w) k'))"
    if k': "screen_ok c k'" "vc_x (vc_cons k' c) < video_num_columns k'" for k' w
  proof (rule step_then)
    show "step c k' (upd_vmem (put_word (vc_pos (vc_cons k' c)) w) k')"
      by (intro step_vmem[OF k'(1)] put_word_frame) (use cursor_line[OF k'(1)] k'(2) in linarith)
    assume "screen_ok c (upd_vmem (put_word (vc_pos (vc_cons k' c)) w) k')"
    then show "step c (upd_vmem (put_word (vc_pos (vc_cons k' c)) w) k')
        (upd_vc c (\<lambda>v. v\<lparr>vc_pos := vc_pos v + 2, vc_x := vc_x v + 1\<rparr>) (upd_vmem (put_word (vc_pos (vc_cons k' c)) w) k'))"
      using k'(2) by (intro step_vc) (auto simp: screen_ok_def geometry_def vc_ok_def)
  qed
  with x show ?thesis unfolding put_glyph_def Let_def by (intro step_then[OF st]) blast
qed

lemma step_tab_stop [steps]: "screen_ok c k \<Longrightarrow> step c k (tab_stop fg c k)"
proof -
  assume ok: "screen_ok c k"
  let ?x = "vc_x (vc_cons k c)" let ?n = "8 - ?x mod 8"
  note v = vc_okD[OF screen_okD(4)[OF ok]] and g = screen_okD[OF ok]
  show ?thesis
  proof (cases "video_num_columns k < ?x + ?n")
    case True
    have "step c k (upd_vc c (\<lambda>v. v\<lparr>vc_x := vc_x v + ?n - video_num_columns k,
        vc_pos := vc_pos v + 2 * ?n - video_size_row k\<rparr>) k)"
      using ok True v(1) g(1) by (intro step_vc) (auto simp: screen_ok_def geometry_def vc_ok_def)
    with True show ?thesis
      by (simp add: tab_stop_def Let_def wrap_line_def o_def) (erule step_then, erule step_lf)
  next
    case False
    with ok show ?thesis
      by (auto simp: tab_stop_def Let_def screen_ok_def geometry_def vc_ok_def intro!: step_vc)
  qed
qed

lemma step_save_cur [steps]: "screen_ok c k \<Longrightarrow> step c k (save_cur c k)"
  unfolding save_cur_def by (rule step_vc) (auto simp: screen_ok_def vc_ok_def)

lemma step_restore_cur [steps]: "screen_ok c k \<Longrightarrow> step c k (restore_cur c k)"
  unfolding restore_cur_def by (rule step_gotoxy)

subsection \<open>Erasing, inserting and deleting\<close>

lemma step_stosw:
  assumes "screen_ok c k" "vc_origin (vc_cons k c) \<le> a" "a + 2 * n \<le> vc_scr_end (vc_cons k c)"
  shows "step c k (upd_vmem (stosw n a w) k)"
  by (intro step_vmem[OF assms(1)] stosw_frame) (use assms in linarith)

lemma step_csi_J [steps]: "screen_ok c k \<Longrightarrow> step c k (csi_J c p k)"
  using cursor_line[of c k] vc_okD(4)[OF screen_okD(4), of c k]
  unfolding csi_J_def Let_def by (auto intro!: step_stosw step_refl)

lemma step_csi_K [steps]: "screen_ok c k \<Longrightarrow> step c k (csi_K c p k)"
  using cursor_line[of c k] unfolding csi_K_def Let_def by (auto intro!: step_stosw step_refl)

lemma step_insert_char [steps]: "screen_ok c k \<Longrightarrow> step c k (insert_char c k)"
  unfolding insert_char_def Let_def
  by (intro step_vmem shift_right_frame) (use cursor_line[of c k] vc_okD(1)[OF screen_okD(4), of c k] in auto)

lemma step_delete_char [steps]: "screen_ok c k \<Longrightarrow> step c k (delete_char c k)"
proof -
  assume ok: "screen_ok c k"
  let ?v = "vc_cons k c" let ?n = "video_num_columns k - vc_x ?v - 1"
  have "put_word (vc_pos ?v + 2 * ?n) w (shift_left ?n (vc_pos ?v) m) a = m a"
    if x: "vc_x ?v < video_num_columns k" and a: "a < vc_origin ?v \<or> vc_scr_end ?v \<le> a" for w m a
  proof -
    have e: "vc_pos ?v + 2 * ?n + 2 \<le> vc_scr_end ?v" "vc_origin ?v \<le> vc_pos ?v" using cursor_line[OF ok] x by auto
    have "shift_left ?n (vc_pos ?v) m a = m a" by (rule shift_left_frame) (use a e in linarith)
    moreover have "put_word (vc_pos ?v + 2 * ?n) w m' a = m' a" for m' by (rule put_word_frame) (use a e in linarith)
    ultimately show ?thesis by simp
  qed
  then show ?thesis unfolding delete_char_def Let_def by (auto intro!: step_vmem step_refl ok)
qed

lemma step_with_region:
  assumes ok: "screen_ok c k" and "t < b" "b \<le> video_num_lines k"
    and f: "\<And>k'. screen_ok c k' \<Longrightarrow> step c k' (f k')"
  shows "step c k (with_region c t b f k)"
proof -
  let ?k1 = "upd_vc c (\<lambda>w. w\<lparr>vc_top := t, vc_bottom := b\<rparr>) k"
  have s1: "step c k ?k1" using assms by (intro step_vc) (auto simp: screen_ok_def vc_ok_def)
  have s2: "step c ?k1 (f ?k1)" by (rule f) (rule step_ok[OF s1])
  have l: "video_num_lines (f ?k1) = video_num_lines k" using s2 by (simp add: step_def draws_def)
  show ?thesis unfolding with_region_def Let_def
    by (rule step_trans[OF step_trans[OF s1 s2]], rule step_vc[OF step_ok[OF s2]])
       (use step_ok[OF s2] ok l in \<open>auto simp: screen_ok_def vc_ok_def\<close>)
qed

lemma step_insert_line [steps]: "screen_ok c k \<Longrightarrow> step c k (insert_line c k)"
  unfolding insert_line_def
  by (rule step_with_region) (auto intro: steps dest: screen_okD vc_okD(2)[OF screen_okD(4)])

lemma step_delete_line [steps]: "screen_ok c k \<Longrightarrow> step c k (delete_line fg c k)"
  unfolding delete_line_def
  by (rule step_with_region) (auto intro: steps dest: screen_okD vc_okD(2)[OF screen_okD(4)])

lemma step_funpow:
  assumes "\<And>k. screen_ok c k \<Longrightarrow> step c k (f k)" "screen_ok c k"
  shows "step c k ((f ^^ n) k)"
proof (induction n)
  case (Suc n)
  then show ?case using step_then[OF Suc] assms(1) by simp
qed (simp add: step_refl assms)

lemma step_repeats [steps]:
  "screen_ok c k \<Longrightarrow> step c k (csi_at c p k)" "screen_ok c k \<Longrightarrow> step c k (csi_L c p k)"
  "screen_ok c k \<Longrightarrow> step c k (csi_P c p k)" "screen_ok c k \<Longrightarrow> step c k (csi_M fg c p k)"
  unfolding csi_at_def csi_L_def csi_P_def csi_M_def by (intro step_funpow steps; assumption)+

lemma csi_m_par_simps:
  "vc_ok cols lines (csi_m_par b p v) = vc_ok cols lines v"
  "vc_video_mem_start (csi_m_par b p v) = vc_video_mem_start v" "vc_video_mem_end (csi_m_par b p v) = vc_video_mem_end v"
  by (simp_all add: csi_m_par_def set_attr_def vc_ok_def Let_def)

lemma fold_csi_m:
  "vc_ok cols lines (fold (\<lambda>i. csi_m_par b (f i)) is v) = vc_ok cols lines v"
  "vc_video_mem_start (fold (\<lambda>i. csi_m_par b (f i)) is v) = vc_video_mem_start v"
  "vc_video_mem_end (fold (\<lambda>i. csi_m_par b (f i)) is v) = vc_video_mem_end v"
  by (induction "is" arbitrary: v) (simp_all add: csi_m_par_simps)

lemma step_csi_m [steps]: "screen_ok c k \<Longrightarrow> step c k (csi_m c k)"
  unfolding csi_m_def by (rule step_vc) (simp_all add: fold_csi_m screen_okD del: upt_Suc)

subsection \<open>Escape sequences\<close>

lemma step_set_par: "screen_ok c k \<Longrightarrow> step c k (set_par c n p k)"
  unfolding set_par_def by (rule step_vc) (auto simp: screen_ok_def vc_ok_def)

lemma step_pars [steps]:
  "screen_ok c k \<Longrightarrow> step c k (dec_par c n k)" "screen_ok c k \<Longrightarrow> step c k (inc_par c n k)"
  by (simp_all add: dec_par_def inc_par_def Let_def step_set_par step_refl)

lemma step_motion: "screen_ok c k \<Longrightarrow> step c k (motion c f k)"
  by (simp add: motion_def Let_def step_gotoxy split: prod.splits)

lemma step_motion_par:
  "screen_ok c k \<Longrightarrow> step c k (motion c f (dec_par c n k))" "screen_ok c k \<Longrightarrow> step c k (motion c f (inc_par c n k))"
  "screen_ok c k \<Longrightarrow> step c k (motion c f (dec_par c n (dec_par c m k)))"
  by (blast intro: step_then step_pars step_motion)+

lemma step_set_region [steps]: "screen_ok c k \<Longrightarrow> step c k (set_region c k)"
proof -
  assume ok: "screen_ok c k"
  let ?k1 = "dec_par c 0 k"
  let ?k2 = "if vc_par (vc_cons ?k1 c) 1 = 0 then set_par c 1 (of_nat (video_num_lines ?k1)) ?k1 else ?k1"
  have s1: "step c k ?k1" by (rule step_pars[OF ok])
  have s2: "step c k ?k2" using step_trans[OF s1 step_set_par[OF step_ok[OF s1]]] s1 by simp
  have "step c k2 (upd_vc c (\<lambda>v. v\<lparr>vc_top := unat (p 0), vc_bottom := unat (p 1)\<rparr>) k2)"
    if "screen_ok c k2" "p 0 < p 1" "unat (p 1) \<le> video_num_lines k2" for k2 and p :: "nat \<Rightarrow> u32"
    using that by (intro step_vc) (auto simp: screen_ok_def vc_ok_def word_less_nat_alt)
  then show ?thesis unfolding set_region_def Let_def
    using step_ok[OF s2] by (intro step_then[OF s2]) (simp add: step_refl)
qed

lemma step_csi_dispatch [steps]: "screen_ok c k \<Longrightarrow> step c k (csi_dispatch fg c ch k)"
  unfolding csi_dispatch_def Let_def by (simp add: step_motion_par steps)

subsection \<open>Scrolling on lists of lines\<close>

text \<open>The screen as the list of its lines, each a list of bytes (characters and attributes).\<close>

definition screen_line :: "nat \<Rightarrow> console \<Rightarrow> nat \<Rightarrow> u8 list" where
  "screen_line c k r = map (\<lambda>j. vmem k (vc_origin (vc_cons k c) + r * video_size_row k + j)) [0..<video_size_row k]"

definition screen_lines :: "nat \<Rightarrow> console \<Rightarrow> u8 list list" where
  "screen_lines c k = map (screen_line c k) [0..<video_num_lines k]"

definition blank_line :: "nat \<Rightarrow> u16 \<Rightarrow> u8 list" where
  "blank_line row w = map (\<lambda>j. if even j then ucast w else ucast (drop_bit 8 w)) [0..<row]"

definition scroll_up :: "nat \<Rightarrow> nat \<Rightarrow> 'a \<Rightarrow> 'a list \<Rightarrow> 'a list" where
  "scroll_up t b blank ls = take t ls @ drop (t + 1) (take b ls) @ [blank] @ drop b ls"

definition scroll_down :: "nat \<Rightarrow> nat \<Rightarrow> 'a \<Rightarrow> 'a list \<Rightarrow> 'a list" where
  "scroll_down t b blank ls = take t ls @ [blank] @ drop t (take (b - 1) ls) @ drop b ls"

lemma stosw_block:
  "stosw n a w m b = (if a \<le> b \<and> b < a + 2 * n then (if even (b - a) then ucast w else ucast (drop_bit 8 w)) else m b)"
proof (induction n arbitrary: a m)
  case (Suc n)
  consider "b < a" | "b = a" | "b = a + 1" | "a + 2 \<le> b" by linarith
  then show ?case unfolding stosw.simps Suc by cases (auto simp: put_word_def)
qed auto

lemma stosw_down_block:
  assumes "2 * n \<le> a + 2"
  shows "stosw_down n a w m b =
    (if a + 2 \<le> b + 2 * n \<and> b < a + 2 then (if even (a + b) then ucast w else ucast (drop_bit 8 w)) else m b)"
  using assms
proof (induction n arbitrary: a m)
  case (Suc n)
  have IH: "stosw_down n (a - 2) w (put_word a w m) b =
      (if a \<le> b + 2 * n \<and> b < a then (if even (a + b) then ucast w else ucast (drop_bit 8 w)) else put_word a w m b)"
  proof (cases "n = 0")
    case False
    then obtain e where a: "a = 2 + e" using Suc.prems le_Suc_ex[of 2 a] by auto
    have "2 * n \<le> e + 2" using Suc.prems a by simp
    from Suc.IH[OF this] show ?thesis by (simp add: a)
  qed auto
  consider "b < a" | "b = a" | "b = a + 1" | "a + 2 \<le> b" by linarith
  then show ?case unfolding stosw_down.simps IH by cases (auto simp: put_word_def)
qed auto

lemma movsl_block:
  "d \<le> s \<Longrightarrow> movsl n s d m b = (if d \<le> b \<and> b < d + 4 * n then m (b + (s - d)) else m b)"
proof (induction n arbitrary: s d m)
  case (Suc n)
  have IH: "movsl n (s + 4) (d + 4) (move_long s d m) b =
      (if d + 4 \<le> b \<and> b < d + 4 + 4 * n then move_long s d m (b + (s - d)) else move_long s d m b)"
    using Suc.IH[of "d + 4" "s + 4"] Suc.prems by simp
  have far: "move_long s d m x = m x" if "d + 4 \<le> x" for x using that by (simp add: move_long_def)
  consider "b < d" | "b = d" | "b = d + 1" | "b = d + 2" | "b = d + 3" | "d + 4 \<le> b" by linarith
  then show ?case unfolding movsl.simps IH
    using Suc.prems by cases (simp_all add: far, simp_all add: move_long_def add.commute)
qed auto

lemma movsl_down_block:
  assumes "s \<le> d" "4 * n \<le> s + 4"
  shows "movsl_down n s d m b = (if d + 4 \<le> b + 4 * n \<and> b < d + 4 then m (b - (d - s)) else m b)"
  using assms
proof (induction n arbitrary: s d m)
  case (Suc n)
  have IH: "movsl_down n (s - 4) (d - 4) (move_long s d m) b =
      (if d \<le> b + 4 * n \<and> b < d then move_long s d m (b - (d - s)) else move_long s d m b)"
  proof (cases "n = 0")
    case False
    then obtain e where s: "s = 4 + e" using Suc.prems le_Suc_ex[of 4 s] by auto
    obtain g where d: "d = 4 + g" using s Suc.prems le_Suc_ex[of 4 d] by auto
    have "e \<le> g" "4 * n \<le> e + 4" using Suc.prems s d by simp_all
    from Suc.IH[OF this] show ?thesis by (simp add: s d)
  qed auto
  have near: "move_long s d m x = m x" if "x < d" for x using that by (simp add: move_long_def)
  consider "b < d" | "b = d" | "b = d + 1" | "b = d + 2" | "b = d + 3" | "d + 4 \<le> b" by linarith
  then show ?case unfolding movsl_down.simps IH
    using Suc.prems by cases (simp_all add: near, simp_all add: move_long_def add.commute)
qed auto

lemma scroll_nth:
  assumes "t < b" "b \<le> length ls" "r < length ls"
  shows "scroll_up t b x ls ! r = (if t \<le> r \<and> r + 1 < b then ls ! (r + 1) else if r + 1 = b then x else ls ! r)"
    "scroll_down t b x ls ! r = (if t < r \<and> r < b then ls ! (r - 1) else if r = t then x else ls ! r)"
  using assms by (auto simp: scroll_up_def scroll_down_def nth_append nth_Cons' min_def)

lemma length_scroll:
  "t < b \<Longrightarrow> b \<le> length ls \<Longrightarrow> length (scroll_up t b x ls) = length ls"
  "t < b \<Longrightarrow> b \<le> length ls \<Longrightarrow> length (scroll_down t b x ls) = length ls"
  by (auto simp: scroll_up_def scroll_down_def min_def)

lemma row_cmp:
  fixes r :: nat
  assumes "j < w"
  shows "a * w \<le> r * w + j \<longleftrightarrow> a \<le> r" "r * w + j < a * w \<longleftrightarrow> r < a"
proof -
  have "r * w + j < a * w" if "r < a"
    using row_end[OF that, of w] assms by linarith
  moreover have "a * w \<le> r * w + j" if "a \<le> r"
    using mult_le_mono1[OF that, of w] by linarith
  ultimately show "a * w \<le> r * w + j \<longleftrightarrow> a \<le> r" "r * w + j < a * w \<longleftrightarrow> r < a" by (meson not_le)+
qed

lemma screen_line_nth: "j < video_size_row k \<Longrightarrow>
    screen_line c k r ! j = vmem k (vc_origin (vc_cons k c) + r * video_size_row k + j)"
  by (simp add: screen_line_def)

lemma screen_lines_eqI:
  assumes "length ls = video_num_lines k" "\<And>r. r < video_num_lines k \<Longrightarrow> length (ls ! r) = video_size_row k"
    and "\<And>r j. r < video_num_lines k \<Longrightarrow> j < video_size_row k \<Longrightarrow>
      vmem k (vc_origin (vc_cons k c) + r * video_size_row k + j) = ls ! r ! j"
  shows "screen_lines c k = ls"
  using assms by (auto simp: screen_lines_def screen_line_def intro!: nth_equalityI)

lemma length_lines [simp]: "length (screen_lines c k) = video_num_lines k" "length (screen_line c k r) = video_size_row k"
  "length (blank_line n w) = n"
  by (simp_all add: screen_lines_def screen_line_def blank_line_def)

lemma screen_lines_nth [simp]: "r < video_num_lines k \<Longrightarrow> screen_lines c k ! r = screen_line c k r"
  by (simp add: screen_lines_def)

lemma blank_line_nth: "j < row \<Longrightarrow> blank_line row w ! j = (if even j then ucast w else ucast (drop_bit 8 w))"
  by (simp add: blank_line_def)

text \<open>Copying lines, and blanking the one that is left, upwards and downwards.\<close>

lemma copy_up:
  fixes w :: nat
  assumes "t < b" "d + 4 * n = p + (b - 1) * w" "w = 2 * cols" "d = p + t * w" "j < w" "s = q + (t + 1) * w" "p \<le> q"
  shows "stosw cols (d + 4 * n) e (movsl n s d m) (p + r * w + j) =
    (if t \<le> r \<and> r + 1 < b then m (q + (r + 1) * w + j)
     else if r + 1 = b then (if even j then ucast e else ucast (drop_bit 8 e)) else m (p + r * w + j))"
proof -
  note cmp = row_cmp[OF assms(5)]
  have b: "(b - 1) * w + w = b * w" using assms(1) by (cases b) auto
  have c1: "d + 4 * n \<le> p + r * w + j \<longleftrightarrow> b - 1 \<le> r" using cmp(1)[of "b - 1" r] assms(2) by simp
  have c2: "p + r * w + j < d + 4 * n + 2 * cols \<longleftrightarrow> r < b" using cmp(2)[of r b] b assms(2,3) by simp
  have c3: "d \<le> p + r * w + j \<longleftrightarrow> t \<le> r" using cmp(1)[of t r] assms(4) by simp
  have c4: "p + r * w + j < d + 4 * n \<longleftrightarrow> r < b - 1" using cmp(2)[of r "b - 1"] assms(2) by simp
  have ds: "d \<le> s" using assms(4,6,7) by simp
  have src: "p + r * w + j + (s - d) = q + (r + 1) * w + j" using assms(4,6,7) by simp
  have j: "p + r * w + j - (d + 4 * n) = j" if "r + 1 = b"
  proof -
    have "r = b - 1" using that by simp
    then show ?thesis using assms(2) by simp
  qed
  consider "r + 1 < b" | "r + 1 = b" | "b \<le> r" by linarith
  then show ?thesis
  proof cases
    case 1
    then have "\<not> b - 1 \<le> r" "r < b - 1" by linarith+
    with 1 show ?thesis unfolding stosw_block movsl_block[OF ds] c1 c2 c3 c4 src by simp
  next
    case 2
    then show ?thesis unfolding stosw_block c1 c2 j[OF 2] by auto
  next
    case 3
    then have "\<not> r < b - 1" "\<not> r < b" by linarith+
    with 3 show ?thesis unfolding stosw_block movsl_block[OF ds] c1 c2 c3 c4 src by simp
  qed
qed

lemma copy_down:
  fixes w :: nat
  assumes "t < b" "d + 4 = p + b * w" "4 * n = (b - t - 1) * w" "w = 2 * cols" "j < w" "2 \<le> cols"
    "0 < n \<Longrightarrow> s + 4 = p + (b - 1) * w"
  shows "stosw_down cols (d - 4 * n + 2) e (movsl_down n s d m) (p + r * w + j) =
    (if t < r \<and> r < b then m (p + (r - 1) * w + j)
     else if r = t then (if even j then ucast e else ucast (drop_bit 8 e)) else m (p + r * w + j))"
proof -
  note cmp = row_cmp[OF assms(5)]
  have bw: "b * w = (b - 1) * w + w" using assms(1) by (cases b) auto
  have kw: "b * w = 4 * n + (t + 1) * w"
  proof -
    have "b = (b - t - 1) + (t + 1)" using assms(1) by simp
    then show ?thesis using assms(3) by (metis add_mult_distrib)
  qed
  define a where "a = d - 4 * n + 2"
  have a: "a + 2 = p + (t + 1) * w"
    using assms(2,4,6) kw unfolding a_def by (cases "4 * n \<le> d") auto
  have par: "even (a + (p + r * w + j)) \<longleftrightarrow> even j"
  proof -
    have "even (a + 2 + (p + r * w + j)) \<longleftrightarrow> even j" unfolding a using assms(4) by auto
    then show ?thesis by simp
  qed
  have c1: "a + 2 \<le> p + r * w + j + 2 * cols \<longleftrightarrow> t \<le> r" using cmp(1)[of t r] assms(4) unfolding a by simp
  have c2: "p + r * w + j < a + 2 \<longleftrightarrow> r < t + 1" using cmp(2)[of r "t + 1"] unfolding a by simp
  have c3: "d + 4 \<le> p + r * w + j + 4 * n \<longleftrightarrow> t + 1 \<le> r" using cmp(1)[of "t + 1" r] kw assms(2) by simp
  have c4: "p + r * w + j < d + 4 \<longleftrightarrow> r < b" using cmp(2)[of r b] assms(2) by simp
  have len: "2 * cols \<le> a + 2" using a assms(4) by simp
  have copy: "movsl_down n s d m (p + r * w + j) = (if t < r \<and> r < b then m (p + (r - 1) * w + j) else m (p + r * w + j))"
  proof (cases "n = 0")
    case True
    then have "b = t + 1" using assms(1,3,5) by simp
    with True show ?thesis by auto
  next
    case False
    then have s: "s + 4 = p + (b - 1) * w" using assms(7) by simp
    have sd: "s \<le> d" "4 * n \<le> s + 4" "d - s = w" using s bw kw assms(2) by simp_all
    have "p + r * w + j - w = p + (r - 1) * w + j" if "t < r" using that by (cases r) auto
    then show ?thesis unfolding movsl_down_block[OF sd(1,2)] c3 c4 sd(3) by auto
  qed
  show ?thesis
    unfolding a_def[symmetric] stosw_down_block[OF len] c1 c2 copy par by auto
qed

lemma scroll_region_up_lines:
  assumes ok: "screen_ok c k" and ev: "even (video_num_columns k)"
  shows "screen_lines c (scroll_region_up c k) =
    scroll_up (vc_top (vc_cons k c)) (vc_bottom (vc_cons k c))
      (blank_line (video_size_row k) (vc_video_erase_char (vc_cons k c))) (screen_lines c k)"
proof -
  let ?v = "vc_cons k c" let ?cols = "video_num_columns k" let ?row = "2 * ?cols"
  let ?t = "vc_top ?v" let ?b = "vc_bottom ?v" let ?n = "(?b - ?t - 1) * ?cols div 2" let ?w = "vc_video_erase_char ?v"
  note v = vc_okD[OF screen_okD(4)[OF ok]] and g = screen_okD[OF ok]
  have n: "vc_origin ?v + ?row * ?t + 4 * ?n = vc_origin ?v + (?b - 1) * ?row"
  proof -
    have "?b - 1 = ?t + (?b - ?t - 1)" using v(7) by simp
    then show ?thesis using region_longs(2)[OF v(7) ev] by (metis add.assoc add_mult_distrib mult.commute)
  qed
  show ?thesis
  proof (rule screen_lines_eqI)
    fix r j assume "r < video_num_lines (scroll_region_up c k)" "j < video_size_row (scroll_region_up c k)"
    then have r: "r < video_num_lines k" and j: "j < ?row" by (simp_all add: scroll_region_up_def Let_def g(3))
    have "stosw ?cols (vc_origin ?v + ?row * ?t + 4 * ?n) ?w (movsl ?n (vc_origin ?v + ?row * (?t + 1)) (vc_origin ?v + ?row * ?t) (vmem k)) (vc_origin ?v + r * ?row + j) =
      (if ?t \<le> r \<and> r + 1 < ?b then vmem k (vc_origin ?v + (r + 1) * ?row + j)
       else if r + 1 = ?b then (if even j then ucast ?w else ucast (drop_bit 8 ?w)) else vmem k (vc_origin ?v + r * ?row + j))"
      by (rule copy_up[OF v(7) n _ _ j]) (simp_all add: mult.commute)
    then show "vmem (scroll_region_up c k) (vc_origin (vc_cons (scroll_region_up c k) c) + r * video_size_row (scroll_region_up c k) + j) =
      scroll_up ?t ?b (blank_line (video_size_row k) ?w) (screen_lines c k) ! r ! j"
      using r j v(7,8) by (simp add: scroll_region_up_def Let_def g(3) scroll_nth blank_line_nth screen_line_nth)
  qed (use v(7,8) g(3) in \<open>auto simp: scroll_nth length_scroll scroll_region_up_def Let_def\<close>)
qed

lemma window_down_lines:
  assumes ok: "screen_ok c k" and ev: "even (video_num_columns k)"
  shows "screen_lines c (window_down c k) =
    scroll_up 0 (video_num_lines k) (blank_line (video_size_row k) (vc_video_erase_char (vc_cons k c))) (screen_lines c k)"
proof -
  let ?v = "vc_cons k c" let ?cols = "video_num_columns k" let ?row = "2 * ?cols" let ?b = "video_num_lines k"
  let ?n = "(?b - 1) * ?cols div 2" let ?w = "vc_video_erase_char ?v" let ?start = "vc_video_mem_start ?v"
  note v = vc_okD[OF screen_okD(4)[OF ok]] and g = screen_okD[OF ok]
  have b: "(?b - 1) * ?row + ?row = ?b * ?row" using g(2) by (cases ?b) auto
  show ?thesis
  proof (rule screen_lines_eqI)
    fix r j assume "r < video_num_lines (window_down c k)" "j < video_size_row (window_down c k)"
    then have r: "r < ?b" and j: "j < ?row" by (simp_all add: window_down_def Let_def g(3) split: if_splits)
    let ?val = "if r + 1 < ?b then vmem k (vc_origin ?v + (r + 1) * ?row + j) else if even j then ucast ?w else ucast (drop_bit 8 ?w)"
    have "vmem (window_down c k) (vc_origin (vc_cons (window_down c k) c) + r * ?row + j) = ?val"
    proof (cases "vc_video_mem_end ?v < vc_scr_end ?v + ?row")
      case True
      have n: "?start + 4 * ?n = ?start + (?b - 1) * ?row"
        using region_longs(2)[OF g(2) ev] by (simp add: mult.commute)
      have "stosw ?cols (?start + 4 * ?n) ?w (movsl ?n (vc_origin ?v + ?row) ?start (vmem k)) (?start + r * ?row + j) = ?val"
        using copy_up[OF g(2) n refl _ j, of "vc_origin ?v + ?row" "vc_origin ?v" ?w "vmem k" r] r v(5) by simp
      with True show ?thesis by (simp add: window_down_def Let_def g(3))
    next
      case False
      have e: "vc_scr_end ?v = vc_origin ?v + (?b - 1) * ?row + ?row" using v(4) b by simp
      have c1: "vc_scr_end ?v \<le> vc_origin ?v + ?row + r * ?row + j \<longleftrightarrow> ?b - 1 \<le> r"
        using row_cmp(1)[OF j, of "?b - 1" r] unfolding e by simp
      have c2: "vc_origin ?v + ?row + r * ?row + j < vc_scr_end ?v + 2 * ?cols"
        using row_cmp(2)[OF j, of r ?b] r v(4) by simp
      have "vc_origin ?v + ?row + r * ?row + j - vc_scr_end ?v = j" if "?b - 1 \<le> r"
      proof -
        have "r = ?b - 1" using that r by simp
        then show ?thesis unfolding e by simp
      qed
      with c1 c2 r have "stosw ?cols (vc_scr_end ?v) ?w (vmem k) (vc_origin ?v + ?row + r * ?row + j) = ?val"
        unfolding stosw_block by (auto simp: add.assoc)
      with False show ?thesis by (simp add: window_down_def Let_def g(3))
    qed
    then show "vmem (window_down c k) (vc_origin (vc_cons (window_down c k) c) + r * video_size_row (window_down c k) + j) =
      scroll_up 0 ?b (blank_line (video_size_row k) ?w) (screen_lines c k) ! r ! j"
      using r j g(2) by (auto simp: g(3) scroll_nth blank_line_nth screen_line_nth window_down_def Let_def split: if_splits)
  qed (use g in \<open>auto simp: scroll_nth length_scroll window_down_def Let_def split: if_splits\<close>)
qed

lemma scrdown_lines:
  assumes ok: "screen_ok c k" and ev: "even (video_num_columns k)"
  shows "screen_lines c (scrdown c k) =
    scroll_down (vc_top (vc_cons k c)) (vc_bottom (vc_cons k c))
      (blank_line (video_size_row k) (vc_video_erase_char (vc_cons k c))) (screen_lines c k)"
proof -
  let ?v = "vc_cons k c" let ?cols = "video_num_columns k" let ?row = "2 * ?cols"
  let ?t = "vc_top ?v" let ?b = "vc_bottom ?v" let ?n = "(?b - ?t - 1) * ?cols div 2" let ?w = "vc_video_erase_char ?v"
  note v = vc_okD[OF screen_okD(4)[OF ok]] and g = screen_okD[OF ok]
  have "16 * 1 \<le> ?row * ?b" using g(1) v(7) by (intro mult_le_mono) auto
  then have d: "vc_origin ?v + ?row * ?b - 4 + 4 = vc_origin ?v + ?b * ?row" unfolding mult.commute[of ?row] by linarith
  have s: "vc_origin ?v + ?row * (?b - 1) - 4 + 4 = vc_origin ?v + (?b - 1) * ?row" if "0 < ?n"
  proof -
    have "?b - 1 \<noteq> 0" using that by (cases "?b - 1") auto
    then have "16 * 1 \<le> ?row * (?b - 1)" using g(1) by (intro mult_le_mono) auto
    then show ?thesis unfolding mult.commute[of ?row] by linarith
  qed
  show ?thesis
  proof (rule screen_lines_eqI)
    fix r j assume "r < video_num_lines (scrdown c k)" "j < video_size_row (scrdown c k)"
    then have r: "r < video_num_lines k" and j: "j < ?row" using v(7) by (simp_all add: scrdown_def Let_def g(3))
    have "stosw_down ?cols (vc_origin ?v + ?row * ?b - 4 - 4 * ?n + 2) ?w
        (movsl_down ?n (vc_origin ?v + ?row * (?b - 1) - 4) (vc_origin ?v + ?row * ?b - 4) (vmem k)) (vc_origin ?v + r * ?row + j) =
      (if ?t < r \<and> r < ?b then vmem k (vc_origin ?v + (r - 1) * ?row + j)
       else if r = ?t then (if even j then ucast ?w else ucast (drop_bit 8 ?w)) else vmem k (vc_origin ?v + r * ?row + j))"
      by (rule copy_down[OF v(7) d region_longs(2)[OF v(7) ev] refl j _ s]) (use g(1) in simp_all)
    then show "vmem (scrdown c k) (vc_origin (vc_cons (scrdown c k) c) + r * video_size_row (scrdown c k) + j) =
      scroll_down ?t ?b (blank_line (video_size_row k) ?w) (screen_lines c k) ! r ! j"
      using r j v(7,8) by (simp add: scrdown_def Let_def g(3) scroll_nth blank_line_nth screen_line_nth)
  qed (use v(7,8) g(3) in \<open>auto simp: scroll_nth length_scroll scrdown_def Let_def\<close>)
qed

text \<open>C16. Scrolling refines scrolling on the list of lines: \<^verbatim>\<open>scrup\<close> takes the first line of the region
  away and puts a blank one at its end, \<^verbatim>\<open>scrdown\<close> the other way round; it makes no difference whether
  the lines are copied or the display's window is moved over the video memory (and back to its start when it reaches
  the end). The screen has an even number of columns, as all text modes have: the code copies
  \<^verbatim>\<open>(bottom-top-1)*video_num_columns>>1\<close> long words, which with an odd number of words would lose the last one.\<close>

theorem scrolling_refines_lines:
  assumes ok: "screen_ok c k" and ev: "even (video_num_columns k)"
  shows "screen_lines c (scrup fg c k) =
      scroll_up (vc_top (vc_cons k c)) (vc_bottom (vc_cons k c))
        (blank_line (video_size_row k) (vc_video_erase_char (vc_cons k c))) (screen_lines c k) \<and>
    screen_lines c (scrdown c k) =
      scroll_down (vc_top (vc_cons k c)) (vc_bottom (vc_cons k c))
        (blank_line (video_size_row k) (vc_video_erase_char (vc_cons k c))) (screen_lines c k)"
proof
  have "screen_lines c (set_origin fg c k') = screen_lines c k'" for k'
    by (simp add: set_origin_def screen_lines_def screen_line_def)
  then show "screen_lines c (scrup fg c k) = scroll_up (vc_top (vc_cons k c)) (vc_bottom (vc_cons k c))
        (blank_line (video_size_row k) (vc_video_erase_char (vc_cons k c))) (screen_lines c k)"
    using scroll_region_up_lines[OF ok ev] window_down_lines[OF ok ev] by (simp add: scrup_eq[OF ok])
  show "screen_lines c (scrdown c k) = scroll_down (vc_top (vc_cons k c)) (vc_bottom (vc_cons k c))
        (blank_line (video_size_row k) (vc_video_erase_char (vc_cons k c))) (screen_lines c k)"
    by (rule scrdown_lines[OF ok ev])
qed

end
