(* ===== verification/Console_Props.thy ===== *)
theory Console_Props
  imports Console Screen_Props Fs_Samples
begin

section \<open>The console driver draws on its own screen only\<close>

text \<open>
  Every character that \<^verbatim>\<open>con_write\<close> takes, in every state of its state machine, keeps the invariant of
  the screen and leaves all memory but the video memory of its console alone, also when it answers an
  enquiry and the answer is echoed by the line discipline. The set-up gives every console a screen that satisfies the
  invariant, in video memory of its own.
\<close>

definition console_safe :: "nat \<Rightarrow> tsys \<Rightarrow> bool" where
  "console_safe c s \<longleftrightarrow> tt_write (tty c s) = ConWrite \<and> screen_ok c (screen (tt s))"

definition drawn :: "nat \<Rightarrow> tsys \<Rightarrow> tsys \<Rightarrow> bool" where
  "drawn c s t \<longleftrightarrow> console_safe c t \<and> draws c (screen (tt s)) (screen (tt t))"

text \<open>Whether it returns or stops, the routine has drawn on console \<open>c\<close> only.\<close>

definition ends_drawn :: "nat \<Rightarrow> tsys \<Rightarrow> (tsys, 'a) res \<Rightarrow> bool" where
  "ends_drawn c s r \<longleftrightarrow> (case r of Inl (_, t) \<Rightarrow> drawn c s t | Inr (_, t) \<Rightarrow> drawn c s t)"

named_theorems drawn_intros \<open>routines that draw on one console\<close>

lemma drawn_refl: "console_safe c s \<Longrightarrow> drawn c s s"
  by (simp add: drawn_def)

lemma drawn_trans: "drawn c s t \<Longrightarrow> drawn c t u \<Longrightarrow> drawn c s u"
  using draws_trans by (auto simp: drawn_def)

lemma drawn_safe: "drawn c s t \<Longrightarrow> console_safe c t"
  by (simp add: drawn_def)

lemma drawn_self: "drawn c s t \<Longrightarrow> drawn c t t"
  by (simp add: drawn_refl drawn_safe)

lemma ends_ret [simp]: "ends_drawn c s (retK x t) \<longleftrightarrow> drawn c s t"
  by (simp add: ends_drawn_def retK_def)

lemma ends_stop [simp]: "ends_drawn c s (stopK e t) \<longleftrightarrow> drawn c s t"
  by (simp add: ends_drawn_def stopK_def)

lemma ends_bind:
  assumes "ends_drawn c s r" and "\<And>x t. drawn c s t \<Longrightarrow> ends_drawn c t (f x t)"
  shows "ends_drawn c s (bindK r f)"
proof (cases r)
  case (Inl a)
  with assms(1) show ?thesis by (simp add: ends_drawn_def)
next
  case (Inr a)
  obtain x t where a: "a = (x, t)" by (cases a)
  have st: "drawn c s t" using assms(1) by (simp add: ends_drawn_def Inr a)
  from assms(2)[OF st, of x] show ?thesis
    using st by (auto simp: ends_drawn_def Inr a split: sum.splits prod.splits intro: drawn_trans)
qed

lemma ends_if: "ends_drawn c s a \<Longrightarrow> ends_drawn c s b \<Longrightarrow> ends_drawn c s (if p then a else b)"
  by simp

lemma drawn_if: "drawn c s a \<Longrightarrow> drawn c s b \<Longrightarrow> drawn c s (if p then a else b)"
  by simp

lemma ends_from: "drawn c s t \<Longrightarrow> ends_drawn c t r \<Longrightarrow> ends_drawn c s r"
  using drawn_trans by (auto simp: ends_drawn_def split: sum.splits prod.splits)

text \<open>What touches no screen and no \<^verbatim>\<open>tty->write\<close>.\<close>

lemma drawn_frame:
  "drawn c s t \<Longrightarrow> screen (tt u) = screen (tt t) \<Longrightarrow> tt_write (tty c u) = tt_write (tty c t) \<Longrightarrow> drawn c s u"
  by (simp add: drawn_def console_safe_def)

lemma drawn_upd [drawn_intros]:
  "drawn c s t \<Longrightarrow> drawn c s (upd_tk f t)" "drawn c s t \<Longrightarrow> drawn c s (upd_queue i g t)"
  "drawn c s t \<Longrightarrow> drawn c s (put_w ch i t)" "drawn c s t \<Longrightarrow> drawn c s (t_outb v p t)"
  "drawn c s t \<Longrightarrow> drawn c s (upd_tty i (\<lambda>x. x\<lparr>tt_stopped := b\<rparr>) t)"
  "drawn c s t \<Longrightarrow> drawn c s (upd_tty i (\<lambda>x. x\<lparr>termios := tm\<rparr>) t)"
  by (erule drawn_frame; simp add: upd_tk_def upd_queue_def put_w_def t_outb_def upd_tty_def tty_def)+

lemma drawn_screen:
  assumes "drawn c s t" and "\<And>k. screen_ok c k \<Longrightarrow> step c k (f k)"
  shows "drawn c s (on_screen f t)"
  using assms(1) step_ok[OF assms(2)] assms(2)[of "screen (tt t)"]
  by (auto simp: drawn_def console_safe_def on_screen_def tty_def step_def intro: draws_trans)

lemma drawn_vc:
  assumes "drawn c s t"
    and "\<And>v cols lines. vc_ok cols lines v \<Longrightarrow> vc_ok cols lines (f v) \<and>
      vc_video_mem_start (f v) = vc_video_mem_start v \<and> vc_video_mem_end (f v) = vc_video_mem_end v"
  shows "drawn c s (on_vc c f t)"
  unfolding on_vc_def by (intro drawn_screen[OF assms(1)] step_vc) (auto dest: assms(2)[OF screen_okD(4)])

lemma drawn_go [drawn_intros]: "drawn c s t \<Longrightarrow> drawn c s (go c st t)"
  unfolding go_def by (erule drawn_vc) (simp add: vc_ok_def)

lemma drawn_set_cursor [drawn_intros]: "drawn c s t \<Longrightarrow> drawn c s (set_cursor c t)"
  unfolding set_cursor_def by (intro drawn_screen drawn_upd) (auto intro: steps)

lemma drawn_sysbeep [drawn_intros]: "drawn c s t \<Longrightarrow> drawn c s (sysbeep E t)"
  unfolding sysbeep_def by (intro drawn_intros)

subsection \<open>The line discipline\<close>

text \<open>\<open>W\<close> is a routine for \<^verbatim>\<open>tty->write\<close> that draws on console \<open>c\<close>.\<close>

definition draws_with :: "write_fn \<Rightarrow> nat \<Rightarrow> bool" where
  "draws_with W c \<longleftrightarrow> (\<forall>s. console_safe c s \<longrightarrow> ends_drawn c s (W c s))"

lemma draws_withD: "draws_with W c \<Longrightarrow> drawn c s t \<Longrightarrow> ends_drawn c s (W c t)"
  unfolding draws_with_def using ends_from drawn_safe by blast

lemma rub_out_drawn: "draws_with W c \<Longrightarrow> drawn c s t \<Longrightarrow> ends_drawn c s (rub_out W c ch t)"
  unfolding rub_out_def
  by (rule ends_bind) (auto intro!: draws_withD drawn_intros intro: drawn_self)

lemma kill_line_drawn: "draws_with W c \<Longrightarrow> drawn c s t \<Longrightarrow> ends_drawn c s (kill_line n W c t)"
proof (induction n arbitrary: s t)
  case (Suc n)
  have "ends_drawn c s (bindK (rub_out W c ch t) (\<lambda>_. kill_line n W c))" for ch
    by (rule ends_bind[OF rub_out_drawn[OF Suc.prems]]) (rule Suc.IH[OF Suc.prems(1) drawn_self])
  then show ?case using Suc.prems(2) by (simp add: Let_def)
qed simp

lemma echo_drawn: "draws_with W c \<Longrightarrow> drawn c s t \<Longrightarrow> ends_drawn c s (echo W c ch t)"
  unfolding echo_def by (erule draws_withD) (auto intro!: drawn_intros)

lemma kill_fg_drawn: "drawn c s t \<Longrightarrow> ends_drawn c s (kill_fg sig c t)"
  unfolding kill_fg_def ends_ret by (rule drawn_intros)

lemma cook_char_drawn:
  assumes W: "draws_with W c" and d: "drawn c s t"
  shows "ends_drawn c s (cook_char W c ch t)"
  unfolding cook_char_def Let_def
  by (intro ends_if kill_line_drawn[OF W] rub_out_drawn[OF W] draws_withD[OF W] kill_fg_drawn ends_bind
      echo_drawn[OF W] drawn_if drawn_intros d; simp add: d drawn_if drawn_upd drawn_self)

lemma cook_loop_drawn: "draws_with W c \<Longrightarrow> drawn c s t \<Longrightarrow> ends_drawn c s (cook_loop n W c t)"
proof (induction n arbitrary: s t)
  case (Suc n)
  have "ends_drawn c s (bindK (cook_char W c ch (upd_queue i g t)) (\<lambda>_. cook_loop n W c))" for ch i g
    by (rule ends_bind[OF cook_char_drawn[OF Suc.prems(1) drawn_upd(2)[OF Suc.prems(2)]]])
      (rule Suc.IH[OF Suc.prems(1) drawn_self])
  then show ?case using Suc.prems(2)
    using Suc.IH[OF Suc.prems(1) drawn_upd(2)[OF Suc.prems(2)]]
    by (auto simp: Let_def split: prod.splits option.splits)
qed simp

lemma cooked_drawn:
  assumes "draws_with (con_write E) c"
  shows "draws_with (cooked d E) c"
proof (induction d)
  case 0
  then show ?case by (auto simp: draws_with_def intro: drawn_refl)
next
  case (Suc d)
  have W: "draws_with (write_by E (cooked d E)) c"
    using assms by (simp add: draws_with_def write_by_def console_safe_def)
  have "ends_drawn c s (cooked (Suc d) E c s)" if "console_safe c s" for s
  proof -
    have "ends_drawn c s (bindK (cook_loop (steps E) (write_by E (cooked d E)) c s) (\<lambda>_ s. retK () (upd_tk (g s) s)))" for g
      by (rule ends_bind[OF cook_loop_drawn[OF W drawn_refl[OF that]]]) (simp add: drawn_upd(1) drawn_self)
    then show ?thesis using drawn_refl[OF that] by (simp add: cooked_by_def t_say_def drawn_upd(1))
  qed
  then show ?case by (simp add: draws_with_def)
qed

subsection \<open>The state machine\<close>

lemma step_next_line [steps]: "screen_ok c k \<Longrightarrow> step c k (next_line c k)"
  unfolding next_line_def by (rule step_gotoxy)

lemma respond_drawn:
  assumes "draws_with (con_write E) c" "drawn c s t"
  shows "ends_drawn c s (respond E c t)"
proof -
  have "drawn c s (fold (\<lambda>ch s. upd_queue (rq c s) (PUTCH ch) s) cs t)" for cs
    using assms(2) by (induction cs arbitrary: t) (auto intro: drawn_intros)
  then show ?thesis unfolding respond_def copy_to_cooked_def
    by (rule draws_withD[OF cooked_drawn[OF assms(1)]])
qed

lemma normal_char_drawn: "drawn c s t \<Longrightarrow> drawn c s (normal_char E c ch t)"
  unfolding normal_char_def Let_def
  by (auto intro!: drawn_screen drawn_vc drawn_intros steps simp: vc_ok_def)

lemma reset_terminal_drawn: "drawn c s t \<Longrightarrow> drawn c s (reset_terminal c t)"
  unfolding reset_terminal_def
  by (intro drawn_screen drawn_upd step_vc) (auto dest: screen_okD simp: vc_ok_def)

lemma esc_char_drawn:
  assumes W: "draws_with (con_write E) c" and d: "drawn c s t"
  shows "ends_drawn c s (esc_char E c ch t)"
  unfolding esc_char_def Let_def
  by (intro ends_if respond_drawn[OF W] drawn_go[OF d];
      simp only: ends_ret; intro drawn_screen reset_terminal_drawn drawn_go d steps)

lemma guarded_code_drawn: "drawn c s t \<Longrightarrow> drawn c s (guarded_code c ch t)"
  unfolding guarded_code_def Let_def by (auto intro!: drawn_vc drawn_intros simp: vc_ok_def)

lemma gotpars_char_drawn: "drawn c s t \<Longrightarrow> drawn c s (gotpars_char c ch t)"
  unfolding gotpars_char_def Let_def
  by (auto intro!: drawn_vc drawn_screen guarded_code_drawn drawn_intros steps simp: vc_ok_def)

lemma getpars_char_drawn: "drawn c s t \<Longrightarrow> drawn c s (getpars_char c ch t)"
proof -
  assume d: "drawn c s t"
  have "drawn c s (on_vc c (\<lambda>v. v\<lparr>vc_npar := vc_npar v + 1\<rparr>) t)" if "vc_npar (the_vc c t) < NPAR - 1"
    unfolding on_vc_def on_screen_def
    using d that by (auto simp: drawn_def console_safe_def tty_def the_vc_def screen_ok_def geometry_def vc_ok_def
        draws_def region_def)
  then show ?thesis using d unfolding getpars_char_def Let_def
    by (auto intro!: drawn_vc gotpars_char_drawn drawn_intros simp: vc_ok_def)
qed

lemma square_char_drawn: "drawn c s t \<Longrightarrow> drawn c s (square_char c ch t)"
  unfolding square_char_def Let_def
  by (auto intro!: drawn_vc getpars_char_drawn drawn_intros simp: vc_ok_def)

lemma con_char_drawn: "draws_with (con_write E) c \<Longrightarrow> drawn c s t \<Longrightarrow> ends_drawn c s (con_char E c ch t)"
  unfolding con_char_def Let_def
  by (auto split: esc_state.splits intro!: normal_char_drawn esc_char_drawn square_char_drawn getpars_char_drawn
      gotpars_char_drawn drawn_intros)
     (auto simp: setterm_char_def setgraph_char_def Let_def vc_ok_def intro!: drawn_vc drawn_intros)

lemma con_loop_drawn: "draws_with (con_write E) c \<Longrightarrow> drawn c s t \<Longrightarrow> ends_drawn c s (con_loop n E c t)"
proof (induction n arbitrary: s t)
  case (Suc n)
  have "ends_drawn c u (con_loop n E c u)" if "drawn c s u" for s u
    using Suc.IH[OF Suc.prems(1) drawn_refl[OF drawn_safe[OF that]]] .
  then show ?case using Suc.prems
    by (auto simp: Let_def split: prod.splits intro!: ends_bind con_char_drawn drawn_intros)
qed auto

text \<open>C13. With the console driver in place of the terminals' parameter, writing to a console's terminal keeps the
  cursor on its screen and the screen inside its video memory; no other console and no other byte of video memory
  changes. This holds at any depth of echoing its answers, when what is below that depth does it.\<close>

theorem con_write_stays_on_screen:
  assumes "draws_with (con_write E) c"
  shows "draws_with (con_write (with_console n B E)) c"
proof (induction n)
  case 0
  then show ?case using assms by simp
next
  case (Suc n)
  let ?E = "with_console n B E"
  have "ends_drawn c s (console_write ?E c s)" if "console_safe c s" for s
    unfolding console_write_def using drawn_refl[OF that]
    by (auto intro!: ends_bind con_loop_drawn Suc drawn_intros intro: drawn_self)
  then show ?case by (simp add: draws_with_def)
qed

text \<open>An EGA display of 80 columns and 25 lines, with the cursor at the start of the last line.\<close>

definition ega :: boot_video where
  "ega = \<lparr>ORIG_X = 0, ORIG_Y = 24, ORIG_VIDEO_PAGE = 0, ORIG_VIDEO_MODE = 3, ORIG_VIDEO_COLS = 80, ORIG_VIDEO_LINES = 25,
     ORIG_VIDEO_EGA_BX = 3\<rparr>"

theorem con_write_stays_on_screen_witness:
  "ends_drawn 0 \<lparr>tk = kernel0, tt = terminals0\<rparr> (con_write (with_console 2 ega tenv0) 0 \<lparr>tk = kernel0, tt = terminals0\<rparr>) \<and>
   screen_ok 0 console0"
proof -
  have ok: "screen_ok 0 console0"
    by (simp add: screen_ok_def geometry_def vc_ok_def console0_def vc0_def)
  have "draws_with (con_write tenv0) 0"
    by (auto simp: draws_with_def tenv0_def intro: drawn_refl)
  from con_write_stays_on_screen[OF this, of 2 ega] ok show ?thesis
    by (simp add: draws_with_def console_safe_def tty_def terminals0_def tty0_def)
qed

subsection \<open>Set-up\<close>

text \<open>What the boot loader must have found: a display with lines of at least eight columns that fit into its memory,
  and a cursor on it.\<close>

definition video_memory :: "boot_video \<Rightarrow> nat" where
  "video_memory B = (if ORIG_VIDEO_EGA_BX B AND 0xff \<noteq> 0x10 then 0x8000 else 0x2000)"

definition boot_ok :: "boot_video \<Rightarrow> bool" where
  "boot_ok B \<longleftrightarrow> 8 \<le> ORIG_VIDEO_COLS B \<and> 0 < ORIG_VIDEO_LINES B \<and>
     ORIG_VIDEO_LINES B * (ORIG_VIDEO_COLS B * 2) \<le> video_memory B \<and>
     unat (ORIG_X B) \<le> ORIG_VIDEO_COLS B \<and> unat (ORIG_Y B) < ORIG_VIDEO_LINES B"

lemma display_kind_facts:
  assumes "display_kind B k = (k', d)"
  shows "video_mem_term k' - video_mem_base k' = video_memory B" "vc_cons k' = vc_cons k"
    "video_num_columns k' = video_num_columns k" "video_num_lines k' = video_num_lines k"
    "video_size_row k' = video_size_row k" "video_mem_base k' \<le> video_mem_term k'"
  using assms by (auto simp: display_kind_def Let_def video_memory_def split: if_splits)

lemma count_consoles_facts:
  assumes "count_consoles k = (n, size1)" and "video_mem_term k - video_mem_base k = m"
    and "0 < video_num_lines k * video_size_row k" "video_num_lines k * video_size_row k \<le> m"
  shows "1 \<le> n" "n \<le> MAX_CONSOLES" "video_num_lines k * video_size_row k \<le> size1" "n * size1 \<le> m"
proof -
  let ?p = "video_num_lines k * video_size_row k"
  have n: "n = min MAX_CONSOLES (m div ?p)" "size1 = m div n" and d: "1 \<le> m div ?p"
    using assms div_greater_zero_iff[of m ?p]
    by (auto simp: count_consoles_def Let_def min_def split: if_splits)
  show "1 \<le> n" "n \<le> MAX_CONSOLES" using n d by simp_all
  have "?p * n \<le> ?p * (m div ?p)" using n by simp
  also have "\<dots> \<le> m" by simp
  finally show "?p \<le> size1" using n(2) \<open>1 \<le> n\<close> by (simp add: less_eq_div_iff_mult_less_eq)
  show "n * size1 \<le> m" using n(2) by simp
qed

text \<open>The consoles set up so far: those below \<open>n\<close> have a screen each, at its place.\<close>

definition set_up :: "nat \<Rightarrow> nat \<Rightarrow> console \<Rightarrow> bool" where
  "set_up n size1 k \<longleftrightarrow> (\<forall>c<n. screen_ok c k \<and>
     region c k = {video_mem_base k + c * size1..<video_mem_base k + (c + 1) * size1})"

lemma gotoxy_frame [simp]:
  "video_mem_base (gotoxy c x y k) = video_mem_base k" "video_num_lines (gotoxy c x y k) = video_num_lines k"
  "video_size_row (gotoxy c x y k) = video_size_row k" "video_mem_term (gotoxy c x y k) = video_mem_term k"
  "video_num_columns (gotoxy c x y k) = video_num_columns k"
  by (simp_all add: gotoxy_def upd_vc_def)

lemma next_vc_frame [simp]:
  "video_mem_base (next_vc size1 n k) = video_mem_base k" "video_num_lines (next_vc size1 n k) = video_num_lines k"
  "video_size_row (next_vc size1 n k) = video_size_row k" "video_mem_term (next_vc size1 n k) = video_mem_term k"
  by (simp_all add: next_vc_def Let_def upd_vc_def)

lemma next_vc_set_up:
  assumes "set_up n size1 k" "0 < n" "video_num_lines k * video_size_row k \<le> size1"
  shows "set_up (Suc n) size1 (next_vc size1 n k)"
proof -
  have ok: "screen_ok 0 k" using assms(1,2) by (simp add: set_up_def)
  have g: "geometry k" and v: "vc_ok (video_num_columns k) (video_num_lines k) (vc_cons k 0)"
    using ok by (simp_all add: screen_ok_def)
  have "screen_ok c (next_vc size1 n k) \<and>
      region c (next_vc size1 n k) = {video_mem_base k + c * size1..<video_mem_base k + (c + 1) * size1}" if "c < Suc n" for c
  proof (cases "c = n")
    case True
    then show ?thesis using g v assms(3)
      by (simp add: next_vc_def Let_def gotoxy_def screen_ok_def geometry_def vc_ok_def region_def upd_vc_def algebra_simps)
  next
    case False
    then have "screen_ok c k" "region c k = {video_mem_base k + c * size1..<video_mem_base k + (c + 1) * size1}"
      using that assms(1) by (simp_all add: set_up_def)
    then show ?thesis using False
      by (simp add: next_vc_def Let_def gotoxy_def screen_ok_def geometry_def region_def upd_vc_def)
  qed
  then show ?thesis by (simp add: set_up_def)
qed

lemma next_vcs_frame:
  "video_num_lines (fold (next_vc size1) xs k) = video_num_lines k \<and>
   video_size_row (fold (next_vc size1) xs k) = video_size_row k \<and>
   video_mem_base (fold (next_vc size1) xs k) = video_mem_base k \<and>
   video_mem_term (fold (next_vc size1) xs k) = video_mem_term k"
  by (induction xs arbitrary: k) auto

lemma next_vcs_set_up:
  assumes "set_up m size1 k" "0 < m" "video_num_lines k * video_size_row k \<le> size1" "m \<le> n"
  shows "set_up n size1 (fold (next_vc size1) [m..<n] k)"
  using assms(4)
proof (induction n)
  case (Suc n)
  show ?case
  proof (cases "m = Suc n")
    case False
    then show ?thesis using Suc assms(2,3) by (simp add: next_vc_set_up next_vcs_frame)
  qed (use assms(1) in simp)
qed (use assms(1,2) in simp)

lemma set_up_regions:
  assumes "set_up n size1 k" "c < n" "d < n" "c \<noteq> d"
  shows "region c k \<inter> region d k = {}"
proof -
  have r: "region c k = {video_mem_base k + c * size1..<video_mem_base k + (c + 1) * size1}"
    "region d k = {video_mem_base k + d * size1..<video_mem_base k + (d + 1) * size1}"
    using assms by (simp_all add: set_up_def)
  have "(c + 1) * size1 \<le> d * size1 \<or> (d + 1) * size1 \<le> c * size1"
    using assms(4) by (cases "c < d") (simp_all only: mult_le_mono1 Suc_eq_plus1[symmetric] Suc_leI linorder_neqE_nat not_less le_neq_implies_less, auto)
  then show ?thesis by (auto simp: r)
qed

lemma set_up_inside:
  assumes "set_up n size1 k" "c < n" "n * size1 \<le> video_mem_term k - video_mem_base k"
    "video_mem_base k \<le> video_mem_term k"
  shows "region c k \<subseteq> {video_mem_base k..<video_mem_term k}"
proof -
  have r: "region c k = {video_mem_base k + c * size1..<video_mem_base k + (c + 1) * size1}"
    using assms by (simp add: set_up_def)
  have "(c + 1) * size1 \<le> n * size1" using assms(2) by (intro mult_le_mono1) simp
  then show ?thesis using assms(3,4) by (auto simp: r)
qed

text \<open>C26. The set-up of the consoles. When the boot loader found a display of at least eight columns that fits into
  its memory, with the cursor on it, there are between one and eight consoles afterwards. Each has a screen in order, in
  video memory of its own: the parts are disjoint and inside the memory of the display.\<close>

theorem consoles_set_up:
  assumes "boot_ok B" and "vc_npar (vc_cons k 0) < NPAR"
  shows "(case init_screens B k of (k', n) \<Rightarrow> 1 \<le> n \<and> n \<le> MAX_CONSOLES \<and>
    (\<forall>c \<in> {..<n}. screen_ok c k' \<and> region c k' \<subseteq> {video_mem_base k'..<video_mem_term k'} \<and>
      (\<forall>d \<in> {..<n} - {c}. region c k' \<inter> region d k' = {})))"
proof -
  let ?k0 = "k\<lparr>video_num_columns := ORIG_VIDEO_COLS B, video_size_row := ORIG_VIDEO_COLS B * 2,
                video_num_lines := ORIG_VIDEO_LINES B, video_page := ORIG_VIDEO_PAGE B\<rparr>"
  obtain k1 desc where k1: "display_kind B ?k0 = (k1, desc)" by (cases "display_kind B ?k0")
  obtain n size1 where n: "count_consoles k1 = (n, size1)" by (cases "count_consoles k1")
  note f = display_kind_facts[OF k1, simplified]
  note b = assms(1)[unfolded boot_ok_def]
  have p: "0 < video_num_lines k1 * video_size_row k1" "video_num_lines k1 * video_size_row k1 \<le> video_memory B"
    using b by (auto simp: f)
  note c = count_consoles_facts[OF n f(1) p]
  define k2 where "k2 = gotoxy 0 (ucast (ORIG_X B)) (ucast (ORIG_Y B)) (upd_vc 0 (first_vc size1 k1)
    (upd_vmem (put_desc desc (video_mem_base k1 + video_size_row k1 - 8)) k1))"
  have k2: "video_mem_base k2 = video_mem_base k1" "video_mem_term k2 = video_mem_term k1"
    "video_num_lines k2 = video_num_lines k1" "video_size_row k2 = video_size_row k1"
    by (simp_all add: k2_def upd_vmem_def upd_vc_def)
  have "first_vc size1 (upd_vmem g k1) = first_vc size1 k1" for g
    by (simp add: fun_eq_iff first_vc_def upd_vmem_def)
  then have i: "init_screens B k = (fold (next_vc size1) [1..<n] k2, n)"
    by (simp add: init_screens_def Let_def k1 n k2_def)
  have u: "unat (ucast x :: u32) = unat x" for x :: u8
    using unsigned_less[of x, where ?'a = nat] by (simp add: unsigned_ucast_eq take_bit_nat_eq_self)
  have "set_up 1 size1 k2"
    using b assms(2) c(3)
    by (simp add: set_up_def k2_def first_vc_def gotoxy_def upd_vc_def upd_vmem_def screen_ok_def geometry_def vc_ok_def f
        region_def u algebra_simps)
  then have s: "set_up n size1 (fold (next_vc size1) [1..<n] k2)"
    by (rule next_vcs_set_up) (use c k2 in simp_all)
  have "region x (fold (next_vc size1) [1..<n] k2) \<subseteq>
      {video_mem_base (fold (next_vc size1) [1..<n] k2)..<video_mem_term (fold (next_vc size1) [1..<n] k2)}" if "x < n" for x
    by (rule set_up_inside[OF s that]) (use c f k2 next_vcs_frame in simp_all)
  moreover have "screen_ok x (fold (next_vc size1) [1..<n] k2)" if "x < n" for x
    using s that by (simp add: set_up_def)
  ultimately show ?thesis using c(1,2) set_up_regions[OF s] unfolding i prod.case by blast
qed

theorem consoles_set_up_witness:
  "boot_ok ega \<and> vc_npar (vc_cons console0 0) < NPAR \<and> screen_ok 0 (fst (init_screens ega console0))"
proof -
  have b: "boot_ok ega" "vc_npar (vc_cons console0 0) < NPAR"
    by (simp_all add: boot_ok_def ega_def video_memory_def console0_def vc0_def)
  from consoles_set_up[OF this] b show ?thesis by (auto split: prod.splits)
qed

lemma console0_ok: "screen_ok 0 console0" "even (video_num_columns console0)"
  by (simp_all add: screen_ok_def geometry_def vc_ok_def console0_def vc0_def)

theorem scrolling_refines_lines_witness:
  "screen_ok 0 console0 \<and> even (video_num_columns console0) \<and>
   screen_lines 0 (scrup 0 0 console0) = scroll_up 0 25 (blank_line 160 0x0720) (screen_lines 0 console0)"
  using scrolling_refines_lines[OF console0_ok, of 0] console0_ok by (simp add: console0_def vc0_def)

end
