(* ===== verification/Malloc.thy ===== *)
theory Malloc
  imports Mm
begin

section \<open>The allocator of kernel objects\<close>

text \<open>
  \<^verbatim>\<open>lib/malloc.c\<close>: objects of nine sizes, cut from page frames (buckets). A bucket has a
  descriptor; the descriptors of a size are chained, and so are the unused ones. The free objects of a page are
  chained through their first longs, which lie in the physical memory of \<open>Mm\<close>. Descriptors lie in pages of
  their own and are never accessed in another way: \<open>descs\<close> maps their addresses to them. Pointers are
  addresses, with 0 for the null pointer. The walks along a chain end only if the chain does; a walk that
  does not is \<open>None\<close>. Interrupts, which the code keeps out, are not modelled.
\<close>

subsection \<open>Data\<close>

record bucket_desc =
  bd_page :: u32
  bd_next :: u32
  bd_freeptr :: u32
  bd_refcnt :: u16
  bd_size :: u16

record buckets =
  km :: mm
  descs :: "u32 \<Rightarrow> bucket_desc"
  chain :: "nat \<Rightarrow> u32"
  free_bucket_desc :: u32

definition bucket_dir :: "nat list" where
  "bucket_dir = [16, 32, 64, 128, 256, 512, 1024, 2048, 4096]"

definition upd_desc :: "u32 \<Rightarrow> (bucket_desc \<Rightarrow> bucket_desc) \<Rightarrow> buckets \<Rightarrow> buckets" where
  "upd_desc b f s = s\<lparr>descs := (descs s)(b := f (descs s b))\<rparr>"

definition in_mm :: "(mm \<Rightarrow> 'a mres) \<Rightarrow> buckets \<Rightarrow> (buckets, 'a) res" where
  "in_mm f s = (case f (km s) of Inl (e, m) \<Rightarrow> Inl (e, s\<lparr>km := m\<rparr>) | Inr (x, m) \<Rightarrow> Inr (x, s\<lparr>km := m\<rparr>))"

subsection \<open>Allocation\<close>

text \<open>Each of the \<open>n\<close> descriptors from \<open>b\<close> on points to the next one, the last one to \<open>e\<close>.\<close>

primrec link_descs :: "nat \<Rightarrow> u32 \<Rightarrow> u32 \<Rightarrow> buckets \<Rightarrow> buckets" where
  "link_descs 0 b e s = upd_desc b (\<lambda>d. d\<lparr>bd_next := e\<rparr>) s"
| "link_descs (Suc n) b e s = link_descs n (b + 16) e (upd_desc b (\<lambda>d. d\<lparr>bd_next := b + 16\<rparr>) s)"

definition init_bucket_desc :: "buckets \<Rightarrow> (buckets, unit) res" where
  "init_bucket_desc s =
     bindK (in_mm get_free_page s) (\<lambda>b s.
       if b = 0 then stopK (Panic ''Out of memory in init_bucket_desc()'') s
       else retK () ((link_descs (4096 div 16 - 1) b (free_bucket_desc s) s)\<lparr>free_bucket_desc := b\<rparr>))"

text \<open>The free objects of a new bucket: the first long of each points to the next one.\<close>

primrec link_objects :: "nat \<Rightarrow> u32 \<Rightarrow> u32 \<Rightarrow> mm \<Rightarrow> mm" where
  "link_objects 0 sz cp m = poke cp 0 m"
| "link_objects (Suc n) sz cp m = link_objects n sz (cp + sz) (poke cp (cp + sz) m)"

definition new_bucket :: "nat \<Rightarrow> buckets \<Rightarrow> (buckets, u32) res" where
  "new_bucket i s =
     bindK (if free_bucket_desc s = 0 then init_bucket_desc s else retK () s) (\<lambda>_ s.
       let b = free_bucket_desc s;
           s = s\<lparr>free_bucket_desc := bd_next (descs s b)\<rparr>;
           s = upd_desc b (\<lambda>d. d\<lparr>bd_refcnt := 0, bd_size := of_nat (bucket_dir ! i)\<rparr>) s
       in bindK (in_mm get_free_page s) (\<lambda>cp s.
            let s = upd_desc b (\<lambda>d. d\<lparr>bd_page := cp, bd_freeptr := cp\<rparr>) s in
            if cp = 0 then stopK (Panic ''Out of memory in kernel malloc()'') s
            else
              let s = s\<lparr>km := link_objects (4096 div (bucket_dir ! i) - 1) (of_nat (bucket_dir ! i)) cp (km s)\<rparr>;
                  s = upd_desc b (\<lambda>d. d\<lparr>bd_next := chain s i\<rparr>) s
              in retK b (s\<lparr>chain := (chain s)(i := b)\<rparr>)))"

partial_function (option) find_room :: "buckets \<Rightarrow> u32 \<Rightarrow> u32 option" where
  "find_room s b =
     (if b = 0 \<or> bd_freeptr (descs s b) \<noteq> 0 then Some b else find_room s (bd_next (descs s b)))"

definition take_object :: "u32 \<Rightarrow> buckets \<Rightarrow> (buckets, u32) res" where
  "take_object b s =
     (let p = bd_freeptr (descs s b) in
      retK p (upd_desc b (\<lambda>d. d\<lparr>bd_freeptr := mem (km s) p, bd_refcnt := bd_refcnt d + 1\<rparr>) s))"

definition bucket_index :: "u32 \<Rightarrow> nat option" where
  "bucket_index len = List.find (\<lambda>i. unat len \<le> bucket_dir ! i) [0..<9]"

definition malloc :: "u32 \<Rightarrow> buckets \<Rightarrow> (buckets, u32) res option" where
  "malloc len s =
     (case bucket_index len of
        None \<Rightarrow> Some (stopK (Panic ''malloc: bad arg'')
          (s\<lparr>km := printk ''malloc called with impossibly large argument'' (km s)\<rparr>))
      | Some i \<Rightarrow>
          map_option (\<lambda>b. bindK (if b = 0 then new_bucket i s else retK b s) take_object)
            (find_room s (chain s i)))"

subsection \<open>Release\<close>

text \<open>The descriptor of a page, and the one before it in its chain (0 if it is the first).\<close>

partial_function (option) find_page :: "buckets \<Rightarrow> u32 \<Rightarrow> u32 \<Rightarrow> u32 \<Rightarrow> (u32 \<times> u32) option option" where
  "find_page s page prev b =
     (if b = 0 then Some None
      else if bd_page (descs s b) = page then Some (Some (prev, b))
      else find_page s page b (bd_next (descs s b)))"

primrec search_dir :: "nat list \<Rightarrow> int \<Rightarrow> u32 \<Rightarrow> buckets \<Rightarrow> (nat \<times> u32 \<times> u32) option option" where
  "search_dir [] sz page s = Some None"
| "search_dir (i # is) sz page s =
     (if int (bucket_dir ! i) < sz then search_dir is sz page s
      else case find_page s page 0 (chain s i) of
        None \<Rightarrow> None
      | Some None \<Rightarrow> search_dir is sz page s
      | Some (Some (prev, b)) \<Rightarrow> Some (Some (i, prev, b)))"

partial_function (option) find_prev :: "buckets \<Rightarrow> u32 \<Rightarrow> u32 \<Rightarrow> u32 option" where
  "find_prev s b p = (if p = 0 \<or> bd_next (descs s p) = b then Some p else find_prev s b (bd_next (descs s p)))"

definition true_prev :: "nat \<Rightarrow> u32 \<Rightarrow> u32 \<Rightarrow> buckets \<Rightarrow> u32 option" where
  "true_prev i prev b s =
     (if prev \<noteq> 0 \<and> bd_next (descs s prev) \<noteq> b \<or> prev = 0 \<and> chain s i \<noteq> b
      then find_prev s b (chain s i) else Some prev)"

definition unlink_bucket :: "nat \<Rightarrow> u32 \<Rightarrow> u32 \<Rightarrow> buckets \<Rightarrow> (buckets, unit) res" where
  "unlink_bucket i prev b s =
     (let next = bd_next (descs s b) in
      if prev \<noteq> 0 then retK () (upd_desc prev (\<lambda>d. d\<lparr>bd_next := next\<rparr>) s)
      else if chain s i \<noteq> b then stopK (Panic ''malloc bucket chains corrupted'') s
      else retK () (s\<lparr>chain := (chain s)(i := next)\<rparr>))"

definition release_bucket :: "nat \<Rightarrow> u32 \<Rightarrow> u32 \<Rightarrow> buckets \<Rightarrow> (buckets, unit) res" where
  "release_bucket i prev b s =
     bindK (unlink_bucket i prev b s) (\<lambda>_ s.
       bindK (in_mm (free_page (bd_page (descs s b))) s) (\<lambda>_ s.
         retK () ((upd_desc b (\<lambda>d. d\<lparr>bd_next := free_bucket_desc s\<rparr>) s)\<lparr>free_bucket_desc := b\<rparr>)))"

text \<open>The object goes back to the front of its bucket's free list.\<close>

definition give_object :: "u32 \<Rightarrow> u32 \<Rightarrow> buckets \<Rightarrow> buckets" where
  "give_object obj b s =
     upd_desc b (\<lambda>d. d\<lparr>bd_freeptr := obj, bd_refcnt := bd_refcnt d - 1\<rparr>)
       (s\<lparr>km := poke obj (bd_freeptr (descs s b)) (km s)\<rparr>)"

definition free_s :: "u32 \<Rightarrow> int \<Rightarrow> buckets \<Rightarrow> (buckets, unit) res option" where
  "free_s obj sz s =
     (case search_dir [0..<9] sz (page_of obj) s of
        None \<Rightarrow> None
      | Some None \<Rightarrow> Some (stopK (Panic ''Bad address passed to kernel free_s()'') s)
      | Some (Some (i, prev, b)) \<Rightarrow>
          let s = give_object obj b s in
          if bd_refcnt (descs s b) \<noteq> 0 then Some (retK () s)
          else map_option (\<lambda>prev. release_bucket i prev b s) (true_prev i prev b s))"

end
