(* ===== verification/Malloc_Props.thy ===== *)
theory Malloc_Props
  imports Malloc Mm_Props
begin

section \<open>The allocator refines a set of objects\<close>

text \<open>
  The abstract state of the allocator is the set of the objects in use, each an address and a size.
  \<open>represents\<close> relates it to descriptors, chains and free lists; \<^verbatim>\<open>malloc\<close> inserts an object that
  overlaps no other one, \<^verbatim>\<open>free_s\<close> takes one away.
\<close>

subsection \<open>Chains\<close>

primrec path :: "(u32 \<Rightarrow> u32) \<Rightarrow> u32 \<Rightarrow> u32 list \<Rightarrow> bool" where
  "path nx p [] \<longleftrightarrow> p = 0"
| "path nx p (x # xs) \<longleftrightarrow> p = x \<and> x \<noteq> 0 \<and> path nx (nx x) xs"

lemma path_cong: "(\<And>x. x \<in> set xs \<Longrightarrow> nx x = nx' x) \<Longrightarrow> path nx p xs \<longleftrightarrow> path nx' p xs"
  by (induction xs arbitrary: p) auto

lemma path_upd [simp]: "x \<notin> set xs \<Longrightarrow> path (nx(x := v)) p xs \<longleftrightarrow> path nx p xs"
  by (rule path_cong) auto

lemma path_nonzero: "path nx p xs \<Longrightarrow> 0 \<notin> set xs"
  by (induction xs arbitrary: p) auto

lemma path_0 [simp]: "path nx 0 xs \<longleftrightarrow> xs = []"
  by (cases xs) auto

lemma path_neq_0: "path nx p xs \<Longrightarrow> p \<noteq> 0 \<Longrightarrow> \<exists>ys. xs = p # ys \<and> path nx (nx p) ys"
  by (cases xs) auto

text \<open>Leaving out the element after \<open>q\<close>.\<close>

lemma path_remove:
  "path nx p (xs @ q # b # ys) \<Longrightarrow> distinct (xs @ q # b # ys) \<Longrightarrow> path (nx(q := nx b)) p (xs @ q # ys)"
proof (induction xs arbitrary: p)
  case Nil
  then show ?case by (auto simp del: fun_upd_apply simp: fun_upd_same)
next
  case (Cons x xs)
  then show ?case by auto
qed

text \<open>Ten chains: those of the nine sizes, and the unused descriptors as number 9.\<close>

definition chains :: "(u32 \<Rightarrow> u32) \<Rightarrow> (nat \<Rightarrow> u32) \<Rightarrow> (nat \<Rightarrow> u32 list) \<Rightarrow> bool" where
  "chains nx h B \<longleftrightarrow> (\<forall>i\<le>9. path nx (h i) (B i) \<and> distinct (B i)) \<and>
     (\<forall>i\<le>9. \<forall>j\<le>9. i \<noteq> j \<longrightarrow> set (B i) \<inter> set (B j) = {})"

lemma chainsD:
  assumes "chains nx h B" "i \<le> 9"
  shows "path nx (h i) (B i)" "distinct (B i)" "0 \<notin> set (B i)"
    "j \<le> 9 \<Longrightarrow> i \<noteq> j \<Longrightarrow> set (B i) \<inter> set (B j) = {}"
  using assms path_nonzero unfolding chains_def by blast+

lemma chains_pop:
  assumes "chains nx h B" "i \<le> 9" "B i = b # bs"
  shows "chains nx (h(i := nx b)) (B(i := bs))" "\<And>j. j \<le> 9 \<Longrightarrow> b \<notin> set ((B(i := bs)) j)" "b \<noteq> 0" "h i = b"
proof -
  have *: "path nx (nx b) bs" "distinct bs" "set bs \<subseteq> set (B i)"
    using chainsD(1,2)[OF assms(1,2)] assms(3) by auto
  have d: "set bs \<inter> set (B j) = {}" if "j \<le> 9" "j \<noteq> i" for j
    using chainsD(4)[OF assms(1,2) that(1)] that(2) *(3) by blast
  show "chains nx (h(i := nx b)) (B(i := bs))"
    using * d chainsD(1,2,4)[OF assms(1)] by (simp add: chains_def Int_commute)
  show "b \<notin> set ((B(i := bs)) j)" if "j \<le> 9" for j
    using assms that chainsD(2)[OF assms(1,2)] chainsD(4)[OF assms(1,2) that] by auto
  show "b \<noteq> 0" "h i = b" using chainsD(1)[OF assms(1,2)] assms(3) by auto
qed

lemma chains_push:
  assumes "chains nx h B" "i \<le> 9" "b \<noteq> 0" "\<And>j. j \<le> 9 \<Longrightarrow> b \<notin> set (B j)"
  shows "chains (nx(b := h i)) (h(i := b)) (B(i := b # B i))"
  using assms chainsD[OF assms(1)] by (simp add: chains_def Int_commute)

lemma chains_remove:
  assumes "chains nx h B" "i \<le> 9" "B i = xs @ q # b # ys"
  shows "chains (nx(q := nx b)) h (B(i := xs @ q # ys))"
proof -
  have q: "q \<notin> set (B j)" if "j \<le> 9" "j \<noteq> i" for j
    using chainsD(4)[OF assms(1,2) that(1)] assms(3) that(2) by auto
  have "path (nx(q := nx b)) (h i) (xs @ q # ys)"
    using path_remove chainsD(1,2)[OF assms(1,2)] assms(3) by metis
  moreover have "distinct (xs @ q # ys)" using chainsD(2)[OF assms(1,2)] assms(3) by auto
  moreover have "set (xs @ q # ys) \<subseteq> set (B i)" using assms(3) by auto
  moreover have "set (xs @ q # ys) \<inter> set (B j) = {}" if "j \<le> 9" "j \<noteq> i" for j
    using chainsD(4)[OF assms(1,2) that(1)] that(2) \<open>set (xs @ q # ys) \<subseteq> set (B i)\<close> by blast
  ultimately show ?thesis using chainsD(1,2,4)[OF assms(1)] q by (simp add: chains_def Int_commute)
qed

subsection \<open>Slots of a page\<close>

definition piece :: "nat \<Rightarrow> u32 \<Rightarrow> nat \<Rightarrow> u32" where
  "piece sz p k = p + of_nat (k * sz)"

definition pieces :: "nat \<Rightarrow> u32 \<Rightarrow> u32 list" where
  "pieces sz p = map (piece sz p) [0..<4096 div sz]"

definition is_frame :: "u32 \<Rightarrow> bool" where
  "is_frame p \<longleftrightarrow> (\<exists>j<PAGING_PAGES. p = frame_addr j)"

definition is_size :: "nat \<Rightarrow> bool" where
  "is_size sz \<longleftrightarrow> 0 < sz \<and> sz dvd 4096"

lemma is_size_dir [simp]: "i < 9 \<Longrightarrow> is_size (bucket_dir ! i)"
  unfolding is_size_def bucket_dir_def
  by (simp add: less_Suc_eq numeral_eq_Suc) (elim disjE; simp add: dvd_eq_mod_eq_0)

lemma page_off_small: "d < 4096 \<Longrightarrow> page_off (of_nat d) = (of_nat d :: u32)"
  unfolding page_off_take_bit word_unat_eq_iff unsigned_take_bit_eq unat_of_nat by (simp add: take_bit_eq_mod)

lemma piece_bound: "is_size sz \<Longrightarrow> k < 4096 div sz \<Longrightarrow> k * sz + sz \<le> 4096"
proof -
  assume a: "is_size sz" "k < 4096 div sz"
  then have "Suc k * sz \<le> 4096 div sz * sz" by (intro mult_le_mono1) simp
  also have "\<dots> = 4096" using a by (simp add: is_size_def)
  finally show ?thesis by simp
qed

lemma page_of_add: "is_frame p \<Longrightarrow> d < 4096 \<Longrightarrow> page_of (p + of_nat d) = p"
  using page_of_plus_off(2)[OF _ page_off_small[of d]] by (auto simp: is_frame_def)

lemma unat_frame_add: "j < PAGING_PAGES \<Longrightarrow> d \<le> 4096 \<Longrightarrow> unat (frame_addr j + of_nat d) = 4096 * j + 0x100000 + d"
proof -
  assume j: "j < PAGING_PAGES" and d: "d \<le> 4096"
  have "frame_addr j + of_nat d = (of_nat (4096 * j + 0x100000 + d) :: u32)"
    by (simp add: frame_addr_def LOW_MEM_def push_bit_eq_mult)
  then show ?thesis using j d by (simp only: unat_of_nat) (simp add: PAGING_PAGES_def)
qed

lemma piece_page: "is_frame p \<Longrightarrow> is_size sz \<Longrightarrow> k < 4096 div sz \<Longrightarrow> page_of (piece sz p k) = p"
  unfolding piece_def using piece_bound[of sz k] by (intro page_of_add) (auto simp: is_size_def)

lemma pieces_page: "is_frame p \<Longrightarrow> is_size sz \<Longrightarrow> a \<in> set (pieces sz p) \<Longrightarrow> page_of a = p"
  by (auto simp: pieces_def piece_page)

lemma is_frame_nonzero: "is_frame p \<Longrightarrow> p \<noteq> 0"
  by (auto simp: is_frame_def)

lemma pieces_nonzero: "is_frame p \<Longrightarrow> is_size sz \<Longrightarrow> 0 \<notin> set (pieces sz p)"
  using pieces_page[of p sz 0] is_frame_nonzero[of p] by (auto simp: page_of_def)

lemma unat_piece: "j < PAGING_PAGES \<Longrightarrow> is_size sz \<Longrightarrow> k < 4096 div sz \<Longrightarrow>
    unat (piece sz (frame_addr j) k) = 4096 * j + 0x100000 + k * sz"
  unfolding piece_def using piece_bound[of sz k] by (intro unat_frame_add) auto

lemma piece_inj: "is_frame p \<Longrightarrow> is_size sz \<Longrightarrow> k < 4096 div sz \<Longrightarrow> l < 4096 div sz \<Longrightarrow> piece sz p k = piece sz p l \<Longrightarrow> k = l"
  by (auto simp: is_frame_def is_size_def dest!: arg_cong[of _ _ unat] simp: unat_piece)

lemma distinct_pieces: "is_frame p \<Longrightarrow> is_size sz \<Longrightarrow> distinct (pieces sz p)"
  by (auto simp: pieces_def distinct_map inj_on_def intro: piece_inj)

lemma pieces_Cons:
  assumes "is_size sz"
  shows "pieces sz p = map (piece sz p) [0..<Suc (4096 div sz - 1)]"
proof -
  have "0 < 4096 div sz" using assms by (auto simp: is_size_def div_greater_zero_iff dest: dvd_imp_le)
  then show ?thesis by (simp add: pieces_def)
qed

text \<open>Both loops that link the pieces of a page.\<close>

lemma piece_0 [simp]: "piece sz p 0 = p"
  by (simp add: piece_def)

lemma pieces_shift: "map (piece sz p) [0..<Suc (Suc n)] = p # map (piece sz (p + of_nat sz)) [0..<Suc n]"
proof -
  have "map (piece sz p) [0..<Suc (Suc n)] = p # map (piece sz p \<circ> Suc) [0..<Suc n]"
    by (simp only: upt_conv_Cons[of 0 "Suc (Suc n)"] map_Suc_upt[symmetric] list.map map_map piece_0 zero_less_Suc)
  also have "piece sz p \<circ> Suc = piece sz (p + of_nat sz)" by (auto simp: piece_def fun_eq_iff)
  finally show ?thesis .
qed

lemma link_objects_frame: "a \<notin> set (map (piece sz p) [0..<Suc n]) \<Longrightarrow> mem (link_objects n (of_nat sz) p m) a = mem m a"
proof (induction n arbitrary: p m)
  case 0
  then show ?case by (simp add: poke_def)
next
  case (Suc n)
  from Suc.prems[unfolded pieces_shift] have "a \<noteq> p" "a \<notin> set (map (piece sz (p + of_nat sz)) [0..<Suc n])" by auto
  then show ?case using Suc.IH by (simp add: poke_def)
qed

lemma link_objects_fields [simp]:
  "mem_map (link_objects n sz p m) = mem_map m" "high_memory (link_objects n sz p m) = high_memory m"
  by (induction n arbitrary: p m) (auto simp: poke_def)

lemma link_objects_path:
  "distinct (map (piece sz p) [0..<Suc n]) \<Longrightarrow> 0 \<notin> set (map (piece sz p) [0..<Suc n]) \<Longrightarrow>
   path (mem (link_objects n (of_nat sz) p m)) p (map (piece sz p) [0..<Suc n])"
proof (induction n arbitrary: p m)
  case 0
  then show ?case by (simp add: poke_def)
next
  case (Suc n)
  let ?q = "p + of_nat sz" and ?m = "poke p (p + of_nat sz) m"
  note sh = pieces_shift[of sz p n]
  have "path (mem (link_objects n (of_nat sz) ?q ?m)) ?q (map (piece sz ?q) [0..<Suc n])"
    by (rule Suc.IH) (use Suc.prems in \<open>simp_all only: sh distinct.simps list.set insert_iff, auto\<close>)
  moreover have "mem (link_objects n (of_nat sz) ?q ?m) p = ?q"
    using link_objects_frame[of p sz ?q n ?m] Suc.prems by (simp only: sh) (simp add: poke_def)
  ultimately show ?case using Suc.prems by (simp only: sh link_objects.simps path.simps) auto
qed

definition nexts :: "buckets \<Rightarrow> u32 \<Rightarrow> u32" where
  "nexts s b = bd_next (descs s b)"

lemma nexts_simps [simp]:
  "nexts (s\<lparr>free_bucket_desc := x\<rparr>) = nexts s" "nexts (s\<lparr>chain := h\<rparr>) = nexts s" "nexts (s\<lparr>km := m\<rparr>) = nexts s"
  by (auto simp: nexts_def)

lemma link_descs_frame: "a \<notin> set (map (piece 16 b) [0..<Suc n]) \<Longrightarrow> descs (link_descs n b e s) a = descs s a"
proof (induction n arbitrary: b s)
  case 0
  then show ?case by (simp add: upd_desc_def)
next
  case (Suc n)
  from Suc.prems[unfolded pieces_shift] have "a \<noteq> b" "a \<notin> set (map (piece 16 (b + 16)) [0..<Suc n])" by auto
  then show ?case using Suc.IH by (simp add: upd_desc_def)
qed

lemma link_descs_fields [simp]:
  "km (link_descs n b e s) = km s" "chain (link_descs n b e s) = chain s"
  "free_bucket_desc (link_descs n b e s) = free_bucket_desc s"
  by (induction n arbitrary: b s) (auto simp: upd_desc_def)

lemma link_descs_path:
  "distinct (map (piece 16 b) [0..<Suc n]) \<Longrightarrow> 0 \<notin> set (map (piece 16 b) [0..<Suc n]) \<Longrightarrow>
   path (nexts (link_descs n b 0 s)) b (map (piece 16 b) [0..<Suc n])"
proof (induction n arbitrary: b s)
  case 0
  then show ?case by (simp add: nexts_def upd_desc_def)
next
  case (Suc n)
  let ?q = "b + 16" and ?s = "upd_desc b (\<lambda>d. d\<lparr>bd_next := b + 16\<rparr>) s"
  have sh: "map (piece 16 b) [0..<Suc (Suc n)] = b # map (piece 16 ?q) [0..<Suc n]"
    using pieces_shift[of 16 b n] by (simp only: of_nat_numeral)
  have "path (nexts (link_descs n ?q 0 ?s)) ?q (map (piece 16 ?q) [0..<Suc n])"
    by (rule Suc.IH) (use Suc.prems in \<open>simp_all only: sh distinct.simps list.set insert_iff, auto\<close>)
  moreover have "nexts (link_descs n ?q 0 ?s) b = ?q"
    using link_descs_frame[of b ?q n 0 ?s] Suc.prems by (simp only: sh) (simp add: nexts_def upd_desc_def)
  ultimately show ?case using Suc.prems by (simp only: sh link_descs.simps path.simps) auto
qed

subsection \<open>The invariant\<close>

definition head :: "buckets \<Rightarrow> nat \<Rightarrow> u32" where
  "head s i = (if i = 9 then free_bucket_desc s else chain s i)"

definition owned :: "mm \<Rightarrow> u32 \<Rightarrow> bool" where
  "owned m p \<longleftrightarrow> (\<exists>j<PAGING_PAGES. p = frame_addr j \<and> mem_map m j = 1 \<and> frame_addr j < high_memory m)"

text \<open>The bucket of descriptor \<open>b\<close> has pieces of size \<open>sz\<close>, of which those in \<open>fl\<close> are free.\<close>

definition bucket_ok :: "buckets \<Rightarrow> nat \<Rightarrow> u32 \<Rightarrow> u32 list \<Rightarrow> bool" where
  "bucket_ok s sz b fl \<longleftrightarrow>
     (let d = descs s b in
      owned (km s) (bd_page d) \<and> path (mem (km s)) (bd_freeptr d) fl \<and> distinct fl \<and>
      set fl \<subseteq> set (pieces sz (bd_page d)) \<and> unat (bd_refcnt d) + length fl = 4096 div sz)"

definition in_use :: "(nat \<Rightarrow> u32 list) \<Rightarrow> u32 set" where
  "in_use B = (\<Union>i<9. set (B i))"

definition pages_ok :: "buckets \<Rightarrow> u32 set \<Rightarrow> u32 set \<Rightarrow> bool" where
  "pages_ok s U D \<longleftrightarrow>
     inj_on (\<lambda>b. bd_page (descs s b)) U \<and>
     (\<forall>b\<in>D. owned (km s) (page_of b) \<and> page_of b \<notin> (\<lambda>b. bd_page (descs s b)) ` U)"

text \<open>No frame beyond the end of memory is handed out.\<close>

definition no_high :: "mm \<Rightarrow> bool" where
  "no_high m \<longleftrightarrow> (\<forall>j<PAGING_PAGES. high_memory m \<le> frame_addr j \<longrightarrow> mem_map m j \<noteq> 0)"

definition heap_inv :: "(nat \<Rightarrow> u32 list) \<Rightarrow> (u32 \<Rightarrow> u32 list) \<Rightarrow> buckets \<Rightarrow> bool" where
  "heap_inv B O' s \<longleftrightarrow>
     chains (nexts s) (head s) B \<and> (\<forall>i<9. \<forall>b\<in>set (B i). bucket_ok s (bucket_dir ! i) b (O' b)) \<and>
     pages_ok s (in_use B) (in_use B \<union> set (B 9)) \<and> no_high (km s)"

definition no_empty :: "(nat \<Rightarrow> u32 list) \<Rightarrow> buckets \<Rightarrow> bool" where
  "no_empty B s \<longleftrightarrow> (\<forall>b\<in>in_use B. bd_refcnt (descs s b) \<noteq> 0)"

definition objects_of :: "(nat \<Rightarrow> u32 list) \<Rightarrow> (u32 \<Rightarrow> u32 list) \<Rightarrow> buckets \<Rightarrow> (u32 \<times> nat) set" where
  "objects_of B O' s =
     (\<Union>i<9. \<Union>b\<in>set (B i). (set (pieces (bucket_dir ! i) (bd_page (descs s b))) - set (O' b)) \<times> {bucket_dir ! i})"

definition represents :: "buckets \<Rightarrow> (u32 \<times> nat) set \<Rightarrow> bool" where
  "represents s A \<longleftrightarrow> (\<exists>B O'. heap_inv B O' s \<and> no_empty B s \<and> objects_of B O' s = A)"

lemma owned_frame: "owned m p \<Longrightarrow> is_frame p"
  by (auto simp: owned_def is_frame_def)

lemma bucket_okD:
  assumes "bucket_ok s sz b fl"
  shows "owned (km s) (bd_page (descs s b))" "path (mem (km s)) (bd_freeptr (descs s b)) fl" "distinct fl"
    "set fl \<subseteq> set (pieces sz (bd_page (descs s b)))" "unat (bd_refcnt (descs s b)) + length fl = 4096 div sz"
    "is_frame (bd_page (descs s b))"
  using assms owned_frame by (auto simp: bucket_ok_def Let_def)

lemma bucket_ok_cong:
  assumes "bucket_ok s sz b fl" "descs s' b = descs s b" "owned (km s') (bd_page (descs s b))"
    "\<And>a. a \<in> set fl \<Longrightarrow> mem (km s') a = mem (km s) a"
  shows "bucket_ok s' sz b fl"
  using assms path_cong[of fl "mem (km s')" "mem (km s)"] by (auto simp: bucket_ok_def Let_def)

lemma in_use_upd:
  "i < 9 \<Longrightarrow> in_use (B(i := bs)) = (\<Union>j\<in>{..<9} - {i}. set (B j)) \<union> set bs"
  "in_use (B(9 := bs)) = in_use B"
  by (auto simp: in_use_def split: if_splits)

lemma in_use_push: "i < 9 \<Longrightarrow> in_use (B(i := b # B i)) = insert b (in_use B)"
  by (auto simp: in_use_def split: if_splits)

subsection \<open>Taking a page\<close>

lemma get_free_page_frame:
  assumes "no_high m" "free_frames m \<noteq> {}"
  obtains j where "j < PAGING_PAGES" "mem_map m j = 0" "frame_addr j < high_memory m"
    "get_free_page m = retK (frame_addr j) (take_frame j m)"
proof -
  obtain j where j: "scan_down (mem_map m) PAGING_PAGES = Some j"
    using assms(2) scan_down_None[of "mem_map m" PAGING_PAGES] by (fastforce simp: free_frames_def)
  from scan_down_Some[OF this] have f: "j < PAGING_PAGES" "mem_map m j = 0" by auto
  then have h: "\<not> high_memory m \<le> frame_addr j" using assms(1) by (auto simp: no_high_def)
  then have "get_free_page m = retK (frame_addr j) (take_frame j m)"
    by (subst get_free_page.simps) (simp add: j)
  with f h that show ?thesis by (simp add: not_le)
qed

lemma take_frame_owned:
  assumes "j < PAGING_PAGES" "mem_map m j = 0"
  shows "owned m p \<Longrightarrow> owned (take_frame j m) p" "owned m p \<Longrightarrow> p \<noteq> frame_addr j"
    "frame_addr j < high_memory m \<Longrightarrow> owned (take_frame j m) (frame_addr j)"
    "no_high m \<Longrightarrow> no_high (take_frame j m)"
    "page_of a \<noteq> frame_addr j \<Longrightarrow> mem (take_frame j m) a = mem m a"
  using assms by (auto simp: owned_def take_frame_def no_high_def frame_addr_inj)

lemma owned_cong:
  "mem_map m' = mem_map m \<Longrightarrow> high_memory m' = high_memory m \<Longrightarrow> owned m' p = owned m p \<and> no_high m' = no_high m"
  by (simp add: owned_def no_high_def)

lemma chains_frame:
  assumes "chains nx h B" "i \<le> 9" "\<And>j b. j \<le> 9 \<Longrightarrow> j \<noteq> i \<Longrightarrow> b \<in> set (B j) \<Longrightarrow> nx' b = nx b \<and> b \<notin> set bs"
    "\<And>j. j \<le> 9 \<Longrightarrow> j \<noteq> i \<Longrightarrow> h' j = h j" "path nx' (h' i) bs" "distinct bs"
  shows "chains nx' h' (B(i := bs))"
proof -
  have p: "path nx' (h' j) (B j)" if "j \<le> 9" "j \<noteq> i" for j
    using chainsD(1)[OF assms(1) that(1)] path_cong[of "B j" nx nx'] assms(3,4) that by auto
  have d: "set bs \<inter> set (B j) = {}" if "j \<le> 9" "j \<noteq> i" for j using assms(3) that by blast
  show ?thesis using p d assms(5,6) chainsD(2,4)[OF assms(1)] by (simp add: chains_def Int_commute)
qed

lemma heap_invD:
  assumes "heap_inv B O' s"
  shows "chains (nexts s) (head s) B" "i < 9 \<Longrightarrow> b \<in> set (B i) \<Longrightarrow> bucket_ok s (bucket_dir ! i) b (O' b)"
    "inj_on (\<lambda>b. bd_page (descs s b)) (in_use B)"
    "i \<le> 9 \<Longrightarrow> b \<in> set (B i) \<Longrightarrow> owned (km s) (page_of b)"
    "i \<le> 9 \<Longrightarrow> b \<in> set (B i) \<Longrightarrow> c \<in> in_use B \<Longrightarrow> page_of b \<noteq> bd_page (descs s c)"
    "no_high (km s)"
proof -
  show "chains (nexts s) (head s) B" "i < 9 \<Longrightarrow> b \<in> set (B i) \<Longrightarrow> bucket_ok s (bucket_dir ! i) b (O' b)"
    "inj_on (\<lambda>b. bd_page (descs s b)) (in_use B)" "no_high (km s)"
    using assms by (auto simp: heap_inv_def pages_ok_def)
  have D: "b \<in> in_use B \<union> set (B 9)" if "i \<le> 9" "b \<in> set (B i)"
    using that by (cases "i = 9") (auto simp: in_use_def)
  show "i \<le> 9 \<Longrightarrow> b \<in> set (B i) \<Longrightarrow> owned (km s) (page_of b)"
    "i \<le> 9 \<Longrightarrow> b \<in> set (B i) \<Longrightarrow> c \<in> in_use B \<Longrightarrow> page_of b \<noteq> bd_page (descs s c)"
    using D assms by (auto simp: heap_inv_def pages_ok_def)
qed

lemma desc_page:
  "heap_inv B O' s \<Longrightarrow> b \<in> in_use B \<union> set (B 9) \<Longrightarrow>
   owned (km s) (page_of b) \<and> page_of b \<notin> (\<lambda>b. bd_page (descs s b)) ` in_use B"
  by (simp add: heap_inv_def pages_ok_def)

lemma bucket_page: "heap_inv B O' s \<Longrightarrow> c \<in> in_use B \<Longrightarrow> owned (km s) (bd_page (descs s c))"
  using bucket_okD(1)[OF heap_invD(2)] by (auto simp: in_use_def)

lemma is_size_16 [simp]: "is_size 16"
  by (simp add: is_size_def dvd_eq_mod_eq_0)

lemma pieces_16: "pieces 16 p = map (piece 16 p) [0..<Suc 255]"
  by (simp add: pieces_def)

lemma init_bucket_desc_ok:
  assumes inv: "heap_inv B O' s" and e: "B 9 = []" and fr: "free_frames (km s) \<noteq> {}"
  obtains j s' where "init_bucket_desc s = retK () s'" "km s' = take_frame j (km s)" "j \<in> free_frames (km s)"
    "heap_inv (B(9 := pieces 16 (frame_addr j))) O' s'" "\<And>b. b \<in> in_use B \<Longrightarrow> descs s' b = descs s b"
    "chain s' = chain s" "free_bucket_desc s' = frame_addr j"
proof -
  note I = heap_invD[OF inv]
  obtain j where j: "j < PAGING_PAGES" "mem_map (km s) j = 0" "frame_addr j < high_memory (km s)"
    and g: "get_free_page (km s) = retK (frame_addr j) (take_frame j (km s))"
    using get_free_page_frame[OF I(6) fr] .
  let ?p = "frame_addr j"
  note T = take_frame_owned[OF j(1,2)]
  have f: "is_frame ?p" using j by (auto simp: is_frame_def)
  have z: "free_bucket_desc s = 0" using chainsD(1)[OF I(1), of 9] e by (simp add: head_def)
  define s1 where "s1 = link_descs 255 ?p 0 (s\<lparr>km := take_frame j (km s)\<rparr>)"
  define s' where "s' = s1\<lparr>free_bucket_desc := ?p\<rparr>"
  have r: "init_bucket_desc s = retK () s'"
    using is_frame_nonzero[OF f] by (simp add: init_bucket_desc_def in_mm_def g retK_def s'_def s1_def z)
  have new: "b \<notin> set (pieces 16 ?p)" if "i \<le> 9" "b \<in> set (B i)" for i b
    using I(4)[OF that] T(2) pieces_page[OF f, of 16 b] by auto
  have old: "descs s' b = descs s b" if "i \<le> 9" "b \<in> set (B i)" for i b
    using new[OF that] link_descs_frame[of b ?p 255 0] by (simp add: pieces_16 s'_def s1_def)
  have kept: "descs s' b = descs s b" if u: "b \<in> in_use B" for b
  proof -
    obtain i where "i < 9" "b \<in> set (B i)" using u unfolding in_use_def by blast
    then show ?thesis by (intro old[of i]) simp_all
  qed
  have p: "path (nexts s') ?p (pieces 16 ?p)"
    using link_descs_path[of ?p 255 "s\<lparr>km := take_frame j (km s)\<rparr>"] distinct_pieces[OF f, of 16] pieces_nonzero[OF f, of 16]
    by (simp add: pieces_16 s'_def s1_def nexts_def)
  have h: "head s' i = (if i = 9 then ?p else head s i)" for i by (simp add: s'_def s1_def head_def)
  have "chains (nexts s') (head s') (B(9 := pieces 16 ?p))"
    by (rule chains_frame[OF I(1)]) (use new old p h distinct_pieces[OF f] in \<open>auto simp: nexts_def\<close>)
  moreover have km: "km s' = take_frame j (km s)" by (simp add: s'_def s1_def)
  moreover have "bucket_ok s' (bucket_dir ! i) b (O' b)" if "i < 9" "b \<in> set (B i)" for i b
  proof (rule bucket_ok_cong[OF I(2)[OF that]])
    note b = bucket_okD[OF I(2)[OF that]]
    show "descs s' b = descs s b" by (rule old[OF _ that(2)]) (use that in simp)
    show "owned (km s') (bd_page (descs s b))" using b(1) T(1) km by simp
    show "mem (km s') a = mem (km s) a" if "a \<in> set (O' b)" for a
      using b(1,4,6) that T(2,5) pieces_page[OF b(6), of "bucket_dir ! i" a] \<open>i < 9\<close> km by auto
  qed
  moreover have "pages_ok s' (in_use B) (in_use B \<union> set (pieces 16 ?p))"
  proof -
    have U: "descs s' b = descs s b" if "b \<in> in_use B" for b
      using that by (rule kept)
    have D: "owned (km s) (page_of b) \<and> page_of b \<notin> (\<lambda>b. bd_page (descs s b)) ` in_use B" if "b \<in> in_use B" for b
      using desc_page[OF inv, of b] that by simp
    have np: "?p \<notin> (\<lambda>b. bd_page (descs s b)) ` in_use B"
    proof
      assume "?p \<in> (\<lambda>b. bd_page (descs s b)) ` in_use B"
      then obtain c where c: "c \<in> in_use B" "?p = bd_page (descs s c)" by (elim imageE)
      show False using T(2)[OF bucket_page[OF inv c(1)]] c(2) by simp
    qed
    moreover have im: "(\<lambda>c. bd_page (descs s' c)) ` in_use B = (\<lambda>c. bd_page (descs s c)) ` in_use B"
      by (rule image_cong) (simp_all add: U)
    moreover have "inj_on (\<lambda>c. bd_page (descs s' c)) (in_use B)"
      by (subst inj_on_cong[of _ _ "\<lambda>c. bd_page (descs s c)"]) (simp_all add: U I(3))
    moreover have "owned (take_frame j (km s)) (page_of c) \<and> page_of c \<notin> (\<lambda>b. bd_page (descs s b)) ` in_use B"
      if c: "c \<in> in_use B \<union> set (pieces 16 ?p)" for c
    proof (cases "c \<in> in_use B")
      case True
      then show ?thesis using D[OF True] T(1) by simp
    next
      case False
      then have "page_of c = ?p" using c pieces_page[OF f is_size_16, of c] by simp
      then show ?thesis using np T(3)[OF j(3)] by simp
    qed
    ultimately show ?thesis by (simp add: pages_ok_def km)
  qed
  moreover have "no_high (km s')" using T(4) I(6) km by simp
  ultimately have "heap_inv (B(9 := pieces 16 ?p)) O' s'"
    by (simp add: heap_inv_def in_use_upd)
  moreover have "j \<in> free_frames (km s)" using j by (simp add: free_frames_def)
  ultimately show ?thesis by (intro that[OF r km]) (simp_all add: kept, simp_all add: s'_def s1_def)
qed

subsection \<open>A new bucket\<close>

lemma objects_of_cong:
  assumes "\<And>i b. i < 9 \<Longrightarrow> b \<in> set (B i) \<Longrightarrow> descs s' b = descs s b \<and> O'' b = O' b"
    and "\<And>i. i < 9 \<Longrightarrow> set (B' i) = set (B i)"
  shows "objects_of B' O'' s' = objects_of B O' s"
  using assms by (auto simp: objects_of_def)

lemma fill_bucket_ok:
  assumes inv: "heap_inv B O' s" and i: "i < 9" and B: "B 9 = b # bs" and fr: "free_frames (km s) \<noteq> {}"
  obtains p s' where "new_bucket i s = retK b s'"
    "heap_inv (B(9 := bs, i := b # B i)) (O'(b := pieces (bucket_dir ! i) p)) s'"
    "bd_page (descs s' b) = p" "bd_refcnt (descs s' b) = 0" "b \<notin> in_use B"
    "\<And>c. c \<noteq> b \<Longrightarrow> descs s' c = descs s c"
    "\<And>a. owned (km s) (page_of a) \<Longrightarrow> mem (km s') a = mem (km s) a"
proof -
  note I = heap_invD[OF inv]
  obtain j where j: "j < PAGING_PAGES" "mem_map (km s) j = 0" "frame_addr j < high_memory (km s)"
    and g: "get_free_page (km s) = retK (frame_addr j) (take_frame j (km s))"
    using get_free_page_frame[OF I(6) fr] .
  let ?p = "frame_addr j" and ?z = "bucket_dir ! i"
  note T = take_frame_owned[OF j(1,2)]
  have f: "is_frame ?p" using j by (auto simp: is_frame_def)
  note pop = chains_pop[OF I(1) order_refl B]
  have z: "free_bucket_desc s = b" "b \<noteq> 0" using pop(3,4) by (simp_all add: head_def)
  define m where "m = link_objects (4096 div ?z - 1) (of_nat ?z) ?p (take_frame j (km s))"
  define s' where "s' = s\<lparr>km := m, free_bucket_desc := nexts s b, chain := (chain s)(i := b),
    descs := (descs s)(b := (descs s b)\<lparr>bd_refcnt := 0, bd_size := of_nat ?z, bd_page := ?p, bd_freeptr := ?p,
      bd_next := chain s i\<rparr>)\<rparr>"
  have r: "new_bucket i s = retK b s'"
    using is_frame_nonzero[OF f] z
    by (simp add: new_bucket_def in_mm_def g s'_def m_def Let_def upd_desc_def nexts_def retK_def)
  have bn: "b \<notin> set (B k)" if "k < 9" for k using pop(2)[of k] that by simp
  have d: "descs s' c = descs s c" if "c \<noteq> b" for c using that by (simp add: s'_def)
  have mm: "mem m a = mem (km s) a" if "owned (km s) (page_of a)" for a
  proof -
    have "page_of a \<noteq> ?p" using T(2) that by auto
    then have "a \<notin> set (pieces ?z ?p)" using pieces_page[OF f is_size_dir[OF i]] by auto
    then show ?thesis using T(5)[OF \<open>page_of a \<noteq> ?p\<close>] link_objects_frame[of a ?z ?p "4096 div ?z - 1"]
      by (simp add: m_def pieces_Cons[OF is_size_dir[OF i]])
  qed
  have own: "owned m q" if "owned (km s) q" for q
    using T(1)[OF that] owned_cong[of m "take_frame j (km s)"] by (simp add: m_def)
  have "chains (nexts s') (head s') (B(9 := bs, i := b # B i))"
  proof -
    have "nexts s' = (nexts s)(b := ((head s)(9 := nexts s b)) i)" "head s' = ((head s)(9 := nexts s b))(i := b)"
      using i by (auto simp: s'_def nexts_def head_def fun_eq_iff)
    moreover have "chains ((nexts s)(b := ((head s)(9 := nexts s b)) i)) (((head s)(9 := nexts s b))(i := b))
        ((B(9 := bs))(i := b # (B(9 := bs)) i))"
      by (rule chains_push[OF pop(1) _ z(2) pop(2)]) (use i in simp)
    moreover have "(B(9 := bs)) i = B i" using i by simp
    ultimately show ?thesis by (simp only:)
  qed
  moreover have "bucket_ok s' (bucket_dir ! k) c ((O'(b := pieces ?z ?p)) c)"
    if k: "k < 9" "c \<in> set ((B(9 := bs, i := b # B i)) k)" for k c
  proof (cases "c = b")
    case True
    then have "k = i" using k bn by (auto split: if_splits)
    have "path (mem m) ?p (pieces ?z ?p)"
      using link_objects_path[of ?z ?p "4096 div ?z - 1"] distinct_pieces[OF f is_size_dir[OF i]]
        pieces_nonzero[OF f is_size_dir[OF i]] by (simp add: m_def pieces_Cons[OF is_size_dir[OF i]])
    moreover have "owned m ?p" using T(3)[OF j(3)] owned_cong[of m "take_frame j (km s)"] by (simp add: m_def)
    moreover have "length (pieces ?z ?p) = 4096 div ?z" by (simp add: pieces_def)
    ultimately show ?thesis
      using True \<open>k = i\<close> distinct_pieces[OF f is_size_dir[OF i]] by (simp add: bucket_ok_def s'_def)
  next
    case False
    then have c: "c \<in> set (B k)" using k by (auto split: if_splits)
    note bk = bucket_okD[OF I(2)[OF k(1) c]]
    have "bucket_ok s' (bucket_dir ! k) c (O' c)"
    proof (rule bucket_ok_cong[OF I(2)[OF k(1) c] d[OF False]])
      show "owned (km s') (bd_page (descs s c))" using own[OF bk(1)] by (simp add: s'_def)
      show "mem (km s') a = mem (km s) a" if "a \<in> set (O' c)" for a
        using mm[of a] bk(1,4) that pieces_page[OF bk(6) is_size_dir[OF k(1)], of a] by (auto simp: s'_def)
    qed
    then show ?thesis using False by simp
  qed
  moreover have "pages_ok s' (insert b (in_use B)) (insert b (in_use B) \<union> set bs)"
  proof -
    have bU: "b \<notin> in_use B" using bn by (auto simp: in_use_def)
    have D: "owned (km s) (page_of c) \<and> page_of c \<notin> (\<lambda>b. bd_page (descs s b)) ` in_use B"
      if "c \<in> insert b (in_use B) \<union> set bs" for c
      using desc_page[OF inv, of c] that B by auto
    have P: "bd_page (descs s c) \<noteq> ?p" if "c \<in> in_use B" for c
      using bucket_page[OF inv that] T(2) by blast
    have im: "(\<lambda>c. bd_page (descs s' c)) ` insert b (in_use B) = insert ?p ((\<lambda>c. bd_page (descs s c)) ` in_use B)"
      using d bU by (auto simp: s'_def image_iff)
    have "inj_on (\<lambda>c. bd_page (descs s' c)) (insert b (in_use B))"
    proof -
      have U: "descs s' c = descs s c" if "c \<in> in_use B" for c using that bU by (intro d) auto
      have "inj_on (\<lambda>c. bd_page (descs s' c)) (in_use B)"
        by (subst inj_on_cong[of _ _ "\<lambda>c. bd_page (descs s c)"]) (simp_all add: U I(3))
      moreover have "bd_page (descs s' b) = ?p" by (simp add: s'_def)
      moreover have "?p \<notin> (\<lambda>c. bd_page (descs s' c)) ` in_use B"
      proof
        assume "?p \<in> (\<lambda>c. bd_page (descs s' c)) ` in_use B"
        then obtain c where c: "c \<in> in_use B" "?p = bd_page (descs s' c)" by (elim imageE)
        show False using P[OF c(1)] U[OF c(1)] c(2) by simp
      qed
      ultimately show ?thesis using bU by simp
    qed
    moreover have "owned (km s') (page_of c) \<and> page_of c \<notin> insert ?p ((\<lambda>c. bd_page (descs s c)) ` in_use B)"
      if "c \<in> insert b (in_use B) \<union> set bs" for c
      using D[OF that] own T(2) by (auto simp: s'_def)
    ultimately show ?thesis unfolding pages_ok_def im by blast
  qed
  moreover have "no_high (km s')" using T(4)[OF I(6)] owned_cong[of m "take_frame j (km s)"] by (simp add: m_def s'_def)
  moreover have "in_use (B(9 := bs, i := b # B i)) = insert b (in_use B)"
    using in_use_push[OF i, of "B(9 := bs)" b] i by (simp add: in_use_upd)
  ultimately have "heap_inv (B(9 := bs, i := b # B i)) (O'(b := pieces ?z ?p)) s'"
    using i by (auto simp: heap_inv_def)
  moreover have "b \<notin> in_use B" using bn by (auto simp: in_use_def)
  ultimately show ?thesis using that[of s' ?p] r d mm by (simp add: s'_def)
qed

lemma card_free_frames:
  assumes "2 \<le> card (free_frames m)" "j \<in> free_frames m"
  shows "free_frames (take_frame j m) \<noteq> {}"
proof -
  have "card (free_frames m - {j}) \<noteq> 0"
    using assms by (simp add: free_frames_def card_Diff_singleton)
  then show ?thesis using take_frame_free_frames[OF assms(2)] by (metis card.empty)
qed

lemma objects_of_fill:
  assumes "heap_inv B O' s" "i < 9" "b \<notin> in_use B" "\<And>c. c \<in> in_use B \<Longrightarrow> descs s' c = descs s c"
    "B' = B(9 := bs, i := b # B i)" "O'' = O'(b := pieces (bucket_dir ! i) (bd_page (descs s' b)))"
  shows "objects_of B' O'' s' = objects_of B O' s"
proof -
  have "(\<Union>b'\<in>set (B' k). (set (pieces (bucket_dir ! k) (bd_page (descs s' b'))) - set (O'' b')) \<times> {bucket_dir ! k}) =
      (\<Union>b'\<in>set (B k). (set (pieces (bucket_dir ! k) (bd_page (descs s b'))) - set (O' b')) \<times> {bucket_dir ! k})"
    if k: "k < 9" for k
  proof -
    have "descs s' c = descs s c \<and> O'' c = O' c" if "c \<in> set (B k)" for c
      using assms(3,4) assms(6) that k by (auto simp: in_use_def)
    then show ?thesis using assms(5,6) k by auto
  qed
  then show ?thesis unfolding objects_of_def by (rule SUP_cong[OF refl]) simp
qed

lemma new_bucket_ok:
  assumes inv: "heap_inv B O' s" and i: "i < 9" and fr: "2 \<le> card (free_frames (km s))"
  obtains b s' B' O'' where "new_bucket i s = retK b s'" "heap_inv B' O'' s'" "b \<in> set (B' i)"
    "in_use B' = insert b (in_use B)" "O'' b = pieces (bucket_dir ! i) (bd_page (descs s' b))"
    "bd_refcnt (descs s' b) = 0" "b \<notin> in_use B" "\<And>c. c \<in> in_use B \<Longrightarrow> descs s' c = descs s c"
    "objects_of B' O'' s' = objects_of B O' s"
    "\<And>a. owned (km s) (page_of a) \<Longrightarrow> mem (km s') a = mem (km s) a"
proof -
  note result = that
  have filled: thesis
    if inv1: "heap_inv B1 O' s1" and B1: "B1 9 = b # bs" "\<And>k. k < 9 \<Longrightarrow> B1 k = B k" and fr1: "free_frames (km s1) \<noteq> {}"
      and r1: "new_bucket i s = new_bucket i s1" and d1: "\<And>c. c \<in> in_use B \<Longrightarrow> descs s1 c = descs s c"
      and m1: "\<And>a. owned (km s) (page_of a) \<Longrightarrow> owned (km s1) (page_of a) \<and> mem (km s1) a = mem (km s) a" for B1 s1 b bs
  proof -
    obtain s' p where f: "new_bucket i s1 = retK b s'"
      "heap_inv (B1(9 := bs, i := b # B1 i)) (O'(b := pieces (bucket_dir ! i) p)) s'"
      "bd_page (descs s' b) = p" "bd_refcnt (descs s' b) = 0" "b \<notin> in_use B1"
      "\<And>c. c \<noteq> b \<Longrightarrow> descs s' c = descs s1 c"
      "\<And>a. owned (km s1) (page_of a) \<Longrightarrow> mem (km s') a = mem (km s1) a"
      by (rule fill_bucket_ok[OF inv1 i B1(1) fr1], rule that)
    have U: "in_use B1 = in_use B" using B1(2) by (auto simp: in_use_def)
    have e: "descs s' c = descs s1 c" if "c \<in> in_use B1" for c
      using f(5,6) that by metis
    have d: "descs s' c = descs s c" if "c \<in> in_use B" for c
      using d1[OF that] e[of c] that U by simp
    show thesis
    proof (rule result[of b s' "B1(9 := bs, i := b # B1 i)" "O'(b := pieces (bucket_dir ! i) p)"])
      show "in_use (B1(9 := bs, i := b # B1 i)) = insert b (in_use B)"
        using in_use_push[OF i, of "B1(9 := bs)" b] i U by (simp add: in_use_upd)
      show "objects_of (B1(9 := bs, i := b # B1 i)) (O'(b := pieces (bucket_dir ! i) p)) s' = objects_of B O' s"
      proof -
        have "objects_of (B1(9 := bs, i := b # B1 i)) (O'(b := pieces (bucket_dir ! i) p)) s' = objects_of B1 O' s1"
          by (rule objects_of_fill[OF inv1 i f(5)]) (use f(3) e in simp_all)
        also have "\<dots> = objects_of B O' s"
          by (rule objects_of_cong) (use B1(2) d1 in \<open>auto simp: in_use_def\<close>)
        finally show ?thesis .
      qed
    qed (use f r1 d U m1 i in auto)
  qed
  show thesis
  proof (cases "B 9")
    case Nil
    obtain j s1 where g: "init_bucket_desc s = retK () s1" "km s1 = take_frame j (km s)" "j \<in> free_frames (km s)"
      "heap_inv (B(9 := pieces 16 (frame_addr j))) O' s1" "\<And>b. b \<in> in_use B \<Longrightarrow> descs s1 b = descs s b"
      "chain s1 = chain s" "free_bucket_desc s1 = frame_addr j"
      using init_bucket_desc_ok[OF inv Nil] fr by (metis card.empty not_numeral_le_zero)
    have z: "free_bucket_desc s = 0" "frame_addr j \<noteq> 0"
      using chainsD(1)[OF heap_invD(1)[OF inv], of 9] Nil g(3) by (simp_all add: head_def free_frames_def)
    have p: "pieces 16 (frame_addr j) = frame_addr j # map (piece 16 (frame_addr j + 16)) [0..<255]"
      using pieces_shift[of 16 "frame_addr j" 254] unfolding pieces_16 by (simp del: upt_Suc)
    show thesis
    proof (rule filled[OF g(4)])
      show "(B(9 := pieces 16 (frame_addr j))) 9 = frame_addr j # map (piece 16 (frame_addr j + 16)) [0..<255]"
        using p by simp
      show "new_bucket i s = new_bucket i s1" using g(1,7) z by (simp add: new_bucket_def)
      show "free_frames (km s1) \<noteq> {}" using card_free_frames[OF fr g(3)] g(2) by simp
      show "owned (km s1) (page_of a) \<and> mem (km s1) a = mem (km s) a" if "owned (km s) (page_of a)" for a
        using take_frame_owned[of j "km s"] g(2,3) that by (auto simp: free_frames_def)
    qed (use g(5) in simp_all)
  next
    case (Cons b bs)
    show thesis by (rule filled[OF inv Cons]) (use fr in auto)
  qed
qed

subsection \<open>Taking an object\<close>

lemma find_room_path:
  "path (nexts s) p bs \<Longrightarrow>
   \<exists>b. find_room s p = Some b \<and> (b = 0 \<or> b \<in> set bs \<and> bd_freeptr (descs s b) \<noteq> 0)"
proof (induction bs arbitrary: p)
  case Nil
  then show ?case by (simp add: find_room.simps)
next
  case (Cons b bs)
  then show ?case
    by (cases "bd_freeptr (descs s b) = 0") (auto simp: find_room.simps[of s b] nexts_def)
qed

text \<open>A step that changes one bucket's free list, its first pointer and its count.\<close>

lemma heap_inv_upd:
  assumes inv: "heap_inv B O' s" and i: "i < 9" and b: "b \<in> set (B i)"
    and d: "descs s' = (descs s)(b := (descs s b)\<lparr>bd_freeptr := p, bd_refcnt := n\<rparr>)"
    and s': "chain s' = chain s" "free_bucket_desc s' = free_bucket_desc s" "mem_map (km s') = mem_map (km s)"
      "high_memory (km s') = high_memory (km s)"
    and ok: "path (mem (km s')) p fl" "distinct fl" "set fl \<subseteq> set (pieces (bucket_dir ! i) (bd_page (descs s b)))"
      "unat n + length fl = 4096 div (bucket_dir ! i)"
    and m: "\<And>a. page_of a \<noteq> bd_page (descs s b) \<Longrightarrow> mem (km s') a = mem (km s) a"
  shows "heap_inv B (O'(b := fl)) s'"
proof -
  note I = heap_invD[OF inv]
  have own: "owned (km s') q = owned (km s) q" "no_high (km s') = no_high (km s)" for q
    using owned_cong s' by blast+
  have U: "b \<in> in_use B" using i b by (auto simp: in_use_def)
  have page: "bd_page (descs s' c) = bd_page (descs s c)" for c using d by simp
  have "nexts s' = nexts s" "head s' = head s" using d s' by (auto simp: nexts_def head_def fun_eq_iff)
  moreover have "bucket_ok s' (bucket_dir ! k) c ((O'(b := fl)) c)" if k: "k < 9" "c \<in> set (B k)" for k c
  proof (cases "c = b")
    case True
    then have "k = i" using chainsD(4)[OF I(1), of i k] i b k by auto
    then show ?thesis using True bucket_okD(1)[OF I(2)[OF i b]] ok own d by (simp add: bucket_ok_def)
  next
    case False
    note bk = bucket_okD[OF I(2)[OF k]]
    have cU: "c \<in> in_use B" using k by (auto simp: in_use_def)
    have "bucket_ok s' (bucket_dir ! k) c (O' c)"
    proof (rule bucket_ok_cong[OF I(2)[OF k]])
      show "mem (km s') a = mem (km s) a" if "a \<in> set (O' c)" for a
      proof (rule m)
        have "page_of a = bd_page (descs s c)" using bk(4) that pieces_page[OF bk(6) is_size_dir[OF k(1)]] by auto
        then show "page_of a \<noteq> bd_page (descs s b)" using inj_onD[OF I(3) _ cU U] False by auto
      qed
    qed (use d False own bk in auto)
    then show ?thesis using False by simp
  qed
  moreover have "pages_ok s' (in_use B) (in_use B \<union> set (B 9))"
    using inv by (simp add: heap_inv_def pages_ok_def page own)
  ultimately show ?thesis using I(1,6) by (simp add: heap_inv_def own)
qed

lemma UN_insert_one:
  assumes "x0 \<in> I" "\<And>x. x \<in> I \<Longrightarrow> x \<noteq> x0 \<Longrightarrow> g' x = g x" "g' x0 = insert y (g x0)"
  shows "(\<Union>x\<in>I. g' x) = insert y (\<Union>x\<in>I. g x)"
proof -
  obtain J where J: "I = insert x0 J" "x0 \<notin> J" using assms(1) by (meson Set.set_insert)
  have "(\<Union>x\<in>J. g' x) = (\<Union>x\<in>J. g x)" by (rule SUP_cong) (use assms(2) J in auto)
  then show ?thesis using assms(3) by (simp add: J)
qed

lemma UN_remove_one:
  assumes "x0 \<in> I" "\<And>x. x \<in> I \<Longrightarrow> x \<noteq> x0 \<Longrightarrow> g' x = g x \<and> y \<notin> g x" "g' x0 = g x0 - {y}"
  shows "(\<Union>x\<in>I. g' x) = (\<Union>x\<in>I. g x) - {y}"
proof -
  obtain J where J: "I = insert x0 J" "x0 \<notin> J" using assms(1) by (meson Set.set_insert)
  have "(\<Union>x\<in>J. g' x) = (\<Union>x\<in>J. g x)" by (rule SUP_cong) (use assms(2) J in auto)
  moreover have "y \<notin> (\<Union>x\<in>J. g x)" using assms(2) J by auto
  ultimately show ?thesis using assms(3) by (auto simp: J)
qed

definition the_buckets :: "(nat \<Rightarrow> u32 list) \<Rightarrow> (nat \<times> u32) set" where
  "the_buckets B = {(i, b). i < 9 \<and> b \<in> set (B i)}"

lemma objects_of_buckets:
  "objects_of B O' s = (\<Union>x\<in>the_buckets B.
     (set (pieces (bucket_dir ! fst x) (bd_page (descs s (snd x)))) - set (O' (snd x))) \<times> {bucket_dir ! fst x})"
  unfolding objects_of_def the_buckets_def by (fastforce simp: split_beta)

lemma the_bucketsD:
  assumes "heap_inv B O' s" "i < 9" "b \<in> set (B i)" "x \<in> the_buckets B" "x \<noteq> (i, b)"
  shows "snd x \<noteq> b" "snd x \<in> in_use B" "bd_page (descs s (snd x)) \<noteq> bd_page (descs s b)"
proof -
  obtain k c where x: "x = (k, c)" "k < 9" "c \<in> set (B k)" using assms(4) by (auto simp: the_buckets_def)
  show ne: "snd x \<noteq> b" using chainsD(4)[OF heap_invD(1)[OF assms(1)], of i k] assms x by auto
  show "snd x \<in> in_use B" using x by (auto simp: in_use_def)
  moreover have "b \<in> in_use B" using assms by (auto simp: in_use_def)
  ultimately show "bd_page (descs s (snd x)) \<noteq> bd_page (descs s b)"
    using inj_onD[OF heap_invD(3)[OF assms(1)]] ne by blast
qed

lemma objects_ofE:
  assumes "heap_inv B O' s" "(a, z) \<in> objects_of B O' s"
  obtains i b where "i < 9" "b \<in> set (B i)" "z = bucket_dir ! i" "a \<in> set (pieces z (bd_page (descs s b)))" "a \<notin> set (O' b)"
    "page_of a = bd_page (descs s b)" "bucket_ok s z b (O' b)"
proof -
  obtain i b where ib: "i < 9" "b \<in> set (B i)" "z = bucket_dir ! i" "a \<in> set (pieces z (bd_page (descs s b)))" "a \<notin> set (O' b)"
    using assms(2) by (auto simp: objects_of_def)
  then have "bucket_ok s z b (O' b)" using heap_invD(2)[OF assms(1)] by simp
  then show ?thesis using that ib pieces_page[OF bucket_okD(6), of s z b "O' b" z a] by simp
qed

lemma free_not_object:
  assumes inv: "heap_inv B O' s" and i: "i < 9" and b: "b \<in> set (B i)" and p: "p \<in> set (O' b)"
  shows "(p, z) \<notin> objects_of B O' s"
proof
  assume "(p, z) \<in> objects_of B O' s"
  then obtain k c where c: "k < 9" "c \<in> set (B k)" "p \<notin> set (O' c)" "page_of p = bd_page (descs s c)"
    by (rule objects_ofE[OF inv]) (rule that)
  note bk = bucket_okD[OF heap_invD(2)[OF inv i b]]
  have "page_of p = bd_page (descs s b)" using pieces_page[OF bk(6) is_size_dir[OF i]] bk(4) p by auto
  then have "c = b" using inj_onD[OF heap_invD(3)[OF inv], of c b] c i b by (auto simp: in_use_def)
  then show False using c p by simp
qed

lemma take_object_ok:
  assumes inv: "heap_inv B O' s" and i: "i < 9" and b: "b \<in> set (B i)" and ne: "bd_freeptr (descs s b) \<noteq> 0"
  obtains p s' fl where "take_object b s = retK p s'" "O' b = p # fl" "heap_inv B (O'(b := fl)) s'"
    "objects_of B (O'(b := fl)) s' = insert (p, bucket_dir ! i) (objects_of B O' s)"
    "bd_refcnt (descs s' b) \<noteq> 0" "\<And>c. c \<noteq> b \<Longrightarrow> descs s' c = descs s c" "km s' = km s"
    "(p, bucket_dir ! i) \<notin> objects_of B O' s"
proof -
  let ?d = "descs s b"
  note bk = bucket_okD[OF heap_invD(2)[OF inv i b]]
  obtain fl where fl: "O' b = bd_freeptr ?d # fl" "path (mem (km s)) (mem (km s) (bd_freeptr ?d)) fl"
    using path_neq_0[OF bk(2) ne] by blast
  define s' where "s' = upd_desc b (\<lambda>d. d\<lparr>bd_freeptr := mem (km s) (bd_freeptr ?d), bd_refcnt := bd_refcnt d + 1\<rparr>) s"
  have "length (O' b) = Suc (length fl)" using fl(1) by simp
  then have "unat (bd_refcnt ?d) < 4096" using bk(5) div_le_dividend[of 4096 "bucket_dir ! i"] by linarith
  then have r: "unat (bd_refcnt ?d + 1) = unat (bd_refcnt ?d) + 1"
    by (simp add: unat_word_ariths)
  have p: "bd_freeptr ?d \<in> set (pieces (bucket_dir ! i) (bd_page ?d))" "bd_freeptr ?d \<notin> set fl"
    using bk(3,4) fl(1) by auto
  have inv': "heap_inv B (O'(b := fl)) s'"
    by (rule heap_inv_upd[OF inv i b, where p = "mem (km s) (bd_freeptr ?d)" and n = "bd_refcnt ?d + 1"])
      (use bk fl r in \<open>auto simp: s'_def upd_desc_def\<close>)
  have page: "bd_page (descs s' c) = bd_page (descs s c)" for c by (simp add: s'_def upd_desc_def)
  have "objects_of B (O'(b := fl)) s' = insert (bd_freeptr ?d, bucket_dir ! i) (objects_of B O' s)"
    unfolding objects_of_buckets page
  proof (rule UN_insert_one[of "(i, b)"])
    show "(i, b) \<in> the_buckets B" using i b by (simp add: the_buckets_def)
  qed (use the_bucketsD(1)[OF inv i b] fl(1) p in auto)
  moreover have "bd_refcnt (descs s' b) \<noteq> 0" using r by (auto simp: s'_def upd_desc_def)
  moreover have "(bd_freeptr ?d, bucket_dir ! i) \<notin> objects_of B O' s"
    by (rule free_not_object[OF inv i b]) (simp add: fl(1))
  ultimately show ?thesis using that[of "bd_freeptr ?d" s' fl] inv' fl(1)
    by (simp add: take_object_def s'_def upd_desc_def Let_def)
qed

lemma bucket_index_Some:
  assumes "unat len \<le> 4096"
  obtains i where "bucket_index len = Some i" "i < 9" "unat len \<le> bucket_dir ! i"
proof -
  have "bucket_index len \<noteq> None"
    unfolding bucket_index_def find_None_upt
    using assms by (auto intro!: exI[of _ 8] simp: bucket_dir_def)
  then obtain i where i: "bucket_index len = Some i" by auto
  with find_upt_least[of "\<lambda>i. unat len \<le> bucket_dir ! i" 0 9 i] that show ?thesis
    by (simp add: bucket_index_def)
qed

lemma malloc_ok:
  assumes inv: "heap_inv B O' s" and ne: "no_empty B s" and len: "unat len \<le> 4096"
    and fr: "2 \<le> card (free_frames (km s))"
  shows "\<exists>p s' z B' O''. malloc len s = Some (retK p s') \<and> unat len \<le> z \<and> heap_inv B' O'' s' \<and> no_empty B' s' \<and>
    objects_of B' O'' s' = insert (p, z) (objects_of B O' s) \<and> (p, z) \<notin> objects_of B O' s \<and>
    (\<forall>a. owned (km s) (page_of a) \<longrightarrow> mem (km s') a = mem (km s) a)"
proof -
  obtain i where i: "bucket_index len = Some i" "i < 9" "unat len \<le> bucket_dir ! i"
    using bucket_index_Some[OF len] .
  note I = heap_invD[OF inv]
  have "path (nexts s) (chain s i) (B i)" using chainsD(1)[OF I(1), of i] i(2) by (simp add: head_def)
  from find_room_path[OF this] obtain b where b: "find_room s (chain s i) = Some b"
    "b = 0 \<or> b \<in> set (B i) \<and> bd_freeptr (descs s b) \<noteq> 0" by blast
  show ?thesis
  proof (cases "b = 0")
    case False
    then have bB: "b \<in> set (B i)" and nz: "bd_freeptr (descs s b) \<noteq> 0" using b(2) by auto
    obtain p s' fl where t: "take_object b s = retK p s'" "O' b = p # fl" "heap_inv B (O'(b := fl)) s'"
      "objects_of B (O'(b := fl)) s' = insert (p, bucket_dir ! i) (objects_of B O' s)"
      "bd_refcnt (descs s' b) \<noteq> 0" "\<And>c. c \<noteq> b \<Longrightarrow> descs s' c = descs s c" "km s' = km s" "(p, bucket_dir ! i) \<notin> objects_of B O' s"
      by (rule take_object_ok[OF inv i(2) bB nz], rule that)
    have "malloc len s = Some (retK p s')" by (simp add: malloc_def i(1) b(1) False t(1))
    moreover have "no_empty B s'" using ne t(5,6) unfolding no_empty_def by metis
    ultimately show ?thesis using t(3,4,7,8) i(3) by (intro exI[of _ p] exI[of _ s'] exI[of _ "bucket_dir ! i"]) auto
  next
    case True
    obtain b1 s1 B1 O1 where n: "new_bucket i s = retK b1 s1" "heap_inv B1 O1 s1" "b1 \<in> set (B1 i)"
      "in_use B1 = insert b1 (in_use B)" "O1 b1 = pieces (bucket_dir ! i) (bd_page (descs s1 b1))"
      "bd_refcnt (descs s1 b1) = 0" "b1 \<notin> in_use B" "\<And>c. c \<in> in_use B \<Longrightarrow> descs s1 c = descs s c"
      "objects_of B1 O1 s1 = objects_of B O' s"
      "\<And>a. owned (km s) (page_of a) \<Longrightarrow> mem (km s1) a = mem (km s) a"
      by (rule new_bucket_ok[OF inv i(2) fr], rule that)
    note bk = bucket_okD[OF heap_invD(2)[OF n(2) i(2) n(3)]]
    have nz: "bd_freeptr (descs s1 b1) \<noteq> 0"
      using bk(2) n(5) by (auto simp: pieces_Cons[OF is_size_dir[OF i(2)]] simp del: upt_Suc)
    obtain p s' fl where t: "take_object b1 s1 = retK p s'" "O1 b1 = p # fl" "heap_inv B1 (O1(b1 := fl)) s'"
      "objects_of B1 (O1(b1 := fl)) s' = insert (p, bucket_dir ! i) (objects_of B1 O1 s1)"
      "bd_refcnt (descs s' b1) \<noteq> 0" "\<And>c. c \<noteq> b1 \<Longrightarrow> descs s' c = descs s1 c" "km s' = km s1" "(p, bucket_dir ! i) \<notin> objects_of B1 O1 s1"
      by (rule take_object_ok[OF n(2) i(2) n(3) nz], rule that)
    have "malloc len s = Some (retK p s')" using True n(1) t(1) by (simp add: malloc_def i(1) b(1))
    moreover have "no_empty B1 s'" unfolding no_empty_def n(4)
    proof
      fix c assume c: "c \<in> insert b1 (in_use B)"
      show "bd_refcnt (descs s' c) \<noteq> 0"
      proof (cases "c = b1")
        case False
        then have "c \<in> in_use B" using c by simp
        then show ?thesis using ne t(6)[OF False] n(8)[of c] by (simp add: no_empty_def)
      qed (use t(5) in simp)
    qed
    ultimately show ?thesis using t(3,4,7,8) n(9,10) i(3)
      by (intro exI[of _ p] exI[of _ s'] exI[of _ "bucket_dir ! i"] exI[of _ B1] exI[of _ "O1(b1 := fl)"]) simp
  qed
qed

subsection \<open>Giving an object back\<close>

lemma find_page_path:
  "path (nexts s) p (xs @ ys) \<Longrightarrow> (\<And>b. b \<in> set xs \<Longrightarrow> bd_page (descs s b) \<noteq> page) \<Longrightarrow>
   ys = [] \<or> bd_page (descs s (hd ys)) = page \<Longrightarrow>
   find_page s page prev p = Some (if ys = [] then None else Some (last (prev # xs), hd ys))"
proof (induction xs arbitrary: p prev)
  case Nil
  then show ?case by (cases ys) (auto simp: find_page.simps)
next
  case (Cons x xs)
  then have "path (nexts s) (nexts s x) (xs @ ys)" "p = x" "x \<noteq> 0" "bd_page (descs s x) \<noteq> page" by auto
  with Cons.IH[of "nexts s x" x] Cons.prems show ?case
    by (subst find_page.simps) (auto simp: nexts_def)
qed

lemma search_dir_finds:
  assumes "i \<in> set is" "distinct is" "int sz \<le> int (bucket_dir ! i)"
    and "\<And>j. j \<in> set is \<Longrightarrow> j \<noteq> i \<Longrightarrow> find_page s page 0 (chain s j) = Some None"
    and "find_page s page 0 (chain s i) = Some (Some (prev, b))"
  shows "search_dir is (int sz) page s = Some (Some (i, prev, b))"
  using assms
proof (induction "is")
  case (Cons k ks)
  show ?case
  proof (cases "k = i")
    case True
    then show ?thesis using Cons.prems by simp
  next
    case False
    then show ?thesis using Cons Cons.prems(4)[of k] by auto
  qed
qed simp

lemma give_object_ok:
  assumes inv: "heap_inv B O' s" and i: "i < 9" and b: "b \<in> set (B i)" and nz: "bd_refcnt (descs s b) \<noteq> 0"
    and a: "a \<in> set (pieces (bucket_dir ! i) (bd_page (descs s b)))" "a \<notin> set (O' b)"
  shows "heap_inv B (O'(b := a # O' b)) (give_object a b s)"
    "objects_of B (O'(b := a # O' b)) (give_object a b s) = objects_of B O' s - {(a, bucket_dir ! i)}"
    "\<And>c. bd_page (descs (give_object a b s) c) = bd_page (descs s c)"
    "nexts (give_object a b s) = nexts s" "chain (give_object a b s) = chain s"
    "free_bucket_desc (give_object a b s) = free_bucket_desc s"
    "\<And>c. c \<noteq> b \<Longrightarrow> descs (give_object a b s) c = descs s c"
    "\<And>x. x \<noteq> a \<Longrightarrow> mem (km (give_object a b s)) x = mem (km s) x"
proof -
  let ?d = "descs s b" and ?s = "give_object a b s"
  note bk = bucket_okD[OF heap_invD(2)[OF inv i b]]
  have pa: "page_of a = bd_page ?d" using pieces_page[OF bk(6) is_size_dir[OF i] a(1)] .
  have a0: "a \<noteq> 0" using pieces_nonzero[OF bk(6) is_size_dir[OF i]] a(1) by auto
  show page: "\<And>c. bd_page (descs ?s c) = bd_page (descs s c)"
    and "nexts ?s = nexts s" "chain ?s = chain s" "free_bucket_desc ?s = free_bucket_desc s"
    and "\<And>c. c \<noteq> b \<Longrightarrow> descs ?s c = descs s c" "\<And>x. x \<noteq> a \<Longrightarrow> mem (km ?s) x = mem (km s) x"
    by (auto simp: give_object_def upd_desc_def poke_def nexts_def fun_eq_iff)
  have r: "unat (bd_refcnt ?d - 1) = unat (bd_refcnt ?d) - 1" "0 < unat (bd_refcnt ?d)"
    using nz by (simp_all add: unat_minus_one word_greater_zero_iff unat_gt_0)
  show "heap_inv B (O'(b := a # O' b)) ?s"
  proof (rule heap_inv_upd[OF inv i b, where p = a and n = "bd_refcnt ?d - 1"])
    show "path (mem (km ?s)) a (a # O' b)"
      using bk(2) a(2) a0 by (simp add: give_object_def upd_desc_def poke_def fun_upd_def[symmetric] del: fun_upd_apply)
        (simp add: fun_upd_same)
    show "unat (bd_refcnt ?d - 1) + length (a # O' b) = 4096 div bucket_dir ! i" using bk(5) r by simp
  qed (use bk a pa in \<open>auto simp: give_object_def upd_desc_def poke_def\<close>)
  show "objects_of B (O'(b := a # O' b)) ?s = objects_of B O' s - {(a, bucket_dir ! i)}"
    unfolding objects_of_buckets page
  proof (rule UN_remove_one[of "(i, b)"])
    show "(i, b) \<in> the_buckets B" using i b by (simp add: the_buckets_def)
    fix x assume x: "x \<in> the_buckets B" "x \<noteq> (i, b)"
    obtain k c where kc: "x = (k, c)" "k < 9" "c \<in> set (B k)" using x(1) by (auto simp: the_buckets_def)
    have "page_of a \<noteq> bd_page (descs s c)" using the_bucketsD(3)[OF inv i b x] pa kc by simp
    then have "a \<notin> set (pieces (bucket_dir ! k) (bd_page (descs s c)))"
      using pieces_page[OF bucket_okD(6)[OF heap_invD(2)[OF inv kc(2,3)]] is_size_dir[OF kc(2)]] by auto
    then show "(set (pieces (bucket_dir ! fst x) (bd_page (descs s (snd x)))) - set ((O'(b := a # O' b)) (snd x))) \<times> {bucket_dir ! fst x} =
        (set (pieces (bucket_dir ! fst x) (bd_page (descs s (snd x)))) - set (O' (snd x))) \<times> {bucket_dir ! fst x} \<and>
        (a, bucket_dir ! i) \<notin> (set (pieces (bucket_dir ! fst x) (bd_page (descs s (snd x)))) - set (O' (snd x))) \<times> {bucket_dir ! fst x}"
      using the_bucketsD(1)[OF inv i b x] kc by simp
  qed auto
qed

lemma free_owned_page:
  assumes "owned m p"
  obtains j where "j < PAGING_PAGES" "p = frame_addr j" "frame_addr j < high_memory m" "free_page p m = retK () (m\<lparr>mem_map := (mem_map m)(j := 0)\<rparr>)"
proof -
  obtain j where j: "j < PAGING_PAGES" "p = frame_addr j" "mem_map m j = 1" "frame_addr j < high_memory m"
    using assms by (auto simp: owned_def)
  then have "\<not> frame_addr j < LOW_MEM" "\<not> high_memory m \<le> frame_addr j" using frame_addr_ge[OF j(1)] by auto
  then have "free_page p m = retK () (m\<lparr>mem_map := (mem_map m)(j := 0)\<rparr>)"
    using j by (simp add: free_page_def Let_def)
  with j that show ?thesis by blast
qed

lemma path_next: "path nx p (xs @ q # b # ys) \<Longrightarrow> q \<noteq> 0 \<and> nx q = b"
  by (induction xs arbitrary: p) auto

text \<open>The descriptor of an empty bucket leaves its chain, and is put with the unused ones.\<close>

lemma chains_move:
  assumes c: "chains nx h B" and i: "i < 9" and B: "B i = xs @ b # ys"
    and nx': "nx' = (if xs = [] then nx else nx(last xs := nx b))(b := h 9)"
    and h': "h' = (if xs = [] then h(i := nx b) else h)(9 := b)"
  shows "chains nx' h' (B(i := xs @ ys, 9 := b # B 9))"
proof -
  have b: "b \<noteq> 0" "\<And>j. j \<le> 9 \<Longrightarrow> j \<noteq> i \<Longrightarrow> b \<notin> set (B j)" "b \<notin> set (xs @ ys)"
    using chainsD(2,3)[OF c, of i] chainsD(4)[OF c, of i] i B by auto
  have fresh: "b \<notin> set ((B(i := xs @ ys)) j)" if "j \<le> 9" for j using b that by simp
  define nx1 where "nx1 = (if xs = [] then nx else nx(last xs := nx b))"
  define h1 where "h1 = (if xs = [] then h(i := nx b) else h)"
  have 1: "chains nx1 h1 (B(i := xs @ ys))"
  proof (cases xs rule: rev_cases)
    case Nil
    then show ?thesis using chains_pop(1)[OF c, of i b ys] i B by (simp add: nx1_def h1_def)
  next
    case (snoc xs' q)
    then show ?thesis using chains_remove[OF c, of i xs' q b ys] i B by (simp add: nx1_def h1_def)
  qed
  have "chains (nx1(b := h1 9)) (h1(9 := b)) ((B(i := xs @ ys))(9 := b # (B(i := xs @ ys)) 9))"
    by (rule chains_push[OF 1 order_refl b(1) fresh])
  moreover have "nx1(b := h1 9) = nx'" "h1(9 := b) = h'" using i by (simp_all add: nx' h' nx1_def h1_def)
  ultimately show ?thesis using i by simp
qed

text \<open>What giving up the bucket of \<open>b\<close> does outside the chain it was on.\<close>

definition gives_up :: "u32 \<Rightarrow> buckets \<Rightarrow> buckets \<Rightarrow> bool" where
  "gives_up b s s' \<longleftrightarrow>
     mem_map (km s') = (mem_map (km s))(MAP_NR (bd_page (descs s b)) := 0) \<and>
     free_bucket_desc s' = b \<and> bd_next (descs s' b) = free_bucket_desc s"

lemma release_frame:
  assumes inv: "heap_inv B O' s" and i: "i < 9" and B: "B i = xs @ b # ys"
    and prev: "prev = (if xs = [] then 0 else last xs)"
  obtains s' where "true_prev i prev b s = Some prev" "release_bucket i prev b s = retK () s'"
    "chains (nexts s') (head s') (B(i := xs @ ys, 9 := b # B 9))"
    "\<And>c. bd_page (descs s' c) = bd_page (descs s c) \<and> bd_freeptr (descs s' c) = bd_freeptr (descs s c) \<and>
       bd_refcnt (descs s' c) = bd_refcnt (descs s c)"
    "mem (km s') = mem (km s)" "\<And>q. owned (km s) q \<Longrightarrow> q \<noteq> bd_page (descs s b) \<Longrightarrow> owned (km s') q" "no_high (km s')"
    "gives_up b s s'"
proof -
  note I = heap_invD[OF inv]
  have bB: "b \<in> set (B i)" using B by simp
  have own: "owned (km s) (bd_page (descs s b))" by (rule bucket_okD(1)[OF I(2)[OF i bB]])
  obtain j where j: "j < PAGING_PAGES" "bd_page (descs s b) = frame_addr j" "frame_addr j < high_memory (km s)"
    "free_page (bd_page (descs s b)) (km s) = retK () ((km s)\<lparr>mem_map := (mem_map (km s))(j := 0)\<rparr>)"
    by (rule free_owned_page[OF own], rule that)
  have pth: "path (nexts s) (chain s i) (xs @ b # ys)" using chainsD(1)[OF I(1), of i] i B by (simp add: head_def)
  have pr: "if xs = [] then prev = 0 \<and> chain s i = b else prev \<noteq> 0 \<and> nexts s prev = b \<and> prev = last xs"
  proof (cases xs rule: rev_cases)
    case (snoc xs' q)
    then show ?thesis using pth path_next[of "nexts s" "chain s i" xs' q b ys] prev by simp
  qed (use pth prev in auto)
  define d where "d = (if xs = [] then descs s else (descs s)(prev := (descs s prev)\<lparr>bd_next := nexts s b\<rparr>))"
  define h where "h = (if xs = [] then (chain s)(i := nexts s b) else chain s)"
  define s' where "s' = s\<lparr>km := (km s)\<lparr>mem_map := (mem_map (km s))(j := 0)\<rparr>, chain := h,
    descs := d(b := (d b)\<lparr>bd_next := free_bucket_desc s\<rparr>), free_bucket_desc := b\<rparr>"
  have "bd_page (d b) = bd_page (descs s b)" by (simp add: d_def)
  then have "release_bucket i prev b s = retK () s'"
    using pr j(4) by (simp add: release_bucket_def unlink_bucket_def Let_def in_mm_def upd_desc_def retK_def s'_def d_def
        h_def nexts_def split: if_splits)
  moreover have "true_prev i prev b s = Some prev" using pr by (auto simp: true_prev_def nexts_def split: if_splits)
  moreover have "chains (nexts s') (head s') (B(i := xs @ ys, 9 := b # B 9))"
    by (rule chains_move[OF I(1) i B]) (use i pr in \<open>auto simp: s'_def d_def h_def nexts_def head_def fun_eq_iff\<close>)
  moreover have "bd_page (descs s' c) = bd_page (descs s c) \<and> bd_freeptr (descs s' c) = bd_freeptr (descs s c) \<and>
       bd_refcnt (descs s' c) = bd_refcnt (descs s c)" for c
    by (simp add: s'_def d_def)
  moreover have "owned (km s') q" if "owned (km s) q" "q \<noteq> bd_page (descs s b)" for q
    using that j(1,2) by (auto simp: owned_def s'_def)
  moreover have "no_high (km s')" using I(6) j(3) by (auto simp: no_high_def s'_def)
  moreover have "mem (km s') = mem (km s)" by (simp add: s'_def)
  moreover have "gives_up b s s'" using j(1,2) by (simp add: gives_up_def s'_def MAP_NR_frame_addr)
  ultimately show ?thesis using that by blast
qed

lemma release_bucket_ok:
  assumes inv: "heap_inv B O' s" and i: "i < 9" and B: "B i = xs @ b # ys"
    and prev: "prev = (if xs = [] then 0 else last xs)" and full: "set (pieces (bucket_dir ! i) (bd_page (descs s b))) \<subseteq> set (O' b)"
  obtains s' B' where "true_prev i prev b s = Some prev" "release_bucket i prev b s = retK () s'" "heap_inv B' O' s'"
    "objects_of B' O' s' = objects_of B O' s" "in_use B' = in_use B - {b}"
    "\<And>c. bd_refcnt (descs s' c) = bd_refcnt (descs s c)" "mem (km s') = mem (km s)"
    "\<And>c. bd_page (descs s' c) = bd_page (descs s c)" "gives_up b s s'"
proof -
  note I = heap_invD[OF inv]
  have bB: "b \<in> set (B i)" using B by simp
  obtain s' where r: "true_prev i prev b s = Some prev" "release_bucket i prev b s = retK () s'"
    "chains (nexts s') (head s') (B(i := xs @ ys, 9 := b # B 9))"
    "\<And>c. bd_page (descs s' c) = bd_page (descs s c) \<and> bd_freeptr (descs s' c) = bd_freeptr (descs s c) \<and>
       bd_refcnt (descs s' c) = bd_refcnt (descs s c)"
    "mem (km s') = mem (km s)" "\<And>q. owned (km s) q \<Longrightarrow> q \<noteq> bd_page (descs s b) \<Longrightarrow> owned (km s') q" "no_high (km s')"
    "gives_up b s s'"
    by (rule release_frame[OF inv i B prev], rule that)
  let ?B = "B(i := xs @ ys, 9 := b # B 9)"
  have bn: "b \<notin> set (xs @ ys)" "\<And>k. k < 9 \<Longrightarrow> k \<noteq> i \<Longrightarrow> b \<notin> set (B k)"
    using chainsD(2)[OF I(1), of i] chainsD(4)[OF I(1), of i] i B by auto
  have sub: "set (?B k) = set (B k) - {b}" if "k < 9" for k using that bn B by auto
  have U: "in_use ?B = in_use B - {b}" using sub by (auto simp: in_use_def)
  have bU: "b \<in> in_use B" using bB i by (auto simp: in_use_def)
  have pg: "bd_page (descs s c) \<noteq> bd_page (descs s b)" if "c \<in> in_use B" "c \<noteq> b" for c
    using inj_onD[OF I(3) _ that(1) bU] that(2) by blast
  have "bucket_ok s' (bucket_dir ! k) c (O' c)" if k: "k < 9" "c \<in> set (?B k)" for k c
  proof -
    have c: "c \<in> set (B k)" "c \<noteq> b" using sub[OF k(1)] k(2) by auto
    have "owned (km s') (bd_page (descs s c))"
      using r(6) bucket_okD(1)[OF I(2)[OF k(1) c(1)]] pg[of c] c k(1) by (auto simp: in_use_def)
    then show ?thesis using I(2)[OF k(1) c(1)] r(4,5) by (simp add: bucket_ok_def Let_def)
  qed
  moreover have "pages_ok s' (in_use ?B) (in_use ?B \<union> set (?B 9))"
  proof -
    have "inj_on (\<lambda>c. bd_page (descs s' c)) (in_use B - {b})"
      using inj_on_subset[OF I(3)] by (simp add: r(4))
    moreover have "owned (km s') (page_of c) \<and> page_of c \<notin> (\<lambda>c. bd_page (descs s' c)) ` (in_use B - {b})"
      if c: "c \<in> in_use B \<union> set (B 9)" for c
    proof -
      have "owned (km s) (page_of c)" "page_of c \<notin> (\<lambda>b. bd_page (descs s b)) ` in_use B" using desc_page[OF inv c] by auto
      then show ?thesis using r(4) r(6) bU by auto
    qed
    ultimately show ?thesis unfolding pages_ok_def U using bU by auto
  qed
  ultimately have "heap_inv ?B O' s'" using r(3,7) by (simp add: heap_inv_def)
  moreover have "objects_of ?B O' s' = objects_of B O' s"
  proof -
    have "(\<Union>c\<in>set (?B k). (set (pieces (bucket_dir ! k) (bd_page (descs s c))) - set (O' c)) \<times> {bucket_dir ! k}) =
        (\<Union>c\<in>set (B k). (set (pieces (bucket_dir ! k) (bd_page (descs s c))) - set (O' c)) \<times> {bucket_dir ! k})"
      if k: "k < 9" for k
    proof -
      have "k = i" if "b \<in> set (B k)" using bn(2)[OF k] that by blast
      then show ?thesis using full unfolding sub[OF k] by blast
    qed
    then show ?thesis unfolding objects_of_def using r(4) by (intro SUP_cong[OF refl]) simp
  qed
  ultimately show ?thesis using that r(1,2,4,5,8) U by blast
qed

text \<open>The page of an object is given back exactly if there is no other object in it.\<close>

definition given_back :: "u32 \<Rightarrow> (u32 \<times> nat) set \<Rightarrow> buckets \<Rightarrow> buckets \<Rightarrow> bool" where
  "given_back a A s s' \<longleftrightarrow>
     (if \<exists>(q, y)\<in>A. page_of q = page_of a
      then mem_map (km s') = mem_map (km s) \<and> free_bucket_desc s' = free_bucket_desc s
      else mem_map (km s') = (mem_map (km s))(MAP_NR (page_of a) := 0) \<and>
        bd_page (descs s (free_bucket_desc s')) = page_of a \<and>
        bd_next (descs s' (free_bucket_desc s')) = free_bucket_desc s)"

lemma free_ok:
  assumes inv: "heap_inv B O' s" and ne: "no_empty B s" and a: "(a, z) \<in> objects_of B O' s" and sz: "sz \<le> z"
  shows "\<exists>s' B' O''. free_s a (int sz) s = Some (retK () s') \<and> heap_inv B' O'' s' \<and> no_empty B' s' \<and>
    objects_of B' O'' s' = objects_of B O' s - {(a, z)} \<and> (\<forall>x. x \<noteq> a \<longrightarrow> mem (km s') x = mem (km s) x) \<and>
    given_back a (objects_of B O' s - {(a, z)}) s s'"
proof -
  note I = heap_invD[OF inv]
  obtain i b where b: "i < 9" "b \<in> set (B i)" "z = bucket_dir ! i" "a \<in> set (pieces z (bd_page (descs s b)))"
    "a \<notin> set (O' b)" "page_of a = bd_page (descs s b)"
    by (rule objects_ofE[OF inv a], rule that)
  have bU: "b \<in> in_use B" using b by (auto simp: in_use_def)
  obtain xs ys where B: "B i = xs @ b # ys" using b(2) by (meson split_list)
  let ?prev = "if xs = [] then 0 else last xs" and ?s1 = "give_object a b s" and ?O = "O'(b := a # O' b)"
  have other: "bd_page (descs s c) \<noteq> page_of a" if "k < 9" "c \<in> set (B k)" "c \<noteq> b" for k c
    using inj_onD[OF I(3) _ _ bU, of c] that b(6) by (auto simp: in_use_def)
  have "find_page s (page_of a) 0 (chain s i) = Some (Some (?prev, b))"
  proof -
    have "bd_page (descs s c) \<noteq> page_of a" if "c \<in> set xs" for c
      by (rule other[OF b(1)]) (use that B chainsD(2)[OF I(1), of i] b(1) in auto)
    then show ?thesis
      using find_page_path[of s "chain s i" xs "b # ys" "page_of a" 0] chainsD(1)[OF I(1), of i] B b(1,6)
      by (simp add: head_def)
  qed
  moreover have "find_page s (page_of a) 0 (chain s k) = Some None" if "k < 9" "k \<noteq> i" for k
  proof -
    have "b \<notin> set (B k)" using chainsD(4)[OF I(1), of i k] b(1,2) that by auto
    then show ?thesis
      using find_page_path[of s "chain s k" "B k" "[]" "page_of a" 0] chainsD(1)[OF I(1), of k] that other[of k]
      by (auto simp: head_def)
  qed
  ultimately have search: "search_dir [0..<9] (int sz) (page_of a) s = Some (Some (i, ?prev, b))"
    by (intro search_dir_finds) (use b(1,3) sz in auto)
  have nz: "bd_refcnt (descs s b) \<noteq> 0" using ne bU by (simp add: no_empty_def)
  note g = give_object_ok[OF inv b(1,2) nz b(4)[unfolded b(3)] b(5)]
  have ne1: "bd_refcnt (descs ?s1 c) \<noteq> 0" if "c \<in> in_use B" "c \<noteq> b" for c
    using ne g(7)[OF that(2)] that(1) by (simp add: no_empty_def)
  have g_map: "mem_map (km ?s1) = mem_map (km s)" by (simp add: give_object_def upd_desc_def poke_def)
  note bk = bucket_okD[OF heap_invD(2)[OF g(1) b(1,2)]]
  show ?thesis
  proof (cases "bd_refcnt (descs ?s1 b) = 0")
    case False
    have "\<exists>q. q \<in> set (pieces z (bd_page (descs s b))) \<and> q \<notin> set (?O b)"
    proof (rule ccontr)
      assume "\<not> ?thesis"
      then have "card (set (pieces z (bd_page (descs s b)))) \<le> card (set (?O b))" by (intro card_mono) auto
      moreover have "card (set (pieces z (bd_page (descs s b)))) = 4096 div z"
        using distinct_card[OF distinct_pieces[OF bk(6)[unfolded g(3)] is_size_dir[OF b(1)]]] b(3) by (simp add: pieces_def)
      moreover have "0 < unat (bd_refcnt (descs ?s1 b))" using False by (simp add: unat_gt_0)
      ultimately show False using bk(5)[folded b(3)] card_length[of "?O b"] by linarith
    qed
    then obtain q where q: "q \<in> set (pieces z (bd_page (descs s b)))" "q \<notin> set (?O b)" by blast
    have "(q, z) \<in> objects_of B ?O ?s1"
      using q b(1-3) unfolding objects_of_def g(3) by (intro UN_I[of i] UN_I[of b]) auto
    moreover have "page_of q = page_of a"
      using pieces_page[OF bk(6)[unfolded g(3)] is_size_dir[OF b(1)], of q] q(1) b(3,6) by simp
    ultimately have "\<exists>(q, y)\<in>objects_of B O' s - {(a, z)}. page_of q = page_of a" unfolding g(2) b(3) by blast
    then have "given_back a (objects_of B O' s - {(a, z)}) s ?s1" using g(6) g_map by (simp add: given_back_def)
    note gb = this
    have "free_s a (int sz) s = Some (retK () ?s1)" using False by (simp add: free_s_def search Let_def)
    moreover have "no_empty B ?s1" using False ne1 by (auto simp: no_empty_def)
    ultimately show ?thesis using g(1,2,8) b(3) gb by blast
  next
    case True
    have "card (set (?O b)) = length (?O b)" using bk(3) by (rule distinct_card)
    then have "card (set (pieces z (bd_page (descs s b)))) \<le> card (set (?O b))"
      using bk(5) True card_length[of "pieces z (bd_page (descs s b))"] b(3) by (simp add: pieces_def)
    then have "set (?O b) = set (pieces z (bd_page (descs s b)))"
      by (rule card_seteq[OF finite_set bk(4)[unfolded g(3) b(3)[symmetric]]])
    then have full: "set (pieces (bucket_dir ! i) (bd_page (descs ?s1 b))) \<subseteq> set (?O b)" by (simp add: g(3) b(3))
    obtain s' B' where r: "true_prev i ?prev b ?s1 = Some ?prev" "release_bucket i ?prev b ?s1 = retK () s'"
      "heap_inv B' ?O s'" "objects_of B' ?O s' = objects_of B ?O ?s1" "in_use B' = in_use B - {b}"
      "\<And>c. bd_refcnt (descs s' c) = bd_refcnt (descs ?s1 c)" "mem (km s') = mem (km ?s1)"
      "\<And>c. bd_page (descs s' c) = bd_page (descs ?s1 c)" "gives_up b ?s1 s'"
      by (rule release_bucket_ok[OF g(1) b(1) B refl full], rule that)
    have "free_s a (int sz) s = Some (retK () s')" using True r(1,2) by (simp add: free_s_def search Let_def)
    moreover have "no_empty B' s'" using ne1 r(5,6) by (auto simp: no_empty_def)
    moreover have "page_of q \<noteq> page_of a" if q: "(q, y) \<in> objects_of B O' s - {(a, z)}" for q y
    proof -
      have q': "(q, y) \<in> objects_of B' ?O s'" using q unfolding r(4) g(2) b(3) .
      obtain k c where c: "k < 9" "c \<in> set (B' k)" "page_of q = bd_page (descs s' c)"
        by (rule objects_ofE[OF r(3) q'], rule that)
      then have "c \<in> in_use B" "c \<noteq> b" using r(5) by (auto simp: in_use_def)
      then show ?thesis using inj_onD[OF I(3) _ _ bU, of c] c(3) b(6) r(8) g(3) by auto
    qed
    then have "given_back a (objects_of B O' s - {(a, z)}) s s'"
      using r(9) g(3,6) g_map b(6) by (auto simp: given_back_def gives_up_def)
    ultimately show ?thesis using r(3,4,7) g(2,8) b(3) by (intro exI[of _ s'] exI[of _ B'] exI[of _ ?O]) simp
  qed
qed

subsection \<open>The refinement\<close>

definition apart :: "u32 \<times> nat \<Rightarrow> u32 \<times> nat \<Rightarrow> bool" where
  "apart x y \<longleftrightarrow> unat (fst x) + snd x \<le> unat (fst y) \<or> unat (fst y) + snd y \<le> unat (fst x)"

lemma object_bytes:
  assumes inv: "heap_inv B O' s" and q: "(q, y) \<in> objects_of B O' s"
  obtains j k where "j < PAGING_PAGES" "owned (km s) (frame_addr j)" "unat q = 4096 * j + 0x100000 + k * y" "k * y + y \<le> 4096"
    "q = piece y (frame_addr j) k" "\<And>d. d < y \<Longrightarrow> page_of (q + of_nat d) = frame_addr j \<and> unat (q + of_nat d) = unat q + d"
proof -
  obtain i b where b: "i < 9" "y = bucket_dir ! i" "q \<in> set (pieces y (bd_page (descs s b)))" "bucket_ok s y b (O' b)"
    by (rule objects_ofE[OF inv q], rule that)
  have sz: "is_size y" using b(1,2) by simp
  obtain j where j: "j < PAGING_PAGES" "bd_page (descs s b) = frame_addr j"
    using bucket_okD(6)[OF b(4)] by (auto simp: is_frame_def)
  obtain k where k: "k < 4096 div y" "q = piece y (frame_addr j) k" using b(3) j(2) by (auto simp: pieces_def)
  have f: "is_frame (frame_addr j)" using j(1) by (auto simp: is_frame_def)
  have e: "q + of_nat d = frame_addr j + of_nat (k * y + d)" for d by (simp add: k(2) piece_def)
  have "page_of (q + of_nat d) = frame_addr j \<and> unat (q + of_nat d) = unat q + d" if "d < y" for d
    using page_of_add[OF f, of "k * y + d"] unat_frame_add[OF j(1), of "k * y + d"] piece_bound[OF sz k(1)] that
      unat_piece[OF j(1) sz k(1)] k(2) unfolding e by simp
  with that[of j k] show ?thesis
    using j bucket_okD(1)[OF b(4)] unat_piece[OF j(1) sz k(1)] piece_bound[OF sz k(1)] k(2) by simp
qed

lemma objects_apart:
  assumes inv: "heap_inv B O' s" and x: "(p, z) \<in> objects_of B O' s" and y: "(q, w) \<in> objects_of B O' s" and "(p, z) \<noteq> (q, w)"
  shows "apart (p, z) (q, w)"
proof -
  obtain i b where b: "i < 9" "b \<in> set (B i)" "z = bucket_dir ! i" "page_of p = bd_page (descs s b)"
    by (rule objects_ofE[OF inv x], rule that)
  obtain k c where c: "k < 9" "c \<in> set (B k)" "w = bucket_dir ! k" "page_of q = bd_page (descs s c)"
    by (rule objects_ofE[OF inv y], rule that)
  obtain j m where P: "j < PAGING_PAGES" "unat p = 4096 * j + 0x100000 + m * z" "m * z + z \<le> 4096" "p = piece z (frame_addr j) m"
    "\<And>d. d < z \<Longrightarrow> page_of (p + of_nat d) = frame_addr j \<and> unat (p + of_nat d) = unat p + d"
    by (rule object_bytes[OF inv x], rule that)
  obtain l n where Q: "l < PAGING_PAGES" "unat q = 4096 * l + 0x100000 + n * w" "n * w + w \<le> 4096" "q = piece w (frame_addr l) n"
    "\<And>d. d < w \<Longrightarrow> page_of (q + of_nat d) = frame_addr l \<and> unat (q + of_nat d) = unat q + d"
    by (rule object_bytes[OF inv y], rule that)
  consider "j < l" | "l < j" | "j = l" by linarith
  then show ?thesis
  proof cases
    case 3
    have "0 < z" "0 < w" using is_size_dir[OF b(1)] is_size_dir[OF c(1)] b(3) c(3) by (simp_all add: is_size_def)
    then have "bd_page (descs s b) = bd_page (descs s c)" using P(5)[of 0] Q(5)[of 0] 3 b(4) c(4) by simp
    then have "b = c" using inj_onD[OF heap_invD(3)[OF inv], of b c] b c by (auto simp: in_use_def)
    then have "i = k" using chainsD(4)[OF heap_invD(1)[OF inv], of i k] b c by auto
    then have "z = w" "m \<noteq> n" using b(3) c(3) P(4) Q(4) 3 assms(4) by auto
    then have "Suc m \<le> n \<or> Suc n \<le> m" by linarith
    then have "Suc m * z \<le> n * z \<or> Suc n * z \<le> m * z" using mult_le_mono1 by blast
    then show ?thesis using P(2) Q(2) \<open>z = w\<close> 3 by (auto simp: apart_def)
  qed (use P(2,3) Q(2,3) in \<open>auto simp: apart_def\<close>)
qed

text \<open>C2. \<^verbatim>\<open>malloc\<close> refines insertion into a set of objects. With two free frames at hand, and the
  allocator representing the set \<open>A\<close> of objects in use, \<^verbatim>\<open>malloc(len)\<close> for \<open>len \<le> 4096\<close> returns (its walk
  along the chain ends) an object that is at least \<open>len\<close> bytes long and overlaps none in \<open>A\<close>; afterwards the
  allocator represents \<open>A\<close> and this object, and the contents of all other objects are as before.\<close>

theorem malloc_refines:
  assumes "represents s A" and "unat len \<le> 4096" and "2 \<le> card (free_frames (km s))"
  shows "\<exists>p s' z. malloc len s = Some (retK p s') \<and> unat len \<le> z \<and> represents s' (insert (p, z) A) \<and>
    (\<forall>x\<in>A. apart (p, z) x) \<and> (\<forall>(q, y)\<in>A. \<forall>d<y. mem (km s') (q + of_nat d) = mem (km s) (q + of_nat d))"
proof -
  obtain B O' where inv: "heap_inv B O' s" "no_empty B s" "objects_of B O' s = A"
    using assms(1) by (auto simp: represents_def)
  obtain p s' z B' O'' where r: "malloc len s = Some (retK p s')" "unat len \<le> z" "heap_inv B' O'' s'" "no_empty B' s'"
    "objects_of B' O'' s' = insert (p, z) A" "(p, z) \<notin> A"
    "\<And>a. owned (km s) (page_of a) \<Longrightarrow> mem (km s') a = mem (km s) a"
    using malloc_ok[OF inv(1,2) assms(2,3)] inv(3) by blast
  have "apart (p, z) x" if x: "x \<in> A" for x
    using objects_apart[OF r(3), of p z "fst x" "snd x"] x r(5,6) by auto
  moreover have "mem (km s') (q + of_nat d) = mem (km s) (q + of_nat d)" if q: "(q, y) \<in> A" "d < y" for q y d
  proof -
    obtain j k where "owned (km s) (frame_addr j)" "\<And>d. d < y \<Longrightarrow> page_of (q + of_nat d) = frame_addr j \<and> unat (q + of_nat d) = unat q + d"
      by (rule object_bytes[OF inv(1) q(1)[folded inv(3)]], rule that)
    then show ?thesis using q(2) by (intro r(7)) simp
  qed
  ultimately show ?thesis using r(1-5) unfolding represents_def
    by (intro exI[of _ p] exI[of _ s'] exI[of _ z]) auto
qed

text \<open>C8. \<^verbatim>\<open>free_s\<close> of an object in use, with its size or a smaller one (0 for \<open>unknown\<close>), returns and takes exactly this
  object away; the contents of the others stay. If no other object in use lies in the same page, then the frame of that
  page is free afterwards, no other frame's use has changed, and the page's descriptor is the first of the unused
  ones, in front of those there were; else no frame changes hands and the unused descriptors are the same.\<close>

theorem free_s_refines:
  assumes "represents s A" and "(a, z) \<in> A" and "sz \<le> z"
  shows "\<exists>s'. free_s a (int sz) s = Some (retK () s') \<and> represents s' (A - {(a, z)}) \<and>
    (\<forall>(q, y)\<in>A - {(a, z)}. \<forall>d<y. mem (km s') (q + of_nat d) = mem (km s) (q + of_nat d)) \<and>
    (if \<exists>(q, y)\<in>A - {(a, z)}. page_of q = page_of a
     then mem_map (km s') = mem_map (km s) \<and> free_bucket_desc s' = free_bucket_desc s
     else mem_map (km s') = (mem_map (km s))(MAP_NR (page_of a) := 0) \<and>
       bd_page (descs s (free_bucket_desc s')) = page_of a \<and>
       bd_next (descs s' (free_bucket_desc s')) = free_bucket_desc s)"
proof -
  obtain B O' where inv: "heap_inv B O' s" "no_empty B s" "objects_of B O' s = A"
    using assms(1) by (auto simp: represents_def)
  note a = assms(2)[folded inv(3)]
  obtain s' B' O'' where r: "free_s a (int sz) s = Some (retK () s')" "heap_inv B' O'' s'" "no_empty B' s'"
    "objects_of B' O'' s' = A - {(a, z)}" "\<And>x. x \<noteq> a \<Longrightarrow> mem (km s') x = mem (km s) x"
    "given_back a (A - {(a, z)}) s s'"
    using free_ok[OF inv(1,2) a assms(3)] inv(3) by blast
  obtain i where i: "i < 9" "z = bucket_dir ! i" by (rule objects_ofE[OF inv(1) a], rule that)
  then have z: "0 < z" using is_size_dir[OF i(1)] by (simp add: is_size_def)
  have "mem (km s') (q + of_nat d) = mem (km s) (q + of_nat d)" if q: "(q, y) \<in> A - {(a, z)}" "d < y" for q y d
  proof (rule r(5))
    have "(q, y) \<in> objects_of B O' s" using q inv(3) by simp
    then obtain j k where "\<And>d. d < y \<Longrightarrow> page_of (q + of_nat d) = frame_addr j \<and> unat (q + of_nat d) = unat q + d"
      by (rule object_bytes[OF inv(1)]) (rule that)
    then have "unat (q + of_nat d) = unat q + d" using q(2) by simp
    moreover have "apart (a, z) (q, y)" using objects_apart[OF inv(1) a, of q y] q inv(3) by auto
    ultimately show "q + of_nat d \<noteq> a" using q(2) z by (auto simp: apart_def)
  qed
  then show ?thesis using r(1-4) r(6)[unfolded given_back_def] unfolding represents_def by blast
qed

subsection \<open>Witnesses\<close>

definition heap0 :: buckets where
  "heap0 = \<lparr>km = mm0, descs = (\<lambda>_. \<lparr>bd_page = 0, bd_next = 0, bd_freeptr = 0, bd_refcnt = 0, bd_size = 0\<rparr>),
     chain = (\<lambda>_. 0), free_bucket_desc = 0\<rparr>"

lemma heap0_inv: "heap_inv (\<lambda>_. []) (\<lambda>_. []) heap0" "no_empty (\<lambda>_. []) heap0" "objects_of (\<lambda>_. []) (\<lambda>_. []) heap0 = {}"
proof -
  have "\<not> high_memory mm0 \<le> frame_addr j" if "j < PAGING_PAGES" for j
    using unat_frame_addr[OF that] that by (simp add: word_le_nat_alt mm0_def PAGING_PAGES_def)
  then have "no_high mm0" by (auto simp: no_high_def)
  then show "heap_inv (\<lambda>_. []) (\<lambda>_. []) heap0"
    by (simp add: heap_inv_def chains_def head_def heap0_def pages_ok_def in_use_def)
qed (simp_all add: no_empty_def in_use_def objects_of_def)

lemma heap0_room: "2 \<le> card (free_frames (km heap0))"
  by (simp add: heap0_def mm0_def free_frames_def PAGING_PAGES_def)

theorem malloc_refines_witness:
  "represents heap0 {} \<and> (\<exists>p s'. malloc 10 heap0 = Some (retK p s') \<and> (\<exists>z\<ge>10. represents s' {(p, z)}))"
proof -
  have r: "represents heap0 {}" using heap0_inv by (auto simp: represents_def)
  from malloc_refines[OF r _ heap0_room, of 10] r show ?thesis by fastforce
qed

theorem free_s_refines_witness:
  "\<exists>s a z s'. represents s {(a, z)} \<and> free_s a 0 s = Some (retK () s') \<and> represents s' {} \<and>
     mem_map (km s') (MAP_NR (page_of a)) = 0"
proof -
  obtain p s' z B' O'' where "heap_inv B' O'' s'" "no_empty B' s'" "objects_of B' O'' s' = {(p, z)}"
    using malloc_ok[OF heap0_inv(1,2) _ heap0_room, of 10] heap0_inv(3) by auto
  then have r: "represents s' {(p, z)}" by (auto simp: represents_def)
  from free_s_refines[OF r, of p z 0] r show ?thesis by fastforce
qed

end
