(* ===== verification/Fault.thy ===== *)
theory Fault
  imports File_Io Vsprintf
begin

section \<open>Page faults, swap set-up and the memory report\<close>

text \<open>
  The routines of \<^verbatim>\<open>mm/memory.c\<close> that need processes and files:
  \<^verbatim>\<open>do_wp_page\<close>, \<^verbatim>\<open>do_no_page\<close> and the sharing of pages between
  processes that run the same file; \<^verbatim>\<open>init_swapping\<close> of \<^verbatim>\<open>mm/swap.c\<close>;
  and \<^verbatim>\<open>show_mem\<close>. Messages are written without their line ends.
\<close>

definition LIBRARY_OFFSET :: u32 where
  "LIBRARY_OFFSET = TASK_SIZE - 0x00400000"

text \<open>A message with arguments.\<close>

definition mm_say :: "string \<Rightarrow> arg list \<Rightarrow> mm \<Rightarrow> mm" where
  "mm_say fmt args m = (case vsprintf fmt args of None \<Rightarrow> m | Some (t, _) \<Rightarrow> printk t m)"

subsection \<open>A write to a protected page\<close>

definition do_wp_page :: "u32 \<Rightarrow> fsys \<Rightarrow> unit fres" where
  "do_wp_page address s =
     (let s = (if address < TASK_SIZE then fs_say ''BAD! KERNEL MEMORY WP-ERR!'' s else s) in
      if TASK_SIZE < address - t_start_code (cur (kern s))
      then stopK (Killed Mm.SIGSEGV) (fs_say ''Bad things happen: page error in do_wp_page'' s)
      else on_pages (\<lambda>m. un_wp_page (pte_addr (mem m (dir_addr address)) address) m) s)"

subsection \<open>Sharing a page\<close>

text \<open>\<open>p_start\<close> and \<open>my_start\<close> are the start addresses of the other process and the current one;
  \<open>address\<close> is relative to them.\<close>

definition try_to_share :: "u32 \<Rightarrow> u32 \<Rightarrow> u32 \<Rightarrow> mm \<Rightarrow> bool mres" where
  "try_to_share address p_start my_start s =
     (let from_dir = dir_addr address + dir_addr p_start;
          to_dir = dir_addr address + dir_addr my_start;
          from_page = pte_addr (mem s from_dir) address;
          phys_addr = mem s from_page
      in if mem s from_dir AND 1 = 0 then retK False s
         else if phys_addr AND 0x41 \<noteq> 0x01 then retK False s
         else if high_memory s \<le> page_of phys_addr \<or> page_of phys_addr < LOW_MEM then retK False s
         else
           bindK (if mem s to_dir AND 1 = 0
                  then bindK (get_free_page s) (\<lambda>to s. if to \<noteq> 0 then retK to (poke to_dir (to OR 7) s) else oom s)
                  else retK (mem s to_dir) s)
             (\<lambda>to s. let to_page = pte_addr to address in
                if 1 AND mem s to_page \<noteq> 0 then stopK (Panic ''try_to_share: to_page already exists'') s
                else let s = poke from_page (mem s from_page AND NOT 2) s;
                         s = poke to_page (mem s from_page) s
                     in retK True (share_frame (page_of phys_addr) (invalidate s))))"

primrec share_loop :: "nat list \<Rightarrow> nat \<Rightarrow> u32 \<Rightarrow> fsys \<Rightarrow> bool fres" where
  "share_loop [] i address s = retK False s"
| "share_loop (p # ps) i address s =
     (if \<not> present (kern s) p \<or> p = me s
         \<or> (if address < LIBRARY_OFFSET then p_executable s p else p_library s p) \<noteq> Some i
      then share_loop ps i address s
      else bindK (on_pages (try_to_share address (t_start_code (tasks (kern s) p)) (t_start_code (cur (kern s)))) s)
             (\<lambda>ok s. if ok then retK True s else share_loop ps i address s))"

definition share_page :: "nat \<Rightarrow> u32 \<Rightarrow> fsys \<Rightarrow> bool fres" where
  "share_page i address s =
     (if i_count (inodes s i) < 2 then retK False s else share_loop (rev [1..<64]) i address s)"

subsection \<open>A missing page\<close>

text \<open>\<open>n\<close> bytes at the end of the page are cleared, the last one first.\<close>

definition clear_tail :: "u32 \<Rightarrow> nat \<Rightarrow> mm \<Rightarrow> mm" where
  "clear_tail page n m = m\<lparr>mem := fold (\<lambda>k. put_page_byte page (4095 - k) 0) [0..<n] (mem m)\<rparr>"

definition tail_bytes :: "u32 \<Rightarrow> u32 \<Rightarrow> nat" where
  "tail_bytes tmp end_data = (let i = sint (tmp + 4096 - end_data) in if 4095 < i then 0 else nat i)"

text \<open>Where the page comes from: a file and its first block, or nowhere.\<close>

definition page_source :: "u32 \<Rightarrow> fsys \<Rightarrow> (nat \<times> int) option" where
  "page_source tmp s =
     (if LIBRARY_OFFSET \<le> tmp
      then map_option (\<lambda>i. (i, 1 + uint (tmp - LIBRARY_OFFSET) div 1024)) (p_library s (me s))
      else if tmp < t_end_data (cur (kern s))
      then map_option (\<lambda>i. (i, 1 + uint tmp div 1024)) (p_executable s (me s))
      else None)"

definition load_page :: "env \<Rightarrow> nat \<Rightarrow> int \<Rightarrow> u32 \<Rightarrow> u32 \<Rightarrow> fsys \<Rightarrow> unit fres" where
  "load_page E i block tmp address s =
     bindK (on_pages get_free_page s) (\<lambda>page s.
       if page = 0 then on_pages oom s
       else bindK (bmap E i block s) (\<lambda>b0 s. bindK (bmap E i (block + 1) s) (\<lambda>b1 s.
         bindK (bmap E i (block + 2) s) (\<lambda>b2 s. bindK (bmap E i (block + 3) s) (\<lambda>b3 s.
           bindK (bread_page E page (i_dev (inodes s i)) [b0, b1, b2, b3] s) (\<lambda>_ s.
             let s = s\<lparr>pages := clear_tail page (tail_bytes tmp (t_end_data (cur (kern s)))) (pages s)\<rparr> in
             bindK (on_pages (put_page page address) s) (\<lambda>put s.
               if put \<noteq> 0 then retK () s
               else bindK (on_pages (free_page page) s) (\<lambda>_. on_pages oom))))))))"

definition do_no_page :: "env \<Rightarrow> u32 \<Rightarrow> fsys \<Rightarrow> unit fres" where
  "do_no_page E address s =
     (let s = (if address < TASK_SIZE then fs_say ''BAD!! KERNEL PAGE MISSING'' s else s);
          start = t_start_code (cur (kern s));
          m = pages s; dir = mem m (dir_addr address); entry = pte_addr dir address; tmp = mem m entry
      in if TASK_SIZE < address - start
         then stopK (Killed Mm.SIGSEGV) (fs_say ''Bad things happen: nonexistent page error in do_no_page'' s)
         else if dir AND 1 \<noteq> 0 \<and> tmp \<noteq> 0 \<and> 1 AND tmp = 0 then on_pages (swap_in entry) s
         else
           let address = page_of address; tmp = address - start in
           case page_source tmp s of
             None \<Rightarrow> on_pages (get_empty_page address) s
           | Some (i, block) \<Rightarrow>
               bindK (share_page i tmp s) (\<lambda>shared s. if shared then retK () s else load_page E i block tmp address s))"

subsection \<open>Setting up the swap device\<close>

text \<open>The characters of the bit map's page, and the numbers the check loop looks at: 0, and those from the size of
  the device on.\<close>

definition SWAP_SIGNATURE :: "u8 list" where
  "SWAP_SIGNATURE = map of_char ''SWAP-SPACE''"

definition swap_signature :: "mm \<Rightarrow> u8 list" where
  "swap_signature m = map (\<lambda>k. page_byte (swap_bitmap m) (mem m) (4086 + k)) [0..<10]"

definition drop_bitmap :: "mm \<Rightarrow> unit mres" where
  "drop_bitmap m = bindK (free_page (swap_bitmap m) m) (\<lambda>_ m. retK () (m\<lparr>swap_bitmap := 0\<rparr>))"

definition checked_bits :: "nat \<Rightarrow> nat list" where
  "checked_bits n = 0 # (if n < SWAP_BITS then [n..<SWAP_BITS] else [n])"

definition check_bitmap :: "nat \<Rightarrow> mm \<Rightarrow> unit mres" where
  "check_bitmap swap_size m =
     (let m = read_swap_page 0 (swap_bitmap m) m in
      if swap_signature m \<noteq> SWAP_SIGNATURE
      then drop_bitmap (printk ''Unable to find swap-space signature'' m)
      else let m = m\<lparr>mem := fold (\<lambda>k. put_page_byte (swap_bitmap m) (4086 + k) 0) [0..<10] (mem m)\<rparr> in
        if \<exists>i\<in>set (checked_bits swap_size). swap_bit i m
        then drop_bitmap (printk ''Bad swap-space bit-map'' m)
        else let j = length (filter (\<lambda>i. swap_bit i m) [1..<swap_size]) in
          if j = 0 then drop_bitmap m
          else retK () (mm_say ''Swap device ok: %d pages (%d bytes) swap-space''
            [Num (of_nat j), Num (of_nat (j * 4096))] m))"

definition init_swapping :: "dev \<Rightarrow> fsys \<Rightarrow> unit fres" where
  "init_swapping SWAP_DEV s =
     (if SWAP_DEV = 0 then retK () s
      else case blk_size s (MAJOR SWAP_DEV) of
        None \<Rightarrow> retK () (fs_say ''Unable to get size of swap device'' s)
      | Some sizes \<Rightarrow>
          let swap_size = sint (sizes (MINOR SWAP_DEV)) in
          if swap_size = 0 then retK () s
          else if swap_size < 100
          then retK () (s\<lparr>pages := mm_say ''Swap device too small (%d blocks)'' [Num (of_int swap_size)] (pages s)\<rparr>)
          else let swap_size = min (nat swap_size div 4) SWAP_BITS in
            bindK (on_pages get_free_page s) (\<lambda>page s.
              let s = s\<lparr>pages := (pages s)\<lparr>swap_bitmap := page\<rparr>\<rparr> in
              if page = 0 then retK () (fs_say ''Unable to start swapping: out of memory :-)'' s)
              else on_pages (check_bitmap swap_size) s))"

subsection \<open>show_mem\<close>

text \<open>The sums over the frames: how many there are, how many are free, and how often pages are shared.\<close>

definition frame_counts :: "mm \<Rightarrow> int \<times> int \<times> int" where
  "frame_counts m =
     fold (\<lambda>i (total, free, shared).
       let c = mem_map m i in
       if c = USED then (total, free, shared)
       else if c = 0 then (total + 1, free + 1, shared) else (total + 1, free, shared + uint c - 1))
     [0..<PAGING_PAGES] (0, 0, 0)"

definition table_entry :: "nat \<Rightarrow> u32 \<Rightarrow> nat \<Rightarrow> int \<times> int \<times> mm \<Rightarrow> int \<times> int \<times> mm" where
  "table_entry i pg_tbl j = (\<lambda>(free, k, m).
     let e = mem m (pg_tbl + 4 * of_nat j) in
     if e AND 1 \<noteq> 0 \<and> LOW_MEM < e
     then if high_memory m < e
          then (free, k, mm_say ''page_dir[%d][%d]: %08X'' [Num (of_nat i), Num (of_nat j), Num e] m)
          else (free + 1, k + 1, m)
     else (free, k, m))"

text \<open>The loop over the page directory; a bad entry is not stepped over, and the loop does not end then.\<close>

partial_function (option) show_dirs :: "nat \<Rightarrow> int \<times> int \<times> mm \<Rightarrow> (int \<times> mm) option" where
  "show_dirs i c =
     (case c of (free, k, m) \<Rightarrow>
        if 1024 \<le> i then Some (free, m)
        else
          let d = pg_dir m i in
          if d AND 1 \<noteq> 0 \<and> high_memory m < d
          then show_dirs i (free, k, mm_say ''page directory[%d]: %08X'' [Num (of_nat i), Num d] m)
          else
            let (free, k, m) =
                  (if d AND 1 \<noteq> 0
                   then fold (table_entry i (page_of d)) [0..<1024]
                     (if LOW_MEM < d then (free + 1, k + 1, m) else (free, k, m))
                   else (free, k, m));
                i = i + 1
            in if i mod 16 = 0 \<and> k \<noteq> 0
               then show_dirs i (free + 1, 0,
                 mm_say ''Process %d: %d pages'' [Num (of_nat (i div 16 - 1)), Num (of_int (k + 1))] m)
               else show_dirs i (free, k, m))"

definition show_mem :: "mm \<Rightarrow> mm option" where
  "show_mem m =
     (let (total, free, shared) = frame_counts m;
          m = printk ''Mem-info:'' m;
          m = mm_say ''%d free pages of %d'' [Num (of_int free), Num (of_int total)] m;
          m = mm_say ''%d pages shared'' [Num (of_int shared)] m
      in map_option (\<lambda>(free, m). mm_say ''Memory found: %d (%d)'' [Num (of_int (free - shared)), Num (of_int total)] m)
           (show_dirs 4 (free, 0, m)))"

end
