(* ===== verification/Fault_Props.thy ===== *)
theory Fault_Props
  imports Fault Mm_Props
begin

section \<open>Sharing the pages of a file\<close>

text \<open>
  A page that \<^verbatim>\<open>try_to_share\<close> maps for a second process is read-only for both, so the
  first write fault separates them again.
\<close>

lemma scan_down_cong: "(\<And>k. k < n \<Longrightarrow> m k = 0 \<longleftrightarrow> m' k = 0) \<Longrightarrow> scan_down m n = scan_down m' n"
  by (induction n) auto

lemma page_of_read_only [simp]: "page_of (w AND - 3) = page_of w"
  by (simp add: page_of_def and.assoc)

lemma try_to_share_runs:
  assumes "odd (mem s (dir_addr a + dir_addr ps))" and "odd (mem s (dir_addr a + dir_addr ms))"
    and "fp = pte_addr (mem s (dir_addr a + dir_addr ps)) a" and "tp = pte_addr (mem s (dir_addr a + dir_addr ms)) a"
    and "mem s fp AND 0x41 = 1" and "LOW_MEM \<le> page_of (mem s fp)" and "page_of (mem s fp) < high_memory s"
    and "even (mem s tp)" and "fp \<noteq> tp"
  shows "try_to_share a ps ms s = Inr (True, share_frame (page_of (mem s fp)) (invalidate
    (s\<lparr>mem := (mem s)(fp := mem s fp AND NOT 2, tp := mem s fp AND NOT 2)\<rparr>)))"
proof -
  have "mem s (dir_addr a + dir_addr ps) AND 1 \<noteq> 0" "mem s (dir_addr a + dir_addr ms) AND 1 \<noteq> 0"
    using assms(1,2) by (simp_all add: odd_word_AND_1)
  moreover have "\<not> high_memory s \<le> page_of (mem s fp)" "\<not> page_of (mem s fp) < LOW_MEM" using assms(6,7) by auto
  moreover have "1 AND mem s tp = 0" using assms(8) by (simp add: and.commute[of 1] and_one_eq even_iff_mod_2_eq_zero)
  ultimately show ?thesis
    using assms(5,9) by (simp add: try_to_share_def Let_def poke_def retK_def assms(3,4)[symmetric])
qed

text \<open>C10. Pages of a file are shared copy-on-write. When \<^verbatim>\<open>try_to_share\<close> finds a clean page of another process,
  with one user, at \<open>fp\<close>, and there is a page table with no page at \<open>tp\<close> for the current one (both entries lie outside the page), then both see the contents
  of the page afterwards, read-only, and the page has two users. When the current process then writes to it, the fault
  looks for a frame: if that panics so does the fault, and if there is none even after swapping out the process is
  killed. If there is one, and the search has left both entries, the shared page and its number of users alone
  (it may swap out this very page), the process has a page of its own
  with these contents, writable, and the other process still has the old page, read-only, with one user again.\<close>

theorem share_then_write:
  assumes dirs: "odd (mem s (dir_addr a + dir_addr ps))" "odd (mem s (dir_addr a + dir_addr ms))"
    and fp: "fp = pte_addr (mem s (dir_addr a + dir_addr ps)) a" and tp: "tp = pte_addr (mem s (dir_addr a + dir_addr ms)) a"
    and page: "mem s fp AND 0x41 = 1" "LOW_MEM \<le> page_of (mem s fp)" "page_of (mem s fp) < high_memory s"
      "mem_map s (MAP_NR (page_of (mem s fp))) = 1"
    and free: "even (mem s tp)" "fp \<noteq> tp"
    and tables: "page_of fp \<noteq> page_of (mem s fp)" "page_of tp \<noteq> page_of (mem s fp)"
  shows "\<exists>s1. try_to_share a ps ms s = Inr (True, s1) \<and>
    (\<forall>d. page_off d = d \<longrightarrow> pte_view s1 fp d = pte_view s fp d \<and> pte_view s1 tp d = pte_view s fp d) \<and>
    mem s1 fp AND 2 = 0 \<and> mem s1 tp AND 2 = 0 \<and> mem_map s1 (MAP_NR (page_of (mem s fp))) = 2 \<and>
    (case get_free_page s1 of
       Inl e \<Rightarrow> un_wp_page tp s1 = Inl e
     | Inr (p, u) \<Rightarrow>
         if p = 0 then un_wp_page tp s1 = Inl (Killed Mm.SIGSEGV, printk ''out of memory'' u)
         else spares fp s1 u \<and> spares tp s1 u \<longrightarrow>
           (\<exists>s2. un_wp_page tp s1 = Inr ((), s2) \<and>
             (\<forall>d. page_off d = d \<longrightarrow> pte_view s2 fp d = pte_view s fp d \<and> pte_view s2 tp d = pte_view s fp d) \<and>
             page_of (mem s2 tp) = p \<and> page_of (mem s2 fp) = page_of (mem s fp) \<and> p \<noteq> page_of (mem s fp) \<and>
             mem s2 tp AND 2 = 2 \<and> mem s2 fp AND 2 = 0 \<and>
             mem_map s2 (MAP_NR p) = 1 \<and> mem_map s2 (MAP_NR (page_of (mem s fp))) = 1))"
proof -
  let ?old = "page_of (mem s fp)" and ?e = "mem s fp AND NOT 2" and ?n = "MAP_NR (page_of (mem s fp))"
  define s1 where "s1 = share_frame ?old (invalidate (s\<lparr>mem := (mem s)(fp := ?e, tp := ?e)\<rparr>))"
  have run1: "try_to_share a ps ms s = Inr (True, s1)"
    unfolding s1_def by (rule try_to_share_runs[OF dirs fp tp page(1-3) free(1,2)])
  have m1: "mem s1 = (mem s)(fp := ?e, tp := ?e)" "mem_map s1 = (mem_map s)(?n := 2)"
    using page(4) by (simp_all add: s1_def share_frame_def invalidate_def)
  have e: "page_of ?e = ?old" "?e AND 2 = 0" by (simp_all add: and.assoc)
  have entries: "mem s1 fp = ?e" "mem s1 tp = ?e" using free(2) by (simp_all add: m1)
  have "odd (mem s fp AND 0x41)" using page(1) by simp
  then have odd: "odd ?e" by (simp add: even_and_iff)
  have v1: "pte_view s1 fp d = pte_view s fp d" "pte_view s1 tp d = pte_view s fp d" if "page_off d = d" for d
    using page_of_plus_off(2)[of ?old d] that tables unfolding pte_view_def entries e by (auto simp: m1)
  have shared: "\<not> (LOW_MEM \<le> page_of (mem s1 tp) \<and> mem_map s1 (MAP_NR (page_of (mem s1 tp))) = 1)"
    by (simp add: entries m1)
  have written: "\<exists>s2. un_wp_page tp s1 = Inr ((), s2) \<and>
      (\<forall>d. page_off d = d \<longrightarrow> pte_view s2 fp d = pte_view s fp d \<and> pte_view s2 tp d = pte_view s fp d) \<and>
      page_of (mem s2 tp) = p \<and> page_of (mem s2 fp) = ?old \<and> p \<noteq> ?old \<and> mem s2 tp AND 2 = 2 \<and> mem s2 fp AND 2 = 0 \<and>
      mem_map s2 (MAP_NR p) = 1 \<and> mem_map s2 ?n = 1"
    if g: "get_free_page s1 = Inr (p, u)" "p \<noteq> 0" and sp: "spares fp s1 u" "spares tp s1 u" for p u
  proof -
    have "odd (mem s1 tp)" "page_of tp \<noteq> page_of (mem s1 tp)" using odd tables by (simp_all add: entries)
    from wp_copy[OF this shared g sp(2)] obtain s2 where run: "un_wp_page tp s1 = Inr ((), s2)"
      and s2: "page_of (mem s2 tp) = p" "p \<noteq> ?old" "mem s2 tp AND 2 = 2" "mem_map s2 (MAP_NR p) = 1" "mem_map s2 ?n = 1"
        "\<And>d. page_off d = d \<Longrightarrow> pte_view s2 tp d = pte_view s1 tp d \<and> mem s2 (?old + d) = mem s1 (?old + d)"
        "\<And>a. a \<noteq> tp \<Longrightarrow> page_of a \<noteq> p \<Longrightarrow> mem s2 a = mem u a"
      using page(2) by (auto simp: entries m1)
    have "page_of fp \<noteq> p"
      using get_free_page_result[OF g(1)] g(2) sp(1) odd by (auto simp: spares_def entries)
    then have fp2: "mem s2 fp = ?e" using s2(7)[of fp] free(2) sp(1) by (simp add: spares_def entries)
    have "pte_view s2 fp d = pte_view s1 fp d" if "page_off d = d" for d
      using s2(6)[OF that] unfolding pte_view_def fp2 entries e by simp
    then show ?thesis using run s2(1-6) v1 e by (intro exI[of _ s2]) (simp add: fp2)
  qed
  have "case get_free_page s1 of
      Inl e \<Rightarrow> un_wp_page tp s1 = Inl e
    | Inr (p, u) \<Rightarrow>
        if p = 0 then un_wp_page tp s1 = Inl (Killed Mm.SIGSEGV, printk ''out of memory'' u)
        else spares fp s1 u \<and> spares tp s1 u \<longrightarrow>
          (\<exists>s2. un_wp_page tp s1 = Inr ((), s2) \<and>
            (\<forall>d. page_off d = d \<longrightarrow> pte_view s2 fp d = pte_view s fp d \<and> pte_view s2 tp d = pte_view s fp d) \<and>
            page_of (mem s2 tp) = p \<and> page_of (mem s2 fp) = ?old \<and> p \<noteq> ?old \<and> mem s2 tp AND 2 = 2 \<and> mem s2 fp AND 2 = 0 \<and>
            mem_map s2 (MAP_NR p) = 1 \<and> mem_map s2 ?n = 1)"
  proof (cases "get_free_page s1")
    case (Inl x)
    then show ?thesis using shared by (auto simp: un_wp_page_def Let_def)
  next
    case (Inr x)
    then show ?thesis using shared written by (cases x) (auto simp: un_wp_page_def Let_def oom_def stopK_def)
  qed
  moreover have "mem s1 fp AND 2 = 0 \<and> mem s1 tp AND 2 = 0 \<and> mem_map s1 ?n = 2" using e(2) unfolding entries by (simp add: m1)
  ultimately show ?thesis using run1 v1 by blast
qed

text \<open>A clean page at \<open>0x100000\<close> in the table of another process at \<open>0x104000\<close>; the table of the current one is at
  \<open>0x105000\<close>.\<close>

definition mm_share :: mm where
  "mm_share = mm0\<lparr>mem := (\<lambda>_. 0)(0x40 := 0x104007, 0x80 := 0x105007, 0x104000 := 0x100007, 0x100008 := 42),
     mem_map := (\<lambda>_. 0)(0 := 1, 4 := 1, 5 := 1)\<rparr>"

theorem share_then_write_witness:
  "\<exists>s1 s2. try_to_share 0 0x4000000 0x8000000 mm_share = Inr (True, s1) \<and> un_wp_page 0x105000 s1 = Inr ((), s2) \<and>
    pte_view s2 0x105000 8 = 42 \<and> pte_view s2 0x104000 8 = 42"
proof -
  note d = mm_share_def dir_addr_def pte_addr_def page_of_def MAP_NR_def LOW_MEM_def mm0_def
  have 1: "odd (mem mm_share (dir_addr 0 + dir_addr 0x4000000))" "odd (mem mm_share (dir_addr 0 + dir_addr 0x8000000))"
    by (simp_all add: d)
  have 2: "0x104000 = pte_addr (mem mm_share (dir_addr 0 + dir_addr 0x4000000)) 0"
    "0x105000 = pte_addr (mem mm_share (dir_addr 0 + dir_addr 0x8000000)) 0"
    by (simp_all add: d)
  have 3: "mem mm_share 0x104000 AND 0x41 = 1" "LOW_MEM \<le> page_of (mem mm_share 0x104000)"
    "page_of (mem mm_share 0x104000) < high_memory mm_share" "mem_map mm_share (MAP_NR (page_of (mem mm_share 0x104000))) = 1"
    by (simp_all add: d)
  have 4: "even (mem mm_share 0x105000)" "(0x104000 :: u32) \<noteq> 0x105000"
    by (simp_all add: d)
  have 5: "page_of 0x104000 \<noteq> page_of (mem mm_share 0x104000)" "page_of 0x105000 \<noteq> page_of (mem mm_share 0x104000)"
    by (simp_all add: d)
  have 6: "page_off 8 = 8" "pte_view mm_share 0x104000 8 = 42"
    by (simp_all add: page_off_def pte_view_def mm_share_def page_of_def)
  define s1 where "s1 = share_frame (page_of (mem mm_share 0x104000)) (invalidate
    (mm_share\<lparr>mem := (mem mm_share)(0x104000 := mem mm_share 0x104000 AND NOT 2, 0x105000 := mem mm_share 0x104000 AND NOT 2)\<rparr>))"
  have run: "try_to_share 0 0x4000000 0x8000000 mm_share = Inr (True, s1)"
    unfolding s1_def by (rule try_to_share_runs[OF 1 2 3(1-3) 4])
  have s1: "mem s1 0x104000 = 0x100005" "mem s1 0x105000 = 0x100005" "mem_map s1 = (\<lambda>_. 0)(4 := 1, 5 := 1, 0 := 2)"
    "high_memory s1 = 0x1000000"
    by (simp_all add: s1_def share_frame_def invalidate_def d)
  have f: "scan_down (mem_map s1) PAGING_PAGES = Some 3839" "frame_addr 3839 < high_memory s1"
    by (simp_all add: scan_down_last s1 PAGING_PAGES_def last_frame)
  have pg: "page_of 0x100005 = 0x100000" "page_of 0x104000 \<noteq> frame_addr 3839" "page_of 0x105000 \<noteq> frame_addr 3839" "MAP_NR 0x100000 = 0"
    by (simp_all add: page_of_def MAP_NR_def LOW_MEM_def last_frame)
  have sp: "spares 0x104000 s1 (take_frame 3839 s1)" "spares 0x105000 s1 (take_frame 3839 s1)"
    by (rule free_frame_spares(2)[OF f]; simp add: s1 pg LOW_MEM_def)+
  have g: "get_free_page s1 = Inr (frame_addr 3839, take_frame 3839 s1)" by (rule get_free_page_direct[OF f])
  from share_then_write[OF 1 2 3 4 5] run g sp obtain s2 where r: "un_wp_page 0x105000 s1 = Inr ((), s2)"
    "\<forall>d. page_off d = d \<longrightarrow> pte_view s2 0x104000 d = pte_view mm_share 0x104000 d \<and> pte_view s2 0x105000 d = pte_view mm_share 0x104000 d"
    by (auto simp: last_frame)
  have "pte_view s2 0x105000 8 = 42" "pte_view s2 0x104000 8 = 42" using spec[OF r(2), of 8] 6 by simp_all
  then show ?thesis using r(1) run by blast
qed

end
