(* ===== verification/Fork.thy ===== *)
theory Fork
  imports Fs_Base
begin

section \<open>Fork\<close>

text \<open>
  \<^verbatim>\<open>kernel/fork.c\<close>: the new process number, the copy of the task structure and of the
  page tables, and \<^verbatim>\<open>verify_area\<close>. To the state of the file system \<open>psys\<close> adds what only fork
  uses of a task: its saved registers, the descriptor of its code segment, the page its task structure is
  in, and the global descriptor table. \<open>t_ldt_base\<close> and \<open>t_ldt_limit\<close> of a task are those of its data
  segment.
\<close>

record tss =
  back_link :: u32
  esp0 :: u32
  ss0 :: u32
  esp1 :: u32
  ss1 :: u32
  esp2 :: u32
  ss2 :: u32
  cr3 :: u32
  r_eip :: u32
  r_eflags :: u32
  r_eax :: u32
  r_ecx :: u32
  r_edx :: u32
  r_ebx :: u32
  r_esp :: u32
  r_ebp :: u32
  r_esi :: u32
  r_edi :: u32
  r_es :: u32
  r_cs :: u32
  r_ss :: u32
  r_ds :: u32
  r_fs :: u32
  r_gs :: u32
  r_ldt :: u32
  trace_bitmap :: u32

text \<open>What the system call has put on the stack: the arguments of \<^verbatim>\<open>copy_process\<close> after the first.\<close>

record call_frame =
  a_ebp :: u32
  a_edi :: u32
  a_esi :: u32
  a_gs :: u32
  a_ebx :: u32
  a_ecx :: u32
  a_edx :: u32
  a_fs :: u32
  a_es :: u32
  a_ds :: u32
  a_eip :: u32
  a_cs :: u32
  a_eflags :: u32
  a_esp :: u32
  a_ss :: u32

datatype gdt_entry = Other_desc | Tss_desc nat | Ldt_desc nat

record psys =
  fs :: fsys
  tsss :: "nat \<Rightarrow> tss"
  code_base :: "nat \<Rightarrow> u32"
  code_limit :: "nat \<Rightarrow> u32"
  task_page :: "nat \<Rightarrow> u32"
  gdt :: "nat \<Rightarrow> gdt_entry"

type_synonym 'a forkres = "(psys, 'a) res"

definition FIRST_TSS_ENTRY :: nat where "FIRST_TSS_ENTRY = 4"
definition FIRST_LDT_ENTRY :: nat where "FIRST_LDT_ENTRY = FIRST_TSS_ENTRY + 1"

definition LDT_SEL :: "nat \<Rightarrow> u32" where
  "LDT_SEL n = push_bit 4 (of_nat n) + push_bit 3 (of_nat FIRST_LDT_ENTRY)"

definition on_fs :: "(fsys \<Rightarrow> 'a fres) \<Rightarrow> psys \<Rightarrow> 'a forkres" where
  "on_fs f s = (case f (fs s) of Inl (e, t) \<Rightarrow> Inl (e, s\<lparr>fs := t\<rparr>) | Inr (x, t) \<Rightarrow> Inr (x, s\<lparr>fs := t\<rparr>))"

abbreviation on_frames :: "(mm \<Rightarrow> 'a mres) \<Rightarrow> psys \<Rightarrow> 'a forkres" where
  "on_frames f \<equiv> on_fs (on_pages f)"

definition my :: "psys \<Rightarrow> nat" where
  "my s = me (fs s)"

subsection \<open>Making an area writable\<close>

text \<open>One round for each page that is begun; \<open>size\<close> counts from the start of the first page.\<close>

definition verify_area :: "u32 \<Rightarrow> int \<Rightarrow> fsys \<Rightarrow> unit fres" where
  "verify_area addr n s =
     (let n = n + uint (addr AND 0xfff);
          start = page_of addr + t_ldt_base (cur (kern s))
      in on_pages (forK (\<lambda>k. write_verify (start + 4096 * of_nat k)) [0..<nat ((n + 4095) div 4096)]) s)"

subsection \<open>The number of the new process\<close>

text \<open>A \<^verbatim>\<open>long\<close> that has counted past the largest one is negative.\<close>

definition next_pid :: "int \<Rightarrow> int" where
  "next_pid p = (let p = (p + 1 + 2 ^ 31) mod 2 ^ 32 - 2 ^ 31 in if p < 0 then 1 else p)"

definition pid_taken :: "kernel \<Rightarrow> int \<Rightarrow> bool" where
  "pid_taken k p \<longleftrightarrow> (\<exists>i\<in>set [0..<NR_TASKS]. present k i \<and> (t_pid (tasks k i) = p \<or> t_pgrp (tasks k i) = p))"

partial_function (option) find_pid :: "kernel \<Rightarrow> int \<Rightarrow> int option" where
  "find_pid k p = (let p = next_pid p in if pid_taken k p then find_pid k p else Some p)"

definition find_empty_process :: "kernel \<Rightarrow> (int \<times> kernel) option" where
  "find_empty_process k =
     map_option (\<lambda>p. (case List.find (\<lambda>i. \<not> present k i) [1..<NR_TASKS] of Some i \<Rightarrow> int i | None \<Rightarrow> - EAGAIN,
                      k\<lparr>last_pid := p\<rparr>)) (find_pid k (last_pid k))"

subsection \<open>The memory of the new process\<close>

definition copy_mem :: "nat \<Rightarrow> psys \<Rightarrow> int forkres" where
  "copy_mem nr s =
     (let t = cur (kern (fs s));
          code_lim = code_limit s (my s); data_lim = t_ldt_limit t;
          old_code_base = code_base s (my s); old_data_base = t_ldt_base t
      in if old_data_base \<noteq> old_code_base then stopK (Panic ''We don't support separate I&D'') s
         else if data_lim < code_lim then stopK (Panic ''Bad data_limit'') s
         else let new_base = of_nat nr * TASK_SIZE;
                  s = s\<lparr>fs := upd_kernel (assign (Some nr) (\<lambda>t. t\<lparr>t_start_code := new_base, t_ldt_base := new_base\<rparr>)) (fs s),
                        code_base := (code_base s)(nr := new_base)\<rparr>
              in bindK (on_frames (copy_page_tables old_data_base new_base data_lim) s) (\<lambda>e s.
                   if e \<noteq> 0 then bindK (on_frames (free_page_tables new_base data_lim) s) (\<lambda>_. retK (- ENOMEM))
                   else retK 0 s))"

subsection \<open>The copy of the task structure\<close>

definition child_task :: "kernel \<Rightarrow> task_struct" where
  "child_task k = (cur k)\<lparr>t_state := TASK_UNINTERRUPTIBLE, t_pid := last_pid k, t_counter := t_priority (cur k),
     t_signal := 0, t_alarm := 0, t_leader := 0, t_utime := 0, t_stime := 0, t_cutime := 0, t_cstime := 0,
     t_start_time := jiffies k,
     t_i387 := (if last_task_used_math k = Some (current k) then fpu k else t_i387 (cur k))\<rparr>"

definition child_tss :: "nat \<Rightarrow> u32 \<Rightarrow> call_frame \<Rightarrow> tss \<Rightarrow> tss" where
  "child_tss nr p a t = t\<lparr>back_link := 0, esp0 := 4096 + p, ss0 := 0x10, r_eip := a_eip a, r_eflags := a_eflags a,
     r_eax := 0, r_ecx := a_ecx a, r_edx := a_edx a, r_ebx := a_ebx a, r_esp := a_esp a, r_ebp := a_ebp a,
     r_esi := a_esi a, r_edi := a_edi a, r_es := a_es a AND 0xffff, r_cs := a_cs a AND 0xffff,
     r_ss := a_ss a AND 0xffff, r_ds := a_ds a AND 0xffff, r_fs := a_fs a AND 0xffff, r_gs := a_gs a AND 0xffff,
     r_ldt := LDT_SEL nr, trace_bitmap := 0x80000000\<rparr>"

text \<open>\<^verbatim>\<open>task[nr] = p; *p = *current\<close> and the corrections up to the copying of the memory. The files,
  directories and descriptors of the parent are copied with the structure.\<close>

definition enter_task :: "nat \<Rightarrow> u32 \<Rightarrow> call_frame \<Rightarrow> psys \<Rightarrow> psys" where
  "enter_task nr p a s =
     (let f = fs s; c = my s;
          f = f\<lparr>kern := (kern f)\<lparr>present := (present (kern f))(nr := True), tasks := (tasks (kern f))(nr := child_task (kern f))\<rparr>,
                p_filp := (p_filp f)(nr := p_filp f c), p_close_on_exec := (p_close_on_exec f)(nr := p_close_on_exec f c),
                p_pwd := (p_pwd f)(nr := p_pwd f c), p_root := (p_root f)(nr := p_root f c),
                p_executable := (p_executable f)(nr := p_executable f c), p_library := (p_library f)(nr := p_library f c)\<rparr>
      in s\<lparr>fs := f, task_page := (task_page s)(nr := p), tsss := (tsss s)(nr := child_tss nr p a (tsss s c)),
           code_base := (code_base s)(nr := code_base s c), code_limit := (code_limit s)(nr := code_limit s c)\<rparr>)"

subsection \<open>References and links\<close>

definition hold_file :: "nat \<Rightarrow> nat \<Rightarrow> fsys \<Rightarrow> fsys" where
  "hold_file nr fd s = (case p_filp s nr fd of Some f \<Rightarrow> upd_file f (\<lambda>x. x\<lparr>f_count := f_count x + 1\<rparr>) s | None \<Rightarrow> s)"

definition hold_inode :: "nat option \<Rightarrow> fsys \<Rightarrow> fsys" where
  "hold_inode i s = (case i of Some i \<Rightarrow> upd_inode i (\<lambda>x. x\<lparr>i_count := i_count x + 1\<rparr>) s | None \<Rightarrow> s)"

definition hold_all :: "nat \<Rightarrow> fsys \<Rightarrow> fsys" where
  "hold_all nr s =
     (let s = fold (hold_file nr) [0..<NR_OPEN] s
      in hold_inode (p_library s (me s)) (hold_inode (p_executable s (me s))
           (hold_inode (p_root s (me s)) (hold_inode (p_pwd s (me s)) s))))"

definition set_descs :: "nat \<Rightarrow> psys \<Rightarrow> psys" where
  "set_descs nr s = s\<lparr>gdt := (gdt s)(2 * nr + FIRST_TSS_ENTRY := Tss_desc nr, 2 * nr + FIRST_LDT_ENTRY := Ldt_desc nr)\<rparr>"

definition link_child :: "nat \<Rightarrow> kernel \<Rightarrow> kernel" where
  "link_child nr k =
     (let older = t_cptr (cur k);
          k = assign (Some nr) (\<lambda>t. t\<lparr>t_pptr := Some (current k), t_cptr := None, t_ysptr := None, t_osptr := older\<rparr>) k;
          k = (if older \<noteq> None then assign older (\<lambda>t. t\<lparr>t_ysptr := Some nr\<rparr>) k else k);
          k = upd_cur (\<lambda>t. t\<lparr>t_cptr := Some nr\<rparr>) k
      in assign (Some nr) (\<lambda>t. t\<lparr>t_state := TASK_RUNNING\<rparr>) k)"

definition drop_task :: "nat \<Rightarrow> psys \<Rightarrow> psys" where
  "drop_task nr s = s\<lparr>fs := upd_kernel (\<lambda>k. k\<lparr>present := (present k)(nr := False)\<rparr>) (fs s)\<rparr>"

definition copy_process :: "nat \<Rightarrow> call_frame \<Rightarrow> psys \<Rightarrow> int forkres" where
  "copy_process nr a s =
     bindK (on_frames get_free_page s) (\<lambda>p s.
       if p = 0 then retK (- EAGAIN) s
       else bindK (copy_mem nr (enter_task nr p a s)) (\<lambda>e s.
         if e \<noteq> 0 then bindK (on_frames (free_page p) (drop_task nr s)) (\<lambda>_. retK (- EAGAIN))
         else let s = s\<lparr>fs := hold_all nr (fs s)\<rparr>;
                  s = set_descs nr s;
                  s = s\<lparr>fs := upd_kernel (link_child nr) (fs s)\<rparr>
              in retK (last_pid (kern (fs s))) s))"

end
