(* ===== verification/Fork_Props.thy ===== *)
theory Fork_Props
  imports Fork Exit_Props File_Props Mm_Props
begin

section \<open>Properties of fork\<close>

text \<open>
  The search for a process number ends, at a number no process or group has. A fork with enough memory makes the
  new task the youngest child of the current one in the process tree and keeps the counts of the file table right;
  one without leaves the task table as it was.
\<close>

subsection \<open>Process numbers\<close>

abbreviation (input) MAX_PID :: int where "MAX_PID \<equiv> 2 ^ 31 - 1"

lemma next_pid_cyclic: "0 \<le> p \<Longrightarrow> p \<le> MAX_PID \<Longrightarrow> next_pid p = p mod MAX_PID + 1"
  by (cases "p = MAX_PID") (auto simp: next_pid_def Let_def)

lemma next_pid_iter: "0 \<le> p \<Longrightarrow> p \<le> MAX_PID \<Longrightarrow> (next_pid ^^ Suc n) p = (p + int n) mod MAX_PID + 1"
proof (induction n)
  case 0
  then show ?case by (simp add: next_pid_cyclic)
next
  case (Suc n)
  define r where "r = (p + int n) mod MAX_PID"
  have r: "0 \<le> r" "r < MAX_PID" by (simp_all add: r_def)
  have "(next_pid ^^ Suc (Suc n)) p = next_pid (r + 1)" using Suc unfolding r_def by simp
  also have "\<dots> = (r + 1) mod MAX_PID + 1" by (rule next_pid_cyclic) (use r in simp_all)
  also have "(r + 1) mod MAX_PID = (p + int (Suc n)) mod MAX_PID" proof -
    have "(r + 1) mod MAX_PID = (p + int n + 1) mod MAX_PID" unfolding r_def by (rule mod_add_left_eq)
    then show ?thesis by (simp only: of_nat_Suc add.assoc add.commute[of 1])
  qed
  finally show ?case .
qed

lemma taken_few: "finite {p. pid_taken k p}" "card {p. pid_taken k p} \<le> 128"
proof -
  let ?S = "(\<lambda>i. t_pid (tasks k i)) ` {..<NR_TASKS} \<union> (\<lambda>i. t_pgrp (tasks k i)) ` {..<NR_TASKS}"
  have sub: "{p. pid_taken k p} \<subseteq> ?S" by (auto simp: pid_taken_def)
  then show "finite {p. pid_taken k p}" by (rule finite_subset) simp
  have "card ?S \<le> card ((\<lambda>i. t_pid (tasks k i)) ` {..<NR_TASKS}) + card ((\<lambda>i. t_pgrp (tasks k i)) ` {..<NR_TASKS})"
    by (rule card_Un_le)
  also have "\<dots> \<le> 64 + 64" by (rule add_mono; rule order_trans[OF card_image_le]) simp_all
  finally show "card {p. pid_taken k p} \<le> 128" using card_mono[OF _ sub] by simp
qed

lemma some_pid_free:
  assumes "0 \<le> p" "p \<le> MAX_PID"
  shows "\<exists>n<129. \<not> pid_taken k ((next_pid ^^ Suc n) p)"
proof (rule ccontr)
  assume no: "\<not> ?thesis"
  have "inj_on (\<lambda>n. (next_pid ^^ Suc n) p) {..<129}"
  proof (rule inj_onI)
    fix m n :: nat assume mn: "m \<in> {..<129}" "n \<in> {..<129}" and "(next_pid ^^ Suc m) p = (next_pid ^^ Suc n) p"
    then have "(p + int m) mod MAX_PID = (p + int n) mod MAX_PID" unfolding next_pid_iter[OF assms] by simp
    then have "MAX_PID dvd (p + int m) - (p + int n)" by (simp only: mod_eq_dvd_iff)
    then have dvd: "MAX_PID dvd int m - int n" by (simp only: add_diff_cancel_left)
    have small: "\<bar>int m - int n\<bar> < MAX_PID" using mn by simp
    have "int m - int n = 0" by (rule ccontr) (use dvd_imp_le_int[OF _ dvd] small in simp)
    then show "m = n" by simp
  qed
  then have "card ((\<lambda>n. (next_pid ^^ Suc n) p) ` {..<129}) = 129" by (simp add: card_image)
  moreover have "(\<lambda>n. (next_pid ^^ Suc n) p) ` {..<129} \<subseteq> {p. pid_taken k p}" using no by auto
  ultimately have "129 \<le> card {p. pid_taken k p}" using card_mono[OF taken_few(1)] by metis
  then show False using taken_few(2)[of k] by simp
qed

lemma find_pid_first:
  "\<not> pid_taken k ((next_pid ^^ Suc n) p) \<Longrightarrow> \<forall>m<n. pid_taken k ((next_pid ^^ Suc m) p) \<Longrightarrow>
     find_pid k p = Some ((next_pid ^^ Suc n) p)"
proof (induction n arbitrary: p)
  case 0
  then show ?case by (subst find_pid.simps) simp
next
  case (Suc n)
  have swap: "(next_pid ^^ Suc m) (next_pid p) = (next_pid ^^ Suc (Suc m)) p" for m by (simp add: funpow_swap1)
  have "pid_taken k (next_pid p)" using Suc.prems(2) by (elim allE[of _ 0]) simp
  then have "find_pid k p = find_pid k (next_pid p)" by (subst find_pid.simps) (simp add: Let_def)
  also have "\<dots> = Some ((next_pid ^^ Suc n) (next_pid p))"
  proof (rule Suc.IH)
    show "\<not> pid_taken k ((next_pid ^^ Suc n) (next_pid p))" using Suc.prems(1) by (simp only: swap not_False_eq_True)
    show "\<forall>m<n. pid_taken k ((next_pid ^^ Suc m) (next_pid p))"
      using Suc.prems(2) unfolding swap by (meson Suc_less_eq)
  qed
  finally show ?case by (simp only: swap)
qed

text \<open>C15. The search of \<^verbatim>\<open>find_empty_process\<close> ends. Whatever numbers the at most 64 processes and their groups
  have, it finds, after at most 129 rounds from \<^verbatim>\<open>last_pid\<close> on and wrapping around to 1, the first number
  that no process and no group has, and it returns the lowest free slot of the task table except slot 0, or EAGAIN when there is
  none.\<close>

theorem find_empty_process_fresh:
  assumes "0 \<le> last_pid k" "last_pid k < 2 ^ 31"
  shows "\<exists>r p n. find_empty_process k = Some (r, k\<lparr>last_pid := p\<rparr>) \<and>
    n < 129 \<and> p = (last_pid k + int n) mod MAX_PID + 1 \<and> 0 < p \<and> p < 2 ^ 31 \<and>
    (\<forall>i<NR_TASKS. present k i \<longrightarrow> t_pid (tasks k i) \<noteq> p \<and> t_pgrp (tasks k i) \<noteq> p) \<and>
    (\<forall>m<n. pid_taken k ((last_pid k + int m) mod MAX_PID + 1)) \<and>
    (if \<exists>i. 0 < i \<and> i < NR_TASKS \<and> \<not> present k i
     then \<exists>i. r = int i \<and> 0 < i \<and> i < NR_TASKS \<and> \<not> present k i \<and> (\<forall>j. 0 < j \<longrightarrow> j < i \<longrightarrow> present k j)
     else r = -11)"
proof -
  let ?l = "last_pid k" and ?it = "\<lambda>n. (next_pid ^^ Suc n) (last_pid k)"
  have it: "?it n = (?l + int n) mod MAX_PID + 1" for n by (rule next_pid_iter) (use assms in simp_all)
  obtain n0 where n0: "n0 < 129" "\<not> pid_taken k (?it n0)" using some_pid_free[of ?l k] assms by auto
  define n where "n = (LEAST n. \<not> pid_taken k (?it n))"
  have n: "\<not> pid_taken k (?it n)" unfolding n_def by (rule LeastI) (rule n0(2))
  have least: "\<forall>m<n. pid_taken k (?it m)" unfolding n_def by (blast dest: not_less_Least)
  have lt: "n < 129" unfolding n_def using Least_le[of "\<lambda>n. \<not> pid_taken k (?it n)" n0, OF n0(2)] n0(1) by simp
  have found: "find_pid k ?l = Some (?it n)" by (rule find_pid_first[OF n least])
  define r where "r = (case List.find (\<lambda>i. \<not> present k i) [1..<NR_TASKS] of Some i \<Rightarrow> int i | None \<Rightarrow> - EAGAIN)"
  have run: "find_empty_process k = Some (r, k\<lparr>last_pid := ?it n\<rparr>)"
    by (simp add: find_empty_process_def found r_def)
  have range: "0 < ?it n" "?it n < 2 ^ 31" using pos_mod_bound[of MAX_PID "?l + int n"] pos_mod_sign[of MAX_PID "?l + int n"]
    unfolding it by simp_all
  have fresh: "\<forall>i<NR_TASKS. present k i \<longrightarrow> t_pid (tasks k i) \<noteq> ?it n \<and> t_pgrp (tasks k i) \<noteq> ?it n"
    using n by (auto simp: pid_taken_def)
  have slots: "if \<exists>i. 0 < i \<and> i < NR_TASKS \<and> \<not> present k i
     then \<exists>i. r = int i \<and> 0 < i \<and> i < NR_TASKS \<and> \<not> present k i \<and> (\<forall>j. 0 < j \<longrightarrow> j < i \<longrightarrow> present k j)
     else r = -11"
  proof (cases "List.find (\<lambda>i. \<not> present k i) [1..<NR_TASKS]")
    case None
    then have "r = -11" by (simp add: r_def)
    moreover have "\<forall>i. 0 < i \<longrightarrow> i < NR_TASKS \<longrightarrow> present k i" using None by (auto simp: find_None_iff)
    ultimately show ?thesis by auto
  next
    case (Some i)
    then obtain j where j: "j < 63" "i = Suc j" "\<not> present k i" "\<forall>m<j. present k (Suc m)"
      by (auto simp: find_Some_iff nth_upt simp del: upt_Suc)
    have "\<forall>m. 0 < m \<longrightarrow> m < i \<longrightarrow> present k m" using j(2,4) by (metis Suc_less_eq gr0_conv_Suc)
    then show ?thesis using Some j by (auto simp: r_def intro!: exI[of _ i])
  qed
  show ?thesis
  proof (rule exI[of _ r], rule exI[of _ "?it n"], rule exI[of _ n], intro conjI)
    show "?it n = (?l + int n) mod MAX_PID + 1" by (rule it)
    show "\<forall>m<n. pid_taken k ((?l + int m) mod MAX_PID + 1)" using least unfolding it .
  qed (use run lt range fresh slots in auto)
qed

subsection \<open>The child in the process tree\<close>

lemma link_child_links:
  assumes "nr \<noteq> current k" "t_cptr (cur k) \<noteq> Some nr"
  shows "sib_links (tasks (link_child nr k) i) =
      (if i = nr then (Some (current k), None, t_cptr (cur k))
       else if t_cptr (cur k) = Some i then (t_pptr (tasks k i), Some nr, t_osptr (tasks k i)) else sib_links (tasks k i))"
    "t_cptr (tasks (link_child nr k) i) =
      (if i = nr then None else if i = current k then Some nr else t_cptr (tasks k i))"
  using assms unfolding link_child_def Let_def ptr_defs sib_links_def
  by (auto split: option.splits)

lemma link_child_rest [simp]:
  "present (link_child nr k) = present k" "current (link_child nr k) = current k" "last_pid (link_child nr k) = last_pid k"
  "nr \<noteq> current k \<Longrightarrow> t_state (tasks (link_child nr k) nr) = TASK_RUNNING"
  by (auto simp: link_child_def Let_def ptr_defs split: option.splits)

lemma link_child_own [simp]:
  "t_pid (tasks (link_child nr k) i) = t_pid (tasks k i)" "t_signal (tasks (link_child nr k) i) = t_signal (tasks k i)"
  "t_counter (tasks (link_child nr k) i) = t_counter (tasks k i)" "t_pgrp (tasks (link_child nr k) i) = t_pgrp (tasks k i)"
  "t_start_code (tasks (link_child nr k) i) = t_start_code (tasks k i)"
  "t_ldt_base (tasks (link_child nr k) i) = t_ldt_base (tasks k i)"
  by (auto simp: link_child_def Let_def ptr_defs split: option.splits)

lemma link_child_ptree:
  assumes tree: "ptree k ch" and c: "present k (current k2)" and nr: "0 < nr" "nr < NR_TASKS" "\<not> present k nr"
    and k2: "present k2 = (present k)(nr := True)" "\<And>i. i \<noteq> nr \<Longrightarrow> tasks k2 i = tasks k i"
  shows "ptree (link_child nr k2) (ch(nr := [], current k2 := nr # ch (current k2)))"
proof -
  define c where "c = current k2"
  define t where "t = tasks (link_child nr k2)"
  have cp: "present k c" using c by (simp add: c_def)
  have cn: "c \<noteq> nr" using cp nr(3) by auto
  have older: "t_cptr (cur k2) = t_cptr (tasks k c)" using k2(2)[of c] cn by (simp add: cur_def c_def)
  note D = ptreeD[OF tree]
  have seg_c: "seg (tasks k) c None (t_cptr (tasks k c)) (ch c) None" by (rule D(4)[OF cp])
  have first: "ch c = [] \<and> t_cptr (tasks k c) = None \<or> (\<exists>x xs. ch c = x # xs \<and> t_cptr (tasks k c) = Some x)"
    using seg_c by (cases "ch c") auto
  have kid: "x \<in> set (ch c)" if "t_cptr (tasks k c) = Some x" for x using that first by auto
  have not_nr: "j \<noteq> nr" if "present k i" "j \<in> set (ch i)" for i j using D(5)[OF that] nr(3) by auto
  have "t_cptr (cur k2) \<noteq> Some nr" using not_nr[OF cp kid] older by auto
  note L = link_child_links[OF cn[unfolded c_def, symmetric] this, folded t_def c_def, unfolded older]
  have other: "seg t i None (t_cptr (t i)) (ch i) None" if i: "present k i" "i \<noteq> c" for i
  proof -
    have "i \<noteq> nr" using i(1) nr(3) by auto
    then have "t_cptr (t i) = t_cptr (tasks k i)" using i(2) by (simp add: L(2) k2(2))
    moreover have "sib_links (t j) = sib_links (tasks k j)" if j: "j \<in> set (ch i)" for j
    proof -
      have "t_cptr (tasks k c) \<noteq> Some j" using ptree_one_parent[OF tree cp i(1) kid j] i(2) by auto
      then show ?thesis using not_nr[OF i(1) j] by (simp add: L(1) k2(2))
    qed
    ultimately show ?thesis using D(4)[OF i(1)] seg_cong[of "ch i" t "tasks k"] by simp
  qed
  have rest: "seg t c (Some nr) (t_cptr (tasks k c)) (ch c) None"
  proof (cases "ch c")
    case Nil
    then show ?thesis using first by auto
  next
    case (Cons x xs)
    have x: "t_cptr (tasks k c) = Some x" using first Cons by auto
    have xs: "x \<notin> set xs" using D(2)[OF cp] Cons by simp
    have "seg ((tasks k)(x := (tasks k x)\<lparr>t_ysptr := Some nr\<rparr>)) c (Some nr) (t_cptr (tasks k c)) (x # xs) None"
      by (rule seg_set_start[OF seg_c[unfolded Cons] xs])
    moreover have "sib_links (((tasks k)(x := (tasks k x)\<lparr>t_ysptr := Some nr\<rparr>)) j) = sib_links (t j)" if "j \<in> set (x # xs)" for j
    proof -
      have "j \<noteq> nr" using not_nr[OF cp, of j] that Cons by simp
      then have "sib_links (t j) = (if j = x then (t_pptr (tasks k x), Some nr, t_osptr (tasks k x)) else sib_links (tasks k j))"
        using x by (simp add: L(1) k2(2))
      then show ?thesis by (simp add: sib_links_def)
    qed
    ultimately show ?thesis using seg_cong[of "x # xs"] unfolding Cons by blast
  qed
  have own: "t_pptr (t nr) = Some c \<and> t_ysptr (t nr) = None \<and> t_osptr (t nr) = t_cptr (tasks k c)" "t_cptr (t nr) = None"
    using L(1)[of nr] L(2)[of nr] by (simp_all add: sib_links_def)
  let ?ch = "ch(nr := [], c := nr # ch c)"
  have segs: "seg t i None (t_cptr (t i)) (?ch i) None" if i: "present k i \<or> i = nr" for i
  proof -
    consider "i = nr" | "i = c" | "i \<noteq> nr" "i \<noteq> c" "present k i" using i by blast
    then show ?thesis
    proof cases
      case 2
      then show ?thesis using own(1) rest cn L(2)[of c] by simp
    qed (use own(2) cn other in simp_all)
  qed
  have "ptree (link_child nr k2) ?ch"
  proof (rule ptreeI)
    fix i assume "present (link_child nr k2) i"
    then have i: "present k i \<or> i = nr" by (auto simp: k2(1) split: if_splits)
    then show "i < NR_TASKS" using D(1) nr(2) by auto
    show "distinct (?ch i)" using i D(2) not_nr[OF cp, of nr] cp by auto
    show "i \<notin> set (?ch i)" using i D(3) cn by auto
    show "seg (tasks (link_child nr k2)) i None (t_cptr (tasks (link_child nr k2) i)) (?ch i) None"
      using segs[OF i] by (simp only: t_def)
    fix j assume "j \<in> set (?ch i)"
    then show "present (link_child nr k2) j \<and> 0 < j" using i D(5) nr(1) cp by (auto simp: k2(1) split: if_splits)
  next
    fix j assume "present (link_child nr k2) j" "0 < j"
    then consider "j = nr" | "present k j" "j \<noteq> nr" by (auto simp: k2(1) split: if_splits)
    then show "\<exists>i. present (link_child nr k2) i \<and> j \<in> set (?ch i)"
    proof cases
      case 1
      then show ?thesis using cp by (intro exI[of _ c]) (simp add: k2(1))
    next
      case 2
      then obtain i where "present k i" "j \<in> set (ch i)" using ptree_parent[OF tree _ \<open>0 < j\<close>] by blast
      then show ?thesis using nr(3) by (intro exI[of _ i]) (auto simp: k2(1))
    qed
  qed
  then show ?thesis by (simp only: c_def)
qed


subsection \<open>References\<close>

definition refs :: "nat \<Rightarrow> nat option list \<Rightarrow> u16" where
  "refs i l = of_nat (length (filter (\<lambda>x. x = Some i) l))"

lemma counts_word: "counts_ok s \<Longrightarrow> f_count (files s f) = of_nat (card (holders f s))"
  unfolding counts_ok_def by (metis of_nat_unat ucast_id)

lemma hold_files:
  "\<exists>F. fold (hold_file nr) [0..<n] s = s\<lparr>files := F\<rparr> \<and>
     (\<forall>f. f_count (F f) = f_count (files s f) + of_nat (card {fd. fd < n \<and> p_filp s nr fd = Some f}))"
proof (induction n)
  case 0
  show ?case by (intro exI[of _ "files s"]) simp
next
  case (Suc n)
  then obtain F where F: "fold (hold_file nr) [0..<n] s = s\<lparr>files := F\<rparr>"
    "\<And>f. f_count (F f) = f_count (files s f) + of_nat (card {fd. fd < n \<and> p_filp s nr fd = Some f})" by blast
  have step: "{fd. fd < Suc n \<and> p_filp s nr fd = Some f} =
      (if p_filp s nr n = Some f then insert n {fd. fd < n \<and> p_filp s nr fd = Some f} else {fd. fd < n \<and> p_filp s nr fd = Some f})" for f
    by (auto simp: less_Suc_eq)
  show ?case
  proof (cases "p_filp s nr n")
    case None
    then have "hold_file nr n (s\<lparr>files := F\<rparr>) = s\<lparr>files := F\<rparr>" by (simp add: hold_file_def)
    then show ?thesis using F None by (intro exI[of _ F]) (simp add: step)
  next
    case (Some g)
    then have "hold_file nr n (s\<lparr>files := F\<rparr>) = s\<lparr>files := F(g := (F g)\<lparr>f_count := f_count (F g) + 1\<rparr>)\<rparr>"
      by (simp add: hold_file_def upd_file_def)
    then show ?thesis using F Some
      by (intro exI[of _ "F(g := (F g)\<lparr>f_count := f_count (F g) + 1\<rparr>)"]) (auto simp: step fun_upd_def)
  qed
qed

lemma hold_inode_rest [simp]:
  "kern (hold_inode i s) = kern s" "pages (hold_inode i s) = pages s" "files (hold_inode i s) = files s"
  "p_filp (hold_inode i s) = p_filp s" "p_pwd (hold_inode i s) = p_pwd s" "p_root (hold_inode i s) = p_root s"
  "p_executable (hold_inode i s) = p_executable s" "p_library (hold_inode i s) = p_library s" "me (hold_inode i s) = me s"
  "i_count (inodes (hold_inode i s) j) = i_count (inodes s j) + refs j [i]"
  by (auto simp: hold_inode_def upd_inode_def me_def refs_def split: option.splits)

lemma hold_all_spec:
  obtains F where "files (hold_all nr s) = F" "kern (hold_all nr s) = kern s" "pages (hold_all nr s) = pages s"
    "p_filp (hold_all nr s) = p_filp s"
    "\<And>f. f_count (F f) = f_count (files s f) + of_nat (card {fd. fd < NR_OPEN \<and> p_filp s nr fd = Some f})"
    "\<And>i. i_count (inodes (hold_all nr s) i) =
       i_count (inodes s i) + refs i [p_pwd s (me s), p_root s (me s), p_executable s (me s), p_library s (me s)]"
proof -
  obtain F where F: "fold (hold_file nr) [0..<NR_OPEN] s = s\<lparr>files := F\<rparr>"
    "\<And>f. f_count (F f) = f_count (files s f) + of_nat (card {fd. fd < NR_OPEN \<and> p_filp s nr fd = Some f})"
    using hold_files[of nr NR_OPEN s] by blast
  note h = hold_all_def Let_def F(1)
  show ?thesis
    by (rule that[of F]) (simp_all only: h hold_inode_rest F(2), simp_all add: me_def refs_def)
qed


subsection \<open>Fork\<close>

text \<open>The state when the memory has been copied.\<close>

definition forked :: "nat \<Rightarrow> u32 \<Rightarrow> call_frame \<Rightarrow> mm \<Rightarrow> psys \<Rightarrow> psys" where
  "forked nr p a m s =
     (let s = enter_task nr p a s; base = of_nat nr * TASK_SIZE;
          f = upd_kernel (assign (Some nr) (\<lambda>t. t\<lparr>t_start_code := base, t_ldt_base := base\<rparr>)) (fs s)
      in s\<lparr>fs := f\<lparr>pages := m\<rparr>, code_base := (code_base s)(nr := base)\<rparr>)"

lemma forked_fields [simp]:
  "kern (fs (forked nr p a m s)) = (let k = kern (fs s) in k\<lparr>present := (present k)(nr := True),
     tasks := (tasks k)(nr := (child_task k)\<lparr>t_start_code := of_nat nr * TASK_SIZE, t_ldt_base := of_nat nr * TASK_SIZE\<rparr>)\<rparr>)"
  "pages (fs (forked nr p a m s)) = m" "files (fs (forked nr p a m s)) = files (fs s)"
  "inodes (fs (forked nr p a m s)) = inodes (fs s)" "me (fs (forked nr p a m s)) = my s"
  "p_filp (fs (forked nr p a m s)) = (p_filp (fs s))(nr := p_filp (fs s) (my s))"
  "p_pwd (fs (forked nr p a m s)) = (p_pwd (fs s))(nr := p_pwd (fs s) (my s))"
  "p_root (fs (forked nr p a m s)) = (p_root (fs s))(nr := p_root (fs s) (my s))"
  "p_executable (fs (forked nr p a m s)) = (p_executable (fs s))(nr := p_executable (fs s) (my s))"
  "p_library (fs (forked nr p a m s)) = (p_library (fs s))(nr := p_library (fs s) (my s))"
  "tsss (forked nr p a m s) = (tsss s)(nr := child_tss nr p a (tsss s (my s)))"
  by (simp_all add: forked_def enter_task_def upd_kernel_def assign_def Let_def my_def me_def)

lemma on_frames_runs: "f (pages (fs s)) = Inr (x, m) \<Longrightarrow> on_frames f s = Inr (x, s\<lparr>fs := (fs s)\<lparr>pages := m\<rparr>\<rparr>)"
  by (simp add: on_fs_def on_pages_def)

lemma copy_mem_forked:
  assumes "my s \<noteq> nr" "t_ldt_base (cur (kern (fs s))) = code_base s (my s)" "code_limit s (my s) \<le> t_ldt_limit (cur (kern (fs s)))"
    and "copy_page_tables (code_base s (my s)) (of_nat nr * TASK_SIZE) (t_ldt_limit (cur (kern (fs s)))) m1 = Inr (e, m2)"
  shows "copy_mem nr (enter_task nr p a (s\<lparr>fs := (fs s)\<lparr>pages := m1\<rparr>\<rparr>)) =
    (if e = 0 then Inr (0, forked nr p a m2 s)
     else bindK (on_frames (free_page_tables (of_nat nr * TASK_SIZE) (t_ldt_limit (cur (kern (fs s))))) (forked nr p a m2 s))
       (\<lambda>_. retK (- ENOMEM)))"
proof -
  define s1 where "s1 = enter_task nr p a (s\<lparr>fs := (fs s)\<lparr>pages := m1\<rparr>\<rparr>)"
  have c: "current (kern (fs s)) \<noteq> nr" using assms(1) by (simp add: my_def me_def)
  have 1: "cur (kern (fs s1)) = cur (kern (fs s))" "my s1 = my s" "code_limit s1 (my s) = code_limit s (my s)"
    "code_base s1 (my s) = code_base s (my s)" "pages (fs s1) = m1"
    using c by (simp_all add: s1_def enter_task_def cur_def my_def me_def Let_def)
  define b where "b = of_nat nr * TASK_SIZE"
  define s2 where "s2 = s1\<lparr>fs := upd_kernel (assign (Some nr) (\<lambda>t. t\<lparr>t_start_code := b, t_ldt_base := b\<rparr>)) (fs s1),
     code_base := (code_base s1)(nr := b)\<rparr>"
  have 2: "s2\<lparr>fs := (fs s2)\<lparr>pages := m2\<rparr>\<rparr> = forked nr p a m2 s" "pages (fs s2) = m1"
    by (simp_all add: s2_def s1_def b_def forked_def enter_task_def Let_def upd_kernel_def assign_def my_def me_def)
  have "\<not> t_ldt_limit (cur (kern (fs s))) < code_limit s (my s)" using assms(3) by simp
  then have "copy_mem nr s1 = bindK (on_frames (copy_page_tables (code_base s (my s)) b (t_ldt_limit (cur (kern (fs s))))) s2)
      (\<lambda>e s'. if e \<noteq> 0 then bindK (on_frames (free_page_tables b (t_ldt_limit (cur (kern (fs s))))) s') (\<lambda>_. retK (- ENOMEM))
              else retK 0 s')"
    unfolding copy_mem_def Let_def 1 assms(2) s2_def b_def by simp
  also have "on_frames (copy_page_tables (code_base s (my s)) b (t_ldt_limit (cur (kern (fs s))))) s2 = Inr (e, forked nr p a m2 s)"
    by (subst on_frames_runs[of _ s2 e m2]) (use assms(4) in \<open>simp_all only: 2 b_def\<close>)
  finally have "copy_mem nr s1 = (if e = 0 then Inr (0, forked nr p a m2 s)
     else bindK (on_frames (free_page_tables b (t_ldt_limit (cur (kern (fs s))))) (forked nr p a m2 s)) (\<lambda>_. retK (- ENOMEM)))"
    by (simp add: retK_def)
  then show ?thesis by (simp only: s1_def b_def)
qed

text \<open>C3. A fork that finds memory. Let the process tree \<open>ch\<close> and the counts of the file table be right, and let \<open>nr\<close> be a
  free slot. When there is a page for the task structure and the page tables can be copied, \<^verbatim>\<open>copy_process\<close>
  returns \<^verbatim>\<open>last_pid\<close>; the new task has this number, is runnable, has no pending signal and its own part of
  the linear address space, and will return 0 from the call; it is the youngest child of the current process and
  has no children; the counts of the file table are right again, the child having the files of its parent; and each
  of its four inodes is counted once more.\<close>

theorem fork_new_child:
  assumes tree: "ptree (kern (fs s)) ch" "present (kern (fs s)) (my s)"
    and slot: "0 < nr" "nr < NR_TASKS" "\<not> present (kern (fs s)) nr" "p_filp (fs s) nr = (\<lambda>_. None)"
    and counts: "counts_ok (fs s)"
    and base: "t_ldt_base (cur (kern (fs s))) = code_base s (my s)" "code_limit s (my s) \<le> t_ldt_limit (cur (kern (fs s)))"
    and page: "get_free_page (pages (fs s)) = Inr (p, m1)" "p \<noteq> 0"
    and tables: "copy_page_tables (code_base s (my s)) (of_nat nr * TASK_SIZE) (t_ldt_limit (cur (kern (fs s)))) m1 = Inr (0, m2)"
  shows "\<exists>t. copy_process nr a s = Inr (last_pid (kern (fs s)), t) \<and> pages (fs t) = m2 \<and>
    present (kern (fs t)) = (present (kern (fs s)))(nr := True) \<and>
    ptree (kern (fs t)) (ch(nr := [], my s := nr # ch (my s))) \<and>
    (let c = tasks (kern (fs t)) nr in t_pid c = last_pid (kern (fs s)) \<and> t_pgrp c = t_pgrp (cur (kern (fs s))) \<and>
       t_state c = TASK_RUNNING \<and> t_signal c = 0 \<and> t_start_code c = of_nat nr * TASK_SIZE \<and> t_ldt_base c = of_nat nr * TASK_SIZE) \<and>
    r_eax (tsss t nr) = 0 \<and> r_eip (tsss t nr) = a_eip a \<and> r_esp (tsss t nr) = a_esp a \<and>
    counts_ok (fs t) \<and> p_filp (fs t) nr = p_filp (fs s) (my s) \<and>
    (\<forall>i. i_count (inodes (fs t) i) = i_count (inodes (fs s) i)
       + refs i [p_pwd (fs s) (my s), p_root (fs s) (my s), p_executable (fs s) (my s), p_library (fs s) (my s)])"
proof -
  let ?k = "kern (fs s)"
  have c: "my s \<noteq> nr" using tree(2) slot(3) by auto
  have mine: "current ?k = my s" by (simp add: my_def me_def)
  define s2 where "s2 = forked nr p a m2 s"
  obtain F where H: "files (hold_all nr (fs s2)) = F" "kern (hold_all nr (fs s2)) = kern (fs s2)"
      "pages (hold_all nr (fs s2)) = pages (fs s2)" "p_filp (hold_all nr (fs s2)) = p_filp (fs s2)"
      "\<And>f. f_count (F f) = f_count (files (fs s2) f) + of_nat (card {fd. fd < NR_OPEN \<and> p_filp (fs s2) nr fd = Some f})"
      "\<And>i. i_count (inodes (hold_all nr (fs s2)) i) = i_count (inodes (fs s2) i)
        + refs i [p_pwd (fs s2) (me (fs s2)), p_root (fs s2) (me (fs s2)), p_executable (fs s2) (me (fs s2)), p_library (fs s2) (me (fs s2))]"
    by (rule hold_all_spec[of nr "fs s2"], rule that)
  define t where "t = (set_descs nr (s2\<lparr>fs := hold_all nr (fs s2)\<rparr>))\<lparr>fs := upd_kernel (link_child nr) (hold_all nr (fs s2))\<rparr>"
  have pid: "last_pid (kern (fs s2)) = last_pid ?k" by (simp add: s2_def Let_def)
  have run: "copy_process nr a s = Inr (last_pid ?k, t)"
    unfolding copy_process_def on_frames_runs[of get_free_page, OF page(1)]
    using page(2) by (simp add: copy_mem_forked[OF c base tables] s2_def[symmetric] t_def set_descs_def Let_def retK_def upd_kernel_def H(2) pid)
  have kt: "kern (fs t) = link_child nr (kern (fs s2))" by (simp add: t_def upd_kernel_def H(2))
  have rest: "pages (fs t) = m2" "p_filp (fs t) = p_filp (fs s2)" "files (fs t) = F" "inodes (fs t) = inodes (hold_all nr (fs s2))"
    "tsss t = tsss s2" by (simp_all add: t_def upd_kernel_def H set_descs_def) (simp_all add: s2_def)
  have cur2: "current (kern (fs s2)) = my s" by (simp add: s2_def Let_def mine)
  have tree': "ptree (kern (fs t)) (ch(nr := [], my s := nr # ch (my s)))"
    unfolding kt cur2[symmetric]
    by (rule link_child_ptree[OF tree(1) _ slot(1-3)]) (use tree(2) in \<open>simp_all add: cur2, simp_all add: s2_def Let_def\<close>)
  have task: "let c = tasks (kern (fs t)) nr in t_pid c = last_pid ?k \<and> t_pgrp c = t_pgrp (cur ?k) \<and>
       t_state c = TASK_RUNNING \<and> t_signal c = 0 \<and> t_start_code c = of_nat nr * TASK_SIZE \<and> t_ldt_base c = of_nat nr * TASK_SIZE"
    using c unfolding kt Let_def by (simp add: cur2) (simp add: s2_def Let_def child_task_def)
  have filp: "p_filp (fs t) = (p_filp (fs s))(nr := p_filp (fs s) (my s))" by (simp add: rest(2) s2_def)
  have hold: "holders f (fs t) = holders f (fs s) \<union> Pair nr ` {fd. fd < NR_OPEN \<and> p_filp (fs s) (my s) fd = Some f}" for f
    using slot(2,4) by (auto simp: holders_def filp split: if_splits)
  have "card (holders f (fs t)) = card (holders f (fs s)) + card {fd. fd < NR_OPEN \<and> p_filp (fs s) (my s) fd = Some f}" for f
  proof -
    have "holders f (fs s) \<inter> Pair nr ` {fd. fd < NR_OPEN \<and> p_filp (fs s) (my s) fd = Some f} = {}"
      using slot(4) by (auto simp: holders_def)
    then show ?thesis unfolding hold by (subst card_Un_disjoint) (auto simp: card_image inj_on_def)
  qed
  moreover have "f_count (F f) = of_nat (card (holders f (fs s)) + card {fd. fd < NR_OPEN \<and> p_filp (fs s) (my s) fd = Some f})" for f
    using counts_word[OF counts, of f] by (simp add: H(5) s2_def)
  ultimately have "unat (f_count (F f)) = card (holders f (fs t))" for f
    using card_holders[of f "fs t"] by (simp add: unat_of_nat take_bit_nat_eq_self del: of_nat_add)
  then have counts': "counts_ok (fs t)" by (simp add: counts_ok_def rest(3))
  have inode: "i_count (inodes (fs t) i) = i_count (inodes (fs s) i)
       + refs i [p_pwd (fs s) (my s), p_root (fs s) (my s), p_executable (fs s) (my s), p_library (fs s) (my s)]" for i
    using c unfolding rest(4) H(6) by (simp add: s2_def)
  have "tsss t nr = child_tss nr p a (tsss s (my s))" by (simp add: rest(5) s2_def)
  then have regs: "r_eax (tsss t nr) = 0" "r_eip (tsss t nr) = a_eip a" "r_esp (tsss t nr) = a_esp a" by (simp_all add: child_tss_def)
  have pres: "present (kern (fs t)) = (present ?k)(nr := True)" by (simp add: kt) (simp add: s2_def Let_def)
  show ?thesis using run rest(1) pres tree' task regs counts' inode filp by (intro exI[of _ t]) simp
qed

text \<open>C19. A fork that finds no memory. When there is no page for the task structure, or the page tables cannot be copied
  (what has been copied is freed again), \<^verbatim>\<open>copy_process\<close> returns EAGAIN; the slot is free again, no other
  task has changed, so that the process tree is what it was, and no file or inode is counted.\<close>

theorem fork_no_memory:
  assumes tree: "ptree (kern (fs s)) ch" "present (kern (fs s)) (my s)" and slot: "\<not> present (kern (fs s)) nr"
    and base: "t_ldt_base (cur (kern (fs s))) = code_base s (my s)" "code_limit s (my s) \<le> t_ldt_limit (cur (kern (fs s)))"
    and fails: "get_free_page (pages (fs s)) = Inr (0, m) \<or>
      (\<exists>p m1 e m2 x m3. get_free_page (pages (fs s)) = Inr (p, m1) \<and> p \<noteq> 0 \<and> e \<noteq> 0 \<and>
        copy_page_tables (code_base s (my s)) (of_nat nr * TASK_SIZE) (t_ldt_limit (cur (kern (fs s)))) m1 = Inr (e, m2) \<and>
        free_page_tables (of_nat nr * TASK_SIZE) (t_ldt_limit (cur (kern (fs s)))) m2 = Inr (x, m3) \<and>
        free_page p m3 = Inr ((), m))"
  shows "\<exists>t. copy_process nr a s = Inr (-11, t) \<and> pages (fs t) = m \<and> present (kern (fs t)) = present (kern (fs s)) \<and>
    (\<forall>i. i \<noteq> nr \<longrightarrow> tasks (kern (fs t)) i = tasks (kern (fs s)) i) \<and> ptree (kern (fs t)) ch \<and>
    files (fs t) = files (fs s) \<and> inodes (fs t) = inodes (fs s)"
  using fails
proof (elim disjE exE conjE)
  assume "get_free_page (pages (fs s)) = Inr (0, m)"
  then have "copy_process nr a s = Inr (-11, s\<lparr>fs := (fs s)\<lparr>pages := m\<rparr>\<rparr>)"
    by (simp add: copy_process_def on_frames_runs retK_def)
  then show ?thesis using tree(1) by simp
next
  fix p m1 e m2 x m3
  assume page: "get_free_page (pages (fs s)) = Inr (p, m1)" "p \<noteq> 0" and "e \<noteq> 0"
    and tables: "copy_page_tables (code_base s (my s)) (of_nat nr * TASK_SIZE) (t_ldt_limit (cur (kern (fs s)))) m1 = Inr (e, m2)"
    and freed: "free_page_tables (of_nat nr * TASK_SIZE) (t_ldt_limit (cur (kern (fs s)))) m2 = Inr (x, m3)" "free_page p m3 = Inr ((), m)"
  have c: "my s \<noteq> nr" using tree(2) slot by auto
  define s3 where "s3 = (forked nr p a m2 s)\<lparr>fs := (fs (forked nr p a m2 s))\<lparr>pages := m3\<rparr>\<rparr>"
  define t where "t = (drop_task nr s3)\<lparr>fs := (fs (drop_task nr s3))\<lparr>pages := m\<rparr>\<rparr>"
  have f1: "on_frames (free_page_tables (of_nat nr * TASK_SIZE) (t_ldt_limit (cur (kern (fs s))))) (forked nr p a m2 s) = Inr (x, s3)"
    unfolding s3_def by (rule on_frames_runs) (simp add: freed(1))
  have f2: "on_frames (free_page p) (drop_task nr s3) = Inr ((), t)"
    unfolding t_def by (rule on_frames_runs) (simp add: drop_task_def upd_kernel_def s3_def freed(2))
  have "copy_process nr a s = Inr (-11, t)"
    unfolding copy_process_def on_frames_runs[of get_free_page, OF page(1)]
    using page(2) \<open>e \<noteq> 0\<close> by (simp add: copy_mem_forked[OF c base tables] f1 f2 retK_def)
  moreover have same: "present (kern (fs t)) = present (kern (fs s))" "\<And>i. i \<noteq> nr \<Longrightarrow> tasks (kern (fs t)) i = tasks (kern (fs s)) i"
    using slot by (simp_all add: t_def drop_task_def upd_kernel_def s3_def Let_def fun_eq_iff)
  moreover have "ptree (kern (fs t)) ch"
  proof (rule ptreeI)
    fix i assume "present (kern (fs t)) i"
    then have i: "present (kern (fs s)) i" by (simp add: same)
    note D = ptreeD[OF tree(1) i]
    show "i < NR_TASKS" "distinct (ch i)" "i \<notin> set (ch i)" by (rule D)+
    show "present (kern (fs t)) j \<and> 0 < j" if "j \<in> set (ch i)" for j using D(5)[OF that] by (simp add: same)
    have "i \<noteq> nr" using i slot by auto
    moreover have "seg (tasks (kern (fs t))) i None p (ch i) None = seg (tasks (kern (fs s))) i None p (ch i) None" for p
    proof (rule seg_cong)
      fix j assume "j \<in> set (ch i)"
      then have "j \<noteq> nr" using D(5) slot by auto
      then show "sib_links (tasks (kern (fs t)) j) = sib_links (tasks (kern (fs s)) j)" by (simp add: same)
    qed
    ultimately show "seg (tasks (kern (fs t))) i None (t_cptr (tasks (kern (fs t)) i)) (ch i) None" using D(4) by (simp add: same(2))
  next
    fix j assume "present (kern (fs t)) j" "0 < j"
    then show "\<exists>i. present (kern (fs t)) i \<and> j \<in> set (ch i)" using ptree_parent[OF tree(1)] by (simp add: same)
  qed
  moreover have "pages (fs t) = m" "files (fs t) = files (fs s)" "inodes (fs t) = inodes (fs s)"
    by (simp_all add: t_def drop_task_def upd_kernel_def s3_def)
  ultimately show ?thesis using same by blast
qed

subsection \<open>Witnesses\<close>

definition tss_zero :: tss where
  "tss_zero = \<lparr>back_link = 0, esp0 = 0, ss0 = 0, esp1 = 0, ss1 = 0, esp2 = 0, ss2 = 0, cr3 = 0, r_eip = 0, r_eflags = 0,
     r_eax = 0, r_ecx = 0, r_edx = 0, r_ebx = 0, r_esp = 0, r_ebp = 0, r_esi = 0, r_edi = 0, r_es = 0, r_cs = 0, r_ss = 0,
     r_ds = 0, r_fs = 0, r_gs = 0, r_ldt = 0, trace_bitmap = 0\<rparr>"

definition frame_zero :: call_frame where
  "frame_zero = \<lparr>a_ebp = 0, a_edi = 0, a_esi = 0, a_gs = 0, a_ebx = 0, a_ecx = 0, a_edx = 0, a_fs = 0, a_es = 0, a_ds = 0,
     a_eip = 0x1234, a_cs = 0, a_eflags = 0, a_esp = 0, a_ss = 0\<rparr>"

text \<open>Task 2 of \<open>tree_kernel\<close> has files 0 and 1 open, slot 5 is free, and the page directory is empty.\<close>

definition fork_state :: psys where
  "fork_state = \<lparr>fs = fsys0\<lparr>kern := tree_kernel, p_filp := (\<lambda>p fd. if p = 2 \<and> fd < 2 then Some fd else None),
       files := (\<lambda>f. if f < 2 then file0\<lparr>f_count := 1, f_inode := Some 7\<rparr> else file0), p_pwd := (\<lambda>_. Some 3)\<rparr>,
     tsss = (\<lambda>_. tss_zero), code_base = (\<lambda>_. 0), code_limit = (\<lambda>_. 0xa0000), task_page = (\<lambda>_. 0),
     gdt = (\<lambda>_. Other_desc)\<rparr>"

lemma fork_state_ok:
  "my fork_state = 2" "kern (fs fork_state) = tree_kernel" "present tree_kernel 2" "\<not> present tree_kernel 5"
  "p_filp (fs fork_state) 5 = (\<lambda>_. None)" "t_ldt_base (cur tree_kernel) = 0" "code_base fork_state = (\<lambda>_. 0)"
  "code_limit fork_state 2 \<le> t_ldt_limit (cur tree_kernel)" "t_ldt_limit (cur tree_kernel) = 0xa0000"
  by (simp_all add: fork_state_def my_def me_def tree_kernel_def cur_def kernel0_def task0_def)

lemma fork_state_counts: "counts_ok (fs fork_state)"
proof -
  have "holders f (fs fork_state) = (if f < 2 then {(2, f)} else {})" for f
    by (auto simp: holders_def fork_state_def split: if_splits)
  then show ?thesis by (simp add: counts_ok_def) (simp add: fork_state_def file0_def)
qed

lemma fork_state_memory:
  "get_free_page (pages (fs fork_state)) = Inr (0xfff000, take_frame 3839 mm0)"
  "copy_page_tables 0 (of_nat 5 * TASK_SIZE) 0xa0000 (take_frame 3839 mm0) = Inr (0, invalidate (take_frame 3839 mm0))"
proof -
  have "pages (fs fork_state) = mm0" by (simp add: fork_state_def fsys0_def)
  then show "get_free_page (pages (fs fork_state)) = Inr (0xfff000, take_frame 3839 mm0)"
    using get_free_page_direct[of mm0 3839] by (simp add: scan_down_last PAGING_PAGES_def mm0_def last_frame)
  have "mem (take_frame 3839 mm0) a = 0" for a by (simp add: take_frame_def mm0_def fill_page_def)
  then show "copy_page_tables 0 (of_nat 5 * TASK_SIZE) 0xa0000 (take_frame 3839 mm0) = Inr (0, invalidate (take_frame 3839 mm0))"
    by (simp add: copy_page_tables_def TASK_SIZE_def drop_bit_eq_div retK_def)
qed

theorem find_empty_process_fresh_witness:
  "\<exists>r p. find_empty_process tree_kernel = Some (r, tree_kernel\<lparr>last_pid := p\<rparr>) \<and> r = 5 \<and> 0 < p \<and> p \<noteq> 1 \<and> p \<noteq> 7"
proof -
  have "0 \<le> last_pid tree_kernel" "last_pid tree_kernel < 2 ^ 31" by (simp_all add: tree_kernel_def kernel0_def)
  from find_empty_process_fresh[OF this] obtain r p where f: "find_empty_process tree_kernel = Some (r, tree_kernel\<lparr>last_pid := p\<rparr>)" "0 < p"
    "\<forall>i<NR_TASKS. present tree_kernel i \<longrightarrow> t_pid (tasks tree_kernel i) \<noteq> p \<and> t_pgrp (tasks tree_kernel i) \<noteq> p"
    "if \<exists>i. 0 < i \<and> i < NR_TASKS \<and> \<not> present tree_kernel i
     then \<exists>i. r = int i \<and> 0 < i \<and> i < NR_TASKS \<and> \<not> present tree_kernel i \<and> (\<forall>j. 0 < j \<longrightarrow> j < i \<longrightarrow> present tree_kernel j)
     else r = -11" by blast
  have pres: "present tree_kernel i \<longleftrightarrow> i < 5" for i by (simp add: tree_kernel_def)
  have "\<exists>i. 0 < i \<and> i < NR_TASKS \<and> \<not> present tree_kernel i" by (intro exI[of _ 5]) (simp add: pres)
  then obtain i where i: "r = int i" "\<not> present tree_kernel i" "\<forall>j. 0 < j \<longrightarrow> j < i \<longrightarrow> present tree_kernel j" using f(4) by auto
  have "i = 5" by (cases i "5 :: nat" rule: linorder_cases) (use i(2) i(3)[rule_format, of 5] in \<open>auto simp: pres\<close>)
  moreover have "p \<noteq> 1" "p \<noteq> 7" using f(3)[rule_format, of 1] f(3)[rule_format, of 2] by (auto simp: pres tree_kernel_def)
  ultimately show ?thesis using f(1,2) i(1) by auto
qed

theorem fork_new_child_witness:
  "\<exists>t. copy_process 5 frame_zero fork_state = Inr (0, t) \<and> ptree (kern (fs t)) ((\<lambda>_. [])(0 := [2, 1], 2 := [5, 4, 3])) \<and>
    r_eip (tsss t 5) = 0x1234 \<and> counts_ok (fs t)"
proof -
  note ok = fork_state_ok
  have tree: "ptree (kern (fs fork_state)) tree_children" "present (kern (fs fork_state)) (my fork_state)"
    by (simp_all add: ok tree_ptree)
  have slot: "0 < (5::nat)" "5 < NR_TASKS" "\<not> present (kern (fs fork_state)) 5" by (simp_all add: ok)
  have base: "t_ldt_base (cur (kern (fs fork_state))) = code_base fork_state (my fork_state)"
    "code_limit fork_state (my fork_state) \<le> t_ldt_limit (cur (kern (fs fork_state)))"
    using ok(8) by (simp_all add: ok)
  have mem: "copy_page_tables (code_base fork_state (my fork_state)) (of_nat 5 * TASK_SIZE)
      (t_ldt_limit (cur (kern (fs fork_state)))) (take_frame 3839 mm0) = Inr (0, invalidate (take_frame 3839 mm0))"
    using fork_state_memory(2) by (simp only: ok)
  have kids: "tree_children(5 := [], my fork_state := 5 # tree_children (my fork_state)) = (\<lambda>_. [])(0 := [2, 1], 2 := [5, 4, 3])"
    by (simp add: ok tree_children_def fun_eq_iff)
  have pid: "last_pid (kern (fs fork_state)) = 0" by (simp add: ok(2)) (simp add: tree_kernel_def kernel0_def)
  from fork_new_child[OF tree slot ok(5) fork_state_counts base fork_state_memory(1) _ mem, of frame_zero, unfolded kids pid]
  show ?thesis by (auto simp: frame_zero_def)
qed

lemma find_dir_empty:
  "(\<And>d. mem s d = 0) \<Longrightarrow> \<exists>c' q s'. find_dir c p s = (c', q, s') \<and> c' \<le> 0"
proof (induction c p s rule: find_dir.induct)
  case (1 c p s)
  show ?case
  proof (cases "c \<le> 0")
    case True
    then show ?thesis by (subst find_dir.simps) simp
  next
    case False
    have "pg_dir s (dir_entry s) = 0" using "1.prems" by (simp add: pg_dir_def)
    then show ?thesis using "1.IH"[OF False refl] "1.prems" False by (subst find_dir.simps) (simp add: Let_def)
  qed
qed

lemma no_page_at_all:
  assumes "\<And>d. mem s d = 0" "\<And>i. mem_map s i \<noteq> 0"
  shows "\<exists>m. get_free_page s = Inr (0, m)"
proof -
  obtain c q s' where d: "find_dir VM_PAGES 0 s = (c, q, s')" "c \<le> 0" using find_dir_empty[of s VM_PAGES 0] assms(1) by blast
  have "swap_out s = Inr (False, printk ''Out of swap-memory'' s')"
    using d(2) by (simp add: swap_out_def d(1) swap_scan.simps retK_def)
  moreover have "scan_down (mem_map s) PAGING_PAGES = None" using assms(2) by (simp add: scan_down_None)
  ultimately show ?thesis by (subst get_free_page.simps) (simp add: retK_def)
qed

theorem fork_no_memory_witness:
  "\<exists>t. copy_process 5 frame_zero (fork_state\<lparr>fs := (fs fork_state)\<lparr>pages := mm0\<lparr>mem_map := \<lambda>_. 1\<rparr>\<rparr>\<rparr>) = Inr (-11, t) \<and>
    ptree (kern (fs t)) tree_children"
proof -
  let ?s = "fork_state\<lparr>fs := (fs fork_state)\<lparr>pages := mm0\<lparr>mem_map := \<lambda>_. 1\<rparr>\<rparr>\<rparr>"
  note ok = fork_state_ok
  have my: "my ?s = 2" using ok(1) by (simp add: my_def me_def)
  have tree: "ptree (kern (fs ?s)) tree_children" "present (kern (fs ?s)) (my ?s)" "\<not> present (kern (fs ?s)) 5"
    unfolding my by (simp_all add: ok tree_ptree)
  have base: "t_ldt_base (cur (kern (fs ?s))) = code_base ?s (my ?s)" "code_limit ?s (my ?s) \<le> t_ldt_limit (cur (kern (fs ?s)))"
    unfolding my using ok(8) by (simp_all add: ok)
  obtain m where "get_free_page (pages (fs ?s)) = Inr (0, m)"
    using no_page_at_all[of "pages (fs ?s)"] by (auto simp: mm0_def)
  from fork_no_memory[OF tree base disjI1[OF this], of frame_zero] show ?thesis by blast
qed

end
