(* ===== verification/Select.thy ===== *)
theory Select
  imports Fork Open
begin

section \<open>Select\<close>

text \<open>
  \<^verbatim>\<open>fs/select.c\<close>. While a process looks at its descriptors it puts itself at the head of the wait
  queue of each one that is not ready, and keeps the old heads in a table, from which \<^verbatim>\<open>free_wait\<close>
  restores them. The address of a wait queue is the name of the structure it is in.
\<close>

datatype wait_addr = Queue_wait nat | Inode_wait nat

record wait_entry =
  wait_address :: wait_addr
  old_task :: "nat option"

type_synonym select_table = "wait_entry list"

definition wait_head :: "wait_addr \<Rightarrow> fsys \<Rightarrow> nat option" where
  "wait_head a s = (case a of Queue_wait q \<Rightarrow> q_wait (tqueues (ttys s) q) | Inode_wait i \<Rightarrow> i_wait (inodes s i))"

definition set_wait_head :: "wait_addr \<Rightarrow> nat option \<Rightarrow> fsys \<Rightarrow> fsys" where
  "set_wait_head a p s =
     (case a of
        Queue_wait q \<Rightarrow> s\<lparr>ttys := (ttys s)\<lparr>tqueues := (tqueues (ttys s))(q := (tqueues (ttys s) q)\<lparr>q_wait := p\<rparr>)\<rparr>\<rparr>
      | Inode_wait i \<Rightarrow> upd_inode i (\<lambda>x. x\<lparr>i_wait := p\<rparr>) s)"

definition add_wait :: "wait_addr \<Rightarrow> select_table \<Rightarrow> fsys \<Rightarrow> select_table \<times> fsys" where
  "add_wait a w s =
     (if \<exists>e\<in>set w. wait_address e = a then (w, s)
      else (w @ [\<lparr>wait_address = a, old_task = wait_head a s\<rparr>], set_wait_head a (Some (me s)) s))"

definition set_state :: "nat option \<Rightarrow> int \<Rightarrow> fsys \<Rightarrow> fsys" where
  "set_state p v = upd_kernel (assign p (\<lambda>t. t\<lparr>t_state := v\<rparr>))"

text \<open>Tasks that have queued up since are woken first, and wake the current one.\<close>

primrec wake_newer :: "nat \<Rightarrow> env \<Rightarrow> wait_addr \<Rightarrow> fsys \<Rightarrow> unit fres" where
  "wake_newer 0 E a s = stopK (Sleeps ''free_wait'') s"
| "wake_newer (Suc n) E a s =
     (if wait_head a s = None \<or> wait_head a s = Some (me s) then retK () s
      else wake_newer n E a (others E (set_state (Some (me s)) TASK_UNINTERRUPTIBLE (set_state (wait_head a s) TASK_RUNNING s))))"

definition free_entry :: "env \<Rightarrow> wait_entry \<Rightarrow> fsys \<Rightarrow> unit fres" where
  "free_entry E e s =
     bindK (wake_newer (rounds E + 1) E (wait_address e) s) (\<lambda>_ s.
       let s = (if wait_head (wait_address e) s = None then fs_say ''free_wait: NULL'' s else s);
           s = set_wait_head (wait_address e) (old_task e) s
       in retK () (if old_task e \<noteq> None then set_state (old_task e) TASK_RUNNING s else s))"

definition free_wait :: "env \<Rightarrow> select_table \<Rightarrow> fsys \<Rightarrow> unit fres" where
  "free_wait E = forK (free_entry E)"

definition the_ttys :: "fsys \<Rightarrow> tsys" where
  "the_ttys s = \<lparr>tk = kern s, tt = ttys s\<rparr>"

definition get_tty :: "nat \<Rightarrow> fsys \<Rightarrow> nat option" where
  "get_tty i s =
     (let dev = i_zone (inodes s i) 0; major = MAJOR dev in
      if \<not> S_ISCHR (i_mode (inodes s i)) then None
      else if major \<noteq> 5 \<and> major \<noteq> 4 then None
      else let minor = (if major = 5 then t_tty (cur (kern s)) else int (MINOR dev)) in
        if minor < 0 then None else Some (TTY_TABLE (nat minor) (the_ttys s)))"

text \<open>What is not ready is waited for.\<close>

definition ready_or_wait :: "bool \<Rightarrow> wait_addr \<Rightarrow> select_table \<Rightarrow> fsys \<Rightarrow> (bool \<times> select_table) fres" where
  "ready_or_wait ready a w s = (if ready then retK (True, w) s else let (w, s) = add_wait a w s in retK (False, w) s)"

definition check_in :: "select_table \<Rightarrow> nat \<Rightarrow> fsys \<Rightarrow> (bool \<times> select_table) fres" where
  "check_in w i s =
     (case get_tty i s of
        Some t \<Rightarrow>
          (case tt_secondary (tty t (the_ttys s)) of
             None \<Rightarrow> stopK (Wild ''check_in: no queue'') s
           | Some q \<Rightarrow> ready_or_wait (\<not> EMPTY (the_queue q (the_ttys s))) (Queue_wait q) w s)
      | None \<Rightarrow>
          if i_pipe (inodes s i) then ready_or_wait (\<not> PIPE_EMPTY i s) (Inode_wait i) w s
          else retK (False, w) s)"

definition check_out :: "select_table \<Rightarrow> nat \<Rightarrow> fsys \<Rightarrow> (bool \<times> select_table) fres" where
  "check_out w i s =
     (case get_tty i s of
        Some t \<Rightarrow>
          (case tt_write_q (tty t (the_ttys s)) of
             None \<Rightarrow> stopK (Wild ''check_out: no queue'') s
           | Some q \<Rightarrow> ready_or_wait (\<not> FULL (the_queue q (the_ttys s))) (Queue_wait q) w s)
      | None \<Rightarrow>
          if i_pipe (inodes s i) then ready_or_wait (\<not> PIPE_FULL i s) (Inode_wait i) w s
          else retK (False, w) s)"

text \<open>Of a terminal only the write queue is read.\<close>

definition check_ex :: "select_table \<Rightarrow> nat \<Rightarrow> fsys \<Rightarrow> (bool \<times> select_table) fres" where
  "check_ex w i s =
     (case get_tty i s of
        Some t \<Rightarrow>
          (case tt_write_q (tty t (the_ttys s)) of
             None \<Rightarrow> stopK (Wild ''check_ex: no queue'') s
           | Some q \<Rightarrow> retK (False, w) s)
      | None \<Rightarrow>
          if i_pipe (inodes s i) then ready_or_wait (i_count (inodes s i) < 2) (Inode_wait i) w s
          else retK (False, w) s)"

subsection \<open>do_select\<close>

definition fd_inode :: "nat \<Rightarrow> fsys \<Rightarrow> nat option" where
  "fd_inode fd s = Option.bind (p_filp s (me s) fd) (\<lambda>f. f_inode (files s f))"

definition selectable :: "nat \<Rightarrow> fsys \<Rightarrow> bool" where
  "selectable fd s =
     (case fd_inode fd s of None \<Rightarrow> False
      | Some i \<Rightarrow> i_pipe (inodes s i) \<or> S_ISCHR (i_mode (inodes s i)) \<or> S_ISFIFO (i_mode (inodes s i)))"

text \<open>The three results with their number.\<close>

record select_result =
  sel_in :: u32
  sel_out :: u32
  sel_ex :: u32
  sel_count :: int

text \<open>One of the three tests of one descriptor; \<open>put\<close> enters its bit.\<close>

definition probe :: "(select_table \<Rightarrow> nat \<Rightarrow> fsys \<Rightarrow> (bool \<times> select_table) fres) \<Rightarrow> u32
    \<Rightarrow> (u32 \<Rightarrow> select_result \<Rightarrow> select_result) \<Rightarrow> nat \<Rightarrow> select_table \<times> select_result \<Rightarrow> fsys
    \<Rightarrow> (select_table \<times> select_result) fres" where
  "probe check m put fd = (\<lambda>(w, r) s.
     if bit m fd then
       (case fd_inode fd s of
          None \<Rightarrow> stopK (Wild ''do_select: no inode'') s
        | Some i \<Rightarrow> bindK (check w i s) (\<lambda>(ok, w) s.
            retK (w, if ok then put (push_bit fd 1) (r\<lparr>sel_count := sel_count r + 1\<rparr>) else r) s))
     else retK (w, r) s)"

definition put_in :: "u32 \<Rightarrow> select_result \<Rightarrow> select_result" where "put_in b r = r\<lparr>sel_in := sel_in r OR b\<rparr>"
definition put_out :: "u32 \<Rightarrow> select_result \<Rightarrow> select_result" where "put_out b r = r\<lparr>sel_out := sel_out r OR b\<rparr>"
definition put_ex :: "u32 \<Rightarrow> select_result \<Rightarrow> select_result" where "put_ex b r = r\<lparr>sel_ex := sel_ex r OR b\<rparr>"

definition probe_fd :: "u32 \<Rightarrow> u32 \<Rightarrow> u32 \<Rightarrow> nat \<Rightarrow> select_table \<times> select_result \<Rightarrow> fsys \<Rightarrow> (select_table \<times> select_result) fres" where
  "probe_fd mi mo mx fd c s =
     bindK (probe check_in mi put_in fd c s) (\<lambda>c s.
       bindK (probe check_out mo put_out fd c s) (probe check_ex mx put_ex fd))"

primrec probe_all :: "u32 \<Rightarrow> u32 \<Rightarrow> u32 \<Rightarrow> nat list \<Rightarrow> select_table \<times> select_result \<Rightarrow> fsys \<Rightarrow> (select_table \<times> select_result) fres" where
  "probe_all mi mo mx [] c s = retK c s"
| "probe_all mi mo mx (fd # fds) c s = bindK (probe_fd mi mo mx fd c s) (probe_all mi mo mx fds)"

definition no_result :: select_result where
  "no_result = \<lparr>sel_in = 0, sel_out = 0, sel_ex = 0, sel_count = 0\<rparr>"

primrec select_loop :: "nat \<Rightarrow> env \<Rightarrow> u32 \<Rightarrow> u32 \<Rightarrow> u32 \<Rightarrow> fsys \<Rightarrow> select_result fres" where
  "select_loop 0 E mi mo mx s = stopK (Sleeps ''do_select'') s"
| "select_loop (Suc n) E mi mo mx s =
     bindK (probe_all mi mo mx [0..<NR_OPEN] ([], no_result) s) (\<lambda>(w, r) s.
       if \<not> fs_pending s \<and> (w \<noteq> [] \<or> t_timeout (cur (kern s)) \<noteq> 0) \<and> sel_count r = 0
       then let s = others E (set_state (Some (me s)) TASK_INTERRUPTIBLE s) in
            bindK (free_wait E w s) (\<lambda>_. select_loop n E mi mo mx)
       else bindK (free_wait E w s) (\<lambda>_. retK r))"

text \<open>A negative count is an error.\<close>

definition do_select :: "env \<Rightarrow> u32 \<Rightarrow> u32 \<Rightarrow> u32 \<Rightarrow> fsys \<Rightarrow> select_result fres" where
  "do_select E mi mo mx s =
     (if \<exists>fd\<in>set [0..<NR_OPEN]. bit (mi OR mo OR mx) fd \<and> \<not> selectable fd s
      then retK (no_result\<lparr>sel_count := - EBADF\<rparr>) s
      else select_loop (rounds E + 1) E mi mo mx s)"

subsection \<open>The system call\<close>

definition ask_set :: "u32 \<Rightarrow> u32 \<Rightarrow> kernel \<Rightarrow> u32" where
  "ask_set m p k = (if p \<noteq> 0 then m AND get_fs_long p k else 0)"

definition give_set :: "u32 \<Rightarrow> u32 \<Rightarrow> fsys \<Rightarrow> unit fres" where
  "give_set p v s =
     (if p \<noteq> 0 then bindK (verify_area p 4 s) (\<lambda>_ s. retK () (upd_kernel (put_fs_long v p) s)) else retK () s)"

definition select_timeout :: "u32 \<Rightarrow> kernel \<Rightarrow> u32" where
  "select_timeout tvp k =
     (if tvp \<noteq> 0 then get_fs_long (tvp + 4) k div 10000 + get_fs_long tvp k * 100 + jiffies k else 0xffffffff)"

definition give_rest :: "u32 \<Rightarrow> u32 \<Rightarrow> fsys \<Rightarrow> unit fres" where
  "give_rest tvp timeout s =
     (if tvp \<noteq> 0
      then bindK (verify_area tvp 8 s) (\<lambda>_ s.
        retK () (upd_kernel (put_fs_long (timeout mod 100 * 10000) (tvp + 4) \<circ> put_fs_long (timeout div 100) tvp) s))
      else retK () s)"

definition sys_select :: "env \<Rightarrow> u32 \<Rightarrow> fsys \<Rightarrow> int fres" where
  "sys_select E buffer s =
     (let k = kern s;
          m = NOT (push_bit (unat (get_fs_long buffer k) mod 32) (-1));
          inp = get_fs_long (buffer + 4) k; outp = get_fs_long (buffer + 8) k;
          exp = get_fs_long (buffer + 12) k; tvp = get_fs_long (buffer + 16) k;
          s = upd_kernel (upd_cur (\<lambda>t. t\<lparr>t_timeout := select_timeout tvp k\<rparr>)) s
      in bindK (do_select E (ask_set m inp k) (ask_set m outp k) (ask_set m exp k) s) (\<lambda>r s.
           let t = t_timeout (cur (kern s)); j = jiffies (kern s);
               timeout = (if j < t then t - j else 0);
               s = upd_kernel (upd_cur (\<lambda>t. t\<lparr>t_timeout := 0\<rparr>)) s
           in if sel_count r < 0 then retK (sel_count r) s
              else bindK (give_set inp (sel_in r) s) (\<lambda>_ s.
                   bindK (give_set outp (sel_out r) s) (\<lambda>_ s.
                   bindK (give_set exp (sel_ex r) s) (\<lambda>_ s.
                   bindK (give_rest tvp timeout s) (\<lambda>_ s.
                     retK (if sel_count r = 0 \<and> fs_pending s then - EINTR else sel_count r) s))))))"

end
