(* ===== verification/Select_Props.thy ===== *)
theory Select_Props
  imports Select Fs_Samples
begin

section \<open>Properties of select\<close>

text \<open>
  A select with a descriptor that is ready returns at once with the ready ones, and puts the wait queues back as they
  were. One without sleeps on when its time is over. The three tests of a descriptor share a contract, the
  locale \<open>readiness\<close>: they report what they are to report, and otherwise add the current task to wait queues
  and nothing else.
\<close>

subsection \<open>The state without wait queues\<close>

text \<open>What is left of a state when nobody waits and every task is runnable: all that a test looks at.\<close>

definition norm :: "fsys \<Rightarrow> fsys" where
  "norm s = s\<lparr>kern := (kern s)\<lparr>tasks := \<lambda>i. (tasks (kern s) i)\<lparr>t_state := TASK_RUNNING\<rparr>\<rparr>,
     ttys := (ttys s)\<lparr>tqueues := \<lambda>q. (tqueues (ttys s) q)\<lparr>q_wait := None\<rparr>\<rparr>,
     inodes := \<lambda>i. (inodes s i)\<lparr>i_wait := None\<rparr>\<rparr>"

lemma norm_set_wait_head [simp]: "norm (set_wait_head a p s) = norm s"
  by (cases a) (simp_all add: norm_def set_wait_head_def upd_inode_def fun_eq_iff)

lemma norm_set_state [simp]: "norm (set_state (Some p) v s) = norm s"
  by (simp add: norm_def set_state_def upd_kernel_def assign_def fun_eq_iff)

lemma wait_head_set [simp]: "wait_head b (set_wait_head a p s) = (if b = a then p else wait_head b s)"
  by (cases a; cases b) (simp_all add: wait_head_def set_wait_head_def upd_inode_def)

lemma wait_head_set_state [simp]: "wait_head a (set_state p v s) = wait_head a s"
  by (cases a) (simp_all add: wait_head_def set_state_def upd_kernel_def)

lemma me_set [simp]: "me (set_wait_head a p s) = me s" "me (set_state (Some q) v s) = me s"
  by (cases a) (simp_all add: me_def set_wait_head_def set_state_def upd_inode_def upd_kernel_def assign_def)

text \<open>The states of the tasks, which \<open>norm\<close> leaves out.\<close>

definition tstates :: "fsys \<Rightarrow> nat \<Rightarrow> int" where
  "tstates s i = t_state (tasks (kern s) i)"

lemma tstates_set [simp]: "tstates (set_wait_head a p s) = tstates s"
  "tstates (set_state (Some q) v s) = (\<lambda>i. if i = q then v else tstates s i)"
  by (cases a) (simp_all add: tstates_def fun_eq_iff set_wait_head_def set_state_def upd_inode_def upd_kernel_def assign_def)

definition in_ready :: "nat \<Rightarrow> fsys \<Rightarrow> bool" where
  "in_ready i s = (case get_tty i s of Some t \<Rightarrow> \<not> EMPTY (the_queue (sq t (the_ttys s)) (the_ttys s))
     | None \<Rightarrow> i_pipe (inodes s i) \<and> \<not> PIPE_EMPTY i s)"

definition out_ready :: "nat \<Rightarrow> fsys \<Rightarrow> bool" where
  "out_ready i s = (case get_tty i s of Some t \<Rightarrow> \<not> FULL (the_queue (wq t (the_ttys s)) (the_ttys s))
     | None \<Rightarrow> i_pipe (inodes s i) \<and> \<not> PIPE_FULL i s)"

definition ex_ready :: "nat \<Rightarrow> fsys \<Rightarrow> bool" where
  "ex_ready i s = (get_tty i s = None \<and> i_pipe (inodes s i) \<and> i_count (inodes s i) < 2)"

text \<open>The wait queue of an inode that a test which fails makes the current task enter.\<close>

definition in_queue :: "nat \<Rightarrow> fsys \<Rightarrow> wait_addr set" where
  "in_queue i s = (case get_tty i s of Some t \<Rightarrow> {Queue_wait (sq t (the_ttys s))}
     | None \<Rightarrow> if i_pipe (inodes s i) then {Inode_wait i} else {})"

definition out_queue :: "nat \<Rightarrow> fsys \<Rightarrow> wait_addr set" where
  "out_queue i s = (case get_tty i s of Some t \<Rightarrow> {Queue_wait (wq t (the_ttys s))}
     | None \<Rightarrow> if i_pipe (inodes s i) then {Inode_wait i} else {})"

definition ex_queue :: "nat \<Rightarrow> fsys \<Rightarrow> wait_addr set" where
  "ex_queue i s = (if get_tty i s = None \<and> i_pipe (inodes s i) then {Inode_wait i} else {})"

definition has_queues :: "nat \<Rightarrow> fsys \<Rightarrow> bool" where
  "has_queues i s \<longleftrightarrow> (\<forall>t. get_tty i s = Some t \<longrightarrow>
     tt_secondary (tty t (the_ttys s)) \<noteq> None \<and> tt_write_q (tty t (the_ttys s)) \<noteq> None)"

lemma norm_same:
  "get_tty i (norm s) = get_tty i s" "tty t (the_ttys (norm s)) = tty t (the_ttys s)"
  "EMPTY (the_queue q (the_ttys (norm s))) = EMPTY (the_queue q (the_ttys s))"
  "FULL (the_queue q (the_ttys (norm s))) = FULL (the_queue q (the_ttys s))"
  "i_pipe (inodes (norm s) i) = i_pipe (inodes s i)" "i_count (inodes (norm s) i) = i_count (inodes s i)"
  "PIPE_EMPTY i (norm s) = PIPE_EMPTY i s" "PIPE_FULL i (norm s) = PIPE_FULL i s"
  "fd_inode fd (norm s) = fd_inode fd s" "me (norm s) = me s" "fs_pending (norm s) = fs_pending s"
  "selectable fd (norm s) = selectable fd s"
  by (simp_all add: norm_def get_tty_def tty_def the_ttys_def the_queue_def EMPTY_def FULL_def LEFT_def PIPE_EMPTY_def PIPE_FULL_def
      PIPE_HEAD_def PIPE_TAIL_def PIPE_SIZE_def fd_inode_def me_def cur_def TTY_TABLE_def Let_def fs_pending_def selectable_def
      split: option.splits)

lemma norm_ready:
  "in_ready i (norm s) = in_ready i s" "out_ready i (norm s) = out_ready i s" "ex_ready i (norm s) = ex_ready i s"
  "has_queues i (norm s) = has_queues i s"
  by (simp_all add: in_ready_def out_ready_def ex_ready_def has_queues_def norm_same sq_def wq_def split: option.splits)

lemma norm_cong:
  assumes "norm s' = norm s"
  shows "get_tty i s' = get_tty i s" "tty t (the_ttys s') = tty t (the_ttys s)" "EMPTY (the_queue q (the_ttys s')) = EMPTY (the_queue q (the_ttys s))"
    "FULL (the_queue q (the_ttys s')) = FULL (the_queue q (the_ttys s))" "i_pipe (inodes s' i) = i_pipe (inodes s i)"
    "i_count (inodes s' i) = i_count (inodes s i)" "PIPE_EMPTY i s' = PIPE_EMPTY i s" "PIPE_FULL i s' = PIPE_FULL i s"
    "fd_inode fd s' = fd_inode fd s" "me s' = me s" "fs_pending s' = fs_pending s" "selectable fd s' = selectable fd s"
    "in_ready i s' = in_ready i s" "out_ready i s' = out_ready i s" "ex_ready i s' = ex_ready i s" "has_queues i s' = has_queues i s"
  using arg_cong[OF assms, of "get_tty i"] arg_cong[OF assms, of "\<lambda>s. tty t (the_ttys s)"]
    arg_cong[OF assms, of "\<lambda>s. EMPTY (the_queue q (the_ttys s))"] arg_cong[OF assms, of "\<lambda>s. FULL (the_queue q (the_ttys s))"]
    arg_cong[OF assms, of "\<lambda>s. i_pipe (inodes s i)"] arg_cong[OF assms, of "\<lambda>s. i_count (inodes s i)"]
    arg_cong[OF assms, of "PIPE_EMPTY i"] arg_cong[OF assms, of "PIPE_FULL i"] arg_cong[OF assms, of "fd_inode fd"]
    arg_cong[OF assms, of me] arg_cong[OF assms, of fs_pending] arg_cong[OF assms, of "selectable fd"]
    arg_cong[OF assms, of "in_ready i"] arg_cong[OF assms, of "out_ready i"] arg_cong[OF assms, of "ex_ready i"]
    arg_cong[OF assms, of "has_queues i"]
  by (simp_all only: norm_same norm_ready)


subsection \<open>Putting the wait queues back\<close>

lemma free_wait_restores:
  assumes "\<And>e. e \<in> set w \<Longrightarrow> wait_head (wait_address e) s = Some (me s)" "distinct (map wait_address w)"
  shows "\<exists>t. free_wait E w s = Inr ((), t) \<and> norm t = norm s \<and>
    (\<forall>e\<in>set w. wait_head (wait_address e) t = old_task e) \<and>
    (\<forall>a. a \<notin> wait_address ` set w \<longrightarrow> wait_head a t = wait_head a s) \<and>
    tstates t = (\<lambda>i. if \<exists>e\<in>set w. old_task e = Some i then TASK_RUNNING else tstates s i)"
  using assms
proof (induction w arbitrary: s)
  case Nil
  then show ?case by (simp add: free_wait_def retK_def)
next
  case (Cons e w)
  define u where "u = set_wait_head (wait_address e) (old_task e) s"
  define v where "v = (if old_task e \<noteq> None then set_state (old_task e) TASK_RUNNING u else u)"
  have h: "wait_head (wait_address e) s = Some (me s)" by (rule Cons.prems(1)) simp
  have first: "free_entry E e s = Inr ((), v)"
    using h by (simp add: free_entry_def u_def v_def retK_def Let_def)
  have v: "norm v = norm s" "me v = me s" "\<And>a. wait_head a v = (if a = wait_address e then old_task e else wait_head a s)"
    "tstates v = (\<lambda>i. if old_task e = Some i then TASK_RUNNING else tstates s i)"
    by (auto simp: v_def u_def fun_eq_iff)
  have "wait_head (wait_address f) v = Some (me v)" if "f \<in> set w" for f
  proof -
    have "wait_address f \<noteq> wait_address e" using that Cons.prems(2) by (auto simp: image_iff)
    then show ?thesis using Cons.prems(1)[of f] that by (simp add: v)
  qed
  with Cons.IH[of v] Cons.prems(2) obtain t where t: "free_wait E w v = Inr ((), t)" "norm t = norm v"
    "\<forall>f\<in>set w. wait_head (wait_address f) t = old_task f" "\<forall>a. a \<notin> wait_address ` set w \<longrightarrow> wait_head a t = wait_head a v"
    "tstates t = (\<lambda>i. if \<exists>e\<in>set w. old_task e = Some i then TASK_RUNNING else tstates v i)"
    by auto
  have "free_wait E (e # w) s = Inr ((), t)" using first t(1) by (simp add: free_wait_def)
  moreover have "wait_head (wait_address e) t = old_task e" using t(4) v(3) Cons.prems(2) by simp
  moreover have "tstates t = (\<lambda>i. if \<exists>f\<in>set (e # w). old_task f = Some i then TASK_RUNNING else tstates s i)"
    by (auto simp: t(5) v(4) fun_eq_iff)
  ultimately show ?case using t(2-4) v(1,3) by auto
qed

subsection \<open>Waiting\<close>

text \<open>\<open>queued w s t\<close>: from \<open>s\<close> the current task has entered the wait queues of \<open>w\<close>, which keeps their old heads.\<close>

definition queued :: "select_table \<Rightarrow> fsys \<Rightarrow> fsys \<Rightarrow> bool" where
  "queued w s t \<longleftrightarrow> norm t = norm s \<and> distinct (map wait_address w) \<and>
     (\<forall>e\<in>set w. old_task e = wait_head (wait_address e) s) \<and>
     (\<forall>a. wait_head a t = (if a \<in> wait_address ` set w then Some (me s) else wait_head a s))"

lemma queued_none: "queued [] s s"
  by (simp add: queued_def)

lemma queuedD:
  assumes "queued w s t"
  shows "norm t = norm s" "distinct (map wait_address w)" "e \<in> set w \<Longrightarrow> old_task e = wait_head (wait_address e) s"
    "wait_head a t = (if a \<in> wait_address ` set w then Some (me s) else wait_head a s)" "me t = me s"
  using assms norm_cong(10)[of t s] by (simp_all add: queued_def)

lemma add_wait_queued:
  assumes "queued w s t" "add_wait a w t = (w', t')"
  shows "queued w' s t' \<and> set w \<subseteq> set w' \<and> w' \<noteq> [] \<and>
    wait_address ` set w' = insert a (wait_address ` set w) \<and> tstates t' = tstates t"
proof (cases "a \<in> wait_address ` set w")
  case True
  then have "add_wait a w t = (w, t)" by (auto simp: add_wait_def)
  then have "w' = w" "t' = t" using assms(2) by simp_all
  moreover have "w \<noteq> []" using True by auto
  moreover have "insert a (wait_address ` set w) = wait_address ` set w" using True by (rule insert_absorb)
  ultimately show ?thesis using assms(1) by simp
next
  case False
  note q = queuedD[OF assms(1)]
  have no: "\<not> (\<exists>e\<in>set w. wait_address e = a)" using False by auto
  have "wait_head a t = wait_head a s" using False by (simp only: q(4) if_False)
  then have run: "w' = w @ [\<lparr>wait_address = a, old_task = wait_head a s\<rparr>]" "t' = set_wait_head a (Some (me s)) t"
    using assms(2) no by (simp_all add: add_wait_def q(5))
  have "wait_head b t' = (if b \<in> wait_address ` set w' then Some (me s) else wait_head b s)" for b
    by (simp only: run(2) wait_head_set q(4)) (simp add: run(1))
  moreover have "distinct (map wait_address w')" using q(2) False by (simp add: run(1))
  moreover have "\<forall>e\<in>set w'. old_task e = wait_head (wait_address e) s" using q(3) by (auto simp: run(1))
  moreover have "norm t' = norm s" by (simp add: run(2) q(1))
  ultimately have "queued w' s t'" by (simp only: queued_def) simp
  moreover have "tstates t' = tstates t" by (simp add: run(2))
  ultimately show ?thesis by (auto simp: run(1))
qed

lemma queued_freed:
  assumes "queued w s t"
  shows "\<exists>u. free_wait E w t = Inr ((), u) \<and> norm u = norm s \<and> (\<forall>a. wait_head a u = wait_head a s) \<and>
    tstates u = (\<lambda>i. if \<exists>a\<in>wait_address ` set w. wait_head a s = Some i then TASK_RUNNING else tstates t i)"
proof -
  note q = queuedD[OF assms]
  have "wait_head (wait_address e) t = Some (me t)" if "e \<in> set w" for e using that by (simp add: q(4,5))
  from free_wait_restores[OF this q(2)] obtain u where u: "free_wait E w t = Inr ((), u)" "norm u = norm t"
    "\<forall>e\<in>set w. wait_head (wait_address e) u = old_task e"
    "\<forall>a. a \<notin> wait_address ` set w \<longrightarrow> wait_head a u = wait_head a t"
    "tstates u = (\<lambda>i. if \<exists>e\<in>set w. old_task e = Some i then TASK_RUNNING else tstates t i)" by blast
  have "wait_head a u = wait_head a s" for a
  proof (cases "a \<in> wait_address ` set w")
    case True
    then show ?thesis using u(3) q(3) by auto
  next
    case False
    then have "wait_head a u = wait_head a t" using u(4) by simp
    then show ?thesis using False by (simp only: q(4) if_False)
  qed
  moreover have "(\<exists>e\<in>set w. old_task e = Some i) = (\<exists>a\<in>wait_address ` set w. wait_head a s = Some i)" for i
    using q(3) by auto
  ultimately show ?thesis using u(1,2,5) q(1) by simp
qed

text \<open>A step that enters the queues \<open>q\<close> besides those entered before, and changes no state of a task.\<close>

definition enters :: "select_table \<Rightarrow> fsys \<Rightarrow> select_table \<Rightarrow> fsys \<Rightarrow> fsys \<Rightarrow> wait_addr set \<Rightarrow> bool" where
  "enters w t w' t' s q \<longleftrightarrow> queued w' s t' \<and> set w \<subseteq> set w' \<and> wait_address ` set w' = wait_address ` set w \<union> q \<and>
     tstates t' = tstates t"

lemma entersD:
  assumes "enters w t w' t' s q"
  shows "queued w' s t'" "set w \<subseteq> set w'" "wait_address ` set w' = wait_address ` set w \<union> q" "tstates t' = tstates t"
  using assms by (simp_all add: enters_def)

lemma enters_none: "queued w s t \<Longrightarrow> enters w t w t s {}"
  by (simp add: enters_def)

lemma enters_trans: "enters w t w1 t1 s q \<Longrightarrow> enters w1 t1 w2 t2 s q' \<Longrightarrow> enters w t w2 t2 s (q \<union> q')"
  by (simp add: enters_def Un_assoc) blast

definition misses :: "u32 \<Rightarrow> (nat \<Rightarrow> fsys \<Rightarrow> bool) \<Rightarrow> (nat \<Rightarrow> fsys \<Rightarrow> wait_addr set) \<Rightarrow> fsys \<Rightarrow> nat \<Rightarrow> wait_addr set" where
  "misses m ready wait_on s fd = (let i = the (fd_inode fd s) in if bit m fd \<and> \<not> ready i s then wait_on i s else {})"

text \<open>The contract of a test.\<close>

locale readiness =
  fixes check :: "select_table \<Rightarrow> nat \<Rightarrow> fsys \<Rightarrow> (bool \<times> select_table) fres"
    and is_ready :: "nat \<Rightarrow> fsys \<Rightarrow> bool" and wait_on :: "nat \<Rightarrow> fsys \<Rightarrow> wait_addr set"
  assumes check_spec: "queued w s t \<Longrightarrow> has_queues i s \<Longrightarrow>
    \<exists>w' t'. check w i t = Inr ((is_ready i s, w'), t') \<and> enters w t w' t' s (if is_ready i s then {} else wait_on i s)"
begin

lemma probe_spec:
  assumes "queued w s t" "bit m fd \<longrightarrow> (\<exists>i. fd_inode fd s = Some i \<and> has_queues i s)"
  shows "\<exists>w' t'. probe check m put fd (w, r) t =
      Inr ((w', if bit m fd \<and> is_ready (the (fd_inode fd s)) s then put (push_bit fd 1) (r\<lparr>sel_count := sel_count r + 1\<rparr>) else r), t') \<and>
    enters w t w' t' s (misses m is_ready wait_on s fd)"
proof (cases "bit m fd")
  case False
  have "probe check m put fd (w, r) t = Inr ((w, r), t)" using False by (simp only: probe_def prod.case if_False retK_def)
  then show ?thesis using enters_none[OF assms(1)] False by (intro exI[of _ w] exI[of _ t]) (simp add: misses_def)
next
  case True
  then obtain i where i: "fd_inode fd s = Some i" "has_queues i s" using assms(2) by blast
  have fd: "fd_inode fd t = Some i" using i(1) norm_cong(9)[OF queuedD(1)[OF assms(1)]] by simp
  obtain w' t' where c: "check w i t = Inr ((is_ready i s, w'), t')"
    "enters w t w' t' s (if is_ready i s then {} else wait_on i s)"
    using check_spec[OF assms(1) i(2)] by (elim exE conjE)
  have "probe check m put fd (w, r) t =
      Inr ((w', if is_ready i s then put (push_bit fd 1) (r\<lparr>sel_count := sel_count r + 1\<rparr>) else r), t')"
    using True by (simp only: probe_def prod.case if_True fd option.case c(1) bindK.simps retK_def)
  moreover have "misses m is_ready wait_on s fd = (if is_ready i s then {} else wait_on i s)"
    using True i(1) by (simp add: misses_def)
  ultimately show ?thesis using c(2) True i(1) by (intro exI[of _ w'] exI[of _ t']) simp
qed

end

lemma ready_or_wait_spec:
  "queued w s t \<Longrightarrow> \<exists>w' t'. ready_or_wait b a w t = Inr ((b, w'), t') \<and> enters w t w' t' s (if b then {} else {a}) \<and> (b \<or> w' \<noteq> [])"
  using add_wait_queued[of w s t a] by (cases b; cases "add_wait a w t") (auto simp: ready_or_wait_def retK_def enters_def)

lemma check_in_spec:
  assumes "queued w s t" "has_queues i s"
  shows "\<exists>w' t'. check_in w i t = Inr ((in_ready i s, w'), t') \<and> enters w t w' t' s (if in_ready i s then {} else in_queue i s) \<and>
    (in_ready i s \<or> (get_tty i s = None \<and> \<not> i_pipe (inodes s i)) \<or> w' \<noteq> [])"
proof -
  have n: "norm t = norm s" using assms(1) by (simp add: queued_def)
  note c = norm_cong[OF n]
  show ?thesis
  proof (cases "get_tty i s")
    case None
    then show ?thesis using ready_or_wait_spec[OF assms(1), of "\<not> PIPE_EMPTY i s" "Inode_wait i"] enters_none[OF assms(1)]
      by (auto simp: check_in_def c in_ready_def in_queue_def retK_def)
  next
    case (Some y)
    then obtain q where q: "tt_secondary (tty y (the_ttys s)) = Some q" using assms(2) by (auto simp: has_queues_def)
    then have "sq y (the_ttys s) = q" by (simp add: sq_def)
    then show ?thesis using ready_or_wait_spec[OF assms(1), of "\<not> EMPTY (the_queue q (the_ttys s))" "Queue_wait q"] Some q
      by (auto simp: check_in_def c in_ready_def in_queue_def)
  qed
qed

interpretation test_in: readiness check_in in_ready in_queue
  by unfold_locales (use check_in_spec in blast)

interpretation test_out: readiness check_out out_ready out_queue
proof
  fix w s t i assume q: "queued w s t" and h: "has_queues i s"
  have "norm t = norm s" using q by (simp add: queued_def)
  note c = norm_cong[OF this]
  show "\<exists>w' t'. check_out w i t = Inr ((out_ready i s, w'), t') \<and> enters w t w' t' s (if out_ready i s then {} else out_queue i s)"
  proof (cases "get_tty i s")
    case None
    then show ?thesis using ready_or_wait_spec[OF q, of "\<not> PIPE_FULL i s" "Inode_wait i"] enters_none[OF q]
      by (auto simp: check_out_def c out_ready_def out_queue_def retK_def)
  next
    case (Some y)
    then obtain k where k: "tt_write_q (tty y (the_ttys s)) = Some k" using h by (auto simp: has_queues_def)
    then have "wq y (the_ttys s) = k" by (simp add: wq_def)
    then show ?thesis using ready_or_wait_spec[OF q, of "\<not> FULL (the_queue k (the_ttys s))" "Queue_wait k"] Some k
      by (auto simp: check_out_def c out_ready_def out_queue_def)
  qed
qed

interpretation test_ex: readiness check_ex ex_ready ex_queue
proof
  fix w s t i assume q: "queued w s t" and h: "has_queues i s"
  have "norm t = norm s" using q by (simp add: queued_def)
  note c = norm_cong[OF this]
  show "\<exists>w' t'. check_ex w i t = Inr ((ex_ready i s, w'), t') \<and> enters w t w' t' s (if ex_ready i s then {} else ex_queue i s)"
    using ready_or_wait_spec[OF q, of "i_count (inodes s i) < 2" "Inode_wait i"] enters_none[OF q] h
    by (auto simp: check_ex_def c ex_ready_def ex_queue_def has_queues_def retK_def split: option.splits)
qed

subsection \<open>All descriptors\<close>

definition hit :: "u32 \<Rightarrow> (nat \<Rightarrow> fsys \<Rightarrow> bool) \<Rightarrow> fsys \<Rightarrow> nat \<Rightarrow> bool" where
  "hit m ready s fd \<longleftrightarrow> bit m fd \<and> ready (the (fd_inode fd s)) s"

definition tally :: "u32 \<Rightarrow> u32 \<Rightarrow> u32 \<Rightarrow> fsys \<Rightarrow> nat \<Rightarrow> select_result \<Rightarrow> select_result" where
  "tally mi mo mx s fd r =
     (let one = (\<lambda>b put r. if b then put (push_bit fd 1) (r\<lparr>sel_count := sel_count r + 1\<rparr>) else r)
      in one (hit mx ex_ready s fd) put_ex (one (hit mo out_ready s fd) put_out (one (hit mi in_ready s fd) put_in r)))"

text \<open>The queues entered for a descriptor, and all of them.\<close>

definition entered_fd :: "u32 \<Rightarrow> u32 \<Rightarrow> u32 \<Rightarrow> fsys \<Rightarrow> nat \<Rightarrow> wait_addr set" where
  "entered_fd mi mo mx s fd =
     misses mi in_ready in_queue s fd \<union> misses mo out_ready out_queue s fd \<union> misses mx ex_ready ex_queue s fd"

definition entered :: "u32 \<Rightarrow> u32 \<Rightarrow> u32 \<Rightarrow> fsys \<Rightarrow> wait_addr set" where
  "entered mi mo mx s = \<Union> (entered_fd mi mo mx s ` set [0..<NR_OPEN])"

text \<open>Every descriptor asked for can be selected, and its terminal, if it has one, has its queues.\<close>

definition sel_ok :: "u32 \<Rightarrow> fsys \<Rightarrow> bool" where
  "sel_ok m s \<longleftrightarrow> (\<forall>fd<NR_OPEN. bit m fd \<longrightarrow> selectable fd s \<and> (\<forall>i. fd_inode fd s = Some i \<longrightarrow> has_queues i s))"

definition waits_in :: "u32 \<Rightarrow> fsys \<Rightarrow> nat \<Rightarrow> bool" where
  "waits_in m s fd \<longleftrightarrow> bit m fd \<and> \<not> hit m in_ready s fd \<and>
     (get_tty (the (fd_inode fd s)) s \<noteq> None \<or> i_pipe (inodes s (the (fd_inode fd s))))"

lemma sel_ok_inode:
  assumes "sel_ok m s" "fd < NR_OPEN" "bit m fd"
  shows "\<exists>i. fd_inode fd s = Some i \<and> has_queues i s"
proof -
  have 1: "selectable fd s" "\<And>i. fd_inode fd s = Some i \<Longrightarrow> has_queues i s" using assms by (auto simp: sel_ok_def)
  show ?thesis using 1 by (cases "fd_inode fd s") (auto simp: selectable_def)
qed

lemma probe_in_waits:
  assumes "queued w s t" "sel_ok m s" "fd < NR_OPEN" "waits_in m s fd" "probe check_in m put fd (w, r) t = Inr ((w', r'), t')"
  shows "w' \<noteq> []"
proof -
  have b: "bit m fd" using assms(4) by (simp add: waits_in_def)
  obtain i where i: "fd_inode fd s = Some i" "has_queues i s" using sel_ok_inode[OF assms(2,3) b] by blast
  have fd: "fd_inode fd t = Some i" using i(1) norm_cong(9)[OF queuedD(1)[OF assms(1)]] by simp
  obtain v u where v: "check_in w i t = Inr ((in_ready i s, v), u)"
    "in_ready i s \<or> (get_tty i s = None \<and> \<not> i_pipe (inodes s i)) \<or> v \<noteq> []"
    using check_in_spec[OF assms(1) i(2)] by (elim exE conjE)
  have "probe check_in m put fd (w, r) t =
      Inr ((v, if in_ready i s then put (push_bit fd 1) (r\<lparr>sel_count := sel_count r + 1\<rparr>) else r), u)"
    using b by (simp only: probe_def prod.case if_True fd option.case v(1) bindK.simps retK_def)
  then have "w' = v" using assms(5) by simp
  then show ?thesis using v(2) assms(4) i(1) by (auto simp: waits_in_def hit_def)
qed

lemma probe_fd_spec:
  assumes q: "queued w s t" and ok: "sel_ok (mi OR mo OR mx) s" and fd: "fd < NR_OPEN"
  shows "\<exists>w' t'. probe_fd mi mo mx fd (w, r) t = Inr ((w', tally mi mo mx s fd r), t') \<and>
    enters w t w' t' s (entered_fd mi mo mx s fd) \<and> (waits_in mi s fd \<longrightarrow> w' \<noteq> [])"
proof -
  let ?open = "\<exists>i. fd_inode fd s = Some i \<and> has_queues i s"
  have bits: "bit mi fd \<longrightarrow> ?open" "bit mo fd \<longrightarrow> ?open" "bit mx fd \<longrightarrow> ?open"
    using sel_ok_inode[OF ok fd] by (simp_all add: bit_or_iff)
  have oki: "sel_ok mi s" using ok by (auto simp: sel_ok_def bit_or_iff)
  note pin = test_in.probe_spec[OF q bits(1), of put_in r, folded hit_def]
  obtain w1 t1 where 1: "probe check_in mi put_in fd (w, r) t = Inr ((w1,
      if hit mi in_ready s fd then put_in (push_bit fd 1) (r\<lparr>sel_count := sel_count r + 1\<rparr>) else r), t1)"
      "enters w t w1 t1 s (misses mi in_ready in_queue s fd)"
    using pin by (elim exE conjE)
  define r1 where "r1 = (if hit mi in_ready s fd then put_in (push_bit fd 1) (r\<lparr>sel_count := sel_count r + 1\<rparr>) else r)"
  note pout = test_out.probe_spec[OF entersD(1)[OF 1(2)] bits(2), of put_out r1, folded hit_def]
  obtain w2 t2 where 2: "probe check_out mo put_out fd (w1, r1) t1 = Inr ((w2,
      if hit mo out_ready s fd then put_out (push_bit fd 1) (r1\<lparr>sel_count := sel_count r1 + 1\<rparr>) else r1), t2)"
      "enters w1 t1 w2 t2 s (misses mo out_ready out_queue s fd)"
    using pout by (elim exE conjE)
  define r2 where "r2 = (if hit mo out_ready s fd then put_out (push_bit fd 1) (r1\<lparr>sel_count := sel_count r1 + 1\<rparr>) else r1)"
  note pex = test_ex.probe_spec[OF entersD(1)[OF 2(2)] bits(3), of put_ex r2, folded hit_def]
  obtain w3 t3 where 3: "probe check_ex mx put_ex fd (w2, r2) t2 = Inr ((w3,
      if hit mx ex_ready s fd then put_ex (push_bit fd 1) (r2\<lparr>sel_count := sel_count r2 + 1\<rparr>) else r2), t3)"
      "enters w2 t2 w3 t3 s (misses mx ex_ready ex_queue s fd)"
    using pex by (elim exE conjE)
  have "probe_fd mi mo mx fd (w, r) t = Inr ((w3, tally mi mo mx s fd r), t3)"
    by (simp only: probe_fd_def 1(1) bindK.simps r1_def[symmetric] 2(1) r2_def[symmetric] 3(1)) (simp only: tally_def Let_def r1_def r2_def)
  moreover have "w3 \<noteq> []" if "waits_in mi s fd"
    using probe_in_waits[OF q oki fd that 1(1)] entersD(2)[OF 2(2)] entersD(2)[OF 3(2)] by auto
  moreover have "enters w t w3 t3 s (entered_fd mi mo mx s fd)"
    unfolding entered_fd_def by (rule enters_trans[OF enters_trans[OF 1(2) 2(2)] 3(2)])
  ultimately show ?thesis by (intro exI[of _ w3] exI[of _ t3]) simp
qed

lemma probe_all_spec:
  "queued w s t \<Longrightarrow> sel_ok (mi OR mo OR mx) s \<Longrightarrow> \<forall>fd\<in>set fds. fd < NR_OPEN \<Longrightarrow>
     \<exists>w' t'. probe_all mi mo mx fds (w, r) t = Inr ((w', fold (tally mi mo mx s) fds r), t') \<and>
       enters w t w' t' s (\<Union> (entered_fd mi mo mx s ` set fds)) \<and> ((\<exists>fd\<in>set fds. waits_in mi s fd) \<longrightarrow> w' \<noteq> [])"
proof (induction fds arbitrary: w t r)
  case Nil
  then show ?case using enters_none[of w s t] by (auto simp: retK_def)
next
  case (Cons fd fds)
  have "fd < NR_OPEN" using Cons.prems(3) by simp
  from probe_fd_spec[OF Cons.prems(1,2) this, of r] obtain w1 t1 where
    1: "probe_fd mi mo mx fd (w, r) t = Inr ((w1, tally mi mo mx s fd r), t1)"
      "enters w t w1 t1 s (entered_fd mi mo mx s fd)" "waits_in mi s fd \<longrightarrow> w1 \<noteq> []" by (elim exE conjE)
  have "\<forall>fd\<in>set fds. fd < NR_OPEN" using Cons.prems(3) by simp
  from Cons.IH[OF entersD(1)[OF 1(2)] Cons.prems(2) this, of "tally mi mo mx s fd r"] obtain w2 t2 where
    2: "probe_all mi mo mx fds (w1, tally mi mo mx s fd r) t1 = Inr ((w2, fold (tally mi mo mx s) fds (tally mi mo mx s fd r)), t2)"
      "enters w1 t1 w2 t2 s (\<Union> (entered_fd mi mo mx s ` set fds))" "(\<exists>fd\<in>set fds. waits_in mi s fd) \<longrightarrow> w2 \<noteq> []" by (elim exE conjE)
  have "w2 \<noteq> []" if "\<exists>fd\<in>set (fd # fds). waits_in mi s fd" using that 1(3) 2(3) entersD(2)[OF 2(2)] by auto
  moreover have "enters w t w2 t2 s (\<Union> (entered_fd mi mo mx s ` set (fd # fds)))"
    using enters_trans[OF 1(2) 2(2)] by simp
  ultimately show ?case by (intro exI[of _ w2] exI[of _ t2]) (simp add: 1(1) 2(1))
qed

definition hits :: "u32 \<Rightarrow> (nat \<Rightarrow> fsys \<Rightarrow> bool) \<Rightarrow> fsys \<Rightarrow> nat \<Rightarrow> nat set" where
  "hits m ready s n = {fd. fd < n \<and> hit m ready s fd}"

lemma hits_Suc:
  "hits m ready s (Suc n) = (if hit m ready s n then insert n (hits m ready s n) else hits m ready s n)"
  "finite (hits m ready s n)" "n \<notin> hits m ready s n" "hits m ready s 0 = {}"
  by (auto simp: hits_def less_Suc_eq)

lemma tally_all:
  assumes "n \<le> 32"
  shows "let r = fold (tally mi mo mx s) [0..<n] no_result in
    (\<forall>j. bit (sel_in r) j = (j \<in> hits mi in_ready s n)) \<and> (\<forall>j. bit (sel_out r) j = (j \<in> hits mo out_ready s n)) \<and>
    (\<forall>j. bit (sel_ex r) j = (j \<in> hits mx ex_ready s n)) \<and>
    sel_count r = int (card (hits mi in_ready s n) + card (hits mo out_ready s n) + card (hits mx ex_ready s n))"
  using assms
proof (induction n)
  case 0
  then show ?case by (simp add: no_result_def hits_Suc)
next
  case (Suc n)
  define r where "r = fold (tally mi mo mx s) [0..<n] no_result"
  have IH: "\<forall>j. bit (sel_in r) j = (j \<in> hits mi in_ready s n)" "\<forall>j. bit (sel_out r) j = (j \<in> hits mo out_ready s n)"
    "\<forall>j. bit (sel_ex r) j = (j \<in> hits mx ex_ready s n)"
    "sel_count r = int (card (hits mi in_ready s n) + card (hits mo out_ready s n) + card (hits mx ex_ready s n))"
    using Suc by (simp_all add: r_def Let_def)
  have one: "bit (2 ^ n :: u32) j = (j = n)" for j using Suc.prems by (auto simp: bit_simps)
  have step: "fold (tally mi mo mx s) [0..<Suc n] no_result = tally mi mo mx s n r" by (simp add: r_def)
  show ?case unfolding step
    by (simp add: tally_def put_in_def put_out_def put_ex_def hits_Suc IH bit_or_iff one disj_commute)
qed

subsection \<open>Select\<close>

lemma do_select_loop:
  assumes "sel_ok (mi OR mo OR mx) s"
  shows "do_select E mi mo mx s = select_loop (rounds E + 1) E mi mo mx s"
  using assms by (auto simp: do_select_def sel_ok_def)

lemma no_hits: "sel_count (fold (tally mi mo mx s) [0..<NR_OPEN] no_result) = 0 \<longleftrightarrow>
    hits mi in_ready s NR_OPEN = {} \<and> hits mo out_ready s NR_OPEN = {} \<and> hits mx ex_ready s NR_OPEN = {}"
proof -
  have "sel_count (fold (tally mi mo mx s) [0..<NR_OPEN] no_result) =
      int (card (hits mi in_ready s NR_OPEN) + card (hits mo out_ready s NR_OPEN) + card (hits mx ex_ready s NR_OPEN))"
    using tally_all[of NR_OPEN mi mo mx s] by (simp add: Let_def)
  then show ?thesis by (simp only: of_nat_eq_0_iff add_is_0 card_0_eq[OF hits_Suc(2)] conj_assoc)
qed

text \<open>C11. Select. When every descriptor asked for is open on a pipe or a character device and at least one is
  ready, \<^verbatim>\<open>do_select\<close> returns without sleeping: the bits of the three results are the descriptors asked
  for that have input (\<open>in_ready\<close>), have room (\<open>out_ready\<close>) or have lost the other end of their pipe (\<open>ex_ready\<close>),
  and the count is the number of these bits; all wait queues it has entered are as they were, with their old heads, which have been made runnable
  (\<open>entered\<close> is the set of these queues: those of the descriptors that were asked for and not ready). No other task
  has changed its state, and nothing else at all has changed.\<close>

theorem select_reports_ready:
  assumes ok: "sel_ok (mi OR mo OR mx) s"
    and some: "hits mi in_ready s NR_OPEN \<union> hits mo out_ready s NR_OPEN \<union> hits mx ex_ready s NR_OPEN \<noteq> {}"
  shows "\<exists>r t. do_select E mi mo mx s = Inr (r, t) \<and>
    (\<forall>fd. bit (sel_in r) fd = (fd \<in> hits mi in_ready s NR_OPEN)) \<and> (\<forall>fd. bit (sel_out r) fd = (fd \<in> hits mo out_ready s NR_OPEN)) \<and>
    (\<forall>fd. bit (sel_ex r) fd = (fd \<in> hits mx ex_ready s NR_OPEN)) \<and>
    sel_count r = int (card (hits mi in_ready s NR_OPEN) + card (hits mo out_ready s NR_OPEN) + card (hits mx ex_ready s NR_OPEN)) \<and>
    norm t = norm s \<and> (\<forall>a. wait_head a t = wait_head a s) \<and>
    (\<forall>i. t_state (tasks (kern t) i) =
      (if \<exists>a\<in>entered mi mo mx s. wait_head a s = Some i then TASK_RUNNING else t_state (tasks (kern s) i)))"
proof -
  define r where "r = fold (tally mi mo mx s) [0..<NR_OPEN] no_result"
  have "\<forall>fd\<in>set [0..<NR_OPEN]. fd < NR_OPEN" by simp
  from probe_all_spec[OF queued_none ok this, of no_result] obtain w t where
    p: "probe_all mi mo mx [0..<NR_OPEN] ([], no_result) s = Inr ((w, r), t)" "enters [] s w t s (entered mi mo mx s)"
    unfolding r_def entered_def by blast
  note e = entersD[OF p(2), simplified]
  obtain u where u: "free_wait E w t = Inr ((), u)" "norm u = norm s" "\<forall>a. wait_head a u = wait_head a s"
    "tstates u = (\<lambda>i. if \<exists>a\<in>entered mi mo mx s. wait_head a s = Some i then TASK_RUNNING else tstates s i)"
    using queued_freed[OF e(1), of E] unfolding e by blast
  have states: "t_state (tasks (kern u) i) =
      (if \<exists>a\<in>entered mi mo mx s. wait_head a s = Some i then TASK_RUNNING else t_state (tasks (kern s) i))" for i
    using fun_cong[OF u(4), of i] by (simp only: tstates_def)
  have "sel_count r \<noteq> 0" unfolding r_def no_hits using some by blast
  then have "do_select E mi mo mx s = Inr (r, u)"
    unfolding do_select_loop[OF ok] Suc_eq_plus1[symmetric] select_loop.simps p(1) by (simp add: u(1) retK_def)
  moreover note tally_all[of NR_OPEN mi mo mx s, folded r_def, unfolded Let_def]
  ultimately show ?thesis using u(2,3) states by (intro exI[of _ r] exI[of _ u]) simp
qed

text \<open>C27. The timeout of select does not work. When nothing is ready, no signal is pending and one of the descriptors
  asked for input is a pipe or a terminal, then \<^verbatim>\<open>do_select\<close> sleeps again and again, whatever
  \<^verbatim>\<open>current->timeout\<close> is, 0 for a timeout that has passed included, if nothing else changes the state.\<close>

theorem select_ignores_timeout:
  assumes ok: "sel_ok (mi OR mo OR mx) s" and idle: "others E = (\<lambda>s. s)"
    and none: "hits mi in_ready s NR_OPEN = {}" "hits mo out_ready s NR_OPEN = {}" "hits mx ex_ready s NR_OPEN = {}"
    and waits: "fd < NR_OPEN" "waits_in mi s fd" and "\<not> fs_pending s"
  shows "\<exists>t. do_select E mi mo mx s = Inl (Sleeps ''do_select'', t)"
proof -
  have ready: "hits m rd t n = hits m rd s n" if "norm t = norm s" "rd \<in> {in_ready, out_ready, ex_ready}" for m rd t n
    using norm_cong(9,13-15)[OF that(1)] that(2) by (auto simp: hits_def hit_def)
  have "\<exists>u. select_loop n E mi mo mx t = Inl (Sleeps ''do_select'', u)" if "norm t = norm s" for n t
    using that
  proof (induction n arbitrary: t)
    case 0
    then show ?case by (simp add: stopK_def)
  next
    case (Suc n)
    note c = norm_cong[OF Suc.prems]
    have ok': "sel_ok (mi OR mo OR mx) t" using ok by (simp add: sel_ok_def c)
    have wt: "waits_in mi t fd" using waits(2) by (simp add: waits_in_def hit_def c)
    define r where "r = fold (tally mi mo mx t) [0..<NR_OPEN] no_result"
    have "\<forall>fd\<in>set [0..<NR_OPEN]. fd < NR_OPEN" by simp
    from probe_all_spec[OF queued_none ok' this, of no_result] waits(1) wt obtain w u where
      p: "probe_all mi mo mx [0..<NR_OPEN] ([], no_result) t = Inr ((w, r), u)" "queued w t u" "w \<noteq> []" unfolding r_def enters_def by auto
    have "sel_count r = 0" unfolding r_def no_hits using ready[OF Suc.prems] none by simp
    moreover have nu: "norm u = norm s" using queuedD(1)[OF p(2)] Suc.prems by simp
    then have "\<not> fs_pending u" using assms(8) norm_cong(11)[OF nu] by simp
    moreover define v where "v = set_state (Some (me u)) TASK_INTERRUPTIBLE u"
    moreover have "queued w t v" using p(2) by (simp add: queued_def v_def)
    then obtain x where "free_wait E w v = Inr ((), x)" "norm x = norm t" using queued_freed by blast
    moreover note Suc.IH[of x]
    ultimately show ?case using Suc.prems p(3) by (simp add: p(1) idle)
  qed
  then show ?thesis unfolding do_select_loop[OF ok] by blast
qed

text \<open>Process 1 has two pipes open: descriptor 0 with a byte to read, descriptor 1 empty, which both have a second end.\<close>

definition fs_pipes :: fsys where
  "fs_pipes = fsys0\<lparr>p_filp := (\<lambda>p fd. if p = 1 \<and> fd < 2 then Some fd else None),
     files := (\<lambda>f. if f < 2 then file0\<lparr>f_inode := Some f\<rparr> else file0),
     inodes := (\<lambda>i. zero_inode\<lparr>i_pipe := True, i_count := 2, i_zone := (\<lambda>k. if i = 0 \<and> k = 0 then 1 else 0)\<rparr>)\<rparr>"

lemma fs_pipes_facts:
  "me fs_pipes = 1" "fd_inode fd fs_pipes = (if fd < 2 then Some fd else None)" "get_tty i fs_pipes = None"
  "i_pipe (inodes fs_pipes i)" "i_count (inodes fs_pipes i) = 2" "PIPE_EMPTY i fs_pipes = (i \<noteq> 0)" "\<not> fs_pending fs_pipes"
  by (auto simp: fs_pipes_def me_def fsys0_def fd_inode_def file0_def get_tty_def zero_inode_def S_ISCHR_def PIPE_EMPTY_def
      PIPE_HEAD_def PIPE_TAIL_def fs_pending_def cur_def kernel0_def task0_def Let_def)

lemma fs_pipes_in:
  "in_ready i fs_pipes = (i = 0)" "\<not> ex_ready i fs_pipes" "has_queues i fs_pipes" "fd < 2 \<Longrightarrow> selectable fd fs_pipes"
  by (simp_all add: in_ready_def ex_ready_def has_queues_def selectable_def fs_pipes_facts)

lemma bits_3: "bit (3 :: u32) fd \<longleftrightarrow> fd < 2" "bit (2 :: u32) fd \<longleftrightarrow> fd = 1"
  using bit_mask_iff[where 'a = u32, of 2 fd] bit_exp_iff[where 'a = u32, of 1 fd] by (auto simp: mask_eq_exp_minus_1)

lemma fs_pipes_hits:
  "hit 3 in_ready fs_pipes fd \<longleftrightarrow> fd = 0" "\<not> hit 2 in_ready fs_pipes fd" "\<not> hit 0 rd fs_pipes fd"
  unfolding hit_def bits_3 by (auto simp: fs_pipes_facts fs_pipes_in)

theorem select_reports_ready_witness:
  "\<exists>r t. do_select env0 3 0 0 fs_pipes = Inr (r, t) \<and> sel_count r = 1 \<and> bit (sel_in r) 0 \<and> \<not> bit (sel_in r) 1"
proof -
  have h: "hits 3 in_ready fs_pipes NR_OPEN = {0}" "hits 0 out_ready fs_pipes NR_OPEN = {}" "hits 0 ex_ready fs_pipes NR_OPEN = {}"
    by (auto simp: hits_def fs_pipes_hits)
  have "sel_ok (3 OR 0 OR 0) fs_pipes" unfolding sel_ok_def or.right_neutral bits_3 by (simp add: fs_pipes_in)
  from select_reports_ready[OF this, of env0] obtain r t where "do_select env0 3 0 0 fs_pipes = Inr (r, t)"
    "\<forall>fd. bit (sel_in r) fd = (fd \<in> {0})" "sel_count r = 1" unfolding h by auto
  then show ?thesis by auto
qed

theorem select_ignores_timeout_witness:
  "\<exists>t. do_select env0 2 0 0 fs_pipes = Inl (Sleeps ''do_select'', t)"
proof -
  have h: "hits 2 in_ready fs_pipes NR_OPEN = {}" "hits 0 out_ready fs_pipes NR_OPEN = {}" "hits 0 ex_ready fs_pipes NR_OPEN = {}"
    by (auto simp: hits_def fs_pipes_hits)
  have ok: "sel_ok (2 OR 0 OR 0) fs_pipes" unfolding sel_ok_def or.right_neutral bits_3 by (simp add: fs_pipes_in)
  have w: "waits_in 2 fs_pipes 1" unfolding waits_in_def bits_3 by (simp add: fs_pipes_hits fs_pipes_facts)
  show ?thesis by (rule select_ignores_timeout[OF ok _ h _ w fs_pipes_facts(7)]) (simp_all add: env0_def)
qed

end
