(* ===== verification/Exec.thy ===== *)
theory Exec
  imports Fork Open
begin

section \<open>Executing programs\<close>

text \<open>
  \<^verbatim>\<open>fs/exec.c\<close>. The arguments and the environment of the new program are copied, last string
  first, to the top of an area of 32 pages, which is then mapped below the library in the new address
  space; the tables of pointers to them are written below. \<open>umem\<close> is the user memory of the current process: after the
  old page tables have been freed it is what the argument pages hold, and elsewhere \<open>img\<close>, a parameter, what
  page faults will bring in from the executable.
\<close>

abbreviation (input) ENOEXEC :: int where "ENOEXEC \<equiv> 8"
abbreviation (input) MAX_ARG_PAGES :: nat where "MAX_ARG_PAGES \<equiv> 32"

definition LIBRARY_SIZE :: u32 where "LIBRARY_SIZE = 0x00400000"

subsection \<open>Libraries\<close>

definition set_library :: "nat option \<Rightarrow> fsys \<Rightarrow> fsys" where
  "set_library i s = s\<lparr>p_library := (p_library s)(me s := i)\<rparr>"

definition sys_uselib :: "env \<Rightarrow> u32 \<Rightarrow> fsys \<Rightarrow> int fres" where
  "sys_uselib E library s =
     (if t_ldt_limit (cur (kern s)) \<noteq> TASK_SIZE then retK (- EINVAL) s
      else bindK (if library \<noteq> 0 then namei E (User library) s else retK None s) (\<lambda>inode s.
        if library \<noteq> 0 \<and> inode = None then retK (- ENOENT) s
        else bindK (iput E (p_library s (me s)) s) (\<lambda>_ s.
          let s = set_library None s;
              base = t_ldt_base (cur (kern s)) + (TASK_SIZE - LIBRARY_SIZE)
          in bindK (on_pages (free_page_tables base LIBRARY_SIZE) s) (\<lambda>_ s. retK 0 (set_library inode s)))))"

subsection \<open>The tables of pointers\<close>

text \<open>The length of the string at \<open>p\<close> with the zero at its end, if it is at most \<open>n\<close> long.\<close>

primrec str_len :: "nat \<Rightarrow> text_ptr \<Rightarrow> fsys \<Rightarrow> nat option" where
  "str_len 0 p s = None"
| "str_len (Suc n) p s = (if get_ch p s = 0 then Some 1 else map_option Suc (str_len n (adv 1 p) s))"

text \<open>One of the two loops: \<open>n\<close> pointers from \<open>tab\<close> on, to the strings from \<open>p\<close> on, and a zero.\<close>

primrec fill_table :: "nat \<Rightarrow> nat \<Rightarrow> u32 \<Rightarrow> u32 \<Rightarrow> fsys \<Rightarrow> u32 fres" where
  "fill_table lim 0 tab p s = retK p (upd_kernel (put_fs_long 0 tab) s)"
| "fill_table lim (Suc n) tab p s =
     (let s = upd_kernel (put_fs_long p tab) s in
      case str_len lim (User p) s of None \<Rightarrow> stopK (Wild ''create_tables: string too long'') s
      | Some len \<Rightarrow> fill_table lim n (tab + 4) (p + of_nat len) s)"

definition create_tables :: "nat \<Rightarrow> u32 \<Rightarrow> nat \<Rightarrow> nat \<Rightarrow> fsys \<Rightarrow> u32 fres" where
  "create_tables lim p argc envc s =
     (let envp = (p AND 0xfffffffc) - 4 * (of_nat envc + 1);
          argv = envp - 4 * (of_nat argc + 1);
          sp = argv - 12;
          s = upd_kernel (put_fs_long (of_nat argc) sp \<circ> put_fs_long argv (sp + 4) \<circ> put_fs_long envp (sp + 8)) s
      in bindK (fill_table lim argc argv p s) (\<lambda>p s. bindK (fill_table lim envc envp p s) (\<lambda>_. retK sp)))"

text \<open>The number of pointers before the first null one.\<close>

primrec count_loop :: "nat \<Rightarrow> u32 \<Rightarrow> kernel \<Rightarrow> nat option" where
  "count_loop 0 a k = None"
| "count_loop (Suc n) a k = (if get_fs_long a k = 0 then Some 0 else map_option Suc (count_loop n (a + 4) k))"

definition count_args :: "env \<Rightarrow> u32 \<Rightarrow> fsys \<Rightarrow> nat fres" where
  "count_args E argv s =
     (if argv = 0 then retK 0 s
      else case count_loop (path_max E) argv (kern s) of
        None \<Rightarrow> stopK (Wild ''count: no end'') s | Some n \<Rightarrow> retK n s)"

subsection \<open>Copying the strings\<close>

text \<open>\<open>a_page\<close> is the array of pages, \<open>a_p\<close> how much of the area is still free; \<open>a_pag\<close> and \<open>a_offset\<close> are the page
  that is being filled, and how far.\<close>

record arg_area =
  a_page :: "nat \<Rightarrow> u32"
  a_p :: u32
  a_offset :: int
  a_pag :: u32

definition put_arg_char :: "u32 \<Rightarrow> nat \<Rightarrow> u8 \<Rightarrow> fsys \<Rightarrow> fsys" where
  "put_arg_char pag off c s = s\<lparr>pages := (pages s)\<lparr>mem := put_page_byte pag off c (mem (pages s))\<rparr>\<rparr>"

text \<open>A byte is put in front of what there is. The value is false when no page is left. The test of the
  code for \<^verbatim>\<open>p-len < 0\<close> is one of unsigned numbers; past the end of the array the model stops.\<close>

definition arg_byte :: "u8 \<Rightarrow> arg_area \<Rightarrow> fsys \<Rightarrow> (bool \<times> arg_area) fres" where
  "arg_byte c a s =
     (let p = a_p a - 1; off = a_offset a - 1; k = unat p div 4096 in
      if off < 0 then
        (if MAX_ARG_PAGES \<le> k then stopK (Wild ''copy_strings: no such page'') s
         else bindK (if a_page a k \<noteq> 0 then retK (a_page a k) s else on_pages get_free_page s) (\<lambda>pag s.
           let off = unat p mod 4096;
               a = a\<lparr>a_page := (a_page a)(k := pag), a_p := p, a_offset := int off, a_pag := pag\<rparr>
           in if pag = 0 then retK (False, a) s else retK (True, a) (put_arg_char pag off c s)))
      else retK (True, a\<lparr>a_p := p, a_offset := off\<rparr>) (put_arg_char (a_pag a) (nat off) c s))"

fun arg_bytes :: "u8 list \<Rightarrow> arg_area \<Rightarrow> fsys \<Rightarrow> (bool \<times> arg_area) fres" where
  "arg_bytes [] a s = retK (True, a) s"
| "arg_bytes (c # cs) a s = bindK (arg_byte c a s) (\<lambda>(ok, a) s. if ok then arg_bytes cs a s else retK (False, a) s)"

text \<open>The strings \<open>0\<close> to \<open>n - 1\<close>, which \<open>src\<close> names, from the last on; a free space of 0 reports a failure.\<close>

primrec copy_loop :: "nat \<Rightarrow> nat \<Rightarrow> (nat \<Rightarrow> fsys \<Rightarrow> text_ptr option) \<Rightarrow> arg_area \<Rightarrow> fsys \<Rightarrow> arg_area fres" where
  "copy_loop lim 0 src a s = retK a s"
| "copy_loop lim (Suc n) src a s =
     (case src n s of None \<Rightarrow> stopK (Panic ''argc is wrong'') s
      | Some t \<Rightarrow>
          (case str_len lim t s of None \<Rightarrow> stopK (Wild ''copy_strings: string too long'') s
           | Some len \<Rightarrow>
               if a_p a - of_nat len < 0 then retK (a\<lparr>a_p := 0\<rparr>) s
               else bindK (arg_bytes (rev (map (\<lambda>k. get_ch (adv k t) s) [0..<len])) a s) (\<lambda>(ok, a) s.
                 if ok then copy_loop lim n src a s else retK (a\<lparr>a_p := 0\<rparr>) s)))"

definition copy_strings :: "nat \<Rightarrow> int \<Rightarrow> (nat \<Rightarrow> fsys \<Rightarrow> text_ptr option) \<Rightarrow> arg_area \<Rightarrow> fsys \<Rightarrow> arg_area fres" where
  "copy_strings lim argc src a s =
     (if a_p a = 0 then retK a s else copy_loop lim (nat argc) src (a\<lparr>a_offset := 0\<rparr>) s)"

definition user_args :: "u32 \<Rightarrow> nat \<Rightarrow> fsys \<Rightarrow> text_ptr option" where
  "user_args argv i s = (let t = get_fs_long (argv + 4 * of_nat i) (kern s) in if t = 0 then None else Some (User t))"

text \<open>\<open>from_kmem\<close> 1 and 2: one string of user or of kernel memory.\<close>

definition user_string :: "u32 \<Rightarrow> nat \<Rightarrow> fsys \<Rightarrow> text_ptr option" where
  "user_string a i s = (if a = 0 then None else Some (User a))"

definition kernel_string :: "u8 list \<Rightarrow> nat \<Rightarrow> fsys \<Rightarrow> text_ptr option" where
  "kernel_string cs i s = Some (InKernel cs 0)"

definition free_args :: "(nat \<Rightarrow> u32) \<Rightarrow> fsys \<Rightarrow> unit fres" where
  "free_args page = forK (\<lambda>i. on_pages (free_page (page i))) [0..<MAX_ARG_PAGES]"

subsection \<open>The new address space\<close>

definition arg_base :: u32 where
  "arg_base = TASK_SIZE - LIBRARY_SIZE - of_nat MAX_ARG_PAGES * 4096"

definition user_view :: "(u32 \<Rightarrow> u8) \<Rightarrow> (nat \<Rightarrow> u32) \<Rightarrow> mm \<Rightarrow> u32 \<Rightarrow> u8" where
  "user_view img page m a =
     (let k = unat (a - arg_base) in
      if k < MAX_ARG_PAGES * 4096 \<and> page (k div 4096) \<noteq> 0
      then page_byte (page (k div 4096)) (mem m) (k mod 4096) else img a)"

text \<open>The loop that enters the pages of the arguments, the last one first; the result is the pages that are mapped: when
  there is no memory for a page table, \<^verbatim>\<open>put_dirty_page\<close> returns 0, which nobody looks at.\<close>

primrec enter_args :: "(nat \<Rightarrow> u32) \<Rightarrow> u32 \<Rightarrow> nat \<Rightarrow> (nat \<Rightarrow> u32) \<Rightarrow> mm \<Rightarrow> (nat \<Rightarrow> u32) mres" where
  "enter_args page data_base 0 mapped m = retK mapped m"
| "enter_args page data_base (Suc i) mapped m =
     (let data_base = data_base - 4096 in
      if page i \<noteq> 0
      then bindK (put_dirty_page (page i) data_base m) (\<lambda>r.
        enter_args page data_base i (if r \<noteq> 0 then mapped(i := page i) else mapped))
      else enter_args page data_base i mapped m)"

definition change_ldt :: "(u32 \<Rightarrow> u8) \<Rightarrow> (nat \<Rightarrow> u32) \<Rightarrow> psys \<Rightarrow> u32 forkres" where
  "change_ldt img page s =
     (let base = code_base s (my s);
          s = s\<lparr>code_limit := (code_limit s)(my s := TASK_SIZE),
                fs := upd_kernel (upd_cur (\<lambda>t. t\<lparr>t_ldt_base := base, t_ldt_limit := TASK_SIZE\<rparr>)) (fs s)\<rparr>;
          view = (\<lambda>mapped. user_view img mapped (pages (fs s)))
      in bindK (on_frames (enter_args page (base + (TASK_SIZE - LIBRARY_SIZE)) MAX_ARG_PAGES (\<lambda>_. 0)) s)
           (\<lambda>mapped s. retK TASK_SIZE (s\<lparr>fs := upd_kernel (\<lambda>k. k\<lparr>umem := view mapped\<rparr>) (fs s)\<rparr>)))"

subsection \<open>The header of a file\<close>

record exec_header =
  a_magic :: u32
  a_text :: u32
  a_data :: u32
  a_bss :: u32
  a_syms :: u32
  a_entry :: u32
  a_trsize :: u32
  a_drsize :: u32

definition get_exec :: "block_data \<Rightarrow> exec_header" where
  "get_exec d = \<lparr>a_magic = get32_at d 0, a_text = get32_at d 4, a_data = get32_at d 8, a_bss = get32_at d 12,
     a_syms = get32_at d 16, a_entry = get32_at d 20, a_trsize = get32_at d 24, a_drsize = get32_at d 28\<rparr>"

definition ZMAGIC :: u32 where "ZMAGIC = 267"

definition N_TXTOFF :: "exec_header \<Rightarrow> u32" where
  "N_TXTOFF h = (if a_magic h = ZMAGIC then (1024 - 32) + 32 else 32)"

definition bad_header :: "exec_header \<Rightarrow> u32 \<Rightarrow> bool" where
  "bad_header h sz \<longleftrightarrow> a_magic h \<noteq> ZMAGIC \<or> a_trsize h \<noteq> 0 \<or> a_drsize h \<noteq> 0 \<or>
     0x3000000 < a_text h + a_data h + a_bss h \<or> sz < a_text h + a_data h + a_syms h + N_TXTOFF h"

text \<open>The first line of a script: the interpreter, the last part of its name, and its argument.\<close>

record script =
  interp :: "u8 list"
  i_name :: "u8 list"
  i_arg :: "u8 list option"

definition blank :: "u8 \<Rightarrow> bool" where
  "blank c \<longleftrightarrow> c = 32 \<or> c = 9"

definition parse_script :: "block_data \<Rightarrow> script option" where
  "parse_script d =
     (let buf = takeWhile (\<lambda>c. c \<noteq> 0) (map (\<lambda>k. d (2 + k)) [0..<127]) in
      if 10 \<notin> set buf then None
      else let cp = dropWhile blank (takeWhile (\<lambda>c. c \<noteq> 10) buf) in
        if cp = [] then None
        else let name = takeWhile (\<lambda>c. \<not> blank c) cp; rest = dropWhile (\<lambda>c. \<not> blank c) cp in
          Some \<lparr>interp = name, i_name = rev (takeWhile (\<lambda>c. c \<noteq> SLASH) (rev name)),
                i_arg = (if rest = [] then None else Some (tl rest))\<rparr>)"

subsection \<open>do_execve\<close>

text \<open>May the file be executed, and as whom?\<close>

definition exec_allowed :: "nat \<Rightarrow> fsys \<Rightarrow> bool" where
  "exec_allowed i s =
     (let x = inodes s i; k = kern s;
          m = (if t_euid (cur k) = i_uid x then drop_bit 6 (i_mode x)
               else if in_group_p (ucast (i_gid x)) k then drop_bit 3 (i_mode x) else i_mode x)
      in m AND 1 \<noteq> 0 \<or> i_mode x AND 0x49 \<noteq> 0 \<and> suser k)"

definition exec_ids :: "nat \<Rightarrow> fsys \<Rightarrow> u16 \<times> u16" where
  "exec_ids i s =
     (let x = inodes s i; t = cur (kern s) in
      (if i_mode x AND 0x800 \<noteq> 0 then i_uid x else t_euid t,
       if i_mode x AND 0x400 \<noteq> 0 then ucast (i_gid x) else t_egid t))"

text \<open>The first block of the file, or the error.\<close>

definition first_block :: "env \<Rightarrow> nat \<Rightarrow> fsys \<Rightarrow> (int + nat) fres" where
  "first_block E i s =
     (if \<not> S_ISREG (i_mode (inodes s i)) then retK (Inl (- EACCES)) s
      else if \<not> exec_allowed i s then retK (Inl (- ENOEXEC)) s
      else bindK (bread E (i_dev (inodes s i)) (unat (i_zone (inodes s i) 0)) s) (\<lambda>bh s.
        retK (case bh of None \<Rightarrow> Inl (- EACCES) | Some b \<Rightarrow> Inr b) s))"

definition is_script :: "block_data \<Rightarrow> bool" where
  "is_script d \<longleftrightarrow> d 0 = 35 \<and> d 1 = 33"

text \<open>The strings of a script: the environment, the arguments without the first, the name of the script, the
  argument of the interpreter and its name.\<close>

definition script_strings :: "nat \<Rightarrow> u32 \<Rightarrow> u32 \<Rightarrow> u32 \<Rightarrow> nat \<Rightarrow> nat \<Rightarrow> script \<Rightarrow> arg_area \<Rightarrow> fsys \<Rightarrow> arg_area fres" where
  "script_strings lim filename argv envp argc envc sc a s =
     bindK (copy_strings lim (int envc) (user_args envp) a s) (\<lambda>a s.
     bindK (copy_strings lim (int argc - 1) (user_args (argv + 4)) a s) (\<lambda>a s.
     bindK (copy_strings lim 1 (user_string filename) a s) (\<lambda>a s.
     bindK (case i_arg sc of None \<Rightarrow> retK a s | Some cs \<Rightarrow> copy_strings lim 1 (kernel_string cs) a s) (\<lambda>a s.
       copy_strings lim 1 (kernel_string (i_name sc)) a s))))"

definition script_argc :: "nat \<Rightarrow> script \<Rightarrow> nat" where
  "script_argc argc sc = nat (int argc - 1 + 2 + (if i_arg sc = None then 0 else 1))"

definition exec_error1 :: "int \<Rightarrow> arg_area \<Rightarrow> psys \<Rightarrow> (int \<times> (u32 \<times> u32) option) forkres" where
  "exec_error1 e a s = bindK (on_fs (free_args (a_page a)) s) (\<lambda>_. retK (e, None))"

definition exec_error2 :: "env \<Rightarrow> nat \<Rightarrow> int \<Rightarrow> arg_area \<Rightarrow> psys \<Rightarrow> (int \<times> (u32 \<times> u32) option) forkres" where
  "exec_error2 E i e a s = bindK (on_fs (iput E (Some i)) s) (\<lambda>_. exec_error1 e a)"

definition reset_signals :: "task_struct \<Rightarrow> task_struct" where
  "reset_signals t = t\<lparr>t_signal := 0, t_sigaction := (\<lambda>i. if 0 \<le> i \<and> i < 32 then
     (t_sigaction t i)\<lparr>sa_mask := 0, sa_flags := 0,
        sa_handler := (if sa_handler (t_sigaction t i) \<noteq> 1 then 0 else sa_handler (t_sigaction t i))\<rparr> else t_sigaction t i)\<rparr>"

definition close_marked :: "env \<Rightarrow> fsys \<Rightarrow> unit fres" where
  "close_marked E = forK (\<lambda>i s. if bit (p_close_on_exec s (me s)) i then bindK (sys_close E i s) (\<lambda>_. retK ()) else retK () s)
     [0..<NR_OPEN]"

definition drop_math :: "kernel \<Rightarrow> kernel" where
  "drop_math k =
     (let k = (if last_task_used_math k = Some (current k) then k\<lparr>last_task_used_math := None\<rparr> else k)
      in upd_cur (\<lambda>t. t\<lparr>t_used_math := False\<rparr>) k)"

text \<open>The point of no return is behind us: what is left of \<^verbatim>\<open>do_execve\<close>. The value is the new
  \<^verbatim>\<open>eip\<close> and \<^verbatim>\<open>esp\<close>.\<close>

definition exec_commit :: "env \<Rightarrow> (u32 \<Rightarrow> u8) \<Rightarrow> nat \<Rightarrow> u16 \<times> u16 \<Rightarrow> exec_header \<Rightarrow> nat \<Rightarrow> nat \<Rightarrow> arg_area
    \<Rightarrow> psys \<Rightarrow> (int \<times> (u32 \<times> u32) option) forkres" where
  "exec_commit E img i ids h argc envc a s =
     bindK (on_fs (\<lambda>f. iput E (p_executable f (me f)) f) s) (\<lambda>_ s.
       let s = s\<lparr>fs := upd_kernel (upd_cur reset_signals) ((fs s)\<lparr>p_executable := (p_executable (fs s))(my s := Some i)\<rparr>)\<rparr> in
       bindK (on_fs (close_marked E) s) (\<lambda>_ s.
         let s = s\<lparr>fs := (fs s)\<lparr>p_close_on_exec := (p_close_on_exec (fs s))(my s := 0)\<rparr>\<rparr> in
         bindK (on_frames (free_page_tables (code_base s (my s)) (code_limit s (my s))) s) (\<lambda>_ s.
         bindK (on_frames (free_page_tables (t_ldt_base (cur (kern (fs s)))) (t_ldt_limit (cur (kern (fs s))))) s) (\<lambda>_ s.
           let s = s\<lparr>fs := upd_kernel drop_math (fs s)\<rparr> in
           bindK (change_ldt img (a_page a) s) (\<lambda>limit s.
             let p = a_p a + limit - (LIBRARY_SIZE + of_nat MAX_ARG_PAGES * 4096) in
             bindK (on_fs (create_tables (path_max E) p argc envc) s) (\<lambda>p s.
               let end_data = a_data h + a_text h;
                   s = s\<lparr>fs := upd_kernel (upd_cur (\<lambda>t. t\<lparr>t_end_code := a_text h, t_end_data := end_data,
                         t_brk := a_bss h + end_data, t_start_stack := page_of p,
                         t_euid := fst ids, t_suid := fst ids, t_egid := snd ids, t_sgid := snd ids\<rparr>)) (fs s)\<rparr>
               in retK (0, Some (a_entry h, p)) s))))))"

text \<open>From the header on, without a script; \<open>a\<close> holds the strings already when the file is an interpreter.\<close>

definition exec_file :: "env \<Rightarrow> (u32 \<Rightarrow> u8) \<Rightarrow> bool \<Rightarrow> nat \<Rightarrow> u16 \<times> u16 \<Rightarrow> nat \<Rightarrow> u32 \<Rightarrow> u32 \<Rightarrow> nat \<Rightarrow> nat \<Rightarrow> arg_area
    \<Rightarrow> psys \<Rightarrow> (int \<times> (u32 \<times> u32) option) forkres" where
  "exec_file E img sh_bang i ids b argv envp argc envc a s =
     (let h = get_exec (b_data (bufs (fs s) b)) in
      bindK (on_fs (brelse E (Some b)) s) (\<lambda>_ s.
        if bad_header h (i_size (inodes (fs s) i)) then exec_error2 E i (- ENOEXEC) a s
        else if N_TXTOFF h \<noteq> 1024
        then exec_error2 E i (- ENOEXEC) a (s\<lparr>fs := fs_say ''N_TXTOFF != BLOCK_SIZE. See a.out.h.'' (fs s)\<rparr>)
        else bindK (if sh_bang then retK a s
                    else bindK (on_fs (copy_strings (path_max E) (int envc) (user_args envp) a) s) (\<lambda>a.
                           on_fs (copy_strings (path_max E) (int argc) (user_args argv) a))) (\<lambda>a s.
          if \<not> sh_bang \<and> a_p a = 0 then exec_error2 E i (- ENOMEM) a s
          else exec_commit E img i ids h argc envc a s)))"

text \<open>A script is executed by its interpreter, which must not be a script itself. The name of the interpreter is looked
  up with the kernel's \<^verbatim>\<open>fs\<close>, so that a symbolic link is not followed.\<close>

definition exec_script :: "env \<Rightarrow> (u32 \<Rightarrow> u8) \<Rightarrow> nat \<Rightarrow> nat \<Rightarrow> u32 \<Rightarrow> u32 \<Rightarrow> u32 \<Rightarrow> nat \<Rightarrow> nat \<Rightarrow> arg_area
    \<Rightarrow> psys \<Rightarrow> (int \<times> (u32 \<times> u32) option) forkres" where
  "exec_script E img i b filename argv envp argc envc a s =
     (let line = parse_script (b_data (bufs (fs s) b)) in
      bindK (on_fs (brelse E (Some b)) s) (\<lambda>_ s.
      bindK (on_fs (iput E (Some i)) s) (\<lambda>_ s.
        case line of None \<Rightarrow> exec_error1 (- ENOEXEC) a s
        | Some sc \<Rightarrow>
            bindK (on_fs (script_strings (path_max E) filename argv envp argc envc sc a) s) (\<lambda>a s.
              if a_p a = 0 then exec_error1 (- ENOMEM) a s
              else bindK (on_fs (namei_by (follow_kernel E) E True (InKernel (interp sc) 0) None) s) (\<lambda>r s.
                case r of None \<Rightarrow> exec_error1 (- ENOENT) a s
                | Some i \<Rightarrow>
                    let ids = exec_ids i (fs s) in
                    bindK (on_fs (first_block E i) s) (\<lambda>r s.
                      case r of Inl e \<Rightarrow> exec_error2 E i e a s
                      | Inr b \<Rightarrow> exec_file E img True i ids b argv envp (script_argc argc sc) envc a s))))))"

definition do_execve :: "env \<Rightarrow> (u32 \<Rightarrow> u8) \<Rightarrow> u32 \<Rightarrow> u32 \<Rightarrow> u32 \<Rightarrow> u32 \<Rightarrow> psys
    \<Rightarrow> (int \<times> (u32 \<times> u32) option) forkres" where
  "do_execve E img cs filename argv envp s =
     (if 0xffff AND cs \<noteq> 0x000f then stopK (Panic ''execve called from supervisor mode'') s
      else
        let a = \<lparr>a_page = (\<lambda>_. 0), a_p = 4096 * of_nat MAX_ARG_PAGES - 4, a_offset = 0, a_pag = 0\<rparr> in
        bindK (on_fs (namei E (User filename)) s) (\<lambda>r s.
          case r of None \<Rightarrow> retK (- ENOENT, None) s
          | Some i \<Rightarrow>
              bindK (on_fs (count_args E argv) s) (\<lambda>argc s.
              bindK (on_fs (count_args E envp) s) (\<lambda>envc s.
                let ids = exec_ids i (fs s) in
                bindK (on_fs (first_block E i) s) (\<lambda>r s.
                  case r of Inl e \<Rightarrow> exec_error2 E i e a s
                  | Inr b \<Rightarrow>
                      if is_script (b_data (bufs (fs s) b))
                      then exec_script E img i b filename argv envp argc envc a s
                      else exec_file E img False i ids b argv envp argc envc a s)))))"

end
