(* ===== verification/Exec_Props.thy ===== *)
theory Exec_Props
  imports Exec Malloc_Props Pipe_Props Fs_Samples
begin

section \<open>Properties of exec\<close>

text \<open>
  The arguments of a program reach it: the strings that are copied to the argument pages appear at the top of the
  new user memory, and the tables below them point to them.
\<close>

subsection \<open>Strings in user memory\<close>

definition holds :: "kernel \<Rightarrow> u32 \<Rightarrow> u8 list \<Rightarrow> bool" where
  "holds k p bs \<longleftrightarrow> (\<forall>i<length bs. umem k (p + of_nat i) = bs ! i)"

lemma holds_Nil [simp]: "holds k p []"
  by (simp add: holds_def)

lemma holds_Cons: "holds k p (b # bs) \<longleftrightarrow> umem k p = b \<and> holds k (p + 1) bs"
  by (auto simp: holds_def nth_Cons less_Suc_eq_0_disj add.assoc split: nat.splits)

lemma holds_append: "holds k p (xs @ ys) \<longleftrightarrow> holds k p xs \<and> holds k (p + of_nat (length xs)) ys"
  by (induction xs arbitrary: p) (auto simp: holds_Cons add.assoc)

text \<open>The strings one after the other, each with its zero.\<close>

definition zs :: "u8 list list \<Rightarrow> u8 list" where
  "zs ss = concat (map (\<lambda>c. c @ [0]) ss)"

lemma zs_simps [simp]: "zs [] = []" "zs (c # ss) = c @ 0 # zs ss" "zs (ss @ rs) = zs ss @ zs rs"
  by (simp_all add: zs_def)

definition strings_ok :: "nat \<Rightarrow> u8 list list \<Rightarrow> bool" where
  "strings_ok n ss \<longleftrightarrow> (\<forall>c\<in>set ss. 0 \<notin> set c \<and> length c < n)"

lemma str_len_holds:
  "holds (kern s) p (c @ [0]) \<Longrightarrow> 0 \<notin> set c \<Longrightarrow> length c < n \<Longrightarrow> str_len n (User p) s = Some (length c + 1)"
proof (induction c arbitrary: p n)
  case Nil
  then show ?case by (cases n) (auto simp: holds_Cons get_fs_byte_def)
next
  case (Cons b c)
  then obtain m where m: "n = Suc m" by (cases n) auto
  have "str_len m (User (p + 1)) s = Some (length c + 1)" using Cons m by (intro Cons.IH) (auto simp: holds_Cons)
  then show ?case using Cons.prems m by (auto simp: holds_Cons get_fs_byte_def)
qed

lemma unat_32: "unat (a :: u32) < 2 ^ 32"
  using unsigned_less[of a] by simp

lemma unat_plus_small: "unat (a :: u32) + n < 2 ^ 32 \<Longrightarrow> unat (a + of_nat n) = unat a + n"
  by (simp add: unat_word_ariths unat_of_nat)

lemma unat_minus_small: "n \<le> unat (a :: u32) \<Longrightarrow> unat (a - of_nat n) = unat a - n"
proof -
  assume n: "n \<le> unat a"
  then have "unat (of_nat n :: u32) = n" using unat_32[of a] by (simp add: unat_of_nat)
  then show ?thesis using n by (simp add: unat_sub word_le_nat_alt)
qed

lemma unat_plus_4: "unat (a :: u32) + 4 < 2 ^ 32 \<Longrightarrow> unat (a + 4) = unat a + 4"
  using unat_plus_small[of a 4] by simp

lemma umem_put_fs_long:
  assumes "unat a + 4 \<le> 2 ^ 32" "unat b < unat a \<or> unat a + 4 \<le> unat b"
  shows "umem (put_fs_long v a k) b = umem k b"
proof -
  have "unat (a + of_nat j) = unat a + j" if "j < 4" for j using assms(1) that by (intro unat_plus_small) simp
  from this[of 0] this[of 1] this[of 2] this[of 3] assms(2)
  have "b \<noteq> a" "b \<noteq> a + 1" "b \<noteq> a + 2" "b \<noteq> a + 3" by auto
  then show ?thesis by (simp add: put_fs_long_def)
qed

lemma get_fs_long_same:
  assumes "\<And>j. j < 4 \<Longrightarrow> umem k' (a + of_nat j) = umem k (a + of_nat j)"
  shows "get_fs_long a k' = get_fs_long a k"
  using assms[of 0] assms[of 1] assms[of 2] assms[of 3] by (simp add: get_fs_long_def)

subsection \<open>The tables\<close>

text \<open>A table of pointers to strings, with a null pointer at its end.\<close>

definition table_at :: "kernel \<Rightarrow> u32 \<Rightarrow> u8 list list \<Rightarrow> bool" where
  "table_at k a ss \<longleftrightarrow> (\<forall>i<length ss. get_fs_long (a + 4 * of_nat i) k \<noteq> 0 \<and>
       holds k (get_fs_long (a + 4 * of_nat i) k) (ss ! i @ [0])) \<and> get_fs_long (a + 4 * of_nat (length ss)) k = 0"

text \<open>Of a state only memory outside the \<open>n\<close> bytes at \<open>lo\<close> is the same.\<close>

definition same_outside :: "nat \<Rightarrow> nat \<Rightarrow> kernel \<Rightarrow> kernel \<Rightarrow> bool" where
  "same_outside lo n k k' \<longleftrightarrow> (\<forall>a. unat a < lo \<or> lo + n \<le> unat a \<longrightarrow> umem k' a = umem k a)"

lemma same_outside_holds:
  assumes "same_outside lo n k k'" "lo + n \<le> unat p" "unat p + length bs \<le> 2 ^ 32"
  shows "holds k' p bs = holds k p bs"
proof -
  have "umem k' (p + of_nat i) = umem k (p + of_nat i)" if "i < length bs" for i
  proof -
    have "unat (p + of_nat i) = unat p + i" using assms(3) that by (intro unat_plus_small) simp
    then show ?thesis using assms(1,2) by (simp add: same_outside_def)
  qed
  then show ?thesis by (simp add: holds_def)
qed

lemma same_outside_long:
  assumes "same_outside lo n k k'" "unat a + 4 \<le> lo \<or> lo + n \<le> unat a" "unat a + 4 \<le> 2 ^ 32"
  shows "get_fs_long a k' = get_fs_long a k"
proof (rule get_fs_long_same)
  fix j :: nat assume "j < 4"
  then have "unat (a + of_nat j) = unat a + j" using assms(3) by (intro unat_plus_small) simp
  then show "umem k' (a + of_nat j) = umem k (a + of_nat j)" using assms(1,2) \<open>j < 4\<close> by (auto simp: same_outside_def)
qed

lemma fill_table_spec:
  assumes "holds (kern s) p (zs ss)" "strings_ok lim ss" "unat p + length (zs ss) < 2 ^ 32"
    "unat tab + 4 * (length ss + 1) \<le> unat p"
  shows "\<exists>t. fill_table lim (length ss) tab p s = Inr (p + of_nat (length (zs ss)), t) \<and>
    (\<forall>i<length ss. get_fs_long (tab + 4 * of_nat i) (kern t) = p + of_nat (length (zs (take i ss)))) \<and>
    get_fs_long (tab + 4 * of_nat (length ss)) (kern t) = 0 \<and>
    same_outside (unat tab) (4 * (length ss + 1)) (kern s) (kern t)"
  using assms
proof (induction ss arbitrary: tab p s)
  case Nil
  have "unat tab + 4 \<le> 2 ^ 32" using Nil.prems(4) unat_32[of p] by simp
  then have "same_outside (unat tab) 4 (kern s) (put_fs_long 0 tab (kern s))"
    unfolding same_outside_def by (auto intro!: umem_put_fs_long)
  then show ?case by (simp add: retK_def upd_kernel_def get_put_fs_long)
next
  case (Cons c ss)
  define u where "u = upd_kernel (put_fs_long p tab) s"
  have room: "unat tab + 4 * (length ss + 2) \<le> unat p" using Cons.prems(4) by simp
  then have room4: "unat tab + 8 \<le> 2 ^ 32" "unat tab + 4 < 2 ^ 32" using unat_32[of p] by auto
  have ku: "kern u = put_fs_long p tab (kern s)" by (simp add: u_def upd_kernel_def)
  have out: "same_outside (unat tab) 4 (kern s) (kern u)"
    unfolding same_outside_def ku using room4 by (auto intro!: umem_put_fs_long)
  have hu: "holds (kern u) p (c @ 0 # zs ss)"
    using same_outside_holds[OF out, of p "c @ 0 # zs ss"] Cons.prems(1,3,4) by simp
  then have h: "holds (kern u) p (c @ [0])" "holds (kern u) (p + of_nat (length c + 1)) (zs ss)"
    by (simp_all add: holds_append holds_Cons ac_simps)
  have len: "str_len lim (User p) u = Some (length c + 1)"
    by (rule str_len_holds[OF h(1)]) (use Cons.prems(2) in \<open>auto simp: strings_ok_def\<close>)
  have t4: "unat (tab + 4) = unat tab + 4" using room4 by (intro unat_plus_4) simp
  have pc: "unat (p + of_nat (length c + 1)) = unat p + (length c + 1)"
    using Cons.prems(3) by (intro unat_plus_small) simp
  have ok: "strings_ok lim ss" using Cons.prems(2) by (simp add: strings_ok_def)
  from Cons.IH[OF h(2) ok, of "tab + 4"] pc t4 room Cons.prems(3) obtain t where
    t: "fill_table lim (length ss) (tab + 4) (p + of_nat (length c + 1)) u = Inr (p + of_nat (length c + 1) + of_nat (length (zs ss)), t)"
      "\<forall>i<length ss. get_fs_long (tab + 4 + 4 * of_nat i) (kern t) = p + of_nat (length c + 1) + of_nat (length (zs (take i ss)))"
      "get_fs_long (tab + 4 + 4 * of_nat (length ss)) (kern t) = 0"
      "same_outside (unat tab + 4) (4 * (length ss + 1)) (kern u) (kern t)" by auto
  have first: "get_fs_long tab (kern t) = p"
    using same_outside_long[OF t(4), of tab] room4 by (simp add: ku get_put_fs_long)
  have all: "get_fs_long (tab + 4 * of_nat i) (kern t) = p + of_nat (length (zs (take i (c # ss))))" if "i < length (c # ss)" for i
  proof (cases i)
    case 0
    then show ?thesis using first by simp
  next
    case (Suc j)
    then show ?thesis using t(2) that by (auto simp: algebra_simps)
  qed
  have frame: "same_outside (unat tab) (4 * (length ss + 2)) (kern s) (kern t)"
    using out t(4) by (auto simp: same_outside_def)
  show ?case using t(1,3) all frame len
    by (intro exI[of _ t]) (simp add: u_def[symmetric] Let_def algebra_simps)
qed

lemma create_tables_spec:
  assumes h: "holds (kern s) p (zs (args @ envs))" and ok: "strings_ok lim (args @ envs)"
    and fits: "unat p + length (zs (args @ envs)) < 2 ^ 32" "4 * (length args + length envs) + 24 \<le> unat p"
  shows "\<exists>sp t. create_tables lim p (length args) (length envs) s = Inr (sp, t) \<and> get_fs_long sp (kern t) = of_nat (length args) \<and>
    table_at (kern t) (get_fs_long (sp + 4) (kern t)) args \<and> table_at (kern t) (get_fs_long (sp + 8) (kern t)) envs"
proof -
  let ?na = "length args" and ?ne = "length envs"
  define q where "q = p AND 0xfffffffc"
  define argv where "argv = q - 4 * (of_nat ?ne + 1) - 4 * (of_nat ?na + 1)"
  define envp where "envp = argv + 4 * of_nat ?na + 4"
  have q: "unat q \<le> unat p" "unat p < unat q + 4"
  proof -
    have eq: "(0xfffffffc :: u32) = NOT (mask 2)" by (simp add: mask_eq_exp_minus_1 not_eq_complement)
    have qs: "q = push_bit 2 (drop_bit 2 p)" unfolding q_def eq
    proof (rule word_eqI_bits)
      have e: "2 \<le> n \<Longrightarrow> Suc (Suc (n - 2)) = n" for n by simp
      show "bit (p AND NOT (mask 2)) n = bit (push_bit 2 (drop_bit 2 p)) n" for n by (auto simp: bit_simps e)
    qed
    have "unat p div 4 < 4294967296" "unat p div 4 * 4 < 4294967296" using unat_32[of p] by auto
    then have "unat q = 4 * (unat p div 4)"
      unfolding qs by (simp add: unat_drop_bit_eq push_bit_eq_mult drop_bit_eq_div unat_word_ariths)
    then show "unat q \<le> unat p" "unat p < unat q + 4" by auto
  qed
  have argv: "argv = q - of_nat (4 * (?na + ?ne + 2))" unfolding argv_def by (simp add: algebra_simps)
  have N: "unat argv = unat q - 4 * (?na + ?ne + 2)" unfolding argv by (rule unat_minus_small) (use fits q in simp)
  have roomq: "4 * (?na + ?ne + 2) + 12 \<le> unat q" using fits(2) q by simp
  have sp: "unat (argv - 12) = unat argv - 12" using unat_minus_small[of 12 argv] N roomq by simp
  have sp48: "argv - 12 + 4 = argv - 8" "argv - 12 + 8 = argv - 4" by simp_all
  have sp4: "unat (argv - 8) = unat argv - 8" "unat (argv - 4) = unat argv - 4"
    using unat_minus_small[of 8 argv] unat_minus_small[of 4 argv] N roomq by simp_all
  have envp: "envp = argv + of_nat (4 * (?na + 1))" by (simp add: envp_def algebra_simps)
  have E: "unat envp = unat argv + 4 * (?na + 1)" unfolding envp by (rule unat_plus_small) (use N roomq unat_32[of q] in simp)
  have envq: "q - 4 * (of_nat ?ne + 1) = envp" unfolding envp argv by (simp add: algebra_simps)
  define s1 where "s1 = upd_kernel (put_fs_long (of_nat ?na) (argv - 12) \<circ> put_fs_long argv (argv - 8) \<circ> put_fs_long envp (argv - 4)) s"
  have k1: "kern s1 = put_fs_long (of_nat ?na) (argv - 12) (put_fs_long argv (argv - 8) (put_fs_long envp (argv - 4) (kern s)))"
    by (simp add: s1_def upd_kernel_def)
  have a12: "12 \<le> unat argv" "unat argv + 4 * (?na + ?ne + 2) \<le> unat p" using N roomq q by simp_all
  have p32: "unat p < 2 ^ 32" by (rule unat_32)
  obtain B where B: "unat argv = 12 + B" using le_Suc_ex[OF a12(1)] by blast
  have pos: "unat (argv - 12) = B" "unat (argv - 8) = B + 4" "unat (argv - 4) = B + 8" "B + 12 \<le> 2 ^ 32"
    using B sp sp4 a12 p32 by simp_all
  have out1: "same_outside (unat argv - 12) 12 (kern s) (kern s1)"
  proof -
    show ?thesis unfolding same_outside_def k1
    proof (intro allI impI)
      fix a :: u32 assume "unat a < unat argv - 12 \<or> unat argv - 12 + 12 \<le> unat a"
      then have "unat a < B \<or> B + 12 \<le> unat a" using B by simp
      then show "umem (put_fs_long (of_nat ?na) (argv - 12) (put_fs_long argv (argv - 8) (put_fs_long envp (argv - 4) (kern s)))) a = umem (kern s) a"
        using pos(4) by (elim disjE) (simp_all add: umem_put_fs_long pos)
    qed
  qed
  have top: "get_fs_long (argv - 12) (kern s1) = of_nat ?na" "get_fs_long (argv - 8) (kern s1) = argv" "get_fs_long (argv - 4) (kern s1) = envp"
  proof -
    have o: "same_outside (unat a) 4 k (put_fs_long v a k)" if "unat a + 4 \<le> 2 ^ 32" for a v k
      unfolding same_outside_def using that by (auto simp: umem_put_fs_long)
    have f: "get_fs_long b (put_fs_long v a k) = get_fs_long b k"
      if "unat a + 4 \<le> 2 ^ 32" "unat b + 4 \<le> 2 ^ 32" "unat b + 4 \<le> unat a \<or> unat a + 4 \<le> unat b" for a b v k
      using same_outside_long[OF o[OF that(1)]] that by blast
    show "get_fs_long (argv - 12) (kern s1) = of_nat ?na" by (simp add: k1 get_put_fs_long)
    show "get_fs_long (argv - 8) (kern s1) = argv" "get_fs_long (argv - 4) (kern s1) = envp"
      using pos(4) by (simp_all add: k1 get_put_fs_long f pos)
  qed
  have h1: "holds (kern s1) p (zs args @ zs envs)"
    using same_outside_holds[OF out1, of p "zs args @ zs envs"] h fits(1) a12 by simp
  have oka: "strings_ok lim args" and oke: "strings_ok lim envs" using ok by (auto simp: strings_ok_def)
  from fill_table_spec[of s1 p args lim argv] h1 oka fits(1) a12 obtain t1 where
    t1: "fill_table lim ?na argv p s1 = Inr (p + of_nat (length (zs args)), t1)"
      "\<forall>i<?na. get_fs_long (argv + 4 * of_nat i) (kern t1) = p + of_nat (length (zs (take i args)))"
      "get_fs_long (argv + 4 * of_nat ?na) (kern t1) = 0" "same_outside (unat argv) (4 * (?na + 1)) (kern s1) (kern t1)"
    by (auto simp: holds_append)
  define pe where "pe = p + of_nat (length (zs args))"
  have pe: "unat pe = unat p + length (zs args)" unfolding pe_def by (rule unat_plus_small) (use fits(1) in simp)
  have h2: "holds (kern t1) p (zs args @ zs envs)"
    using same_outside_holds[OF t1(4), of p "zs args @ zs envs"] h1 fits(1) a12 by simp
  from fill_table_spec[of t1 pe envs lim envp] h2 oke fits(1) a12 E pe obtain t where
    t: "fill_table lim ?ne envp pe t1 = Inr (pe + of_nat (length (zs envs)), t)"
      "\<forall>i<?ne. get_fs_long (envp + 4 * of_nat i) (kern t) = pe + of_nat (length (zs (take i envs)))"
      "get_fs_long (envp + 4 * of_nat ?ne) (kern t) = 0" "same_outside (unat envp) (4 * (?ne + 1)) (kern t1) (kern t)"
    by (auto simp: holds_append pe_def)
  have h3: "holds (kern t) p (zs args @ zs envs)"
    using same_outside_holds[OF t(4), of p "zs args @ zs envs"] h2 fits(1) a12 E by simp
  have argvq: "envp - 4 * (of_nat ?na + 1) = argv" unfolding envp by (simp add: algebra_simps)
  have run: "create_tables lim p ?na ?ne s = Inr (argv - 12, t)"
    unfolding create_tables_def Let_def q_def[symmetric] envq argvq sp48 s1_def[symmetric]
    by (simp add: t1(1) pe_def[symmetric] t(1) retK_def)
  have low: "get_fs_long a (kern t) = get_fs_long a (kern s1)" if "unat a + 4 \<le> unat argv" for a
  proof -
    have "get_fs_long a (kern t1) = get_fs_long a (kern s1)" by (rule same_outside_long[OF t1(4)]) (use that p32 a12 in simp_all)
    moreover have "get_fs_long a (kern t) = get_fs_long a (kern t1)"
      by (rule same_outside_long[OF t(4)]) (use that p32 a12 E in simp_all)
    ultimately show ?thesis by simp
  qed
  have mid: "get_fs_long (argv + 4 * of_nat i) (kern t) = get_fs_long (argv + 4 * of_nat i) (kern t1)" if "i \<le> ?na" for i
  proof -
    have "unat (argv + of_nat (4 * i)) = unat argv + 4 * i" by (rule unat_plus_small) (use that p32 a12 in simp)
    then have "unat (argv + 4 * of_nat i) = unat argv + 4 * i" by simp
    then show ?thesis by (intro same_outside_long[OF t(4)]) (use that p32 a12 E in simp_all)
  qed
  have str: "holds k a (zs ss) \<Longrightarrow> i < length ss \<Longrightarrow> holds k (a + of_nat (length (zs (take i ss)))) (ss ! i @ [0])" for k a ss i
  proof -
    assume hs: "holds k a (zs ss)" and i: "i < length ss"
    have "zs ss = zs (take i ss) @ (ss ! i @ [0]) @ zs (drop (Suc i) ss)"
      using id_take_nth_drop[OF i] by (metis append.assoc append_Cons append_Nil zs_simps(2,3))
    then show ?thesis using hs by (simp only: holds_append)
  qed
  have ptr: "a + of_nat (length (zs (take i ss))) \<noteq> 0" if "unat a + length (zs ss) < 2 ^ 32" "0 < unat a" for a :: u32 and i ss
  proof -
    have "zs ss = zs (take i ss) @ zs (drop i ss)" by (metis append_take_drop_id zs_simps(3))
    then have "length (zs (take i ss)) \<le> length (zs ss)" by simp
    then have "unat (a + of_nat (length (zs (take i ss)))) = unat a + length (zs (take i ss))"
      using that(1) by (intro unat_plus_small) simp
    then show ?thesis using that(2) by (metis add_is_0 less_irrefl unat_0)
  qed
  have strs: "holds (kern t) p (zs args)" "holds (kern t) pe (zs envs)" using h3 by (simp_all add: holds_append pe_def)
  have pos0: "0 < unat p" "0 < unat pe" using a12 pe by simp_all
  have tab1: "table_at (kern t) argv args"
    unfolding table_at_def using mid t1(2,3) str[OF strs(1)] ptr[of p args] fits(1) pos0(1) by simp
  have tab2: "table_at (kern t) envp envs"
    unfolding table_at_def using t(2,3) str[OF strs(2)] ptr[of pe envs] fits(1) pe pos0(2) by simp
  have "get_fs_long (argv - 12) (kern t) = of_nat ?na" "get_fs_long (argv - 8) (kern t) = argv" "get_fs_long (argv - 4) (kern t) = envp"
    using low[of "argv - 12"] low[of "argv - 8"] low[of "argv - 4"] top a12(1) sp sp4 by simp_all
  then show ?thesis using run tab1 tab2 by (intro exI[of _ "argv - 12"] exI[of _ t]) (simp only: sp48 simp_thms)
qed

subsection \<open>Copying to the argument pages\<close>

definition area_byte :: "arg_area \<Rightarrow> mm \<Rightarrow> nat \<Rightarrow> u8" where
  "area_byte a m j = page_byte (a_page a (j div 4096)) (mem m) (j mod 4096)"

definition arg_pages :: "arg_area \<Rightarrow> nat set" where
  "arg_pages a = {k. k < MAX_ARG_PAGES \<and> a_page a k \<noteq> 0}"

text \<open>The pages of the area are different and taken, there are free ones for the rest, and \<open>a_pag\<close> is the page that
  is being filled.\<close>

definition area_ok :: "arg_area \<Rightarrow> mm \<Rightarrow> bool" where
  "area_ok a m \<longleftrightarrow> no_high m \<and> (\<forall>k\<in>arg_pages a. owned m (a_page a k)) \<and> inj_on (a_page a) (arg_pages a) \<and>
     MAX_ARG_PAGES \<le> card (free_frames m) + card (arg_pages a) \<and> 0 \<le> a_offset a \<and>
     (0 < a_offset a \<longrightarrow> a_offset a = int (unat (a_p a) mod 4096) \<and> unat (a_p a) div 4096 \<in> arg_pages a \<and>
        a_pag a = a_page a (unat (a_p a) div 4096))"

lemma finite_arg_pages [simp]: "finite (arg_pages a)"
  by (simp add: arg_pages_def)

lemma owned_page: "owned m p \<Longrightarrow> page_of p = p"
  by (auto simp: owned_def)

lemma page_byte_other:
  assumes "page_of p = p" "page_of q = q" "p \<noteq> q" "i < 4096" "j < 4096"
  shows "page_byte q (put_page_byte p i v m) j = page_byte q m j"
proof -
  have "i div 4 < 1024" "j div 4 < 1024" using assms(4,5) by auto
  then have "page_of (p + 4 * of_nat (i div 4)) = p" "page_of (q + 4 * of_nat (j div 4)) = q"
    using page_of_plus_off(2)[OF assms(1)] page_of_plus_off(2)[OF assms(2)] long_offset by metis+
  then have "q + 4 * of_nat (j div 4) \<noteq> p + 4 * of_nat (i div 4)" using assms(3) by metis
  then show ?thesis by (simp add: page_byte_def put_page_byte_def Let_def)
qed

lemma page_byte_take_frame:
  assumes "page_of q = q" "q \<noteq> frame_addr i" "j < 4096"
  shows "page_byte q (mem (take_frame i m)) j = page_byte q (mem m) j"
proof -
  have "j div 4 < 1024" using assms(3) by auto
  then have "page_of (q + 4 * of_nat (j div 4)) = q" using page_of_plus_off(2)[OF assms(1)] long_offset by metis
  then show ?thesis using assms(2) by (simp add: page_byte_def take_frame_def)
qed

lemma put_arg_char_rest [simp]:
  "kern (put_arg_char g i c s) = kern s" "mem_map (pages (put_arg_char g i c s)) = mem_map (pages s)"
  "high_memory (pages (put_arg_char g i c s)) = high_memory (pages s)" "bufs (put_arg_char g i c s) = bufs s"
  by (simp_all add: put_arg_char_def)

lemma put_arg_char_owned [simp]:
  "owned (pages (put_arg_char g i c s)) p = owned (pages s) p" "no_high (pages (put_arg_char g i c s)) = no_high (pages s)"
  "free_frames (pages (put_arg_char g i c s)) = free_frames (pages s)"
  using owned_cong[of "pages (put_arg_char g i c s)" "pages s" p] by (simp_all add: free_frames_def)

text \<open>One byte. Everything that was in the area stays there.\<close>

lemma area_byte_put:
  assumes "\<And>k. k \<in> arg_pages a \<Longrightarrow> owned m (a_page a k)" "inj_on (a_page a) (arg_pages a)"
    "j div 4096 \<in> arg_pages a" "l div 4096 \<in> arg_pages a" "m = pages s"
  shows "area_byte a (pages (put_arg_char (a_page a (j div 4096)) (j mod 4096) c s)) l = (if l = j then c else area_byte a m l)"
proof (cases "l div 4096 = j div 4096")
  case True
  have "l = j \<longleftrightarrow> l mod 4096 = j mod 4096" using True by (metis div_mult_mod_eq)
  then show ?thesis using True assms(5) by (simp add: area_byte_def put_arg_char_def page_byte_put)
next
  case False
  let ?p = "a_page a (j div 4096)" and ?q = "a_page a (l div 4096)"
  have "?p \<noteq> ?q" using False inj_onD[OF assms(2)] assms(3,4) by metis
  moreover have "page_of ?p = ?p" "page_of ?q = ?q" using owned_page[OF assms(1)] assms(3,4) by auto
  ultimately have "page_byte ?q (put_page_byte ?p (j mod 4096) c (mem (pages s))) (l mod 4096) = page_byte ?q (mem (pages s)) (l mod 4096)"
    by (intro page_byte_other) simp_all
  then show ?thesis using False assms(5) by (auto simp: area_byte_def put_arg_char_def)
qed

text \<open>The page for byte \<open>q\<close> is there, or is allocated.\<close>

lemma arg_byte_lands:
  assumes ok: "area_ok a' (pages s')" "a_offset a' = int (q mod 4096)" "a_p a' = of_nat q" "q < 131072"
    and page: "q div 4096 \<in> arg_pages a'" "a_pag a' = a_page a' (q div 4096)"
  shows "\<exists>t. t = put_arg_char (a_pag a') (q mod 4096) c s' \<and> area_ok a' (pages t) \<and> area_byte a' (pages t) q = c \<and>
    (\<forall>l. l \<noteq> q \<and> l div 4096 \<in> arg_pages a' \<longrightarrow> area_byte a' (pages t) l = area_byte a' (pages s') l)"
proof -
  have o: "\<And>k. k \<in> arg_pages a' \<Longrightarrow> owned (pages s') (a_page a' k)" "inj_on (a_page a') (arg_pages a')"
    using ok(1) by (auto simp: area_ok_def)
  have "area_ok a' (pages (put_arg_char (a_pag a') (q mod 4096) c s'))" using ok(1) by (simp add: area_ok_def)
  moreover have "area_byte a' (pages (put_arg_char (a_pag a') (q mod 4096) c s')) l = (if l = q then c else area_byte a' (pages s') l)"
    if "l div 4096 \<in> arg_pages a'" for l
    unfolding page(2) by (rule area_byte_put[OF o page(1) that refl])
  ultimately show ?thesis using page(1) by auto
qed

lemma arg_byte_spec:
  assumes ok: "area_ok a (pages s)" and p: "unat (a_p a) = Suc q" "q < 131072"
  shows "\<exists>a' t. arg_byte c a s = Inr ((True, a'), t) \<and> area_ok a' (pages t) \<and> kern t = kern s \<and> unat (a_p a') = q \<and>
    q div 4096 \<in> arg_pages a' \<and> arg_pages a \<subseteq> arg_pages a' \<and> area_byte a' (pages t) q = c \<and>
    (\<forall>l. l \<noteq> q \<and> l div 4096 \<in> arg_pages a \<longrightarrow> area_byte a' (pages t) l = area_byte a (pages s) l)"
proof -
  have wp: "a_p a - 1 = of_nat q" using p(1) by (metis add_diff_cancel_right' of_nat_Suc of_nat_unat ucast_id add.commute)
  have uq: "unat (of_nat q :: u32) = q" using p(2) by (simp add: unat_of_nat)
  have k: "q div 4096 < MAX_ARG_PAGES" using p(2) by auto
  show ?thesis
  proof (cases "0 < a_offset a")
    case True
    then have off: "a_offset a = int (Suc q mod 4096)" "Suc q div 4096 \<in> arg_pages a" "a_pag a = a_page a (Suc q div 4096)"
      using ok p(1) by (auto simp: area_ok_def)
    have q: "Suc q mod 4096 = Suc (q mod 4096)" "Suc q div 4096 = q div 4096"
      using True off(1) mod_Suc[of q 4096] div_Suc[of q 4096] by (auto split: if_splits)
    define b where "b = a\<lparr>a_p := of_nat q, a_offset := int (q mod 4096)\<rparr>"
    have pb: "arg_pages b = arg_pages a" by (simp add: arg_pages_def b_def)
    have "area_ok b (pages s)" using ok off(2,3) q uq pb by (auto simp: area_ok_def b_def)
    from arg_byte_lands[OF this, of q c] obtain t where t: "t = put_arg_char (a_pag a) (q mod 4096) c s" "area_ok b (pages t)"
      "area_byte b (pages t) q = c" "\<forall>l. l \<noteq> q \<and> l div 4096 \<in> arg_pages b \<longrightarrow> area_byte b (pages t) l = area_byte b (pages s) l"
      using off(2,3) q p(2) pb by (auto simp: b_def)
    have "arg_byte c a s = Inr ((True, b), t)"
      using True off(1) q by (simp add: arg_byte_def Let_def wp retK_def t(1) b_def)
    then show ?thesis using t off(2) q pb uq by (intro exI[of _ b] exI[of _ t]) (auto simp: b_def area_byte_def)
  next
    case False
    then have neg: "a_offset a - 1 < 0" by simp
    let ?k = "q div 4096"
    show ?thesis
    proof (cases "a_page a ?k = 0")
      case False
      then have ka: "?k \<in> arg_pages a" using k by (simp add: arg_pages_def)
      define b where "b = a\<lparr>a_page := (a_page a)(?k := a_page a ?k), a_p := of_nat q, a_offset := int (q mod 4096), a_pag := a_page a ?k\<rparr>"
      have pb: "arg_pages b = arg_pages a" by (simp add: arg_pages_def b_def)
      have "area_ok b (pages s)" using ok ka uq pb by (auto simp: area_ok_def b_def)
      from arg_byte_lands[OF this, of q c] obtain t where t: "t = put_arg_char (a_page a ?k) (q mod 4096) c s" "area_ok b (pages t)"
        "area_byte b (pages t) q = c" "\<forall>l. l \<noteq> q \<and> l div 4096 \<in> arg_pages b \<longrightarrow> area_byte b (pages t) l = area_byte b (pages s) l"
        using ka p(2) pb by (auto simp: b_def)
      have "arg_byte c a s = Inr ((True, b), t)"
        using neg k False by (simp add: arg_byte_def Let_def wp uq retK_def t(1) b_def)
      then show ?thesis using t ka pb uq by (intro exI[of _ b] exI[of _ t]) (auto simp: b_def area_byte_def)
    next
      case True
      let ?m = "pages s"
      have kn: "?k \<notin> arg_pages a" using True by (simp add: arg_pages_def)
      have "arg_pages a \<subseteq> {..<MAX_ARG_PAGES} - {?k}" using kn by (auto simp: arg_pages_def)
      then have "card (arg_pages a) \<le> card ({..<MAX_ARG_PAGES} - {?k})" by (intro card_mono) simp_all
      also have "\<dots> = 31" using k by simp
      finally have few: "card (arg_pages a) \<le> 31" .
      then have "free_frames ?m \<noteq> {}" using ok by (auto simp: area_ok_def)
      moreover have "no_high ?m" using ok by (simp add: area_ok_def)
      ultimately obtain j where j: "j < PAGING_PAGES" "mem_map ?m j = 0" "frame_addr j < high_memory ?m"
        "get_free_page ?m = retK (frame_addr j) (take_frame j ?m)" using get_free_page_frame by blast
      note T = take_frame_owned[OF j(1,2)]
      define b where "b = a\<lparr>a_page := (a_page a)(?k := frame_addr j), a_p := of_nat q, a_offset := int (q mod 4096), a_pag := frame_addr j\<rparr>"
      define u where "u = s\<lparr>pages := take_frame j ?m\<rparr>"
      have pb: "arg_pages b = insert ?k (arg_pages a)" using k j(1) by (auto simp: arg_pages_def b_def)
      have bf: "a_page b = (a_page a)(?k := frame_addr j)" "a_p b = of_nat q" "a_offset b = int (q mod 4096)" "a_pag b = frame_addr j"
        by (simp_all add: b_def)
      have oa: "\<And>i. i \<in> arg_pages a \<Longrightarrow> owned ?m (a_page a i)" "inj_on (a_page a) (arg_pages a)" using ok by (auto simp: area_ok_def)
      have ne: "a_page a i \<noteq> frame_addr j" if "i \<in> arg_pages a" for i using T(2)[OF oa(1)[OF that]] .
      have jf: "j \<in> free_frames ?m" using j(1,2) by (simp add: free_frames_def)
      have fin: "finite (free_frames ?m)" by (simp add: free_frames_def)
      have "0 < card (free_frames ?m)" using jf fin by (simp add: card_gt_0_iff) blast
      then have "card (free_frames (take_frame j ?m)) = card (free_frames ?m) - 1" "0 < card (free_frames ?m)"
        using take_frame_free_frames[OF jf] jf fin by simp_all
      then have cards: "MAX_ARG_PAGES \<le> card (free_frames (take_frame j ?m)) + card (arg_pages b)"
        using ok kn by (simp add: area_ok_def pb)
      have "inj_on (a_page b) (arg_pages b)" unfolding pb bf(1) using oa(2) ne ne[symmetric] kn by (auto simp: inj_on_def)
      moreover have "\<forall>i\<in>arg_pages b. owned (take_frame j ?m) (a_page b i)" using oa(1) T(1) T(3)[OF j(3)] kn
        unfolding pb bf(1) by auto
      moreover have "no_high (take_frame j ?m)" using ok T(4) by (simp add: area_ok_def)
      ultimately have "area_ok b (pages u)" using cards uq unfolding area_ok_def bf by (simp add: u_def bf(1) pb)
      from arg_byte_lands[OF this, of q c] obtain t where t: "t = put_arg_char (frame_addr j) (q mod 4096) c u" "area_ok b (pages t)"
        "area_byte b (pages t) q = c" "\<forall>l. l \<noteq> q \<and> l div 4096 \<in> arg_pages b \<longrightarrow> area_byte b (pages t) l = area_byte b (pages u) l"
        using p(2) pb by (auto simp: b_def)
      have "area_byte b (pages u) l = area_byte a ?m l" if "l div 4096 \<in> arg_pages a" for l
        using that ne[OF that] kn owned_page[OF oa(1)[OF that]] page_byte_take_frame[of "a_page a (l div 4096)" j "l mod 4096" ?m]
        by (auto simp: area_byte_def b_def u_def)
      moreover have "arg_byte c a s = Inr ((True, b), t)"
        using neg k True j(1) by (simp add: arg_byte_def Let_def wp uq retK_def t(1) b_def on_pages_def j(4) u_def)
      ultimately show ?thesis using t pb uq by (intro exI[of _ b] exI[of _ t]) (auto simp: b_def u_def)
    qed
  qed
qed

text \<open>The area holds \<open>bs\<close> from byte \<open>q\<close> on.\<close>

definition area_holds :: "arg_area \<Rightarrow> mm \<Rightarrow> nat \<Rightarrow> u8 list \<Rightarrow> bool" where
  "area_holds a m q bs \<longleftrightarrow> (\<forall>i<length bs. (q + i) div 4096 \<in> arg_pages a \<and> area_byte a m (q + i) = bs ! i)"

lemma area_holds_append: "area_holds a m q (xs @ ys) \<longleftrightarrow> area_holds a m q xs \<and> area_holds a m (q + length xs) ys"
proof (intro iffI conjI)
  assume h: "area_holds a m q (xs @ ys)"
  then show "area_holds a m q xs" by (auto simp: area_holds_def nth_append split: if_splits)
  show "area_holds a m (q + length xs) ys"
    unfolding area_holds_def
  proof (intro allI impI)
    fix i assume "i < length ys"
    then show "(q + length xs + i) div 4096 \<in> arg_pages a \<and> area_byte a m (q + length xs + i) = ys ! i"
      using h unfolding area_holds_def by (auto dest!: spec[of _ "length xs + i"] simp: nth_append add.assoc)
  qed
next
  assume h: "area_holds a m q xs \<and> area_holds a m (q + length xs) ys"
  show "area_holds a m q (xs @ ys)"
    unfolding area_holds_def
  proof (intro allI impI)
    fix i assume i: "i < length (xs @ ys)"
    show "(q + i) div 4096 \<in> arg_pages a \<and> area_byte a m (q + i) = (xs @ ys) ! i"
    proof (cases "i < length xs")
      case True
      then show ?thesis using h by (auto simp: area_holds_def nth_append)
    next
      case False
      then have "q + i = q + length xs + (i - length xs)" "i - length xs < length ys" using i by auto
      then show ?thesis using h False unfolding area_holds_def by (metis nth_append)
    qed
  qed
qed

text \<open>What \<open>copied a s a' t bs\<close> says of copying \<open>bs\<close> in front of the area.\<close>

definition copied :: "arg_area \<Rightarrow> fsys \<Rightarrow> arg_area \<Rightarrow> fsys \<Rightarrow> u8 list \<Rightarrow> bool" where
  "copied a s a' t bs \<longleftrightarrow> area_ok a' (pages t) \<and> kern t = kern s \<and> unat (a_p a') + length bs = unat (a_p a) \<and>
     arg_pages a \<subseteq> arg_pages a' \<and> area_holds a' (pages t) (unat (a_p a')) bs \<and>
     (\<forall>l. unat (a_p a) \<le> l \<and> l div 4096 \<in> arg_pages a \<longrightarrow> area_byte a' (pages t) l = area_byte a (pages s) l)"

lemma copied_keeps:
  assumes "copied a s a' t bs" "area_holds a (pages s) q cs" "unat (a_p a) \<le> q"
  shows "area_holds a' (pages t) q cs"
  using assms by (auto simp: copied_def area_holds_def subset_iff)

lemma copied_trans:
  assumes "copied a s b u ys" "copied b u c t xs"
  shows "copied a s c t (xs @ ys)"
proof -
  have "area_holds c (pages t) (unat (a_p c) + length xs) ys"
    using copied_keeps[OF assms(2), of "unat (a_p b)" ys] assms by (simp add: copied_def)
  moreover have "area_byte c (pages t) l = area_byte a (pages s) l" if "unat (a_p a) \<le> l" "l div 4096 \<in> arg_pages a" for l
    using that assms by (auto simp: copied_def subset_iff)
  ultimately show ?thesis using assms unfolding copied_def area_holds_append by auto
qed

lemma arg_byte_copied:
  assumes "area_ok a (pages s)" "0 < unat (a_p a)" "unat (a_p a) \<le> 131072"
  shows "\<exists>a' t. arg_byte c a s = Inr ((True, a'), t) \<and> copied a s a' t [c]"
proof -
  obtain q where q: "unat (a_p a) = Suc q" using assms(2) gr0_conv_Suc by auto
  from arg_byte_spec[OF assms(1) this, of c] assms(3) q show ?thesis
    unfolding copied_def area_holds_def by auto
qed

lemma arg_bytes_copied:
  "area_ok a (pages s) \<Longrightarrow> length bs \<le> unat (a_p a) \<Longrightarrow> unat (a_p a) \<le> 131072 \<Longrightarrow>
     \<exists>a' t. arg_bytes (rev bs) a s = Inr ((True, a'), t) \<and> copied a s a' t bs"
proof (induction bs arbitrary: a s rule: rev_induct)
  case Nil
  then show ?case by (simp add: retK_def copied_def area_holds_def)
next
  case (snoc b bs)
  then obtain a1 s1 where 1: "arg_byte b a s = Inr ((True, a1), s1)" "copied a s a1 s1 [b]"
    using arg_byte_copied[of a s b] by auto
  then have "area_ok a1 (pages s1)" "length bs \<le> unat (a_p a1)" "unat (a_p a1) \<le> 131072" using snoc.prems by (auto simp: copied_def)
  from snoc.IH[OF this] obtain a2 t where 2: "arg_bytes (rev bs) a1 s1 = Inr ((True, a2), t)" "copied a1 s1 a2 t bs" by blast
  show ?case using 1(1) 2(1) copied_trans[OF 1(2) 2(2)] by auto
qed

lemma copy_loop_copied:
  "area_ok a (pages s) \<Longrightarrow> length (zs ss) \<le> unat (a_p a) \<Longrightarrow> unat (a_p a) \<le> 131072 \<Longrightarrow> strings_ok lim ss \<Longrightarrow>
     \<forall>i<length ss. get_fs_long (argv + 4 * of_nat i) (kern s) \<noteq> 0 \<and> holds (kern s) (get_fs_long (argv + 4 * of_nat i) (kern s)) (ss ! i @ [0]) \<Longrightarrow>
     \<exists>a' t. copy_loop lim (length ss) (user_args argv) a s = Inr (a', t) \<and> copied a s a' t (zs ss)"
proof (induction ss arbitrary: a s rule: rev_induct)
  case Nil
  then show ?case by (simp add: retK_def copied_def area_holds_def)
next
  case (snoc c ss)
  define ptr where "ptr = get_fs_long (argv + 4 * of_nat (length ss)) (kern s)"
  have ptr: "ptr \<noteq> 0" "holds (kern s) ptr (c @ [0])"
    using snoc.prems(5)[rule_format, of "length ss"] by (simp_all add: ptr_def nth_append)
  have len: "str_len lim (User ptr) s = Some (length c + 1)"
    by (rule str_len_holds[OF ptr(2)]) (use snoc.prems(4) in \<open>auto simp: strings_ok_def\<close>)
  have chars: "map (\<lambda>k. get_ch (adv k (User ptr)) s) [0..<length c + 1] = c @ [0]"
  proof (rule nth_equalityI)
    fix i assume "i < length (map (\<lambda>k. get_ch (adv k (User ptr)) s) [0..<length c + 1])"
    then have i: "i < length c + 1" by simp
    then have "umem (kern s) (ptr + of_nat i) = (c @ [0]) ! i" using ptr(2) by (simp add: holds_def)
    then show "map (\<lambda>k. get_ch (adv k (User ptr)) s) [0..<length c + 1] ! i = (c @ [0]) ! i"
      using i nth_map_upt[of i "length c + 1" 0] by (simp del: upt_Suc add: get_fs_byte_def)
  qed simp
  have fits: "length (c @ [0]) \<le> unat (a_p a)" using snoc.prems(2) by simp
  obtain a1 s1 where 1: "arg_bytes (rev (c @ [0])) a s = Inr ((True, a1), s1)" "copied a s a1 s1 (c @ [0])"
    using arg_bytes_copied[OF snoc.prems(1) fits snoc.prems(3)] by blast
  have k1: "kern s1 = kern s" using 1(2) by (simp add: copied_def)
  have "area_ok a1 (pages s1)" "length (zs ss) \<le> unat (a_p a1)" "unat (a_p a1) \<le> 131072" "strings_ok lim ss"
    using 1(2) snoc.prems(2-4) by (auto simp: copied_def strings_ok_def)
  moreover have "\<forall>i<length ss. get_fs_long (argv + 4 * of_nat i) (kern s1) \<noteq> 0 \<and>
      holds (kern s1) (get_fs_long (argv + 4 * of_nat i) (kern s1)) (ss ! i @ [0])"
  proof (intro allI impI)
    fix i assume "i < length ss"
    then show "get_fs_long (argv + 4 * of_nat i) (kern s1) \<noteq> 0 \<and>
      holds (kern s1) (get_fs_long (argv + 4 * of_nat i) (kern s1)) (ss ! i @ [0])"
      using snoc.prems(5)[rule_format, of i] unfolding k1 by (simp add: nth_append)
  qed
  ultimately obtain a2 t where 2: "copy_loop lim (length ss) (user_args argv) a1 s1 = Inr (a2, t)" "copied a1 s1 a2 t (zs ss)"
    using snoc.IH by blast
  have src: "user_args argv (length ss) s = Some (User ptr)" using ptr(1) by (simp add: user_args_def ptr_def Let_def)
  have "copy_loop lim (length (ss @ [c])) (user_args argv) a s = Inr (a2, t)"
    by (simp only: length_append length_Cons list.size add_0_right add_Suc_right copy_loop.simps src option.case len chars 1(1) bindK.simps
        prod.case if_True 2(1) word_not_simps if_False)
  moreover have "copied a s a2 t (zs (ss @ [c]))" using copied_trans[OF 1(2) 2(2)] by simp
  ultimately show ?case by blast
qed

subsection \<open>Exec\<close>

lemma copy_strings_copied:
  assumes "area_ok a (pages s)" "length (zs ss) \<le> unat (a_p a)" "unat (a_p a) \<le> 131072" "a_p a \<noteq> 0" "strings_ok lim ss"
    "table_at (kern s) argv ss"
  shows "\<exists>a' t. copy_strings lim (int (length ss)) (user_args argv) a s = Inr (a', t) \<and> copied a s a' t (zs ss)"
proof -
  let ?a = "a\<lparr>a_offset := 0\<rparr>"
  have "arg_pages ?a = arg_pages a" by (simp add: arg_pages_def)
  then have "area_ok ?a (pages s)" using assms(1) by (simp add: area_ok_def)
  from copy_loop_copied[OF this _ _ assms(5), of argv] assms(2,3,6) obtain a' t where
    c: "copy_loop lim (length ss) (user_args argv) ?a s = Inr (a', t)" "copied ?a s a' t (zs ss)"
    by (auto simp: table_at_def)
  have "copied a s a' t (zs ss)" using c(2) by (simp add: copied_def area_byte_def arg_pages_def)
  then show ?thesis using c(1) assms(4) by (simp add: copy_strings_def)
qed

text \<open>In the new address space the area is where \<open>user_view\<close> puts it.\<close>

lemma area_in_view:
  assumes "area_holds a m (unat (a_p a)) bs" "unat (a_p a) + length bs \<le> 131072"
  shows "holds (k\<lparr>umem := user_view img (a_page a) m\<rparr>) (a_p a + arg_base) bs"
  unfolding holds_def
proof (intro allI impI)
  fix i assume i: "i < length bs"
  have o: "unat (a_p a + of_nat i) = unat (a_p a) + i"
    using unat_plus_small[of "a_p a" i] i assms(2) by simp
  have d: "a_p a + arg_base + of_nat i - arg_base = a_p a + of_nat i" by simp
  have "(unat (a_p a) + i) div 4096 \<in> arg_pages a" "area_byte a m (unat (a_p a) + i) = bs ! i" using assms(1) i by (auto simp: area_holds_def)
  then show "umem (k\<lparr>umem := user_view img (a_page a) m\<rparr>) (a_p a + arg_base + of_nat i) = bs ! i"
    using i assms(2) d o by (simp add: user_view_def Let_def arg_pages_def area_byte_def)
qed

definition empty_area :: arg_area where
  "empty_area = \<lparr>a_page = (\<lambda>_. 0), a_p = 4096 * of_nat MAX_ARG_PAGES - 4, a_offset = 0, a_pag = 0\<rparr>"

text \<open>C4. The arguments reach the new program. When the strings of \<open>argv\<close> and \<open>envp\<close> in user memory fit into the argument
  area and there are 32 free pages, copying them succeeds; in the address space in which the argument pages are mapped
  below the library, \<^verbatim>\<open>create_tables\<close> returns a stack pointer at which the program finds the number of
  its arguments, a pointer to a table that ends with a null pointer and points to the same argument strings, and such
  a pointer for the environment.\<close>

theorem exec_arguments_arrive:
  assumes args: "table_at (kern s) argv args" "strings_ok lim args"
    and envs: "table_at (kern s) envp envs" "strings_ok lim envs"
    and fits: "length (zs args) + length (zs envs) < 131068"
    and memory: "no_high (pages s)" "32 \<le> card (free_frames (pages s))"
  shows "\<exists>a1 s1 a2 s2 sp t. copy_strings lim (int (length envs)) (user_args envp) empty_area s = Inr (a1, s1) \<and>
    copy_strings lim (int (length args)) (user_args argv) a1 s1 = Inr (a2, s2) \<and>
    create_tables lim (a_p a2 + arg_base) (length args) (length envs)
      (upd_kernel (\<lambda>k. k\<lparr>umem := user_view img (a_page a2) (pages s2)\<rparr>) s2) = Inr (sp, t) \<and>
    get_fs_long sp (kern t) = of_nat (length args) \<and>
    table_at (kern t) (get_fs_long (sp + 4) (kern t)) args \<and> table_at (kern t) (get_fs_long (sp + 8) (kern t)) envs"
proof -
  have e: "arg_pages empty_area = {}" "unat (a_p empty_area) = 131068" "a_p empty_area \<noteq> 0"
    by (simp_all add: empty_area_def arg_pages_def)
  have "area_ok empty_area (pages s)" using memory e(1) by (simp add: area_ok_def empty_area_def)
  from copy_strings_copied[OF this _ _ e(3) envs(2,1)] fits e(2) obtain a1 s1 where
    1: "copy_strings lim (int (length envs)) (user_args envp) empty_area s = Inr (a1, s1)" "copied empty_area s a1 s1 (zs envs)" by auto
  have p1: "unat (a_p a1) = 131068 - length (zs envs)" and k1: "kern s1 = kern s" and ok1: "area_ok a1 (pages s1)"
    using 1(2) e(2) by (auto simp: copied_def)
  have "a_p a1 \<noteq> 0" using p1 fits by (metis add_less_imp_less_right le_add2 less_imp_le_nat not_less unat_0 zero_less_diff less_le_trans add.commute)
  moreover have "length (zs args) \<le> unat (a_p a1)" "unat (a_p a1) \<le> 131072" using p1 fits by simp_all
  moreover have "table_at (kern s1) argv args" using args(1) by (simp only: k1)
  ultimately obtain a2 s2 where
    2: "copy_strings lim (int (length args)) (user_args argv) a1 s1 = Inr (a2, s2)" "copied a1 s1 a2 s2 (zs args)"
    using copy_strings_copied[OF ok1 _ _ _ args(2)] by blast
  have 3: "copied empty_area s a2 s2 (zs args @ zs envs)" by (rule copied_trans[OF 1(2) 2(2)])
  define u where "u = upd_kernel (\<lambda>k. k\<lparr>umem := user_view img (a_page a2) (pages s2)\<rparr>) s2"
  have ku: "kern u = (kern s2)\<lparr>umem := user_view img (a_page a2) (pages s2)\<rparr>" by (simp add: u_def upd_kernel_def)
  let ?p = "a_p a2 + arg_base"
  have area: "area_holds a2 (pages s2) (unat (a_p a2)) (zs (args @ envs))" "unat (a_p a2) + length (zs (args @ envs)) = 131068"
    using 3 e(2) by (simp_all add: copied_def)
  have h: "holds (kern u) ?p (zs (args @ envs))" unfolding ku by (rule area_in_view[OF area(1)]) (use area(2) in simp)
  have base: "arg_base = of_nat 62783488" by (simp add: arg_base_def TASK_SIZE_def LIBRARY_SIZE_def)
  have p: "unat ?p = unat (a_p a2) + 62783488" unfolding base by (rule unat_plus_small) (use area(2) in simp)
  have count: "length ss \<le> length (zs ss)" for ss by (induction ss) simp_all
  have "strings_ok lim (args @ envs)" using args(2) envs(2) by (auto simp: strings_ok_def)
  from create_tables_spec[OF h this] p area(2) count[of args] count[of envs] fits obtain sp t where
    "create_tables lim ?p (length args) (length envs) u = Inr (sp, t)" "get_fs_long sp (kern t) = of_nat (length args)"
    "table_at (kern t) (get_fs_long (sp + 4) (kern t)) args" "table_at (kern t) (get_fs_long (sp + 8) (kern t)) envs" by auto
  then show ?thesis using 1(1) 2(1) unfolding u_def by blast
qed

text \<open>One argument, \<^verbatim>\<open>ls\<close> at \<open>0x200\<close>, and no environment; all memory is free.\<close>

definition exec_state :: fsys where
  "exec_state = fsys0\<lparr>kern := kernel0\<lparr>umem := (\<lambda>_. 0)(0x101 := 2, 0x200 := 108, 0x201 := 115)\<rparr>\<rparr>"

theorem exec_arguments_arrive_witness:
  "\<exists>a1 s1 a2 s2 sp t. copy_strings 10 1 (user_args 0x100) a1 s1 = Inr (a2, s2) \<and>
    create_tables 10 (a_p a2 + arg_base) 1 0 (upd_kernel (\<lambda>k. k\<lparr>umem := user_view (\<lambda>_. 0) (a_page a2) (pages s2)\<rparr>) s2) = Inr (sp, t) \<and>
    table_at (kern t) (get_fs_long (sp + 4) (kern t)) [[108, 115]]"
proof -
  have u: "umem (kern exec_state) = (\<lambda>_. 0)(0x101 := 2, 0x200 := 108, 0x201 := 115)" by (simp add: exec_state_def)
  have p: "get_fs_long 0x100 (kern exec_state) = 0x200" by (simp add: get_fs_long_def u)
  have args: "table_at (kern exec_state) 0x100 [[108, 115]]"
    by (simp add: table_at_def p holds_Cons) (simp add: u get_fs_long_def)
  have envs: "table_at (kern exec_state) 0x110 []" by (simp add: table_at_def get_fs_long_def u)
  have ok: "strings_ok 10 [[108, 115]]" "strings_ok 10 []" by (simp_all add: strings_ok_def)
  have m: "pages exec_state = mm0" by (simp add: exec_state_def fsys0_def)
  have "free_frames mm0 = {..<PAGING_PAGES}" by (auto simp: free_frames_def mm0_def)
  then have free: "32 \<le> card (free_frames (pages exec_state))" by (simp add: m PAGING_PAGES_def)
  have "frame_addr j < high_memory mm0" if "j < PAGING_PAGES" for j
    using that unat_frame_addr[OF that] by (simp add: word_less_nat_alt mm0_def PAGING_PAGES_def)
  then have high: "no_high (pages exec_state)" by (auto simp: m no_high_def not_le[symmetric])
  show ?thesis
    using exec_arguments_arrive[OF args ok(1) envs ok(2) _ high free, of "\<lambda>_. 0"] by (simp del: copy_loop.simps) blast
qed

end
