(* ===== verification/Str_Ops.thy ===== *)
theory Str_Ops
  imports Kprelude
begin

section \<open>Strings and blocks of bytes\<close>

text \<open>
  \<^verbatim>\<open>include/string.h\<close>, whose functions are a few string instructions of the i386 each.
  Memory is a function from all 32-bit addresses to bytes, and the models follow the registers: \<open>si\<close> and
  \<open>di\<close> move up by one with every byte (the direction flag is clear unless \<open>std\<close> is written), \<open>ecx\<close> counts a
  repeated instruction down, and a repeated instruction with a count of 0 leaves the flags as they are. Characters are
  compared as signed bytes. A loop without a counter ends at a zero byte; if it comes to none it goes round all of
  memory for ever, and is \<open>None\<close>. Pointers are addresses, with 0 for the null pointer.
\<close>

type_synonym bytes = "u32 \<Rightarrow> u8"

subsection \<open>Repeated string instructions\<close>

text \<open>\<^verbatim>\<open>repne scasb\<close>: the count, the byte in \<open>al\<close>, \<open>edi\<close> and the zero flag; all but \<open>al\<close> are returned.\<close>

primrec scan_ne :: "nat \<Rightarrow> u8 \<Rightarrow> u32 \<Rightarrow> bool \<Rightarrow> bytes \<Rightarrow> u32 \<times> nat \<times> bool" where
  "scan_ne 0 al di z m = (di, 0, z)"
| "scan_ne (Suc n) al di z m = (if m di = al then (di + 1, n, True) else scan_ne n al (di + 1) False m)"

text \<open>\<^verbatim>\<open>repe cmpsb\<close>: \<open>esi\<close>, \<open>edi\<close>, and the flags \<open>jz\<close> and \<open>jl\<close> test.\<close>

primrec cmp_eq :: "nat \<Rightarrow> u32 \<Rightarrow> u32 \<Rightarrow> bool \<times> bool \<Rightarrow> bytes \<Rightarrow> u32 \<times> u32 \<times> bool \<times> bool" where
  "cmp_eq 0 si di fl m = (si, di, fl)"
| "cmp_eq (Suc n) si di fl m =
     (if m si = m di then cmp_eq n (si + 1) (di + 1) (True, False) m else (si + 1, di + 1, False, m si <s m di))"

text \<open>\<^verbatim>\<open>rep movsb\<close>, upwards and downwards, and \<^verbatim>\<open>rep stosb\<close>.\<close>

primrec move_up :: "nat \<Rightarrow> u32 \<Rightarrow> u32 \<Rightarrow> bytes \<Rightarrow> bytes" where
  "move_up 0 si di m = m"
| "move_up (Suc n) si di m = move_up n (si + 1) (di + 1) (m(di := m si))"

primrec move_down :: "nat \<Rightarrow> u32 \<Rightarrow> u32 \<Rightarrow> bytes \<Rightarrow> bytes" where
  "move_down 0 si di m = m"
| "move_down (Suc n) si di m = move_down n (si - 1) (di - 1) (m(di := m si))"

primrec store_up :: "nat \<Rightarrow> u8 \<Rightarrow> u32 \<Rightarrow> bytes \<Rightarrow> bytes" where
  "store_up 0 al di m = m"
| "store_up (Suc n) al di m = store_up n al (di + 1) (m(di := al))"

subsection \<open>Blocks\<close>

definition memcpy :: "u32 \<Rightarrow> u32 \<Rightarrow> u32 \<Rightarrow> bytes \<Rightarrow> u32 \<times> bytes" where
  "memcpy dest src n m = (dest, move_up (unat n) src dest m)"

definition memmove :: "u32 \<Rightarrow> u32 \<Rightarrow> u32 \<Rightarrow> bytes \<Rightarrow> u32 \<times> bytes" where
  "memmove dest src n m =
     (dest, if dest < src then move_up (unat n) src dest m else move_down (unat n) (src + n - 1) (dest + n - 1) m)"

text \<open>\<open>fl\<close> are the flags as they are before the call: nothing sets them if \<open>count\<close> is 0.\<close>

definition memcmp :: "bool \<times> bool \<Rightarrow> u32 \<Rightarrow> u32 \<Rightarrow> u32 \<Rightarrow> bytes \<Rightarrow> int" where
  "memcmp fl cs ct count m =
     (case cmp_eq (unat count) ct cs fl m of (si, di, z, l) \<Rightarrow> if z then 0 else if l then 1 else - 1)"

definition memchr :: "u32 \<Rightarrow> u8 \<Rightarrow> u32 \<Rightarrow> bytes \<Rightarrow> u32" where
  "memchr cs c count m =
     (if count = 0 then 0
      else case scan_ne (unat count) c cs False m of (di, n, z) \<Rightarrow> (if z then di else 1) - 1)"

definition memset :: "u32 \<Rightarrow> u8 \<Rightarrow> u32 \<Rightarrow> bytes \<Rightarrow> u32 \<times> bytes" where
  "memset s c count m = (s, store_up (unat count) c s m)"

subsection \<open>Copying strings\<close>

text \<open>The scan for the zero byte at the end, which every routine that needs it starts with \<open>ecx\<close> at \<open>0xffffffff\<close>.\<close>

definition scan_zero :: "u32 \<Rightarrow> bytes \<Rightarrow> u32 \<times> nat \<times> bool" where
  "scan_zero p m = scan_ne 0xffffffff 0 p False m"

definition strlen :: "u32 \<Rightarrow> bytes \<Rightarrow> u32" where
  "strlen s m = (case scan_zero s m of (di, cx, z) \<Rightarrow> NOT (of_nat cx) - 1)"

partial_function (option) copy_str :: "u32 \<Rightarrow> u32 \<Rightarrow> bytes \<Rightarrow> bytes option" where
  "copy_str si di m =
     (let al = m si; m = m(di := al) in if al \<noteq> 0 then copy_str (si + 1) (di + 1) m else Some m)"

definition strcpy :: "u32 \<Rightarrow> u32 \<Rightarrow> bytes \<Rightarrow> (u32 \<times> bytes) option" where
  "strcpy dest src m = map_option (\<lambda>m. (dest, m)) (copy_str src dest m)"

text \<open>The counted loop: \<open>al\<close>, \<open>edi\<close> and the count when it ends, and whether a zero byte ended it.\<close>

partial_function (option) copy_n :: "u32 \<Rightarrow> u32 \<Rightarrow> u32 \<Rightarrow> bytes \<Rightarrow> (bool \<times> u32 \<times> u32 \<times> bytes) option" where
  "copy_n cx si di m =
     (let cx = cx - 1 in
      if cx <s 0 then Some (False, cx, di, m)
      else let al = m si; m = m(di := al) in
        if al \<noteq> 0 then copy_n cx (si + 1) (di + 1) m else Some (True, cx, di + 1, m))"

definition strncpy :: "u32 \<Rightarrow> u32 \<Rightarrow> u32 \<Rightarrow> bytes \<Rightarrow> (u32 \<times> bytes) option" where
  "strncpy dest src count m =
     map_option (\<lambda>(z, cx, di, m). (dest, if z then store_up (unat cx) 0 di m else m)) (copy_n count src dest m)"

definition strcat :: "u32 \<Rightarrow> u32 \<Rightarrow> bytes \<Rightarrow> (u32 \<times> bytes) option" where
  "strcat dest src m =
     (case scan_zero dest m of (di, cx, z) \<Rightarrow> map_option (\<lambda>m. (dest, m)) (copy_str src (di - 1) m))"

definition strncat :: "u32 \<Rightarrow> u32 \<Rightarrow> u32 \<Rightarrow> bytes \<Rightarrow> (u32 \<times> bytes) option" where
  "strncat dest src count m =
     (case scan_zero dest m of (di, cx, z) \<Rightarrow>
        map_option (\<lambda>(z, cx, di, m). (dest, m(di := 0))) (copy_n count src (di - 1) m))"

subsection \<open>Comparing\<close>

text \<open>\<open>lodsb\<close> reads from \<open>ct\<close>, and \<open>scasb\<close> compares with \<open>cs\<close>: less is that the byte of \<open>ct\<close> is.\<close>

partial_function (option) strcmp :: "u32 \<Rightarrow> u32 \<Rightarrow> bytes \<Rightarrow> int option" where
  "strcmp cs ct m =
     (let al = m ct in
      if al \<noteq> m cs then Some (if al <s m cs then 1 else - 1)
      else if al \<noteq> 0 then strcmp (cs + 1) (ct + 1) m
      else Some 0)"

partial_function (option) strncmp :: "u32 \<Rightarrow> u32 \<Rightarrow> u32 \<Rightarrow> bytes \<Rightarrow> int option" where
  "strncmp cs ct count m =
     (let cx = count - 1 in
      if cx <s 0 then Some 0
      else let al = m ct in
        if al \<noteq> m cs then Some (if al <s m cs then 1 else - 1)
        else if al \<noteq> 0 then strncmp (cs + 1) (ct + 1) cx m
        else Some 0)"

subsection \<open>Searching\<close>

partial_function (option) strchr :: "u32 \<Rightarrow> u8 \<Rightarrow> bytes \<Rightarrow> u32 option" where
  "strchr s c m =
     (let al = m s; si = s + 1 in
      if al = c then Some (si - 1) else if al \<noteq> 0 then strchr si c m else Some (1 - 1))"

partial_function (option) last_char :: "u32 \<Rightarrow> u32 \<Rightarrow> u8 \<Rightarrow> bytes \<Rightarrow> u32 option" where
  "last_char dx si c m =
     (let al = m si; si = si + 1; dx = (if al = c then si - 1 else dx) in
      if al \<noteq> 0 then last_char dx si c m else Some dx)"

definition strrchr :: "u32 \<Rightarrow> u8 \<Rightarrow> bytes \<Rightarrow> u32 option" where
  "strrchr s c m = last_char 0 s c m"

text \<open>
  The loop of the next four: over the bytes from \<open>si\<close> on, as long as looking for them in the \<open>dx\<close> bytes from
  \<open>ct\<close> on leaves the zero flag at \<open>w\<close>. It ends with whether a zero byte ended it, and the byte's address and one.
\<close>

partial_function (option) span_loop :: "bool \<Rightarrow> u32 \<Rightarrow> u32 \<Rightarrow> u32 \<Rightarrow> bytes \<Rightarrow> (bool \<times> u32) option" where
  "span_loop w dx ct si m =
     (let al = m si; si = si + 1 in
      if al = 0 then Some (True, si)
      else case scan_ne (unat dx) al ct False m of
        (di, cx, z) \<Rightarrow> if z = w then span_loop w dx ct si m else Some (False, si))"

definition strspn :: "u32 \<Rightarrow> u32 \<Rightarrow> bytes \<Rightarrow> u32 option" where
  "strspn cs ct m = map_option (\<lambda>(e, si). si - 1 - cs) (span_loop True (strlen ct m) ct cs m)"

definition strcspn :: "u32 \<Rightarrow> u32 \<Rightarrow> bytes \<Rightarrow> u32 option" where
  "strcspn cs ct m = map_option (\<lambda>(e, si). si - 1 - cs) (span_loop False (strlen ct m) ct cs m)"

definition strpbrk :: "u32 \<Rightarrow> u32 \<Rightarrow> bytes \<Rightarrow> u32 option" where
  "strpbrk cs ct m = map_option (\<lambda>(e, si). if e then 0 else si - 1) (span_loop False (strlen ct m) ct cs m)"

text \<open>The zero flag is first the one of \<^verbatim>\<open>decl %ecx\<close>, set if \<open>ct\<close> is empty.\<close>

partial_function (option) match_loop :: "u32 \<Rightarrow> u32 \<Rightarrow> u32 \<Rightarrow> bytes \<Rightarrow> u32 option" where
  "match_loop dx ct si m =
     (case cmp_eq (unat dx) si ct (dx = 0, False) m of
        (si', di, z, l) \<Rightarrow>
          if z then Some si
          else if m (si' - 1) \<noteq> 0 then match_loop dx ct (si + 1) m
          else Some 0)"

definition strstr :: "u32 \<Rightarrow> u32 \<Rightarrow> bytes \<Rightarrow> u32 option" where
  "strstr cs ct m = match_loop (strlen ct m) ct cs m"

subsection \<open>Cutting a string into tokens\<close>

text \<open>\<open>st\<close> is \<^verbatim>\<open>___strtok\<close>; the result, its new value and memory. \<open>tok_end\<close> is the code from label 3 on.\<close>

definition tok_end :: "u32 \<Rightarrow> u32 \<Rightarrow> u32 \<Rightarrow> bytes \<Rightarrow> (u32 \<times> u32 \<times> bytes) option" where
  "tok_end bx dx ct m =
     map_option (\<lambda>(e, si).
       let (si, m) = (if e then (0, m)
                      else let si = si - 1 in if m si = 0 then (0, m) else (si + 1, m(si := 0)));
           bx = (if m bx = 0 then 0 else bx)
       in (bx, if bx = 0 then bx else si, m)) (span_loop False dx ct bx m)"

definition strtok :: "u32 \<Rightarrow> u32 \<Rightarrow> u32 \<Rightarrow> bytes \<Rightarrow> (u32 \<times> u32 \<times> bytes) option" where
  "strtok s ct st m =
     (if s = 0 \<and> st = 0 then Some (0, 0, m)
      else let si = (if s \<noteq> 0 then s else st); dx = strlen ct m in
        if dx = 0 then Some (0, 0, m)
        else case span_loop True dx ct si m of
          None \<Rightarrow> None
        | Some (e, si) \<Rightarrow>
            if e then Some (0, 0, m)
            else let si = si - 1 in if m si = 0 then Some (0, 0, m) else tok_end si dx ct m)"

end
