(* ===== verification/Str_Props.thy ===== *)
theory Str_Props
  imports Str_Ops "HOL-Library.Sublist"
begin

section \<open>Strings and blocks of bytes: what the string instructions compute\<close>

text \<open>
  A string in memory (\<open>cstr\<close>) is a list of bytes without zeros, and a zero behind it, that does not run over the end
  of memory. Over such strings the searching routines are the functions on lists of the same purpose, and the calls of
  \<open>strtok\<close> yield the words between the delimiters. \<open>memmove\<close> copies also where the blocks overlap.
\<close>

subsection \<open>Strings in memory\<close>

primrec cstr :: "bytes \<Rightarrow> u32 \<Rightarrow> u8 list \<Rightarrow> bool" where
  "cstr m p [] \<longleftrightarrow> m p = 0"
| "cstr m p (x # xs) \<longleftrightarrow> m p = x \<and> x \<noteq> 0 \<and> p + 1 \<noteq> 0 \<and> cstr m (p + 1) xs"

primrec zone :: "u32 \<Rightarrow> u8 list \<Rightarrow> u32 set" where
  "zone p [] = {p}"
| "zone p (x # xs) = insert p (zone (p + 1) xs)"

lemma next_byte: "p + 1 + of_nat i = p + of_nat (Suc i)" for p :: u32
  by simp

lemma zone_image: "zone p xs = (\<lambda>i. p + of_nat i) ` {..length xs}"
  by (induction xs arbitrary: p) (simp_all add: atMost_Suc_eq_insert_0 image_image algebra_simps)

lemma cstr_bound: "cstr m p xs \<Longrightarrow> unat p + length xs < 2 ^ 32"
proof (induction xs arbitrary: p)
  case Nil
  then show ?case using unsigned_less[of p] by simp
next
  case (Cons x xs)
  then have "unat (p + 1) = Suc (unat p)" using unatSuc[of p] by (simp add: add.commute)
  then show ?case using Cons.IH[of "p + 1"] Cons.prems by simp
qed

lemma cstr_nth: "cstr m p xs \<Longrightarrow> i < length xs \<Longrightarrow> m (p + of_nat i) = xs ! i \<and> xs ! i \<noteq> 0"
proof (induction xs arbitrary: p i)
  case (Cons x xs)
  show ?case
  proof (cases i)
    case (Suc j)
    then show ?thesis using Cons.IH[of "p + 1" j] Cons.prems by (simp add: algebra_simps)
  qed (use Cons.prems in simp)
qed simp

lemma cstr_append: "cstr m p (xs @ ys) \<Longrightarrow> cstr m (p + of_nat (length xs)) ys"
proof (induction xs arbitrary: p)
  case (Cons x xs)
  then show ?case using Cons.IH[of "p + 1"] unfolding next_byte by simp
qed simp

lemma cstr_end: "cstr m p xs \<Longrightarrow> m (p + of_nat (length xs)) = 0"
  using cstr_append[of m p xs "[]"] by simp

lemma cstr_cong: "(\<And>a. a \<in> zone p xs \<Longrightarrow> m' a = m a) \<Longrightarrow> cstr m' p xs = cstr m p xs"
proof (induction xs arbitrary: p)
  case Nil
  then show ?case by simp
next
  case (Cons x xs)
  have "m' p = m p" using Cons.prems by (simp)
  moreover have "cstr m' (p + 1) xs = cstr m (p + 1) xs" by (rule Cons.IH) (simp add: Cons.prems)
  ultimately show ?case by simp
qed

lemma offset_inj: "p + of_nat i = p + of_nat j \<Longrightarrow> i < 2 ^ 32 \<Longrightarrow> j < 2 ^ 32 \<Longrightarrow> i = j" for p :: u32
  by (simp add: word_of_nat_eq_iff take_bit_nat_eq_self)

text \<open>A zero written behind a part of a string ends it.\<close>

lemma cstr_cut: "cstr m p (xs @ ys) \<Longrightarrow> cstr (m(p + of_nat (length xs) := 0)) p xs"
proof (induction xs arbitrary: p)
  case (Cons x xs)
  have len: "length xs < 2 ^ 32" using cstr_bound[OF Cons.prems] by simp
  have "p \<noteq> p + 1 + of_nat (length xs)" using offset_inj[of p 0 "Suc (length xs)"] cstr_bound[OF Cons.prems]
    by (auto simp: algebra_simps)
  then show ?case using Cons.IH[of "p + 1"] Cons.prems by (simp add: algebra_simps)
qed simp

subsection \<open>Scanning\<close>

lemma scan_ne_zero:
  "cstr m p xs \<Longrightarrow> length xs < n \<Longrightarrow> scan_ne n 0 p z m = (p + of_nat (length xs) + 1, n - Suc (length xs), True)"
proof (induction xs arbitrary: p n z)
  case Nil
  then show ?case by (cases n) auto
next
  case (Cons x xs)
  then obtain k where k: "n = Suc k" by (cases n) auto
  show ?case using Cons.IH[of "p + 1" k False] Cons.prems unfolding next_byte k by simp
qed

lemma strlen_cstr: "cstr m p xs \<Longrightarrow> p \<noteq> 0 \<Longrightarrow> strlen p m = of_nat (length xs)"
proof -
  assume a: "cstr m p xs" "p \<noteq> 0"
  have "0 < unat p" using a(2) by (simp add: unat_gt_0)
  with cstr_bound[OF a(1)] have l: "length xs < 0xffffffff" by simp
  have "(of_nat (0xffffffff - Suc (length xs)) :: u32) = 0xffffffff - (1 + of_nat (length xs))"
    using l by (simp add: of_nat_diff)
  then show ?thesis
    unfolding strlen_def scan_zero_def scan_ne_zero[OF a(1) l] prod.case by (simp add: not_eq_complement)
qed

lemma unat_length: "cstr m p xs \<Longrightarrow> unat (of_nat (length xs) :: u32) = length xs"
  using cstr_bound[of m p xs] by (simp add: unat_of_nat take_bit_nat_eq_self)

lemma scan_ne_in: "cstr m p xs \<Longrightarrow> snd (snd (scan_ne (length xs) al p z m)) = (if xs = [] then z else al \<in> set xs)"
  by (induction xs arbitrary: p z) auto

lemma span_loop_cstr:
  assumes ct: "cstr m ct ys" and dx: "unat dx = length ys"
  shows "cstr m p xs \<Longrightarrow> span_loop w dx ct p m =
    (let k = length (takeWhile (\<lambda>x. (x \<in> set ys) = w) xs) in Some (k = length xs, p + of_nat k + 1))"
proof (induction xs arbitrary: p)
  case Nil
  then show ?case by (simp add: span_loop.simps[of w dx ct p m])
next
  case (Cons x xs)
  have z: "snd (snd (scan_ne (unat dx) x ct False m)) = (x \<in> set ys)"
    unfolding dx using scan_ne_in[OF ct, of x False] by simp
  show ?case
    using Cons.IH[of "p + 1"] Cons.prems z
    by (subst span_loop.simps) (auto simp: Let_def algebra_simps split: prod.splits)
qed

lemmas span_string = span_loop_cstr[OF _ unat_length, unfolded Let_def]

lemma strspn_cstr:
  assumes "cstr m cs xs" "cstr m ct ys" "ct \<noteq> 0"
  shows "strspn cs ct m = Some (of_nat (length (takeWhile (\<lambda>x. x \<in> set ys) xs)))"
  unfolding strspn_def strlen_cstr[OF assms(2,3)] span_string[OF assms(2) assms(2) assms(1)] by simp

lemma strcspn_cstr:
  assumes "cstr m cs xs" "cstr m ct ys" "ct \<noteq> 0"
  shows "strcspn cs ct m = Some (of_nat (length (takeWhile (\<lambda>x. x \<notin> set ys) xs)))"
  unfolding strcspn_def strlen_cstr[OF assms(2,3)] span_string[OF assms(2) assms(2) assms(1)] by simp

text \<open>\<^verbatim>\<open>strpbrk\<close> finds what \<^verbatim>\<open>strcspn\<close> counts up to.\<close>

lemma strpbrk_cstr:
  assumes "cstr m cs xs" "cstr m ct ys" "ct \<noteq> 0"
  shows "strpbrk cs ct m =
    (let k = length (takeWhile (\<lambda>x. x \<notin> set ys) xs) in Some (if k = length xs then 0 else cs + of_nat k))"
  unfolding strpbrk_def strlen_cstr[OF assms(2,3)] span_string[OF assms(2) assms(2) assms(1)] by (simp add: Let_def)

subsection \<open>Tokens\<close>

function tokens :: "u8 set \<Rightarrow> u8 list \<Rightarrow> u8 list list" where
  "tokens D xs =
     (let ts = dropWhile (\<lambda>x. x \<in> D) xs in
      if ts = [] then [] else takeWhile (\<lambda>x. x \<notin> D) ts # tokens D (dropWhile (\<lambda>x. x \<notin> D) ts))"
  by pat_completeness auto
termination tokens
proof (relation "measure (\<lambda>(D, xs). length xs)")
  fix D :: "u8 set" and xs ts
  assume ts: "ts = dropWhile (\<lambda>x. x \<in> D) xs" "ts \<noteq> []"
  then have "hd ts \<notin> D" using hd_dropWhile by blast
  then have "length (dropWhile (\<lambda>x. x \<notin> D) ts) < length ts"
    using ts(2) length_dropWhile_le[of "\<lambda>x. x \<notin> D" "tl ts"] by (cases ts) auto
  also have "\<dots> \<le> length xs" unfolding ts(1) by (rule length_dropWhile_le)
  finally show "((D, dropWhile (\<lambda>x. x \<notin> D) ts), D, xs) \<in> measure (\<lambda>(D, xs). length xs)" by simp
qed simp

declare tokens.simps [simp del]

lemma cstr_byte_nonzero:
  assumes "cstr m p xs" "p \<noteq> 0" "i \<le> length xs"
  shows "p + of_nat i \<noteq> 0"
proof
  assume "p + of_nat i = 0"
  moreover have "p + of_nat i = of_nat (unat p + i)" by simp
  moreover have "unat p + i < 2 ^ 32" using cstr_bound[OF assms(1)] assms(3) by simp
  ultimately have "unat p + i = 0" using of_nat_inverse[of "unat p + i" "0 :: u32"] by (simp del: of_nat_add)
  then show False using assms(2) by (simp add: unat_eq_zero)
qed

lemma strtok_cstr:
  assumes p: "cstr m p xs" "p \<noteq> 0" and ct: "cstr m ct ys" "ct \<noteq> 0" "ys \<noteq> []"
    and s: "if s = 0 then st = p else s = p"
    and ts: "ts = dropWhile (\<lambda>x. x \<in> set ys) xs" and r: "r = p + of_nat (length xs - length ts)"
    and tok: "tok = takeWhile (\<lambda>x. x \<notin> set ys) ts" and e: "e = r + of_nat (length tok)"
  shows "strtok s ct st m =
    Some (if ts = [] then (0, 0, m) else if length tok = length ts then (r, 0, m) else (r, e + 1, m(e := 0)))"
proof -
  let ?pre = "takeWhile (\<lambda>x. x \<in> set ys) xs"
  have split: "xs = ?pre @ ts" unfolding ts by simp
  have k: "length xs - length ts = length ?pre" using arg_cong[OF split, of length] by simp
  have len: "strlen ct m = of_nat (length ys)" by (rule strlen_cstr[OF ct(1,2)])
  have un: "unat (of_nat (length ys) :: u32) = length ys" by (rule unat_length[OF ct(1)])
  then have nz: "(of_nat (length ys) :: u32) \<noteq> 0" using ct(3) by (metis length_0_conv unat_0)
  have str: "strtok s ct st m = (case span_loop True (of_nat (length ys)) ct p m of None \<Rightarrow> None
        | Some (e, si) \<Rightarrow> if e then Some (0, 0, m)
            else let si = si - 1 in if m si = 0 then Some (0, 0, m) else tok_end si (of_nat (length ys)) ct m)"
    using s p(2) by (auto simp: strtok_def len Let_def nz split: if_splits)
  have span: "span_loop True (of_nat (length ys)) ct p m = Some (ts = [], p + of_nat (length ?pre) + 1)"
    using span_loop_cstr[OF ct(1) un p(1), of True] arg_cong[OF split, of length] by (auto simp: Let_def)
  show ?thesis
  proof (cases "ts = []")
    case True
    then show ?thesis unfolding str span by simp
  next
    case False
    have rs: "r = p + of_nat (length ?pre)" using r k by simp
    have c: "cstr m r ts" unfolding rs by (rule cstr_append) (use p(1) split in simp)
    have "hd ts \<notin> set ys" using False hd_dropWhile[of "\<lambda>x. x \<in> set ys" xs] unfolding ts by simp
    then have tokne: "tok \<noteq> []" using False unfolding tok by (cases ts) auto
    have m0: "m r \<noteq> 0" using cstr_nth[OF c, of 0] False by simp
    have r0: "r \<noteq> 0" unfolding rs by (rule cstr_byte_nonzero[OF p]) (simp add: length_takeWhile_le)
    have le: "length tok \<le> length ts" unfolding tok by (rule length_takeWhile_le)
    have sp2: "span_loop False (of_nat (length ys)) ct r m = Some (length tok = length ts, e + 1)"
      using span_loop_cstr[OF ct(1) un c, of False] unfolding e tok by (simp add: Let_def)
    have er: "e \<noteq> r" using offset_inj[of r "length tok" 0] tokne le cstr_bound[OF c] unfolding e by auto
    have me: "m e \<noteq> 0" if "length tok \<noteq> length ts" using cstr_nth[OF c, of "length tok"] that le unfolding e by simp
    have "tok_end r (of_nat (length ys)) ct m =
        Some (if length tok = length ts then (r, 0, m) else (r, e + 1, m(e := 0)))"
      using m0 r0 er me unfolding tok_end_def sp2 by (auto simp: Let_def)
    then show ?thesis unfolding str span using False m0 by (simp add: Let_def rs)
  qed
qed

text \<open>The usual loop: the first call with the string, the others with the null pointer, until there is no token.\<close>

primrec strtok_all :: "nat \<Rightarrow> u32 \<Rightarrow> u32 \<Rightarrow> u32 \<Rightarrow> bytes \<Rightarrow> (u32 list \<times> bytes) option" where
  "strtok_all 0 s ct st m = None"
| "strtok_all (Suc n) s ct st m =
     (case strtok s ct st m of
        None \<Rightarrow> None
      | Some (r, st, m) \<Rightarrow>
          if r = 0 then Some ([], m) else map_option (\<lambda>(rs, m). (r # rs, m)) (strtok_all n 0 ct st m))"

lemma tokens_skip: "c \<in> D \<Longrightarrow> tokens D (c # xs) = tokens D xs"
  by (subst (1 2) tokens.simps) simp

lemma zone_append: "zone (p + of_nat (length xs)) ys \<subseteq> zone p (xs @ ys)"
proof (induction xs arbitrary: p)
  case (Cons x xs)
  then show ?case using Cons.IH[of "p + 1"] unfolding next_byte by auto
qed simp

lemma zone_split:
  assumes "cstr m p (xs @ y # ys)"
  shows "zone p (xs @ y # ys) = zone p xs \<union> zone (p + of_nat (length xs) + 1) ys"
    and "zone p xs \<inter> zone (p + of_nat (length xs) + 1) ys = {}"
proof -
  show "zone p (xs @ y # ys) = zone p xs \<union> zone (p + of_nat (length xs) + 1) ys"
  proof (induction xs arbitrary: p)
    case (Cons x xs)
    show ?case using Cons.IH[of "p + 1"] unfolding next_byte by simp
  qed simp
  have off: "p + of_nat (length xs) + 1 + of_nat j = p + of_nat (Suc (length xs + j))" for j by simp
  show "zone p xs \<inter> zone (p + of_nat (length xs) + 1) ys = {}"
  proof (rule ccontr)
    assume "\<not> ?thesis"
    then obtain i j where ij: "i \<le> length xs" "j \<le> length ys" "p + of_nat i = p + of_nat (Suc (length xs + j))"
      unfolding zone_image off by auto
    then have "i = Suc (length xs + j)" using cstr_bound[OF assms] by (intro offset_inj[of p]) simp_all
    then show False using ij(1) by simp
  qed
qed

lemma strtok_all_tokens:
  assumes "cstr m p xs" "p \<noteq> 0" "cstr m ct ys" "ct \<noteq> 0" "ys \<noteq> []" "zone p xs \<inter> zone ct ys = {}"
    and "if s = 0 then st = p else s = p" and "length xs < n"
  shows "\<exists>rs m'. strtok_all n s ct st m = Some (rs, m') \<and> list_all2 (cstr m') rs (tokens (set ys) xs) \<and>
    (\<forall>a. a \<notin> zone p xs \<longrightarrow> m' a = m a)"
  using assms
proof (induction n arbitrary: p xs s st m)
  case (Suc n)
  define ts where "ts = dropWhile (\<lambda>x. x \<in> set ys) xs"
  define tok where "tok = takeWhile (\<lambda>x. x \<notin> set ys) ts"
  define r where "r = p + of_nat (length xs - length ts)"
  define e where "e = r + of_nat (length tok)"
  note step = strtok_cstr[OF Suc.prems(1-5,7) ts_def r_def tok_def e_def]
  have split: "xs = takeWhile (\<lambda>x. x \<in> set ys) xs @ ts" unfolding ts_def by simp
  have r: "r = p + of_nat (length (takeWhile (\<lambda>x. x \<in> set ys) xs))"
    using arg_cong[OF split, of length] unfolding r_def by simp
  have c: "cstr m r ts" unfolding r by (rule cstr_append) (use Suc.prems(1) split in simp)
  have zr: "zone r ts \<subseteq> zone p xs" unfolding r using zone_append[of p _ ts] split by metis
  have r0: "r \<noteq> 0" unfolding r_def by (rule cstr_byte_nonzero[OF Suc.prems(1,2)]) simp
  have toks: "tokens (set ys) xs = (if ts = [] then [] else tok # tokens (set ys) (dropWhile (\<lambda>x. x \<notin> set ys) ts))"
    by (subst tokens.simps) (simp add: Let_def ts_def tok_def)
  show ?case
  proof (cases "ts = []")
    case True
    then show ?thesis using step toks by simp
  next
    case False
    note tsne = this
    show ?thesis
    proof (cases "length tok = length ts")
      case True
      then have all: "tok = ts" unfolding tok_def by (metis takeWhile_dropWhile_id append_eq_conv_conj take_all_iff order_refl)
      then have "dropWhile (\<lambda>x. x \<notin> set ys) ts = []" unfolding tok_def by (metis append_Nil2 same_append_eq takeWhile_dropWhile_id)
      moreover have "tokens (set ys) [] = []" by (subst tokens.simps) simp
      ultimately have tk: "tokens (set ys) xs = [tok]" using toks tsne by (simp only: if_False)
      have "0 < length xs" using tsne by (auto simp: ts_def)
      then obtain k where k: "n = Suc k" using Suc.prems(8) by (cases n) auto
      have "strtok_all (Suc n) s ct st m = Some ([r], m)" using step tsne True r0 by (simp add: k strtok_def[of 0 ct 0])
      then show ?thesis using tk c all by simp
    next
      case False
      then obtain d rest where rest: "dropWhile (\<lambda>x. x \<notin> set ys) ts = d # rest" unfolding tok_def
        by (metis takeWhile_dropWhile_id append_Nil2 neq_Nil_conv)
      then have d: "d \<in> set ys" by (metis hd_dropWhile list.distinct(1) list.sel(1))
      have tr: "ts = tok @ d # rest" unfolding tok_def using takeWhile_dropWhile_id[of "\<lambda>x. x \<notin> set ys" ts] rest by simp
      let ?m = "m(e := 0)"
      note zs = zone_split[of m r tok d rest, folded tr e_def, OF c]
      have ez: "e \<in> zone r tok" unfolding e_def zone_image by auto
      have cr: "cstr m (e + 1) rest" "e + 1 \<noteq> 0" using cstr_append[of m r tok "d # rest"] c unfolding tr e_def by simp_all
      have "?m a = m a" if "a \<in> zone (e + 1) rest" for a using that zs(2) ez by auto
      then have c1: "cstr ?m (e + 1) rest" using cr(1) cstr_cong[of "e + 1" rest ?m m] by blast
      have "?m a = m a" if "a \<in> zone ct ys" for a using that Suc.prems(6) zs(1) ez zr by auto
      then have c2: "cstr ?m ct ys" using Suc.prems(3) cstr_cong[of ct ys ?m m] by blast
      have dis: "zone (e + 1) rest \<inter> zone ct ys = {}" using Suc.prems(6) zs(1) zr by blast
      have "length rest < n" using Suc.prems(8) arg_cong[OF split, of length] tr by simp
      moreover have "if (0 :: u32) = 0 then e + 1 = e + 1 else 0 = e + 1" by simp
      ultimately obtain rs m'
        where IH: "strtok_all n 0 ct (e + 1) ?m = Some (rs, m')" "list_all2 (cstr m') rs (tokens (set ys) rest)"
          "\<forall>a. a \<notin> zone (e + 1) rest \<longrightarrow> m' a = ?m a"
        using Suc.IH[OF c1 cr(2) c2 Suc.prems(4,5) dis, of 0 "e + 1"] by blast
      have "cstr ?m r tok" using cstr_cut[of m r tok "d # rest"] c tr unfolding e_def by simp
      then have "cstr m' r tok" using cstr_cong[of r tok m' ?m] IH(3) zs(2) by blast
      then have "list_all2 (cstr m') (r # rs) (tokens (set ys) xs)" using IH(2) toks tsne rest d by (simp add: tokens_skip)
      moreover have "strtok_all (Suc n) s ct st m = Some (r # rs, m')" using step tsne False r0 IH(1) by simp
      moreover have "m' a = m a" if "a \<notin> zone p xs" for a
      proof -
        have "a \<notin> zone (e + 1) rest" "a \<noteq> e" using that zs(1) ez zr by auto
        then show ?thesis using IH(3) by simp
      qed
      ultimately show ?thesis by blast
    qed
  qed
qed simp

subsection \<open>Searching for a string\<close>

text \<open>The place of the first occurrence.\<close>

fun find_sub :: "u8 list \<Rightarrow> u8 list \<Rightarrow> nat option" where
  "find_sub ys xs =
     (if prefix ys xs then Some 0 else case xs of [] \<Rightarrow> None | x # xs \<Rightarrow> map_option Suc (find_sub ys xs))"

declare find_sub.simps [simp del]

lemma find_sub_longer: "length xs < length ys \<Longrightarrow> find_sub ys xs = None"
  by (induction xs) (auto simp: find_sub.simps[of ys] dest: prefix_length_le)

lemma cmp_eq_cstr:
  assumes "cstr m si xs" "cstr m di ys" "ys = [] \<longrightarrow> fst fl"
  shows "case cmp_eq (length ys) si di fl m of (si', di', z, l) \<Rightarrow>
    z = prefix ys xs \<and> (\<not> z \<longrightarrow> (m (si' - 1) = 0 \<longleftrightarrow> prefix xs ys))"
  using assms
proof (induction ys arbitrary: xs si di fl)
  case Nil
  then show ?case by (cases fl) auto
next
  case (Cons y ys)
  show ?case
  proof (cases xs)
    case Nil
    then show ?thesis using Cons.prems by auto
  next
    case (Cons x xs')
    have "case cmp_eq (length ys) (si + 1) (di + 1) (True, False) m of (si', di', z, l) \<Rightarrow>
      z = prefix ys xs' \<and> (\<not> z \<longrightarrow> (m (si' - 1) = 0 \<longleftrightarrow> prefix xs' ys))"
      by (rule Cons.IH) (use Cons.prems Cons in auto)
    then show ?thesis using Cons.prems Cons by (auto split: prod.splits)
  qed
qed

lemma match_loop_cstr:
  assumes ct: "cstr m ct ys" and dx: "unat dx = length ys"
  shows "cstr m p xs \<Longrightarrow> match_loop dx ct p m =
    Some (case find_sub ys xs of None \<Rightarrow> 0 | Some k \<Rightarrow> p + of_nat k)"
proof (induction xs arbitrary: p)
  case Nil
  have "ys = [] \<longrightarrow> fst (dx = 0, False)" using dx by (auto simp: unat_eq_zero)
  from cmp_eq_cstr[OF Nil ct this] show ?case
    by (subst match_loop.simps) (auto simp: dx find_sub.simps split: prod.splits)
next
  case (Cons x xs)
  have "ys = [] \<longrightarrow> fst (dx = 0, False)" using dx by (auto simp: unat_eq_zero)
  note c = cmp_eq_cstr[OF Cons.prems ct this]
  have IH: "match_loop dx ct (p + 1) m = Some (case find_sub ys xs of None \<Rightarrow> 0 | Some k \<Rightarrow> p + 1 + of_nat k)"
    by (rule Cons.IH) (use Cons.prems in simp)
  have short: "find_sub ys xs = None" if "prefix (x # xs) ys"
    using prefix_length_le[OF that] by (intro find_sub_longer) simp
  show ?case
    using c IH short by (subst match_loop.simps) (auto simp: dx find_sub.simps[of ys "x # xs"] split: prod.splits option.splits)
qed

lemma strstr_cstr:
  assumes "cstr m cs xs" "cstr m ct ys" "ct \<noteq> 0"
  shows "strstr cs ct m = Some (case find_sub ys xs of None \<Rightarrow> 0 | Some k \<Rightarrow> cs + of_nat k)"
  unfolding strstr_def strlen_cstr[OF assms(2,3)] by (rule match_loop_cstr[OF assms(2) unat_length[OF assms(2)] assms(1)])

subsection \<open>Blocks\<close>

text \<open>A move up copies right if no byte is written before it is read, and so does a move down.\<close>

lemma move_up_spec:
  assumes "\<And>i j. j < i \<Longrightarrow> i < n \<Longrightarrow> di + of_nat j \<noteq> si + of_nat i" "n \<le> 2 ^ 32"
  shows "(\<forall>i < n. move_up n si di m (di + of_nat i) = m (si + of_nat i)) \<and>
    (\<forall>a. (\<forall>i < n. a \<noteq> di + of_nat i) \<longrightarrow> move_up n si di m a = m a)"
  using assms
proof (induction n arbitrary: si di m)
  case (Suc n)
  define u where "u = m(di := m si)"
  define M where "M = move_up n (si + 1) (di + 1) u"
  have M: "move_up (Suc n) si di m = M" unfolding M_def u_def by simp
  have "di + 1 + of_nat j \<noteq> si + 1 + of_nat i" if "j < i" "i < n" for i j
    using Suc.prems(1)[of "Suc j" "Suc i"] that by (simp add: algebra_simps)
  then have IH: "\<forall>i < n. M (di + 1 + of_nat i) = u (si + 1 + of_nat i)"
    "\<forall>a. (\<forall>i < n. a \<noteq> di + 1 + of_nat i) \<longrightarrow> M a = u a"
    using Suc.IH[of "di + 1" "si + 1" u] Suc.prems(2) unfolding M_def by simp_all
  have di: "di \<noteq> di + 1 + of_nat i" if "i < n" for i
    using offset_inj[of di 0 "Suc i"] that Suc.prems(2) unfolding next_byte by auto
  have first: "M di = m si" using IH(2) di unfolding u_def by fastforce
  have later: "M (di + of_nat (Suc i)) = m (si + of_nat (Suc i))" if "i < n" for i
  proof -
    have "si + of_nat (Suc i) \<noteq> di" using Suc.prems(1)[of 0 "Suc i"] that by (simp add: eq_commute)
    then show ?thesis using IH(1) that unfolding next_byte u_def by simp
  qed
  have "M a = m a" if "\<forall>i < Suc n. a \<noteq> di + of_nat i" for a
  proof -
    have "a \<noteq> di" using that by force
    moreover have "\<forall>i < n. a \<noteq> di + 1 + of_nat i" using that unfolding next_byte by blast
    ultimately show ?thesis using IH(2) unfolding u_def by simp
  qed
  moreover have "M (di + of_nat i) = m (si + of_nat i)" if "i < Suc n" for i
    using that first later by (cases i) simp_all
  ultimately show ?case unfolding M by blast
qed simp

lemma move_down_spec:
  assumes "\<And>i j. j < i \<Longrightarrow> i < n \<Longrightarrow> di - of_nat j \<noteq> si - of_nat i" "n \<le> 2 ^ 32"
  shows "(\<forall>i < n. move_down n si di m (di - of_nat i) = m (si - of_nat i)) \<and>
    (\<forall>a. (\<forall>i < n. a \<noteq> di - of_nat i) \<longrightarrow> move_down n si di m a = m a)"
  using assms
proof (induction n arbitrary: si di m)
  case (Suc n)
  define u where "u = m(di := m si)"
  define M where "M = move_down n (si - 1) (di - 1) u"
  have M: "move_down (Suc n) si di m = M" unfolding M_def u_def by simp
  have nxt: "p - 1 - of_nat i = p - of_nat (Suc i)" for p :: u32 and i by simp
  have "di - 1 - of_nat j \<noteq> si - 1 - of_nat i" if "j < i" "i < n" for i j
    using Suc.prems(1)[of "Suc j" "Suc i"] that unfolding nxt by simp
  then have IH: "\<forall>i < n. M (di - 1 - of_nat i) = u (si - 1 - of_nat i)"
    "\<forall>a. (\<forall>i < n. a \<noteq> di - 1 - of_nat i) \<longrightarrow> M a = u a"
    using Suc.IH[of "di - 1" "si - 1" u] Suc.prems(2) unfolding M_def by simp_all
  have di: "di \<noteq> di - 1 - of_nat i" if "i < n" for i
    using offset_inj[of di 0 "Suc i"] that Suc.prems(2) unfolding nxt by (auto simp: algebra_simps)
  have first: "M di = m si" using IH(2) di unfolding u_def by fastforce
  have later: "M (di - of_nat (Suc i)) = m (si - of_nat (Suc i))" if "i < n" for i
  proof -
    have "si - of_nat (Suc i) \<noteq> di" using Suc.prems(1)[of 0 "Suc i"] that by (simp add: eq_commute)
    then show ?thesis using IH(1) that unfolding nxt u_def by simp
  qed
  have "M a = m a" if "\<forall>i < Suc n. a \<noteq> di - of_nat i" for a
  proof -
    have "a \<noteq> di" using that by force
    moreover have "\<forall>i < n. a \<noteq> di - 1 - of_nat i" using that unfolding nxt by blast
    ultimately show ?thesis using IH(2) unfolding u_def by simp
  qed
  moreover have "M (di - of_nat i) = m (si - of_nat i)" if "i < Suc n" for i
    using that first later by (cases i) simp_all
  ultimately show ?case unfolding M by blast
qed simp

text \<open>C22. \<^verbatim>\<open>memmove\<close> copies also if the blocks overlap: where neither block runs over the end
  of memory, every byte of the source as it was is afterwards at its place in the destination, and no other byte of
  memory has changed.\<close>

theorem memmove_copies:
  assumes "unat src + unat n \<le> 2 ^ 32" and "unat dest + unat n \<le> 2 ^ 32"
  shows "case memmove dest src n m of (r, m') \<Rightarrow> r = dest \<and>
    (\<forall>i < unat n. m' (dest + of_nat i) = m (src + of_nat i)) \<and>
    (\<forall>a. (\<forall>i < unat n. a \<noteq> dest + of_nat i) \<longrightarrow> m' a = m a)"
proof -
  have un: "unat (p + of_nat i) = unat p + i" if "unat p + unat n \<le> 2 ^ 32" "i < unat n" for p :: u32 and i
    using of_nat_inverse[of "unat p + i" "p + of_nat i"] that by simp
  have N: "unat n \<le> 2 ^ 32" using assms(1) by simp
  show ?thesis
  proof (cases "dest < src")
    case True
    have "dest + of_nat j \<noteq> src + of_nat i" if "j < i" "i < unat n" for i j
    proof -
      have "unat (dest + of_nat j) < unat (src + of_nat i)"
        using that True un[OF assms(1), of i] un[OF assms(2), of j] by (simp add: word_less_nat_alt)
      then show ?thesis by auto
    qed
    then show ?thesis using True move_up_spec[of "unat n" dest src m, OF _ N] by (simp add: memmove_def)
  next
    case False
    have shift: "p + n - 1 - of_nat i = p + of_nat (unat n - 1 - i)" if "i < unat n" for p :: u32 and i
    proof -
      define k where "k = unat n - 1 - i"
      have k: "unat n = k + i + 1" unfolding k_def using that by simp
      have "n = of_nat (unat n)" by simp
      then have n: "n = of_nat k + of_nat i + 1" unfolding k by simp
      have "p + n - 1 - of_nat i = p + of_nat k" by (subst n) simp
      then show ?thesis unfolding k_def .
    qed
    have "dest + n - 1 - of_nat j \<noteq> src + n - 1 - of_nat i" if "j < i" "i < unat n" for i j
    proof -
      have "unat (src + of_nat (unat n - 1 - i)) < unat (dest + of_nat (unat n - 1 - j))"
        using that False un[OF assms(1), of "unat n - 1 - i"] un[OF assms(2), of "unat n - 1 - j"]
        by (simp add: word_le_nat_alt not_less)
      then show ?thesis unfolding shift[OF that(2)] shift[OF less_trans[OF that]] by auto
    qed
    note spec = move_down_spec[of "unat n" "dest + n - 1" "src + n - 1" m, OF this N]
    let ?M = "move_down (unat n) (src + n - 1) (dest + n - 1) m"
    have "?M (dest + of_nat i) = m (src + of_nat i)" if i: "i < unat n" for i
      using conjunct1[OF spec, rule_format, of "unat n - 1 - i"] shift[of "unat n - 1 - i"] i by simp
    moreover have "?M a = m a" if "\<forall>i < unat n. a \<noteq> dest + of_nat i" for a
    proof -
      have "a \<noteq> dest + n - 1 - of_nat i" if "i < unat n" for i
        unfolding shift[OF that] by (rule \<open>\<forall>i < unat n. a \<noteq> dest + of_nat i\<close>[rule_format]) (use that in simp)
      then show ?thesis using conjunct2[OF spec] by blast
    qed
    ultimately show ?thesis using False by (simp add: memmove_def)
  qed
qed

text \<open>C14. The words of a string: calling \<^verbatim>\<open>strtok\<close> first with the string and then with the null
  pointer, as long as it returns a token, ends after at most one call more than the string has bytes, and the pointers
  it has returned are then, in order, strings whose bytes are the maximal runs of the original string without
  delimiters; memory outside the string is as it was.\<close>

theorem strtok_yields_tokens:
  assumes "cstr m s xs" and "s \<noteq> 0" and "cstr m ct ys" and "ct \<noteq> 0" and "ys \<noteq> []" and "zone s xs \<inter> zone ct ys = {}"
  shows "\<exists>rs m'. strtok_all (Suc (length xs)) s ct st m = Some (rs, m') \<and>
    list_all2 (cstr m') rs (tokens (set ys) xs) \<and> (\<forall>a. a \<notin> zone s xs \<longrightarrow> m' a = m a)"
  by (rule strtok_all_tokens[OF assms]) (use assms(2) in simp_all)

subsection \<open>Two irregular cases\<close>

text \<open>Appending an empty string writes a second zero, behind the end of the destination.\<close>

lemma strncat_writes_two_zeros:
  assumes "m dest = 0" "m src = 0" "dest \<noteq> src"
  shows "strncat dest src 1 m = Some (dest, m(dest := 0, dest + 1 := 0))"
proof -
  have "scan_zero dest m = (dest + 1, 0xfffffffe, True)"
    unfolding scan_zero_def using scan_ne_zero[where m = m and p = dest and xs = "[]" and n = "0xffffffff"] assms(1) by simp
  moreover have "copy_n 1 src dest m = Some (True, 0, dest + 1, m(dest := 0))"
    by (subst copy_n.simps) (simp add: Let_def assms)
  ultimately show ?thesis by (simp add: strncat_def)
qed

text \<open>The result for no bytes at all is whatever the flags were.\<close>

lemma memcmp_of_nothing: "memcmp (False, True) cs ct 0 m = 1"
  by (simp add: memcmp_def)

subsection \<open>Samples\<close>

definition greeting :: bytes where
  "greeting = (\<lambda>_. 0)(16 := 32, 17 := 104, 18 := 105, 19 := 32, 20 := 120, 100 := 32)"

theorem memmove_copies_witness:
  "snd (memmove 17 16 3 greeting) 18 = 104 \<and> snd (memmove 17 16 3 greeting) 17 = 32 \<and> snd (memmove 17 16 3 greeting) 20 = 120"
proof -
  have d: "(17 :: u32) + of_nat i = 20 \<longleftrightarrow> i = 3" if "i < 3" for i
    using that by (auto simp: less_Suc_eq numeral_3_eq_3)
  have "case memmove 17 16 3 greeting of (r, m') \<Rightarrow> r = 17 \<and>
    (\<forall>i < unat (3 :: u32). m' (17 + of_nat i) = greeting (16 + of_nat i)) \<and>
    (\<forall>a. (\<forall>i < unat (3 :: u32). a \<noteq> 17 + of_nat i) \<longrightarrow> m' a = greeting a)"
    by (rule memmove_copies) simp_all
  then have c: "\<forall>i < 3. snd (memmove 17 16 3 greeting) (17 + of_nat i) = greeting (16 + of_nat i)"
    and o: "(\<forall>i < 3. (20 :: u32) \<noteq> 17 + of_nat i) \<longrightarrow> snd (memmove 17 16 3 greeting) 20 = greeting 20"
    by (auto split: prod.splits)
  have "snd (memmove 17 16 3 greeting) 20 = greeting 20" using o d by (metis nat_neq_iff)
  then show ?thesis using c[rule_format, of 0] c[rule_format, of 1] by (simp add: greeting_def)
qed

theorem strtok_yields_tokens_witness:
  "\<exists>r1 r2 m'. strtok_all 6 16 100 0 greeting = Some ([r1, r2], m') \<and> cstr m' r1 [104, 105] \<and> cstr m' r2 [120]"
proof -
  have s: "cstr greeting 16 [32, 104, 105, 32, 120]" and c: "cstr greeting 100 [32]" by (simp_all add: greeting_def)
  have "zone 16 [32, 104, 105, 32, 120] \<inter> zone 100 [32] = {}" by simp
  note T = strtok_yields_tokens[OF s _ c _ _ this, of 0]
  have six: "Suc (length [32, 104, 105, 32, 120 :: u8]) = 6" by simp
  have "\<exists>rs m'. strtok_all 6 16 100 0 greeting = Some (rs, m') \<and> list_all2 (cstr m') rs (tokens (set [32]) [32, 104, 105, 32, 120])"
    using T unfolding six by force
  then obtain rs m'
    where r: "strtok_all 6 16 100 0 greeting = Some (rs, m')" "list_all2 (cstr m') rs (tokens {32} [32, 104, 105, 32, 120])"
    by auto
  have "tokens {32} [32, 104, 105, 32, 120] = [[104, 105], [120]]"
    by (subst tokens.simps, simp add: Let_def)+
  with r show ?thesis by (auto simp: list_all2_Cons2)
qed

end
