(* ===== verification/Io_Ports.thy ===== *)
theory Io_Ports
  imports Blkdev
begin

section \<open>Ports and the buffers of requests\<close>

text \<open>
  What the disk drivers share. \<^verbatim>\<open>include/asm/io.h\<close>: reading and writing the machine's ports
  is a parameter, of a type \<open>'c\<close> of whatever lies behind them; a read can change that too. And
  \<^verbatim>\<open>CURRENT->buffer\<close> of \<^verbatim>\<open>kernel/blk_drv/blk.h\<close>: it starts where the block or
  the page of the request lies and moves on by a sector whenever \<open>r_nr_sectors\<close> goes down by one, so it is where
  \<open>buf_pos\<close> says.
\<close>

subsection \<open>Ports\<close>

record 'c io_ports =
  inb :: "u16 \<Rightarrow> 'c \<Rightarrow> u8 \<times> 'c"
  outb :: "u16 \<Rightarrow> u8 \<Rightarrow> 'c \<Rightarrow> 'c"
  inw :: "u16 \<Rightarrow> 'c \<Rightarrow> u16 \<times> 'c"
  outw :: "u16 \<Rightarrow> u16 \<Rightarrow> 'c \<Rightarrow> 'c"

text \<open>\<^verbatim>\<open>rep;insw\<close> and \<^verbatim>\<open>rep;outsw\<close>.\<close>

primrec port_read :: "'c io_ports \<Rightarrow> u16 \<Rightarrow> nat \<Rightarrow> 'c \<Rightarrow> u16 list \<times> 'c" where
  "port_read P port 0 c = ([], c)"
| "port_read P port (Suc n) c =
     (let (w, c) = inw P port c; (ws, c) = port_read P port n c in (w # ws, c))"

definition port_write :: "'c io_ports \<Rightarrow> u16 \<Rightarrow> u16 list \<Rightarrow> 'c \<Rightarrow> 'c" where
  "port_write P port ws c = fold (outw P port) ws c"

text \<open>
  A loop that reads a port until \<open>ok\<close> holds of the value, at most \<open>n\<close> times: the number of reads that were left
  when one was good.
\<close>

primrec poll :: "'c io_ports \<Rightarrow> u16 \<Rightarrow> (u8 \<Rightarrow> bool) \<Rightarrow> nat \<Rightarrow> 'c \<Rightarrow> nat option \<times> 'c" where
  "poll P port ok 0 c = (None, c)"
| "poll P port ok (Suc n) c = (let (v, c) = inb P port c in if ok v then (Some n, c) else poll P port ok n c)"

subsection \<open>Buffers\<close>

definition sectors_at_start :: "request \<Rightarrow> nat" where
  "sectors_at_start r = (if r_bh r = None then 8 else 2)"

definition buf_pos :: "request \<Rightarrow> nat" where
  "buf_pos r = (sectors_at_start r - r_nr_sectors r) * 512"

definition bytes_of_words :: "u16 list \<Rightarrow> nat \<Rightarrow> u8" where
  "bytes_of_words ws i = (let w = ws ! (i div 2) in if even i then ucast w else ucast (drop_bit 8 w))"

definition store_bytes :: "request \<Rightarrow> nat \<Rightarrow> nat \<Rightarrow> (nat \<Rightarrow> u8) \<Rightarrow> fsys \<Rightarrow> fsys" where
  "store_bytes r off n f s =
     (case r_bh r of
        Some b \<Rightarrow> upd_buf b (\<lambda>h. h\<lparr>b_data := (\<lambda>i. if off \<le> i \<and> i < off + n then f (i - off) else b_data h i)\<rparr>) s
      | None \<Rightarrow>
          let old = page_byte (r_page r) (mem (pages s)) in
          s\<lparr>pages := (pages s)\<lparr>mem := fill_page (r_page r)
            (\<lambda>d. long_of (\<lambda>j. let i = unat d + j in if off \<le> i \<and> i < off + n then f (i - off) else old i))
            (mem (pages s))\<rparr>\<rparr>)"

definition load_byte :: "request \<Rightarrow> fsys \<Rightarrow> nat \<Rightarrow> u8" where
  "load_byte r s i = (case r_bh r of Some b \<Rightarrow> b_data (bufs s b) i | None \<Rightarrow> page_byte (r_page r) (mem (pages s)) i)"

definition words_of_bytes :: "(nat \<Rightarrow> u8) \<Rightarrow> nat \<Rightarrow> u16 list" where
  "words_of_bytes f n = map (\<lambda>k. ucast (f (2 * k)) OR push_bit 8 (ucast (f (2 * k + 1)))) [0..<n]"

end
