(* ===== verification/Hd.thy ===== *)
theory Hd
  imports Io_Ports Super Fault
begin

section \<open>The hard disk\<close>

text \<open>
  \<^verbatim>\<open>kernel/blk_drv/hd.c\<close>, with the entry \<^verbatim>\<open>_hd_interrupt\<close> of
  \<^verbatim>\<open>kernel/sys_call.s\<close>. The driver is a state machine: \<^verbatim>\<open>do_hd_request\<close> gives
  the controller a command and says in \<open>do_hd\<close> which routine the interrupt at the command's end calls; that routine goes
  on with the request, or ends it and starts the next one. The controller is behind the ports, a parameter. Its timeout
  counter is \<open>hd_timeout\<close> of the kernel's state.
\<close>

subsection \<open>Data\<close>

record hd_i_struct =
  head :: u32
  sect :: u32
  cyl :: u32
  wpcom :: u32
  lzone :: u32
  ctl :: u32

record hd_struct =
  start_sect :: u32
  nr_sects :: u32

datatype hd_intr = Read_intr | Write_intr | Recal_intr | Reset_hd

record 'c hsys =
  hf :: fsys
  hc :: 'c
  hd_info :: "nat \<Rightarrow> hd_i_struct"
  NR_HD :: nat
  hd_part :: "nat \<Rightarrow> hd_struct"
  do_hd :: "hd_intr option"
  recalibrate :: bool
  need_reset :: bool
  reset_i :: int
  callable :: bool

type_synonym ('c, 'a) hres = "('c hsys, 'a) res"

abbreviation (input) HD_DATA :: u16 where "HD_DATA \<equiv> 0x1f0"
abbreviation (input) HD_ERROR :: u16 where "HD_ERROR \<equiv> 0x1f1"
abbreviation (input) HD_NSECTOR :: u16 where "HD_NSECTOR \<equiv> 0x1f2"
abbreviation (input) HD_SECTOR :: u16 where "HD_SECTOR \<equiv> 0x1f3"
abbreviation (input) HD_LCYL :: u16 where "HD_LCYL \<equiv> 0x1f4"
abbreviation (input) HD_HCYL :: u16 where "HD_HCYL \<equiv> 0x1f5"
abbreviation (input) HD_CURRENT :: u16 where "HD_CURRENT \<equiv> 0x1f6"
abbreviation (input) HD_STATUS :: u16 where "HD_STATUS \<equiv> 0x1f7"
abbreviation (input) HD_CMD :: u16 where "HD_CMD \<equiv> 0x3f6"

abbreviation (input) WIN_RESTORE :: u32 where "WIN_RESTORE \<equiv> 0x10"
abbreviation (input) WIN_READ :: u32 where "WIN_READ \<equiv> 0x20"
abbreviation (input) WIN_WRITE :: u32 where "WIN_WRITE \<equiv> 0x30"
abbreviation (input) WIN_SPECIFY :: u32 where "WIN_SPECIFY \<equiv> 0x91"

abbreviation (input) MAX_ERRORS :: nat where "MAX_ERRORS \<equiv> 7"
abbreviation (input) MAX_HD :: nat where "MAX_HD \<equiv> 2"

definition on_fs :: "(fsys \<Rightarrow> 'a fres) \<Rightarrow> 'c hsys \<Rightarrow> ('c, 'a) hres" where
  "on_fs f s = (case f (hf s) of Inl (e, t) \<Rightarrow> Inl (e, s\<lparr>hf := t\<rparr>) | Inr (x, t) \<Rightarrow> Inr (x, s\<lparr>hf := t\<rparr>))"

definition upd_fs :: "(fsys \<Rightarrow> fsys) \<Rightarrow> 'c hsys \<Rightarrow> 'c hsys" where
  "upd_fs f s = s\<lparr>hf := f (hf s)\<rparr>"

definition upd_ctl :: "('c \<Rightarrow> 'c) \<Rightarrow> 'c hsys \<Rightarrow> 'c hsys" where
  "upd_ctl f s = s\<lparr>hc := f (hc s)\<rparr>"

definition at_port :: "('c \<Rightarrow> 'a \<times> 'c) \<Rightarrow> 'c hsys \<Rightarrow> 'a \<times> 'c hsys" where
  "at_port f s = (case f (hc s) of (x, c) \<Rightarrow> (x, s\<lparr>hc := c\<rparr>))"

text \<open>\<open>CURRENT\<close>: the first request of major number 3.\<close>

definition cur_rq :: "'c hsys \<Rightarrow> nat" where
  "cur_rq s = List.hd (queue (hf s) 3)"

abbreviation (input) CURRENT :: "'c hsys \<Rightarrow> request" where
  "CURRENT s \<equiv> requests (hf s) (cur_rq s)"

definition upd_cur_rq :: "(request \<Rightarrow> request) \<Rightarrow> 'c hsys \<Rightarrow> 'c hsys" where
  "upd_cur_rq f s = upd_fs (upd_request (cur_rq s) f) s"

definition idle_queue :: "'c hsys \<Rightarrow> bool" where
  "idle_queue s \<longleftrightarrow> queue (hf s) 3 = []"

definition SET_INTR :: "hd_intr option \<Rightarrow> 'c hsys \<Rightarrow> 'c hsys" where
  "SET_INTR x s = upd_fs (upd_kernel (\<lambda>k. k\<lparr>hd_timeout := 200\<rparr>)) (s\<lparr>do_hd := x\<rparr>)"

text \<open>The sector's count goes down, and the buffer and the sector number move on.\<close>

definition next_sector :: "request \<Rightarrow> request" where
  "next_sector r = r\<lparr>r_sector := (r_sector r + 1) mod 2 ^ 32, r_nr_sectors := (r_nr_sectors r + 2 ^ 32 - 1) mod 2 ^ 32\<rparr>"

subsection \<open>The controller\<close>

text \<open>The number of tries left, 0 if the controller did not become ready.\<close>

definition controller_ready :: "'c io_ports \<Rightarrow> 'c hsys \<Rightarrow> nat \<times> 'c hsys" where
  "controller_ready P s =
     (case at_port (poll P HD_STATUS (\<lambda>v. v AND 0xc0 = 0x40) 99999) s of
        (None, s) \<Rightarrow> (0, s) | (Some n, s) \<Rightarrow> (n + 1, s))"

definition win_result :: "'c io_ports \<Rightarrow> 'c hsys \<Rightarrow> bool \<times> 'c hsys" where
  "win_result P s =
     (let (i, s) = at_port (inb P HD_STATUS) s in
      if i AND 0xF1 = 0x50 then (False, s)
      else if i AND 1 \<noteq> 0 then (True, snd (at_port (inb P HD_ERROR) s))
      else (True, s))"

text \<open>The nine bytes of a command.\<close>

definition task_file :: "hd_i_struct \<Rightarrow> u32 \<Rightarrow> u32 \<Rightarrow> u32 \<Rightarrow> u32 \<Rightarrow> u32 \<Rightarrow> u32 \<Rightarrow> (u16 \<times> u8) list" where
  "task_file d drive nsect sec hn cy cmd =
     [(HD_CMD, ucast (ctl d)), (HD_ERROR, ucast (drop_bit 2 (wpcom d))), (HD_NSECTOR, ucast nsect),
      (HD_SECTOR, ucast sec), (HD_LCYL, ucast cy), (HD_HCYL, ucast (drop_bit 8 cy)),
      (HD_CURRENT, ucast (0xA0 OR push_bit 4 drive OR hn)), (HD_STATUS, ucast cmd)]"

definition send :: "'c io_ports \<Rightarrow> (u16 \<times> u8) list \<Rightarrow> 'c \<Rightarrow> 'c" where
  "send P xs c = fold (\<lambda>(port, v). outb P port v) xs c"

definition hd_out :: "'c io_ports \<Rightarrow> u32 \<Rightarrow> u32 \<Rightarrow> u32 \<Rightarrow> u32 \<Rightarrow> u32 \<Rightarrow> u32 \<Rightarrow> hd_intr \<Rightarrow> 'c hsys \<Rightarrow> ('c, unit) hres" where
  "hd_out P drive nsect sec hn cy cmd intr s =
     (if 1 < drive \<or> 15 < hn then stopK (Panic ''Trying to write bad sector'') s
      else let (n, s) = controller_ready P s in
        if n = 0 then stopK (Panic ''HD controller not ready'') s
        else retK () (upd_ctl (send P (task_file (hd_info s (unat drive)) drive nsect sec hn cy cmd))
               (SET_INTR (Some intr) s)))"

definition drive_busy :: "'c io_ports \<Rightarrow> 'c hsys \<Rightarrow> bool \<times> 'c hsys" where
  "drive_busy P s =
     (case at_port (poll P HD_STATUS (\<lambda>c. c AND 0xD0 = 0x50) 50000) s of
        (Some _, s) \<Rightarrow> (False, s)
      | (None, s) \<Rightarrow> (True, upd_fs (fs_say ''HD controller times out'') s))"

definition reset_controller :: "'c io_ports \<Rightarrow> 'c hsys \<Rightarrow> 'c hsys" where
  "reset_controller P s =
     (let s = upd_ctl (outb P HD_CMD 4) s;
          s = upd_ctl (outb P HD_CMD (ucast (ctl (hd_info s 0) AND 0x0f))) s;
          (busy, s) = drive_busy P s;
          s = (if busy then upd_fs (fs_say ''HD-controller still busy'') s else s);
          (i, s) = at_port (inb P HD_ERROR) s
      in if i \<noteq> 1 then upd_fs (fs_say ''HD-controller reset failed'') s else s)"

subsection \<open>Errors\<close>

text \<open>
  An access through \<open>CURRENT\<close> when there is no request is one through the null pointer. \<open>bad_rw_intr\<close> makes it
  when it has just given up the last request.
\<close>

definition with_current :: "('c hsys \<Rightarrow> ('c, 'a) hres) \<Rightarrow> 'c hsys \<Rightarrow> ('c, 'a) hres" where
  "with_current f s = (if idle_queue s then stopK (Wild ''CURRENT is null'') s else f s)"

definition count_error :: "'c hsys \<Rightarrow> 'c hsys" where
  "count_error s =
     (let s = upd_cur_rq (\<lambda>r. r\<lparr>r_errors := r_errors r + 1\<rparr>) s in
      if MAX_ERRORS \<le> r_errors (CURRENT s) then upd_fs (end_request 3 False) s else s)"

definition bad_rw_intr :: "'c hsys \<Rightarrow> ('c, unit) hres" where
  "bad_rw_intr s =
     with_current (\<lambda>s. with_current (\<lambda>s.
       retK () (if MAX_ERRORS div 2 < r_errors (CURRENT s) then s\<lparr>need_reset := True\<rparr> else s))
         (count_error s)) s"

subsection \<open>Requests\<close>

text \<open>
  \<open>serve\<close> is one round of \<^verbatim>\<open>do_hd_request\<close>: \<open>True\<close> if it comes back to its label \<open>repeat\<close>, or calls
  itself as the last thing it does (through \<^verbatim>\<open>reset_hd\<close>).
\<close>

definition reset_step :: "'c io_ports \<Rightarrow> 'c hsys \<Rightarrow> ('c, bool) hres" where
  "reset_step P s =
     (let s = s\<lparr>reset_i := reset_i s + 1\<rparr>; i = nat (reset_i s); d = hd_info s i in
      if reset_i s < int (NR_HD s)
      then bindK (hd_out P (of_int (reset_i s)) (sect d) (sect d) (head d - 1) (cyl d) WIN_SPECIFY Reset_hd s)
        (\<lambda>_. retK False)
      else retK True s)"

definition reset_start :: "'c io_ports \<Rightarrow> 'c hsys \<Rightarrow> 'c hsys" where
  "reset_start P s = reset_controller P (s\<lparr>need_reset := False, reset_i := -1\<rparr>)"

definition start_write :: "'c io_ports \<Rightarrow> 'c hsys \<Rightarrow> ('c, bool) hres" where
  "start_write P s =
     (case at_port (poll P HD_STATUS (\<lambda>v. v AND 8 \<noteq> 0) 10000) s of
        (None, s) \<Rightarrow> bindK (bad_rw_intr s) (\<lambda>_. retK True)
      | (Some _, s) \<Rightarrow>
          let r = CURRENT s in
          retK False (upd_ctl (port_write P HD_DATA (words_of_bytes (\<lambda>i. load_byte r (hf s) (buf_pos r + i)) 256)) s))"

definition serve_at :: "'c io_ports \<Rightarrow> u32 \<Rightarrow> u32 \<Rightarrow> 'c hsys \<Rightarrow> ('c, bool) hres" where
  "serve_at P block dev s =
     (let i = hd_info s (unat dev); nsect = of_nat (r_nr_sectors (CURRENT s)) in
      if sect i = 0 \<or> head i = 0 then stopK (Wild ''do_hd_request: division by zero'') s
      else let sec = block mod sect i; block = block div sect i; cy = block div head i; hn = block mod head i; sec = sec + 1 in
        if need_reset s then reset_step P (reset_start P (s\<lparr>recalibrate := True\<rparr>))
        else if recalibrate s
        then bindK (hd_out P dev (sect i) 0 0 0 WIN_RESTORE Recal_intr (s\<lparr>recalibrate := False\<rparr>)) (\<lambda>_. retK False)
        else if r_cmd (CURRENT s) = WRITE
        then bindK (hd_out P dev nsect sec hn cy WIN_WRITE Write_intr s) (\<lambda>_. start_write P)
        else if r_cmd (CURRENT s) = READ
        then bindK (hd_out P dev nsect sec hn cy WIN_READ Read_intr s) (\<lambda>_. retK False)
        else stopK (Panic ''unknown hd-command'') s)"

definition serve :: "'c io_ports \<Rightarrow> 'c hsys \<Rightarrow> ('c, bool) hres" where
  "serve P s =
     (if idle_queue s then retK False (upd_fs (upd_kernel (\<lambda>k. k\<lparr>hd_timeout := 0\<rparr>)) (s\<lparr>do_hd := None\<rparr>))
      else bindK (on_fs (check_request 3 (cur_rq s)) s) (\<lambda>_ s.
        let dev = MINOR (the (r_dev (CURRENT s))); block = of_nat (r_sector (CURRENT s)) :: u32; p = hd_part s dev in
        if 5 * NR_HD s \<le> dev \<or> nr_sects p < block + 2 then retK True (upd_fs (end_request 3 False) s)
        else serve_at P (block + start_sect p) (of_nat (dev div 5)) s))"

subsection \<open>The loop ends\<close>

text \<open>Every further round has one request less, or one more error of the first request, which at most seven are.\<close>

lemma hf_simps [simp]:
  "hf (upd_fs f s) = f (hf s)" "hf (upd_ctl g s) = hf s" "hf (snd (at_port h s)) = hf s"
  "hf (SET_INTR x s) = upd_kernel (\<lambda>k. k\<lparr>hd_timeout := 200\<rparr>) (hf s)"
  by (simp_all add: upd_fs_def upd_ctl_def at_port_def SET_INTR_def split: prod.split)

lemma hs_simps [simp]:
  "NR_HD (upd_fs f s) = NR_HD s" "NR_HD (upd_ctl g s) = NR_HD s" "NR_HD (snd (at_port h s)) = NR_HD s"
  "NR_HD (SET_INTR x s) = NR_HD s" "reset_i (upd_fs f s) = reset_i s" "reset_i (upd_ctl g s) = reset_i s"
  "reset_i (snd (at_port h s)) = reset_i s"
  by (simp_all add: upd_fs_def upd_ctl_def at_port_def SET_INTR_def split: prod.split)

lemma rq_simps [simp]:
  "queue (upd_kernel f s) = queue s" "requests (upd_kernel f s) = requests s"
  "queue (upd_request q h s) = queue s" "requests (upd_request q h s) = (requests s)(q := h (requests s q))"
  "queue (fs_say msg s) = queue s" "requests (fs_say msg s) = requests s"
  by (simp_all add: upd_kernel_def upd_request_def fs_say_def)

lemma ready_hf [simp]: "hf (snd (controller_ready P s)) = hf s"
proof -
  let ?a = "at_port (poll P HD_STATUS (\<lambda>v. v AND 0xc0 = 0x40) 99999) s"
  have "hf (snd ?a) = hf s" by simp
  then show ?thesis unfolding controller_ready_def by (cases ?a) (simp split: option.split)
qed

lemma hd_out_Inr:
  assumes "hd_out P d n sec hn cy cmd intr s = Inr (u, s')"
  shows "queue (hf s') = queue (hf s)" "requests (hf s') = requests (hf s)"
proof -
  obtain k t where t: "controller_ready P s = (k, t)" by (cases "controller_ready P s")
  then have "hf t = hf s" using ready_hf[of P s] by simp
  then show "queue (hf s') = queue (hf s)" "requests (hf s') = requests (hf s)"
    using assms t by (auto simp: hd_out_def split: if_splits)
qed

definition errors_left :: "'c hsys \<Rightarrow> nat" where
  "errors_left s = MAX_ERRORS - r_errors (CURRENT s)"

lemma bad_rw_intr_Inr:
  assumes "bad_rw_intr s = Inr (u, s')"
  shows "length (queue (hf s') 3) < length (queue (hf s) 3) \<or> queue (hf s') = queue (hf s) \<and> errors_left s' < errors_left s"
proof -
  have ne: "queue (hf s) 3 \<noteq> []" using assms by (auto simp: bad_rw_intr_def with_current_def idle_queue_def split: if_splits)
  have "hf s' = hf (count_error s)"
    using assms by (auto simp: bad_rw_intr_def with_current_def split: if_splits)
  then show ?thesis using ne
    by (auto simp: count_error_def Let_def upd_cur_rq_def cur_rq_def end_request_queue errors_left_def split: if_splits)
qed

lemma drive_busy_rest [simp]: "NR_HD (snd (drive_busy P s)) = NR_HD s" "reset_i (snd (drive_busy P s)) = reset_i s"
proof -
  let ?a = "at_port (poll P HD_STATUS (\<lambda>c. c AND 0xD0 = 0x50) 50000) s"
  have "NR_HD (snd ?a) = NR_HD s" "reset_i (snd ?a) = reset_i s" by simp_all
  then show "NR_HD (snd (drive_busy P s)) = NR_HD s" "reset_i (snd (drive_busy P s)) = reset_i s"
    unfolding drive_busy_def by (cases ?a, simp split: option.split)+
qed

lemma reset_controller_rest [simp]:
  "NR_HD (reset_controller P s) = NR_HD s" "reset_i (reset_controller P s) = reset_i s"
proof -
  have at: "NR_HD t = NR_HD s \<and> reset_i t = reset_i s" if "at_port h s = (x, t)" for h x s and t :: "'a hsys"
    using hs_simps(3,7)[of h s] that by simp_all
  have busy: "NR_HD t = NR_HD s \<and> reset_i t = reset_i s" if "drive_busy P s = (x, t)" for P x s and t :: "'a hsys"
    using drive_busy_rest[of P s] that by simp_all
  show "NR_HD (reset_controller P s) = NR_HD s" "reset_i (reset_controller P s) = reset_i s"
    by (auto simp: reset_controller_def Let_def split: prod.splits dest!: at busy)
qed

lemma reset_step_done: "0 < NR_HD s \<Longrightarrow> reset_step P (reset_start P s) \<noteq> Inr (True, s')"
  by (auto simp: reset_step_def reset_start_def Let_def)

definition fewer :: "'c hsys \<Rightarrow> 'c hsys \<Rightarrow> bool" where
  "fewer s' s \<longleftrightarrow> length (queue (hf s') 3) < length (queue (hf s) 3) \<or>
     queue (hf s') = queue (hf s) \<and> errors_left s' < errors_left s"

lemma start_write_again: "start_write P s = Inr (True, s') \<Longrightarrow> fewer s' s"
proof -
  assume a: "start_write P s = Inr (True, s')"
  obtain x t where x: "at_port (poll P HD_STATUS (\<lambda>v. v AND 8 \<noteq> 0) 10000) s = (x, t)" by fastforce
  then have "hf t = hf s" using hf_simps(3)[of "poll P HD_STATUS (\<lambda>v. v AND 8 \<noteq> 0) 10000" s] by simp
  moreover have "bad_rw_intr t = Inr ((), s')" using a x by (auto simp: start_write_def Let_def split: option.splits)
  ultimately show ?thesis using bad_rw_intr_Inr[of t "()" s'] unfolding fewer_def by (simp add: errors_left_def cur_rq_def)
qed

lemma serve_at_again:
  assumes "serve_at P b d s = Inr (True, s')" "0 < NR_HD s"
  shows "fewer s' s"
proof -
  have "\<exists>t. (\<exists>n sec hn cy. hd_out P d n sec hn cy WIN_WRITE Write_intr s = Inr ((), t)) \<and> start_write P t = Inr (True, s')"
    using assms by (auto simp: serve_at_def Let_def reset_step_done split: if_splits) blast
  then obtain t n sec hn cy where "hd_out P d n sec hn cy WIN_WRITE Write_intr s = Inr ((), t)" "start_write P t = Inr (True, s')"
    by blast
  then show ?thesis using start_write_again[of P t s'] hd_out_Inr[of P d n sec hn cy WIN_WRITE Write_intr s "()" t]
    by (simp add: fewer_def errors_left_def cur_rq_def)
qed

lemma serve_again:
  assumes "serve P s = Inr (True, s')"
  shows "fewer s' s"
proof -
  have ne: "queue (hf s) 3 \<noteq> []" using assms by (auto simp: serve_def idle_queue_def split: if_splits)
  from assms obtain t where t: "on_fs (check_request 3 (cur_rq s)) s = Inr ((), t)"
    by (auto simp: serve_def idle_queue_def split: if_splits)
  then have ts: "t = s" by (auto simp: on_fs_def check_request_def Let_def retK_def split: if_splits sum.splits)
  show ?thesis
  proof (cases "s' = upd_fs (end_request 3 False) s")
    case True
    then show ?thesis using ne by (simp add: fewer_def end_request_queue)
  next
    case False
    then have "\<exists>b d. serve_at P b d s = Inr (True, s') \<and> 0 < NR_HD s"
      using assms t ts by (auto simp: serve_def Let_def not_le split: if_splits)
    then show ?thesis using serve_at_again by blast
  qed
qed

function do_hd_request :: "'c io_ports \<Rightarrow> 'c hsys \<Rightarrow> ('c, unit) hres" where
  "do_hd_request P s = bindK (serve P s) (\<lambda>again s. if again then do_hd_request P s else retK () s)"
  by pat_completeness auto
termination do_hd_request
  by (relation "measures [\<lambda>(P, s). length (queue (hf s) 3), \<lambda>(P, s). errors_left s]")
    (use serve_again in \<open>fastforce simp: fewer_def\<close>)+

declare do_hd_request.simps [simp del]

subsection \<open>Interrupts\<close>

text \<open>
  \<^verbatim>\<open>reset_hd\<close> as the routine of an interrupt: after the command with the parameters of a drive it goes on with the next
  drive, and after an error it may start again.
\<close>

definition request_if :: "'c io_ports \<Rightarrow> bool \<Rightarrow> 'c hsys \<Rightarrow> ('c, unit) hres" where
  "request_if P again s = (if again then do_hd_request P s else retK () s)"

definition reset_hd :: "'c io_ports \<Rightarrow> 'c hsys \<Rightarrow> ('c, unit) hres" where
  "reset_hd P s =
     bindK (if need_reset s then retK () (reset_start P s)
            else let (bad, s) = win_result P s in
              if bad then bindK (bad_rw_intr s) (\<lambda>_ s. retK () (if need_reset s then reset_start P s else s))
              else retK () s)
       (\<lambda>_ s. bindK (reset_step P s) (request_if P))"

definition unexpected_hd_interrupt :: "'c io_ports \<Rightarrow> 'c hsys \<Rightarrow> ('c, unit) hres" where
  "unexpected_hd_interrupt P s =
     do_hd_request P ((upd_fs (fs_say ''Unexpected HD interrupt'') s)\<lparr>need_reset := True\<rparr>)"

text \<open>What \<^verbatim>\<open>read_intr\<close> and \<^verbatim>\<open>write_intr\<close> begin with.\<close>

definition if_good :: "'c io_ports \<Rightarrow> ('c hsys \<Rightarrow> ('c, unit) hres) \<Rightarrow> 'c hsys \<Rightarrow> ('c, unit) hres" where
  "if_good P f s =
     (let (bad, s) = win_result P s in
      if bad then bindK (bad_rw_intr s) (\<lambda>_. do_hd_request P) else with_current f s)"

definition finish :: "'c io_ports \<Rightarrow> 'c hsys \<Rightarrow> ('c, unit) hres" where
  "finish P s = do_hd_request P (upd_fs (end_request 3 True) s)"

definition read_intr :: "'c io_ports \<Rightarrow> 'c hsys \<Rightarrow> ('c, unit) hres" where
  "read_intr P = if_good P (\<lambda>s.
     let (ws, s) = at_port (port_read P HD_DATA 256) s; r = CURRENT s;
         s = upd_fs (store_bytes r (buf_pos r) 512 (bytes_of_words ws)) s;
         s = upd_cur_rq (\<lambda>r. next_sector (r\<lparr>r_errors := 0\<rparr>)) s
     in if r_nr_sectors (CURRENT s) \<noteq> 0 then retK () (SET_INTR (Some Read_intr) s) else finish P s)"

definition write_intr :: "'c io_ports \<Rightarrow> 'c hsys \<Rightarrow> ('c, unit) hres" where
  "write_intr P = if_good P (\<lambda>s.
     if r_nr_sectors (CURRENT s) \<noteq> 1
     then let s = SET_INTR (Some Write_intr) (upd_cur_rq next_sector s); r = CURRENT s in
       retK () (upd_ctl (port_write P HD_DATA (words_of_bytes (\<lambda>i. load_byte r (hf s) (buf_pos r + i)) 256)) s)
     else finish P (upd_cur_rq (\<lambda>r. r\<lparr>r_nr_sectors := 0\<rparr>) s))"

definition recal_intr :: "'c io_ports \<Rightarrow> 'c hsys \<Rightarrow> ('c, unit) hres" where
  "recal_intr P s =
     (let (bad, s) = win_result P s in
      bindK (if bad then bad_rw_intr s else retK () s) (\<lambda>_. do_hd_request P))"

definition hd_times_out :: "'c io_ports \<Rightarrow> 'c hsys \<Rightarrow> ('c, unit) hres" where
  "hd_times_out P s =
     (if idle_queue s then retK () s
      else do_hd_request P ((SET_INTR None (count_error (upd_fs (fs_say ''HD timeout'') s)))\<lparr>need_reset := True\<rparr>))"

text \<open>The interrupt itself; the interrupt controllers are told that it has been handled.\<close>

fun run_intr :: "'c io_ports \<Rightarrow> hd_intr option \<Rightarrow> 'c hsys \<Rightarrow> ('c, unit) hres" where
  "run_intr P None = unexpected_hd_interrupt P"
| "run_intr P (Some Read_intr) = read_intr P"
| "run_intr P (Some Write_intr) = write_intr P"
| "run_intr P (Some Recal_intr) = recal_intr P"
| "run_intr P (Some Reset_hd) = reset_hd P"

definition hd_interrupt :: "'c io_ports \<Rightarrow> 'c hsys \<Rightarrow> ('c, unit) hres" where
  "hd_interrupt P s =
     (let s = upd_ctl (outb P 0xA0 0x20) s;
          s = upd_fs (upd_kernel (\<lambda>k. k\<lparr>hd_timeout := 0\<rparr>)) s;
          f = do_hd s;
          s = upd_ctl (outb P 0x20 0x20) (s\<lparr>do_hd := None\<rparr>)
      in run_intr P f s)"

subsection \<open>Set-up\<close>

text \<open>
  The parameters of the drives are where the BIOS has left them: \<open>bios\<close> is that memory, and \<open>cmos_disks\<close> the byte of
  the CMOS memory that says which drives the controller has. \<open>SWAP_DEV\<close> is a parameter as in \<open>init_swapping\<close>.
\<close>

definition bios_short :: "(nat \<Rightarrow> u8) \<Rightarrow> nat \<Rightarrow> u32" where
  "bios_short bios a = ucast (bios a) OR push_bit 8 (ucast (bios (a + 1)))"

definition bios_drive :: "(nat \<Rightarrow> u8) \<Rightarrow> nat \<Rightarrow> hd_i_struct" where
  "bios_drive bios a =
     \<lparr>head = ucast (bios (a + 2)), sect = ucast (bios (a + 14)), cyl = bios_short bios a, wpcom = bios_short bios (a + 5),
      lzone = bios_short bios (a + 12), ctl = ucast (bios (a + 8))\<rparr>"

definition partition_entry :: "block_data \<Rightarrow> nat \<Rightarrow> hd_struct" where
  "partition_entry d i =
     (let f = (\<lambda>a. long_of (\<lambda>j. d (0x1BE + 16 * (i - 1) + a + j))) in \<lparr>start_sect = f 8, nr_sects = f 12\<rparr>)"

definition read_partitions :: "env \<Rightarrow> nat \<Rightarrow> 'c hsys \<Rightarrow> ('c, unit) hres" where
  "read_partitions E drive s =
     bindK (on_fs (bread E (0x300 + of_nat (drive * 5)) 0) s) (\<lambda>bh s.
       case bh of
         None \<Rightarrow> stopK (Panic []) (upd_fs (fs_say ''Unable to read partition table of drive'') s)
       | Some b \<Rightarrow>
           let d = b_data (bufs (hf s) b) in
           if d 510 \<noteq> 0x55 \<or> d 511 \<noteq> 0xAA then stopK (Panic []) (upd_fs (fs_say ''Bad partition table on drive'') s)
           else on_fs (brelse E (Some b))
             (s\<lparr>hd_part := (\<lambda>i. if 5 * drive < i \<and> i < 5 * drive + 5 then partition_entry d (i - 5 * drive) else hd_part s i)\<rparr>))"

definition whole_disk :: "hd_i_struct \<Rightarrow> hd_struct" where
  "whole_disk d = \<lparr>start_sect = 0, nr_sects = head d * sect d * cyl d\<rparr>"

definition set_drives :: "(nat \<Rightarrow> u8) \<Rightarrow> u8 \<Rightarrow> 'c hsys \<Rightarrow> 'c hsys" where
  "set_drives bios cmos_disks s =
     (let info = (\<lambda>i. if i < 2 then bios_drive bios (16 * i) else hd_info s i);
          n = (if cyl (info 1) \<noteq> 0 then 2 else 1 :: nat);
          part = (\<lambda>i. if i mod 5 = 0 \<and> i div 5 < n then whole_disk (info (i div 5)) else hd_part s i);
          n = (if cmos_disks AND 0xf0 \<noteq> 0 then if cmos_disks AND 0x0f \<noteq> 0 then 2 else 1 else 0);
          part = (\<lambda>i. if i mod 5 = 0 \<and> n \<le> i div 5 \<and> i div 5 < 2 then \<lparr>start_sect = 0, nr_sects = 0\<rparr> else part i)
      in s\<lparr>hd_info := info, NR_HD := n, hd_part := part\<rparr>)"

definition set_sizes :: "'c hsys \<Rightarrow> 'c hsys" where
  "set_sizes s =
     upd_fs (\<lambda>t. t\<lparr>blk_size := (blk_size t)(3 \<mapsto> (\<lambda>i. if i < 5 * MAX_HD then signed_drop_bit 1 (nr_sects (hd_part s i)) else 0))\<rparr>) s"

definition sys_setup :: "env \<Rightarrow> dev \<Rightarrow> (nat \<Rightarrow> u8) \<Rightarrow> u8 \<Rightarrow> 'c hsys \<Rightarrow> ('c, int) hres" where
  "sys_setup E SWAP_DEV bios cmos_disks s =
     (if \<not> callable s then retK (- 1) s
      else let s = set_drives bios cmos_disks (s\<lparr>callable := False\<rparr>) in
        bindK (forK (read_partitions E) [0..<NR_HD s] s) (\<lambda>_ s.
          let s = set_sizes s; s = (if NR_HD s \<noteq> 0 then upd_fs (fs_say ''Partition table ok.'') s else s) in
          bindK (on_fs (rd_load E) s) (\<lambda>_ s.
            bindK (on_fs (init_swapping SWAP_DEV) s) (\<lambda>_ s.
              bindK (on_fs (mount_root E) s) (\<lambda>_ s. retK 0 s)))))"

text \<open>\<^verbatim>\<open>hd_init\<close>: the interrupt is let through; the driver is entered in the table of drivers, a parameter.\<close>

definition hd_init :: "'c io_ports \<Rightarrow> 'c hsys \<Rightarrow> 'c hsys" where
  "hd_init P s =
     (let (v, s) = at_port (inb P 0x21) s; s = upd_ctl (outb P 0x21 (v AND 0xfb)) s;
          (v, s) = at_port (inb P 0xA1) s in upd_ctl (outb P 0xA1 (v AND 0xbf)) s)"

end
