(* ===== verification/Hd_Props.thy ===== *)
theory Hd_Props
  imports Hd Blk_Props
begin

section \<open>The hard disk: a read request is served\<close>

text \<open>
  The controller is a parameter; what the driver relies on is stated as \<open>reads_disk\<close>, in terms of two families of states
  of the controller. It is ready for a command (\<open>ready\<close>), or has \<open>n\<close> sectors to deliver from sector \<open>l\<close> of a drive on
  (\<open>busy d l n\<close>). Sectors are numbered as the drive's geometry says, cylinder by cylinder and head by head; the command
  names them by cylinder, head and sector, the last one counted from 1.
\<close>

subsection \<open>The controller as documented\<close>

definition chs_sector :: "hd_i_struct \<Rightarrow> u32 \<Rightarrow> u32 \<Rightarrow> u32 \<Rightarrow> nat" where
  "chs_sector d cy hn sec = (unat cy * unat (head d) + unat hn) * unat (sect d) + (unat sec - 1)"

definition geometry :: "hd_i_struct \<Rightarrow> bool" where
  "geometry d \<longleftrightarrow> 0 < head d \<and> head d \<le> 16 \<and> 0 < sect d \<and> sect d \<le> 255 \<and> cyl d \<le> 65536"

definition takes_read :: "'c io_ports \<Rightarrow> (nat \<Rightarrow> hd_i_struct) \<Rightarrow> ('c \<Rightarrow> bool) \<Rightarrow> (nat \<Rightarrow> nat \<Rightarrow> nat \<Rightarrow> 'c \<Rightarrow> bool) \<Rightarrow> bool" where
  "takes_read P info ready busy \<longleftrightarrow>
     (\<forall>c drive n cy hn sec. ready c \<and> drive < 2 \<and> 0 < n \<and> n < 256 \<and> cy < 65536 \<and> hn < head (info (unat drive)) \<and>
        1 \<le> sec \<and> sec \<le> sect (info (unat drive)) \<longrightarrow>
        busy (unat drive) (chs_sector (info (unat drive)) cy hn sec) (unat n)
          (send P (task_file (info (unat drive)) drive n sec hn cy WIN_READ) c))"

definition delivers :: "'c io_ports \<Rightarrow> (nat \<Rightarrow> nat \<Rightarrow> nat \<Rightarrow> u8) \<Rightarrow> ('c \<Rightarrow> bool) \<Rightarrow> (nat \<Rightarrow> nat \<Rightarrow> nat \<Rightarrow> 'c \<Rightarrow> bool) \<Rightarrow> bool" where
  "delivers P content ready busy \<longleftrightarrow>
     (\<forall>d l n c. busy d l (Suc n) c \<longrightarrow>
        (case port_read P HD_DATA 256 c of (ws, c') \<Rightarrow>
           (\<forall>i < 512. bytes_of_words ws i = content d l i) \<and> (if n = 0 then ready c' else busy d (l + 1) n c')))"

definition reports :: "'c io_ports \<Rightarrow> ('c \<Rightarrow> bool) \<Rightarrow> (u8 \<Rightarrow> bool) \<Rightarrow> bool" where
  "reports P state ok \<longleftrightarrow>
     (\<forall>c. state c \<longrightarrow> ok (fst (inb P HD_STATUS c)) \<and> state (snd (inb P HD_STATUS c)) \<and>
        state (outb P 0xA0 0x20 c) \<and> state (outb P 0x20 0x20 c))"

definition reads_disk :: "'c io_ports \<Rightarrow> (nat \<Rightarrow> hd_i_struct) \<Rightarrow> (nat \<Rightarrow> nat \<Rightarrow> nat \<Rightarrow> u8) \<Rightarrow> ('c \<Rightarrow> bool) \<Rightarrow>
    (nat \<Rightarrow> nat \<Rightarrow> nat \<Rightarrow> 'c \<Rightarrow> bool) \<Rightarrow> bool" where
  "reads_disk P info content ready busy \<longleftrightarrow>
     takes_read P info ready busy \<and> delivers P content ready busy \<and>
     reports P ready (\<lambda>v. v AND 0xc0 = 0x40) \<and> (\<forall>d l n. reports P (busy d l (Suc n)) (\<lambda>v. v AND 0xF1 = 0x50))"

lemma takes_readD:
  assumes "takes_read P info ready busy" "ready c" "drive < 2" "0 < n" "n < 256" "cy < 65536"
    and "hn < head (info (unat drive))" "1 \<le> sec" "sec \<le> sect (info (unat drive))"
  shows "busy (unat drive) (chs_sector (info (unat drive)) cy hn sec) (unat n)
    (send P (task_file (info (unat drive)) drive n sec hn cy WIN_READ) c)"
  using assms(1)[unfolded takes_read_def, rule_format, of c drive n cy hn sec] assms(2-) by blast

lemmas deliversD = delivers_def[THEN iffD1, rule_format]

subsection \<open>Cylinder, head and sector\<close>

lemma chs_of_block:
  fixes block :: u32
  assumes "geometry d" and "unat block < unat (head d) * unat (sect d) * unat (cyl d)"
  defines "tr \<equiv> block div sect d"
  shows "chs_sector d (tr div head d) (tr mod head d) (block mod sect d + 1) = unat block"
    and "tr div head d < 65536" and "tr mod head d < head d" and "tr mod head d \<le> 15"
    and "1 \<le> block mod sect d + 1" and "block mod sect d + 1 \<le> sect d"
proof -
  have g: "0 < unat (head d)" "unat (head d) \<le> 16" "0 < unat (sect d)" "unat (sect d) \<le> 255" "unat (cyl d) \<le> 65536"
    using assms(1) by (auto simp: geometry_def word_less_nat_alt word_le_nat_alt)
  have mod: "unat (block mod sect d) < unat (sect d)" using g(3) by (simp add: unat_mod)
  have "unat (block mod sect d + 1) = Suc (unat (block mod sect d))"
    using mod g(4) of_nat_inverse[of "Suc (unat (block mod sect d))" "block mod sect d + 1"] by simp
  note sec = this
  show "1 \<le> block mod sect d + 1" "block mod sect d + 1 \<le> sect d" using mod by (simp_all add: word_le_nat_alt sec)
  show "chs_sector d (tr div head d) (tr mod head d) (block mod sect d + 1) = unat block"
    unfolding chs_sector_def sec tr_def by (simp add: unat_div unat_mod)
  show "tr mod head d < head d" using g(1) by (simp add: word_less_nat_alt unat_mod)
  then show "tr mod head d \<le> 15" using g(2) by (simp add: word_less_nat_alt word_le_nat_alt)
  have "unat block div (unat (sect d) * unat (head d)) < unat (cyl d)"
    using assms(2) g by (simp add: div_less_iff_less_mult ac_simps)
  then show "tr div head d < 65536" using g(5) unfolding tr_def
    by (simp add: word_less_nat_alt unat_div div_mult2_eq)
qed

subsection \<open>Steps\<close>

lemma poll_first: "0 < n \<Longrightarrow> ok (fst (inb P port c)) \<Longrightarrow> poll P port ok n c = (Some (n - 1), snd (inb P port c))"
  by (cases n; cases "inb P port c") simp_all

lemma hc_simps [simp]:
  "hc (upd_fs f s) = hc s" "hc (upd_ctl g s) = g (hc s)" "hc (SET_INTR x s) = hc s" "do_hd (SET_INTR x s) = x"
  "do_hd (upd_fs f s) = do_hd s" "do_hd (upd_ctl g s) = do_hd s" "hd_info (upd_fs f s) = hd_info s"
  "hd_info (SET_INTR x s) = hd_info s" "hc (upd_cur_rq h s) = hc s"
  "hf (upd_cur_rq h s) = upd_request (cur_rq s) h (hf s)"
  by (simp_all add: upd_fs_def upd_ctl_def SET_INTR_def upd_cur_rq_def)

lemma hd_out_ready:
  assumes "reads_disk P info content ready busy" "ready (hc s)" "drive \<le> 1" "hn \<le> 15"
  obtains c where "ready c"
    and "hd_out P drive n sec hn cy cmd intr s = Inr ((), upd_ctl (send P (task_file (hd_info s (unat drive)) drive n sec hn cy cmd))
      (SET_INTR (Some intr) (s\<lparr>hc := c\<rparr>)))"
proof -
  let ?c = "snd (inb P HD_STATUS (hc s))"
  have r: "fst (inb P HD_STATUS (hc s)) AND 0xc0 = 0x40" "ready ?c"
    using assms(1,2) by (auto simp: reads_disk_def reports_def)
  have "controller_ready P s = (99999, s\<lparr>hc := ?c\<rparr>)"
    using r(1) poll_first[of 99999 "\<lambda>v. v AND 0xc0 = 0x40" P HD_STATUS "hc s"] by (simp add: controller_ready_def at_port_def)
  then show thesis using assms(3,4) r(2) by (intro that[of ?c]) (simp_all add: hd_out_def retK_def not_less)
qed

text \<open>A command is given for the first request of the list.\<close>

lemma do_hd_request_reads:
  assumes ctl: "reads_disk P (hd_info s) content ready busy" "ready (hc s)"
    and q: "queue (hf s) 3 = q # qs" "r_dev (requests (hf s) q) = Some d" "MAJOR d = 3" "MINOR d < 5 * NR_HD s" "NR_HD s \<le> 2"
    and bh: "r_bh (requests (hf s) q) = Some b" "b_lock (bufs (hf s) b)"
    and rq: "r_cmd (requests (hf s) q) = READ" "r_nr_sectors (requests (hf s) q) = n" "0 < n" "n < 256"
    and block: "block = of_nat (r_sector (requests (hf s) q))" "block + 2 \<le> nr_sects (hd_part s (MINOR d))"
    and geo: "geometry g" "g = hd_info s (MINOR d div 5)" "l = block + start_sect (hd_part s (MINOR d))"
      "unat l < unat (head g) * unat (sect g) * unat (cyl g)"
    and fine: "\<not> need_reset s" "\<not> recalibrate s"
  obtains t where "do_hd_request P s = Inr ((), t)" "do_hd t = Some Read_intr" "busy (MINOR d div 5) (unat l) n (hc t)"
    "queue (hf t) = queue (hf s)" "requests (hf t) = requests (hf s)" "bufs (hf t) = bufs (hf s)"
proof -
  define drive :: u32 where "drive = of_nat (MINOR d div 5)"
  have d2: "MINOR d div 5 < 2" using q(4,5) by linarith
  have un: "unat drive = MINOR d div 5" unfolding drive_def using d2 by (simp add: unat_of_nat take_bit_nat_eq_self)
  then have dr: "drive \<le> 1" "drive < 2" using d2 by (simp_all add: word_le_nat_alt word_less_nat_alt)
  have gg: "hd_info s (unat drive) = g" using geo(2) un by simp
  have nn: "unat (of_nat n :: u32) = n" using rq(4) by (simp add: unat_of_nat take_bit_nat_eq_self)
  note chs = chs_of_block[OF geo(1,4)]
  have nz: "sect g \<noteq> 0" "head g \<noteq> 0" using geo(1) by (auto simp: geometry_def)
  have cur: "cur_rq s = q" using q(1) by (simp add: cur_rq_def)
  let ?out = "hd_out P drive (of_nat n) (l mod sect g + 1) (l div sect g mod head g) (l div sect g div head g) WIN_READ Read_intr s"
  from hd_out_ready[OF ctl dr(1) chs(4), of "of_nat n" "l mod sect g + 1" "l div sect g div head g" WIN_READ Read_intr]
  obtain c where c: "ready c" "?out = Inr ((), upd_ctl (send P (task_file g drive (of_nat n) (l mod sect g + 1)
      (l div sect g mod head g) (l div sect g div head g) WIN_READ)) (SET_INTR (Some Read_intr) (s\<lparr>hc := c\<rparr>)))"
    unfolding gg by metis
  let ?t = "upd_ctl (send P (task_file g drive (of_nat n) (l mod sect g + 1)
      (l div sect g mod head g) (l div sect g div head g) WIN_READ)) (SET_INTR (Some Read_intr) (s\<lparr>hc := c\<rparr>))"
  have "on_fs (check_request 3 q) s = Inr ((), s)"
    by (simp add: on_fs_def check_request_def q bh retK_def)
  moreover have "\<not> 5 * NR_HD s \<le> MINOR d" "\<not> nr_sects (hd_part s (MINOR d)) < block + 2" "\<not> idle_queue s"
    using q block(2) by (simp_all add: not_le not_less idle_queue_def)
  ultimately have "serve P s = serve_at P l drive s"
    unfolding serve_def cur Let_def by (simp only: bindK.simps cur q(2) option.sel if_False geo(3) drive_def block(1) simp_thms)
  also have "\<dots> = retK False ?t"
    using c(2) nz fine rq(1,2) by (simp add: serve_at_def Let_def gg cur retK_def)
  finally have "do_hd_request P s = Inr ((), ?t)" by (subst do_hd_request.simps) (simp add: retK_def)
  moreover have "busy (MINOR d div 5) (unat l) n (hc ?t)"
  proof -
    have "0 < (of_nat n :: u32)" "(of_nat n :: u32) < 256" using rq(3,4) nn by (simp_all add: word_less_nat_alt)
    moreover have "takes_read P (hd_info s) ready busy" using ctl(1) by (simp add: reads_disk_def)
    ultimately have "busy (unat drive) (chs_sector g (l div sect g div head g) (l div sect g mod head g) (l mod sect g + 1))
        (unat (of_nat n :: u32)) (hc ?t)"
      using takes_readD[of P "hd_info s" ready busy c drive "of_nat n" "l div sect g div head g" "l div sect g mod head g"
          "l mod sect g + 1"] c(1) dr(2) chs(2,3,5,6) unfolding gg by simp
    then show ?thesis unfolding chs(1) un nn .
  qed
  ultimately show thesis by (intro that[of ?t]) simp_all
qed

text \<open>The interrupt when a sector is there: its bytes go to the request's place in its buffer.\<close>

definition sector_stored :: "nat \<Rightarrow> nat \<Rightarrow> (nat \<Rightarrow> u8) \<Rightarrow> fsys \<Rightarrow> fsys" where
  "sector_stored q b f s =
     (let p = buf_pos (requests s q) in
      upd_request q (\<lambda>r. next_sector (r\<lparr>r_errors := 0\<rparr>))
       (upd_buf b (\<lambda>h. h\<lparr>b_data := (\<lambda>i. if p \<le> i \<and> i < p + 512 then f (i - p) else b_data h i)\<rparr>) s))"

lemma read_interrupt:
  assumes ctl: "reads_disk P info content ready busy" "busy d l (Suc n) (hc s)" "do_hd s = Some Read_intr"
    and q: "queue (hf s) 3 = q # qs" "r_bh (requests (hf s) q) = Some b" "r_nr_sectors (requests (hf s) q) = Suc n" "n < 2 ^ 31"
  obtains t f where "\<forall>i < 512. f i = content d l i" "if n = 0 then ready (hc t) else busy d (l + 1) n (hc t)"
    "requests (hf t) = requests (sector_stored q b f (hf s))" "bufs (hf t) = bufs (sector_stored q b f (hf s))"
    "queue (hf t) = queue (hf s)"
    "n \<noteq> 0 \<longrightarrow> hd_interrupt P s = Inr ((), t) \<and> do_hd t = Some Read_intr" "n = 0 \<longrightarrow> hd_interrupt P s = finish P t"
proof -
  have rep: "reports P (busy d l (Suc n)) (\<lambda>v. v AND 0xF1 = 0x50)" using ctl(1) by (simp add: reads_disk_def)
  define c1 where "c1 = outb P 0x20 0x20 (outb P 0xA0 0x20 (hc s))"
  have c1: "busy d l (Suc n) c1" using rep ctl(2) unfolding c1_def reports_def by blast
  obtain v c2 where v: "inb P HD_STATUS c1 = (v, c2)" by fastforce
  have c2: "v AND 0xF1 = 0x50" "busy d l (Suc n) c2" using rep c1 v unfolding reports_def by force+
  obtain ws c3 where ws: "port_read P HD_DATA 256 c2 = (ws, c3)" by fastforce
  have data: "\<forall>i < 512. bytes_of_words ws i = content d l i" "if n = 0 then ready c3 else busy d (l + 1) n c3"
  proof -
    have "case port_read P HD_DATA 256 c2 of (ws, c') \<Rightarrow>
        (\<forall>i < 512. bytes_of_words ws i = content d l i) \<and> (if n = 0 then ready c' else busy d (l + 1) n c')"
      by (rule deliversD) (use ctl(1) c2(2) in \<open>simp_all add: reads_disk_def\<close>)
    then show "\<forall>i < 512. bytes_of_words ws i = content d l i" "if n = 0 then ready c3 else busy d (l + 1) n c3"
      unfolding ws prod.case by blast+
  qed
  define u where "u = s\<lparr>hf := upd_kernel (\<lambda>k. k\<lparr>hd_timeout := 0\<rparr>) (hf s), do_hd := None, hc := c1\<rparr>"
  have start: "hd_interrupt P s = read_intr P u"
    by (simp add: hd_interrupt_def Let_def ctl(3) u_def c1_def upd_fs_def upd_ctl_def)
  have u: "hc u = c1" "queue (hf u) = queue (hf s)" "requests (hf u) = requests (hf s)" "bufs (hf u) = bufs (hf s)"
    by (simp_all add: u_def)
  define w where "w = upd_cur_rq (\<lambda>r. next_sector (r\<lparr>r_errors := 0\<rparr>))
    (upd_fs (store_bytes (requests (hf u) q) (buf_pos (requests (hf u) q)) 512 (bytes_of_words ws)) (u\<lparr>hc := c3\<rparr>))"
  have cur: "cur_rq x = q" if "queue (hf x) = queue (hf s)" for x :: "'a hsys" using that q(1) by (simp add: cur_rq_def)
  have hw: "hf w = sector_stored q b (bytes_of_words ws) (hf u)"
    by (simp add: w_def sector_stored_def Let_def store_bytes_def u(3) q(2) cur u(2))
  have w: "queue (hf w) = queue (hf s)" "requests (hf w) = requests (sector_stored q b (bytes_of_words ws) (hf s))"
    "bufs (hf w) = bufs (sector_stored q b (bytes_of_words ws) (hf s))"
    unfolding hw sector_stored_def Let_def upd_request_simps upd_buf_simps u(2-4) by (rule refl)+
  have hcw: "hc w = c3" by (simp add: w_def)
  have left: "r_nr_sectors (requests (hf w) q) = n"
    using q(3,4) by (simp add: w(2) sector_stored_def Let_def next_sector_def)
  have idle: "\<not> idle_queue (u\<lparr>hc := c2\<rparr>)" using q(1) u(2) by (simp add: idle_queue_def)
  have rd: "read_intr P u = (if n \<noteq> 0 then retK () (SET_INTR (Some Read_intr) w) else finish P w)"
  proof -
    have win: "win_result P u = (False, u\<lparr>hc := c2\<rparr>)" using c2(1) by (simp add: win_result_def at_port_def u(1) v)
    have rd: "at_port (port_read P HD_DATA 256) (u\<lparr>hc := c2\<rparr>) = (ws, u\<lparr>hc := c3\<rparr>)" by (simp add: at_port_def ws)
    have q': "cur_rq (u\<lparr>hc := c3\<rparr>) = q" "hf (u\<lparr>hc := c3\<rparr>) = hf u" using cur[of "u\<lparr>hc := c3\<rparr>"] u(2) by simp_all
    show ?thesis
      by (simp only: read_intr_def if_good_def win rd Let_def prod.case if_False with_current_def idle q' w_def[symmetric] cur[OF w(1)] left)
  qed
  show thesis
  proof (cases "n = 0")
    case True
    then show thesis using data w hcw rd start by (intro that[of "bytes_of_words ws" w]) simp_all
  next
    case False
    then show thesis using data w hcw rd start by (intro that[of "bytes_of_words ws" "SET_INTR (Some Read_intr) w"]) (simp_all add: retK_def)
  qed
qed

subsection \<open>A block is read\<close>

definition wants_block :: "nat \<Rightarrow> nat \<Rightarrow> dev \<Rightarrow> 'c hsys \<Rightarrow> bool" where
  "wants_block q b d s \<longleftrightarrow>
     (let r = requests (hf s) q in
      r_dev r = Some d \<and> MAJOR d = 3 \<and> r_cmd r = READ \<and> r_nr_sectors r = 2 \<and> r_bh r = Some b \<and> b_lock (bufs (hf s) b))"

definition drive_of :: "dev \<Rightarrow> nat" where
  "drive_of d = MINOR d div 5"

definition first_sector :: "nat \<Rightarrow> dev \<Rightarrow> 'c hsys \<Rightarrow> u32" where
  "first_sector q d s = of_nat (r_sector (requests (hf s) q)) + start_sect (hd_part s (MINOR d))"

definition on_partition :: "nat \<Rightarrow> dev \<Rightarrow> 'c hsys \<Rightarrow> bool" where
  "on_partition q d s \<longleftrightarrow>
     MINOR d < 5 * NR_HD s \<and> NR_HD s \<le> 2 \<and>
     of_nat (r_sector (requests (hf s) q)) + 2 \<le> nr_sects (hd_part s (MINOR d)) \<and>
     (let g = hd_info s (drive_of d) in
      geometry g \<and> unat (first_sector q d s) < unat (head g) * unat (sect g) * unat (cyl g))"

text \<open>C6. The hard disk's driver reads a block. With a controller that behaves as documented, and for a first request
  that reads a locked buffer and lies in its partition, \<^verbatim>\<open>do_hd_request\<close> gives the command; the first interrupt
  takes over one sector and waits for the next, and the second one takes over the other and ends the request: the
  buffer, unlocked and up to date, then holds the two sectors of the disk that follow the start of the partition by the
  request's number, no other buffer has changed, the request is free again, and the driver goes on with the next
  request while the controller is ready for a command.\<close>

theorem hd_reads_block:
  assumes "reads_disk P (hd_info s) content ready busy" and "ready (hc s)" and "\<not> need_reset s" and "\<not> recalibrate s"
    and "queue (hf s) 3 = q # qs" and "wants_block q b d s" and "on_partition q d s"
  shows "\<exists>s1 s2 t. do_hd_request P s = Inr ((), s1) \<and> hd_interrupt P s1 = Inr ((), s2) \<and>
    hd_interrupt P s2 = do_hd_request P t \<and> queue (hf t) 3 = qs \<and> r_dev (requests (hf t) q) = None \<and> ready (hc t) \<and>
    b_uptodate (bufs (hf t) b) \<and> \<not> b_lock (bufs (hf t) b) \<and> (\<forall>c. c \<noteq> b \<longrightarrow> bufs (hf t) c = bufs (hf s) c) \<and>
    (\<forall>i < 1024. b_data (bufs (hf t) b) i = content (drive_of d) (unat (first_sector q d s) + i div 512) (i mod 512))"
proof -
  note w = assms(6)[unfolded wants_block_def Let_def] and p = assms(7)[unfolded on_partition_def Let_def]
  define l where "l = unat (first_sector q d s)"
  obtain s1 where s1: "do_hd_request P s = Inr ((), s1)" "do_hd s1 = Some Read_intr" "busy (drive_of d) l 2 (hc s1)"
    "queue (hf s1) = queue (hf s)" "requests (hf s1) = requests (hf s)" "bufs (hf s1) = bufs (hf s)"
    by (rule do_hd_request_reads[OF assms(1,2,5), of d b 2 "of_nat (r_sector (requests (hf s) q))"
        "hd_info s (drive_of d)" "first_sector q d s"])
      (use w p assms(3,4) in \<open>simp_all add: first_sector_def drive_of_def l_def\<close>)
  have two: "busy (drive_of d) l (Suc 1) (hc s1)" "r_nr_sectors (requests (hf s1) q) = Suc 1"
    using s1(3,5) w by (simp_all add: numeral_2_eq_2)
  obtain s2 f where f: "\<forall>i < 512. f i = content (drive_of d) l i"
    and s2: "busy (drive_of d) (l + 1) 1 (hc s2)" "requests (hf s2) = requests (sector_stored q b f (hf s1))"
      "bufs (hf s2) = bufs (sector_stored q b f (hf s1))" "queue (hf s2) = queue (hf s1)"
      "hd_interrupt P s1 = Inr ((), s2)" "do_hd s2 = Some Read_intr"
    by (rule read_interrupt[OF assms(1) two(1) s1(2), of q qs b]) (use w s1 two(2) assms(5) in simp_all)
  have r2: "requests (hf s2) q = (next_sector ((requests (hf s) q)\<lparr>r_errors := 0\<rparr>))"
    by (simp add: s2(2) sector_stored_def Let_def s1(5))
  have b2: "r_bh (requests (hf s2) q) = Some b" "r_nr_sectors (requests (hf s2) q) = Suc 0"
    using w by (simp_all add: r2 next_sector_def)
  obtain u g where g: "\<forall>i < 512. g i = content (drive_of d) (l + 1) i"
    and u: "ready (hc u)" "requests (hf u) = requests (sector_stored q b g (hf s2))"
      "bufs (hf u) = bufs (sector_stored q b g (hf s2))" "queue (hf u) = queue (hf s2)" "hd_interrupt P s2 = finish P u"
    by (rule read_interrupt[OF assms(1), of "drive_of d" "l + 1" 0 s2 q qs b]) (use b2 s2 s1(4) assms(5) in simp_all)
  have q3: "queue (hf u) 3 = q # qs" using u(4) s2(4) s1(4) assms(5) by simp
  have bh: "r_bh (requests (hf u) q) = Some b" by (simp add: u(2) sector_stored_def Let_def next_sector_def b2)
  have pos: "buf_pos (requests (hf s1) q) = 0" "buf_pos (requests (hf s2) q) = 512"
    using w b2 by (simp_all add: buf_pos_def sectors_at_start_def s1(5))
  have other: "bufs (hf u) c = bufs (hf s) c" if "c \<noteq> b" for c
    using that by (simp add: u(3) s2(3) sector_stored_def Let_def s1(6))
  have data: "b_data (bufs (hf u) b) i = content (drive_of d) (l + i div 512) (i mod 512)" if i: "i < 1024" for i
  proof (cases "i < 512")
    case True
    then show ?thesis using f by (simp add: u(3) s2(3) sector_stored_def Let_def pos)
  next
    case False
    then have "i div 512 = 1" "i mod 512 = i - 512" using i by (simp_all add: div_nat_eqI mod_if)
    then show ?thesis using False i g by (simp add: u(3) sector_stored_def Let_def pos)
  qed
  let ?t = "upd_fs (end_request 3 True) u"
  have "queue (hf ?t) 3 = qs" "r_dev (requests (hf ?t) q) = None" "ready (hc ?t)"
    using q3 u(1) by (simp_all add: end_request_queue end_request_requests)
  moreover have "bufs (hf ?t) = (bufs (hf u))(b := (bufs (hf u) b)\<lparr>b_uptodate := True, b_lock := False\<rparr>)"
    using end_request_bufs[OF q3 bh, of True] by simp
  ultimately show ?thesis using s1(1) s2(5) u(5) other data unfolding finish_def l_def
    by - (rule exI[of _ s1], rule exI[of _ s2], rule exI[of _ ?t], simp)
qed

subsection \<open>A sample\<close>

text \<open>
  A controller with two drives of 4 heads and 17 sectors: its registers, the drive and the sector it is at, the sectors
  it still has to deliver, and the words of this one that have been read.
\<close>

type_synonym sim = "(u16 \<Rightarrow> u8) \<times> nat \<times> nat \<times> nat \<times> nat"

definition sim_byte :: "nat \<Rightarrow> nat \<Rightarrow> nat \<Rightarrow> u8" where
  "sim_byte d l i = of_nat (7 * d + 3 * l + i)"

definition sim_word :: "nat \<Rightarrow> nat \<Rightarrow> nat \<Rightarrow> u16" where
  "sim_word d l k = ucast (sim_byte d l (2 * k)) OR push_bit 8 (ucast (sim_byte d l (2 * k + 1)))"

fun sim_in :: "u16 \<Rightarrow> sim \<Rightarrow> u8 \<times> sim" where
  "sim_in port (r, c) = (if port = HD_STATUS then 0x50 else r port, (r, c))"

fun sim_out :: "u16 \<Rightarrow> u8 \<Rightarrow> sim \<Rightarrow> sim" where
  "sim_out port v (r, d, l, n, k) =
     (if port = HD_STATUS \<and> v = 0x20
      then (r, unat (drop_bit 4 (r HD_CURRENT) AND 1),
            ((unat (r HD_LCYL) + 256 * unat (r HD_HCYL)) * 4 + unat (r HD_CURRENT AND 15)) * 17 + (unat (r HD_SECTOR) - 1),
            unat (r HD_NSECTOR), 0)
      else (r(port := v), d, l, n, k))"

fun sim_inw :: "u16 \<Rightarrow> sim \<Rightarrow> u16 \<times> sim" where
  "sim_inw port (r, d, l, n, k) =
     (sim_word d l k, if k = 255 then (r, d, l + 1, n - 1, 0) else (r, d, l, n, k + 1))"

definition sim_ports :: "sim io_ports" where
  "sim_ports = \<lparr>inb = sim_in, outb = sim_out, inw = sim_inw, outw = (\<lambda>_ _ c. c)\<rparr>"

definition sim_drive :: hd_i_struct where
  "sim_drive = \<lparr>head = 4, sect = 17, cyl = 615, wpcom = 300, lzone = 615, ctl = 0\<rparr>"

definition sim_ready :: "sim \<Rightarrow> bool" where
  "sim_ready c \<longleftrightarrow> fst (snd (snd (snd c))) = 0"

definition sim_busy :: "nat \<Rightarrow> nat \<Rightarrow> nat \<Rightarrow> sim \<Rightarrow> bool" where
  "sim_busy d l n c \<longleftrightarrow> snd c = (d, l, n, 0)"

lemma sim_bytes: "i < 512 \<Longrightarrow> bytes_of_words (map (sim_word d l) [0..<256]) i = sim_byte d l i"
proof -
  assume "i < 512"
  have lo: "ucast (ucast a OR push_bit 8 (ucast b) :: u16) = a" and hi: "ucast (drop_bit 8 (ucast a) OR drop_bit 8 (push_bit 8 (ucast b)) :: u16) = b"
    for a b :: u8
    by (rule bit_word_eqI; auto simp: bit_simps dest: bit_imp_le_length)+
  have "i div 2 < 256" using \<open>i < 512\<close> by simp
  then show ?thesis unfolding bytes_of_words_def Let_def by (auto simp: sim_word_def lo hi)
qed

lemma sim_read:
  "k < 256 \<Longrightarrow> port_read sim_ports HD_DATA (Suc k) (r, d, l, Suc n, 255 - k) = (map (sim_word d l) [255 - k..<256], (r, d, l + 1, n, 0))"
proof (induction k)
  case (Suc k)
  have "255 - Suc k \<noteq> 255" "Suc (255 - Suc k) = 255 - k" using Suc.prems by auto
  moreover have "[255 - Suc k..<256] = (255 - Suc k) # [255 - k..<256]" using Suc.prems calculation(2) by (simp add: upt_conv_Cons)
  moreover have "port_read sim_ports HD_DATA (Suc k) (r, d, l, Suc n, 255 - k) = (map (sim_word d l) [255 - k..<256], (r, d, l + 1, n, 0))"
    by (rule Suc.IH) (use Suc.prems in simp)
  ultimately show ?case unfolding port_read.simps(2)[of sim_ports HD_DATA "Suc k"] by (simp add: sim_ports_def)
qed (simp add: sim_ports_def)

lemma sim_take:
  fixes drive n cy hn sec :: u32
  assumes "drive < 2" "n < 256" "cy < 65536" "hn < 4" "sec \<le> 17"
  shows "sim_busy (unat drive) (chs_sector sim_drive cy hn sec) (unat n) (send sim_ports (task_file sim_drive drive n sec hn cy WIN_READ) c)"
proof -
  obtain r d l m k where c: "c = (r, d, l, m, k)" by (cases c) auto
  have small: "unat (ucast x :: u8) = unat x" if "unat x < 256" for x :: u32
    using that by (simp add: unsigned_ucast_eq take_bit_nat_eq_self)
  have cy: "unat (ucast cy :: u8) + 256 * unat (ucast (drop_bit 8 cy) :: u8) = unat cy"
  proof -
    have "unat cy div 256 < 256" using assms(3) by (simp add: word_less_nat_alt)
    then have "unat (ucast (drop_bit 8 cy) :: u8) = unat cy div 256"
      by (simp add: unsigned_ucast_eq unsigned_drop_bit_eq drop_bit_eq_div take_bit_eq_mod unat_div)
    then show ?thesis by (simp add: unsigned_ucast_eq take_bit_eq_mod)
  qed
  have n: "unat (ucast n :: u8) = unat n" and sec: "unat (ucast sec :: u8) = unat sec"
    using assms(2,5) by (auto intro!: small simp: word_less_nat_alt word_le_nat_alt)
  have "drive = 0 \<or> drive = 1"
    using assms(1) by (auto simp: word_less_nat_alt word_unat_eq_iff)
  moreover have "hn = 0 \<or> hn = 1 \<or> hn = 2 \<or> hn = 3"
    using assms(4) by (auto simp: word_less_nat_alt word_unat_eq_iff)
  ultimately have "unat (drop_bit 4 (ucast (0xA0 OR push_bit 4 drive OR hn) :: u8) AND 1) = unat drive \<and>
      unat ((ucast (0xA0 OR push_bit 4 drive OR hn) :: u8) AND 15) = unat hn"
    by auto
  then show ?thesis unfolding c
    by (simp add: send_def task_file_def sim_ports_def sim_busy_def chs_sector_def n sec cy) (simp add: sim_drive_def)
qed

lemma sim_reads: "reads_disk sim_ports (\<lambda>_. sim_drive) sim_byte sim_ready sim_busy"
proof -
  have "takes_read sim_ports (\<lambda>_. sim_drive) sim_ready sim_busy"
    unfolding takes_read_def using sim_take by (simp add: sim_drive_def)
  moreover have "delivers sim_ports sim_byte sim_ready sim_busy"
    unfolding delivers_def
  proof (intro allI impI)
    fix d l n c
    assume "sim_busy d l (Suc n) c"
    then obtain r where c: "c = (r, d, l, Suc n, 0)" by (cases c) (simp add: sim_busy_def)
    have "port_read sim_ports HD_DATA 256 c = (map (sim_word d l) [0..<256], (r, d, l + 1, n, 0))"
      using sim_read[of 255 r d l n] unfolding c by simp
    then show "case port_read sim_ports HD_DATA 256 c of (ws, c') \<Rightarrow>
        (\<forall>i < 512. bytes_of_words ws i = sim_byte d l i) \<and> (if n = 0 then sim_ready c' else sim_busy d (l + 1) n c')"
      using sim_bytes[of _ d l] by (simp add: sim_ready_def sim_busy_def)
  qed
  moreover have "reports sim_ports sim_ready ok" "reports sim_ports (sim_busy d l n) ok" if "ok 0x50" for ok d l n
    using that by (auto simp: reports_def sim_ports_def sim_ready_def sim_busy_def)
  ultimately show ?thesis by (simp add: reads_disk_def)
qed

definition hsys0 :: "sim hsys" where
  "hsys0 = \<lparr>hf = fsys0\<lparr>queue := (\<lambda>_. [])(3 := [5]), requests := (\<lambda>_. request0)(5 := request0\<lparr>r_dev := Some 0x301, r_sector := 40, r_bh := Some 9\<rparr>),
       bufs := (\<lambda>_. buf0\<lparr>b_lock := True\<rparr>)\<rparr>,
     hc = (\<lambda>_. 0, 0, 0, 0, 0), hd_info = (\<lambda>_. sim_drive), NR_HD = 1, hd_part = (\<lambda>_. \<lparr>start_sect = 17, nr_sects = 1000\<rparr>),
     do_hd = None, recalibrate = False, need_reset = False, reset_i = 0, callable = False\<rparr>"

theorem hd_reads_block_witness:
  "\<exists>s1 s2 t. do_hd_request sim_ports hsys0 = Inr ((), s1) \<and> hd_interrupt sim_ports s1 = Inr ((), s2) \<and>
     hd_interrupt sim_ports s2 = do_hd_request sim_ports t \<and> b_uptodate (bufs (hf t) 9) \<and>
     b_data (bufs (hf t) 9) 600 = sim_byte 0 58 88"
proof -
  have d: "MAJOR 0x301 = 3" "MINOR 0x301 = 1" by (simp_all add: MAJOR_def MINOR_def)
  have w: "wants_block 5 9 0x301 hsys0" by (simp add: wants_block_def hsys0_def request0_def buf0_def d)
  have f: "first_sector 5 0x301 hsys0 = 57" by (simp add: first_sector_def hsys0_def)
  have p: "on_partition 5 0x301 hsys0"
    unfolding on_partition_def f by (simp add: hsys0_def d drive_of_def geometry_def sim_drive_def)
  have info: "hd_info hsys0 = (\<lambda>_. sim_drive)" and r: "sim_ready (hc hsys0)" by (simp_all add: hsys0_def sim_ready_def)
  have q: "queue (hf hsys0) 3 = 5 # []" "\<not> need_reset hsys0" "\<not> recalibrate hsys0" by (simp_all add: hsys0_def)
  from hd_reads_block[OF sim_reads[folded info] r q(2,3,1) w p, unfolded f]
  obtain s1 s2 t where t: "do_hd_request sim_ports hsys0 = Inr ((), s1)" "hd_interrupt sim_ports s1 = Inr ((), s2)"
      "hd_interrupt sim_ports s2 = do_hd_request sim_ports t" "b_uptodate (bufs (hf t) 9)"
      "\<forall>i < 1024. b_data (bufs (hf t) 9) i = sim_byte (drive_of 0x301) (unat (57 :: u32) + i div 512) (i mod 512)"
    by blast
  have "drive_of 0x301 = 0" by (simp add: drive_of_def d)
  with t(5) have "b_data (bufs (hf t) 9) 600 = sim_byte 0 58 88" by simp
  with t show ?thesis by blast
qed

end
