(* ===== verification/Floppy.thy ===== *)
theory Floppy
  imports Io_Ports
begin

section \<open>The floppy disks\<close>

text \<open>
  \<^verbatim>\<open>kernel/blk_drv/floppy.c\<close>, with \<^verbatim>\<open>floppy_on\<close> of
  \<^verbatim>\<open>kernel/sched.c\<close> and the entry \<^verbatim>\<open>_floppy_interrupt\<close> of
  \<^verbatim>\<open>kernel/sys_call.s\<close>. A request waits for the motor (a timer), specifies the drive, seeks, and transfers a
  block by DMA; each step ends with an interrupt whose routine \<open>do_floppy\<close> says. Calls of
  \<^verbatim>\<open>do_fd_request\<close> under \<^verbatim>\<open>if (reset)\<close> only reset the controller (\<open>restart\<close>), so the routines
  do not call each other in circles. The DMA controller moves the bytes between steps, to and from the buffer
  or the bounce buffer \<open>tmp_floppy_area\<close>. \<open>addr_of\<close> is a parameter: where the data of the buffers lie.
\<close>

subsection \<open>Data\<close>

record floppy_struct =
  fl_size :: nat
  fl_sect :: nat
  fl_head :: nat
  fl_track :: nat
  fl_stretch :: nat
  fl_gap :: u8
  fl_rate :: u8
  fl_spec1 :: u8

definition fl_type :: "nat \<Rightarrow> nat \<Rightarrow> nat \<Rightarrow> nat \<Rightarrow> nat \<Rightarrow> u8 \<Rightarrow> u8 \<Rightarrow> u8 \<Rightarrow> floppy_struct" where
  "fl_type sz sc hn tr st gap rate spec =
     \<lparr>fl_size = sz, fl_sect = sc, fl_head = hn, fl_track = tr, fl_stretch = st, fl_gap = gap, fl_rate = rate, fl_spec1 = spec\<rparr>"

definition floppy_type :: "floppy_struct list" where
  "floppy_type =
     [fl_type 0 0 0 0 0 0 0 0,
      fl_type 720 9 2 40 0 0x2A 2 0xDF,
      fl_type 2400 15 2 80 0 0x1B 0 0xDF,
      fl_type 720 9 2 40 1 0x2A 2 0xDF,
      fl_type 1440 9 2 80 0 0x2A 2 0xDF,
      fl_type 720 9 2 40 1 0x23 1 0xDF,
      fl_type 1440 9 2 80 0 0x23 1 0xDF,
      fl_type 2880 18 2 80 0 0x1B 0 0xCF]"

datatype fl_intr = Rw_interrupt | Seek_interrupt | Recal_interrupt | Reset_interrupt

datatype fl_timer = Floppy_on_interrupt | Transfer

record 'c flsys =
  ff :: fsys
  fc :: 'c
  fl_recalibrate :: bool
  fl_reset :: bool
  seek :: bool
  reply_buffer :: "nat \<Rightarrow> u8"
  cur_spec1 :: int
  cur_rate :: int
  floppy :: nat
  current_drive :: u8
  sector :: u8
  fhead :: u8
  track :: u8
  seek_track :: u8
  current_track :: u8
  command :: u8
  wait_on_floppy_select :: "nat option"
  do_floppy :: "fl_intr option"
  tmp_floppy_area :: "nat \<Rightarrow> u8"

type_synonym ('c, 'a) flres = "('c flsys, 'a) res"

abbreviation (input) FD_STATUS :: u16 where "FD_STATUS \<equiv> 0x3f4"
abbreviation (input) FD_DATA :: u16 where "FD_DATA \<equiv> 0x3f5"
abbreviation (input) FD_DOR :: u16 where "FD_DOR \<equiv> 0x3f2"
abbreviation (input) FD_DIR :: u16 where "FD_DIR \<equiv> 0x3f7"
abbreviation (input) FD_DCR :: u16 where "FD_DCR \<equiv> 0x3f7"

abbreviation (input) FD_RECALIBRATE :: u8 where "FD_RECALIBRATE \<equiv> 0x07"
abbreviation (input) FD_SEEK :: u8 where "FD_SEEK \<equiv> 0x0F"
abbreviation (input) FD_READ :: u8 where "FD_READ \<equiv> 0xE6"
abbreviation (input) FD_WRITE :: u8 where "FD_WRITE \<equiv> 0xC5"
abbreviation (input) FD_SENSEI :: u8 where "FD_SENSEI \<equiv> 0x08"
abbreviation (input) FD_SPECIFY :: u8 where "FD_SPECIFY \<equiv> 0x03"
abbreviation (input) DMA_READ :: u8 where "DMA_READ \<equiv> 0x46"
abbreviation (input) DMA_WRITE :: u8 where "DMA_WRITE \<equiv> 0x4A"

abbreviation (input) FL_MAX_ERRORS :: nat where "FL_MAX_ERRORS \<equiv> 8"
abbreviation (input) MAX_REPLIES :: nat where "MAX_REPLIES \<equiv> 7"

definition ff_upd :: "(fsys \<Rightarrow> fsys) \<Rightarrow> 'c flsys \<Rightarrow> 'c flsys" where
  "ff_upd f s = s\<lparr>ff := f (ff s)\<rparr>"

definition fc_upd :: "('c \<Rightarrow> 'c) \<Rightarrow> 'c flsys \<Rightarrow> 'c flsys" where
  "fc_upd f s = s\<lparr>fc := f (fc s)\<rparr>"

definition at_ff :: "(fsys \<Rightarrow> 'a fres) \<Rightarrow> 'c flsys \<Rightarrow> ('c, 'a) flres" where
  "at_ff f s = (case f (ff s) of Inl (e, t) \<Rightarrow> Inl (e, s\<lparr>ff := t\<rparr>) | Inr (x, t) \<Rightarrow> Inr (x, s\<lparr>ff := t\<rparr>))"

definition at_kern :: "(kernel \<Rightarrow> 'a pres) \<Rightarrow> 'c flsys \<Rightarrow> ('c, 'a) flres" where
  "at_kern f = at_ff (\<lambda>t. case f (kern t) of Inl (e, k) \<Rightarrow> Inl (e, t\<lparr>kern := k\<rparr>) | Inr (x, k) \<Rightarrow> Inr (x, t\<lparr>kern := k\<rparr>))"

definition at_fc :: "('c \<Rightarrow> 'a \<times> 'c) \<Rightarrow> 'c flsys \<Rightarrow> 'a \<times> 'c flsys" where
  "at_fc f s = (case f (fc s) of (x, c) \<Rightarrow> (x, s\<lparr>fc := c\<rparr>))"

text \<open>\<open>CURRENT\<close>: the first request of major number 2.\<close>

definition fl_rq :: "'c flsys \<Rightarrow> nat" where
  "fl_rq s = hd (queue (ff s) 2)"

abbreviation (input) FL_CURRENT :: "'c flsys \<Rightarrow> request" where
  "FL_CURRENT s \<equiv> requests (ff s) (fl_rq s)"

definition with_fl_current :: "('c flsys \<Rightarrow> ('c, 'a) flres) \<Rightarrow> 'c flsys \<Rightarrow> ('c, 'a) flres" where
  "with_fl_current f s = (if queue (ff s) 2 = [] then stopK (Wild ''CURRENT is null'') s else f s)"

definition floppy_now :: "'c flsys \<Rightarrow> floppy_struct" where
  "floppy_now s = floppy_type ! floppy s"

abbreviation (input) DOR :: "'c flsys \<Rightarrow> u8" where
  "DOR s \<equiv> current_DOR (kern (ff s))"

subsection \<open>Selecting a drive\<close>

definition floppy_deselect :: "u8 \<Rightarrow> 'c flsys \<Rightarrow> 'c flsys" where
  "floppy_deselect nr s =
     (let s = (if nr \<noteq> DOR s AND 3 then ff_upd (fs_say ''floppy_deselect: drive not selected'') s else s)
      in ff_upd (\<lambda>t. wake (wait_on_floppy_select s) (upd_kernel (\<lambda>k. k\<lparr>fd_selected := False\<rparr>) t)) s)"

text \<open>Both loops sleep; \<open>n\<close> is how often they may.\<close>

primrec floppy_on :: "nat \<Rightarrow> env \<Rightarrow> nat \<Rightarrow> 'c flsys \<Rightarrow> ('c, unit) flres" where
  "floppy_on 0 E nr s = stopK (Sleeps ''floppy_on'') s"
| "floppy_on (Suc n) E nr s =
     bindK (at_kern (ticks_to_floppy_on nr) s) (\<lambda>ticks s.
       if ticks = 0 then retK () s else bindK (at_ff (sleep_once E) s) (\<lambda>_. floppy_on n E nr))"

primrec floppy_change :: "nat \<Rightarrow> env \<Rightarrow> 'c io_ports \<Rightarrow> nat \<Rightarrow> 'c flsys \<Rightarrow> ('c, int) flres" where
  "floppy_change 0 E P nr s = stopK (Sleeps ''floppy_change'') s"
| "floppy_change (Suc n) E P nr s =
     bindK (floppy_on (rounds E) E nr s) (\<lambda>_ s.
       let other = (\<lambda>t. unat (current_DOR (kern t) AND 3) \<noteq> nr) in
       bindK (at_ff (sleep_while E ''floppy_change'' (\<lambda>t. other t \<and> fd_selected (kern t))) s) (\<lambda>_ s.
         if other (ff s) then floppy_change n E P nr s
         else let (v, s) = at_fc (inb P FD_DIR) s in
           retK (if v AND 0x80 \<noteq> 0 then 1 else 0) (ff_upd (upd_kernel (floppy_off nr)) s)))"

subsection \<open>The controller\<close>

text \<open>The bytes written to the ports of the DMA controller: the address goes out in three parts.\<close>

definition rq_addr :: "(nat \<Rightarrow> u32) \<Rightarrow> request \<Rightarrow> u32" where
  "rq_addr addr_of r = (case r_bh r of Some b \<Rightarrow> addr_of b | None \<Rightarrow> r_page r)"

definition needs_copy :: "(nat \<Rightarrow> u32) \<Rightarrow> request \<Rightarrow> bool" where
  "needs_copy addr_of r \<longleftrightarrow> 0x100000 \<le> rq_addr addr_of r"

definition dma_bytes :: "u8 \<Rightarrow> u32 \<Rightarrow> (u16 \<times> u8) list" where
  "dma_bytes cmd addr =
     (let mode = (if cmd = FD_READ then DMA_READ else DMA_WRITE) in
      [(10, 4 OR 2), (12, mode), (11, mode), (4, ucast addr), (4, ucast (drop_bit 8 addr)),
       (0x81, ucast (drop_bit 16 addr)), (5, 0xff), (5, 3), (10, 2)])"

definition setup_DMA :: "(nat \<Rightarrow> u32) \<Rightarrow> u32 \<Rightarrow> 'c io_ports \<Rightarrow> 'c flsys \<Rightarrow> 'c flsys" where
  "setup_DMA addr_of tmp P s =
     (let r = FL_CURRENT s;
          s = (if needs_copy addr_of r \<and> command s = FD_WRITE
               then s\<lparr>tmp_floppy_area := (\<lambda>i. if i < 1024 then load_byte r (ff s) i else tmp_floppy_area s i)\<rparr> else s);
          addr = (if needs_copy addr_of r then tmp else rq_addr addr_of r)
      in fc_upd (fold (\<lambda>(port, v). outb P port v) (dma_bytes (command s) addr)) s)"

definition output_byte :: "'c io_ports \<Rightarrow> u8 \<Rightarrow> 'c flsys \<Rightarrow> 'c flsys" where
  "output_byte P b s =
     (if fl_reset s then s
      else case at_fc (poll P FD_STATUS (\<lambda>v. v AND 0xC0 = 0x80) 10000) s of
        (Some _, s) \<Rightarrow> fc_upd (outb P FD_DATA b) s
      | (None, s) \<Rightarrow> ff_upd (fs_say ''Unable to send byte to FDC'') (s\<lparr>fl_reset := True\<rparr>))"

definition output_bytes :: "'c io_ports \<Rightarrow> u8 list \<Rightarrow> 'c flsys \<Rightarrow> 'c flsys" where
  "output_bytes P bs s = fold (output_byte P) bs s"

text \<open>The loop of \<^verbatim>\<open>result\<close>: \<open>i\<close> replies have been read, and \<open>n\<close> looks at the status are left.\<close>

primrec result_loop :: "'c io_ports \<Rightarrow> nat \<Rightarrow> nat \<Rightarrow> 'c flsys \<Rightarrow> nat option \<times> 'c flsys" where
  "result_loop P 0 i s = (None, s)"
| "result_loop P (Suc n) i s =
     (let (v, s) = at_fc (inb P FD_STATUS) s in
      if v AND 0xD0 = 0x80 then (Some i, s)
      else if v AND 0xD0 = 0xD0
      then if MAX_REPLIES \<le> i then (None, s)
           else let (b, s) = at_fc (inb P FD_DATA) s in
             result_loop P n (i + 1) (s\<lparr>reply_buffer := (reply_buffer s)(i := b)\<rparr>)
      else result_loop P n i s)"

definition result :: "'c io_ports \<Rightarrow> 'c flsys \<Rightarrow> int \<times> 'c flsys" where
  "result P s =
     (if fl_reset s then (- 1, s)
      else case result_loop P 10000 0 s of
        (Some i, s) \<Rightarrow> (int i, s)
      | (None, s) \<Rightarrow> (- 1, ff_upd (fs_say ''Getstatus times out'') (s\<lparr>fl_reset := True\<rparr>)))"

abbreviation (input) ST0 :: "'c flsys \<Rightarrow> u8" where "ST0 s \<equiv> reply_buffer s 0"
abbreviation (input) ST1 :: "'c flsys \<Rightarrow> u8" where "ST1 s \<equiv> reply_buffer s 1"
abbreviation (input) ST2 :: "'c flsys \<Rightarrow> u8" where "ST2 s \<equiv> reply_buffer s 2"

definition head_drive :: "'c flsys \<Rightarrow> u8" where
  "head_drive s = push_bit 2 (fhead s) OR current_drive s"

subsection \<open>Resets\<close>

definition reset_floppy :: "'c io_ports \<Rightarrow> 'c flsys \<Rightarrow> 'c flsys" where
  "reset_floppy P s =
     (let s = s\<lparr>fl_reset := False, cur_spec1 := - 1, cur_rate := - 1, fl_recalibrate := True\<rparr>;
          s = (ff_upd (fs_say ''Reset-floppy called'') s)\<lparr>do_floppy := Some Reset_interrupt\<rparr>
      in fc_upd (outb P FD_DOR (DOR s)) (fc_upd (outb P FD_DOR (DOR s AND NOT 4)) s))"

text \<open>\<^verbatim>\<open>do_fd_request\<close> when a reset is due.\<close>

definition restart :: "'c io_ports \<Rightarrow> 'c flsys \<Rightarrow> 'c flsys" where
  "restart P s = reset_floppy P (s\<lparr>seek := False\<rparr>)"

definition if_reset :: "'c io_ports \<Rightarrow> 'c flsys \<Rightarrow> 'c flsys" where
  "if_reset P s = (if fl_reset s then restart P s else s)"

definition recalibrate_floppy :: "'c io_ports \<Rightarrow> 'c flsys \<Rightarrow> 'c flsys" where
  "recalibrate_floppy P s =
     (let s = s\<lparr>fl_recalibrate := False, current_track := 0, do_floppy := Some Recal_interrupt\<rparr>
      in if_reset P (output_bytes P [FD_RECALIBRATE, head_drive s] s))"

subsection \<open>A transfer\<close>

text \<open>
  \<open>setup_rw_floppy\<close> and what leads to it look at \<open>CURRENT\<close>, so there must be a request; \<open>tmp\<close> is the address of
  \<^verbatim>\<open>tmp_floppy_area\<close>.
\<close>

definition rw_bytes :: "'c flsys \<Rightarrow> u8 list" where
  "rw_bytes s =
     [command s, head_drive s, track s, fhead s, sector s, 2, of_nat (fl_sect (floppy_now s)), fl_gap (floppy_now s), 0xFF]"

definition setup_rw_floppy :: "(nat \<Rightarrow> u32) \<Rightarrow> u32 \<Rightarrow> 'c io_ports \<Rightarrow> 'c flsys \<Rightarrow> ('c, unit) flres" where
  "setup_rw_floppy addr_of tmp P =
     with_fl_current (\<lambda>s.
       let s = (setup_DMA addr_of tmp P s)\<lparr>do_floppy := Some Rw_interrupt\<rparr> in
       retK () (if_reset P (output_bytes P (rw_bytes s) s)))"

definition specify :: "'c io_ports \<Rightarrow> 'c flsys \<Rightarrow> 'c flsys" where
  "specify P s =
     (let f = floppy_now s in
      if cur_spec1 s \<noteq> uint (fl_spec1 f)
      then output_bytes P [FD_SPECIFY, fl_spec1 f, 6] (s\<lparr>cur_spec1 := uint (fl_spec1 f)\<rparr>)
      else s)"

definition set_rate :: "'c io_ports \<Rightarrow> 'c flsys \<Rightarrow> 'c flsys" where
  "set_rate P s =
     (let f = floppy_now s in
      if cur_rate s \<noteq> uint (fl_rate f) then fc_upd (outb P FD_DCR (fl_rate f)) (s\<lparr>cur_rate := uint (fl_rate f)\<rparr>) else s)"

definition seek_bytes :: "'c flsys \<Rightarrow> u8 list" where
  "seek_bytes s = (if seek_track s \<noteq> 0 then [FD_SEEK, head_drive s, seek_track s] else [FD_RECALIBRATE, head_drive s])"

definition transfer :: "(nat \<Rightarrow> u32) \<Rightarrow> u32 \<Rightarrow> 'c io_ports \<Rightarrow> 'c flsys \<Rightarrow> ('c, unit) flres" where
  "transfer addr_of tmp P s =
     (let s = set_rate P (specify P s) in
      if fl_reset s then retK () (restart P s)
      else if \<not> seek s then setup_rw_floppy addr_of tmp P s
      else let s = s\<lparr>do_floppy := Some Seek_interrupt\<rparr> in retK () (if_reset P (output_bytes P (seek_bytes s) s)))"

text \<open>
  The timers' functions are numbered: 1 is \<^verbatim>\<open>floppy_on_interrupt\<close> and 2 is \<^verbatim>\<open>transfer\<close>.
\<close>

fun timer_nr :: "fl_timer \<Rightarrow> nat" where
  "timer_nr Floppy_on_interrupt = 1" | "timer_nr Transfer = 2"

definition floppy_on_interrupt :: "(nat \<Rightarrow> u32) \<Rightarrow> u32 \<Rightarrow> 'c io_ports \<Rightarrow> 'c flsys \<Rightarrow> ('c, unit) flres" where
  "floppy_on_interrupt addr_of tmp P s =
     (let s = ff_upd (upd_kernel (\<lambda>k. k\<lparr>fd_selected := True\<rparr>)) s in
      if current_drive s \<noteq> DOR s AND 3
      then let dor = (DOR s AND 0xFC) OR current_drive s;
               s = fc_upd (outb P FD_DOR dor) (ff_upd (upd_kernel (\<lambda>k. k\<lparr>current_DOR := dor\<rparr>)) s)
           in at_kern (add_timer 2 (Some (timer_nr Transfer))) s
      else transfer addr_of tmp P s)"

subsection \<open>Requests\<close>

text \<open>The place of a block on the disk.\<close>

definition place :: "nat \<Rightarrow> 'c flsys \<Rightarrow> 'c flsys" where
  "place block s =
     (let f = floppy_now s; sec = block mod fl_sect f; block = block div fl_sect f; tr = block div fl_head f;
          s = s\<lparr>sector := of_nat (sec + 1), fhead := of_nat (block mod fl_head f), track := of_nat tr,
                seek_track := of_nat (tr * 2 ^ fl_stretch f)\<rparr>
      in if seek_track s \<noteq> current_track s then s\<lparr>seek := True\<rparr> else s)"

definition the_command :: "rw_cmd \<Rightarrow> u8 option" where
  "the_command c = (if c = READ then Some FD_READ else if c = WRITE then Some FD_WRITE else None)"

definition wait_for_motor :: "(nat \<Rightarrow> u32) \<Rightarrow> u32 \<Rightarrow> 'c io_ports \<Rightarrow> 'c flsys \<Rightarrow> ('c, unit) flres" where
  "wait_for_motor addr_of tmp P s =
     bindK (at_kern (ticks_to_floppy_on (unat (current_drive s))) s) (\<lambda>ticks s.
       if ticks \<le> 0 then floppy_on_interrupt addr_of tmp P s
       else at_kern (add_timer ticks (Some (timer_nr Floppy_on_interrupt))) s)"

text \<open>One round: \<open>True\<close> if the request was out of range and has been ended.\<close>

definition fd_serve :: "(nat \<Rightarrow> u32) \<Rightarrow> u32 \<Rightarrow> 'c io_ports \<Rightarrow> 'c flsys \<Rightarrow> ('c, bool) flres" where
  "fd_serve addr_of tmp P s =
     (if queue (ff s) 2 = [] then retK False (s\<lparr>do_floppy := None\<rparr>)
      else bindK (at_ff (check_request 2 (fl_rq s)) s) (\<lambda>_ s.
        let d = the (r_dev (FL_CURRENT s)); drive = of_nat (MINOR d mod 4); block = r_sector (FL_CURRENT s) in
        if length floppy_type \<le> MINOR d div 4 then stopK (Wild ''do_fd_request: no such type'') s
        else let s = s\<lparr>floppy := MINOR d div 4, seek := (if current_drive s \<noteq> drive then True else seek s), current_drive := drive\<rparr> in
          if fl_size (floppy_now s) < (block + 2) mod 2 ^ 32 then retK True (ff_upd (end_request 2 False) s)
          else if fl_sect (floppy_now s) = 0 then stopK (Wild ''do_fd_request: divide error'') s
          else let s = place block s in
            case the_command (r_cmd (FL_CURRENT s)) of
              None \<Rightarrow> stopK (Panic ''do_fd_request: unknown command'') s
            | Some c \<Rightarrow> bindK (wait_for_motor addr_of tmp P (s\<lparr>command := c\<rparr>)) (\<lambda>_. retK False)))"

lemma ff_parts [simp]:
  "queue (upd_kernel f t) = queue t" "queue (upd_request q h t) = queue t" "queue (fs_say m t) = queue t"
  by (simp_all add: upd_kernel_def upd_request_def fs_say_def)

lemma fd_serve_again: "fd_serve addr_of tmp P s = Inr (True, s') \<Longrightarrow> length (queue (ff s') 2) < length (queue (ff s) 2)"
  by (auto simp: fd_serve_def Let_def at_ff_def check_request_def retK_def stopK_def ff_upd_def end_request_queue
      split: if_splits sum.splits option.splits)

function fd_rounds :: "(nat \<Rightarrow> u32) \<Rightarrow> u32 \<Rightarrow> 'c io_ports \<Rightarrow> 'c flsys \<Rightarrow> ('c, unit) flres" where
  "fd_rounds addr_of tmp P s =
     bindK (fd_serve addr_of tmp P s) (\<lambda>again s. if again then fd_rounds addr_of tmp P s else retK () s)"
  by pat_completeness auto
termination fd_rounds
  by (relation "measure (\<lambda>(_, _, _, s). length (queue (ff s) 2))") (auto dest: fd_serve_again)

declare fd_rounds.simps [simp del]

definition do_fd_request :: "(nat \<Rightarrow> u32) \<Rightarrow> u32 \<Rightarrow> 'c io_ports \<Rightarrow> 'c flsys \<Rightarrow> ('c, unit) flres" where
  "do_fd_request addr_of tmp P s =
     (let s = s\<lparr>seek := False\<rparr> in
      if fl_reset s then retK () (reset_floppy P s)
      else if fl_recalibrate s then retK () (recalibrate_floppy P s)
      else fd_rounds addr_of tmp P s)"

subsection \<open>Interrupts\<close>

definition drop_request :: "'c flsys \<Rightarrow> 'c flsys" where
  "drop_request s = ff_upd (end_request 2 False) (floppy_deselect (current_drive s) s)"

text \<open>After the last of too many errors the number of errors is the next request's, which there may not be.\<close>

definition bad_flp_intr :: "'c flsys \<Rightarrow> ('c, unit) flres" where
  "bad_flp_intr =
     with_fl_current (\<lambda>s.
       let s = ff_upd (upd_request (fl_rq s) (\<lambda>r. r\<lparr>r_errors := r_errors r + 1\<rparr>)) s;
           s = (if FL_MAX_ERRORS < r_errors (FL_CURRENT s) then drop_request s else s)
       in with_fl_current (\<lambda>s.
            retK () (if FL_MAX_ERRORS div 2 < r_errors (FL_CURRENT s)
                     then s\<lparr>fl_reset := True\<rparr> else s\<lparr>fl_recalibrate := True\<rparr>)) s)"

definition rw_failed :: "int \<Rightarrow> 'c flsys \<Rightarrow> bool" where
  "rw_failed n s \<longleftrightarrow> n \<noteq> 7 \<or> ST0 s AND 0xf8 \<noteq> 0 \<or> ST1 s AND 0xbf \<noteq> 0 \<or> ST2 s AND 0x73 \<noteq> 0"

definition rw_interrupt :: "(nat \<Rightarrow> u32) \<Rightarrow> u32 \<Rightarrow> 'c io_ports \<Rightarrow> 'c flsys \<Rightarrow> ('c, unit) flres" where
  "rw_interrupt addr_of tmp P s =
     (let (n, s) = result P s in
      if rw_failed n s
      then bindK (if ST1 s AND 2 \<noteq> 0
                  then with_fl_current (\<lambda>s. retK () (drop_request (ff_upd (fs_say ''Drive is write protected'') s))) s
                  else bad_flp_intr s) (\<lambda>_. do_fd_request addr_of tmp P)
      else with_fl_current (\<lambda>s.
        let r = FL_CURRENT s;
            s = (if command s = FD_READ \<and> needs_copy addr_of r
                 then ff_upd (store_bytes r 0 1024 (tmp_floppy_area s)) s else s);
            s = floppy_deselect (current_drive s) s
        in do_fd_request addr_of tmp P (ff_upd (end_request 2 True) s)) s)"

definition seek_interrupt :: "(nat \<Rightarrow> u32) \<Rightarrow> u32 \<Rightarrow> 'c io_ports \<Rightarrow> 'c flsys \<Rightarrow> ('c, unit) flres" where
  "seek_interrupt addr_of tmp P s =
     (let (n, s) = result P (output_byte P FD_SENSEI s) in
      if n \<noteq> 2 \<or> ST0 s AND 0xF8 \<noteq> 0x20 \<or> ST1 s \<noteq> seek_track s
      then bindK (bad_flp_intr s) (\<lambda>_. do_fd_request addr_of tmp P)
      else setup_rw_floppy addr_of tmp P (s\<lparr>current_track := ST1 s\<rparr>))"

definition sense :: "'c io_ports \<Rightarrow> 'c flsys \<Rightarrow> bool \<times> 'c flsys" where
  "sense P s = (let (n, s) = result P (output_byte P FD_SENSEI s) in (n \<noteq> 2 \<or> ST0 s AND 0xE0 = 0x60, s))"

definition recal_interrupt :: "(nat \<Rightarrow> u32) \<Rightarrow> u32 \<Rightarrow> 'c io_ports \<Rightarrow> 'c flsys \<Rightarrow> ('c, unit) flres" where
  "recal_interrupt addr_of tmp P s =
     (let (bad, s) = sense P s in
      do_fd_request addr_of tmp P (if bad then s\<lparr>fl_reset := True\<rparr> else s\<lparr>fl_recalibrate := False\<rparr>))"

definition unexpected_floppy_interrupt :: "'c io_ports \<Rightarrow> 'c flsys \<Rightarrow> 'c flsys" where
  "unexpected_floppy_interrupt P s =
     (let (bad, s) = sense P s in if bad then s\<lparr>fl_reset := True\<rparr> else s\<lparr>fl_recalibrate := True\<rparr>)"

definition reset_interrupt :: "(nat \<Rightarrow> u32) \<Rightarrow> u32 \<Rightarrow> 'c io_ports \<Rightarrow> 'c flsys \<Rightarrow> ('c, unit) flres" where
  "reset_interrupt addr_of tmp P s =
     (let (n, s) = result P (output_byte P FD_SENSEI s) in
      do_fd_request addr_of tmp P (output_bytes P [FD_SPECIFY, of_int (cur_spec1 s), 6] s))"

fun run_fl_intr :: "(nat \<Rightarrow> u32) \<Rightarrow> u32 \<Rightarrow> 'c io_ports \<Rightarrow> fl_intr option \<Rightarrow> 'c flsys \<Rightarrow> ('c, unit) flres" where
  "run_fl_intr addr_of tmp P None = (\<lambda>s. retK () (unexpected_floppy_interrupt P s))"
| "run_fl_intr addr_of tmp P (Some Rw_interrupt) = rw_interrupt addr_of tmp P"
| "run_fl_intr addr_of tmp P (Some Seek_interrupt) = seek_interrupt addr_of tmp P"
| "run_fl_intr addr_of tmp P (Some Recal_interrupt) = recal_interrupt addr_of tmp P"
| "run_fl_intr addr_of tmp P (Some Reset_interrupt) = reset_interrupt addr_of tmp P"

definition floppy_interrupt :: "(nat \<Rightarrow> u32) \<Rightarrow> u32 \<Rightarrow> 'c io_ports \<Rightarrow> 'c flsys \<Rightarrow> ('c, unit) flres" where
  "floppy_interrupt addr_of tmp P s =
     (let s = fc_upd (outb P 0x20 0x20) s in run_fl_intr addr_of tmp P (do_floppy s) (s\<lparr>do_floppy := None\<rparr>))"

subsection \<open>Set-up\<close>

definition floppy_sizes :: "nat \<Rightarrow> u32" where
  "floppy_sizes i = (if i < 32 then [0, 360, 1200, 360, 720, 360, 720, 1440] ! (i div 4) else 0)"

definition floppy_init :: "'c io_ports \<Rightarrow> 'c flsys \<Rightarrow> 'c flsys" where
  "floppy_init P s =
     (let s = ff_upd (\<lambda>t. t\<lparr>blk_size := (blk_size t)(2 \<mapsto> floppy_sizes)\<rparr>) s; (v, s) = at_fc (inb P 0x21) s
      in fc_upd (outb P 0x21 (v AND NOT 0x40)) s)"

end
