(* ===== verification/Floppy_Props.thy ===== *)
theory Floppy_Props
  imports Floppy Fs_Samples
begin

section \<open>The floppy disks: where a block is\<close>

text \<open>
  The place that the driver works out for the block of a request is right for every type of disk of the table, and a
  block does not lie across two cylinders, which the controller could not read in one command.
\<close>

definition floppy_geometry :: "floppy_struct \<Rightarrow> bool" where
  "floppy_geometry f \<longleftrightarrow>
     fl_head f = 2 \<and> 0 < fl_sect f \<and> fl_sect f \<le> 18 \<and> fl_size f = fl_track f * (2 * fl_sect f) \<and>
     fl_track f * 2 ^ fl_stretch f \<le> 80"

lemma floppy_types: "0 < t \<Longrightarrow> t < length floppy_type \<Longrightarrow> floppy_geometry (floppy_type ! t)"
proof -
  assume t: "0 < t" "t < length floppy_type"
  have all: "\<forall>f\<in>set (tl floppy_type). floppy_geometry f"
    by (simp add: floppy_type_def fl_type_def floppy_geometry_def)
  obtain k where k: "t = Suc k" using t(1) by (cases t) auto
  have "floppy_type ! t = tl floppy_type ! k" using t(2) unfolding k by (simp add: nth_tl)
  then show ?thesis using all t(2) unfolding k by (simp add: nth_mem)
qed

definition at_block :: "nat \<Rightarrow> floppy_struct \<Rightarrow> 'c flsys \<Rightarrow> bool" where
  "at_block block f s \<longleftrightarrow>
     (unat (track s) * fl_head f + unat (fhead s)) * fl_sect f + (unat (sector s) - 1) = block \<and>
     1 \<le> unat (sector s) \<and> unat (sector s) \<le> fl_sect f \<and> unat (fhead s) < fl_head f \<and> unat (track s) < fl_track f \<and>
     unat (seek_track s) = unat (track s) * 2 ^ fl_stretch f"

lemma unat_byte: "n < 256 \<Longrightarrow> unat (of_nat n :: u8) = n"
  by (simp add: unat_of_nat take_bit_nat_eq_self)

lemma place_at_block:
  assumes "floppy_geometry (floppy_now s)" "block + 2 \<le> fl_size (floppy_now s)" "even block"
  shows "at_block block (floppy_now s) (place block s)"
    and "(block + 1) div (fl_head (floppy_now s) * fl_sect (floppy_now s)) = unat (track (place block s))"
proof -
  let ?f = "floppy_now s"
  note g = assms(1)[unfolded floppy_geometry_def]
  let ?tr = "block div fl_sect ?f div fl_head ?f"
  have lt: "block < fl_track ?f * (2 * fl_sect ?f)" using assms(2) g by linarith
  then have tr: "?tr < fl_track ?f" using g by (simp add: div_mult2_eq[symmetric] div_less_iff_less_mult mult.commute)
  have "fl_track ?f \<le> fl_track ?f * 2 ^ fl_stretch ?f" by simp
  then have "?tr * 2 ^ fl_stretch ?f < 256" "?tr < 256" "block mod fl_sect ?f + 1 < 256"
    using tr g mult_le_mono1[of ?tr "fl_track ?f" "2 ^ fl_stretch ?f"] mod_less_divisor[of "fl_sect ?f" block] by linarith+
  then have small: "?tr * 2 ^ fl_stretch ?f < 256" "?tr < 256" "block mod fl_sect ?f + 1 < 256"
    "block div fl_sect ?f mod fl_head ?f < 256" using g by auto
  have w: "track (place block s) = of_nat ?tr" "sector (place block s) = of_nat (block mod fl_sect ?f + 1)"
    "fhead (place block s) = of_nat (block div fl_sect ?f mod fl_head ?f)" "seek_track (place block s) = of_nat (?tr * 2 ^ fl_stretch ?f)"
    by (simp_all add: place_def Let_def)
  note u = w[THEN arg_cong[of _ _ unat], unfolded unat_byte[OF small(1)] unat_byte[OF small(2)] unat_byte[OF small(3)] unat_byte[OF small(4)]]
  show "at_block block ?f (place block s)"
    unfolding at_block_def u using tr g Suc_leI[OF mod_less_divisor[of "fl_sect ?f" block]] by simp
  have "(block + 1) div (2 * fl_sect ?f) = block div (2 * fl_sect ?f)"
    using assms(3) g by (elim evenE) (simp add: div_mult2_eq)
  then show "(block + 1) div (fl_head ?f * fl_sect ?f) = unat (track (place block s))"
    unfolding u using g by (simp add: div_mult2_eq mult.commute)
qed

end
