(* ===== verification/Spec2Isabelle.thy ===== *)
theory Spec2Isabelle
  imports Mm_Props Exit_Props Sys_Props Signals_Props Emu_Props
    Blk_Props Buffer_Props Bitmap_Props Inode_Props Pipe_Props File_Props Echo_Props
    Vsprintf_Props Clock_Props Console_Props Malloc_Props Fault_Props Fork_Props Select_Props Exec_Props Str_Props Hd_Props Floppy_Props
begin

text \<open>
  \<^bold>\<open>A model of the Linux 0.12 kernel\<close>

  The development models the C code of the kernel under \<^verbatim>\<open>src/\<close>: memory management, the
  scheduler and the process tree, fork and exec, signals and the calls of \<^verbatim>\<open>kernel/sys.c\<close>, the emulation
  of the floating point coprocessor, block devices with the drivers of the hard disk and the floppies, the buffer cache,
  the MINIX file system, pipes, files and select, terminals, and the routines on strings. Every definition is a translation of a routine (or of a named part of one) and
  has the routine's name where Isabelle allows it.

  \<^bold>\<open>State.\<close> The state of a component is a record: \<open>kernel\<close> (the task table, jiffies, timers, user
  memory of the current process; \<open>Proc\<close>), \<open>mm\<close> (physical memory, the map of page frames, the swap map;
  \<open>Mm\<close>), \<open>terminals\<close> (the queues and the table of terminals; \<open>Tty\<close>), \<open>emu\<close> (a coprocessor
  instruction under emulation; \<open>Math_Emu\<close>), \<open>console\<close> (the screens and the video memory; \<open>Screen\<close>), and \<open>fsys\<close> (\<open>Fs_Base\<close>), which has buffers, inodes, super
  blocks, files and requests and holds the others, because the file system uses them all. Around it, \<open>psys\<close>
  (\<open>Fork\<close>) adds what only fork and exec touch (descriptors of segments, the saved registers), \<open>hsys\<close> (\<open>Hd\<close>) and \<open>flsys\<close>
  (\<open>Floppy\<close>) the variables of a driver and the controller behind its ports. A pointer
  into a table is the number of the entry, and \<open>None\<close> is the null pointer. Machine integers are words of
  their width; a C \<^verbatim>\<open>int\<close> or \<^verbatim>\<open>long\<close> that cannot overflow where it is used is an \<open>int\<close> or a
  \<open>nat\<close>.

  \<^bold>\<open>Effects.\<close> A routine that may not come back returns \<open>('s, 'a) res\<close> (\<open>Kprelude\<close>): an \<open>Inr\<close> with
  value and state, or an \<open>Inl\<close> with the reason: \<^verbatim>\<open>panic()\<close>, a \<^verbatim>\<open>do_exit\<close> inside the
  routine, an access through a pointer that points nowhere (\<open>Wild\<close>), a jump out of an emulated
  instruction, or a sleep nothing in the model ends (\<open>Sleeps\<close>). What other processes and interrupts do
  while the current process sleeps is a parameter: \<open>others\<close> in \<open>env\<close>, \<open>t_others\<close> in \<open>tenv\<close>. The properties
  that use these parameters hold for all of them, or name what they need of them. Port input is a parameter in the same
  way: for the drivers of \<open>Hd\<close> and \<open>Floppy\<close> a controller is a state and the functions \<open>inb\<close> and \<open>outb\<close> on it (\<open>io_ports\<close>), and what
  a property needs of the controller is a named hypothesis (\<open>reads_disk\<close>), which an instance meets. For the buffer cache the
  drivers other than the RAM disk and the change line of a floppy drive are parameters of \<open>env\<close>, and so is the output
  routine of consoles (\<open>con_write\<close> in \<open>tenv\<close>), for which \<open>with_console\<close> puts in the console driver. What page faults bring
  into a new address space besides the arguments is the parameter \<open>img\<close> of \<open>do_execve\<close>.

  \<^bold>\<open>Loops and bounds.\<close> Counted loops are \<open>forK\<close>, folds or structural recursion. The scheduler's loop and the
  walks over the process tree, which may run forever, are \<open>partial_function (option)\<close>; that they return is
  proved where they do. So are the search for a free process number (\<open>find_pid\<close>), the reading of the clock and the
  loops on strings that go up to the end of a string. Loops that start over after a sleep take \<open>rounds E\<close> rounds and then report
  \<open>Sleeps\<close>; since the parameters are arbitrary, so is their number. The loops over the bytes of a
  transfer have one round for each byte, which is enough, as every round moves at least one. The walk along
  a hash queue is bounded by the number of buffers, which is enough as long as the queues are linked
  properly (\<open>find_buffer_iff\<close>). Path names are followed up to \<open>path_max\<close> characters. Terminals that write to
  each other nest up to \<open>depth\<close>.

  \<^bold>\<open>Theories.\<close>

  \<^item> \<open>Kprelude\<close>, \<open>Interfaces\<close>, \<open>Ring_Buffer\<close>: machine types, routines that may not return, loops, pages; the
    contracts that components share: \<open>free_pool\<close>, a pool of numbers of which the least free one is handed
    out (interpreted on the swap map in \<open>Mm_Swap\<close> and on the zone and inode maps in \<open>Bitmap_Props\<close>), and
    \<open>stream\<close>, which bytes go into and come out of in order (interpreted on pipes in \<open>Pipe_Props\<close> and on the
    queues of terminals in \<open>Tty_Props\<close>). Two more stand where they are used: \<open>readiness\<close>, what a test of select reports and
    which queues it enters (\<open>Select_Props\<close>, interpreted on \<open>check_in\<close>, \<open>check_out\<close> and \<open>check_ex\<close>), and \<open>line_output\<close>, what the line
    discipline needs of \<^verbatim>\<open>tty->write\<close> (\<open>Tty_Props\<close>, interpreted on \<^verbatim>\<open>rs_write\<close> and
    \<^verbatim>\<open>con_write\<close> in \<open>Echo_Props\<close>).
  \<^item> \<open>Mm\<close>, \<open>Mm_Swap\<close>, \<open>Mm_Props\<close>: \<^verbatim>\<open>mm/{memory,swap}.c\<close>. The allocator returns a frame that was
    free; copied page tables share their pages read-only; a write to a shared page gets a private
    copy, unless memory has to be swapped out for it or is exhausted; a page that was swapped out comes back as it was.
  \<^item> \<open>Fault\<close>, \<open>Fault_Props\<close>: the page faults of \<^verbatim>\<open>mm/memory.c\<close>. Two processes that share a page
    of a program do not see each other's writes.
  \<^item> \<open>Malloc\<close>, \<open>Malloc_Props\<close>: \<^verbatim>\<open>lib/malloc.c\<close>. The buckets are refined to a set of blocks in use:
    blocks handed out are free and apart; freeing the last block of a page gives page and descriptor back.
  \<^item> \<open>Proc\<close>, \<open>Proc_Props\<close>: \<^verbatim>\<open>kernel/sched.c\<close>. The scheduler picks a runnable task with the largest
    counter, always returns, and timers fire after their number of ticks.
  \<^item> \<open>Useg\<close>: \<^verbatim>\<open>include/asm/segment.h\<close>, the error numbers, copying to and from user space.
  \<^item> \<open>Exit\<close>, \<open>Exit_Props\<close>: \<^verbatim>\<open>kernel/exit.c\<close>. The pointers of the process tree are refined to a list
    of children for each task; exiting, releasing and waiting are operations on these lists.
  \<^item> \<open>Fork\<close>, \<open>Fork_Props\<close>: \<^verbatim>\<open>kernel/fork.c\<close>. A new process has a number nobody has, runs where its parent
    runs and shares its pages and files; without memory no other task and no file or inode has changed.
  \<^item> \<open>Exec\<close>, \<open>Exec_Props\<close>: \<^verbatim>\<open>fs/exec.c\<close>. The strings of arguments and environment arrive in the new
    program with their tables.
  \<^item> \<open>Sys\<close>, \<open>Sys_Props\<close>, \<open>Signals\<close>, \<open>Signals_Props\<close>: \<^verbatim>\<open>kernel/{sys,signal}.c\<close>. No call gives
    a process an identity it did not have; what a handler finds on its stack; the signals that cannot be
    caught.
  \<^item> \<open>Math_Real\<close>, \<open>Math_Emu\<close>, \<open>Math_Props\<close>, \<open>Emu_Props\<close>: \<^verbatim>\<open>kernel/math/*.c\<close>. The value of
    the emulator's sums and products within exact bounds, round trips of the formats, the register stack.
  \<^item> \<open>Tty\<close>, \<open>Tty_Ioctl\<close>, \<open>Tty_Props\<close>: \<^verbatim>\<open>kernel/chr_drv/{tty_io,tty_ioctl,pty,serial}.c\<close>. The
    queues are streams; the line discipline computes what a line editor on lists computes. \<open>Echo_Props\<close> has this for serial
    lines, for consoles and for terminals that do not echo.
  \<^item> \<open>Screen\<close>, \<open>Screen_Props\<close>, \<open>Console\<close>, \<open>Console_Props\<close>: \<^verbatim>\<open>kernel/chr_drv/console.c\<close>. What is
    typed on a console changes nothing but its own part of the video memory; scrolling is scrolling on the list of
    lines, however it is done; the set-up gives every console such a part.
  \<^item> \<open>Vsprintf\<close>, \<open>Vsprintf_Props\<close>: \<^verbatim>\<open>kernel/{vsprintf,printk}.c\<close>. The layout of a printed number,
    and that it reads back.
  \<^item> \<open>Clock\<close>, \<open>Clock_Props\<close>: \<^verbatim>\<open>kernel/mktime.c\<close> and the reading of the clock in
    \<^verbatim>\<open>init/main.c\<close>. The seconds of a date are those of the calendar, in 32 bits.
  \<^item> \<open>Str_Ops\<close>, \<open>Str_Props\<close>: \<^verbatim>\<open>include/string.h\<close>. Moving bytes within an area, and the
    tokens \<^verbatim>\<open>strtok\<close> yields.
  \<^item> \<open>Fs_Base\<close>, \<open>Fs_Samples\<close>: the data of the file system, and concrete states.
  \<^item> \<open>Blkdev\<close>, \<open>Blk_Props\<close>: \<^verbatim>\<open>kernel/blk_drv/{blk.h,ll_rw_blk.c,ramdisk.c}\<close>. The list of
    requests is at most two ascending sweeps; the RAM disk serves its whole list.
  \<^item> \<open>Io_Ports\<close>, \<open>Hd\<close>, \<open>Hd_Props\<close>: \<^verbatim>\<open>kernel/blk_drv/hd.c\<close>. With a controller that reads the disk
    the driver puts a block's bytes into its buffer, interrupt by interrupt. \<open>Floppy\<close>, \<open>Floppy_Props\<close>:
    \<^verbatim>\<open>kernel/blk_drv/floppy.c\<close>. The place of a block on each type of disk.
  \<^item> \<open>Buffer\<close>, \<open>Buffer_Props\<close>: \<^verbatim>\<open>fs/buffer.c\<close>. The hash queues and the free list are doubly
    linked lists of the right buffers, and stay so when a buffer is taken over; a search finds a buffer
    exactly when there is one.
  \<^item> \<open>Bitmap\<close>, \<open>Inode\<close>, \<open>Bitmap_Props\<close>, \<open>Inode_Props\<close>: \<^verbatim>\<open>fs/{bitmap,inode,truncate}.c\<close>. The
    search for a free bit against its specification, taking and freeing numbers, inodes on the disk.
  \<^item> \<open>Namei\<close>, \<open>Namei_Sys\<close>, \<open>Super\<close>, \<open>File_Io\<close>, \<open>Open\<close>, \<open>Pipe_Props\<close>, \<open>File_Props\<close>:
    \<^verbatim>\<open>fs/{namei,super,pipe,file_dev,block_dev,char_dev,read_write,open,fcntl,stat,ioctl}.c\<close>. Pipes
    are streams; descriptors are counted; the errors of \<^verbatim>\<open>lseek\<close>.
  \<^item> \<open>Select\<close>, \<open>Select_Props\<close>: \<^verbatim>\<open>fs/select.c\<close>. What is reported as ready is ready, and the wait
    queues are put back; the timeout does not work.

  \<^bold>\<open>Not modelled.\<close> The assembler files (\<^verbatim>\<open>boot/*\<close>, \<^verbatim>\<open>kernel/{asm,sys_call}.s\<close>,
  \<^verbatim>\<open>mm/page.s\<close>, \<^verbatim>\<open>keyboard.S\<close>, \<^verbatim>\<open>rs_io.s\<close>): hardware set-up and entry code, but for the
  entries of the two disk interrupts. \<^verbatim>\<open>kernel/traps.c\<close>, which prints registers; \<^verbatim>\<open>main\<close>
  and \<^verbatim>\<open>init\<close> of \<^verbatim>\<open>init/main.c\<close>, which call the set-up routines; the stubs of system calls in
  \<^verbatim>\<open>lib/\<close>. Left out inside modelled routines: the exclusion of interrupts, the check of a user's area before it is
  written in \<open>waitpid_pass\<close> and \<open>do_signal\<close>, the freeing of the page of the task structure in \<open>release\<close>; a timer's routine
  that \<open>do_timer\<close> calls is an event in its trace.
  The properties of a routine that sleeps are stated for the part that does not, or for all behaviours of
  the other processes.
\<close>

end
